(* ===== verification/Prelude.thy ===== *)
theory Prelude
  imports Main "HOL-Library.AList" "HOL-Library.State_Monad"
begin

text \<open>
  Vocabulary shared by every component theory: Go errors as values, Go string maps as
  association lists, loops over slices in the state monad, and the frame rules by which the
  components prove what a handler leaves alone.
\<close>

named_theorems go_simps \<open>evaluation rules for the Go standard library functions\<close>
named_theorems run_simps \<open>how one API call or handler acts on the world\<close>
named_theorems frame_intros \<open>composition rules for frame conditions of handlers\<close>

section \<open>Errors\<close>

text \<open>
  The reasons the code distinguishes on an API error (\<open>errors.IsNotFound\<close>,
  \<open>IsAlreadyExists\<close>, \<open>IsConflict\<close>, \<open>meta.IsNoMatchError\<close>) and everything else.
\<close>

datatype reason = NotFound | AlreadyExists | Conflict | NoKindMatch | OtherReason

text \<open>
  A Go \<open>error\<close>: an API status error with its text, a plain \<open>fmt.Errorf\<close>/\<open>errors.New\<close>
  text, a text that wraps another error with \<open>%w\<close>, \<open>errors.Join\<close> of several, or a runtime panic
  of the handler, which the controller manager recovers and reports as an error.
\<close>

datatype goerr =
    ApiError reason string
  | ErrText string
  | Wrapped string goerr
  | Joined "goerr list"
  | Panicked string

text \<open>\<open>errors.As\<close> looks through wrapping; the predicates below use the first status error.\<close>

fun err_reason :: "goerr \<Rightarrow> reason" where
  "err_reason (ApiError r _) = r"
| "err_reason (ErrText _) = OtherReason"
| "err_reason (Panicked _) = OtherReason"
| "err_reason (Wrapped _ e) = err_reason e"
| "err_reason (Joined es) =
     (case filter (\<lambda>r. r \<noteq> OtherReason) (map err_reason es) of [] \<Rightarrow> OtherReason | r # _ \<Rightarrow> r)"

definition is_not_found :: "goerr \<Rightarrow> bool" where
  "is_not_found e \<longleftrightarrow> err_reason e = NotFound"

definition is_already_exists :: "goerr \<Rightarrow> bool" where
  "is_already_exists e \<longleftrightarrow> err_reason e = AlreadyExists"

definition is_conflict :: "goerr \<Rightarrow> bool" where
  "is_conflict e \<longleftrightarrow> err_reason e = Conflict"

definition is_no_match :: "goerr \<Rightarrow> bool" where
  "is_no_match e \<longleftrightarrow> err_reason e = NoKindMatch"

lemma is_reason_simps [simp]:
  "is_not_found (ApiError r s) \<longleftrightarrow> r = NotFound"
  "is_already_exists (ApiError r s) \<longleftrightarrow> r = AlreadyExists"
  "is_conflict (ApiError r s) \<longleftrightarrow> r = Conflict"
  "is_no_match (ApiError r s) \<longleftrightarrow> r = NoKindMatch"
  "is_not_found (Wrapped t e) \<longleftrightarrow> is_not_found e"
  "is_conflict (Wrapped t e) \<longleftrightarrow> is_conflict e"
  "\<not> is_not_found (ErrText s)"
  "\<not> is_conflict (ErrText s)"
  by (auto simp: is_not_found_def is_already_exists_def is_conflict_def is_no_match_def)

lemma is_reason_excl: "is_not_found e \<Longrightarrow> \<not> is_already_exists e \<and> \<not> is_conflict e \<and> \<not> is_no_match e"
  by (auto simp: is_not_found_def is_already_exists_def is_conflict_def is_no_match_def)

text \<open>\<open>strings.Join\<close>, and the text of an error (\<open>err.Error()\<close>).\<close>

fun join_with :: "string \<Rightarrow> string list \<Rightarrow> string" where
  "join_with sep [] = []"
| "join_with sep [s] = s"
| "join_with sep (s # t # ts) = s @ sep @ join_with sep (t # ts)"

fun err_text :: "goerr \<Rightarrow> string" where
  "err_text (ApiError _ s) = s"
| "err_text (ErrText s) = s"
| "err_text (Panicked s) = s"
| "err_text (Wrapped s e) = s @ '': '' @ err_text e"
| "err_text (Joined es) = join_with [CHR 0x0A] (map err_text es)"

text \<open>\<open>if err != nil { return err }\<close> between pure steps.\<close>

definition and_then :: "'e + 'a \<Rightarrow> ('a \<Rightarrow> 'e + 'b) \<Rightarrow> 'e + 'b" where
  "and_then r f = (case r of Inl e \<Rightarrow> Inl e | Inr x \<Rightarrow> f x)"

lemma and_then_simps [simp]: "and_then (Inl e) f = Inl e" "and_then (Inr x) f = f x"
  by (simp_all add: and_then_def)

lemma and_then_Inr: "and_then r f = Inr y \<longleftrightarrow> (\<exists>x. r = Inr x \<and> f x = Inr y)"
  by (cases r) auto

section \<open>Go string maps\<close>

text \<open>
  A Go \<open>map[string]string\<close> is an association list: the list order is one order in which
  \<open>range\<close> may visit it, and only \<^const>\<open>map_of\<close> of it is observable otherwise. A key that
  is absent reads as the empty string (the zero value), as \<open>m[k]\<close> does.
\<close>

type_synonym smap = "(string \<times> string) list"

definition mget :: "smap \<Rightarrow> string \<Rightarrow> string" where
  "mget m k = (case map_of m k of Some v \<Rightarrow> v | None \<Rightarrow> [])"

definition has_key :: "('k \<times> 'v) list \<Rightarrow> 'k \<Rightarrow> bool" where
  "has_key m k \<longleftrightarrow> map_of m k \<noteq> None"

abbreviation mset_key :: "'k \<Rightarrow> 'v \<Rightarrow> ('k \<times> 'v) list \<Rightarrow> ('k \<times> 'v) list" where
  "mset_key \<equiv> AList.update"

abbreviation mdel_key :: "'k \<Rightarrow> ('k \<times> 'v) list \<Rightarrow> ('k \<times> 'v) list" where
  "mdel_key \<equiv> AList.delete"

lemma map_of_mset_key [simp]: "map_of (mset_key k v m) = (map_of m)(k \<mapsto> v)"
  by (rule update_conv')

lemma map_of_mdel_key [simp]: "map_of (mdel_key k m) = (map_of m)(k := None)"
  by (rule delete_conv')

lemma has_key_mset_key [simp]: "has_key (mset_key k v m) k' \<longleftrightarrow> k' = k \<or> has_key m k'"
  by (auto simp: has_key_def)

lemma has_key_mdel_key [simp]: "has_key (mdel_key k m) k' \<longleftrightarrow> k' \<noteq> k \<and> has_key m k'"
  by (auto simp: has_key_def)

lemma mget_mset_key [simp]: "mget (mset_key k v m) k' = (if k' = k then v else mget m k')"
  by (auto simp: mget_def)

lemma mget_mdel_key [simp]: "mget (mdel_key k m) k' = (if k' = k then [] else mget m k')"
  by (auto simp: mget_def)

text \<open>
  The loop \<open>for key, val := range extra { if _, ok := m[key]; !ok { m[key] = val } }\<close> that
  the code uses to add labels without overwriting the ones it set itself.
\<close>

fun add_missing :: "('k \<times> 'v) list \<Rightarrow> ('k \<times> 'v) list \<Rightarrow> ('k \<times> 'v) list" where
  "add_missing m [] = m"
| "add_missing m ((k, v) # extra) =
     add_missing (if has_key m k then m else mset_key k v m) extra"

lemma map_of_add_missing [simp]: "map_of (add_missing m extra) = map_of extra ++ map_of m"
  by (induction m extra rule: add_missing.induct)
     (auto simp: has_key_def map_add_def fun_eq_iff split: option.splits)

lemma add_missing_keeps: "map_of m k = Some v \<Longrightarrow> map_of (add_missing m extra) k = Some v"
  by (simp add: map_add_Some_iff)

text \<open>\<open>reflect.DeepEqual\<close> of two maps: the same keys with the same values, in whatever order.\<close>

definition same_map :: "('k \<times> 'v) list \<Rightarrow> ('k \<times> 'v) list \<Rightarrow> bool" where
  "same_map m m' \<longleftrightarrow> (\<forall>k \<in> set (map fst m @ map fst m'). map_of m k = map_of m' k)"

lemma same_map_iff: "same_map m m' \<longleftrightarrow> map_of m = map_of m'"
proof
  assume s: "same_map m m'"
  show "map_of m = map_of m'"
  proof
    fix k
    show "map_of m k = map_of m' k"
    proof (cases "k \<in> fst ` set m \<union> fst ` set m'")
      case True
      with s show ?thesis by (auto simp: same_map_def)
    next
      case False
      then have "map_of m k = None" "map_of m' k = None"
        by (simp_all add: map_of_eq_None_iff)
      then show ?thesis by simp
    qed
  qed
qed (simp add: same_map_def)

lemma find_SomeD: "find P xs = Some x \<Longrightarrow> x \<in> set xs \<and> P x"
  by (auto simp: find_Some_iff)

section \<open>Loops and branches in the state monad\<close>

text \<open>A \<open>for\<close> loop whose body always continues; the accumulator is what the body assigns.\<close>

primrec loopM :: "('b \<Rightarrow> 'a \<Rightarrow> ('s, 'b) state) \<Rightarrow> 'b \<Rightarrow> 'a list \<Rightarrow> ('s, 'b) state" where
  "loopM f b [] = State_Monad.return b"
| "loopM f b (x # xs) = State_Monad.bind (f b x) (\<lambda>b'. loopM f b' xs)"

text \<open>A \<open>for\<close> loop whose body may return from the function: \<open>Inl r\<close> returns \<open>r\<close>.\<close>

primrec loopE :: "('b \<Rightarrow> 'a \<Rightarrow> ('s, 'r + 'b) state) \<Rightarrow> 'b \<Rightarrow> 'a list \<Rightarrow> ('s, 'r + 'b) state" where
  "loopE f b [] = State_Monad.return (Inr b)"
| "loopE f b (x # xs) =
     State_Monad.bind (f b x) (\<lambda>r. case r of Inl e \<Rightarrow> State_Monad.return (Inl e) | Inr b' \<Rightarrow> loopE f b' xs)"

lemma loopM_append:
  "loopM f b (xs @ ys) = State_Monad.bind (loopM f b xs) (\<lambda>b'. loopM f b' ys)"
  by (induction xs arbitrary: b) auto

section \<open>Frame conditions\<close>

text \<open>
  A frame is a reflexive, transitive relation between the world before and after. Every
  handler proof of the form ``this never changes that'' is an instance: the relation holds of
  each API call, and the rules below carry it through sequencing, branching and loops.
\<close>

locale frame =
  fixes R :: "'s \<Rightarrow> 's \<Rightarrow> bool"
  assumes frame_refl: "R s s"
    and frame_trans: "R s t \<Longrightarrow> R t u \<Longrightarrow> R s u"
begin

lemma return_frame: "state_io_rel R (State_Monad.return x)"
  by (auto intro!: state_io_relI simp: frame_refl)

lemma bind_frame:
  assumes "state_io_rel R m" and "\<And>x. state_io_rel R (f x)"
  shows "state_io_rel R (State_Monad.bind m f)"
proof (rule state_io_relI)
  fix a s u
  assume "run_state (State_Monad.bind m f) s = (a, u)"
  then obtain x t where 1: "run_state m s = (x, t)" and 2: "run_state (f x) t = (a, u)"
    by (auto split: prod.splits)
  show "R s u"
    using frame_trans [OF state_io_relD [OF assms(1) 1] state_io_relD [OF assms(2) 2]] .
qed

lemma bind_frame_result:
  assumes "state_io_rel R m" and "\<And>x s t. run_state m s = (x, t) \<Longrightarrow> state_io_rel R (f x)"
  shows "state_io_rel R (State_Monad.bind m f)"
proof (rule state_io_relI)
  fix a s u
  assume "run_state (State_Monad.bind m f) s = (a, u)"
  then obtain x t where 1: "run_state m s = (x, t)" and 2: "run_state (f x) t = (a, u)"
    by (auto split: prod.splits)
  show "R s u"
    using frame_trans [OF state_io_relD [OF assms(1) 1] state_io_relD [OF assms(2) [OF 1] 2]] .
qed

lemma if_frame:
  "(c \<Longrightarrow> state_io_rel R m) \<Longrightarrow> (\<not> c \<Longrightarrow> state_io_rel R n) \<Longrightarrow> state_io_rel R (if c then m else n)"
  by simp

lemma option_frame:
  "state_io_rel R m \<Longrightarrow> (\<And>x. a = Some x \<Longrightarrow> state_io_rel R (f x)) \<Longrightarrow>
    state_io_rel R (case a of None \<Rightarrow> m | Some x \<Rightarrow> f x)"
  by (cases a) auto

lemma sum_frame:
  "(\<And>e. a = Inl e \<Longrightarrow> state_io_rel R (f e)) \<Longrightarrow> (\<And>x. a = Inr x \<Longrightarrow> state_io_rel R (g x)) \<Longrightarrow>
    state_io_rel R (case a of Inl e \<Rightarrow> f e | Inr x \<Rightarrow> g x)"
  by (cases a) auto

lemma list_frame:
  "state_io_rel R m \<Longrightarrow> (\<And>x xs. a = x # xs \<Longrightarrow> state_io_rel R (f x xs)) \<Longrightarrow>
    state_io_rel R (case a of [] \<Rightarrow> m | x # xs \<Rightarrow> f x xs)"
  by (cases a) auto

lemma prod_frame:
  "(\<And>x y. a = (x, y) \<Longrightarrow> state_io_rel R (f x y)) \<Longrightarrow> state_io_rel R (case a of (x, y) \<Rightarrow> f x y)"
  by (cases a) auto

lemma let_frame: "(\<And>x. x = a \<Longrightarrow> state_io_rel R (f x)) \<Longrightarrow> state_io_rel R (let x = a in f x)"
  by simp

lemma loopM_frame:
  assumes "\<And>b x. x \<in> set xs \<Longrightarrow> state_io_rel R (f b x)"
  shows "state_io_rel R (loopM f b xs)"
  using assms by (induction xs arbitrary: b) (auto intro!: return_frame bind_frame)

lemma loopE_frame:
  assumes "\<And>b x. x \<in> set xs \<Longrightarrow> state_io_rel R (f b x)"
  shows "state_io_rel R (loopE f b xs)"
  using assms
  by (induction xs arbitrary: b) (auto intro!: return_frame bind_frame sum_frame)

lemmas frame_rules =
  return_frame bind_frame if_frame option_frame sum_frame list_frame prod_frame let_frame
  loopM_frame loopE_frame

lemma frame_run: "state_io_rel R m \<Longrightarrow> run_state m s = (a, t) \<Longrightarrow> R s t"
  by (rule state_io_relD)

lemma frame_snd: "state_io_rel R m \<Longrightarrow> R s (snd (run_state m s))"
  by (simp add: state_io_rel_def)

end

text \<open>
  Two frames every component uses: a reading \<open>f\<close> of the world is unchanged, and the world
  keeps a predicate.
\<close>

interpretation same_frame: frame "\<lambda>s t. f t = f s" for f :: "'s \<Rightarrow> 'b"
  by unfold_locales auto

interpretation inv_frame: frame "\<lambda>s t. I s \<longrightarrow> I t" for I :: "'s \<Rightarrow> bool"
  by unfold_locales auto

text \<open>Invariants are used step by step: a later step may rely on what an earlier one returned.\<close>

lemma inv_bind:
  assumes "state_io_rel (\<lambda>s t. I s \<longrightarrow> I t) m"
    and "\<And>x s t. I s \<Longrightarrow> run_state m s = (x, t) \<Longrightarrow> state_io_rel (\<lambda>s t. I s \<longrightarrow> I t) (f x)"
  shows "state_io_rel (\<lambda>s t. I s \<longrightarrow> I t) (State_Monad.bind m f)"
proof (rule state_io_relI, rule impI)
  fix a s u
  assume "run_state (State_Monad.bind m f) s = (a, u)" and I: "I s"
  then obtain x t where 1: "run_state m s = (x, t)" and 2: "run_state (f x) t = (a, u)"
    by (auto split: prod.splits)
  from state_io_relD [OF assms(1) 1] I have "I t" by blast
  with state_io_relD [OF assms(2) [OF I 1] 2] show "I u" by blast
qed

lemma inv_conj:
  assumes "state_io_rel (\<lambda>s t. I s \<longrightarrow> I t) m" and "state_io_rel (\<lambda>s t. J s \<longrightarrow> J t) m"
  shows "state_io_rel (\<lambda>s t. I s \<and> J s \<longrightarrow> I t \<and> J t) m"
  using assms by (simp add: state_io_rel_def)

text \<open>A store is unchanged outside a set of keys.\<close>

definition changes_only :: "'k set \<Rightarrow> ('s \<Rightarrow> ('k \<times> 'v) list) \<Rightarrow> 's \<Rightarrow> 's \<Rightarrow> bool" where
  "changes_only K sel s t \<longleftrightarrow> (\<forall>k. k \<notin> K \<longrightarrow> map_of (sel t) k = map_of (sel s) k)"

interpretation only_frame: frame "changes_only K sel" for K :: "'k set" and sel :: "'s \<Rightarrow> ('k \<times> 'v) list"
  by unfold_locales (auto simp: changes_only_def)

lemma changes_onlyD: "changes_only K sel s t \<Longrightarrow> k \<notin> K \<Longrightarrow> map_of (sel t) k = map_of (sel s) k"
  by (simp add: changes_only_def)


text \<open>A store only loses entries, and only under the given keys.\<close>

definition deletes_only :: "'k set \<Rightarrow> ('s \<Rightarrow> ('k \<times> 'v) list) \<Rightarrow> 's \<Rightarrow> 's \<Rightarrow> bool" where
  "deletes_only K sel s t \<longleftrightarrow>
     (\<forall>k. map_of (sel t) k = map_of (sel s) k \<or> k \<in> K \<and> map_of (sel t) k = None)"

interpretation deletes_frame: frame "deletes_only K sel"
  for K :: "'k set" and sel :: "'s \<Rightarrow> ('k \<times> 'v) list"
proof unfold_locales
  show "deletes_only K sel s t \<Longrightarrow> deletes_only K sel t u \<Longrightarrow> deletes_only K sel s u" for s t u
    unfolding deletes_only_def by metis
qed (simp add: deletes_only_def)

lemma deletes_only_sel:
  "deletes_only K sel s t \<Longrightarrow> sel u = sel t \<Longrightarrow> deletes_only K sel s u"
  by (simp add: deletes_only_def)

lemma deletes_only_mdel:
  "deletes_only K sel s t \<Longrightarrow> k \<in> K \<Longrightarrow> sel u = mdel_key k (sel t) \<Longrightarrow> deletes_only K sel s u"
  by (auto simp: deletes_only_def)

lemma deletes_onlyD:
  "deletes_only K sel s t \<Longrightarrow> map_of (sel t) k \<noteq> map_of (sel s) k \<Longrightarrow> k \<in> K \<and> map_of (sel t) k = None"
  unfolding deletes_only_def by metis

end
