(* ===== verification/GoStd.thy ===== *)
theory GoStd
  imports Prelude "HOL-Library.Char_ord"
begin

text \<open>
  The functions of the Go standard library that the modelled code calls, on Go strings as
  byte strings (\<^typ>\<open>string\<close>): \<open>strings\<close>, \<open>strconv\<close>. \<open>fmt.Sprintf\<close> with \<open>%s\<close>, \<open>%v\<close>, \<open>%d\<close> is
  written out as concatenation where it is used.
\<close>

section \<open>strings\<close>

definition has_prefix :: "string \<Rightarrow> string \<Rightarrow> bool" where
  "has_prefix s p \<longleftrightarrow> take (length p) s = p"

definition has_suffix :: "string \<Rightarrow> string \<Rightarrow> bool" where
  "has_suffix s p \<longleftrightarrow> length p \<le> length s \<and> drop (length s - length p) s = p"

definition trim_suffix :: "string \<Rightarrow> string \<Rightarrow> string" where
  "trim_suffix s p = (if has_suffix s p then take (length s - length p) s else s)"

text \<open>\<open>strings.Split(s, sep)\<close> for a separator of one byte: never empty.\<close>

fun split_char :: "char \<Rightarrow> string \<Rightarrow> string list" where
  "split_char c [] = [[]]"
| "split_char c (x # s) =
     (if x = c then [] # split_char c s
      else (case split_char c s of [] \<Rightarrow> [[x]] | t # ts \<Rightarrow> (x # t) # ts))"

text \<open>\<open>strings.TrimRightFunc\<close> and \<open>strings.TrimRight(s, cutset)\<close> (a set of bytes, not a suffix).\<close>

definition trim_right_func :: "(char \<Rightarrow> bool) \<Rightarrow> string \<Rightarrow> string" where
  "trim_right_func p s = rev (dropWhile p (rev s))"

definition trim_right :: "string \<Rightarrow> string \<Rightarrow> string" where
  "trim_right s cutset = trim_right_func (\<lambda>c. c \<in> set cutset) s"

definition is_space :: "char \<Rightarrow> bool" where
  "is_space c \<longleftrightarrow> c \<in> set [CHR 0x20, CHR 0x09, CHR 0x0A, CHR 0x0B, CHR 0x0C, CHR 0x0D]"

definition trim_space :: "string \<Rightarrow> string" where
  "trim_space s = trim_right_func is_space (dropWhile is_space s)"

text \<open>\<open>strings.Index\<close>: the first position at which \<open>p\<close> occurs, \<open>None\<close> for Go's \<open>-1\<close>.\<close>

fun str_index :: "string \<Rightarrow> string \<Rightarrow> nat option" where
  "str_index [] p = (if p = [] then Some 0 else None)"
| "str_index (c # s) p =
     (if has_prefix (c # s) p then Some 0 else map_option Suc (str_index s p))"

definition str_contains :: "string \<Rightarrow> string \<Rightarrow> bool" where
  "str_contains s p \<longleftrightarrow> str_index s p \<noteq> None"

text \<open>
  \<open>strings.EqualFold\<close>. ASCII letters fold to lower case; U+017F (bytes C5 BF) folds to \<open>s\<close>
  and U+212A (E2 84 AA) to \<open>k\<close>, the two non-ASCII code points that fold to ASCII. This is
  exact when one side is ASCII, as it is in every use modelled here.
\<close>

definition ascii_lower :: "char \<Rightarrow> char" where
  "ascii_lower c =
     (if 65 \<le> (of_char c :: nat) \<and> (of_char c :: nat) \<le> 90 then char_of ((of_char c :: nat) + 32) else c)"

fun fold_case :: "string \<Rightarrow> string" where
  "fold_case [] = []"
| "fold_case (a # s) =
     (case s of
        b # s1 \<Rightarrow>
          (if a = CHR 0xC5 \<and> b = CHR 0xBF then CHR ''s'' # fold_case s1
           else (case s1 of
                   d # s2 \<Rightarrow> (if a = CHR 0xE2 \<and> b = CHR 0x84 \<and> d = CHR 0xAA
                             then CHR ''k'' # fold_case s2
                             else ascii_lower a # fold_case s)
                 | [] \<Rightarrow> ascii_lower a # fold_case s))
      | [] \<Rightarrow> [ascii_lower a])"

definition equal_fold :: "string \<Rightarrow> string \<Rightarrow> bool" where
  "equal_fold s t \<longleftrightarrow> fold_case s = fold_case t"

section \<open>strconv\<close>

text \<open>\<open>strconv.ParseBool\<close>: \<open>None\<close> is the error.\<close>

definition parse_bool :: "string \<Rightarrow> bool option" where
  "parse_bool s =
     (if s \<in> set [''1'', ''t'', ''T'', ''true'', ''TRUE'', ''True''] then Some True
      else if s \<in> set [''0'', ''f'', ''F'', ''false'', ''FALSE'', ''False''] then Some False
      else None)"

definition format_bool :: "bool \<Rightarrow> string" where
  "format_bool b = (if b then ''true'' else ''false'')"

fun digits_of :: "nat \<Rightarrow> string" where
  "digits_of n = (if n < 10 then [char_of (48 + n)] else digits_of (n div 10) @ [char_of (48 + n mod 10)])"

declare digits_of.simps [simp del]

definition itoa :: "int \<Rightarrow> string" where
  "itoa i = (if i < 0 then ''-'' @ digits_of (nat (- i)) else digits_of (nat i))"

section \<open>Facts\<close>

lemma split_char_nonempty [simp]: "split_char c s \<noteq> []"
  by (induction s) (auto split: list.splits)

lemma split_char_no_sep: "c \<notin> set s \<Longrightarrow> split_char c s = [s]"
  by (induction s) auto

lemma split_char_Cons: "c \<notin> set s \<Longrightarrow> split_char c (s @ c # t) = s # split_char c t"
  by (induction s) auto

lemma join_split: "join_with [c] (split_char c s) = s"
proof (induction s)
  case (Cons x s)
  then show ?case
    by (cases "split_char c s" rule: list.exhaust; cases "tl (split_char c s)") auto
qed simp

lemma length_trim_right_func: "length (trim_right_func p s) \<le> length s"
  using length_dropWhile_le [of p "rev s"] by (simp add: trim_right_func_def)

lemma trim_right_func_prefix: "\<exists>t. s = trim_right_func p s @ t \<and> (\<forall>c \<in> set t. p c)"
proof -
  have "s = rev (dropWhile p (rev s)) @ rev (takeWhile p (rev s))"
    by (metis rev_append rev_rev_ident takeWhile_dropWhile_id)
  then show ?thesis
    by (auto simp: trim_right_func_def dest: set_takeWhileD intro!: exI [of _ "rev (takeWhile p (rev s))"])
qed

lemma last_trim_right_func: "trim_right_func p s \<noteq> [] \<Longrightarrow> \<not> p (last (trim_right_func p s))"
  by (simp add: trim_right_func_def last_rev hd_dropWhile)

lemma trim_right_func_id: "s = [] \<or> \<not> p (last s) \<Longrightarrow> trim_right_func p s = s"
  by (cases s rule: rev_cases) (auto simp: trim_right_func_def)

lemma trim_right_func_append: "(\<forall>c \<in> set t. p c) \<Longrightarrow> trim_right_func p (s @ t) = trim_right_func p s"
  by (induction t rule: rev_induct) (auto simp: trim_right_func_def)

lemma trim_right_func_keep:
  assumes "xs \<noteq> []" and "\<not> p (last xs)"
  shows "\<exists>t. trim_right_func p (xs @ u) = xs @ t"
proof (cases "\<forall>c \<in> set u. p c")
  case True
  with assms have "trim_right_func p (xs @ u) = xs @ []"
    by (simp add: trim_right_func_append trim_right_func_id)
  then show ?thesis by blast
next
  case False
  then have "dropWhile p (rev u @ rev xs) = dropWhile p (rev u) @ rev xs"
    by (auto simp: dropWhile_append)
  then have "trim_right_func p (xs @ u) = xs @ rev (dropWhile p (rev u))"
    by (simp add: trim_right_func_def)
  then show ?thesis by blast
qed

lemma parse_bool_format [simp]: "parse_bool (format_bool b) = Some b"
  by (simp add: parse_bool_def format_bool_def)

lemma digits_of_nonempty [simp]: "digits_of n \<noteq> []"
  by (subst digits_of.simps) simp

lemma has_prefix_append [simp]: "has_prefix (p @ s) p"
  by (simp add: has_prefix_def)

lemma has_prefix_iff: "has_prefix s p \<longleftrightarrow> (\<exists>t. s = p @ t)"
  by (auto simp: has_prefix_def) (metis append_take_drop_id)

lemma has_suffix_iff: "has_suffix s p \<longleftrightarrow> (\<exists>t. s = t @ p)"
  by (auto simp: has_suffix_def) (metis append_take_drop_id)

lemma trim_suffix_append [simp]: "trim_suffix (s @ p) p = s"
  by (simp add: trim_suffix_def has_suffix_def)

end
