(* ===== verification/ApiTypes.thy ===== *)
theory ApiTypes
  imports GoStd
begin

text \<open>
  The API objects the controllers read and write, with the fields the code looks at. Types from
  \<open>pkg/apis\<close> follow the Go structs; the types of the Kubernetes, Open Cluster Management and Argo CD
  APIs are cut down to the fields used. A Go pointer that may be nil is an \<open>option\<close>, a Go map a
  string map of the prelude, a Go struct a record, and an \<open>unstructured\<close> object a metadata record
  with its other top-level fields as a JSON tree.
\<close>

section \<open>Metadata and unstructured objects\<close>

record owner_ref =
  or_apiVersion :: string
  or_kind :: string
  or_name :: string

record meta =
  m_name :: string
  m_ns :: string
  m_labels :: smap
  m_annos :: smap
  m_finalizers :: "string list"
  m_deleting :: bool
  m_uid :: string
  m_owners :: "owner_ref list"

definition plain_meta :: "string \<Rightarrow> string \<Rightarrow> smap \<Rightarrow> smap \<Rightarrow> meta" where
  "plain_meta nm ns labels annos =
     \<lparr>m_name = nm, m_ns = ns, m_labels = labels, m_annos = annos,
      m_finalizers = [], m_deleting = False, m_uid = [], m_owners = []\<rparr>"

lemma plain_meta_simps [simp]:
  "m_name (plain_meta nm ns l a) = nm"
  "m_ns (plain_meta nm ns l a) = ns"
  "m_labels (plain_meta nm ns l a) = l"
  "m_annos (plain_meta nm ns l a) = a"
  "m_finalizers (plain_meta nm ns l a) = []"
  "m_owners (plain_meta nm ns l a) = []"
  by (simp_all add: plain_meta_def)

text \<open>\<open>interface{}\<close> values as the JSON decoder builds them.\<close>

datatype json =
    JNull
  | JBool bool
  | JNum int
  | JStr string
  | JArr "json list"
  | JObj "(string \<times> json) list"

type_synonym jobj = "(string \<times> json) list"

record unstructured =
  u_meta :: meta
  u_fields :: jobj

text \<open>
  \<open>reflect.DeepEqual\<close> of two JSON values and of two unstructured objects: maps compare by their
  keys and values, whatever their order.
\<close>

function (sequential) json_same :: "json \<Rightarrow> json \<Rightarrow> bool" where
  "json_same (JObj m) (JObj n) =
     (list_all (\<lambda>(k, v). case map_of n k of Some v' \<Rightarrow> json_same v v' | None \<Rightarrow> False) m \<and>
      list_all (\<lambda>(k, v). has_key m k) n)"
| "json_same (JArr xs) (JArr ys) =
     (length xs = length ys \<and> list_all (\<lambda>(x, y). json_same x y) (zip xs ys))"
| "json_same a b = (a = b)"
  by pat_completeness auto

termination
proof (relation "measure (\<lambda>(a, b). size a)", goal_cases)
  case (2 m n kv k v v')
  have "size v \<le> size_list (size_prod (\<lambda>_. 0) size) m"
    using 2(1,2) by (intro size_list_estimation' [of "(k, v)" m "size v" "size_prod (\<lambda>_. 0) size"]) auto
  then show ?case using 2 by simp
next
  case (3 xs ys xy x y)
  then have "x \<in> set xs" by (auto dest: set_zip_leftD)
  then show ?case
    using size_list_estimation' [of x xs "size x" size] by simp
qed simp

definition meta_same :: "meta \<Rightarrow> meta \<Rightarrow> bool" where
  "meta_same a b \<longleftrightarrow>
     same_map (m_labels a) (m_labels b) \<and> same_map (m_annos a) (m_annos b) \<and>
     a\<lparr>m_labels := [], m_annos := []\<rparr> = b\<lparr>m_labels := [], m_annos := []\<rparr>"

definition unstructured_same :: "unstructured \<Rightarrow> unstructured \<Rightarrow> bool" where
  "unstructured_same a b \<longleftrightarrow>
     meta_same (u_meta a) (u_meta b) \<and> json_same (JObj (u_fields a)) (JObj (u_fields b))"

text \<open>\<open>m[key].(map[string]interface{})\<close> and \<open>m[key].(string)\<close> with the comma-ok form.\<close>

definition jget_obj :: "jobj \<Rightarrow> string \<Rightarrow> jobj option" where
  "jget_obj m k = (case map_of m k of Some (JObj o') \<Rightarrow> Some o' | _ \<Rightarrow> None)"

definition jget_str :: "jobj \<Rightarrow> string \<Rightarrow> string option" where
  "jget_str m k = (case map_of m k of Some (JStr s) \<Rightarrow> Some s | _ \<Rightarrow> None)"

text \<open>
  \<open>unstructured.NestedString\<close>: the string at a path, whether it was found, and an error when a
  value on the path is not a map or the value is not a string.
\<close>

fun nested_field :: "jobj \<Rightarrow> string list \<Rightarrow> goerr + json option" where
  "nested_field m [] = Inr (Some (JObj m))"
| "nested_field m [k] = Inr (map_of m k)"
| "nested_field m (k # k' # ks) =
     (case map_of m k of
        None \<Rightarrow> Inr None
      | Some JNull \<Rightarrow> Inr None
      | Some (JObj m') \<Rightarrow> nested_field m' (k' # ks)
      | Some _ \<Rightarrow> Inl (ErrText ''accessor error: value is not of the type expected''))"

definition nested_string :: "jobj \<Rightarrow> string list \<Rightarrow> goerr + string option" where
  "nested_string m ks =
     (case nested_field m ks of
        Inl e \<Rightarrow> Inl e
      | Inr None \<Rightarrow> Inr None
      | Inr (Some (JStr s)) \<Rightarrow> Inr (Some s)
      | Inr (Some _) \<Rightarrow> Inl (ErrText ''accessor error: value is not of the type expected''))"

text \<open>
  \<open>unstructured.SetNestedField\<close>: creates the maps missing on the path, fails when a value on it
  is not a map.
\<close>

fun set_nested :: "jobj \<Rightarrow> json \<Rightarrow> string list \<Rightarrow> goerr + jobj" where
  "set_nested m v [] = Inr m"
| "set_nested m v [k] = Inr (mset_key k v m)"
| "set_nested m v (k # k' # ks) =
     (case map_of m k of
        None \<Rightarrow>
          (case set_nested [] v (k' # ks) of
             Inl e \<Rightarrow> Inl e | Inr m' \<Rightarrow> Inr (mset_key k (JObj m') m))
      | Some (JObj m0) \<Rightarrow>
          (case set_nested m0 v (k' # ks) of
             Inl e \<Rightarrow> Inl e | Inr m' \<Rightarrow> Inr (mset_key k (JObj m') m))
      | Some _ \<Rightarrow> Inl (ErrText ''value cannot be set because a parent is not a map''))"

lemma set_nested_get: "set_nested m v ks = Inr m' \<Longrightarrow> ks \<noteq> [] \<Longrightarrow> nested_field m' ks = Inr (Some v)"
  by (induction m v ks arbitrary: m' rule: set_nested.induct)
     (auto split: option.splits json.splits sum.splits)

lemma set_nested_other:
  "set_nested m v (k # ks) = Inr m' \<Longrightarrow> j \<noteq> k \<Longrightarrow> map_of m' j = map_of m j"
  by (cases ks) (auto split: option.splits json.splits sum.splits)

lemma nested_field_cong: "map_of m k = map_of m' k \<Longrightarrow> nested_field m (k # ks) = nested_field m' (k # ks)"
  by (cases ks) simp_all

section \<open>Kubernetes core objects\<close>

datatype cond_status = CTrue | CFalse | CUnknown

record secret =
  s_meta :: meta
  s_type :: string
  s_data :: smap
  s_string_data :: smap

text \<open>
  The API server stores a Secret with its write-only \<open>stringData\<close> folded into \<open>data\<close>, where it
  takes precedence.
\<close>

definition persist_secret :: "secret \<Rightarrow> secret" where
  "persist_secret s =
     s\<lparr>s_data := fold (\<lambda>(k, v) m. mset_key k v m) (s_string_data s) (s_data s), s_string_data := []\<rparr>"

record configmap =
  cm_meta :: meta
  cm_data :: smap

record container =
  ct_name :: string
  ct_image :: string

record deployment =
  dp_meta :: meta
  dp_containers :: "container list"

record service_port =
  sp_name :: string
  sp_port :: int
  sp_nodePort :: int

text \<open>A Service, with its load balancer's ingress points as host name and IP.\<close>

record service =
  sv_meta :: meta
  sv_type :: string
  sv_ports :: "service_port list"
  sv_ingress :: "(string \<times> string) list"

text \<open>A node with the type and value of its addresses; a route with whether it has a TLS section.\<close>

record node =
  nd_meta :: meta
  nd_conditions :: "(string \<times> cond_status) list"
  nd_addresses :: "(string \<times> string) list"

record route =
  rt_meta :: meta
  rt_host :: string
  rt_tls :: bool

text \<open>A pod with the command and image of its containers.\<close>

record pod =
  po_meta :: meta
  po_containers :: "(string list \<times> string) list"

record policy_rule =
  ru_groups :: "string list"
  ru_resources :: "string list"
  ru_verbs :: "string list"

record role =
  ro_meta :: meta
  ro_rules :: "policy_rule list"

record subject =
  sj_kind :: string
  sj_name :: string
  sj_ns :: string

record role_binding =
  rb_meta :: meta
  rb_group :: string
  rb_kind :: string
  rb_role :: string
  rb_subjects :: "subject list"

section \<open>Open Cluster Management objects\<close>

record client_config =
  cc_url :: string
  cc_ca :: string

record managed_cluster =
  mc_meta :: meta
  mc_configs :: "client_config list"
  mc_conditions :: "(string \<times> cond_status) list"

record placement_decision =
  pd_meta :: meta
  pd_clusters :: "string list"

record token_ref =
  tr_name :: string
  tr_refreshed :: string

record service_account =
  sa_meta :: meta
  sa_token_ref :: "token_ref option"
  sa_expiration :: "string option"

datatype strategy_type = StrategyUpdate | StrategyCreateOnly | StrategyServerSideApply | StrategyReadOnly

record ssa_config =
  ssa_force :: bool
  ssa_ignore :: "(string \<times> string list) list"

record update_strategy =
  us_type :: strategy_type
  us_ssa :: "ssa_config option"

record resource_id =
  ri_group :: string
  ri_resource :: string
  ri_ns :: string
  ri_name :: string

record manifest_config =
  mf_id :: resource_id
  mf_feedback :: "(string \<times> string) list"
  mf_strategy :: "update_strategy option"

datatype manifest = RawManifest json | ObjManifest unstructured

record work_spec =
  ws_manifests :: "manifest list"
  ws_configs :: "manifest_config list"
  ws_orphaning :: "resource_id list option"

record manifest_work =
  mw_meta :: meta
  mw_spec :: work_spec
  mw_feedback :: "(string \<times> string option) list list"

record custom_var =
  cv_name :: string
  cv_value :: string

record deployment_config =
  dc_meta :: meta
  dc_vars :: "custom_var list"
  dc_install_ns :: string

record addon_config =
  ac_group :: string
  ac_resource :: string
  ac_name :: string
  ac_ns :: string

record cluster_addon =
  ca_meta :: meta
  ca_install_ns :: string
  ca_configs :: "addon_config list"

text \<open>An AddOnTemplate; a registration without a custom signer has \<open>None\<close>.\<close>

record custom_signer =
  cs_name :: string
  cs_ca_name :: string
  cs_ca_ns :: string

record addon_template =
  at_meta :: meta
  at_addon :: string
  at_manifests :: "manifest list"
  at_registration :: "custom_signer option list"

text \<open>\<open>ManagedClusterImageRegistry\<close>: the placement by group, resource and name, and the mirrors.\<close>

record registries =
  rg_mirror :: string
  rg_source :: string

record image_registry =
  ir_meta :: meta
  ir_group :: string
  ir_resource :: string
  ir_name :: string
  ir_registries :: "registries list"
  ir_registry :: string

section \<open>The GitOpsCluster resource\<close>

text \<open>\<open>pkg/apis/apps/v1beta1/gitopscluster_types.go\<close>\<close>

record condition =
  c_type :: string
  c_status :: cond_status
  c_reason :: string
  c_message :: string
  c_time :: string

record olm_spec =
  olm_enabled :: "bool option"
  olm_name :: string
  olm_ns :: string
  olm_channel :: string
  olm_source :: string
  olm_source_ns :: string
  olm_approval :: string

record agent_spec =
  ag_enabled :: "bool option"
  ag_propagate_ca :: "bool option"
  ag_server_address :: string
  ag_server_port :: string
  ag_mode :: string

record addon_spec =
  ad_enabled :: "bool option"
  ad_operator_image :: string
  ad_agent :: "agent_spec option"
  ad_override :: "bool option"
  ad_olm :: "olm_spec option"

record placement_ref =
  pr_kind :: string
  pr_name :: string
  pr_apiVersion :: string

record gitops_spec =
  gs_argo_ns :: string
  gs_placement :: "placement_ref option"
  gs_msa_ref :: string
  gs_addon :: "addon_spec option"
  gs_blank_secrets :: "bool option"
  gs_policy_template :: "bool option"

record gitops_status =
  st_updated :: string
  st_message :: string
  st_phase :: string
  st_conditions :: "condition list"

record gitops_cluster =
  gc_meta :: meta
  gc_spec :: gitops_spec
  gc_status :: gitops_status

section \<open>The MulticlusterApplicationSetReport resource\<close>

text \<open>\<open>pkg/apis/appsetreport/v1alpha1/appsetreport_types.go\<close>\<close>

record resource_ref =
  rr_api_version :: string
  rr_kind :: string
  rr_name :: string
  rr_ns :: string

record cluster_condition =
  cl_cluster :: string
  cl_sync :: string
  cl_health :: string
  cl_started_at :: string
  cl_phase :: string
  cl_revision :: string
  cl_app :: string
  cl_conditions :: "(string \<times> string) list"

record report_summary =
  sm_synced :: string
  sm_not_synced :: string
  sm_healthy :: string
  sm_not_healthy :: string
  sm_in_progress :: string
  sm_clusters :: string

record report_status =
  rs_resources :: "resource_ref list"
  rs_conditions :: "cluster_condition list"
  rs_summary :: report_summary

record appset_report =
  ar_meta :: meta
  ar_status :: report_status

end
