(* ===== verification/Kube.thy ===== *)
theory Kube
  imports ApiTypes
begin

text \<open>
  The API server as the controllers see it. The world holds one store per resource kind, keyed by
  namespace and name, and a schedule of verdicts: for each request, in order, \<open>None\<close> lets it
  through and \<open>Some e\<close> rejects it with error \<open>e\<close> and no effect (an exhausted schedule lets every
  request through). Statements quantify over the schedule, so they cover every failure of every
  request. A request that is let through has the documented effect of its verb.
\<close>

type_synonym nsname = "string \<times> string" \<comment> \<open>namespace, name\<close>

type_synonym 'a store = "(nsname \<times> 'a) list"

record world =
  w_verdicts :: "goerr option list"
  w_secrets :: "secret store"
  w_configmaps :: "configmap store"
  w_namespaces :: "meta store"
  w_services :: "service store"
  w_deployments :: "deployment store"
  w_clusters :: "managed_cluster store"
  w_placements :: "unstructured store"
  w_decisions :: "placement_decision store"
  w_accounts :: "service_account store"
  w_works :: "manifest_work store"
  w_apps :: "unstructured store"
  w_projects :: "unstructured store"
  w_appsets :: "unstructured store"
  w_reports :: "appset_report store"
  w_gitops :: "gitops_cluster store"
  w_adcs :: "deployment_config store"
  w_addons :: "cluster_addon store"
  w_registries :: "image_registry store"
  w_roles :: "role store"
  w_rolebindings :: "role_binding store"
  w_serviceaccounts :: "meta store"
  w_pods :: "pod store"
  w_nodes :: "node store"
  w_routes :: "route store"
  w_templates :: "addon_template store"
  w_policies :: "unstructured store"
  w_placementbindings :: "unstructured store"
  w_maestro :: "manifest_work store"
  w_dynamic :: "string \<Rightarrow> unstructured store"

text \<open>
  \<open>w_maestro\<close> holds the ManifestWorks of a Maestro server. \<open>w_dynamic\<close> holds, per kind, the objects that
  the agent on a spoke handles without a type of its own for them.
\<close>

type_synonym 'a api = "(world, goerr + 'a) state"

section \<open>Requests\<close>

definition request :: "(world \<Rightarrow> (goerr + 'a) \<times> world) \<Rightarrow> 'a api" where
  "request f = State (\<lambda>w.
     case w_verdicts w of
       [] \<Rightarrow> f w
     | None # vs \<Rightarrow> f (w\<lparr>w_verdicts := vs\<rparr>)
     | Some e # vs \<Rightarrow> (Inl e, w\<lparr>w_verdicts := vs\<rparr>))"

definition not_found :: "string \<Rightarrow> nsname \<Rightarrow> goerr" where
  "not_found res k = ApiError NotFound (res @ '' '' @ [CHR 0x22] @ snd k @ [CHR 0x22] @ '' not found'')"

definition already_exists :: "string \<Rightarrow> nsname \<Rightarrow> goerr" where
  "already_exists res k =
     ApiError AlreadyExists (res @ '' '' @ [CHR 0x22] @ snd k @ [CHR 0x22] @ '' already exists'')"

lemma is_not_found_not_found [simp]: "is_not_found (not_found res k)"
  by (simp add: not_found_def)

lemma is_already_exists_already_exists [simp]:
  "is_already_exists (already_exists res k)" "\<not> is_not_found (already_exists res k)"
  by (simp_all add: already_exists_def)

text \<open>The verbs, for a kind given by the selector of its store, its update and its plural name.\<close>

definition api_get :: "(world \<Rightarrow> 'a store) \<Rightarrow> string \<Rightarrow> nsname \<Rightarrow> 'a api" where
  "api_get sel res k = request (\<lambda>w.
     (case map_of (sel w) k of None \<Rightarrow> Inl (not_found res k) | Some x \<Rightarrow> Inr x, w))"

definition api_list :: "(world \<Rightarrow> 'a store) \<Rightarrow> ('a \<Rightarrow> bool) \<Rightarrow> 'a list api" where
  "api_list sel p = request (\<lambda>w. (Inr (filter p (map snd (sel w))), w))"

text \<open>
  A list with a limit and a continue token: the token is the number of objects already returned, and
  none is handed out with the last page.
\<close>

definition api_list_page ::
  "(world \<Rightarrow> 'a store) \<Rightarrow> ('a \<Rightarrow> bool) \<Rightarrow> nat \<Rightarrow> nat \<Rightarrow> ('a list \<times> nat option) api" where
  "api_list_page sel p limit token = request (\<lambda>w.
     let items = filter p (map snd (sel w)) in
     (Inr (take limit (drop token items),
           if token + limit < length items then Some (token + limit) else None), w))"

definition api_create ::
  "(world \<Rightarrow> 'a store) \<Rightarrow> (('a store \<Rightarrow> 'a store) \<Rightarrow> world \<Rightarrow> world) \<Rightarrow> string \<Rightarrow> nsname \<Rightarrow> 'a \<Rightarrow> unit api" where
  "api_create sel upd res k x = request (\<lambda>w.
     if has_key (sel w) k then (Inl (already_exists res k), w)
     else (Inr (), upd (mset_key k x) w))"

definition api_update ::
  "(world \<Rightarrow> 'a store) \<Rightarrow> (('a store \<Rightarrow> 'a store) \<Rightarrow> world \<Rightarrow> world) \<Rightarrow> string \<Rightarrow> nsname \<Rightarrow> 'a \<Rightarrow> unit api" where
  "api_update sel upd res k x = request (\<lambda>w.
     if has_key (sel w) k then (Inr (), upd (mset_key k x) w)
     else (Inl (not_found res k), w))"

text \<open>A merge patch applies to the object as stored.\<close>

definition api_patch ::
  "(world \<Rightarrow> 'a store) \<Rightarrow> (('a store \<Rightarrow> 'a store) \<Rightarrow> world \<Rightarrow> world) \<Rightarrow> string \<Rightarrow> nsname \<Rightarrow> ('a \<Rightarrow> 'a) \<Rightarrow> unit api" where
  "api_patch sel upd res k f = request (\<lambda>w.
     case map_of (sel w) k of
       None \<Rightarrow> (Inl (not_found res k), w)
     | Some x \<Rightarrow> (Inr (), upd (mset_key k (f x)) w))"

definition api_delete ::
  "(world \<Rightarrow> 'a store) \<Rightarrow> (('a store \<Rightarrow> 'a store) \<Rightarrow> world \<Rightarrow> world) \<Rightarrow> string \<Rightarrow> nsname \<Rightarrow> unit api" where
  "api_delete sel upd res k = request (\<lambda>w.
     if has_key (sel w) k then (Inr (), upd (mdel_key k) w)
     else (Inl (not_found res k), w))"

text \<open>The next verdict, and the world after it was consumed.\<close>

definition verdict :: "world \<Rightarrow> goerr option" where
  "verdict w = (case w_verdicts w of [] \<Rightarrow> None | v # _ \<Rightarrow> v)"

definition consume :: "world \<Rightarrow> world" where
  "consume w = w\<lparr>w_verdicts := tl (w_verdicts w)\<rparr>"

definition calm :: "world \<Rightarrow> bool" where \<comment> \<open>no request is rejected\<close>
  "calm w \<longleftrightarrow> set (w_verdicts w) \<subseteq> {None}"

text \<open>A rejection that is not a lie: the server never claims that an object is missing.\<close>

definition honest :: "world \<Rightarrow> bool" where
  "honest w \<longleftrightarrow> (\<forall>e. Some e \<in> set (w_verdicts w) \<longrightarrow> \<not> is_not_found e)"

text \<open>No request is rejected because its kind is not installed.\<close>

definition installed :: "world \<Rightarrow> bool" where
  "installed w \<longleftrightarrow> (\<forall>e. Some e \<in> set (w_verdicts w) \<longrightarrow> \<not> is_no_match e)"

lemma request_run:
  "run_state (request f) w =
     (case verdict w of Some e \<Rightarrow> (Inl e, consume w) | None \<Rightarrow> f (consume w))"
proof (cases "w_verdicts w")
  case Nil
  then have "consume w = w"
    by (simp add: consume_def)
  with Nil show ?thesis
    by (simp add: request_def verdict_def)
next
  case (Cons v vs)
  then show ?thesis
    by (cases v) (simp_all add: request_def verdict_def consume_def)
qed

lemma calm_verdict [simp]: "calm w \<Longrightarrow> verdict w = None"
  by (auto simp: calm_def verdict_def split: list.splits)

lemma calm_consume [simp]: "calm w \<Longrightarrow> calm (consume w)"
  by (cases "w_verdicts w") (auto simp: calm_def consume_def)

lemma honest_verdict: "honest w \<Longrightarrow> verdict w = Some e \<Longrightarrow> \<not> is_not_found e"
  by (cases "w_verdicts w") (auto simp: honest_def verdict_def)

lemma honest_consume [simp]: "honest w \<Longrightarrow> honest (consume w)"
  by (cases "w_verdicts w") (auto simp: honest_def consume_def)

lemma installed_verdict: "installed w \<Longrightarrow> verdict w = Some e \<Longrightarrow> \<not> is_no_match e"
  by (cases "w_verdicts w") (auto simp: installed_def verdict_def)

lemma installed_consume [simp]: "installed w \<Longrightarrow> installed (consume w)"
  by (cases "w_verdicts w") (auto simp: installed_def consume_def)

lemma calm_installed: "calm w \<Longrightarrow> installed w"
  by (auto simp: calm_def installed_def)

lemma calm_honest: "calm w \<Longrightarrow> honest w"
  by (auto simp: calm_def honest_def)

lemma calm_nil [simp]: "w_verdicts w = [] \<Longrightarrow> calm w"
  by (simp add: calm_def)

lemma consume_nil: "w_verdicts w = [] \<Longrightarrow> consume w = w"
  by (simp add: consume_def)

lemma consume_sel [simp]:
  "w_secrets (consume w) = w_secrets w"
  "w_configmaps (consume w) = w_configmaps w"
  "w_namespaces (consume w) = w_namespaces w"
  "w_services (consume w) = w_services w"
  "w_deployments (consume w) = w_deployments w"
  "w_clusters (consume w) = w_clusters w"
  "w_placements (consume w) = w_placements w"
  "w_decisions (consume w) = w_decisions w"
  "w_accounts (consume w) = w_accounts w"
  "w_works (consume w) = w_works w"
  "w_apps (consume w) = w_apps w"
  "w_projects (consume w) = w_projects w"
  "w_appsets (consume w) = w_appsets w"
  "w_reports (consume w) = w_reports w"
  "w_gitops (consume w) = w_gitops w"
  "w_adcs (consume w) = w_adcs w"
  "w_addons (consume w) = w_addons w"
  "w_registries (consume w) = w_registries w"
  "w_roles (consume w) = w_roles w"
  "w_rolebindings (consume w) = w_rolebindings w"
  "w_serviceaccounts (consume w) = w_serviceaccounts w"
  "w_pods (consume w) = w_pods w"
  "w_nodes (consume w) = w_nodes w"
  "w_routes (consume w) = w_routes w"
  "w_templates (consume w) = w_templates w"
  "w_policies (consume w) = w_policies w"
  "w_placementbindings (consume w) = w_placementbindings w"
  "w_maestro (consume w) = w_maestro w"
  "w_dynamic (consume w) = w_dynamic w"
  by (simp_all add: consume_def)

section \<open>The interface of a resource kind\<close>

text \<open>
  What the controllers rely on for each kind: its store reads back what an update wrote, is
  independent of the verdict schedule, and updating it leaves the schedule alone. The lemmas give
  what each verb returns and does in terms of the next verdict, once for all kinds.
\<close>

locale kind =
  fixes sel :: "world \<Rightarrow> 'a store"
    and upd :: "('a store \<Rightarrow> 'a store) \<Rightarrow> world \<Rightarrow> world"
    and res :: string
  assumes sel_upd: "sel (upd f w) = f (sel w)"
    and verdicts_upd: "w_verdicts (upd f w) = w_verdicts w"
    and sel_verdicts: "sel (w\<lparr>w_verdicts := vs\<rparr>) = sel w"
    and upd_upd: "upd f (upd g w) = upd (\<lambda>x. f (g x)) w"
    and upd_same: "upd (\<lambda>x. x) w = w"
    and upd_verdicts: "(upd f w)\<lparr>w_verdicts := vs\<rparr> = upd f (w\<lparr>w_verdicts := vs\<rparr>)"
begin

lemma sel_consume: "sel (consume w) = sel w"
  by (simp add: consume_def sel_verdicts)

lemma calm_upd: "calm (upd f w) \<longleftrightarrow> calm w"
  by (simp add: calm_def verdicts_upd)

lemma verdict_upd: "verdict (upd f w) = verdict w"
  by (simp add: verdict_def verdicts_upd)

lemma honest_upd: "honest (upd f w) \<longleftrightarrow> honest w"
  by (simp add: honest_def verdicts_upd)

lemma installed_upd: "installed (upd f w) \<longleftrightarrow> installed w"
  by (simp add: installed_def verdicts_upd)

text \<open>What a list returns is selected and stored.\<close>

lemma list_result:
  "run_state (api_list sel p) w = (Inr xs, t) \<Longrightarrow> \<forall>x \<in> set xs. p x \<and> x \<in> set (map snd (sel w))"
  by (auto simp: api_list_def request_run sel_consume split: option.splits)

text \<open>No verb adds a verdict.\<close>

lemma keeps_installed:
  "state_io_rel (\<lambda>s t. installed s \<longrightarrow> installed t) (api_get sel res k)"
  "state_io_rel (\<lambda>s t. installed s \<longrightarrow> installed t) (api_list sel p)"
  "state_io_rel (\<lambda>s t. installed s \<longrightarrow> installed t) (api_patch sel upd res k f)"
  "state_io_rel (\<lambda>s t. installed s \<longrightarrow> installed t) (api_delete sel upd res k)"
  by (auto intro!: state_io_relI simp: api_get_def api_list_def api_patch_def api_delete_def request_run installed_upd
      split: option.splits if_splits)

lemma get_run:
  "run_state (api_get sel res k) w =
     (case verdict w of
        Some e \<Rightarrow> Inl e
      | None \<Rightarrow> (case map_of (sel w) k of None \<Rightarrow> Inl (not_found res k) | Some x \<Rightarrow> Inr x),
      consume w)"
  by (auto simp: api_get_def request_run sel_consume split: option.splits)

lemma list_run:
  "run_state (api_list sel p) w =
     (case verdict w of Some e \<Rightarrow> Inl e | None \<Rightarrow> Inr (filter p (map snd (sel w))), consume w)"
  by (auto simp: api_list_def request_run sel_consume split: option.splits)

lemma list_page_run:
  "run_state (api_list_page sel p limit token) w =
     (case verdict w of
        Some e \<Rightarrow> Inl e
      | None \<Rightarrow>
          (let items = filter p (map snd (sel w)) in
           Inr (take limit (drop token items),
                if token + limit < length items then Some (token + limit) else None)),
      consume w)"
  by (auto simp: api_list_page_def request_run sel_consume Let_def split: option.splits)

lemma create_run:
  "run_state (api_create sel upd res k x) w =
     (case verdict w of
        Some e \<Rightarrow> (Inl e, consume w)
      | None \<Rightarrow> (if has_key (sel w) k then (Inl (already_exists res k), consume w)
                 else (Inr (), upd (mset_key k x) (consume w))))"
  by (auto simp: api_create_def request_run sel_consume split: option.splits)

lemma update_run:
  "run_state (api_update sel upd res k x) w =
     (case verdict w of
        Some e \<Rightarrow> (Inl e, consume w)
      | None \<Rightarrow> (if has_key (sel w) k then (Inr (), upd (mset_key k x) (consume w))
                 else (Inl (not_found res k), consume w)))"
  by (auto simp: api_update_def request_run sel_consume split: option.splits)

lemma patch_run:
  "run_state (api_patch sel upd res k f) w =
     (case verdict w of
        Some e \<Rightarrow> (Inl e, consume w)
      | None \<Rightarrow> (case map_of (sel w) k of
                    None \<Rightarrow> (Inl (not_found res k), consume w)
                  | Some x \<Rightarrow> (Inr (), upd (mset_key k (f x)) (consume w))))"
  by (auto simp: api_patch_def request_run sel_consume split: option.splits)

lemma delete_run:
  "run_state (api_delete sel upd res k) w =
     (case verdict w of
        Some e \<Rightarrow> (Inl e, consume w)
      | None \<Rightarrow> (if has_key (sel w) k then (Inr (), upd (mdel_key k) (consume w))
                 else (Inl (not_found res k), consume w)))"
  by (auto simp: api_delete_def request_run sel_consume split: option.splits)

lemmas verb_run = get_run list_run list_page_run create_run update_run patch_run delete_run

text \<open>Frames of the verbs: reading changes nothing, writing changes one key.\<close>

lemma get_only: "state_io_rel (changes_only K sel) (api_get sel res k)"
  by (auto intro!: state_io_relI simp: get_run changes_only_def sel_consume)

lemma list_only: "state_io_rel (changes_only K sel) (api_list sel p)"
  by (auto intro!: state_io_relI simp: list_run changes_only_def sel_consume)

lemma create_only: "k \<in> K \<Longrightarrow> state_io_rel (changes_only K sel) (api_create sel upd res k x)"
  by (auto intro!: state_io_relI
      simp: create_run changes_only_def sel_consume sel_upd split: option.splits if_splits)

lemma update_only: "k \<in> K \<Longrightarrow> state_io_rel (changes_only K sel) (api_update sel upd res k x)"
  by (auto intro!: state_io_relI
      simp: update_run changes_only_def sel_consume sel_upd split: option.splits if_splits)

lemma patch_only: "k \<in> K \<Longrightarrow> state_io_rel (changes_only K sel) (api_patch sel upd res k f)"
  by (auto intro!: state_io_relI
      simp: patch_run changes_only_def sel_consume sel_upd split: option.splits if_splits)

lemma delete_only: "k \<in> K \<Longrightarrow> state_io_rel (changes_only K sel) (api_delete sel upd res k)"
  by (auto intro!: state_io_relI
      simp: delete_run changes_only_def sel_consume sel_upd split: option.splits if_splits)

lemmas verb_only = get_only list_only create_only update_only patch_only delete_only

text \<open>
  The frame of a handler that writes no other kind, and of this kind only objects under given keys:
  the world afterwards differs in this store and in the verdicts consumed.
\<close>

definition touches :: "nsname set \<Rightarrow> world \<Rightarrow> world \<Rightarrow> bool" where
  "touches K s t \<longleftrightarrow>
     (\<exists>n f. t = upd f (s\<lparr>w_verdicts := drop n (w_verdicts s)\<rparr>)) \<and> changes_only K sel s t"

lemma touches_only: "touches K s t \<Longrightarrow> changes_only K sel s t"
  by (simp add: touches_def)

lemma touches_refl: "touches K s s"
  unfolding touches_def changes_only_def by (intro conjI exI [of _ 0] exI [of _ "\<lambda>x. x"]) (simp_all add: upd_same)

lemma touches_trans:
  assumes "touches K s t" and "touches K t u" shows "touches K s u"
proof -
  from assms obtain n f m g where t: "t = upd f (s\<lparr>w_verdicts := drop n (w_verdicts s)\<rparr>)"
    and u: "u = upd g (t\<lparr>w_verdicts := drop m (w_verdicts t)\<rparr>)"
    unfolding touches_def by blast
  have "u = upd (\<lambda>x. g (f x)) (s\<lparr>w_verdicts := drop (m + n) (w_verdicts s)\<rparr>)"
    by (simp add: u t upd_verdicts upd_upd verdicts_upd)
  with assms show ?thesis unfolding touches_def changes_only_def by (metis (no_types))
qed

lemma touches_calm: "touches K s t \<Longrightarrow> calm s \<Longrightarrow> calm t"
  by (auto simp: touches_def calm_def verdicts_upd dest!: in_set_dropD)

lemma touches_mono: "touches K s t \<Longrightarrow> K \<subseteq> L \<Longrightarrow> touches L s t"
  by (auto simp: touches_def changes_only_def)

lemma consume_drop: "consume w = w\<lparr>w_verdicts := drop 1 (w_verdicts w)\<rparr>"
  by (simp add: consume_def drop_Suc)

lemma touches_consume: "touches K w (consume w)"
  unfolding touches_def changes_only_def sel_consume
  by (intro conjI exI [of _ 1] exI [of _ "\<lambda>x. x"]) (simp_all add: upd_same consume_drop)

lemma touches_upd: "changes_only K (\<lambda>x. x) (sel w) (f (sel w)) \<Longrightarrow> touches K w (upd f (consume w))"
  unfolding touches_def changes_only_def sel_upd sel_consume
  by (intro conjI exI [of _ 1] exI [of _ f]) (simp_all add: consume_drop)

lemma get_touches: "state_io_rel (touches K) (api_get sel res' k)"
  by (auto intro!: state_io_relI simp: api_get_def request_run touches_consume split: option.splits)

lemma list_touches: "state_io_rel (touches K) (api_list sel p)"
  by (auto intro!: state_io_relI simp: api_list_def request_run touches_consume split: option.splits)

lemma create_touches: "k \<in> K \<Longrightarrow> state_io_rel (touches K) (api_create sel upd res k x)"
  by (auto intro!: state_io_relI touches_consume touches_upd simp: create_run changes_only_def
      split: option.splits if_splits)

lemma update_touches: "k \<in> K \<Longrightarrow> state_io_rel (touches K) (api_update sel upd res k x)"
  by (auto intro!: state_io_relI touches_consume touches_upd simp: update_run changes_only_def
      split: option.splits if_splits)

lemma patch_touches: "k \<in> K \<Longrightarrow> state_io_rel (touches K) (api_patch sel upd res k f)"
  by (auto intro!: state_io_relI touches_consume touches_upd simp: patch_run changes_only_def
      split: option.splits if_splits)

lemma delete_touches: "k \<in> K \<Longrightarrow> state_io_rel (touches K) (api_delete sel upd res k)"
  by (auto intro!: state_io_relI touches_consume touches_upd simp: delete_run changes_only_def
      split: option.splits if_splits)

end

sublocale kind \<subseteq> touching: frame "touches K" for K
  using touches_refl touches_trans by unfold_locales

section \<open>Reading\<close>



text \<open>A handler that only reads changes nothing but the verdicts it consumes.\<close>

definition quiet :: "world \<Rightarrow> world \<Rightarrow> bool" where
  "quiet s t \<longleftrightarrow> (\<exists>n. t = s\<lparr>w_verdicts := drop n (w_verdicts s)\<rparr>)"

interpretation quiet: frame quiet
proof unfold_locales
  show "quiet s s" for s
    unfolding quiet_def by (rule exI [of _ 0]) simp
  show "quiet s t \<Longrightarrow> quiet t u \<Longrightarrow> quiet s u" for s t u
    unfolding quiet_def by (auto intro: exI [of _ "_ + _"])
qed

lemma quiet_sel:
  assumes "quiet s t"
  shows "w_secrets t = w_secrets s" "w_configmaps t = w_configmaps s" "w_namespaces t = w_namespaces s"
    "w_services t = w_services s" "w_deployments t = w_deployments s" "w_clusters t = w_clusters s"
    "w_decisions t = w_decisions s" "w_accounts t = w_accounts s" "w_works t = w_works s"
    "w_apps t = w_apps s" "w_projects t = w_projects s" "w_appsets t = w_appsets s"
    "w_reports t = w_reports s" "w_gitops t = w_gitops s" "w_adcs t = w_adcs s" "w_addons t = w_addons s"
    "w_placements t = w_placements s" "w_registries t = w_registries s"
    "calm s \<Longrightarrow> calm t"
    "w_roles t = w_roles s" "w_rolebindings t = w_rolebindings s" "w_serviceaccounts t = w_serviceaccounts s"
    "w_pods t = w_pods s" "w_nodes t = w_nodes s" "w_routes t = w_routes s"
    "w_templates t = w_templates s" "w_policies t = w_policies s" "w_placementbindings t = w_placementbindings s"
    "w_maestro t = w_maestro s" "w_dynamic t = w_dynamic s"
  using assms by (auto simp: quiet_def calm_def dest!: in_set_dropD)

lemma quiet_honest: "quiet s t \<Longrightarrow> honest s \<Longrightarrow> honest t"
  by (auto simp: quiet_def honest_def dest!: in_set_dropD)

lemma quiet_consume: "quiet w (consume w)"
  by (auto simp: quiet_def consume_def drop_Suc intro: exI [of _ 1])

lemma get_quiet: "state_io_rel quiet (api_get sel res k)"
  by (auto intro!: state_io_relI simp: api_get_def request_run quiet_consume split: option.splits)

lemma list_quiet: "state_io_rel quiet (api_list sel p)"
  by (auto intro!: state_io_relI simp: api_list_def request_run quiet_consume split: option.splits)

context kind
begin

text \<open>Reading touches nothing.\<close>

lemma quiet_touches:
  assumes "quiet s t" shows "touches K s t"
proof -
  from assms obtain n where t: "t = s\<lparr>w_verdicts := drop n (w_verdicts s)\<rparr>" unfolding quiet_def by blast
  show ?thesis
    unfolding touches_def changes_only_def t sel_verdicts
    by (intro conjI exI [of _ n] exI [of _ "\<lambda>x. x"]) (simp_all add: upd_same)
qed

lemma reading_touches: "state_io_rel quiet m \<Longrightarrow> state_io_rel (touches K) m"
  unfolding state_io_rel_def by (blast intro: quiet_touches)

end

text \<open>
  A store as the API server keeps it: one object per key, and the key is the namespace and name of
  the object.
\<close>

definition keyed :: "('a \<Rightarrow> meta) \<Rightarrow> 'a store \<Rightarrow> bool" where
  "keyed mt st \<longleftrightarrow>
     distinct (map fst st) \<and> (\<forall>k x. map_of st k = Some x \<longrightarrow> k = (m_ns (mt x), m_name (mt x)))"

lemma keyedD: "keyed mt st \<Longrightarrow> map_of st k = Some x \<Longrightarrow> (m_ns (mt x), m_name (mt x)) = k"
  unfolding keyed_def by metis

lemma keyed_listed:
  assumes "keyed mt st" and "x \<in> set (map snd st)"
  shows "map_of st (m_ns (mt x), m_name (mt x)) = Some x"
proof -
  from assms(2) obtain k where "(k, x) \<in> set st" by auto
  with assms(1) have "map_of st k = Some x" by (simp add: keyed_def)
  with keyedD [OF assms(1) this] show ?thesis by simp
qed

lemma keyed_mset_key: "keyed mt st \<Longrightarrow> keyed mt (mset_key (m_ns (mt x), m_name (mt x)) x st)"
  by (auto simp: keyed_def distinct_update)

lemma keyed_mdel_key: "keyed mt st \<Longrightarrow> keyed mt (mdel_key k st)"
  by (auto simp: keyed_def distinct_delete)

lemma keyed_Nil [simp]: "keyed mt []"
  by (simp add: keyed_def)

section \<open>The kinds\<close>

interpretation secrets: kind w_secrets w_secrets_update "''secrets''"
  by unfold_locales simp_all

interpretation configmaps: kind w_configmaps w_configmaps_update "''configmaps''"
  by unfold_locales simp_all

interpretation namespaces: kind w_namespaces w_namespaces_update "''namespaces''"
  by unfold_locales simp_all

interpretation services: kind w_services w_services_update "''services''"
  by unfold_locales simp_all

interpretation deployments: kind w_deployments w_deployments_update "''deployments''"
  by unfold_locales simp_all

interpretation clusters: kind w_clusters w_clusters_update "''managedclusters''"
  by unfold_locales simp_all

interpretation placements: kind w_placements w_placements_update "''placements''"
  by unfold_locales simp_all

interpretation decisions: kind w_decisions w_decisions_update "''placementdecisions''"
  by unfold_locales simp_all

interpretation accounts: kind w_accounts w_accounts_update "''managedserviceaccounts''"
  by unfold_locales simp_all

interpretation works: kind w_works w_works_update "''manifestworks''"
  by unfold_locales simp_all

interpretation apps: kind w_apps w_apps_update "''applications''"
  by unfold_locales simp_all

interpretation projects: kind w_projects w_projects_update "''appprojects''"
  by unfold_locales simp_all

interpretation appsets: kind w_appsets w_appsets_update "''applicationsets''"
  by unfold_locales simp_all

interpretation reports: kind w_reports w_reports_update "''multiclusterapplicationsetreports''"
  by unfold_locales simp_all

interpretation gitops: kind w_gitops w_gitops_update "''gitopsclusters''"
  by unfold_locales simp_all

interpretation adcs: kind w_adcs w_adcs_update "''addondeploymentconfigs''"
  by unfold_locales simp_all

interpretation addons: kind w_addons w_addons_update "''managedclusteraddons''"
  by unfold_locales simp_all

interpretation registries: kind w_registries w_registries_update "''managedclusterimageregistries''"
  by unfold_locales simp_all

interpretation roles: kind w_roles w_roles_update "''roles''"
  by unfold_locales simp_all

interpretation rolebindings: kind w_rolebindings w_rolebindings_update "''rolebindings''"
  by unfold_locales simp_all

interpretation serviceaccounts: kind w_serviceaccounts w_serviceaccounts_update "''serviceaccounts''"
  by unfold_locales simp_all

interpretation pods: kind w_pods w_pods_update "''pods''"
  by unfold_locales simp_all

interpretation nodes: kind w_nodes w_nodes_update "''nodes''"
  by unfold_locales simp_all

interpretation routes: kind w_routes w_routes_update "''routes''"
  by unfold_locales simp_all

interpretation templates: kind w_templates w_templates_update "''addontemplates''"
  by unfold_locales simp_all

interpretation policies: kind w_policies w_policies_update "''policies''"
  by unfold_locales simp_all

interpretation placementbindings: kind w_placementbindings w_placementbindings_update "''placementbindings''"
  by unfold_locales simp_all

interpretation maestro: kind w_maestro w_maestro_update "''manifestworks''"
  by unfold_locales simp_all

text \<open>The objects of one kind.\<close>

definition dynamic_of :: "string \<Rightarrow> world \<Rightarrow> unstructured store" where
  "dynamic_of knd w = w_dynamic w knd"

definition upd_dynamic :: "string \<Rightarrow> (unstructured store \<Rightarrow> unstructured store) \<Rightarrow> world \<Rightarrow> world" where
  "upd_dynamic knd f w = w_dynamic_update (\<lambda>d. d(knd := f (d knd))) w"

interpretation dynamic: kind "dynamic_of knd" "upd_dynamic knd" knd for knd
  by unfold_locales (simp_all add: dynamic_of_def upd_dynamic_def comp_def)

section \<open>Retrying\<close>

text \<open>
  \<open>retry.RetryOnConflict(retry.DefaultBackoff, fn)\<close>: up to four attempts while the error is a
  conflict; the last error is returned.
\<close>

primrec retry_on_conflict :: "nat \<Rightarrow> 'a api \<Rightarrow> 'a api" where
  "retry_on_conflict 0 f = f"
| "retry_on_conflict (Suc n) f = do {
     r \<leftarrow> f;
     case r of
       Inl e \<Rightarrow> (if is_conflict e then retry_on_conflict n f else State_Monad.return (Inl e))
     | Inr x \<Rightarrow> State_Monad.return (Inr x)
   }"

definition DefaultBackoff_retries :: nat where
  "DefaultBackoff_retries = 3"

text \<open>Whatever each attempt keeps, the retried handler keeps.\<close>

lemma retry_inv:
  assumes "state_io_rel (\<lambda>s t. I s \<longrightarrow> I t) f"
  shows "state_io_rel (\<lambda>s t. I s \<longrightarrow> I t) (retry_on_conflict n f)"
  by (induction n) (auto intro!: inv_frame.frame_rules assms)

lemma retry_same:
  assumes "state_io_rel (\<lambda>s t. g t = g s) f"
  shows "state_io_rel (\<lambda>s t. g t = g s) (retry_on_conflict n f)"
  by (induction n) (auto intro!: same_frame.frame_rules assms)

lemma retry_ok: "run_state f w = (Inr x, w') \<Longrightarrow> run_state (retry_on_conflict n f) w = (Inr x, w')"
  by (cases n) simp_all

text \<open>The requests as the controllers issue them.\<close>

abbreviation get_secret where "get_secret \<equiv> api_get w_secrets ''secrets''"
abbreviation list_secrets where "list_secrets \<equiv> api_list w_secrets"
abbreviation patch_secret where "patch_secret \<equiv> api_patch w_secrets w_secrets_update ''secrets''"
abbreviation delete_secret where "delete_secret \<equiv> api_delete w_secrets w_secrets_update ''secrets''"

definition skey :: "secret \<Rightarrow> nsname" where
  "skey s = (m_ns (s_meta s), m_name (s_meta s))"

definition create_secret :: "secret \<Rightarrow> unit api" where
  "create_secret s = api_create w_secrets w_secrets_update ''secrets'' (skey s) (persist_secret s)"

definition update_secret :: "secret \<Rightarrow> unit api" where
  "update_secret s = api_update w_secrets w_secrets_update ''secrets'' (skey s) (persist_secret s)"

abbreviation get_configmap where "get_configmap \<equiv> api_get w_configmaps ''configmaps''"
abbreviation create_configmap where
  "create_configmap \<equiv> api_create w_configmaps w_configmaps_update ''configmaps''"
abbreviation get_namespace where "get_namespace \<equiv> api_get w_namespaces ''namespaces''"
abbreviation get_service where "get_service \<equiv> api_get w_services ''services''"
abbreviation list_services where "list_services \<equiv> api_list w_services"
abbreviation list_deployments where "list_deployments \<equiv> api_list w_deployments"
abbreviation get_cluster where "get_cluster \<equiv> api_get w_clusters ''managedclusters''"
abbreviation list_clusters where "list_clusters \<equiv> api_list w_clusters"
abbreviation get_placement where "get_placement \<equiv> api_get w_placements ''placements''"
abbreviation list_decisions where "list_decisions \<equiv> api_list w_decisions"
abbreviation get_account where "get_account \<equiv> api_get w_accounts ''managedserviceaccounts''"
abbreviation get_work where "get_work \<equiv> api_get w_works ''manifestworks''"
abbreviation list_works_page where "list_works_page \<equiv> api_list_page w_works"
abbreviation list_works where "list_works \<equiv> api_list w_works"
abbreviation create_work where "create_work \<equiv> api_create w_works w_works_update ''manifestworks''"
abbreviation update_work where "update_work \<equiv> api_update w_works w_works_update ''manifestworks''"
abbreviation delete_work where "delete_work \<equiv> api_delete w_works w_works_update ''manifestworks''"
abbreviation get_app where "get_app \<equiv> api_get w_apps ''applications''"
abbreviation list_apps where "list_apps \<equiv> api_list w_apps"
abbreviation update_app where "update_app \<equiv> api_update w_apps w_apps_update ''applications''"
abbreviation get_project where "get_project \<equiv> api_get w_projects ''appprojects''"
abbreviation get_appset where "get_appset \<equiv> api_get w_appsets ''applicationsets''"
abbreviation get_report where "get_report \<equiv> api_get w_reports ''multiclusterapplicationsetreports''"
abbreviation list_reports where "list_reports \<equiv> api_list w_reports"
abbreviation create_report where
  "create_report \<equiv> api_create w_reports w_reports_update ''multiclusterapplicationsetreports''"
abbreviation update_report where
  "update_report \<equiv> api_update w_reports w_reports_update ''multiclusterapplicationsetreports''"
abbreviation delete_report where
  "delete_report \<equiv> api_delete w_reports w_reports_update ''multiclusterapplicationsetreports''"
abbreviation get_gitops where "get_gitops \<equiv> api_get w_gitops ''gitopsclusters''"
abbreviation list_gitops where "list_gitops \<equiv> api_list w_gitops"
abbreviation update_gitops_status where
  "update_gitops_status \<equiv> api_patch w_gitops w_gitops_update ''gitopsclusters''"
abbreviation get_adc where "get_adc \<equiv> api_get w_adcs ''addondeploymentconfigs''"
abbreviation create_adc where "create_adc \<equiv> api_create w_adcs w_adcs_update ''addondeploymentconfigs''"
abbreviation update_adc where "update_adc \<equiv> api_update w_adcs w_adcs_update ''addondeploymentconfigs''"
abbreviation list_adcs where "list_adcs \<equiv> api_list w_adcs"
abbreviation get_registry where "get_registry \<equiv> api_get w_registries ''managedclusterimageregistries''"
abbreviation list_registries where "list_registries \<equiv> api_list w_registries"
abbreviation update_registry where
  "update_registry \<equiv> api_update w_registries w_registries_update ''managedclusterimageregistries''"
abbreviation get_addon where "get_addon \<equiv> api_get w_addons ''managedclusteraddons''"
abbreviation create_addon where "create_addon \<equiv> api_create w_addons w_addons_update ''managedclusteraddons''"
abbreviation update_addon where "update_addon \<equiv> api_update w_addons w_addons_update ''managedclusteraddons''"
abbreviation get_role where "get_role \<equiv> api_get w_roles ''roles''"
abbreviation create_role where
  "create_role \<equiv> api_create w_roles w_roles_update ''roles''"
abbreviation get_rolebinding where "get_rolebinding \<equiv> api_get w_rolebindings ''rolebindings''"
abbreviation create_rolebinding where
  "create_rolebinding \<equiv> api_create w_rolebindings w_rolebindings_update ''rolebindings''"
abbreviation list_serviceaccounts where "list_serviceaccounts \<equiv> api_list w_serviceaccounts"
abbreviation get_pod where "get_pod \<equiv> api_get w_pods ''pods''"
abbreviation list_nodes where "list_nodes \<equiv> api_list w_nodes"
abbreviation list_routes where "list_routes \<equiv> api_list w_routes"
abbreviation get_template where "get_template \<equiv> api_get w_templates ''addontemplates''"
abbreviation create_template where
  "create_template \<equiv> api_create w_templates w_templates_update ''addontemplates''"
abbreviation update_template where
  "update_template \<equiv> api_update w_templates w_templates_update ''addontemplates''"
abbreviation delete_template where
  "delete_template \<equiv> api_delete w_templates w_templates_update ''addontemplates''"
abbreviation get_policy where "get_policy \<equiv> api_get w_policies ''policies''"
abbreviation list_policies where "list_policies \<equiv> api_list w_policies"
abbreviation create_policy where
  "create_policy \<equiv> api_create w_policies w_policies_update ''policies''"
abbreviation update_policy where
  "update_policy \<equiv> api_update w_policies w_policies_update ''policies''"
abbreviation get_placementbinding where "get_placementbinding \<equiv> api_get w_placementbindings ''placementbindings''"
abbreviation create_placementbinding where
  "create_placementbinding \<equiv> api_create w_placementbindings w_placementbindings_update ''placementbindings''"
abbreviation update_placementbinding where
  "update_placementbinding \<equiv> api_update w_placementbindings w_placementbindings_update ''placementbindings''"
abbreviation create_placement where
  "create_placement \<equiv> api_create w_placements w_placements_update ''placements''"
abbreviation update_placement where
  "update_placement \<equiv> api_update w_placements w_placements_update ''placements''"
abbreviation get_maestro where "get_maestro \<equiv> api_get w_maestro ''manifestworks''"
abbreviation list_maestro where "list_maestro \<equiv> api_list w_maestro"
abbreviation create_maestro where "create_maestro \<equiv> api_create w_maestro w_maestro_update ''manifestworks''"
abbreviation patch_maestro where "patch_maestro \<equiv> api_patch w_maestro w_maestro_update ''manifestworks''"
abbreviation delete_maestro where "delete_maestro \<equiv> api_delete w_maestro w_maestro_update ''manifestworks''"
abbreviation create_namespace where
  "create_namespace \<equiv> api_create w_namespaces w_namespaces_update ''namespaces''"
abbreviation update_namespace where
  "update_namespace \<equiv> api_update w_namespaces w_namespaces_update ''namespaces''"
abbreviation delete_configmap where
  "delete_configmap \<equiv> api_delete w_configmaps w_configmaps_update ''configmaps''"
abbreviation get_dynamic where "get_dynamic knd \<equiv> api_get (dynamic_of knd) knd"
abbreviation list_dynamic where "list_dynamic knd \<equiv> api_list (dynamic_of knd)"
abbreviation create_dynamic where "create_dynamic knd \<equiv> api_create (dynamic_of knd) (upd_dynamic knd) knd"
abbreviation update_dynamic where "update_dynamic knd \<equiv> api_update (dynamic_of knd) (upd_dynamic knd) knd"
abbreviation patch_dynamic where "patch_dynamic knd \<equiv> api_patch (dynamic_of knd) (upd_dynamic knd) knd"
abbreviation update_gitops where "update_gitops \<equiv> api_update w_gitops w_gitops_update ''gitopsclusters''"

lemmas [run_simps] =
  secrets.verb_run configmaps.verb_run namespaces.verb_run services.verb_run deployments.verb_run
  clusters.verb_run placements.verb_run decisions.verb_run accounts.verb_run works.verb_run apps.verb_run
  projects.verb_run appsets.verb_run reports.verb_run gitops.verb_run adcs.verb_run addons.verb_run
  registries.verb_run roles.verb_run rolebindings.verb_run serviceaccounts.verb_run pods.verb_run
  nodes.verb_run routes.verb_run templates.verb_run policies.verb_run
  placementbindings.verb_run maestro.verb_run dynamic.verb_run
  create_secret_def update_secret_def

lemmas calm_upds [simp] =
  secrets.calm_upd configmaps.calm_upd works.calm_upd apps.calm_upd reports.calm_upd
  gitops.calm_upd adcs.calm_upd addons.calm_upd
  registries.calm_upd placements.calm_upd roles.calm_upd rolebindings.calm_upd templates.calm_upd
  policies.calm_upd placementbindings.calm_upd maestro.calm_upd dynamic.calm_upd namespaces.calm_upd

lemmas verdict_upds [simp] =
  secrets.verdict_upd configmaps.verdict_upd works.verdict_upd apps.verdict_upd reports.verdict_upd
  gitops.verdict_upd adcs.verdict_upd addons.verdict_upd
  registries.verdict_upd placements.verdict_upd roles.verdict_upd rolebindings.verdict_upd templates.verdict_upd
  policies.verdict_upd placementbindings.verdict_upd maestro.verdict_upd dynamic.verdict_upd namespaces.verdict_upd

lemmas honest_upds [simp] =
  secrets.honest_upd configmaps.honest_upd works.honest_upd apps.honest_upd reports.honest_upd
  gitops.honest_upd adcs.honest_upd addons.honest_upd
  registries.honest_upd placements.honest_upd roles.honest_upd rolebindings.honest_upd templates.honest_upd
  policies.honest_upd placementbindings.honest_upd maestro.honest_upd dynamic.honest_upd namespaces.honest_upd

lemmas installed_upds [simp] =
  secrets.installed_upd configmaps.installed_upd works.installed_upd apps.installed_upd reports.installed_upd
  gitops.installed_upd adcs.installed_upd addons.installed_upd
  registries.installed_upd placements.installed_upd roles.installed_upd rolebindings.installed_upd templates.installed_upd
  policies.installed_upd placementbindings.installed_upd maestro.installed_upd dynamic.installed_upd namespaces.installed_upd

lemma skey_persist [simp]: "skey (persist_secret s) = skey s"
  by (simp add: skey_def persist_secret_def)


lemma persist_meta [simp]: "s_meta (persist_secret s) = s_meta s"
  by (simp add: persist_secret_def)

text \<open>The empty server that rejects nothing.\<close>

definition empty_world :: world where
  "empty_world = \<lparr>w_verdicts = [], w_secrets = [], w_configmaps = [], w_namespaces = [], w_services = [],
     w_deployments = [], w_clusters = [], w_placements = [], w_decisions = [], w_accounts = [], w_works = [], w_apps = [],
     w_projects = [], w_appsets = [], w_reports = [], w_gitops = [], w_adcs = [], w_addons = [],
     w_registries = [], w_roles = [], w_rolebindings = [], w_serviceaccounts = [], w_pods = [], w_nodes = [], w_routes = [], w_templates = [], w_policies = [], w_placementbindings = [],
     w_maestro = [], w_dynamic = (\<lambda>_. [])\<rparr>"

lemma calm_empty [simp]: "calm empty_world"
  by (simp add: empty_world_def)

section \<open>Writing secrets\<close>

text \<open>
  Handlers that write secrets keep the store keyed and change only the secrets they may: the
  invariant and the rules for the verbs.
\<close>

definition secret_writes :: "nsname set \<Rightarrow> world \<Rightarrow> world \<Rightarrow> bool" where
  "secret_writes K w t \<longleftrightarrow> keyed s_meta (w_secrets t) \<and> changes_only K w_secrets w t"

lemma secret_writes_sel: "w_secrets u = w_secrets t \<Longrightarrow> secret_writes K w u = secret_writes K w t"
  by (simp add: secret_writes_def changes_only_def)

lemma secret_writes_consume [simp]: "secret_writes K w (consume t) = secret_writes K w t"
  by (rule secret_writes_sel) simp

lemma secret_writes_upd:
  "secret_writes K w t \<Longrightarrow> skey s \<in> K \<Longrightarrow> secret_writes K w (w_secrets_update (mset_key (skey s) s) t)"
  by (auto simp: secret_writes_def changes_only_def skey_def keyed_mset_key)

lemma secret_writes_del:
  "secret_writes K w t \<Longrightarrow> k \<in> K \<Longrightarrow> secret_writes K w (w_secrets_update (mdel_key k) t)"
  by (auto simp: secret_writes_def changes_only_def keyed_mdel_key)

lemma secret_writes_keyD: "secret_writes K w t \<Longrightarrow> map_of (w_secrets t) k = Some s \<Longrightarrow> skey s = k"
  using keyedD [of s_meta "w_secrets t" k s] by (simp add: secret_writes_def skey_def)

abbreviation keeps_secrets :: "nsname set \<Rightarrow> world \<Rightarrow> world \<Rightarrow> world \<Rightarrow> bool" where
  "keeps_secrets K w \<equiv> (\<lambda>s t. secret_writes K w s \<longrightarrow> secret_writes K w t)"

lemma quiet_keeps_secrets:
  assumes "state_io_rel quiet m" shows "state_io_rel (keeps_secrets K w) m"
proof (rule state_io_relI)
  fix x s t
  assume "run_state m s = (x, t)"
  then have "secret_writes K w t = secret_writes K w s"
    by (intro secret_writes_sel quiet_sel(1) state_io_relD [OF assms])
  then show "keeps_secrets K w s t" by simp
qed

lemma create_secret_keeps:
  assumes "skey s \<in> K" shows "state_io_rel (keeps_secrets K w) (create_secret s)"
  by (auto intro!: state_io_relI simp: run_simps split: option.splits if_splits)
     (use secret_writes_upd [of K w "consume _" "persist_secret s"] assms in simp)

lemma update_secret_keeps:
  assumes "skey s \<in> K" shows "state_io_rel (keeps_secrets K w) (update_secret s)"
  by (auto intro!: state_io_relI simp: run_simps split: option.splits if_splits)
     (use secret_writes_upd [of K w "consume _" "persist_secret s"] assms in simp)

lemma delete_secret_keeps:
  "k \<in> K \<Longrightarrow> state_io_rel (keeps_secrets K w) (delete_secret k)"
  by (auto intro!: state_io_relI simp: run_simps secret_writes_del split: option.splits if_splits)

lemma patch_secret_keeps:
  assumes "k \<in> K" and "\<And>s. skey (f s) = skey s"
  shows "state_io_rel (keeps_secrets K w) (patch_secret k f)"
proof (rule state_io_relI, rule impI)
  fix r s t
  assume run: "run_state (patch_secret k f) s = (r, t)" and s: "secret_writes K w s"
  have "secret_writes K w (w_secrets_update (mset_key k (f x)) (consume s))" if "map_of (w_secrets s) k = Some x" for x
    using secret_writes_upd [of K w "consume s" "f x"] secret_writes_keyD [OF s that] s assms by simp
  with run s show "secret_writes K w t"
    by (auto simp: run_simps split: option.splits)
qed

lemma create_secret_touches: "skey s \<in> K \<Longrightarrow> state_io_rel (secrets.touches K) (create_secret s)"
  unfolding create_secret_def by (rule secrets.create_touches)

lemma update_secret_touches: "skey s \<in> K \<Longrightarrow> state_io_rel (secrets.touches K) (update_secret s)"
  unfolding update_secret_def by (rule secrets.update_touches)

end
