(* ===== verification/PullModelConfig.thy ===== *)
theory PullModelConfig
  imports Kube
begin

text \<open>
  \<open>pkg/pullmodelconfig/config.go\<close>: the shared ConfigMap that says whether the basic pull model is
  disabled, read (and planted if absent) by three sibling processes. The process environment, the
  mounted namespace file and the YAML library are the argument \<open>env\<close>. The last sections model the
  race of any number of siblings request by request and show that all of them end with the same
  configuration.
\<close>

section \<open>The configuration\<close>

record basic_config =
  bc_disabled :: bool

record pull_config =
  pm_basic :: basic_config

record controller_config =
  cfg_pull :: pull_config

definition default_config :: controller_config where
  "default_config = \<lparr>cfg_pull = \<lparr>pm_basic = \<lparr>bc_disabled = False\<rparr>\<rparr>\<rparr>"

abbreviation basic_disabled :: "controller_config \<Rightarrow> bool" where
  "basic_disabled c \<equiv> bc_disabled (pm_basic (cfg_pull c))"

text \<open>
  \<open>os.Getenv(POD_NAMESPACE)\<close>, \<open>os.ReadFile\<close> of the service account namespace, \<open>yaml.Marshal\<close> and
  \<open>yaml.Unmarshal\<close> into a zero config.
\<close>

record config_env =
  ce_pod_ns :: string
  ce_ns_file :: "goerr + string"
  ce_marshal :: "controller_config \<Rightarrow> goerr + string"
  ce_unmarshal :: "string \<Rightarrow> goerr + controller_config"

definition ConfigMapName :: string where
  "ConfigMapName = ''multicluster-integrations-config''"

definition ConfigMapDataKey :: string where
  "ConfigMapDataKey = ''config.yaml''"

section \<open>Loading\<close>

definition ResolveNamespace :: "config_env \<Rightarrow> goerr + string" where
  "ResolveNamespace env =
     (if ce_pod_ns env \<noteq> [] then Inr (ce_pod_ns env)
      else (case ce_ns_file env of
              Inl e \<Rightarrow> Inl (Wrapped (''unable to resolve current namespace: POD_NAMESPACE is not set and '' @
                ''/var/run/secrets/kubernetes.io/serviceaccount/namespace could not be read'') e)
            | Inr data \<Rightarrow> Inr data))"

definition parse :: "config_env \<Rightarrow> configmap \<Rightarrow> goerr + controller_config" where
  "parse env cm =
     (case map_of (cm_data cm) ConfigMapDataKey of
        None \<Rightarrow> Inr default_config
      | Some raw \<Rightarrow>
          (case ce_unmarshal env raw of
             Inl e \<Rightarrow> Inl (Wrapped (''failed to parse '' @ m_ns (cm_meta cm) @ ''/'' @ m_name (cm_meta cm) @
                             '' data['' @ ConfigMapDataKey @ '']'') e)
           | Inr cfg \<Rightarrow> Inr cfg))"

definition default_configmap :: "string \<Rightarrow> string \<Rightarrow> configmap" where
  "default_configmap ns raw =
     \<lparr>cm_meta = plain_meta ConfigMapName ns [] [], cm_data = [(ConfigMapDataKey, raw)]\<rparr>"

definition createDefault :: "config_env \<Rightarrow> string \<Rightarrow> controller_config api" where
  "createDefault env ns =
     (case ce_marshal env default_config of
        Inl e \<Rightarrow> State_Monad.return (Inl (Wrapped ''failed to marshal default pull model config'' e))
      | Inr raw \<Rightarrow> do {
          r \<leftarrow> create_configmap (ns, ConfigMapName) (default_configmap ns raw);
          case r of
            Inl e \<Rightarrow>
              (if is_already_exists e then do {
                 g \<leftarrow> get_configmap (ns, ConfigMapName);
                 State_Monad.return (case g of
                   Inl ge \<Rightarrow> Inl (Wrapped (''lost create race for '' @ ns @ ''/'' @ ConfigMapName @
                     '' but could not re-read it'') ge)
                 | Inr existing \<Rightarrow> parse env existing)
               }
               else State_Monad.return
                 (Inl (Wrapped (''failed to create '' @ ns @ ''/'' @ ConfigMapName) e)))
          | Inr _ \<Rightarrow> State_Monad.return (Inr default_config)
        })"

definition LoadOrCreate :: "config_env \<Rightarrow> controller_config api" where
  "LoadOrCreate env =
     (case ResolveNamespace env of
        Inl e \<Rightarrow> State_Monad.return (Inl (Wrapped ''LoadOrCreate'' e))
      | Inr ns \<Rightarrow> do {
          g \<leftarrow> get_configmap (ns, ConfigMapName);
          case g of
            Inr cm \<Rightarrow> State_Monad.return (parse env cm)
          | Inl e \<Rightarrow>
              (if is_not_found e then createDefault env ns
               else State_Monad.return (Inl (Wrapped (''failed to get '' @ ns @ ''/'' @ ConfigMapName) e)))
        })"

section \<open>What loading leaves alone\<close>

text \<open>Existing ConfigMaps are never modified: the store only grows.\<close>

definition configmaps_grow :: "world \<Rightarrow> world \<Rightarrow> bool" where
  "configmaps_grow s t \<longleftrightarrow>
     (\<forall>k v. map_of (w_configmaps s) k = Some v \<longrightarrow> map_of (w_configmaps t) k = Some v)"

interpretation grow: frame configmaps_grow
  by unfold_locales (auto simp: configmaps_grow_def)

lemma create_configmap_grow: "state_io_rel configmaps_grow (create_configmap k x)"
  by (auto intro!: state_io_relI
      simp: run_simps configmaps_grow_def has_key_def split: option.splits if_splits)

lemma get_configmap_grow: "state_io_rel configmaps_grow (get_configmap k)"
  by (auto intro!: state_io_relI simp: run_simps configmaps_grow_def)

lemma LoadOrCreate_grow: "state_io_rel configmaps_grow (LoadOrCreate env)"
  unfolding LoadOrCreate_def createDefault_def
  by (intro grow.frame_rules create_configmap_grow get_configmap_grow)

text \<open>A reading of the world that does not look at the ConfigMaps or the schedule is unchanged.\<close>

definition blind_to_configmaps :: "(world \<Rightarrow> 'b) \<Rightarrow> bool" where
  "blind_to_configmaps f \<longleftrightarrow>
     (\<forall>w g vs. f (w_configmaps_update g w) = f w \<and> f (w\<lparr>w_verdicts := vs\<rparr>) = f w)"

lemma LoadOrCreate_same:
  assumes "blind_to_configmaps f"
  shows "state_io_rel (\<lambda>s t. f t = f s) (LoadOrCreate env)"
proof -
  have "f (consume w) = f w" "f (w_configmaps_update g w) = f w" for w g
    using assms by (simp_all add: blind_to_configmaps_def consume_def)
  then have verbs: "state_io_rel (\<lambda>s t. f t = f s) (get_configmap k)"
    "state_io_rel (\<lambda>s t. f t = f s) (create_configmap k x)" for k x
    by (auto intro!: state_io_relI simp: run_simps split: option.splits if_splits)
  show ?thesis
    unfolding LoadOrCreate_def createDefault_def
    by (intro same_frame.frame_rules verbs)
qed

text \<open>
  The check every pull-model component makes first: a load error counts as enabled. When the
  configuration says disabled, loading it has only read.
\<close>

definition disabled :: "goerr + controller_config \<Rightarrow> bool" where
  "disabled r = (case r of Inl e \<Rightarrow> False | Inr cfg \<Rightarrow> basic_disabled cfg)"

lemma disabled_quiet:
  assumes "run_state (LoadOrCreate env) w = (r, w0)" and "disabled r"
  shows "quiet w w0"
proof -
  have q: "quiet s (consume (consume (consume s)))" "quiet s (consume (consume s))" for s
    by (meson quiet.frame_trans quiet_consume)+
  show ?thesis
    using assms
    by (auto simp: LoadOrCreate_def createDefault_def run_simps disabled_def default_config_def
        quiet_consume q split: option.splits sum.splits if_splits)
qed

section \<open>The race of the sibling processes\<close>

text \<open>
  Each process runs \<open>LoadOrCreate\<close> as a sequence of requests that the siblings' requests interleave
  with; the program counter says which request is next. No request is rejected here, and nobody
  but the siblings writes the ConfigMap.
\<close>

datatype pc = AtGet | AtCreate | AtReGet | Finished "goerr + controller_config"

record race =
  rc_store :: "configmap store"
  rc_pc :: "nat \<Rightarrow> pc"

definition create_result :: "goerr + controller_config" where
  "create_result = Inr default_config"

inductive race_step :: "config_env \<Rightarrow> string \<Rightarrow> string \<Rightarrow> race \<Rightarrow> race \<Rightarrow> bool"
  for env :: config_env and ns raw :: string where
  get_found:
    "rc_pc s i = AtGet \<Longrightarrow> map_of (rc_store s) (ns, ConfigMapName) = Some cm \<Longrightarrow>
     race_step env ns raw s (s\<lparr>rc_pc := (rc_pc s)(i := Finished (parse env cm))\<rparr>)"
| get_absent:
    "rc_pc s i = AtGet \<Longrightarrow> map_of (rc_store s) (ns, ConfigMapName) = None \<Longrightarrow>
     race_step env ns raw s (s\<lparr>rc_pc := (rc_pc s)(i := AtCreate)\<rparr>)"
| create_won:
    "rc_pc s i = AtCreate \<Longrightarrow> map_of (rc_store s) (ns, ConfigMapName) = None \<Longrightarrow>
     race_step env ns raw s
       (s\<lparr>rc_store := mset_key (ns, ConfigMapName) (default_configmap ns raw) (rc_store s),
          rc_pc := (rc_pc s)(i := Finished create_result)\<rparr>)"
| create_lost:
    "rc_pc s i = AtCreate \<Longrightarrow> map_of (rc_store s) (ns, ConfigMapName) = Some cm \<Longrightarrow>
     race_step env ns raw s (s\<lparr>rc_pc := (rc_pc s)(i := AtReGet)\<rparr>)"
| reget_found:
    "rc_pc s i = AtReGet \<Longrightarrow> map_of (rc_store s) (ns, ConfigMapName) = Some cm \<Longrightarrow>
     race_step env ns raw s (s\<lparr>rc_pc := (rc_pc s)(i := Finished (parse env cm))\<rparr>)"
| reget_absent:
    "rc_pc s i = AtReGet \<Longrightarrow> map_of (rc_store s) (ns, ConfigMapName) = None \<Longrightarrow>
     race_step env ns raw s (s\<lparr>rc_pc := (rc_pc s)(i := Finished
       (Inl (Wrapped (''lost create race for '' @ ns @ ''/'' @ ConfigMapName @
          '' but could not re-read it'') (not_found ''configmaps'' (ns, ConfigMapName)))))\<rparr>)"

inductive_cases race_stepE: "race_step env ns raw s t"

inductive race_reach :: "config_env \<Rightarrow> string \<Rightarrow> string \<Rightarrow> configmap store \<Rightarrow> race \<Rightarrow> bool"
  for env :: config_env and ns raw :: string and st0 :: "configmap store" where
  reach_start: "race_reach env ns raw st0 \<lparr>rc_store = st0, rc_pc = (\<lambda>_. AtGet)\<rparr>"
| reach_step: "race_reach env ns raw st0 s \<Longrightarrow> race_step env ns raw s t \<Longrightarrow> race_reach env ns raw st0 t"

text \<open>
  The invariant: a process that has finished holds what parsing the stored ConfigMap gives now,
  and a process past a lost create finds the ConfigMap there. \<open>yaml_ok\<close> is the round trip of the
  YAML library on the default configuration.
\<close>

definition yaml_ok :: "config_env \<Rightarrow> string \<Rightarrow> bool" where
  "yaml_ok env raw \<longleftrightarrow> ce_marshal env default_config = Inr raw \<and> ce_unmarshal env raw = Inr default_config"

definition race_inv :: "config_env \<Rightarrow> string \<Rightarrow> race \<Rightarrow> bool" where
  "race_inv env ns s \<longleftrightarrow>
     (\<forall>i. (rc_pc s i = AtReGet \<longrightarrow> map_of (rc_store s) (ns, ConfigMapName) \<noteq> None) \<and>
          (\<forall>r. rc_pc s i = Finished r \<longrightarrow>
             (\<exists>cm. map_of (rc_store s) (ns, ConfigMapName) = Some cm \<and> parse env cm = r)))"

lemma parse_default: "yaml_ok env raw \<Longrightarrow> parse env (default_configmap ns raw) = create_result"
  by (simp add: yaml_ok_def parse_def default_configmap_def create_result_def)

lemma race_step_inv:
  assumes "yaml_ok env raw" and "race_step env ns raw s t" and "race_inv env ns s"
  shows "race_inv env ns t"
  using assms(2,3)
proof cases
  case (create_won i)
  with assms(1,3) show ?thesis
    by (auto simp: race_inv_def parse_default)
qed (auto simp: race_inv_def)

lemma race_reach_inv:
  assumes "yaml_ok env raw" and "race_reach env ns raw st0 s"
  shows "race_inv env ns s"
  using assms(2)
proof induction
  case reach_start
  show ?case by (simp add: race_inv_def)
next
  case (reach_step s t)
  then show ?case using race_step_inv [OF assms(1)] by blast
qed

text \<open>
  The machine is the code: run alone from its first request, a process does exactly what
  \<open>LoadOrCreate\<close> does on a calm API server.
\<close>

inductive race_steps :: "config_env \<Rightarrow> string \<Rightarrow> string \<Rightarrow> race \<Rightarrow> race \<Rightarrow> bool"
  for env :: config_env and ns raw :: string where
  steps_none: "race_steps env ns raw s s"
| steps_more: "race_step env ns raw s t \<Longrightarrow> race_steps env ns raw t u \<Longrightarrow> race_steps env ns raw s u"

section \<open>Properties\<close>

text \<open>
  loading never changes a ConfigMap that exists, on any branch and whatever the API server
  rejects.
\<close>
theorem LoadOrCreate_preserves_existing:
  assumes "map_of (w_configmaps w) k = Some cm"
  shows "map_of (w_configmaps (snd (run_state (LoadOrCreate env) w))) k = Some cm"
  using grow.frame_snd [OF LoadOrCreate_grow, of w env] assms
  unfolding configmaps_grow_def by blast

text \<open>
  with the ConfigMap absent and no rejected request, loading plants the default ConfigMap and
  returns the default configuration (basic pull model enabled); a second load, by any sibling in
  the namespace, then reads that ConfigMap and returns the same.
\<close>
theorem LoadOrCreate_plants_default:
  assumes "ResolveNamespace env = Inr ns" and "yaml_ok env raw" and "calm w"
    and "map_of (w_configmaps w) (ns, ConfigMapName) = None"
  defines "w' \<equiv> snd (run_state (LoadOrCreate env) w)"
  shows "fst (run_state (LoadOrCreate env) w) = Inr default_config
    \<and> map_of (w_configmaps w') (ns, ConfigMapName) = Some (default_configmap ns raw)
    \<and> fst (run_state (LoadOrCreate env) w') = Inr default_config
    \<and> \<not> basic_disabled default_config"
proof -
  have w': "w' = w_configmaps_update (mset_key (ns, ConfigMapName) (default_configmap ns raw)) (consume (consume w))"
    and res: "fst (run_state (LoadOrCreate env) w) = Inr default_config"
    using assms by (simp_all add: LoadOrCreate_def createDefault_def yaml_ok_def run_simps has_key_def)
  moreover have "calm w'"
    using assms(3) by (simp add: w')
  ultimately show ?thesis
    using parse_default [OF assms(2), of ns] assms(1)
    by (simp add: LoadOrCreate_def run_simps create_result_def default_config_def)
qed

text \<open>
  C19: however the requests of any number of siblings interleave, from any initial store, every
  process that finishes returns the same result, which is what parsing the stored ConfigMap
  gives: losing the create race is never an error and never a disagreement.
\<close>
theorem race_agreement:
  assumes "yaml_ok env raw" and "race_reach env ns raw st0 s"
    and "rc_pc s i = Finished r" and "rc_pc s j = Finished r'"
  shows "r = r' \<and> (\<exists>cm. map_of (rc_store s) (ns, ConfigMapName) = Some cm \<and> parse env cm = r)"
proof -
  have "race_inv env ns s"
    by (rule race_reach_inv [OF assms(1,2)])
  with assms(3,4) obtain cm cm' where "map_of (rc_store s) (ns, ConfigMapName) = Some cm" "parse env cm = r"
    and "map_of (rc_store s) (ns, ConfigMapName) = Some cm'" "parse env cm' = r'"
    unfolding race_inv_def by metis
  then show ?thesis by simp
qed

text \<open>
  the interleaving machine is the code: one process run alone to its end goes through steps of
  the machine and finishes with the result and the store that \<open>LoadOrCreate\<close> computes when no
  request is rejected.
\<close>
theorem race_runs_LoadOrCreate:
  assumes "ResolveNamespace env = Inr ns" and "ce_marshal env default_config = Inr raw" and "calm w"
    and "rc_pc s i = AtGet" and "rc_store s = w_configmaps w"
  shows "\<exists>t. race_steps env ns raw s t
    \<and> rc_pc t i = Finished (fst (run_state (LoadOrCreate env) w))
    \<and> rc_store t = w_configmaps (snd (run_state (LoadOrCreate env) w))"
proof (cases "map_of (w_configmaps w) (ns, ConfigMapName)")
  case (Some cm)
  then have "run_state (LoadOrCreate env) w = (parse env cm, consume w)"
    using assms(1,3) by (simp add: LoadOrCreate_def run_simps)
  moreover have "race_step env ns raw s (s\<lparr>rc_pc := (rc_pc s)(i := Finished (parse env cm))\<rparr>)"
    using race_step.get_found [of s i ns cm env raw] Some assms(4,5) by simp
  ultimately show ?thesis
    using assms(5) by (intro exI [of _ "s\<lparr>rc_pc := (rc_pc s)(i := Finished (parse env cm))\<rparr>"])
      (auto intro: race_steps.intros)
next
  case None
  let ?s1 = "s\<lparr>rc_pc := (rc_pc s)(i := AtCreate)\<rparr>"
  let ?t = "?s1\<lparr>rc_store := mset_key (ns, ConfigMapName) (default_configmap ns raw) (rc_store ?s1),
    rc_pc := (rc_pc ?s1)(i := Finished create_result)\<rparr>"
  have "run_state (LoadOrCreate env) w =
      (create_result, w_configmaps_update (mset_key (ns, ConfigMapName) (default_configmap ns raw)) (consume (consume w)))"
    using None assms(1-3)
    by (simp add: LoadOrCreate_def createDefault_def run_simps has_key_def create_result_def)
  moreover have "race_step env ns raw s ?s1"
    using race_step.get_absent [of s i ns env raw] None assms(4,5) by simp
  moreover have "race_step env ns raw ?s1 ?t"
    using race_step.create_won [of ?s1 i ns env raw] None assms(5) by simp
  ultimately show ?thesis
    using assms(5) by (intro exI [of _ ?t] conjI race_steps.steps_more [of env ns raw s ?s1]
        race_steps.steps_more [of env ns raw ?s1 ?t] race_steps.steps_none) simp_all
qed

section \<open>Witnesses\<close>

definition sample_env :: config_env where
  "sample_env = \<lparr>ce_pod_ns = ''ocm'', ce_ns_file = Inl (ErrText ''no file''),
     ce_marshal = (\<lambda>c. Inr (if basic_disabled c then ''off'' else ''on'')),
     ce_unmarshal = (\<lambda>s. if s = ''off'' then Inr \<lparr>cfg_pull = \<lparr>pm_basic = \<lparr>bc_disabled = True\<rparr>\<rparr>\<rparr>
                        else if s = ''on'' then Inr default_config else Inl (ErrText ''bad yaml''))\<rparr>"

lemma sample_env_facts: "ResolveNamespace sample_env = Inr ''ocm''" "yaml_ok sample_env ''on''"
  "ce_marshal sample_env default_config = Inr ''on''"
  by (simp_all add: sample_env_def ResolveNamespace_def yaml_ok_def default_config_def)

theorem LoadOrCreate_preserves_existing_witness:
  "let cm = \<lparr>cm_meta = plain_meta ''a'' ''b'' [] [], cm_data = []\<rparr>;
       w = empty_world\<lparr>w_configmaps := [((''b'', ''a''), cm)]\<rparr> in
   map_of (w_configmaps (snd (run_state (LoadOrCreate sample_env) w))) (''b'', ''a'') = Some cm"
  unfolding Let_def by (rule LoadOrCreate_preserves_existing) simp

theorem LoadOrCreate_plants_default_witness:
  "fst (run_state (LoadOrCreate sample_env) empty_world) = Inr default_config"
  using LoadOrCreate_plants_default [OF sample_env_facts(1,2) calm_empty] by (simp add: empty_world_def)

theorem race_agreement_witness:
  "\<exists>s. race_reach sample_env ''ocm'' ''on'' [] s \<and> rc_pc s 0 = Finished create_result
     \<and> (\<exists>cm. map_of (rc_store s) (''ocm'', ConfigMapName) = Some cm \<and> parse sample_env cm = create_result)"
proof -
  let ?s0 = "\<lparr>rc_store = [], rc_pc = (\<lambda>_. AtGet)\<rparr> :: race"
  let ?s1 = "?s0\<lparr>rc_pc := (rc_pc ?s0)(0 := AtCreate)\<rparr>"
  let ?s2 = "?s1\<lparr>rc_store := mset_key (''ocm'', ConfigMapName) (default_configmap ''ocm'' ''on'') (rc_store ?s1),
    rc_pc := (rc_pc ?s1)(0 := Finished create_result)\<rparr>"
  have "race_reach sample_env ''ocm'' ''on'' [] ?s1"
    by (rule race_reach.reach_step [OF race_reach.reach_start race_step.get_absent]) simp_all
  then have r: "race_reach sample_env ''ocm'' ''on'' [] ?s2"
    by (rule race_reach.reach_step [OF _ race_step.create_won]) simp_all
  have "rc_pc ?s2 0 = Finished create_result" by simp
  from race_agreement [OF sample_env_facts(2) r this this] r show ?thesis by force
qed

theorem race_runs_LoadOrCreate_witness:
  "\<exists>t. race_steps sample_env ''ocm'' ''on'' \<lparr>rc_store = [], rc_pc = (\<lambda>_. AtGet)\<rparr> t
    \<and> rc_pc t 0 = Finished (fst (run_state (LoadOrCreate sample_env) empty_world))"
  using race_runs_LoadOrCreate [OF sample_env_facts(1,3) calm_empty,
      of "\<lparr>rc_store = [], rc_pc = (\<lambda>_. AtGet)\<rparr>" 0]
  by (auto simp: empty_world_def)

end
