(* ===== verification/ClusterEvents.thy ===== *)
theory ClusterEvents
  imports Kube
begin

text \<open>
  \<open>pkg/utils/cluster.go\<close>: the labels and namespaces the controllers share, the event filters of the
  watches (which changes start a reconcile), and the naming of cluster secrets.
\<close>

section \<open>Names\<close>

definition ACMClusterSecretLabel :: string where
  "ACMClusterSecretLabel = ''apps.open-cluster-management.io/secret-type''"
definition ArgocdClusterSecretLabel :: string where
  "ArgocdClusterSecretLabel = ''apps.open-cluster-management.io/acm-cluster''"
definition ACMClusterNameLabel :: string where
  "ACMClusterNameLabel = ''apps.open-cluster-management.io/cluster-name''"
definition GitOpsNamespace :: string where
  "GitOpsNamespace = ''openshift-gitops''"
definition GitOpsOperatorNamespace :: string where
  "GitOpsOperatorNamespace = ''openshift-gitops-operator''"
definition AddonAgentNamespace :: string where
  "AddonAgentNamespace = ''open-cluster-management-agent-addon''"

section \<open>Event filters\<close>

text \<open>
  The comparison of status conditions: the old conditions as a map (a later one of the same type
  wins), from which each matching new condition is deleted; \<open>True\<close> when they differ.
\<close>

fun conditions_changed :: "(string \<times> cond_status) list \<Rightarrow> (string \<times> cond_status) list \<Rightarrow> bool" where
  "conditions_changed oldcondMap [] = (length oldcondMap > 0)"
| "conditions_changed oldcondMap ((t, st) # cs) =
     (if map_of oldcondMap t \<noteq> Some st then True
      else conditions_changed (mdel_key t oldcondMap) cs)"

definition cond_map :: "(string \<times> cond_status) list \<Rightarrow> (string \<times> cond_status) list" where
  "cond_map cs = fold (\<lambda>(t, st) m. mset_key t st m) cs []"

definition ClusterPredicateUpdate :: "managed_cluster \<Rightarrow> managed_cluster \<Rightarrow> bool" where
  "ClusterPredicateUpdate oldcl newcl =
     (if m_deleting (mc_meta oldcl) \<noteq> m_deleting (mc_meta newcl) then True
      else if \<not> same_map (m_labels (mc_meta oldcl)) (m_labels (mc_meta newcl)) then True
      else if mc_configs oldcl \<noteq> mc_configs newcl then True
      else conditions_changed (cond_map (mc_conditions oldcl)) (mc_conditions newcl))"

definition GitOpsClusterPredicateUpdate :: "gitops_cluster \<Rightarrow> gitops_cluster \<Rightarrow> bool" where
  "GitOpsClusterPredicateUpdate old new \<longleftrightarrow> gc_spec old \<noteq> gc_spec new"

definition PlacementDecisionPredicateUpdate :: "placement_decision \<Rightarrow> placement_decision \<Rightarrow> bool" where
  "PlacementDecisionPredicateUpdate old new \<longleftrightarrow> pd_clusters old \<noteq> pd_clusters new"

datatype 'a event = Created 'a | Updated 'a 'a | Deleted 'a

definition isSecretInArgo :: "secret \<Rightarrow> bool" where
  "isSecretInArgo s \<longleftrightarrow> has_key (m_labels (s_meta s)) ArgocdClusterSecretLabel"

fun ManagedClusterSecretPredicate :: "secret event \<Rightarrow> bool" where
  "ManagedClusterSecretPredicate (Updated old new) = (if isSecretInArgo new then False else True)"
| "ManagedClusterSecretPredicate (Created s) = (if isSecretInArgo s then False else True)"
| "ManagedClusterSecretPredicate (Deleted s) = (if isSecretInArgo s then True else False)"

fun ManagedServiceAccountPredicate :: "service_account event \<Rightarrow> bool" where
  "ManagedServiceAccountPredicate (Updated old new) =
     (sa_token_ref old \<noteq> sa_token_ref new \<or> sa_expiration old \<noteq> sa_expiration new)"
| "ManagedServiceAccountPredicate (Created msa) = (sa_token_ref msa \<noteq> None)"
| "ManagedServiceAccountPredicate (Deleted msa) = (sa_token_ref msa \<noteq> None)"

fun MSATokenSecretPredicate :: "secret event \<Rightarrow> bool" where
  "MSATokenSecretPredicate (Updated old new) =
     (let oldToken = mget (s_data old) ''token''; newToken = mget (s_data new) ''token'' in
      if length oldToken = length newToken \<and> oldToken = newToken then False else True)"
| "MSATokenSecretPredicate (Created s) = (length (mget (s_data s) ''token'') > 0)"
| "MSATokenSecretPredicate (Deleted s) = True"

section \<open>Names of cluster secrets\<close>

definition GetManagedClusterNamespace :: "string \<Rightarrow> string" where
  "GetManagedClusterNamespace secretName =
     (if secretName = [] then []
      else if has_suffix secretName ''-cluster-secret'' then trim_suffix secretName ''-cluster-secret''
      else [])"

section \<open>Properties\<close>

lemma cond_map_fold:
  "distinct (map fst m) \<Longrightarrow> distinct (map fst (fold (\<lambda>(t, st) m. mset_key t st m) cs m))"
  by (induction cs arbitrary: m) (auto simp: distinct_update)

lemma distinct_cond_map: "distinct (map fst (cond_map cs))"
  by (simp add: cond_map_def cond_map_fold)

lemma map_of_fold_set:
  "map_of (fold (\<lambda>(t, st) m. mset_key t st m) cs m) = map_of m ++ map_of (rev cs)"
  by (induction cs arbitrary: m) (auto simp: fun_eq_iff map_add_def split: option.splits)

lemma map_of_cond_map: "map_of (cond_map cs) = map_of (rev cs)"
  by (simp add: cond_map_def map_of_fold_set)

lemma conditions_changed_iff:
  assumes "distinct (map fst cs)"
  shows "\<not> conditions_changed m cs \<longleftrightarrow> map_of m = map_of cs"
  using assms
proof (induction m cs rule: conditions_changed.induct)
  case (1 m)
  then show ?case by (cases m) (auto simp: fun_eq_iff)
next
  case (2 m t st cs)
  have fresh: "map_of cs t = None"
    using 2(2) by (simp add: map_of_eq_None_iff)
  show ?case
  proof (cases "map_of m t = Some st")
    case True
    then have "\<not> conditions_changed m ((t, st) # cs) \<longleftrightarrow> (map_of m)(t := None) = map_of cs"
      using 2 by (simp add: fun_upd_def)
    also have "\<dots> \<longleftrightarrow> map_of m = map_of ((t, st) # cs)"
      using True fresh by (auto simp: fun_eq_iff)
    finally show ?thesis .
  next
    case False
    then show ?thesis by (auto simp: fun_eq_iff)
  qed
qed

lemma map_of_rev_distinct: "distinct (map fst cs) \<Longrightarrow> map_of (rev cs) = map_of cs"
  by (rule map_of_inject_set [THEN iffD2]) (auto simp: rev_map [symmetric] distinct_rev)

text \<open>
  heartbeats are ignored and nothing else is: with one condition per type on both objects, an
  update of a ManagedCluster starts no reconcile exactly when deletion, labels, client configs and
  the status of every condition are unchanged, in whatever order labels and conditions come.
\<close>
theorem cluster_update_ignored_iff:
  assumes "distinct (map fst (mc_conditions old))" and "distinct (map fst (mc_conditions new))"
  shows "\<not> ClusterPredicateUpdate old new \<longleftrightarrow>
    m_deleting (mc_meta old) = m_deleting (mc_meta new)
    \<and> map_of (m_labels (mc_meta old)) = map_of (m_labels (mc_meta new))
    \<and> mc_configs old = mc_configs new
    \<and> map_of (mc_conditions old) = map_of (mc_conditions new)"
  using assms
  by (simp add: ClusterPredicateUpdate_def same_map_iff conditions_changed_iff map_of_cond_map
      map_of_rev_distinct)

theorem cluster_update_ignored_iff_witness:
  "let m = plain_meta ''c1'' [] [(''a'', ''b'')] [];
       old = \<lparr>mc_meta = m, mc_configs = [], mc_conditions = [(''x'', CTrue), (''y'', CFalse)]\<rparr>;
       new = \<lparr>mc_meta = m, mc_configs = [], mc_conditions = [(''y'', CFalse), (''x'', CTrue)]\<rparr> in
   \<not> ClusterPredicateUpdate old new"
  unfolding Let_def by (subst cluster_update_ignored_iff) (auto simp: fun_eq_iff)

end
