(* ===== verification/Sha1.thy ===== *)
theory Sha1
  imports GoStd "HOL-Library.Word"
begin

text \<open>
  \<open>crypto/sha1\<close> and \<open>encoding/hex\<close> of the Go standard library, on 32-bit words, and
  \<open>encoding/base64\<close>: what the code uses to name ApplicationSets in label values and to write CA
  bundles.
\<close>

unbundle bit_operations_syntax

section \<open>SHA-1\<close>

type_synonym w32 = "32 word"

definition rotl :: "nat \<Rightarrow> w32 \<Rightarrow> w32" where
  "rotl n x = push_bit n x OR drop_bit (32 - n) x"

definition byte_of :: "char \<Rightarrow> w32" where
  "byte_of c = word_of_int (of_char c)"

definition be64 :: "nat \<Rightarrow> char list" where \<comment> \<open>eight bytes, most significant first\<close>
  "be64 n = map (\<lambda>i. char_of ((int n div 256 ^ (7 - i)) mod 256)) [0..<8]"

definition sha1_pad :: "char list \<Rightarrow> char list" where
  "sha1_pad m =
     m @ [CHR 0x80] @ replicate ((119 - length m mod 64) mod 64) (CHR 0x00) @ be64 (8 * length m)"

fun be_words :: "char list \<Rightarrow> w32 list" where
  "be_words (a # b # c # d # s) =
     (push_bit 24 (byte_of a) OR push_bit 16 (byte_of b) OR push_bit 8 (byte_of c) OR byte_of d) # be_words s"
| "be_words _ = []"

text \<open>The message schedule, newest word first.\<close>

fun sha1_extend :: "nat \<Rightarrow> w32 list \<Rightarrow> w32 list" where
  "sha1_extend 0 ws = ws"
| "sha1_extend (Suc n) ws =
     sha1_extend n (rotl 1 (ws ! 2 XOR ws ! 7 XOR ws ! 13 XOR ws ! 15) # ws)"

type_synonym digest = "w32 \<times> w32 \<times> w32 \<times> w32 \<times> w32"

fun sha1_round :: "nat \<times> w32 \<Rightarrow> digest \<Rightarrow> digest" where
  "sha1_round (t, w) (a, b, c, d, e) =
     (let (f, k) =
        (if t < 20 then ((b AND c) OR (NOT b AND d), 0x5A827999)
         else if t < 40 then (b XOR c XOR d, 0x6ED9EBA1)
         else if t < 60 then ((b AND c) OR (b AND d) OR (c AND d), 0x8F1BBCDC)
         else (b XOR c XOR d, 0xCA62C1D6))
      in (rotl 5 a + f + e + k + w, a, rotl 30 b, c, d))"

fun sha1_block :: "w32 list \<Rightarrow> digest \<Rightarrow> digest" where
  "sha1_block ws (h0, h1, h2, h3, h4) =
     (case fold sha1_round (zip [0..<80] (rev (sha1_extend 64 (rev ws)))) (h0, h1, h2, h3, h4) of
        (a, b, c, d, e) \<Rightarrow> (h0 + a, h1 + b, h2 + c, h3 + d, h4 + e))"

fun sha1_blocks :: "nat \<Rightarrow> w32 list \<Rightarrow> digest \<Rightarrow> digest" where
  "sha1_blocks 0 ws h = h"
| "sha1_blocks (Suc n) ws h = sha1_blocks n (drop 16 ws) (sha1_block (take 16 ws) h)"

definition sha1_sum :: "char list \<Rightarrow> digest" where
  "sha1_sum m =
     (let ws = be_words (sha1_pad m) in
      sha1_blocks (length ws div 16) ws (0x67452301, 0xEFCDAB89, 0x98BADCFE, 0x10325476, 0xC3D2E1F0))"

definition hex_digit :: "nat \<Rightarrow> char" where
  "hex_digit n = (if n < 10 then char_of (48 + n) else char_of (87 + n))"

definition hex_word :: "w32 \<Rightarrow> string" where
  "hex_word w = map (\<lambda>i. hex_digit (unat (drop_bit (4 * (7 - i)) w AND 15))) [0..<8]"

definition sha1_hex :: "string \<Rightarrow> string" where
  "sha1_hex m =
     (case sha1_sum m of (a, b, c, d, e) \<Rightarrow> hex_word a @ hex_word b @ hex_word c @ hex_word d @ hex_word e)"

lemma length_hex_word [simp]: "length (hex_word w) = 8"
  by (simp add: hex_word_def)

lemma length_sha1_hex [simp]: "length (sha1_hex m) = 40"
  by (simp add: sha1_hex_def split: prod.split)

lemma length_be64 [simp]: "length (be64 n) = 8"
  by (simp add: be64_def)

text \<open>Padding fills whole blocks of 64 bytes.\<close>

lemma length_sha1_pad: "64 dvd length (sha1_pad m)"
proof -
  define r where "r = length m mod 64"
  define q where "q = length m div 64"
  have r: "r < 64" and m: "length m = 64 * q + r"
    by (simp_all add: r_def q_def)
  have "(length m + 9 + (119 - r) mod 64) mod 64 = (length m + 9 + (119 - r)) mod 64"
    by (rule mod_add_right_eq)
  also have "length m + 9 + (119 - r) = 64 * (q + 2)"
    using r by (simp add: m)
  finally have "(length m + 9 + (119 - r) mod 64) mod 64 = 0"
    by simp
  then show ?thesis
    by (simp add: sha1_pad_def r_def [symmetric] dvd_eq_mod_eq_0 ac_simps)
qed

section \<open>base64\<close>

definition b64_alphabet :: string where
  "b64_alphabet = ''ABCDEFGHIJKLMNOPQRSTUVWXYZabcdefghijklmnopqrstuvwxyz0123456789+/''"

definition b64 :: "nat \<Rightarrow> char" where
  "b64 n = b64_alphabet ! (n mod 64)"

abbreviation byte :: "char \<Rightarrow> nat" where "byte c \<equiv> of_char c"

text \<open>\<open>base64.StdEncoding.EncodeToString\<close>\<close>

fun base64_encode :: "string \<Rightarrow> string" where
  "base64_encode (a # b # c # s) =
     b64 (byte a div 4) # b64 (byte a mod 4 * 16 + byte b div 16) #
     b64 (byte b mod 16 * 4 + byte c div 64) # b64 (byte c mod 64) # base64_encode s"
| "base64_encode [a, b] =
     [b64 (byte a div 4), b64 (byte a mod 4 * 16 + byte b div 16), b64 (byte b mod 16 * 4), CHR ''='']"
| "base64_encode [a] = [b64 (byte a div 4), b64 (byte a mod 4 * 16), CHR ''='', CHR ''='']"
| "base64_encode [] = []"

lemma base64_encode_empty [simp]: "base64_encode s = [] \<longleftrightarrow> s = []"
  by (cases s rule: base64_encode.cases) auto

end
