(* ===== verification/Propagation.thy ===== *)
theory Propagation
  imports PullModelConfig ClusterEvents Sha1
begin

text \<open>
  The propagation controller: \<open>propagation-controller/application/helper.go\<close> and
  \<open>application_controller.go\<close>. An Argo CD Application on the hub with the pull label is wrapped into
  a ManifestWork in the namespace of the managed cluster that its annotation names. The Application
  object in memory is threaded explicitly, because preparing the payload changes it.
\<close>

section \<open>Names\<close>

definition KubernetesInternalAPIServerAddr :: string where
  "KubernetesInternalAPIServerAddr = ''https://kubernetes.default.svc''"

definition AnnotationKeyOCMManagedCluster :: string where
  "AnnotationKeyOCMManagedCluster = ''apps.open-cluster-management.io/ocm-managed-cluster''"
definition AnnotationKeyOCMManagedClusterAppNamespace :: string where
  "AnnotationKeyOCMManagedClusterAppNamespace =
     ''apps.open-cluster-management.io/ocm-managed-cluster-app-namespace''"
definition AnnotationKeyAppSet :: string where
  "AnnotationKeyAppSet = ''apps.open-cluster-management.io/hosting-applicationset''"
definition AnnotationKeyAppSkipReconcile :: string where
  "AnnotationKeyAppSkipReconcile = ''argocd.argoproj.io/skip-reconcile''"
definition AnnotationKeyAppRefresh :: string where
  "AnnotationKeyAppRefresh = ''argocd.argoproj.io/refresh''"
definition AnnotationKeyHubApplicationNamespace :: string where
  "AnnotationKeyHubApplicationNamespace = ''apps.open-cluster-management.io/hub-application-namespace''"
definition AnnotationKeyHubApplicationName :: string where
  "AnnotationKeyHubApplicationName = ''apps.open-cluster-management.io/hub-application-name''"
definition LabelKeyAppSet :: string where
  "LabelKeyAppSet = ''apps.open-cluster-management.io/application-set''"
definition LabelKeyAppSetHash :: string where
  "LabelKeyAppSetHash = ''apps.open-cluster-management.io/application-set-hash''"
definition LabelKeyPull :: string where
  "LabelKeyPull = ''apps.open-cluster-management.io/pull-to-ocm-managed-cluster''"
definition ResourcesFinalizerName :: string where
  "ResourcesFinalizerName = ''resources-finalizer.argocd.argoproj.io''"

lemmas propagation_keys =
  AnnotationKeyOCMManagedCluster_def AnnotationKeyOCMManagedClusterAppNamespace_def
  AnnotationKeyAppSet_def AnnotationKeyAppSkipReconcile_def AnnotationKeyAppRefresh_def
  AnnotationKeyHubApplicationNamespace_def AnnotationKeyHubApplicationName_def
  LabelKeyAppSet_def LabelKeyAppSetHash_def LabelKeyPull_def

abbreviation u_name :: "unstructured \<Rightarrow> string" where "u_name a \<equiv> m_name (u_meta a)"
abbreviation u_ns :: "unstructured \<Rightarrow> string" where "u_ns a \<equiv> m_ns (u_meta a)"
abbreviation u_annos :: "unstructured \<Rightarrow> smap" where "u_annos a \<equiv> m_annos (u_meta a)"
abbreviation u_labels :: "unstructured \<Rightarrow> smap" where "u_labels a \<equiv> m_labels (u_meta a)"

section \<open>Helpers\<close>

definition containsValidPullLabel :: "smap \<Rightarrow> bool" where
  "containsValidPullLabel labels =
     (if labels = [] then False
      else (case map_of labels LabelKeyPull of
              Some s \<Rightarrow> (case parse_bool s of None \<Rightarrow> False | Some isPull \<Rightarrow> isPull)
            | None \<Rightarrow> False))"

definition containsValidPullAnnotation :: "smap \<Rightarrow> bool" where
  "containsValidPullAnnotation annos =
     (if annos = [] then False
      else (case map_of annos AnnotationKeyOCMManagedCluster of
              Some cluster \<Rightarrow> length cluster > 0
            | None \<Rightarrow> False))"

definition containsValidManifestWorkHubApplicationAnnotations :: "manifest_work \<Rightarrow> bool" where
  "containsValidManifestWorkHubApplicationAnnotations mw =
     (let annos = m_annos (mw_meta mw) in
      if annos = [] then False
      else (case (map_of annos AnnotationKeyHubApplicationNamespace,
                  map_of annos AnnotationKeyHubApplicationName) of
              (Some ns, Some nm) \<Rightarrow> length ns > 0 \<and> length nm > 0
            | _ \<Rightarrow> False))"

definition generateAppNamespace :: "string \<Rightarrow> smap \<Rightarrow> string" where
  "generateAppNamespace ns annos =
     (let appNamespace = mget annos AnnotationKeyOCMManagedClusterAppNamespace in
      if length appNamespace > 0 then appNamespace
      else if length ns > 0 then ns
      else ''argocd'')"

text \<open>Slicing the first five bytes of a shorter UID panics: \<open>None\<close>.\<close>

definition generateManifestWorkName :: "string \<Rightarrow> string \<Rightarrow> string option" where
  "generateManifestWorkName nm uid =
     (if length uid < 5 then None else Some (nm @ ''-'' @ take 5 uid))"

definition GenerateManifestWorkAppSetHashLabelValue :: "string \<Rightarrow> string \<Rightarrow> string" where
  "GenerateManifestWorkAppSetHashLabelValue ns nm = sha1_hex (ns @ ''/'' @ nm)"

fun getAppSetOwnerName :: "owner_ref list \<Rightarrow> string" where
  "getAppSetOwnerName [] = []"
| "getAppSetOwnerName (r # rs) =
     (if equal_fold (or_apiVersion r) ''argoproj.io/v1alpha1'' \<and> equal_fold (or_kind r) ''ApplicationSet''
      then or_name r else getAppSetOwnerName rs)"

text \<open>\<open>ApplicationPredicateFunctions\<close>: which events are reconciled.\<close>

definition create_event :: "unstructured \<Rightarrow> bool" where
  "create_event app \<longleftrightarrow>
     containsValidPullLabel (u_labels app) \<and> containsValidPullAnnotation (u_annos app)"

text \<open>
  The comparison removes the status but not the resource version, which is part of the metadata of
  both objects; it is an argument here, for the old and the new object.
\<close>

definition update_event :: "string \<Rightarrow> string \<Rightarrow> unstructured \<Rightarrow> unstructured \<Rightarrow> bool" where
  "update_event oldVersion newVersion old new \<longleftrightarrow>
     (let oldAppCopy = old\<lparr>u_fields := mdel_key ''status'' (u_fields old)\<rparr>;
          newAppCopy = new\<lparr>u_fields := mdel_key ''status'' (u_fields new)\<rparr>;
          isChanged = \<not> (oldVersion = newVersion \<and> unstructured_same oldAppCopy newAppCopy)
      in containsValidPullLabel (u_labels new) \<and> containsValidPullAnnotation (u_annos new) \<and> isChanged)"

section \<open>The payload\<close>

text \<open>
  The assignments to the \<open>destination\<close> map. The map is shared: the new Application's spec, the
  source Application's spec and \<open>newSpec\<close> are one map, so the source Application changes too.
\<close>

definition in_cluster_destination :: "string \<Rightarrow> jobj \<Rightarrow> jobj" where
  "in_cluster_destination targetNamespace destination =
     (let d1 = mset_key ''name'' (JStr []) destination;
          d2 = (case jget_str d1 ''namespace'' of
                  Some ns \<Rightarrow> if length ns = 0 then mset_key ''namespace'' (JStr targetNamespace) d1 else d1
                | None \<Rightarrow> d1)
      in mset_key ''server'' (JStr KubernetesInternalAPIServerAddr) d2)"

definition prepared_spec :: "string \<Rightarrow> jobj \<Rightarrow> jobj" where
  "prepared_spec targetNamespace spec =
     (case jget_obj spec ''destination'' of
        Some d \<Rightarrow> mset_key ''destination'' (JObj (in_cluster_destination targetNamespace d)) spec
      | None \<Rightarrow> spec)"

definition ocm_annotations :: "string list" where
  "ocm_annotations =
     [AnnotationKeyOCMManagedCluster, AnnotationKeyOCMManagedClusterAppNamespace, AnnotationKeyAppSkipReconcile]"

definition payload_labels :: "unstructured \<Rightarrow> smap" where
  "payload_labels app =
     (let labels = filter (\<lambda>(k, _). k \<noteq> LabelKeyPull) (u_labels app) in
      if getAppSetOwnerName (m_owners (u_meta app)) \<noteq> []
      then mset_key LabelKeyAppSet (format_bool True) labels else labels)"

definition payload_annotations :: "unstructured \<Rightarrow> smap" where
  "payload_annotations app =
     (let annos = filter (\<lambda>(k, _). k \<notin> set ocm_annotations) (u_annos app);
          owner = getAppSetOwnerName (m_owners (u_meta app)) in
      if owner \<noteq> []
      then mset_key AnnotationKeyAppSet (u_ns app @ ''/'' @ owner) annos else annos)"

definition argo_object :: "string \<Rightarrow> jobj" where \<comment> \<open>\<open>SetGroupVersionKind\<close>\<close>
  "argo_object knd = [(''apiVersion'', JStr ''argoproj.io/v1alpha1''), (''kind'', JStr knd)]"

definition prepareApplicationForWorkPayload :: "unstructured \<Rightarrow> unstructured \<times> unstructured" where
  "prepareApplicationForWorkPayload app =
     (let targetNamespace = generateAppNamespace (u_ns app) (u_annos app);
          f0 = argo_object ''Application'';
          f1 = (case jget_obj (u_fields app) ''operation'' of
                  Some operation \<Rightarrow> mset_key ''operation'' (JObj operation) f0 | None \<Rightarrow> f0);
          (f2, source) =
            (case jget_obj (u_fields app) ''spec'' of
               Some spec \<Rightarrow>
                 (let newSpec = prepared_spec targetNamespace spec in
                  (mset_key ''spec'' (JObj newSpec) f1, mset_key ''spec'' (JObj newSpec) (u_fields app)))
             | None \<Rightarrow> (f1, u_fields app));
          newApp = \<lparr>u_meta = (plain_meta (u_name app) targetNamespace (payload_labels app)
                                (payload_annotations app))\<lparr>m_finalizers := m_finalizers (u_meta app)\<rparr>,
                    u_fields = f2\<rparr>
      in (newApp, app\<lparr>u_fields := source\<rparr>))"

definition prepareManifestWorkNS :: "string \<Rightarrow> json" where
  "prepareManifestWorkNS ns =
     JObj [(''kind'', JStr ''Namespace''), (''apiVersion'', JStr ''v1''),
           (''metadata'', JObj
              [(''name'', JStr ns),
               (''labels'', JObj [(''argocd.argoproj.io/managed-by'', JStr GitOpsNamespace)]),
               (''annotations'', JObj [(''argocd.argoproj.io/sync-options'', JStr ''Delete=false'')])]),
           (''spec'', JObj []), (''status'', JObj [])]"

section \<open>The AppProject\<close>

definition discoverAndFetchAppProject :: "unstructured \<Rightarrow> string \<Rightarrow> unstructured api" where
  "discoverAndFetchAppProject app projectName = do {
     dl \<leftarrow> list_deployments (\<lambda>d. map_of (m_labels (dp_meta d)) ''app.kubernetes.io/part-of'' = Some ''argocd'');
     discovered \<leftarrow>
       (case dl of
          Inl e \<Rightarrow> State_Monad.return None
        | Inr [] \<Rightarrow> State_Monad.return None
        | Inr (d # ds) \<Rightarrow> do {
            p \<leftarrow> get_project (m_ns (dp_meta d), projectName);
            State_Monad.return (case p of Inr proj \<Rightarrow> Some proj | Inl e \<Rightarrow> None)
          });
     case discovered of
       Some proj \<Rightarrow> State_Monad.return (Inr proj)
     | None \<Rightarrow> do {
         r \<leftarrow> loopE (\<lambda>_ ns. do {
                  p \<leftarrow> get_project (ns, projectName);
                  State_Monad.return (case p of Inr proj \<Rightarrow> Inl proj | Inl e \<Rightarrow> Inr ())
                }) () [u_ns app, GitOpsNamespace, ''argocd''];
         State_Monad.return (case r of
           Inl proj \<Rightarrow> Inr proj
         | Inr _ \<Rightarrow> Inl (ErrText (''failed to discover AppProject '' @ projectName @
                      '': not found in any candidate namespace'')))
       }
   }"

definition stripped_project :: "unstructured \<Rightarrow> unstructured" where
  "stripped_project proj =
     \<lparr>u_meta = plain_meta (u_name proj) (u_ns proj) (u_labels proj)
        (filter (\<lambda>(k, _). k \<noteq> ''kubectl.kubernetes.io/last-applied-configuration'') (u_annos proj)),
      u_fields =
        (case jget_obj (u_fields proj) ''spec'' of
           Some spec \<Rightarrow> mset_key ''spec'' (JObj spec) (argo_object ''AppProject'')
         | None \<Rightarrow> argo_object ''AppProject'')\<rparr>"

abbreviation no_project :: "unstructured \<Rightarrow> goerr" where
  "no_project app \<equiv>
     ErrText (''Application '' @ u_ns app @ ''/'' @ u_name app @ '' does not have spec.project field'')"

definition prepareAppproject :: "unstructured \<Rightarrow> unstructured api" where
  "prepareAppproject app =
     (case nested_string (u_fields app) [''spec'', ''project''] of
        Inl e \<Rightarrow> State_Monad.return (Inl e)
      | Inr None \<Rightarrow> State_Monad.return (Inl (no_project app))
      | Inr (Some projectName) \<Rightarrow>
          (if projectName = [] then State_Monad.return (Inl (no_project app))
           else do {
             p \<leftarrow> discoverAndFetchAppProject app projectName;
             State_Monad.return (case p of Inl e \<Rightarrow> Inl e | Inr proj \<Rightarrow> Inr (stripped_project proj))
           }))"

section \<open>The ManifestWork\<close>

definition work_labels :: "unstructured \<Rightarrow> smap" where
  "work_labels app =
     (let owner = getAppSetOwnerName (m_owners (u_meta app)) in
      if owner \<noteq> []
      then [(LabelKeyAppSet, format_bool True),
            (LabelKeyAppSetHash, GenerateManifestWorkAppSetHashLabelValue (u_ns app) owner)]
      else [(LabelKeyPull, format_bool True)])"

definition work_annotations :: "unstructured \<Rightarrow> smap" where
  "work_annotations app =
     (let owner = getAppSetOwnerName (m_owners (u_meta app));
          workAnnos = [(AnnotationKeyHubApplicationNamespace, u_ns app),
                       (AnnotationKeyHubApplicationName, u_name app)] in
      if owner \<noteq> [] then mset_key AnnotationKeyAppSet (u_ns app @ ''/'' @ owner) workAnnos
      else workAnnos)"

definition includeAppProject :: "unstructured \<Rightarrow> bool" where
  "includeAppProject proj \<longleftrightarrow> \<not> (u_name proj = ''default'' \<and> u_ns proj = GitOpsNamespace)"

definition feedback_rules :: "(string \<times> string) list" where
  "feedback_rules =
     [(''healthStatus'', ''.status.health.status''), (''syncStatus'', ''.status.sync.status''),
      (''operationStateStartedAt'', ''.status.operationState.startedAt''),
      (''operationStatePhase'', ''.status.operationState.phase''),
      (''syncRevision'', ''.status.sync.revision'')]"

definition application_config :: "unstructured \<Rightarrow> manifest_config" where
  "application_config application =
     \<lparr>mf_id = \<lparr>ri_group = ''argoproj.io'', ri_resource = ''applications'',
               ri_ns = u_ns application, ri_name = u_name application\<rparr>,
      mf_feedback = feedback_rules,
      mf_strategy = Some \<lparr>us_type = StrategyServerSideApply,
        us_ssa = Some \<lparr>ssa_force = True,
          ssa_ignore = [(''OnSpokeChange'',
            [''.operation'',
             ''.metadata.annotations['' @ [CHR 0x22] @ ''argocd.argoproj.io/refresh'' @ [CHR 0x22] @ '']''])]\<rparr>\<rparr>\<rparr>"

definition orphaning_rules :: "unstructured \<Rightarrow> unstructured \<Rightarrow> resource_id list" where
  "orphaning_rules application proj =
     [\<lparr>ri_group = [], ri_resource = ''namespaces'', ri_ns = [], ri_name = u_ns application\<rparr>]
     @ (if includeAppProject proj
        then [\<lparr>ri_group = ''argoproj.io'', ri_resource = ''appprojects'',
               ri_ns = u_ns proj, ri_name = u_name proj\<rparr>]
        else [])"

definition work_manifests :: "unstructured \<Rightarrow> unstructured \<Rightarrow> manifest list" where
  "work_manifests application proj =
     [RawManifest (prepareManifestWorkNS (u_ns application))]
     @ (if includeAppProject proj then [ObjManifest proj] else [])
     @ [ObjManifest application]"

text \<open>
  Returns the ManifestWork and the source Application, whose destination the payload preparation
  has changed.
\<close>

definition generateManifestWork ::
  "string \<Rightarrow> string \<Rightarrow> unstructured \<Rightarrow> (manifest_work \<times> unstructured) api" where
  "generateManifestWork nm ns app =
     (case prepareApplicationForWorkPayload app of
        (application, app') \<Rightarrow> do {
          p \<leftarrow> prepareAppproject app';
          State_Monad.return (case p of
            Inl e \<Rightarrow> Inl e
          | Inr proj \<Rightarrow>
              Inr (\<lparr>mw_meta = plain_meta nm ns (work_labels app') (work_annotations app'),
                    mw_spec = \<lparr>ws_manifests = work_manifests application proj,
                               ws_configs = [application_config application],
                               ws_orphaning = Some (orphaning_rules application proj)\<rparr>,
                    mw_feedback = []\<rparr>, app'))
        })"

section \<open>Reconcile\<close>

definition bound_in :: "string \<Rightarrow> placement_decision list \<Rightarrow> bool" where
  "bound_in cluster pds \<longleftrightarrow> (\<exists>pd \<in> set pds. cluster \<in> set (pd_clusters pd))"

definition isClusterBoundToNamespace :: "string \<Rightarrow> string \<Rightarrow> bool api" where
  "isClusterBoundToNamespace cluster ns = do {
     l \<leftarrow> list_decisions (\<lambda>pd. m_ns (pd_meta pd) = ns);
     State_Monad.return (case l of Inl e \<Rightarrow> Inl e | Inr pds \<Rightarrow> Inr (bound_in cluster pds))
   }"

text \<open>The in-place removal loop over the finalizers, by index.\<close>

function removeFinalizer :: "nat \<Rightarrow> string list \<Rightarrow> string list" where
  "removeFinalizer i f =
     (if i < length f then
        (if f ! i = ResourcesFinalizerName then removeFinalizer i (take i f @ drop (Suc i) f)
         else removeFinalizer (Suc i) f)
      else f)"
  by pat_completeness auto

termination
  by (relation "measure (\<lambda>(i, f). length f - i)") auto

declare removeFinalizer.simps [simp del]

definition drop_finalizer :: "unstructured \<Rightarrow> unstructured" where
  "drop_finalizer app =
     (if m_finalizers (u_meta app) \<noteq> []
      then app\<lparr>u_meta := (u_meta app)\<lparr>m_finalizers := removeFinalizer 0 (m_finalizers (u_meta app))\<rparr>\<rparr>
      else app)"

text \<open>The branch for an Application that is being deleted.\<close>

definition reconcileDeleted :: "nsname \<Rightarrow> unstructured \<Rightarrow> unit api" where
  "reconcileDeleted mwKey app =
     (let app' = drop_finalizer app in do {
        g \<leftarrow> get_work mwKey;
        case g of
          Inl e \<Rightarrow>
            (if is_not_found e then update_app (u_ns app', u_name app') app'
             else State_Monad.return (Inl e))
        | Inr work \<Rightarrow> do {
            d \<leftarrow> delete_work (m_ns (mw_meta work), m_name (mw_meta work));
            case d of
              Inl e \<Rightarrow> State_Monad.return (Inl e)
            | Inr _ \<Rightarrow> update_app (u_ns app', u_name app') app'
          }
      })"

text \<open>Removal of the operation field and the refresh annotation, with the update they need.\<close>

definition strip_triggers :: "unstructured \<Rightarrow> unstructured \<times> bool" where
  "strip_triggers app =
     (let (app1, n1) =
        (if has_key (u_fields app) ''operation''
         then (app\<lparr>u_fields := mdel_key ''operation'' (u_fields app)\<rparr>, True) else (app, False))
      in if has_key (u_annos app1) AnnotationKeyAppRefresh
         then (app1\<lparr>u_meta := (u_meta app1)\<lparr>m_annos := mdel_key AnnotationKeyAppRefresh (u_annos app1)\<rparr>\<rparr>, True)
         else (app1, n1))"

definition overwrite_work :: "manifest_work \<Rightarrow> manifest_work \<Rightarrow> manifest_work" where
  "overwrite_work w mw =
     mw\<lparr>mw_meta := (mw_meta mw)\<lparr>m_annos := m_annos (mw_meta w), m_labels := m_labels (mw_meta w)\<rparr>,
        mw_spec := mw_spec w\<rparr>"

text \<open>Create or update the ManifestWork, then write the Application back if it had triggers.\<close>

definition applyWork :: "nsname \<Rightarrow> manifest_work \<Rightarrow> unit api" where
  "applyWork mwKey w = do {
     g \<leftarrow> get_work mwKey;
     case g of
       Inl e \<Rightarrow>
         (if is_not_found e then create_work (m_ns (mw_meta w), m_name (mw_meta w)) w
          else State_Monad.return (Inl e))
     | Inr mw \<Rightarrow> update_work (m_ns (mw_meta mw), m_name (mw_meta mw)) (overwrite_work w mw)
   }"

definition propagate :: "nsname \<Rightarrow> unstructured \<Rightarrow> unit api" where
  "propagate mwKey app = do {
     gw \<leftarrow> generateManifestWork (snd mwKey) (fst mwKey) app;
     case gw of
       Inl e \<Rightarrow> State_Monad.return (Inl e)
     | Inr (w, app1) \<Rightarrow> do {
         r \<leftarrow> applyWork mwKey w;
         case r of
           Inl e \<Rightarrow> State_Monad.return (Inl e)
         | Inr _ \<Rightarrow>
             (case strip_triggers app1 of (app2, needsUpdate) \<Rightarrow>
                if needsUpdate then update_app (u_ns app2, u_name app2) app2
                else State_Monad.return (Inr ()))
       }
   }"

definition reconcileLive :: "nsname \<Rightarrow> unstructured \<Rightarrow> unit api" where
  "reconcileLive mwKey app = do {
     mc \<leftarrow> get_cluster ([], fst mwKey);
     case mc of
       Inl e \<Rightarrow> State_Monad.return (Inl e)
     | Inr _ \<Rightarrow> do {
         b \<leftarrow> isClusterBoundToNamespace (fst mwKey) (u_ns app);
         case b of
           Inl e \<Rightarrow> State_Monad.return (Inl e)
         | Inr False \<Rightarrow> State_Monad.return (Inr ())
         | Inr True \<Rightarrow> propagate mwKey app
       }
   }"

definition Reconcile :: "config_env \<Rightarrow> nsname \<Rightarrow> unit api" where
  "Reconcile env req = do {
     cfg \<leftarrow> LoadOrCreate env;
     if disabled cfg then State_Monad.return (Inr ())
     else do {
       g \<leftarrow> get_app req;
       case g of
         Inl e \<Rightarrow> State_Monad.return (if is_not_found e then Inr () else Inl e)
       | Inr app \<Rightarrow>
           (let managedClusterName = mget (u_annos app) AnnotationKeyOCMManagedCluster in
            case generateManifestWorkName (u_name app) (m_uid (u_meta app)) of
              None \<Rightarrow> State_Monad.return (Inl (Panicked ''slice bounds out of range''))
            | Some mwName \<Rightarrow>
                (if m_deleting (u_meta app) then reconcileDeleted (managedClusterName, mwName) app
                 else reconcileLive (managedClusterName, mwName) app))
     }
   }"

section \<open>What the steps leave alone\<close>

lemma discover_quiet: "state_io_rel quiet (discoverAndFetchAppProject app p)"
  unfolding discoverAndFetchAppProject_def
  by (intro quiet.frame_rules list_quiet get_quiet)

lemma prepareAppproject_quiet: "state_io_rel quiet (prepareAppproject app)"
  unfolding prepareAppproject_def by (intro quiet.frame_rules discover_quiet)

lemma generateManifestWork_quiet: "state_io_rel quiet (generateManifestWork nm ns app)"
  unfolding generateManifestWork_def by (intro quiet.frame_rules prepareAppproject_quiet)

lemma bound_quiet: "state_io_rel quiet (isClusterBoundToNamespace c ns)"
  unfolding isClusterBoundToNamespace_def by (intro quiet.frame_rules list_quiet)

lemma LoadOrCreate_sel:
  assumes "run_state (LoadOrCreate env) w = (r, w0)"
  shows "w_works w0 = w_works w" "w_apps w0 = w_apps w" "w_clusters w0 = w_clusters w"
    "w_decisions w0 = w_decisions w" "w_projects w0 = w_projects w" "w_deployments w0 = w_deployments w"
    "w_reports w0 = w_reports w"
proof -
  show "w_works w0 = w_works w" "w_apps w0 = w_apps w" "w_clusters w0 = w_clusters w"
    "w_decisions w0 = w_decisions w" "w_projects w0 = w_projects w" "w_deployments w0 = w_deployments w"
    "w_reports w0 = w_reports w"
    by (rule state_io_relD [OF LoadOrCreate_same assms]; simp add: blind_to_configmaps_def)+
qed

text \<open>Handlers change works only at the key of the Application, in a keyed store.\<close>

lemma generated_meta:
  assumes "run_state (generateManifestWork nm ns app) w = (Inr (mw, app'), w')"
  shows "m_ns (mw_meta mw) = ns" "m_name (mw_meta mw) = nm"
  using assms by (auto simp: generateManifestWork_def split: prod.splits sum.splits)

lemma applyWork_works:
  assumes "keyed mw_meta (w_works w)" and "m_ns (mw_meta mw) = fst k" and "m_name (mw_meta mw) = snd k"
    and "run_state (applyWork k mw) w = (r, w')" and "k' \<noteq> k"
  shows "map_of (w_works w') k' = map_of (w_works w) k'"
proof (cases "map_of (w_works w) k")
  case None
  with assms show ?thesis
    by (auto simp: applyWork_def run_simps has_key_def split: option.splits if_splits)
next
  case (Some x)
  with keyedD [OF assms(1) Some] assms show ?thesis
    by (auto simp: applyWork_def run_simps has_key_def overwrite_work_def split: option.splits if_splits)
qed

lemma applyWork_apps: "state_io_rel (\<lambda>s t. w_apps t = w_apps s) (applyWork k mw)"
  unfolding applyWork_def
  by (intro same_frame.frame_rules) (auto intro!: state_io_relI simp: run_simps split: option.splits if_splits)

lemma propagate_works:
  assumes "keyed mw_meta (w_works w)" and "run_state (propagate k app) w = (r, w')" and "k' \<noteq> k"
  shows "map_of (w_works w') k' = map_of (w_works w) k'"
proof -
  obtain g w1 where g: "run_state (generateManifestWork (snd k) (fst k) app) w = (g, w1)" by fastforce
  have w1: "w_works w1 = w_works w"
    using state_io_relD [OF generateManifestWork_quiet g] by (simp add: quiet_sel)
  show ?thesis
  proof (cases g)
    case (Inl e)
    with g assms(2) w1 show ?thesis by (auto simp: propagate_def)
  next
    case (Inr p)
    then obtain mw app1 where gi: "g = Inr (mw, app1)" by (cases p) simp
    obtain r2 w2 where a: "run_state (applyWork k mw) w1 = (r2, w2)" by fastforce
    have "map_of (w_works w2) k' = map_of (w_works w) k'"
      using applyWork_works [OF _ _ _ a assms(3)] generated_meta [OF g [unfolded gi]] assms(1) w1 by simp
    moreover have "w_works w' = w_works w2"
      using assms(2) g gi a
      by (auto simp: propagate_def run_simps split: option.splits sum.splits if_splits prod.splits)
    ultimately show ?thesis by simp
  qed
qed

lemma reconcileDeleted_works:
  assumes "keyed mw_meta (w_works w)" and "run_state (reconcileDeleted k app) w = (r, w')"
  shows "w_works w' = w_works w \<or> w_works w' = mdel_key k (w_works w)"
proof (cases "map_of (w_works w) k")
  case None
  with assms(2) show ?thesis
    by (auto simp: reconcileDeleted_def Let_def run_simps split: option.splits if_splits)
next
  case (Some x)
  with keyedD [OF assms(1) Some] assms(2) show ?thesis
    by (auto simp: reconcileDeleted_def Let_def run_simps split: option.splits if_splits)
qed

definition authorised :: "world \<Rightarrow> string \<Rightarrow> string \<Rightarrow> bool" where
  "authorised w cluster ns \<longleftrightarrow>
     map_of (w_clusters w) ([], cluster) \<noteq> None \<and>
     (\<exists>pd \<in> set (map snd (w_decisions w)). m_ns (pd_meta pd) = ns \<and> cluster \<in> set (pd_clusters pd))"

lemma reconcileLive_unauthorised:
  assumes "\<not> authorised w (fst k) (u_ns app)"
  shows "quiet w (snd (run_state (reconcileLive k app) w))"
proof -
  have q: "quiet s (consume (consume s))" for s
    by (rule quiet.frame_trans [OF quiet_consume quiet_consume])
  show ?thesis
    using assms
    by (auto simp: reconcileLive_def isClusterBoundToNamespace_def run_simps authorised_def bound_in_def
        quiet_consume q split: option.splits sum.splits bool.splits)
qed

lemma reconcileLive_works:
  assumes "keyed mw_meta (w_works w)" and "k' \<noteq> k"
  shows "map_of (w_works (snd (run_state (reconcileLive k app) w))) k' = map_of (w_works w) k'"
proof -
  have p: "w_works w1 = w_works w \<Longrightarrow>
      map_of (w_works (snd (run_state (propagate k app) w1))) k' = map_of (w_works w) k'" for w1
    using propagate_works [of w1 k app _ _ k'] assms by (metis prod.collapse)
  show ?thesis
    by (auto simp: reconcileLive_def isClusterBoundToNamespace_def run_simps p
        split: option.splits sum.splits bool.splits)
qed


section \<open>Facts about the pieces\<close>

lemma removeFinalizer_filter:
  "removeFinalizer i f = take i f @ filter (\<lambda>x. x \<noteq> ResourcesFinalizerName) (drop i f)"
proof (induction i f rule: removeFinalizer.induct)
  case (1 i f)
  show ?case
  proof (cases "i < length f")
    case True
    then have d: "drop i f = f ! i # drop (Suc i) f" by (rule Cons_nth_drop_Suc [symmetric])
    show ?thesis
      using 1 True d
      by (subst removeFinalizer.simps) (auto simp: take_Suc_conv_app_nth)
  qed (simp add: removeFinalizer.simps)
qed

lemma drop_finalizer_eq:
  "drop_finalizer app =
     app\<lparr>u_meta := (u_meta app)\<lparr>m_finalizers :=
       filter (\<lambda>x. x \<noteq> ResourcesFinalizerName) (m_finalizers (u_meta app))\<rparr>\<rparr>"
  by (simp add: drop_finalizer_def removeFinalizer_filter)

lemma map_of_filter_keys: "map_of (filter (\<lambda>(k, _). P k) m) k = (if P k then map_of m k else None)"
  by (induction m) auto

lemma filter_keys_lambda: "(\<lambda>(k, _). P k) = (\<lambda>kv. P (fst kv))"
  by auto

lemma prepare_source:
  "prepareApplicationForWorkPayload app = (application, app') \<Longrightarrow> u_meta app' = u_meta app"
  by (auto simp: prepareApplicationForWorkPayload_def Let_def split: option.splits)

lemma prepare_source_fields:
  "prepareApplicationForWorkPayload app = (application, app') \<Longrightarrow> k \<noteq> ''spec'' \<Longrightarrow>
    map_of (u_fields app') k = map_of (u_fields app) k"
  by (auto simp: prepareApplicationForWorkPayload_def Let_def split: option.splits)

lemma generate_prepares:
  assumes "run_state (generateManifestWork nm ns app) w = (Inr (work, app'), w')"
  obtains application where "prepareApplicationForWorkPayload app = (application, app')"
  using assms by (auto simp: generateManifestWork_def split: prod.splits sum.splits)

lemma prepare_meta:
  assumes "prepareApplicationForWorkPayload app = (application, app')"
  shows "u_name application = u_name app"
    "u_ns application = generateAppNamespace (u_ns app) (u_annos app)"
    "u_labels application = payload_labels app" "u_annos application = payload_annotations app"
    "m_finalizers (u_meta application) = m_finalizers (u_meta app)"
  using assms by (auto simp: prepareApplicationForWorkPayload_def Let_def split: option.splits)

lemma destination_of_prepared:
  "jget_obj (prepared_spec tns spec) ''destination'' =
     map_option (in_cluster_destination tns) (jget_obj spec ''destination'')"
  by (auto simp: prepared_spec_def jget_obj_def split: option.splits json.splits)

lemma jget_str_update: "jget_str (mset_key k v m) k' = (if k' = k then (case v of JStr s \<Rightarrow> Some s | _ \<Rightarrow> None) else jget_str m k')"
  by (simp add: jget_str_def)

lemma in_cluster_destination_facts:
  "jget_str (in_cluster_destination tns d) ''server'' = Some KubernetesInternalAPIServerAddr"
  "jget_str (in_cluster_destination tns d) ''name'' = Some []"
  "jget_str (in_cluster_destination tns d) ''namespace'' =
     (case jget_str d ''namespace'' of Some [] \<Rightarrow> Some tns | r \<Rightarrow> r)"
  by (auto simp: in_cluster_destination_def Let_def jget_str_update split: option.splits list.splits)

lemma in_cluster_destination_other:
  "k \<notin> {''server'', ''name'', ''namespace''} \<Longrightarrow> map_of (in_cluster_destination tns d) k = map_of d k"
  by (auto simp: in_cluster_destination_def Let_def split: option.splits)

section \<open>Properties\<close>

text \<open>
  C1: the authorization gate. Whatever the API server rejects, a reconcile changes no ManifestWork
  but the one named after the Application in the namespace of the cluster its annotation names; and
  if the Application is not being deleted, then only when that ManagedCluster exists and a
  PlacementDecision in the Application's own namespace selects it.
\<close>
theorem propagation_gate:
  assumes "keyed mw_meta (w_works w)"
    and "map_of (w_works (snd (run_state (Reconcile env req) w))) k \<noteq> map_of (w_works w) k"
  shows "\<exists>app nm. map_of (w_apps w) req = Some app
    \<and> generateManifestWorkName (u_name app) (m_uid (u_meta app)) = Some nm
    \<and> k = (mget (u_annos app) AnnotationKeyOCMManagedCluster, nm)
    \<and> (\<not> m_deleting (u_meta app) \<longrightarrow> authorised w (fst k) (u_ns app))"
proof -
  obtain r w0 where l: "run_state (LoadOrCreate env) w = (r, w0)" by fastforce
  note s = LoadOrCreate_sel [OF l]
  define w1 where "w1 = consume w0"
  have s1: "w_works w1 = w_works w" "w_clusters w1 = w_clusters w" "w_decisions w1 = w_decisions w"
    by (simp_all add: w1_def s)
  let ?c = "\<lambda>app. mget (u_annos app) AnnotationKeyOCMManagedCluster"
  from assms(2) l obtain app nm where app: "map_of (w_apps w) req = Some app"
    and nm: "generateManifestWorkName (u_name app) (m_uid (u_meta app)) = Some nm"
    and run: "map_of (w_works (snd (run_state (if m_deleting (u_meta app)
        then reconcileDeleted (?c app, nm) app else reconcileLive (?c app, nm) app) w1))) k \<noteq> map_of (w_works w1) k"
    by (auto simp: Reconcile_def run_simps s Let_def w1_def split: if_splits option.splits)
  show ?thesis
  proof (cases "m_deleting (u_meta app)")
    case True
    obtain r2 w2 where d: "run_state (reconcileDeleted (?c app, nm) app) w1 = (r2, w2)" by fastforce
    have "k = (?c app, nm)"
      using run True d reconcileDeleted_works [OF _ d] assms(1) s1 by (auto split: if_splits)
    with app nm True show ?thesis by auto
  next
    case False
    have "k = (?c app, nm)"
      using run False reconcileLive_works [of w1 k "(?c app, nm)" app] assms(1) s1 by auto
    moreover have "authorised w1 (?c app) (u_ns app)"
      using run False quiet_sel(9) [OF reconcileLive_unauthorised [of w1 "(?c app, nm)" app]] by fastforce
    ultimately show ?thesis
      using app nm s1 by (auto simp: authorised_def)
  qed
qed

text \<open>
  the payload deploys into the cluster that receives it. The wrapped Application keeps every
  field of the spec and of its destination except: the destination server is the cluster's own API
  server, its name is empty, and an empty destination namespace becomes the Application's namespace
  on the managed cluster.
\<close>
theorem payload_is_in_cluster:
  assumes "prepareApplicationForWorkPayload app = (application, app')"
    and "jget_obj (u_fields app) ''spec'' = Some spec" and "jget_obj spec ''destination'' = Some d"
  shows "\<exists>spec' d'. jget_obj (u_fields application) ''spec'' = Some spec'
    \<and> jget_obj spec' ''destination'' = Some d'
    \<and> jget_str d' ''server'' = Some KubernetesInternalAPIServerAddr
    \<and> jget_str d' ''name'' = Some []
    \<and> jget_str d' ''namespace'' =
        (case jget_str d ''namespace'' of Some [] \<Rightarrow> Some (u_ns application) | r \<Rightarrow> r)
    \<and> (\<forall>k. k \<noteq> ''destination'' \<longrightarrow> map_of spec' k = map_of spec k)
    \<and> (\<forall>k. k \<notin> {''server'', ''name'', ''namespace''} \<longrightarrow> map_of d' k = map_of d k)"
proof -
  let ?t = "u_ns application"
  have "jget_obj (u_fields application) ''spec'' = Some (prepared_spec ?t spec)"
    using assms(1,2) prepare_meta(2) [OF assms(1)]
    by (auto simp: prepareApplicationForWorkPayload_def Let_def jget_obj_def)
  moreover have "jget_obj (prepared_spec ?t spec) ''destination'' = Some (in_cluster_destination ?t d)"
    using assms(3) by (simp add: destination_of_prepared)
  moreover have "k \<noteq> ''destination'' \<Longrightarrow> map_of (prepared_spec ?t spec) k = map_of spec k" for k
    by (simp add: prepared_spec_def split: option.splits)
  ultimately show ?thesis
    using in_cluster_destination_facts [of ?t d] in_cluster_destination_other [of _ ?t d] by blast
qed

text \<open>
  the routing metadata stays on the hub: the payload has neither the pull label nor the OCM and
  skip-reconcile annotations; every other label and annotation is kept, but for the two marks that
  name the owning ApplicationSet when there is one.
\<close>
theorem payload_metadata:
  assumes "prepareApplicationForWorkPayload app = (application, app')"
  defines "owner \<equiv> getAppSetOwnerName (m_owners (u_meta app))"
  shows "map_of (u_labels application) k =
      (if owner \<noteq> [] \<and> k = LabelKeyAppSet then Some ''true''
       else if k = LabelKeyPull then None else map_of (u_labels app) k)
    \<and> map_of (u_annos application) k =
      (if owner \<noteq> [] \<and> k = AnnotationKeyAppSet then Some (u_ns app @ ''/'' @ owner)
       else if k \<in> set ocm_annotations then None else map_of (u_annos app) k)"
  using prepare_meta(3,4) [OF assms(1)]
  by (auto simp: payload_labels_def payload_annotations_def owner_def Let_def map_of_filter_keys
      filter_keys_lambda [symmetric] format_bool_def)


text \<open>
  what the ManifestWork carries and what survives its deletion: the manifests are the namespace
  of the payload, the AppProject unless it is the default one of \<open>openshift-gitops\<close>, and the
  Application; the orphaning rules name exactly the manifests other than the Application, so deleting
  the work removes the Application alone from the managed cluster.
\<close>
theorem work_contents:
  assumes "run_state (generateManifestWork nm ns app) w = (Inr (work, app'), w')"
  defines "application \<equiv> fst (prepareApplicationForWorkPayload app)"
  shows "m_name (mw_meta work) = nm \<and> m_ns (mw_meta work) = ns \<and>
    (\<exists>proj. fst (run_state (prepareAppproject app') w) = Inr proj \<and>
      (let default_project = (u_name proj = ''default'' \<and> u_ns proj = ''openshift-gitops'') in
       ws_manifests (mw_spec work) =
         RawManifest (prepareManifestWorkNS (u_ns application)) #
         (if default_project then [] else [ObjManifest proj]) @ [ObjManifest application] \<and>
       map_option (map (\<lambda>r. (ri_resource r, ri_name r))) (ws_orphaning (mw_spec work)) =
         Some ((''namespaces'', u_ns application) #
           (if default_project then [] else [(''appprojects'', u_name proj)]))))"
  using assms
  by (auto simp: generateManifestWork_def work_manifests_def orphaning_rules_def includeAppProject_def
      GitOpsNamespace_def Let_def split: prod.splits sum.splits)

text \<open>
  with the pull model disabled, a reconcile does nothing: it reports success and has only read.
\<close>
theorem disabled_reconcile_inert:
  assumes "disabled (fst (run_state (LoadOrCreate env) w))"
  shows "fst (run_state (Reconcile env req) w) = Inr () \<and> quiet w (snd (run_state (Reconcile env req) w))"
proof -
  obtain r w0 where l: "run_state (LoadOrCreate env) w = (r, w0)" by fastforce
  with assms disabled_quiet [OF l] show ?thesis by (simp add: Reconcile_def)
qed

text \<open>
  C7: deleting an Application. When no request is rejected, reconciling an Application under
  deletion removes its ManifestWork if there is one, keeps every other one, and writes the
  Application back with every occurrence of the resources finalizer gone and the other finalizers in
  order.
\<close>
theorem deletion_releases:
  assumes "run_state (LoadOrCreate env) w = (r, w0)" and "\<not> disabled r" and "calm w0"
    and "keyed mw_meta (w_works w)" and "keyed u_meta (w_apps w)"
    and "map_of (w_apps w) req = Some app" and "m_deleting (u_meta app)"
    and "generateManifestWorkName (u_name app) (m_uid (u_meta app)) = Some nm"
  defines "w' \<equiv> snd (run_state (Reconcile env req) w)"
    and "key \<equiv> (mget (u_annos app) AnnotationKeyOCMManagedCluster, nm)"
  shows "fst (run_state (Reconcile env req) w) = Inr ()
    \<and> map_of (w_works w') = (map_of (w_works w))(key := None)
    \<and> map_of (w_apps w') req = Some (app\<lparr>u_meta := (u_meta app)\<lparr>m_finalizers :=
        filter (\<lambda>x. x \<noteq> ResourcesFinalizerName) (m_finalizers (u_meta app))\<rparr>\<rparr>)"
proof -
  note s = LoadOrCreate_sel [OF assms(1)]
  have appkey: "(u_ns app, u_name app) = req" and has: "has_key (w_apps w) req"
    using keyedD [OF assms(5,6)] assms(6) by (simp_all add: has_key_def)
  have start: "run_state (Reconcile env req) w = run_state (reconcileDeleted key app) (consume w0)"
    using assms(1,2,3,6-8) by (simp add: Reconcile_def run_simps s key_def)
  show ?thesis
  proof (cases "map_of (w_works w) key")
    case None
    then show ?thesis
      using assms(3) appkey has
      by (simp add: w'_def start reconcileDeleted_def Let_def run_simps s drop_finalizer_eq fun_upd_idem)
  next
    case (Some work)
    have "(m_ns (mw_meta work), m_name (mw_meta work)) = key"
      by (rule keyedD [OF assms(4) Some])
    with Some show ?thesis
      using assms(3) appkey has
      by (simp add: w'_def start reconcileDeleted_def Let_def run_simps s drop_finalizer_eq has_key_def
          fun_upd_def)
  qed
qed

text \<open>
  C2: propagation. When no request is rejected, an authorised live Application whose AppProject is
  found ends with the generated ManifestWork stored (an existing one keeps its other metadata and its
  status feedback), and with neither an operation nor a refresh annotation left on the hub.
\<close>
theorem propagation_delivers:
  assumes "run_state (LoadOrCreate env) w = (r, w)" and "\<not> disabled r" and "w_verdicts w = []"
    and "keyed mw_meta (w_works w)" and "keyed u_meta (w_apps w)"
    and "map_of (w_apps w) req = Some app" and "\<not> m_deleting (u_meta app)"
    and "generateManifestWorkName (u_name app) (m_uid (u_meta app)) = Some nm"
  defines "cluster \<equiv> mget (u_annos app) AnnotationKeyOCMManagedCluster"
    and "w' \<equiv> snd (run_state (Reconcile env req) w)"
  assumes "authorised w cluster (u_ns app)"
    and "run_state (generateManifestWork nm cluster app) w = (Inr (work, app1), w)"
  shows "fst (run_state (Reconcile env req) w) = Inr ()
    \<and> map_of (w_works w') (cluster, nm) =
        Some (case map_of (w_works w) (cluster, nm) of None \<Rightarrow> work | Some old \<Rightarrow> overwrite_work work old)
    \<and> (\<exists>app'. map_of (w_apps w') req = Some app'
        \<and> \<not> has_key (u_fields app') ''operation'' \<and> \<not> has_key (u_annos app') AnnotationKeyAppRefresh)"
proof -
  note c = consume_nil [OF assms(3)]
  have v: "verdict w = None" using assms(3) by simp
  have appkey: "(u_ns app, u_name app) = req" and has: "has_key (w_apps w) req"
    using keyedD [OF assms(5,6)] assms(6) by (simp_all add: has_key_def)
  have meta: "m_ns (mw_meta work) = cluster" "m_name (mw_meta work) = nm" "u_meta app1 = u_meta app"
    using assms(12) prepare_source [of app]
    by (auto simp: generateManifestWork_def split: prod.splits sum.splits)
  obtain application where prep: "prepareApplicationForWorkPayload app = (application, app1)"
    using generate_prepares [OF assms(12)] .
  have live: "run_state (Reconcile env req) w = run_state (propagate (cluster, nm) app) w"
  proof -
    have "bound_in cluster (filter (\<lambda>pd. m_ns (pd_meta pd) = u_ns app) (map snd (w_decisions w)))"
      and "map_of (w_clusters w) ([], cluster) \<noteq> None"
      using assms(11) by (auto simp: authorised_def bound_in_def)
    then show ?thesis
      using assms(1,2,6-8) v c
      by (auto simp: Reconcile_def reconcileLive_def isClusterBoundToNamespace_def run_simps Let_def
          cluster_def [symmetric])
  qed
  obtain w1 where a: "run_state (applyWork (cluster, nm) work) w = (Inr (), w1)"
    and w1: "map_of (w_works w1) (cluster, nm) =
        Some (case map_of (w_works w) (cluster, nm) of None \<Rightarrow> work | Some old \<Rightarrow> overwrite_work work old)"
      "w_apps w1 = w_apps w" "verdict w1 = None" "w_verdicts w1 = []"
  proof (cases "map_of (w_works w) (cluster, nm)")
    case None
    then show ?thesis
      using that v c meta assms(3) by (simp add: applyWork_def run_simps has_key_def works.verdicts_upd)
  next
    case (Some old)
    with keyedD [OF assms(4) Some] show ?thesis
      using that v c assms(3) by (simp add: applyWork_def run_simps has_key_def works.verdicts_upd)
  qed
  obtain app2 b where st: "strip_triggers app1 = (app2, b)" by fastforce
  then have st2: "\<not> has_key (u_fields app2) ''operation''" "\<not> has_key (u_annos app2) AnnotationKeyAppRefresh"
    "(u_ns app2, u_name app2) = req" "\<not> b \<Longrightarrow> app2 = app1"
    using meta appkey by (auto simp: strip_triggers_def Let_def split: if_splits)
  show ?thesis
  proof (cases b)
    case True
    then show ?thesis
      using live a st st2 w1 assms(12) has consume_nil [of w1]
      by (auto simp: w'_def propagate_def run_simps)
  next
    case False
    moreover have "\<not> has_key (u_fields app) ''operation''" "\<not> has_key (u_annos app) AnnotationKeyAppRefresh"
      using st2 False meta prepare_source_fields [OF prep, of "''operation''"]
      by (simp_all add: has_key_def)
    ultimately show ?thesis
      using live a st w1 assms(6,12) by (auto simp: w'_def propagate_def)
  qed
qed


text \<open>
  the payload preparation changes the hub's own Application: after an Application with an
  operation or refresh trigger has been propagated, the hub object that is written back has the
  in-cluster destination in its spec, not the one its author wrote.
\<close>
theorem hub_destination_overwritten:
  assumes "jget_obj (u_fields app) ''spec'' = Some spec" and "jget_obj spec ''destination'' = Some d"
  defines "app1 \<equiv> snd (prepareApplicationForWorkPayload app)"
  shows "\<exists>spec' d'. jget_obj (u_fields (fst (strip_triggers app1))) ''spec'' = Some spec'
    \<and> jget_obj spec' ''destination'' = Some d'
    \<and> jget_str d' ''server'' = Some KubernetesInternalAPIServerAddr \<and> jget_str d' ''name'' = Some []"
proof -
  let ?t = "generateAppNamespace (u_ns app) (u_annos app)"
  have f: "u_fields app1 = mset_key ''spec'' (JObj (prepared_spec ?t spec)) (u_fields app)"
    using assms(1) by (simp add: app1_def prepareApplicationForWorkPayload_def Let_def)
  have strip: "map_of (u_fields (fst (strip_triggers x))) ''spec'' = map_of (u_fields x) ''spec''" for x
    by (simp add: strip_triggers_def Let_def)
  have "jget_obj (u_fields (fst (strip_triggers app1))) ''spec'' = Some (prepared_spec ?t spec)"
    by (simp add: jget_obj_def strip f)
  moreover have "jget_obj (prepared_spec ?t spec) ''destination'' = Some (in_cluster_destination ?t d)"
    using assms(2) by (simp add: destination_of_prepared)
  ultimately show ?thesis
    using in_cluster_destination_facts [of ?t d] by blast
qed

section \<open>Witnesses\<close>

definition sample_spec :: jobj where
  "sample_spec = [(''project'', JStr ''default''),
     (''destination'', JObj [(''server'', JStr ''https://hub''), (''namespace'', JStr [])])]"

definition sample_app :: unstructured where
  "sample_app =
     \<lparr>u_meta = (plain_meta ''shop'' ''team'' [(LabelKeyPull, ''true'')]
        [(AnnotationKeyOCMManagedCluster, ''c1''), (AnnotationKeyAppRefresh, ''hard'')])\<lparr>m_uid := ''12345678''\<rparr>,
      u_fields = [(''spec'', JObj sample_spec)]\<rparr>"

definition default_project :: unstructured where
  "default_project = \<lparr>u_meta = plain_meta ''default'' ''openshift-gitops'' [] [], u_fields = []\<rparr>"

definition enabled_configmap :: configmap where
  "enabled_configmap = \<lparr>cm_meta = plain_meta ConfigMapName ''ocm'' [] [], cm_data = [(ConfigMapDataKey, ''on'')]\<rparr>"

definition sample_cluster :: managed_cluster where
  "sample_cluster = \<lparr>mc_meta = plain_meta ''c1'' [] [] [], mc_configs = [], mc_conditions = []\<rparr>"

definition sample_decision :: placement_decision where
  "sample_decision = \<lparr>pd_meta = plain_meta ''d1'' ''team'' [] [], pd_clusters = [''c1'']\<rparr>"

definition sample_world :: "unstructured \<Rightarrow> world" where
  "sample_world app = empty_world\<lparr>w_apps := [((''team'', ''shop''), app)],
     w_projects := [((''openshift-gitops'', ''default''), default_project)],
     w_configmaps := [((''ocm'', ConfigMapName), enabled_configmap)],
     w_clusters := [(([], ''c1''), sample_cluster)],
     w_decisions := [((''team'', ''d1''), sample_decision)]\<rparr>"

lemma sample_world_sel [simp]:
  "w_verdicts (sample_world app) = []"
  "w_apps (sample_world app) = [((''team'', ''shop''), app)]"
  "w_works (sample_world app) = []"
  "w_deployments (sample_world app) = []"
  "w_projects (sample_world app) = [((''openshift-gitops'', ''default''), default_project)]"
  "w_clusters (sample_world app) = [(([], ''c1''), sample_cluster)]"
  "w_decisions (sample_world app) = [((''team'', ''d1''), sample_decision)]"
  "w_configmaps (sample_world app) = [((''ocm'', ConfigMapName), enabled_configmap)]"
  by (simp_all add: sample_world_def empty_world_def)

lemma sample_parse: "parse sample_env enabled_configmap = Inr default_config"
  by (simp add: parse_def enabled_configmap_def sample_env_def)

lemma sample_load: "run_state (LoadOrCreate sample_env) (sample_world app) = (Inr default_config, sample_world app)"
  by (simp add: LoadOrCreate_def sample_env_facts run_simps consume_nil sample_parse)

lemma sample_enabled: "\<not> disabled (Inr default_config)"
  by (simp add: disabled_def default_config_def)

lemma sample_app_facts:
  "u_name sample_app = ''shop''" "u_ns sample_app = ''team''"
  "mget (u_annos sample_app) AnnotationKeyOCMManagedCluster = ''c1''"
  "generateManifestWorkName (u_name sample_app) (m_uid (u_meta sample_app)) = Some ''shop-12345''"
  "m_uid (u_meta sample_app) = ''12345678''" "m_owners (u_meta sample_app) = []"
  "\<not> m_deleting (u_meta sample_app)"
  "m_finalizers (u_meta sample_app) = []"
  by (simp_all add: sample_app_def mget_def generateManifestWorkName_def plain_meta_def)

lemma sample_prepare:
  "\<exists>application app1. prepareApplicationForWorkPayload sample_app = (application, app1)"
  by fastforce

lemma sample_project:
  "run_state (prepareAppproject (snd (prepareApplicationForWorkPayload sample_app))) (sample_world app) =
     (Inr (stripped_project default_project), sample_world app)"
  by (simp add: prepareAppproject_def discoverAndFetchAppProject_def prepareApplicationForWorkPayload_def
      sample_app_def sample_spec_def jget_obj_def prepared_spec_def in_cluster_destination_def jget_str_def
      nested_string_def run_simps consume_nil generateAppNamespace_def GitOpsNamespace_def Let_def plain_meta_def)

lemma sample_generate:
  "\<exists>work app1. run_state (generateManifestWork ''shop-12345'' ''c1'' sample_app) (sample_world app)
     = (Inr (work, app1), sample_world app)"
proof -
  obtain application app1 where "prepareApplicationForWorkPayload sample_app = (application, app1)"
    using sample_prepare by blast
  then show ?thesis
    using sample_project [of app] by (simp add: generateManifestWork_def)
qed

lemma sample_authorised: "authorised (sample_world app) ''c1'' ''team''"
  by (simp add: authorised_def sample_decision_def)

theorem propagation_delivers_witness:
  "map_of (w_works (snd (run_state (Reconcile sample_env (''team'', ''shop'')) (sample_world sample_app))))
     (''c1'', ''shop-12345'') \<noteq> None"
proof -
  obtain work app1 where g: "run_state (generateManifestWork ''shop-12345'' ''c1'' sample_app)
      (sample_world sample_app) = (Inr (work, app1), sample_world sample_app)"
    using sample_generate by blast
  have "keyed mw_meta (w_works (sample_world sample_app))" "keyed u_meta (w_apps (sample_world sample_app))"
    by (simp_all add: keyed_def sample_app_facts)
  from propagation_delivers [OF sample_load sample_enabled _ this, of "(''team'', ''shop'')" sample_app "''shop-12345''" work app1]
  show ?thesis
    using g sample_authorised by (simp add: sample_app_facts generateManifestWorkName_def)
qed

theorem propagation_gate_witness:
  "\<exists>app. map_of (w_apps (sample_world sample_app)) (''team'', ''shop'') = Some app
     \<and> authorised (sample_world sample_app) ''c1'' (u_ns app)"
proof -
  obtain work app1 where g: "run_state (generateManifestWork ''shop-12345'' ''c1'' sample_app)
      (sample_world sample_app) = (Inr (work, app1), sample_world sample_app)"
    using sample_generate by blast
  have k: "keyed mw_meta (w_works (sample_world sample_app))" "keyed u_meta (w_apps (sample_world sample_app))"
    by (simp_all add: keyed_def sample_app_facts)
  have m: "m_ns (mw_meta work) = ''c1''" "m_name (mw_meta work) = ''shop-12345''"
    using generated_meta [OF g] by simp_all
  have "map_of (w_works (snd (run_state (Reconcile sample_env (''team'', ''shop'')) (sample_world sample_app))))
      (''c1'', ''shop-12345'') \<noteq> map_of (w_works (sample_world sample_app)) (''c1'', ''shop-12345'')"
    using sample_load [of sample_app] sample_enabled sample_authorised [of sample_app] g m
    by (simp add: Reconcile_def run_simps consume_nil sample_app_facts generateManifestWorkName_def
        reconcileLive_def Let_def
        isClusterBoundToNamespace_def bound_in_def sample_decision_def propagate_def applyWork_def has_key_def
        split: prod.splits)
  from propagation_gate [OF k(1) this] show ?thesis by (auto simp: sample_app_facts)
qed


theorem payload_is_in_cluster_witness:
  "\<exists>spec' d'. jget_obj (u_fields (fst (prepareApplicationForWorkPayload sample_app))) ''spec'' = Some spec'
     \<and> jget_obj spec' ''destination'' = Some d' \<and> jget_str d' ''namespace'' = Some ''team''"
proof -
  obtain application app1 where p: "prepareApplicationForWorkPayload sample_app = (application, app1)"
    using sample_prepare by blast
  have s: "jget_obj (u_fields sample_app) ''spec'' = Some sample_spec"
    "jget_obj sample_spec ''destination'' = Some [(''server'', JStr ''https://hub''), (''namespace'', JStr [])]"
    by (simp_all add: sample_app_def sample_spec_def jget_obj_def)
  have "u_ns application = ''team''"
    using prepare_meta(2) [OF p] by (simp add: sample_app_def generateAppNamespace_def mget_def propagation_keys)
  with payload_is_in_cluster [OF p s] p show ?thesis
    by (auto simp: jget_str_def)
qed

theorem payload_metadata_witness:
  "map_of (u_labels (fst (prepareApplicationForWorkPayload sample_app))) LabelKeyPull = None"
proof -
  obtain application app1 where p: "prepareApplicationForWorkPayload sample_app = (application, app1)"
    using sample_prepare by blast
  from payload_metadata [OF this, of LabelKeyPull] p show ?thesis by (simp add: sample_app_facts)
qed

theorem work_contents_witness:
  "\<exists>work app1 w'. run_state (generateManifestWork ''shop-12345'' ''c1'' sample_app) (sample_world sample_app)
     = (Inr (work, app1), w') \<and> m_ns (mw_meta work) = ''c1''"
proof -
  obtain work app1 where g: "run_state (generateManifestWork ''shop-12345'' ''c1'' sample_app)
      (sample_world sample_app) = (Inr (work, app1), sample_world sample_app)"
    using sample_generate by blast
  from work_contents [OF g] g show ?thesis by blast
qed

theorem disabled_reconcile_inert_witness:
  "fst (run_state (Reconcile sample_env (''team'', ''shop''))
     (empty_world\<lparr>w_configmaps := [((''ocm'', ConfigMapName),
        \<lparr>cm_meta = plain_meta ConfigMapName ''ocm'' [] [], cm_data = [(ConfigMapDataKey, ''off'')]\<rparr>)]\<rparr>)) = Inr ()"
proof -
  let ?cm = "\<lparr>cm_meta = plain_meta ConfigMapName ''ocm'' [] [], cm_data = [(ConfigMapDataKey, ''off'')]\<rparr>"
  have "disabled (parse sample_env ?cm)"
    by (simp add: parse_def sample_env_def disabled_def)
  then have "disabled (fst (run_state (LoadOrCreate sample_env)
      (empty_world\<lparr>w_configmaps := [((''ocm'', ConfigMapName), ?cm)]\<rparr>)))"
    by (simp add: LoadOrCreate_def sample_env_facts run_simps verdict_def empty_world_def)
  from disabled_reconcile_inert [OF this] show ?thesis by blast
qed

definition deleted_app :: unstructured where
  "deleted_app = sample_app\<lparr>u_meta := (u_meta sample_app)\<lparr>m_deleting := True,
     m_finalizers := [ResourcesFinalizerName, ''other'', ResourcesFinalizerName]\<rparr>\<rparr>"

theorem deletion_releases_witness:
  "\<exists>app. map_of (w_apps (snd (run_state (Reconcile sample_env (''team'', ''shop'')) (sample_world deleted_app))))
     (''team'', ''shop'') = Some app \<and> m_finalizers (u_meta app) = [''other'']"
proof -
  have f: "u_name deleted_app = ''shop''" "u_ns deleted_app = ''team''" "m_deleting (u_meta deleted_app)"
    "generateManifestWorkName (u_name deleted_app) (m_uid (u_meta deleted_app)) = Some ''shop-12345''"
    "m_finalizers (u_meta deleted_app) = [ResourcesFinalizerName, ''other'', ResourcesFinalizerName]"
    by (simp_all add: deleted_app_def sample_app_facts generateManifestWorkName_def)
  have k: "keyed mw_meta (w_works (sample_world deleted_app))" "keyed u_meta (w_apps (sample_world deleted_app))"
    by (simp_all add: keyed_def f)
  have "calm (sample_world deleted_app)" by simp
  from deletion_releases [OF sample_load sample_enabled this k, of "(''team'', ''shop'')" deleted_app "''shop-12345''"]
  show ?thesis using f(4) by (simp add: f ResourcesFinalizerName_def)
qed

theorem hub_destination_overwritten_witness:
  "\<exists>spec'. jget_obj (u_fields (fst (strip_triggers (snd (prepareApplicationForWorkPayload sample_app))))) ''spec''
     = Some spec' \<and> spec' \<noteq> sample_spec"
proof -
  have s: "jget_obj (u_fields sample_app) ''spec'' = Some sample_spec"
    "jget_obj sample_spec ''destination'' = Some [(''server'', JStr ''https://hub''), (''namespace'', JStr [])]"
    by (simp_all add: sample_app_def sample_spec_def jget_obj_def)
  from hub_destination_overwritten [OF s] s(2) show ?thesis
    by (auto simp: jget_str_def)
qed

end
