(* ===== verification/PullModelSweep.thy ===== *)
theory PullModelSweep
  imports Propagation
begin

text \<open>
  \<open>propagation-controller/application/pull_model_disable.go\<close>: the sweep that, when the basic pull
  model is disabled, freezes every ManifestWork the propagation controller has generated by setting
  the update strategy of its Application to ReadOnly.
\<close>

section \<open>The sweep\<close>

definition is_application_config :: "manifest_config \<Rightarrow> bool" where
  "is_application_config mc \<longleftrightarrow>
     \<not> (ri_group (mf_id mc) \<noteq> ''argoproj.io'' \<or> ri_resource (mf_id mc) \<noteq> ''applications'')"

definition needsReadOnly :: "manifest_work \<Rightarrow> bool" where
  "needsReadOnly mw =
     list_ex (\<lambda>mc. is_application_config mc \<and>
         (case mf_strategy mc of None \<Rightarrow> True | Some us \<Rightarrow> us_type us \<noteq> StrategyReadOnly))
       (ws_configs (mw_spec mw))"

definition setReadOnly :: "manifest_work \<Rightarrow> manifest_work" where
  "setReadOnly mw =
     mw\<lparr>mw_spec := (mw_spec mw)\<lparr>ws_configs :=
       map (\<lambda>mc. if is_application_config mc
                 then mc\<lparr>mf_strategy := Some \<lparr>us_type = StrategyReadOnly, us_ssa = None\<rparr>\<rparr> else mc)
         (ws_configs (mw_spec mw))\<rparr>\<rparr>"

definition isPullModelManifestWork :: "manifest_work \<Rightarrow> bool" where
  "isPullModelManifestWork mw =
     (if \<not> has_key (m_annos (mw_meta mw)) AnnotationKeyHubApplicationName then False
      else if map_of (m_labels (mw_meta mw)) LabelKeyAppSet = Some ''true'' then True
      else if map_of (m_labels (mw_meta mw)) LabelKeyPull = Some ''true'' then True
      else False)"

abbreviation work_key :: "manifest_work \<Rightarrow> nsname" where
  "work_key mw \<equiv> (m_ns (mw_meta mw), m_name (mw_meta mw))"

text \<open>The closure that is retried on conflict: re-fetch, check again, write.\<close>

definition freezeAttempt :: "nsname \<Rightarrow> unit api" where
  "freezeAttempt key = do {
     g \<leftarrow> get_work key;
     case g of
       Inl e \<Rightarrow> State_Monad.return (Inl (Wrapped (''failed to get ManifestWork '' @ fst key @ ''/'' @ snd key @
                  '' for pull-model disable sweep'') e))
     | Inr fresh \<Rightarrow>
         (if \<not> needsReadOnly fresh then State_Monad.return (Inr ())
          else update_work (work_key fresh) (setReadOnly fresh))
   }"

text \<open>One iteration; an error is logged and the loop goes on.\<close>

definition sweepOne :: "manifest_work \<Rightarrow> (world, unit) state" where
  "sweepOne mw =
     (if \<not> isPullModelManifestWork mw then State_Monad.return ()
      else if \<not> needsReadOnly mw then State_Monad.return ()
      else do {
        r \<leftarrow> retry_on_conflict DefaultBackoff_retries (freezeAttempt (work_key mw));
        State_Monad.return ()
      })"

definition SweepManifestWorksToReadOnly :: "unit api" where
  "SweepManifestWorksToReadOnly = do {
     l \<leftarrow> list_works (\<lambda>_. True);
     case l of
       Inl e \<Rightarrow> State_Monad.return (Inl (Wrapped ''failed to list ManifestWorks for pull-model disable sweep'' e))
     | Inr items \<Rightarrow> do {
         u \<leftarrow> loopM (\<lambda>_ mw. sweepOne mw) () items;
         State_Monad.return (Inr ())
       }
   }"

section \<open>What freezing is\<close>

text \<open>The specification: the sweep maps every stored work through \<open>freeze\<close>.\<close>

definition freeze :: "manifest_work \<Rightarrow> manifest_work" where
  "freeze mw = (if isPullModelManifestWork mw \<and> needsReadOnly mw then setReadOnly mw else mw)"

lemma setReadOnly_meta [simp]: "mw_meta (setReadOnly mw) = mw_meta mw"
  by (simp add: setReadOnly_def)

lemma isPull_setReadOnly [simp]: "isPullModelManifestWork (setReadOnly mw) = isPullModelManifestWork mw"
  by (simp add: isPullModelManifestWork_def)

lemma needs_setReadOnly [simp]: "\<not> needsReadOnly (setReadOnly mw)"
  by (auto simp: needsReadOnly_def setReadOnly_def list_ex_iff is_application_config_def)

lemma freeze_meta [simp]: "mw_meta (freeze mw) = mw_meta mw"
  by (simp add: freeze_def)

lemma freeze_idem [simp]: "freeze (freeze mw) = freeze mw"
  by (simp add: freeze_def)

definition swept :: "world \<Rightarrow> world \<Rightarrow> bool" where
  "swept s t \<longleftrightarrow>
     (\<forall>k. map_of (w_works t) k = map_of (w_works s) k
        \<or> map_of (w_works t) k = map_option freeze (map_of (w_works s) k))"

interpretation swept: frame swept
proof unfold_locales
  show "swept s t \<Longrightarrow> swept t u \<Longrightarrow> swept s u" for s t u
    unfolding swept_def by (metis (no_types, lifting) freeze_idem option.map_comp option.map_cong0 comp_apply)
qed (simp add: swept_def)

lemma freezeAttempt_swept:
  assumes "keyed mw_meta (w_works w)" and "map_of (w_works w) (work_key mw) = Some mw"
    and "isPullModelManifestWork mw"
  shows "state_io_rel (\<lambda>s t. swept w s \<longrightarrow> swept w t) (freezeAttempt (work_key mw))"
proof (rule state_io_relI, rule impI)
  fix r s t
  assume run: "run_state (freezeAttempt (work_key mw)) s = (r, t)" and s: "swept w s"
  have c: "swept w (consume x) \<longleftrightarrow> swept w x" for x
    by (simp add: swept_def)
  have fresh: "map_of (w_works s) (work_key mw) = Some mw
      \<or> map_of (w_works s) (work_key mw) = Some (freeze mw)"
    using s assms(2) unfolding swept_def by (metis option.map(2))
  moreover have "swept w (w_works_update (mset_key (work_key mw) (setReadOnly mw)) s)"
    if "needsReadOnly mw"
    using s that assms unfolding swept_def by (auto simp: freeze_def)
  moreover have "\<not> needsReadOnly (freeze mw)"
    using assms(3) by (simp add: freeze_def)
  moreover have "w_works_update g (consume x) = consume (w_works_update g x)" for g x
    by (simp add: consume_def)
  ultimately show "swept w t"
    using run s c by (auto simp: freezeAttempt_def run_simps has_key_def split: option.splits if_splits)
qed

lemma sweep_swept:
  assumes "keyed mw_meta (w_works w)"
  shows "swept w (snd (run_state SweepManifestWorksToReadOnly w))"
proof -
  have one: "state_io_rel (\<lambda>s t. swept w s \<longrightarrow> swept w t) (sweepOne mw)"
    if "mw \<in> set (map snd (w_works w))" for mw
    unfolding sweepOne_def
    by (intro inv_frame.frame_rules retry_inv freezeAttempt_swept assms keyed_listed [OF assms that]) auto
  have loop: "state_io_rel (\<lambda>s t. swept w s \<longrightarrow> swept w t)
      (loopM (\<lambda>_ mw. sweepOne mw) () (map snd (w_works w)))"
    by (rule inv_frame.loopM_frame) (rule one)
  have "swept w (consume w)" by (simp add: swept_def)
  with inv_frame.frame_snd [OF loop] show ?thesis
    by (auto simp: SweepManifestWorksToReadOnly_def run_simps split: option.splits prod.splits)
       (metis prod.collapse snd_conv)+
qed


lemma sweepOne_calm:
  assumes "calm s" and "map_of (w_works s) (work_key mw) = Some mw"
    and "run_state (sweepOne mw) s = (u, t)"
  shows "calm t \<and> map_of (w_works t) = (map_of (w_works s))(work_key mw \<mapsto> freeze mw)"
proof (cases "isPullModelManifestWork mw \<and> needsReadOnly mw")
  case True
  have "run_state (freezeAttempt (work_key mw)) s =
      (Inr (), w_works_update (mset_key (work_key mw) (setReadOnly mw)) (consume (consume s)))"
    using assms(1,2) True by (simp add: freezeAttempt_def run_simps has_key_def)
  from retry_ok [OF this] assms True show ?thesis
    by (auto simp: sweepOne_def freeze_def)
next
  case False
  then have "freeze mw = mw" by (auto simp: freeze_def)
  moreover have "t = s"
    using False assms(3) by (auto simp: sweepOne_def split: if_splits)
  ultimately show ?thesis
    using assms(1,2) by (simp add: fun_upd_idem)
qed

lemma sweep_loop_calm:
  assumes "calm s" and "distinct (map work_key mws)"
    and "\<And>mw. mw \<in> set mws \<Longrightarrow> map_of (w_works s) (work_key mw) = Some mw"
  shows "calm (snd (run_state (loopM (\<lambda>_ mw. sweepOne mw) () mws) s)) \<and>
    map_of (w_works (snd (run_state (loopM (\<lambda>_ mw. sweepOne mw) () mws) s))) =
      (\<lambda>k. if k \<in> work_key ` set mws then map_option freeze (map_of (w_works s) k) else map_of (w_works s) k)"
  using assms
proof (induction mws arbitrary: s)
  case (Cons mw mws)
  obtain u t where one: "run_state (sweepOne mw) s = (u, t)" by (rule prod.exhaust)
  have t: "calm t" "map_of (w_works t) = (map_of (w_works s))(work_key mw \<mapsto> freeze mw)"
    using sweepOne_calm [OF Cons.prems(1) _ one] Cons.prems(3) by simp_all
  let ?l = "snd (run_state (loopM (\<lambda>_ mw. sweepOne mw) () mws) t)"
  have listed: "map_of (w_works t) (work_key m) = Some m" if "m \<in> set mws" for m
  proof -
    have "work_key m \<noteq> work_key mw"
      using that Cons.prems(2) by (auto dest!: imageI [of m "set mws" work_key])
    moreover have "map_of (w_works s) (work_key m) = Some m"
      using that Cons.prems(3) by simp
    ultimately show ?thesis by (simp only: t(2) fun_upd_apply if_False)
  qed
  have "distinct (map work_key mws)" "work_key mw \<notin> work_key ` set mws"
    using Cons.prems(2) by (simp_all only: list.map distinct.simps set_map not_False_eq_True simp_thms)
  moreover from Cons.IH [OF t(1) this(1) listed]
  have ih: "calm ?l" "map_of (w_works ?l) =
      (\<lambda>k. if k \<in> work_key ` set mws then map_option freeze (map_of (w_works t) k) else map_of (w_works t) k)"
    by blast+
  moreover have "map_of (w_works s) (work_key mw) = Some mw"
    using Cons.prems(3) by simp
  ultimately have "map_of (w_works ?l) k =
      (if k \<in> work_key ` set (mw # mws) then map_option freeze (map_of (w_works s) k) else map_of (w_works s) k)" for k
    using t(2) by (cases "k = work_key mw") (simp_all only: list.set image_insert insert_iff fun_upd_apply if_True if_False option.map simp_thms)
  moreover have "run_state (loopM (\<lambda>_ mw. sweepOne mw) () (mw # mws)) s =
      run_state (loopM (\<lambda>_ mw. sweepOne mw) () mws) t"
    using one by simp
  ultimately show ?case using ih(1) by (simp only: fun_eq_iff simp_thms)
qed simp

lemma keyed_listed_distinct:
  assumes "keyed mt st" shows "distinct (map (\<lambda>x. (m_ns (mt x), m_name (mt x))) (map snd st))"
proof -
  have "map (\<lambda>x. (m_ns (mt x), m_name (mt x))) (map snd st) = map fst st"
    using assms by (auto simp: keyed_def)
  moreover have "distinct (map fst st)"
    using assms by (simp add: keyed_def)
  ultimately show ?thesis by (simp only:)
qed

lemma keyed_listed_keys:
  assumes "keyed mt st"
  shows "(\<lambda>x. (m_ns (mt x), m_name (mt x))) ` set (map snd st) = dom (map_of st)"
proof -
  have "map (\<lambda>x. (m_ns (mt x), m_name (mt x))) (map snd st) = map fst st"
    using assms by (auto simp: keyed_def)
  then have "(\<lambda>x. (m_ns (mt x), m_name (mt x))) ` set (map snd st) = set (map fst st)"
    by (metis set_map)
  then show ?thesis by (simp add: dom_map_of_conv_image_fst)
qed

section \<open>Properties\<close>

text \<open>
  C8: the sweep is safe whatever the API server rejects: it creates and deletes no ManifestWork,
  leaves every work it does not own as it is, and a work it changes has every field but the update
  strategies of its Application entries unchanged.
\<close>
theorem sweep_safe:
  assumes "keyed mw_meta (w_works w)"
  defines "w' \<equiv> snd (run_state SweepManifestWorksToReadOnly w)"
  shows "(map_of (w_works w') k = None \<longleftrightarrow> map_of (w_works w) k = None)
    \<and> (\<forall>mw. map_of (w_works w) k = Some mw \<longrightarrow>
        map_of (w_works w') k = Some mw \<or>
        isPullModelManifestWork mw \<and> map_of (w_works w') k = Some (setReadOnly mw))"
proof -
  have "map_of (w_works w') k = map_of (w_works w) k \<or>
      map_of (w_works w') k = map_option freeze (map_of (w_works w) k)"
    using sweep_swept [OF assms(1)] unfolding swept_def w'_def by blast
  then show ?thesis
    by (auto simp: freeze_def split: if_splits)
qed

text \<open>
  C17: when no request is rejected the sweep is complete: it succeeds, and afterwards no work that
  carries the marks of the propagation controller still needs freezing; every other work is as it was.
\<close>
theorem sweep_complete:
  assumes "keyed mw_meta (w_works w)" and "calm w"
  defines "w' \<equiv> snd (run_state SweepManifestWorksToReadOnly w)"
  shows "fst (run_state SweepManifestWorksToReadOnly w) = Inr ()
    \<and> map_of (w_works w') = map_option freeze \<circ> map_of (w_works w)
    \<and> (\<forall>k mw. map_of (w_works w') k = Some mw \<and> isPullModelManifestWork mw \<longrightarrow> \<not> needsReadOnly mw)"
proof -
  let ?items = "map snd (w_works w)"
  let ?l = "run_state (loopM (\<lambda>_ mw. sweepOne mw) () ?items) (consume w)"
  have run: "run_state SweepManifestWorksToReadOnly w = (Inr (), snd ?l)"
    using assms(2) by (simp add: SweepManifestWorksToReadOnly_def run_simps split: prod.split)
  have "map_of (w_works (snd ?l)) = map_option freeze \<circ> map_of (w_works w)"
    using sweep_loop_calm [of "consume w" ?items] keyed_listed_distinct [OF assms(1)]
      keyed_listed [OF assms(1)] keyed_listed_keys [OF assms(1)] assms(2)
    by (auto simp: fun_eq_iff domIff)
  moreover have "isPullModelManifestWork (freeze m) \<Longrightarrow> \<not> needsReadOnly (freeze m)" for m
    by (auto simp: freeze_def split: if_splits)
  ultimately show ?thesis
    using run by (auto simp: w'_def)
qed

text \<open>
  C18: the sweep and the generator agree on ownership: every ManifestWork that the propagation
  controller generates is recognised by the sweep, still needs freezing when generated, and after
  freezing differs from the generated one only in the update strategy of its one configuration entry.
\<close>
theorem generated_works_are_swept:
  assumes "run_state (generateManifestWork nm ns app) w = (Inr (work, app'), w')"
  shows "isPullModelManifestWork work \<and> needsReadOnly work \<and>
    (\<exists>mc. ws_configs (mw_spec work) = [mc] \<and>
      setReadOnly work = work\<lparr>mw_spec := (mw_spec work)\<lparr>ws_configs :=
        [mc\<lparr>mf_strategy := Some \<lparr>us_type = StrategyReadOnly, us_ssa = None\<rparr>\<rparr>]\<rparr>\<rparr>)"
proof -
  have "mw_meta work = plain_meta nm ns (work_labels app') (work_annotations app')"
    and "\<exists>application. ws_configs (mw_spec work) = [application_config application]"
    using assms by (auto simp: generateManifestWork_def split: prod.splits sum.splits)
  then show ?thesis
    by (auto simp: isPullModelManifestWork_def work_labels_def work_annotations_def Let_def format_bool_def
        propagation_keys has_key_def needsReadOnly_def setReadOnly_def is_application_config_def
        application_config_def)
qed

section \<open>Witnesses\<close>

definition sample_work :: manifest_work where
  "sample_work =
     \<lparr>mw_meta = plain_meta ''shop-12345'' ''c1'' [(LabelKeyPull, ''true'')] [(AnnotationKeyHubApplicationName, ''shop'')],
      mw_spec = \<lparr>ws_manifests = [], ws_configs = [application_config sample_app], ws_orphaning = None\<rparr>,
      mw_feedback = []\<rparr>"

abbreviation work_world :: world where
  "work_world \<equiv> empty_world\<lparr>w_works := [((''c1'', ''shop-12345''), sample_work)]\<rparr>"

lemma work_world_keyed: "keyed mw_meta (w_works work_world)"
  by (simp add: keyed_def sample_work_def)

lemma sample_work_owned: "isPullModelManifestWork sample_work"
  by (simp add: sample_work_def isPullModelManifestWork_def has_key_def propagation_keys)

theorem sweep_safe_witness:
  "map_of (w_works (snd (run_state SweepManifestWorksToReadOnly work_world))) (''c1'', ''shop-12345'')
     \<in> {Some sample_work, Some (setReadOnly sample_work)}"
  using sweep_safe [OF work_world_keyed, of "(''c1'', ''shop-12345'')"] by auto

theorem sweep_complete_witness:
  "map_of (w_works (snd (run_state SweepManifestWorksToReadOnly work_world))) (''c1'', ''shop-12345'')
     = Some (freeze sample_work) \<and> \<not> needsReadOnly (freeze sample_work)"
proof -
  have "calm work_world" by (simp add: empty_world_def)
  from sweep_complete [OF work_world_keyed this]
  have "map_of (w_works (snd (run_state SweepManifestWorksToReadOnly work_world))) =
      map_option freeze \<circ> map_of (w_works work_world)" by blast
  then show ?thesis
    by (simp add: freeze_def sample_work_owned)
qed

theorem generated_works_are_swept_witness:
  "\<exists>work app1 w'. run_state (generateManifestWork ''shop-12345'' ''c1'' sample_app) (sample_world sample_app)
     = (Inr (work, app1), w') \<and> isPullModelManifestWork work"
proof -
  obtain work app1 where g: "run_state (generateManifestWork ''shop-12345'' ''c1'' sample_app)
      (sample_world sample_app) = (Inr (work, app1), sample_world sample_app)"
    using sample_generate by blast
  from generated_works_are_swept [OF g] g show ?thesis by blast
qed

end
