(* ===== verification/PropagationStatus.thy ===== *)
theory PropagationStatus
  imports Propagation
begin

text \<open>
  \<open>propagation-controller/application/application_status_controller.go\<close>: the statuses that a
  MulticlusterApplicationSetReport collects from the managed clusters are written into the status of
  the hub Applications. The time of the reconcile is the argument \<open>now\<close>. Two JSON texts of one
  marshaller are equal exactly when the values are the same up to the order of keys.
\<close>

section \<open>The new status\<close>

text \<open>One \<open>SetNestedField\<close> guarded by a non-empty value.\<close>

definition set_if :: "string \<Rightarrow> string list \<Rightarrow> jobj \<Rightarrow> goerr + jobj" where
  "set_if v path st = (if v \<noteq> [] then set_nested st (JStr v) path else Inr st)"

definition set_operation_state :: "string \<Rightarrow> cluster_condition \<Rightarrow> jobj \<Rightarrow> goerr + jobj" where
  "set_operation_state now cc st =
     (if cl_phase cc \<noteq> [] then
        and_then (set_nested st (JStr (cl_phase cc)) [''operationState'', ''phase'']) (\<lambda>st1.
        and_then (set_nested st1 (JStr (if cl_started_at cc = [] then now else cl_started_at cc))
                    [''operationState'', ''startedAt'']) (\<lambda>st2.
        set_nested st2 (JObj []) [''operationState'', ''operation'']))
      else Inr st)"

definition report_message :: "string \<Rightarrow> string \<Rightarrow> string \<Rightarrow> string \<Rightarrow> string" where
  "report_message appNamespace appSetName cluster appName =
     ''kubectl get multiclusterapplicationsetreports -n '' @ appNamespace @ '' '' @ appSetName @
     [CHR 0x0A] @ ''Additional details available in ManagedCluster '' @ cluster @
     [CHR 0x0A] @ ''kubectl get applications -n '' @ appNamespace @ '' '' @ appName"

text \<open>The hint condition for an Application of an ApplicationSet that has no conditions.\<close>

definition add_hint :: "string \<Rightarrow> string \<Rightarrow> unstructured \<Rightarrow> cluster_condition \<Rightarrow> jobj \<Rightarrow> goerr + jobj" where
  "add_hint appNamespace appName app cc st =
     (let appSetName = getAppSetOwnerName (m_owners (u_meta app)) in
      if appSetName \<noteq> [] then
        (let conditions = (case map_of st ''conditions'' of Some (JArr cs) \<Rightarrow> cs | _ \<Rightarrow> []) in
         if length conditions = 0 then
           set_nested st
             (JArr (conditions @
                [JObj [(''type'', JStr ''AdditionalStatusReport''),
                       (''message'', JStr (report_message appNamespace appSetName (cl_cluster cc) appName))]]))
             [''conditions'']
         else Inr st)
      else Inr st)"

definition statusUpdate ::
  "string \<Rightarrow> string \<Rightarrow> string \<Rightarrow> unstructured \<Rightarrow> cluster_condition \<Rightarrow> jobj \<Rightarrow> goerr + jobj" where
  "statusUpdate now appNamespace appName app cc st =
     and_then (set_if (cl_health cc) [''health'', ''status''] st) (\<lambda>st1.
     and_then (set_if (cl_sync cc) [''sync'', ''status''] st1) (\<lambda>st2.
     and_then (set_operation_state now cc st2) (\<lambda>st3.
     and_then (set_if (cl_revision cc) [''sync'', ''revision''] st3) (\<lambda>st4.
     add_hint appNamespace appName app cc st4))))"

definition oldStatus :: "unstructured \<Rightarrow> jobj" where
  "oldStatus app = (case jget_obj (u_fields app) ''status'' of Some st \<Rightarrow> st | None \<Rightarrow> [])"

definition with_status :: "jobj \<Rightarrow> unstructured \<Rightarrow> unstructured" where
  "with_status st app = app\<lparr>u_fields := mset_key ''status'' (JObj st) (u_fields app)\<rparr>"

section \<open>Reconcile\<close>

definition writeApp :: "unstructured \<Rightarrow> unit api" where
  "writeApp app = retry_on_conflict DefaultBackoff_retries (update_app (u_ns app, u_name app) app)"

text \<open>
  A Healthy report first writes Progressing. Returns the Application in memory and whether the final
  write is forced.
\<close>

definition progressing :: "unstructured \<Rightarrow> goerr + unstructured" where
  "progressing app =
     (case set_nested (u_fields app) (JStr ''Progressing'') [''status'', ''health'', ''status''] of
        Inl e \<Rightarrow> Inl e
      | Inr fs \<Rightarrow> Inr (app\<lparr>u_fields := fs\<rparr>))"

definition simulateProgressing :: "cluster_condition \<Rightarrow> unstructured \<Rightarrow> (unstructured \<times> bool) api" where
  "simulateProgressing cc app =
     (if cl_health cc = ''Healthy'' then
        (case progressing app of
           Inl e \<Rightarrow> State_Monad.return (Inl e)
         | Inr app1 \<Rightarrow> do {
             r \<leftarrow> writeApp app1;
             State_Monad.return (case r of Inl e \<Rightarrow> Inl e | Inr _ \<Rightarrow> Inr (app1, True))
           })
      else State_Monad.return (Inr (app, False)))"

definition updateApplicationStatus ::
  "string \<Rightarrow> string \<Rightarrow> string \<Rightarrow> cluster_condition \<Rightarrow> unstructured \<Rightarrow> unit api" where
  "updateApplicationStatus now appNamespace appName cc app = do {
     p \<leftarrow> simulateProgressing cc app;
     case p of
       Inl e \<Rightarrow> State_Monad.return (Inl e)
     | Inr (app1, forceUpdate) \<Rightarrow>
         (case statusUpdate now appNamespace appName app1 cc (oldStatus app) of
            Inl e \<Rightarrow> State_Monad.return (Inl e)
          | Inr newStatus \<Rightarrow>
              (if forceUpdate \<or> \<not> json_same (JObj (oldStatus app)) (JObj newStatus)
               then writeApp (with_status newStatus app1)
               else State_Monad.return (Inr ())))
   }"

definition reconcileCondition :: "string \<Rightarrow> cluster_condition \<Rightarrow> unit api" where
  "reconcileCondition now cc =
     (case split_char (CHR ''/'') (cl_app cc) of
        appNamespace # appName # _ \<Rightarrow> do {
          g \<leftarrow> get_app (appNamespace, appName);
          case g of
            Inl e \<Rightarrow> State_Monad.return (if is_not_found e then Inr () else Inl e)
          | Inr app \<Rightarrow> updateApplicationStatus now appNamespace appName cc app
        }
      | _ \<Rightarrow> State_Monad.return (Inr ()))"

definition ReconcileStatus :: "config_env \<Rightarrow> string \<Rightarrow> nsname \<Rightarrow> unit api" where
  "ReconcileStatus env now req = do {
     cfg \<leftarrow> LoadOrCreate env;
     if disabled cfg then State_Monad.return (Inr ())
     else do {
       g \<leftarrow> get_report req;
       case g of
         Inl e \<Rightarrow> State_Monad.return (if is_not_found e then Inr () else Inl e)
       | Inr report \<Rightarrow>
           (if m_deleting (ar_meta report) then State_Monad.return (Inr ())
            else if length (rs_conditions (ar_status report)) = 0 then State_Monad.return (Inr ())
            else loopE (\<lambda>_ cc. reconcileCondition now cc) () (rs_conditions (ar_status report)))
     }
   }"

section \<open>Only statuses change\<close>

definition like :: "unstructured \<Rightarrow> unstructured \<Rightarrow> bool" where
  "like a b \<longleftrightarrow> u_meta a = u_meta b \<and> (\<forall>f. f \<noteq> ''status'' \<longrightarrow> map_of (u_fields a) f = map_of (u_fields b) f)"

lemma like_refl [simp]: "like a a"
  by (simp add: like_def)

lemma like_trans: "like a b \<Longrightarrow> like b c \<Longrightarrow> like a c"
  by (simp add: like_def)

lemma like_sym: "like a b \<Longrightarrow> like b a"
  by (simp add: like_def)

lemma like_with_status [simp]: "like a (with_status st b) \<longleftrightarrow> like a b"
  by (auto simp: like_def with_status_def)

lemma like_progressing: "progressing a = Inr a' \<Longrightarrow> like a a'"
  by (auto simp: progressing_def like_def set_nested_other simp del: set_nested.simps split: sum.splits)

definition status_only :: "world \<Rightarrow> world \<Rightarrow> bool" where
  "status_only s t \<longleftrightarrow> keyed u_meta (w_apps t) \<and>
     (\<forall>k. (map_of (w_apps s) k = None \<longrightarrow> map_of (w_apps t) k = None) \<and>
          (\<forall>a. map_of (w_apps s) k = Some a \<longrightarrow> (\<exists>b. map_of (w_apps t) k = Some b \<and> like a b)))"

text \<open>The invariant while one Application, read as \<open>a\<close>, is being written.\<close>

definition writing :: "world \<Rightarrow> unstructured \<Rightarrow> world \<Rightarrow> bool" where
  "writing s0 a t \<longleftrightarrow> status_only s0 t \<and> (\<exists>b. map_of (w_apps t) (u_ns a, u_name a) = Some b \<and> like a b)"

lemma status_only_consume [simp]: "status_only s (consume t) = status_only s t"
  by (simp add: status_only_def)

lemma writing_consume [simp]: "writing s a (consume t) = writing s a t"
  by (simp add: writing_def)

lemma status_only_upd:
  assumes "status_only s0 t" and "map_of (w_apps t) (u_ns a', u_name a') = Some b" and "like b a'"
  shows "status_only s0 (w_apps_update (mset_key (u_ns a', u_name a') a') t)"
proof -
  let ?k = "(u_ns a', u_name a')"
  have "map_of (w_apps s0) ?k \<noteq> None" "\<And>a. map_of (w_apps s0) ?k = Some a \<Longrightarrow> like a a'"
    using assms like_trans unfolding status_only_def by fastforce+
  moreover have "keyed u_meta (mset_key (u_ns a', u_name a') a' (w_apps t))"
    using assms(1) by (simp add: status_only_def keyed_mset_key)
  ultimately show ?thesis
    using assms(1) by (auto simp: status_only_def)
qed

lemma writing_upd:
  assumes "writing s0 a t" and "like a a'"
  shows "writing s0 a (w_apps_update (mset_key (u_ns a', u_name a') a') t)"
proof -
  from assms(1) obtain b where b: "map_of (w_apps t) (u_ns a, u_name a) = Some b" "like a b" "status_only s0 t"
    by (auto simp: writing_def)
  have m: "u_ns a' = u_ns a" "u_name a' = u_name a" "like b a'"
    using assms(2) b(2) by (auto simp: like_def)
  from status_only_upd [OF b(3) _ m(3)] b(1) m assms(2) show ?thesis
    by (simp add: writing_def)
qed

lemma writeApp_writing:
  assumes "like a a'"
  shows "state_io_rel (\<lambda>s t. writing s0 a s \<longrightarrow> writing s0 a t) (writeApp a')"
  unfolding writeApp_def
proof (rule retry_inv, rule state_io_relI, rule impI)
  fix r s t
  assume "run_state (update_app (u_ns a', u_name a') a') s = (r, t)" and w: "writing s0 a s"
  then show "writing s0 a t"
    using writing_upd [of s0 a "consume s" a'] assms
    by (auto simp: run_simps split: option.splits if_splits)
qed

lemma updateApplicationStatus_writing:
  "state_io_rel (\<lambda>s t. writing s0 a s \<longrightarrow> writing s0 a t) (updateApplicationStatus now ns nm cc a)"
proof (rule state_io_relI, rule impI)
  fix r s t
  assume run: "run_state (updateApplicationStatus now ns nm cc a) s = (r, t)" and w: "writing s0 a s"
  obtain p s1 where p: "run_state (simulateProgressing cc a) s = (p, s1)" by fastforce
  have sim: "state_io_rel (\<lambda>s t. writing s0 a s \<longrightarrow> writing s0 a t) (simulateProgressing cc a)"
    unfolding simulateProgressing_def
    by (intro inv_frame.frame_rules writeApp_writing; (erule like_progressing)?)
  have w1: "writing s0 a s1"
    using state_io_relD [OF sim p] w by blast
  have l: "like a (fst ab)" if "p = Inr ab" for ab
    using p that by (auto simp: simulateProgressing_def like_progressing split: sum.splits if_splits prod.splits)
  show "writing s0 a t"
  proof (cases p)
    case (Inr ab)
    obtain a1 force where ab: "ab = (a1, force)" by fastforce
    have wr: "run_state (writeApp (with_status st a1)) s1 = (x, u) \<Longrightarrow> writing s0 a u" for st x u
      using state_io_relD [OF writeApp_writing [of a "with_status st a1" s0]] l [OF Inr] w1 ab by auto
    show ?thesis
      using run p Inr ab w1 wr
      by (auto simp: updateApplicationStatus_def split: sum.splits if_splits)
  qed (use run p w1 in \<open>simp add: updateApplicationStatus_def\<close>)
qed

lemma reconcileCondition_status_only:
  "state_io_rel (\<lambda>s t. status_only s0 s \<longrightarrow> status_only s0 t) (reconcileCondition now cc)"
proof (rule state_io_relI, rule impI)
  fix r s t
  assume run: "run_state (reconcileCondition now cc) s = (r, t)" and s: "status_only s0 s"
  have upd: "status_only s0 t"
    if "run_state (updateApplicationStatus now ns nm cc a) (consume s) = (r, t)"
      and "map_of (w_apps s) (ns, nm) = Some a" for ns nm a
  proof -
    have "(u_ns a, u_name a) = (ns, nm)"
      using keyedD [OF _ that(2)] s by (simp add: status_only_def)
    then have "writing s0 a (consume s)"
      using s that(2) by (auto simp: writing_def)
    with state_io_relD [OF updateApplicationStatus_writing that(1)] show ?thesis
      by (auto simp: writing_def)
  qed
  show "status_only s0 t"
    using run s upd
    by (auto simp: reconcileCondition_def run_simps split: list.splits option.splits sum.splits)
qed


section \<open>Properties\<close>

text \<open>
  the status controller writes statuses and nothing else: whatever the API server rejects, after
  a reconcile the same Applications exist, each with its metadata and all its other fields unchanged.
\<close>
theorem status_reconcile_frame:
  assumes "keyed u_meta (w_apps w)"
  shows "status_only w (snd (run_state (ReconcileStatus env now req) w))"
proof -
  obtain r w0 where l: "run_state (LoadOrCreate env) w = (r, w0)" by fastforce
  have w0: "status_only w (consume w0)" "status_only w w0"
    using assms LoadOrCreate_sel(2) [OF l] by (simp_all add: status_only_def)
  have "state_io_rel (\<lambda>s t. status_only w s \<longrightarrow> status_only w t)
      (loopE (\<lambda>_ cc. reconcileCondition now cc) () ccs)" for ccs
    by (rule inv_frame.loopE_frame) (rule reconcileCondition_status_only)
  from inv_frame.frame_snd [OF this] w0 l show ?thesis
    by (auto simp: ReconcileStatus_def run_simps split: option.splits)
qed

lemma set_if_other: "set_if v (k # ks) st = Inr st' \<Longrightarrow> j \<noteq> k \<Longrightarrow> map_of st' j = map_of st j"
  by (auto simp: set_if_def set_nested_other simp del: set_nested.simps split: if_splits)

lemma statusUpdate_health:
  assumes "statusUpdate now ns nm app cc st = Inr st'" and "cl_health cc \<noteq> []"
  shows "nested_field st' [''health'', ''status''] = Inr (Some (JStr (cl_health cc)))"
proof -
  from assms(1) obtain st1 st2 st3 st4 where
    1: "set_if (cl_health cc) [''health'', ''status''] st = Inr st1" and
    2: "set_if (cl_sync cc) [''sync'', ''status''] st1 = Inr st2" and
    3: "set_operation_state now cc st2 = Inr st3" and
    4: "set_if (cl_revision cc) [''sync'', ''revision''] st3 = Inr st4" and
    5: "add_hint ns nm app cc st4 = Inr st'"
    by (auto simp: statusUpdate_def and_then_Inr)
  have "map_of st3 ''health'' = map_of st2 ''health''"
    using 3 by (auto simp: set_operation_state_def and_then_Inr set_nested_other
        simp del: set_nested.simps split: if_splits)
  moreover have "map_of st' ''health'' = map_of st4 ''health''"
    using 5 by (auto simp: add_hint_def Let_def split: if_splits)
  ultimately have "map_of st' ''health'' = map_of st1 ''health''"
    using set_if_other [OF 2, of "''health''"] set_if_other [OF 4, of "''health''"] by simp
  moreover have "nested_field st1 [''health'', ''status''] = Inr (Some (JStr (cl_health cc)))"
    using 1 assms(2) set_nested_get [of st "JStr (cl_health cc)" "[''health'', ''status'']" st1]
    by (simp add: set_if_def del: set_nested.simps nested_field.simps)
  ultimately show ?thesis
    using nested_field_cong by metis
qed

lemma writeApp_calm:
  assumes "calm s" and "map_of (w_apps s) (u_ns a, u_name a) \<noteq> None"
  shows "\<exists>t. run_state (writeApp a) s = (Inr (), t) \<and> calm t
    \<and> map_of (w_apps t) = (map_of (w_apps s))((u_ns a, u_name a) \<mapsto> a)"
proof -
  have "run_state (update_app (u_ns a, u_name a) a) s =
      (Inr (), w_apps_update (mset_key (u_ns a, u_name a) a) (consume s))"
    using assms by (simp add: run_simps has_key_def)
  from retry_ok [OF this] assms(1) show ?thesis
    by (auto simp: writeApp_def)
qed

text \<open>
  the reported status lands. When no request is rejected and the reported values can be set,
  processing one cluster condition leaves the Application with the new status, except that an
  unchanged status that is not Healthy is not written at all. A Healthy report, which first writes
  Progressing, always ends with Healthy stored: the hub is never left on Progressing.
\<close>
theorem report_lands:
  assumes "calm w" and "keyed u_meta (w_apps w)"
    and "split_char (CHR ''/'') (cl_app cc) = ns # nm # rest"
    and "map_of (w_apps w) (ns, nm) = Some app"
    and "cl_health cc = ''Healthy'' \<Longrightarrow> \<exists>app1. progressing app = Inr app1"
    and "statusUpdate now ns nm app cc (oldStatus app) = Inr st"
  shows "\<exists>w' app'. run_state (reconcileCondition now cc) w = (Inr (), w')
    \<and> map_of (w_apps w') = (map_of (w_apps w))((ns, nm) \<mapsto> app')
    \<and> (if cl_health cc \<noteq> ''Healthy'' \<and> json_same (JObj (oldStatus app)) (JObj st) then app' = app
       else jget_obj (u_fields app') ''status'' = Some st)
    \<and> (cl_health cc = ''Healthy'' \<longrightarrow>
        nested_string (u_fields app') [''status'', ''health'', ''status''] = Inr (Some ''Healthy''))"
proof -
  have key: "(u_ns app, u_name app) = (ns, nm)"
    by (rule keyedD [OF assms(2,4)])
  have run: "run_state (reconcileCondition now cc) w =
      run_state (updateApplicationStatus now ns nm cc app) (consume w)"
    using assms(1,3,4) by (simp add: reconcileCondition_def run_simps)
  have ow: "u_meta a = u_meta app \<Longrightarrow> statusUpdate now ns nm a cc (oldStatus app) = Inr st" for a
    using assms(6) by (simp add: statusUpdate_def add_hint_def)
  have stored: "jget_obj (u_fields (with_status st a)) ''status'' = Some st" for a
    by (simp add: with_status_def jget_obj_def)
  show ?thesis
  proof (cases "cl_health cc = ''Healthy''")
    case True
    then obtain app1 where a1: "progressing app = Inr app1"
      using assms(5) by blast
    then have m1: "u_meta app1 = u_meta app"
      by (auto simp: progressing_def split: sum.splits)
    obtain t1 where t1: "run_state (writeApp app1) (consume w) = (Inr (), t1)" "calm t1"
      "map_of (w_apps t1) = (map_of (w_apps w))((ns, nm) \<mapsto> app1)"
      using writeApp_calm [of "consume w" app1] assms(1,4) key m1 by auto
    obtain t2 where t2: "run_state (writeApp (with_status st app1)) t1 = (Inr (), t2)"
      "map_of (w_apps t2) = (map_of (w_apps t1))((ns, nm) \<mapsto> with_status st app1)"
      using writeApp_calm [of t1 "with_status st app1"] t1 key m1 by (auto simp: with_status_def)
    have "nested_field st [''health'', ''status''] = Inr (Some (JStr ''Healthy''))"
      using statusUpdate_health [OF assms(6)] True by simp
    then have "nested_string (u_fields (with_status st app1)) [''status'', ''health'', ''status''] = Inr (Some ''Healthy'')"
      by (simp add: nested_string_def with_status_def)
    then show ?thesis
      using run True a1 t1 t2 ow [OF m1] stored
      by (intro exI [of _ t2] exI [of _ "with_status st app1"])
         (auto simp: updateApplicationStatus_def simulateProgressing_def)
  next
    case False
    show ?thesis
    proof (cases "json_same (JObj (oldStatus app)) (JObj st)")
      case True
      then show ?thesis
        using run False ow [OF refl] assms(4)
        by (intro exI [of _ "consume w"] exI [of _ app])
           (auto simp: updateApplicationStatus_def simulateProgressing_def fun_upd_idem)
    next
      case changed: False
      obtain t2 where t2: "run_state (writeApp (with_status st app)) (consume w) = (Inr (), t2)"
        "map_of (w_apps t2) = (map_of (w_apps w))((ns, nm) \<mapsto> with_status st app)"
        using writeApp_calm [of "consume w" "with_status st app"] assms(1,4) key by (auto simp: with_status_def)
      then show ?thesis
        using run False changed ow [OF refl] stored
        by (intro exI [of _ t2] exI [of _ "with_status st app"])
           (auto simp: updateApplicationStatus_def simulateProgressing_def)
    qed
  qed
qed

section \<open>Witnesses\<close>

definition sample_condition :: cluster_condition where
  "sample_condition = \<lparr>cl_cluster = ''c1'', cl_sync = ''Synced'', cl_health = ''Healthy'', cl_started_at = [],
     cl_phase = [], cl_revision = [], cl_app = ''team/shop'', cl_conditions = []\<rparr>"

theorem status_reconcile_frame_witness:
  "status_only (sample_world sample_app)
     (snd (run_state (ReconcileStatus sample_env ''t'' (''team'', ''set'')) (sample_world sample_app)))"
  by (rule status_reconcile_frame) (simp add: keyed_def sample_app_facts)

theorem report_lands_witness:
  "\<exists>w' app'. run_state (reconcileCondition ''t'' sample_condition) (sample_world sample_app) = (Inr (), w')
    \<and> map_of (w_apps w') (''team'', ''shop'') = Some app'
    \<and> nested_string (u_fields app') [''status'', ''health'', ''status''] = Inr (Some ''Healthy'')"
proof -
  have k: "calm (sample_world sample_app)" "keyed u_meta (w_apps (sample_world sample_app))"
    by (simp_all add: keyed_def sample_app_facts)
  have s: "split_char (CHR ''/'') (cl_app sample_condition) = ''team'' # ''shop'' # []"
    by (simp add: sample_condition_def)
  have g: "map_of (w_apps (sample_world sample_app)) (''team'', ''shop'') = Some sample_app"
    by simp
  have p: "\<exists>app1. progressing sample_app = Inr app1"
    by (simp add: progressing_def sample_app_def)
  have "\<exists>st. statusUpdate ''t'' ''team'' ''shop'' sample_app sample_condition (oldStatus sample_app) = Inr st"
    by (simp add: statusUpdate_def set_if_def set_operation_state_def add_hint_def sample_condition_def
        oldStatus_def jget_obj_def sample_app_def)
  then obtain st where st: "statusUpdate ''t'' ''team'' ''shop'' sample_app sample_condition (oldStatus sample_app) = Inr st"
    by blast
  have h: "cl_health sample_condition = ''Healthy''" by (simp add: sample_condition_def)
  from report_lands [OF k s g p st] h show ?thesis by (metis fun_upd_same)
qed

end
