(* ===== verification/StatusAggregation.thy ===== *)
theory StatusAggregation
  imports Propagation "HOL-Library.Multiset" "HOL-Library.List_Lexorder" "HOL-Library.Product_Lexorder"
begin

text \<open>
  \<open>pkg/controller/multiclusterstatusaggregation\<close>: the status feedback of the ManifestWorks is
  collected per ApplicationSet and cluster, merged with the YAML reports of the resource sync
  controller and written as MulticlusterApplicationSetReports; reports and files of deleted
  ApplicationSets are cleaned up. The report files are arguments: \<open>load\<close> reads one, \<open>files\<close> is the
  directory listing; the names of the files to remove are a result.
\<close>

section \<open>Collecting the feedback\<close>

record overall_status =
  os_health :: string
  os_sync :: string
  os_started_at :: string
  os_phase :: string
  os_revision :: string
  os_app :: string

type_synonym cluster_statuses = "(string \<times> overall_status) list"
type_synonym status_map = "(nsname \<times> cluster_statuses) list"

definition ParseNamespacedName :: "string \<Rightarrow> nsname" where
  "ParseNamespacedName s =
     (case split_char (CHR ''/'') s of
        [a, b] \<Rightarrow> (a, b)
      | _ \<Rightarrow> ([], []))"

definition appset_of :: "manifest_work \<Rightarrow> nsname" where
  "appset_of mw = ParseNamespacedName (mget (m_annos (mw_meta mw)) AnnotationKeyAppSet)"

text \<open>One feedback value; a value without a string is a nil dereference, \<open>None\<close>.\<close>

definition read_feedback :: "overall_status \<Rightarrow> string \<times> string option \<Rightarrow> overall_status option" where
  "read_feedback st nv =
     (case nv of (nm, v) \<Rightarrow>
        if nm = ''healthStatus'' then map_option (\<lambda>s. st\<lparr>os_health := s\<rparr>) v
        else if nm = ''syncStatus'' then map_option (\<lambda>s. st\<lparr>os_sync := s\<rparr>) v
        else if nm = ''operationStatePhase'' then map_option (\<lambda>s. st\<lparr>os_phase := s\<rparr>) v
        else if nm = ''operationStateStartedAt'' then map_option (\<lambda>s. st\<lparr>os_started_at := s\<rparr>) v
        else if nm = ''syncRevision'' then map_option (\<lambda>s. st\<lparr>os_revision := s\<rparr>) v
        else Some st)"

fun read_feedbacks :: "overall_status \<Rightarrow> (string \<times> string option) list \<Rightarrow> overall_status option" where
  "read_feedbacks st [] = Some st"
| "read_feedbacks st (f # fs) =
     (case read_feedback st f of None \<Rightarrow> None | Some st' \<Rightarrow> read_feedbacks st' fs)"

definition work_status :: "manifest_work \<Rightarrow> overall_status option" where
  "work_status mw =
     map_option (\<lambda>st. st\<lparr>os_app := fst (appset_of mw) @ ''/'' @
          mget (m_annos (mw_meta mw)) AnnotationKeyHubApplicationName @ ''/'' @
          m_ns (mw_meta mw) @ ''/'' @ m_name (mw_meta mw)\<rparr>)
       (read_feedbacks \<lparr>os_health = ''Unknown'', os_sync = ''Unknown'', os_started_at = [], os_phase = [],
          os_revision = [], os_app = []\<rparr> (concat (mw_feedback mw)))"

text \<open>The two loops over one page: allocate the inner maps, then fill them.\<close>

definition allocate :: "manifest_work \<Rightarrow> status_map \<Rightarrow> status_map" where
  "allocate mw m = (if has_key m (appset_of mw) then m else mset_key (appset_of mw) [] m)"

fun fill :: "status_map \<Rightarrow> manifest_work list \<Rightarrow> status_map option" where
  "fill m [] = Some m"
| "fill m (mw # mws) =
     (case work_status mw of
        None \<Rightarrow> None
      | Some st \<Rightarrow>
          fill (mset_key (appset_of mw)
                  (mset_key (m_ns (mw_meta mw)) st
                     (case map_of m (appset_of mw) of Some cs \<Rightarrow> cs | None \<Rightarrow> [])) m) mws)"

definition add_page :: "status_map \<Rightarrow> manifest_work list \<Rightarrow> status_map option" where
  "add_page m page = fill (fold allocate page m) page"

definition has_appset_label :: "manifest_work \<Rightarrow> bool" where
  "has_appset_label mw \<longleftrightarrow> has_key (m_labels (mw_meta mw)) LabelKeyAppSet"

definition page_limit :: nat where
  "page_limit = 500"

text \<open>The loop over the pages; \<open>fuel\<close> bounds their number.\<close>

fun collectPages :: "nat \<Rightarrow> nat \<Rightarrow> status_map \<Rightarrow> status_map option api" where
  "collectPages 0 token m = State_Monad.return (Inr None)"
| "collectPages (Suc fuel) token m = do {
     l \<leftarrow> list_works_page has_appset_label page_limit token;
     case l of
       Inl e \<Rightarrow> State_Monad.return (Inl e)
     | Inr (items, next) \<Rightarrow>
         (case add_page m items of
            None \<Rightarrow> State_Monad.return (Inl (Panicked ''nil pointer dereference''))
          | Some m' \<Rightarrow>
              (case next of
                 None \<Rightarrow> State_Monad.return (Inr (Some m'))
               | Some token' \<Rightarrow> collectPages fuel token' m'))
   }"

section \<open>The report of one ApplicationSet\<close>

fun count_health :: "string \<Rightarrow> int \<times> int \<times> int \<Rightarrow> int \<times> int \<times> int" where
  "count_health h (healthy, notHealthy, inProgress) =
     (if h = ''Healthy'' then (healthy + 1, notHealthy, inProgress)
      else if h = ''Progressing'' then (healthy, notHealthy + 1, inProgress + 1)
      else (healthy, notHealthy + 1, inProgress))"

fun count_sync :: "string \<Rightarrow> int \<times> int \<Rightarrow> int \<times> int" where
  "count_sync s (synced, notSynced) =
     (if s = ''Synced'' then (synced + 1, notSynced) else (synced, notSynced + 1))"

definition cluster_condition_of :: "string \<Rightarrow> overall_status \<Rightarrow> cluster_condition" where
  "cluster_condition_of cluster st =
     \<lparr>cl_cluster = cluster, cl_sync = os_sync st, cl_health = os_health st, cl_started_at = os_started_at st,
      cl_phase = os_phase st, cl_revision = os_revision st, cl_app = os_app st, cl_conditions = []\<rparr>"

definition work_conditions :: "cluster_statuses \<Rightarrow> (string \<times> cluster_condition) list" where
  "work_conditions cs =
     fold (\<lambda>(c, st) m. mset_key c (cluster_condition_of c st) m) cs []"

definition merge_yaml ::
  "cluster_condition \<Rightarrow> (string \<times> cluster_condition) list \<Rightarrow> (string \<times> cluster_condition) list" where
  "merge_yaml y m =
     (case map_of m (cl_cluster y) of
        Some c \<Rightarrow> mset_key (cl_cluster y) (c\<lparr>cl_conditions := cl_conditions y\<rparr>) m
      | None \<Rightarrow> mset_key (cl_cluster y) y m)"

definition count_statuses :: "cluster_statuses \<Rightarrow> report_summary" where
  "count_statuses cs =
     (let clusters = int (length cs);
          (healthy, notHealthy, inProgress) = fold (\<lambda>(c, st). count_health (os_health st)) cs (0, 0, 0);
          (synced, notSynced) = fold (\<lambda>(c, st). count_sync (os_sync st)) cs (0, 0)
      in \<lparr>sm_synced = itoa synced, sm_not_synced = itoa notSynced, sm_healthy = itoa healthy,
          sm_not_healthy = itoa notHealthy, sm_in_progress = itoa inProgress, sm_clusters = itoa clusters\<rparr>)"

definition generateSummary ::
  "cluster_statuses \<Rightarrow> cluster_condition list \<Rightarrow> report_summary \<times> cluster_condition list" where
  "generateSummary cs yaml =
     (count_statuses cs, sort_key cl_cluster (map snd (fold merge_yaml yaml (work_conditions cs))))"

definition report_labels :: "nsname \<Rightarrow> smap" where
  "report_labels key = [(AnnotationKeyAppSet, take 63 (fst key @ ''.'' @ snd key))]"

definition newAppSetReport ::
  "nsname \<Rightarrow> resource_ref list \<Rightarrow> cluster_condition list \<Rightarrow> report_summary \<Rightarrow> appset_report" where
  "newAppSetReport key resources conds summary =
     \<lparr>ar_meta = plain_meta (snd key) (fst key) (report_labels key) [],
      ar_status = \<lparr>rs_resources = resources, rs_conditions = conds, rs_summary = summary\<rparr>\<rparr>"

definition sort_resources :: "resource_ref list \<Rightarrow> resource_ref list" where
  "sort_resources = sort_key (\<lambda>r. (rr_name r, rr_kind r))"

definition sort_conditions :: "cluster_condition list \<Rightarrow> cluster_condition list" where
  "sort_conditions = sort_key cl_cluster"

text \<open>
  Compares two reports and sorts their lists in place where the lengths agree: returns the result
  and the two reports afterwards.
\<close>

definition sort_like :: "report_status \<Rightarrow> report_status \<Rightarrow> report_status" where
  "sort_like s t =
     s\<lparr>rs_resources := (if length (rs_resources s) \<noteq> length (rs_resources t) then rs_resources s
                        else sort_resources (rs_resources s)),
       rs_conditions := (if length (rs_conditions s) \<noteq> length (rs_conditions t) then rs_conditions s
                         else sort_conditions (rs_conditions s))\<rparr>"

definition compareAppSetReports ::
  "appset_report \<Rightarrow> appset_report \<Rightarrow> bool \<times> appset_report \<times> appset_report" where
  "compareAppSetReports r1 r2 =
     (let s1 = ar_status r1; s2 = ar_status r2;
          t1 = sort_like s1 s2; t2 = sort_like s2 s1 in
      (same_map (m_labels (ar_meta r1)) (m_labels (ar_meta r2))
         \<and> rs_summary s1 = rs_summary s2
         \<and> length (rs_resources s1) = length (rs_resources s2) \<and> rs_resources t1 = rs_resources t2
         \<and> length (rs_conditions s1) = length (rs_conditions s2) \<and> rs_conditions t1 = rs_conditions t2,
       r1\<lparr>ar_status := t1\<rparr>, r2\<lparr>ar_status := t2\<rparr>))"

definition overwrite_report :: "appset_report \<Rightarrow> appset_report \<Rightarrow> appset_report" where
  "overwrite_report new existing =
     existing\<lparr>ar_meta := (ar_meta existing)\<lparr>m_name := m_name (ar_meta new), m_ns := m_ns (ar_meta new),
                            m_labels := m_labels (ar_meta new)\<rparr>,
              ar_status := ar_status new\<rparr>"

definition empty_summary :: report_summary where
  "empty_summary = \<lparr>sm_synced = [], sm_not_synced = [], sm_healthy = [], sm_not_healthy = [],
     sm_in_progress = [], sm_clusters = []\<rparr>"

definition empty_report :: appset_report where \<comment> \<open>the zero value the code starts from\<close>
  "empty_report = \<lparr>ar_meta = plain_meta [] [] [] [],
     ar_status = \<lparr>rs_resources = [], rs_conditions = [], rs_summary = empty_summary\<rparr>\<rparr>"

text \<open>The existing report, created when the API server says it is not there.\<close>

definition fetchReport :: "nsname \<Rightarrow> appset_report api" where
  "fetchReport key = do {
     g \<leftarrow> get_report key;
     case g of
       Inr r \<Rightarrow> State_Monad.return (Inr r)
     | Inl e \<Rightarrow>
         (if is_not_found e then
            (let fresh = empty_report\<lparr>ar_meta := plain_meta (snd key) (fst key) (report_labels key) []\<rparr> in do {
               c \<leftarrow> create_report key fresh;
               State_Monad.return (case c of Inl e' \<Rightarrow> Inl e' | Inr _ \<Rightarrow> Inr fresh)
             })
          else State_Monad.return (Inr empty_report))
   }"

definition desiredReport ::
  "(string \<Rightarrow> goerr + report_status) \<Rightarrow> nsname \<Rightarrow> cluster_statuses \<Rightarrow> appset_report" where
  "desiredReport load key cs =
     (case load (fst key @ ''_'' @ snd key @ ''.yaml'') of
        Inr yaml \<Rightarrow>
          (case generateSummary cs (rs_conditions yaml) of (summary, conds) \<Rightarrow>
             newAppSetReport key (rs_resources yaml) conds summary)
      | Inl e \<Rightarrow>
          (case generateSummary cs [] of (summary, conds) \<Rightarrow> newAppSetReport key [] conds summary))"

text \<open>One iteration of \<open>generateAppSetReport\<close>; errors are logged and the loop goes on.\<close>

definition reportOne ::
  "(string \<Rightarrow> goerr + report_status) \<Rightarrow> nsname \<times> cluster_statuses \<Rightarrow> (world, unit) state" where
  "reportOne load entry =
     (case entry of (key, cs) \<Rightarrow> do {
        f \<leftarrow> fetchReport key;
        case f of
          Inl e \<Rightarrow> State_Monad.return ()
        | Inr existing \<Rightarrow>
            (case compareAppSetReports existing (desiredReport load key cs) of
               (same, existing', new') \<Rightarrow>
                 if \<not> same then do {
                   u \<leftarrow> update_report key (overwrite_report new' existing');
                   State_Monad.return ()
                 }
                 else State_Monad.return ())
      })"

definition generateAppSetReport :: "(string \<Rightarrow> goerr + report_status) \<Rightarrow> status_map \<Rightarrow> (world, unit) state" where
  "generateAppSetReport load m = loopM (\<lambda>_ entry. reportOne load entry) () m"

definition generateAggregation :: "nat \<Rightarrow> (string \<Rightarrow> goerr + report_status) \<Rightarrow> unit option api" where
  "generateAggregation fuel load = do {
     c \<leftarrow> collectPages fuel 0 [];
     case c of
       Inl e \<Rightarrow> State_Monad.return (Inl e)
     | Inr None \<Rightarrow> State_Monad.return (Inr None)
     | Inr (Some m) \<Rightarrow> do {
         u \<leftarrow> generateAppSetReport load m;
         State_Monad.return (Inr (Some ()))
       }
   }"

section \<open>Clean-up\<close>

text \<open>The ApplicationSet a report file stands for, and the file removed for it.\<close>

definition appset_of_file :: "string \<Rightarrow> nsname option" where
  "appset_of_file file =
     (case split_char (CHR ''_'') (trim_right file ''.yaml'') of
        a # b # _ \<Rightarrow> Some (a, b)
      | _ \<Rightarrow> None)"

definition file_of_appset :: "nsname \<Rightarrow> string" where
  "file_of_appset key = fst key @ ''_'' @ snd key @ ''.yaml''"

definition stale_file :: "nsname list \<Rightarrow> string \<Rightarrow> (world, nsname list) state" where
  "stale_file missing file =
     (case appset_of_file file of
        None \<Rightarrow> State_Monad.return missing
      | Some key \<Rightarrow> do {
          g \<leftarrow> get_appset key;
          State_Monad.return (case g of
            Inr _ \<Rightarrow> missing
          | Inl e \<Rightarrow> if is_not_found e then missing @ [key] else missing)
        })"

definition find_missing :: "appset_report list \<Rightarrow> appset_report \<Rightarrow> (world, appset_report list) state" where
  "find_missing missing report = do {
     g \<leftarrow> get_appset (m_ns (ar_meta report), m_name (ar_meta report));
     State_Monad.return (case g of
       Inr _ \<Rightarrow> missing
     | Inl e \<Rightarrow> if is_not_found e then missing @ [report] else missing)
   }"

text \<open>Deleting the works of one cluster condition; the accumulator is \<open>errOccured\<close>.\<close>

definition delete_condition_work :: "bool \<Rightarrow> cluster_condition \<Rightarrow> (world, bool) state" where
  "delete_condition_work errOccured cc =
     (case split_char (CHR ''/'') (cl_app cc) of
        _ # _ # workNamespace # workName # _ \<Rightarrow> do {
          g \<leftarrow> get_work (workNamespace, workName);
          case g of
            Inl e \<Rightarrow> State_Monad.return (if \<not> is_not_found e then True else errOccured)
          | Inr work \<Rightarrow> do {
              d \<leftarrow> delete_work (m_ns (mw_meta work), m_name (mw_meta work));
              State_Monad.return (case d of
                Inl e \<Rightarrow> if \<not> is_not_found e then True else errOccured
              | Inr _ \<Rightarrow> errOccured)
            }
        }
      | _ \<Rightarrow> State_Monad.return errOccured)"

definition remove_orphan :: "appset_report \<Rightarrow> (world, unit) state" where
  "remove_orphan report = do {
     err \<leftarrow> loopM delete_condition_work False (rs_conditions (ar_status report));
     if err then State_Monad.return ()
     else do {
       d \<leftarrow> delete_report (m_ns (ar_meta report), m_name (ar_meta report));
       State_Monad.return ()
     }
   }"

definition cleanupOrphanReports :: "unit api" where
  "cleanupOrphanReports = do {
     l \<leftarrow> list_reports (\<lambda>_. True);
     case l of
       Inl e \<Rightarrow> State_Monad.return (Inl e)
     | Inr items \<Rightarrow> do {
         missing \<leftarrow> loopM find_missing [] items;
         u \<leftarrow> loopM (\<lambda>_ r. remove_orphan r) () missing;
         State_Monad.return (Inr ())
       }
   }"

text \<open>Returns the names of the files it removes, and its error.\<close>

definition cleanupReports :: "goerr + string list \<Rightarrow> (world, string list \<times> (goerr + unit)) state" where
  "cleanupReports files =
     (case files of
        Inl e \<Rightarrow> State_Monad.return ([], Inl e)
      | Inr names \<Rightarrow> do {
          missing \<leftarrow> loopM stale_file [] names;
          r \<leftarrow> cleanupOrphanReports;
          State_Monad.return (map file_of_appset missing, r)
        })"

text \<open>One tick of the controller: nothing when the pull model is disabled.\<close>

definition houseKeeping ::
  "nat \<Rightarrow> (string \<Rightarrow> goerr + report_status) \<Rightarrow> goerr + string list \<Rightarrow> (world, string list) state" where
  "houseKeeping fuel load files = do {
     a \<leftarrow> generateAggregation fuel load;
     c \<leftarrow> cleanupReports files;
     State_Monad.return (fst c)
   }"

definition tick ::
  "config_env \<Rightarrow> nat \<Rightarrow> (string \<Rightarrow> goerr + report_status) \<Rightarrow> goerr + string list \<Rightarrow> (world, string list) state" where
  "tick env fuel load files = do {
     cfg \<leftarrow> LoadOrCreate env;
     if disabled cfg then State_Monad.return [] else houseKeeping fuel load files
   }"

section \<open>Facts about collecting\<close>

text \<open>The status map as a function, and what one work does to it.\<close>

definition look :: "status_map \<Rightarrow> nsname \<Rightarrow> string \<Rightarrow> overall_status option" where
  "look m key c = (case map_of m key of None \<Rightarrow> None | Some cs \<Rightarrow> map_of cs c)"

definition note_work ::
  "manifest_work \<Rightarrow> (nsname \<Rightarrow> string \<Rightarrow> overall_status option) \<Rightarrow> nsname \<Rightarrow> string \<Rightarrow> overall_status option" where
  "note_work mw f = (\<lambda>key c. if key = appset_of mw \<and> c = m_ns (mw_meta mw) then work_status mw else f key c)"

lemma look_allocate [simp]: "look (allocate mw m) = look m"
  by (auto simp: look_def allocate_def has_key_def fun_eq_iff split: option.splits)

lemma look_allocates [simp]: "look (fold allocate mws m) = look m"
  by (induction mws arbitrary: m) simp_all

lemma look_fill:
  assumes "\<forall>mw \<in> set mws. work_status mw \<noteq> None"
  shows "\<exists>m'. fill m mws = Some m' \<and> look m' = fold note_work mws (look m)"
  using assms
proof (induction mws arbitrary: m)
  case (Cons mw mws)
  then obtain st where st: "work_status mw = Some st" by auto
  let ?m1 = "mset_key (appset_of mw) (mset_key (m_ns (mw_meta mw)) st
      (case map_of m (appset_of mw) of Some cs \<Rightarrow> cs | None \<Rightarrow> [])) m"
  have "look ?m1 = note_work mw (look m)"
    by (auto simp: look_def note_work_def st fun_eq_iff split: option.splits)
  with Cons.IH [of ?m1] Cons.prems st show ?case by simp
qed simp

lemma look_page:
  assumes "\<forall>mw \<in> set page. work_status mw \<noteq> None"
  shows "\<exists>m'. add_page m page = Some m' \<and> look m' = fold note_work page (look m)"
  using look_fill [OF assms, of "fold allocate page m"] by (simp add: add_page_def)

definition labelled_works :: "world \<Rightarrow> manifest_work list" where
  "labelled_works w = filter has_appset_label (map snd (w_works w))"

lemma collectPages_looks:
  assumes "calm w" and "\<forall>mw \<in> set (labelled_works w). work_status mw \<noteq> None"
    and "length (labelled_works w) < token + fuel * page_limit" and "token \<le> length (labelled_works w)"
    and "look m = fold note_work (take token (labelled_works w)) (\<lambda>_ _. None)"
  shows "\<exists>m' w'. run_state (collectPages fuel token m) w = (Inr (Some m'), w') \<and> quiet w w'
    \<and> look m' = fold note_work (labelled_works w) (\<lambda>_ _. None)"
  using assms
proof (induction fuel arbitrary: w token m)
  case (Suc fuel)
  let ?items = "labelled_works w"
  let ?page = "take page_limit (drop token ?items)"
  have "\<forall>mw \<in> set ?page. work_status mw \<noteq> None"
    using Suc.prems(2) by (meson in_set_takeD in_set_dropD)
  from look_page [OF this] obtain m1 where m1: "add_page m ?page = Some m1"
    "look m1 = fold note_work ?page (look m)" by blast
  have split: "take (token + page_limit) ?items = take token ?items @ ?page"
    by (simp add: take_add)
  have m1': "look m1 = fold note_work (take (token + page_limit) ?items) (\<lambda>_ _. None)"
    using m1(2) Suc.prems(5) by (simp add: split)
  have lw: "labelled_works (consume w) = ?items"
    by (simp add: labelled_works_def)
  show ?case
  proof (cases "token + page_limit < length ?items")
    case True
    have run: "run_state (collectPages (Suc fuel) token m) w =
        run_state (collectPages fuel (token + page_limit) m1) (consume w)"
      using Suc.prems(1) m1(1) True by (simp add: run_simps labelled_works_def Let_def)
    have "length (labelled_works (consume w)) < token + page_limit + fuel * page_limit"
      using Suc.prems(3) lw by simp
    then obtain m' w' where "run_state (collectPages fuel (token + page_limit) m1) (consume w) = (Inr (Some m'), w')"
      "quiet (consume w) w'" "look m' = fold note_work ?items (\<lambda>_ _. None)"
      using Suc.IH [of "consume w" "token + page_limit" m1] Suc.prems(1,2) m1' lw True by auto
    then show ?thesis
      using run quiet.frame_trans [OF quiet_consume] by metis
  next
    case False
    then have "take (token + page_limit) ?items = ?items" by simp
    then show ?thesis
      using Suc.prems(1) m1(1) m1' False
      by (auto simp: run_simps labelled_works_def Let_def quiet_consume)
  qed
qed simp

lemma fold_note_last:
  "fold note_work mws f key c =
     (case filter (\<lambda>mw. appset_of mw = key \<and> m_ns (mw_meta mw) = c) mws of
        [] \<Rightarrow> f key c
      | ws \<Rightarrow> work_status (last ws))"
proof (induction mws rule: rev_induct)
  case (snoc mw mws)
  then show ?case
    by (auto simp: note_work_def split: list.splits)
qed simp

section \<open>Facts about summaries\<close>

lemma count_health_fold:
  "fold (\<lambda>(c, st). count_health (os_health st)) cs (a, b, d) =
     (a + int (length (filter (\<lambda>(c, st). os_health st = ''Healthy'') cs)),
      b + int (length (filter (\<lambda>(c, st). os_health st \<noteq> ''Healthy'') cs)),
      d + int (length (filter (\<lambda>(c, st). os_health st = ''Progressing'') cs)))"
  by (induction cs arbitrary: a b d) auto

lemma count_sync_fold:
  "fold (\<lambda>(c, st). count_sync (os_sync st)) cs (a, b) =
     (a + int (length (filter (\<lambda>(c, st). os_sync st = ''Synced'') cs)),
      b + int (length (filter (\<lambda>(c, st). os_sync st \<noteq> ''Synced'') cs)))"
  by (induction cs arbitrary: a b) auto

text \<open>The condition map: keyed by cluster, one entry per cluster.\<close>

definition by_cluster :: "(string \<times> cluster_condition) list \<Rightarrow> bool" where
  "by_cluster m \<longleftrightarrow> distinct (map fst m) \<and> (\<forall>(k, c) \<in> set m. cl_cluster c = k)"

lemma set_update_subset: "set (mset_key k v m) \<subseteq> insert (k, v) (set m)"
  by (induction m) auto

lemma by_cluster_update:
  assumes "by_cluster m" and "cl_cluster c = k" shows "by_cluster (mset_key k c m)"
  using assms set_update_subset [of k c m] by (auto simp: by_cluster_def distinct_update)

lemma by_cluster_value: "by_cluster m \<Longrightarrow> map_of m k = Some c \<Longrightarrow> cl_cluster c = k"
  by (auto simp: by_cluster_def dest!: map_of_SomeD)

lemma by_cluster_merge: "by_cluster m \<Longrightarrow> by_cluster (merge_yaml y m)"
  by (auto simp: merge_yaml_def intro!: by_cluster_update dest: by_cluster_value split: option.splits)

lemma cl_cluster_of [simp]: "cl_cluster (cluster_condition_of c st) = c"
  by (simp add: cluster_condition_of_def)

lemma work_conditions_lookup:
  assumes "distinct (map fst cs)"
  shows "by_cluster (work_conditions cs) \<and>
    map_of (work_conditions cs) c = map_option (cluster_condition_of c) (map_of cs c)"
proof -
  have bc: "by_cluster m \<Longrightarrow> by_cluster (fold (\<lambda>(c, st) m. mset_key c (cluster_condition_of c st) m) cs m)" for m cs
    by (induction cs arbitrary: m) (simp_all add: by_cluster_update split: prod.split)
  have lk: "distinct (map fst cs) \<Longrightarrow>
      map_of (fold (\<lambda>(c, st) m. mset_key c (cluster_condition_of c st) m) cs m) c =
      (case map_of cs c of Some st \<Rightarrow> Some (cluster_condition_of c st) | None \<Rightarrow> map_of m c)" for m cs
  proof (induction cs arbitrary: m)
    case (Cons a cs)
    then have "map_of cs (fst a) = None"
      by (simp add: map_of_eq_None_iff)
    with Cons show ?case
      by (cases "c = fst a") (simp_all add: case_prod_unfold split: option.split)
  qed simp
  have "by_cluster []" by (simp add: by_cluster_def)
  from bc [OF this] lk [OF assms] show ?thesis
    by (simp add: work_conditions_def split: option.split)
qed

text \<open>Merging a YAML condition keeps what the works reported.\<close>

definition reported :: "cluster_statuses \<Rightarrow> (string \<times> cluster_condition) list \<Rightarrow> bool" where
  "reported cs m \<longleftrightarrow> (\<forall>c st. map_of cs c = Some st \<longrightarrow>
     (\<exists>cc. map_of m c = Some cc \<and> cc\<lparr>cl_conditions := []\<rparr> = cluster_condition_of c st))"

lemma reported_merge: "by_cluster m \<Longrightarrow> reported cs m \<Longrightarrow> reported cs (merge_yaml y m)"
  by (fastforce simp: reported_def merge_yaml_def split: option.splits)

lemma keys_merge: "dom (map_of (merge_yaml y m)) = insert (cl_cluster y) (dom (map_of m))"
  by (auto simp: merge_yaml_def split: option.splits)

lemma merged:
  assumes "by_cluster m" and "reported cs m"
  shows "by_cluster (fold merge_yaml ys m) \<and> reported cs (fold merge_yaml ys m) \<and>
    dom (map_of (fold merge_yaml ys m)) = dom (map_of m) \<union> cl_cluster ` set ys"
  using assms
  by (induction ys arbitrary: m) (auto simp: by_cluster_merge reported_merge keys_merge)


section \<open>Facts about clean-up\<close>

text \<open>The works that the reports of missing ApplicationSets name.\<close>

definition referenced :: "cluster_condition \<Rightarrow> nsname \<Rightarrow> bool" where
  "referenced cc k \<longleftrightarrow> (\<exists>a b rest. split_char (CHR ''/'') (cl_app cc) = a # b # fst k # snd k # rest)"

definition orphan_works :: "appset_report set \<Rightarrow> nsname set" where
  "orphan_works rs = {k. \<exists>r \<in> rs. \<exists>cc \<in> set (rs_conditions (ar_status r)). referenced cc k}"

abbreviation report_key :: "appset_report \<Rightarrow> nsname" where
  "report_key r \<equiv> (m_ns (ar_meta r), m_name (ar_meta r))"

definition cleaning :: "world \<Rightarrow> appset_report set \<Rightarrow> world \<Rightarrow> bool" where
  "cleaning w rs t \<longleftrightarrow> keyed mw_meta (w_works t) \<and>
     deletes_only (orphan_works rs) w_works w t \<and> deletes_only (report_key ` rs) w_reports w t"

lemma cleaning_consume [simp]: "cleaning w rs (consume t) = cleaning w rs t"
  by (simp add: cleaning_def deletes_only_def)

lemma cleaning_works:
  assumes "cleaning w rs t" and "k \<in> orphan_works rs"
  shows "cleaning w rs (w_works_update (mdel_key k) t)"
  using assms deletes_only_mdel [of "orphan_works rs" w_works w t k "w_works_update (mdel_key k) t"]
    deletes_only_sel [of "report_key ` rs" w_reports w t "w_works_update (mdel_key k) t"]
  by (simp add: cleaning_def keyed_mdel_key)

lemma cleaning_reports:
  assumes "cleaning w rs t" and "k \<in> report_key ` rs"
  shows "cleaning w rs (w_reports_update (mdel_key k) t)"
  using assms deletes_only_mdel [of "report_key ` rs" w_reports w t k "w_reports_update (mdel_key k) t"]
    deletes_only_sel [of "orphan_works rs" w_works w t "w_reports_update (mdel_key k) t"]
  by (simp add: cleaning_def)

lemma delete_condition_work_cleaning:
  assumes "r \<in> rs" and "cc \<in> set (rs_conditions (ar_status r))"
  shows "state_io_rel (\<lambda>s t. cleaning w rs s \<longrightarrow> cleaning w rs t) (delete_condition_work b cc)"
proof (rule state_io_relI, rule impI)
  fix x s t
  assume run: "run_state (delete_condition_work b cc) s = (x, t)" and s: "cleaning w rs s"
  have del: "cleaning w rs (w_works_update (mdel_key (m_ns (mw_meta mw), m_name (mw_meta mw))) s)"
    if "split_char (CHR ''/'') (cl_app cc) = a # c # ns # nm # rest" and "map_of (w_works s) (ns, nm) = Some mw"
    for a c ns nm rest mw
  proof (rule cleaning_works [OF s])
    have "(m_ns (mw_meta mw), m_name (mw_meta mw)) = (ns, nm)"
      using keyedD [OF _ that(2)] s by (simp add: cleaning_def)
    moreover have "referenced cc (ns, nm)"
      using that(1) by (simp add: referenced_def)
    ultimately show "(m_ns (mw_meta mw), m_name (mw_meta mw)) \<in> orphan_works rs"
      using assms unfolding orphan_works_def by auto
  qed
  have c: "w_works_update g (consume u) = consume (w_works_update g u)" for g u
    by (simp add: consume_def)
  show "cleaning w rs t"
    using run s del
    by (auto simp: delete_condition_work_def run_simps c split: list.splits option.splits sum.splits if_splits)
qed

lemma remove_orphan_cleaning:
  assumes "r \<in> rs"
  shows "state_io_rel (\<lambda>s t. cleaning w rs s \<longrightarrow> cleaning w rs t) (remove_orphan r)"
proof -
  have del: "state_io_rel (\<lambda>s t. cleaning w rs s \<longrightarrow> cleaning w rs t) (delete_report (report_key r))"
  proof (rule state_io_relI, rule impI)
    fix x s t
    assume "run_state (delete_report (report_key r)) s = (x, t)" and "cleaning w rs s"
    then show "cleaning w rs t"
      using cleaning_reports [of w rs "consume s" "report_key r"] assms
      by (auto simp: run_simps split: option.splits if_splits)
  qed
  show ?thesis
    unfolding remove_orphan_def
    by (intro inv_frame.frame_rules delete_condition_work_cleaning [OF assms] del) assumption
qed

lemma find_missing_run:
  assumes "honest s" and "run_state (loopM find_missing acc items) s = (missing, t)"
  shows "quiet s t \<and> honest t \<and>
    (\<forall>r \<in> set missing. r \<in> set acc \<or> r \<in> set items \<and> map_of (w_appsets s) (report_key r) = None)"
  using assms
proof (induction items arbitrary: acc s)
  case Nil
  then show ?case by (simp add: quiet.frame_refl)
next
  case (Cons r items)
  obtain acc1 s1 where one: "run_state (find_missing acc r) s = (acc1, s1)" by fastforce
  have s1: "s1 = consume s"
    using one by (auto simp: find_missing_def run_simps split: option.splits)
  have acc1: "x \<in> set acc1 \<Longrightarrow> x \<in> set acc \<or> x = r \<and> map_of (w_appsets s) (report_key r) = None" for x
    using one honest_verdict [OF Cons.prems(1)]
    by (auto simp: find_missing_def run_simps split: option.splits if_splits)
  have rest: "run_state (loopM find_missing acc1 items) s1 = (missing, t)"
    using Cons.prems(2) one by simp
  from Cons.IH [OF _ rest] Cons.prems(1) acc1 show ?case
    using quiet.frame_trans [OF quiet_consume] by (auto simp: s1)
qed

section \<open>Properties\<close>

text \<open>
  C28: paging loses nothing. When no request is rejected and every feedback value has a string, any
  fuel above the number of full pages collects, for every ApplicationSet and cluster, the status of
  the last listed work of that ApplicationSet in that cluster's namespace, and only reads.
\<close>
theorem collection_complete:
  assumes "calm w" and "\<forall>mw \<in> set (labelled_works w). work_status mw \<noteq> None"
    and "length (labelled_works w) < fuel * page_limit"
  shows "\<exists>m w'. run_state (collectPages fuel 0 []) w = (Inr (Some m), w') \<and> quiet w w' \<and>
    (\<forall>key c. look m key c =
      (case filter (\<lambda>mw. appset_of mw = key \<and> m_ns (mw_meta mw) = c) (labelled_works w) of
         [] \<Rightarrow> None | ws \<Rightarrow> work_status (last ws)))"
proof -
  have "look [] = (\<lambda>_ _. None)" by (simp add: look_def fun_eq_iff)
  with collectPages_looks [of w 0 fuel "[]"] assms obtain m w' where
    "run_state (collectPages fuel 0 []) w = (Inr (Some m), w')" "quiet w w'"
    "look m = fold note_work (labelled_works w) (\<lambda>_ _. None)" by auto
  then show ?thesis
    by (intro exI [of _ m] exI [of _ w']) (simp add: fold_note_last)
qed

text \<open>
  the summary adds up: the counts are those of the clusters in each state, every cluster is
  either synced or not and either healthy or not, and those in progress are among the not healthy.
\<close>
theorem summary_adds_up:
  fixes cs yaml
  defines "s \<equiv> fst (generateSummary cs yaml)"
    and "n \<equiv> \<lambda>P. length (filter (\<lambda>(c, st). P st) cs)"
  shows "sm_clusters s = itoa (int (length cs))
    \<and> sm_healthy s = itoa (int (n (\<lambda>st. os_health st = ''Healthy'')))
    \<and> sm_not_healthy s = itoa (int (length cs - n (\<lambda>st. os_health st = ''Healthy'')))
    \<and> sm_in_progress s = itoa (int (n (\<lambda>st. os_health st = ''Progressing'')))
    \<and> sm_synced s = itoa (int (n (\<lambda>st. os_sync st = ''Synced'')))
    \<and> sm_not_synced s = itoa (int (length cs - n (\<lambda>st. os_sync st = ''Synced'')))
    \<and> n (\<lambda>st. os_health st = ''Progressing'') \<le> length cs - n (\<lambda>st. os_health st = ''Healthy'')"
proof -
  have neg: "length (filter (\<lambda>(c, st). \<not> P st) cs) = length cs - n P" for P
    using sum_length_filter_compl [of "\<lambda>(c, st). P st" cs]
    by (simp add: n_def case_prod_unfold)
  have "n (\<lambda>st. os_health st = ''Progressing'') \<le> length (filter (\<lambda>(c, st). \<not> os_health st = ''Healthy'') cs)"
    unfolding n_def by (induction cs) auto
  then show ?thesis
    using neg [of "\<lambda>st. os_health st = ''Healthy''"] neg [of "\<lambda>st. os_sync st = ''Synced''"]
    by (simp add: s_def generateSummary_def count_statuses_def count_health_fold count_sync_fold n_def Let_def)
qed

text \<open>
  a report has exactly one condition per cluster that has a work or a YAML entry, in the order of
  cluster names, and the status of a cluster with a work is the one its work reported: the YAML
  contributes the error conditions only.
\<close>
theorem report_conditions:
  fixes cs yaml
  assumes "distinct (map fst cs)"
  defines "conds \<equiv> snd (generateSummary cs yaml)"
  shows "sorted (map cl_cluster conds) \<and> distinct (map cl_cluster conds)
    \<and> cl_cluster ` set conds = fst ` set cs \<union> cl_cluster ` set yaml
    \<and> (\<forall>cc \<in> set conds. \<forall>st. map_of cs (cl_cluster cc) = Some st \<longrightarrow>
        cc\<lparr>cl_conditions := []\<rparr> = cluster_condition_of (cl_cluster cc) st)"
proof -
  let ?m = "fold merge_yaml yaml (work_conditions cs)"
  note lookup = work_conditions_lookup [OF assms(1)]
  have "reported cs (work_conditions cs)"
    using lookup by (auto simp: reported_def cluster_condition_of_def)
  then have m: "by_cluster ?m" "reported cs ?m" "dom (map_of ?m) = fst ` set cs \<union> cl_cluster ` set yaml"
    using merged [of "work_conditions cs" cs yaml] lookup by (auto simp: dom_def dom_map_of_conv_image_fst [symmetric])
  have keys: "map cl_cluster (map snd ?m) = map fst ?m"
    using m(1) by (auto simp: by_cluster_def)
  have conds: "conds = sort_key cl_cluster (map snd ?m)"
    by (simp add: conds_def generateSummary_def)
  have "mset (map cl_cluster conds) = mset (map fst ?m)"
    unfolding conds keys [symmetric] by (simp only: mset_map mset_sort)
  then have d: "distinct (map cl_cluster conds)" and s: "set (map cl_cluster conds) = set (map fst ?m)"
    using m(1) mset_eq_imp_distinct_iff mset_eq_setD by (metis by_cluster_def, metis)
  have "cc\<lparr>cl_conditions := []\<rparr> = cluster_condition_of (cl_cluster cc) st"
    if "cc \<in> set conds" "map_of cs (cl_cluster cc) = Some st" for cc st
  proof -
    from that(1) obtain k where "(k, cc) \<in> set ?m" by (auto simp: conds)
    then have "map_of ?m (cl_cluster cc) = Some cc"
      using m(1) by (auto simp: by_cluster_def)
    with m(2) that(2) show ?thesis unfolding reported_def by (metis option.inject)
  qed
  moreover have "cl_cluster ` set conds = fst ` set cs \<union> cl_cluster ` set yaml"
    using s m(3) by (simp add: dom_map_of_conv_image_fst)
  ultimately show ?thesis
    using d by (simp add: conds sort_key_def [symmetric])
qed


text \<open>
  C21: orphan clean-up is safe. Unless the API server claims that an existing object is missing,
  whatever else it rejects: a report is deleted only if its ApplicationSet does not exist, a work only
  if a report of a missing ApplicationSet names it, and nothing is changed otherwise.
\<close>
theorem orphan_cleanup_safe:
  assumes "honest w" and "keyed mw_meta (w_works w)" and "keyed ar_meta (w_reports w)"
  defines "w' \<equiv> snd (run_state cleanupOrphanReports w)"
  shows "(map_of (w_reports w') k \<noteq> map_of (w_reports w) k \<longrightarrow>
      map_of (w_reports w') k = None \<and> map_of (w_appsets w) k = None)
    \<and> (map_of (w_works w') k \<noteq> map_of (w_works w) k \<longrightarrow>
      map_of (w_works w') k = None \<and>
      (\<exists>r cc. map_of (w_reports w) (report_key r) = Some r \<and> map_of (w_appsets w) (report_key r) = None
         \<and> cc \<in> set (rs_conditions (ar_status r)) \<and> referenced cc k))"
proof -
  let ?orphans = "{r. map_of (w_reports w) (report_key r) = Some r \<and> map_of (w_appsets w) (report_key r) = None}"
  have start: "cleaning w ?orphans (consume w)"
    using assms(2) by (simp add: cleaning_def deletes_only_def)
  have "cleaning w ?orphans w'"
  proof (cases "verdict w")
    case (Some e)
    then show ?thesis
      using start by (simp add: w'_def cleanupOrphanReports_def run_simps)
  next
    case None
    obtain missing w1 where m: "run_state (loopM find_missing [] (map snd (w_reports w))) (consume w) = (missing, w1)"
      by fastforce
    have f: "quiet (consume w) w1" "\<And>r. r \<in> set missing \<Longrightarrow> r \<in> ?orphans"
      using find_missing_run [OF _ m] assms(1) keyed_listed [OF assms(3)] by auto
    have w1: "cleaning w ?orphans w1"
      using start quiet_sel [OF f(1)] by (simp add: cleaning_def deletes_only_def)
    have "state_io_rel (\<lambda>s t. cleaning w ?orphans s \<longrightarrow> cleaning w ?orphans t)
        (loopM (\<lambda>_ r. remove_orphan r) () missing)"
      by (rule inv_frame.loopM_frame) (rule remove_orphan_cleaning, rule f(2))
    moreover obtain u w2 where l: "run_state (loopM (\<lambda>_ r. remove_orphan r) () missing) w1 = (u, w2)"
      by (rule prod.exhaust)
    ultimately have "cleaning w ?orphans w2"
      using state_io_relD w1 by blast
    then show ?thesis
      using None m l by (simp add: w'_def cleanupOrphanReports_def run_simps)
  qed
  then have d: "deletes_only (orphan_works ?orphans) w_works w w'"
    "deletes_only (report_key ` ?orphans) w_reports w w'"
    by (simp_all add: cleaning_def)
  show ?thesis
    using deletes_onlyD [OF d(1), of k] deletes_onlyD [OF d(2), of k]
    by (auto simp: orphan_works_def)
qed

lemma sort_idem [simp]:
  "sort_resources (sort_resources xs) = sort_resources xs"
  "sort_conditions (sort_conditions ys) = sort_conditions ys"
  "length (sort_resources xs) = length xs" "length (sort_conditions ys) = length ys"
  by (simp_all add: sort_resources_def sort_conditions_def sort_key_id_if_sorted)

lemma sort_like_facts [simp]:
  "rs_summary (sort_like s t) = rs_summary s"
  "length (rs_resources (sort_like s t)) = length (rs_resources s)"
  "length (rs_conditions (sort_like s t)) = length (rs_conditions s)"
  "sort_resources (rs_resources (sort_like s t)) = sort_resources (rs_resources s)"
  "sort_conditions (rs_conditions (sort_like s t)) = sort_conditions (rs_conditions s)"
  "length (rs_resources s) = length (rs_resources t) \<Longrightarrow>
     rs_resources (sort_like s t) = sort_resources (rs_resources s)"
  "length (rs_conditions s) = length (rs_conditions t) \<Longrightarrow>
     rs_conditions (sort_like s t) = sort_conditions (rs_conditions s)"
  by (simp_all add: sort_like_def)

lemma compare_overwritten:
  assumes "compareAppSetReports existing desired = (same, existing', new')"
  shows "fst (compareAppSetReports (overwrite_report new' existing') desired)"
proof -
  have n: "ar_status new' = sort_like (ar_status desired) (ar_status existing)"
    "m_labels (ar_meta new') = m_labels (ar_meta desired)"
    using assms by (auto simp: compareAppSetReports_def Let_def)
  then show ?thesis
    by (simp add: compareAppSetReports_def overwrite_report_def Let_def same_map_iff)
qed


text \<open>
  the file name is recovered with a cutset, not a suffix: when the ApplicationSet's name ends in a
  letter of \<open>.yaml\<close>, the clean-up looks up another ApplicationSet and never removes this one's file.
\<close>
theorem trimmed_file_kept:
  assumes "CHR ''_'' \<notin> set ns" and "CHR ''_'' \<notin> set nm" and "nm \<noteq> []" and "last nm \<in> set ''.yaml''"
  shows "appset_of_file (file_of_appset (ns, nm)) \<noteq> Some (ns, nm)
    \<and> (\<forall>key. appset_of_file (file_of_appset (ns, nm)) = Some key \<longrightarrow>
        file_of_appset key \<noteq> file_of_appset (ns, nm))"
proof -
  let ?p = "\<lambda>c. c \<in> set ''.yaml''"
  define t where "t = trim_right_func ?p nm"
  obtain rest where rest: "nm = t @ rest" "\<forall>c \<in> set rest. ?p c"
    using trim_right_func_prefix [of nm ?p] unfolding t_def by blast
  have "t \<noteq> nm"
    using last_trim_right_func [of ?p nm] assms(3,4) unfolding t_def by metis
  have final: "t = [] \<or> \<not> ?p (last t)"
    using last_trim_right_func [of ?p nm] unfolding t_def by blast
  have "trim_right (file_of_appset (ns, nm)) ''.yaml'' =
      trim_right_func ?p ((ns @ CHR ''_'' # t) @ (rest @ ''.yaml''))"
    by (simp add: trim_right_def file_of_appset_def rest(1))
  also have "\<dots> = trim_right_func ?p (ns @ CHR ''_'' # t)"
    by (rule trim_right_func_append) (use rest(2) in auto)
  also have "\<dots> = ns @ CHR ''_'' # t"
    by (rule trim_right_func_id) (use final in auto)
  finally have tr: "trim_right (file_of_appset (ns, nm)) ''.yaml'' = ns @ CHR ''_'' # t" .
  have "CHR ''_'' \<notin> set t"
    using assms(2) rest(1) by simp
  then have a: "appset_of_file (file_of_appset (ns, nm)) = Some (ns, t)"
    by (simp add: appset_of_file_def tr split_char_Cons [OF assms(1)] split_char_no_sep)
  have "file_of_appset (ns, t) \<noteq> file_of_appset (ns, nm)"
    using \<open>t \<noteq> nm\<close> by (simp add: file_of_appset_def)
  with \<open>t \<noteq> nm\<close> show ?thesis
    unfolding a by auto
qed

text \<open>with the pull model disabled a tick of the aggregation only reads and removes no file.\<close>
theorem disabled_tick_inert:
  assumes "disabled (fst (run_state (LoadOrCreate env) w))"
  shows "fst (run_state (tick env fuel load files) w) = []
    \<and> quiet w (snd (run_state (tick env fuel load files) w))"
proof -
  obtain r w0 where l: "run_state (LoadOrCreate env) w = (r, w0)" by fastforce
  with assms disabled_quiet [OF l] show ?thesis by (simp add: tick_def)
qed


section \<open>Witnesses\<close>

definition fed_work :: manifest_work where
  "fed_work =
     \<lparr>mw_meta = plain_meta ''shop-12345'' ''c1'' [(LabelKeyAppSet, ''true'')]
        [(AnnotationKeyAppSet, ''team/set''), (AnnotationKeyHubApplicationName, ''shop'')],
      mw_spec = \<lparr>ws_manifests = [], ws_configs = [], ws_orphaning = None\<rparr>,
      mw_feedback = [[(''healthStatus'', Some ''Healthy''), (''syncStatus'', Some ''Synced'')]]\<rparr>"

definition fed_world :: world where
  "fed_world = empty_world\<lparr>w_works := [((''c1'', ''shop-12345''), fed_work)]\<rparr>"

lemma fed_labelled: "labelled_works fed_world = [fed_work]"
  by (simp add: labelled_works_def fed_world_def has_appset_label_def fed_work_def has_key_def)

lemma fed_appset: "appset_of fed_work = (''team'', ''set'')"
  by (simp add: appset_of_def fed_work_def mget_def ParseNamespacedName_def propagation_keys)

lemma fed_status: "\<exists>st. work_status fed_work = Some st \<and> os_health st = ''Healthy''"
  by (simp add: work_status_def fed_work_def read_feedback_def)

theorem collection_complete_witness:
  "\<exists>m w' st. run_state (collectPages 1 0 []) fed_world = (Inr (Some m), w')
     \<and> look m (''team'', ''set'') ''c1'' = Some st \<and> os_health st = ''Healthy''"
proof -
  have c: "calm fed_world" by (simp add: fed_world_def empty_world_def)
  have a: "\<forall>mw \<in> set (labelled_works fed_world). work_status mw \<noteq> None"
    using fed_status by (auto simp: fed_labelled)
  have l: "length (labelled_works fed_world) < 1 * page_limit"
    by (simp add: fed_labelled page_limit_def)
  have n: "m_ns (mw_meta fed_work) = ''c1''" by (simp add: fed_work_def)
  from collection_complete [OF c a l] obtain m w' where
    r: "run_state (collectPages 1 0 []) fed_world = (Inr (Some m), w')" and
    k: "\<forall>key cl. look m key cl =
      (case filter (\<lambda>mw. appset_of mw = key \<and> m_ns (mw_meta mw) = cl) (labelled_works fed_world) of
         [] \<Rightarrow> None | ws \<Rightarrow> work_status (last ws))" by blast
  have "look m (''team'', ''set'') ''c1'' = work_status fed_work"
    using k by (simp add: fed_labelled fed_appset n)
  with r fed_status show ?thesis by metis
qed

theorem report_conditions_witness:
  "map cl_cluster (snd (generateSummary
     [(''c2'', \<lparr>os_health = ''h'', os_sync = ''s'', os_started_at = [], os_phase = [], os_revision = [], os_app = []\<rparr>),
      (''c1'', \<lparr>os_health = ''h'', os_sync = ''s'', os_started_at = [], os_phase = [], os_revision = [], os_app = []\<rparr>)] []))
   = [''c1'', ''c2'']"
proof -
  define st where "st = \<lparr>os_health = ''h'', os_sync = ''s'', os_started_at = [], os_phase = [], os_revision = [], os_app = []\<rparr>"
  let ?c = "snd (generateSummary [(''c2'', st), (''c1'', st)] [])"
  have "distinct (map fst [(''c2'', st), (''c1'', st)])" by simp
  from report_conditions [OF this, of "[]"]
  have "sorted (map cl_cluster ?c)" "distinct (map cl_cluster ?c)" "set (map cl_cluster ?c) = set [''c1'', ''c2'']"
    by auto
  moreover have "sorted [''c1'', ''c2'']" by simp
  ultimately have "map cl_cluster ?c = [''c1'', ''c2'']"
    by (intro sorted_distinct_set_unique) simp_all
  then show ?thesis by (simp add: st_def)
qed

theorem orphan_cleanup_safe_witness:
  "let w' = snd (run_state cleanupOrphanReports fed_world) in
   map_of (w_works w') (''c1'', ''shop-12345'') = Some fed_work"
proof -
  have h: "honest fed_world" "keyed mw_meta (w_works fed_world)" "keyed ar_meta (w_reports fed_world)"
    by (simp_all add: fed_world_def empty_world_def honest_def keyed_def fed_work_def)
  have "map_of (w_works fed_world) (''c1'', ''shop-12345'') = Some fed_work" "w_reports fed_world = []"
    by (simp_all add: fed_world_def empty_world_def)
  with orphan_cleanup_safe [OF h, of "(''c1'', ''shop-12345'')"] show ?thesis by (auto simp: Let_def)
qed


theorem trimmed_file_kept_witness:
  "appset_of_file (file_of_appset (''team'', ''delay'')) \<noteq> Some (''team'', ''delay'')"
  using trimmed_file_kept [of "''team''" "''delay''"] by simp

theorem disabled_tick_inert_witness:
  "fst (run_state (tick sample_env 1 (\<lambda>_. Inl (ErrText ''no file'')) (Inr [''a_b.yaml'']))
     (empty_world\<lparr>w_configmaps := [((''ocm'', ConfigMapName),
        \<lparr>cm_meta = plain_meta ConfigMapName ''ocm'' [] [], cm_data = [(ConfigMapDataKey, ''off'')]\<rparr>)]\<rparr>)) = []"
proof -
  let ?cm = "\<lparr>cm_meta = plain_meta ConfigMapName ''ocm'' [] [], cm_data = [(ConfigMapDataKey, ''off'')]\<rparr>"
  have "disabled (parse sample_env ?cm)"
    by (simp add: parse_def sample_env_def disabled_def)
  then have "disabled (fst (run_state (LoadOrCreate sample_env)
      (empty_world\<lparr>w_configmaps := [((''ocm'', ConfigMapName), ?cm)]\<rparr>)))"
    by (simp add: LoadOrCreate_def sample_env_facts run_simps verdict_def empty_world_def)
  from disabled_tick_inert [OF this] show ?thesis by blast
qed

end
