(* ===== verification/Conditions.thy ===== *)
theory Conditions
  imports Kube "HOL-Library.Multiset"
begin

text \<open>
  The status conditions of a GitOpsCluster: \<open>SetCondition\<close> and \<open>GetCondition\<close> of
  \<open>pkg/apis/apps/v1beta1/gitopscluster_types.go\<close>, and the functions of
  \<open>pkg/controller/gitopscluster/gitopscluster_controller.go\<close> that initialise conditions, apply
  updates and derive the overall \<open>Ready\<close> condition. The clock (\<open>metav1.Now()\<close>) is an argument.
\<close>

section \<open>Condition types and reasons\<close>

definition GitOpsClusterReady :: string where "GitOpsClusterReady = ''Ready''"
definition GitOpsClusterPlacementResolved :: string where
  "GitOpsClusterPlacementResolved = ''PlacementResolved''"
definition GitOpsClusterArgoServerVerified :: string where
  "GitOpsClusterArgoServerVerified = ''ArgoServerVerified''"
definition GitOpsClusterApplicationSetResourcesReady :: string where
  "GitOpsClusterApplicationSetResourcesReady = ''ApplicationSetResourcesReady''"
definition GitOpsClusterPolicyTemplateReady :: string where
  "GitOpsClusterPolicyTemplateReady = ''PolicyTemplateReady''"
definition GitOpsClusterClustersRegistered :: string where
  "GitOpsClusterClustersRegistered = ''ClustersRegistered''"
definition GitOpsClusterAddOnTemplateReady :: string where
  "GitOpsClusterAddOnTemplateReady = ''AddOnTemplateReady''"
definition GitOpsClusterAddOnDeploymentConfigsReady :: string where
  "GitOpsClusterAddOnDeploymentConfigsReady = ''AddOnDeploymentConfigsReady''"
definition GitOpsClusterManagedClusterAddOnsReady :: string where
  "GitOpsClusterManagedClusterAddOnsReady = ''ManagedClusterAddOnsReady''"
definition GitOpsClusterArgoCDAgentPrereqsReady :: string where
  "GitOpsClusterArgoCDAgentPrereqsReady = ''ArgoCDAgentPrereqsReady''"
definition GitOpsClusterCertificatesReady :: string where
  "GitOpsClusterCertificatesReady = ''CertificatesReady''"
definition GitOpsClusterManifestWorksApplied :: string where
  "GitOpsClusterManifestWorksApplied = ''ManifestWorksApplied''"
definition GitOpsClusterOLMSubscriptionReady :: string where
  "GitOpsClusterOLMSubscriptionReady = ''OLMSubscriptionReady''"
definition GitOpsClusterArgoCDPolicyReady :: string where
  "GitOpsClusterArgoCDPolicyReady = ''ArgoCDPolicyReady''"

lemmas condition_type_defs =
  GitOpsClusterReady_def GitOpsClusterPlacementResolved_def GitOpsClusterArgoServerVerified_def
  GitOpsClusterApplicationSetResourcesReady_def GitOpsClusterPolicyTemplateReady_def
  GitOpsClusterClustersRegistered_def GitOpsClusterAddOnTemplateReady_def
  GitOpsClusterAddOnDeploymentConfigsReady_def GitOpsClusterManagedClusterAddOnsReady_def
  GitOpsClusterArgoCDAgentPrereqsReady_def GitOpsClusterCertificatesReady_def
  GitOpsClusterManifestWorksApplied_def GitOpsClusterOLMSubscriptionReady_def
  GitOpsClusterArgoCDPolicyReady_def

section \<open>SetCondition and GetCondition\<close>

fun set_cond :: "string \<Rightarrow> string \<Rightarrow> cond_status \<Rightarrow> string \<Rightarrow> string \<Rightarrow> condition list \<Rightarrow> condition list" where
  "set_cond now t st reason message [] =
     [\<lparr>c_type = t, c_status = st, c_reason = reason, c_message = message, c_time = now\<rparr>]"
| "set_cond now t st reason message (c # cs) =
     (if c_type c = t then
        (if c_status c \<noteq> st
         then \<lparr>c_type = t, c_status = st, c_reason = reason, c_message = message, c_time = now\<rparr>
         else c\<lparr>c_reason := reason, c_message := message\<rparr>) # cs
      else c # set_cond now t st reason message cs)"

definition conditions :: "gitops_cluster \<Rightarrow> condition list" where
  "conditions g = st_conditions (gc_status g)"

definition with_conditions :: "(condition list \<Rightarrow> condition list) \<Rightarrow> gitops_cluster \<Rightarrow> gitops_cluster" where
  "with_conditions f g = g\<lparr>gc_status := (gc_status g)\<lparr>st_conditions := f (conditions g)\<rparr>\<rparr>"

definition SetCondition ::
  "string \<Rightarrow> string \<Rightarrow> cond_status \<Rightarrow> string \<Rightarrow> string \<Rightarrow> gitops_cluster \<Rightarrow> gitops_cluster" where
  "SetCondition now t st reason message = with_conditions (set_cond now t st reason message)"

definition GetCondition :: "gitops_cluster \<Rightarrow> string \<Rightarrow> condition option" where
  "GetCondition g t = find (\<lambda>c. c_type c = t) (conditions g)"

definition IsConditionTrue :: "gitops_cluster \<Rightarrow> string \<Rightarrow> bool" where
  "IsConditionTrue g t = (case GetCondition g t of Some c \<Rightarrow> c_status c = CTrue | None \<Rightarrow> False)"

definition IsConditionFalse :: "gitops_cluster \<Rightarrow> string \<Rightarrow> bool" where
  "IsConditionFalse g t = (case GetCondition g t of Some c \<Rightarrow> c_status c = CFalse | None \<Rightarrow> False)"

section \<open>Configuration flags\<close>

definition olm_default :: "string \<Rightarrow> string \<Rightarrow> string" where
  "olm_default dflt v = (if v \<noteq> [] then v else dflt)"

definition IsOLMSubscriptionEnabled :: "gitops_cluster \<Rightarrow> bool" where
  "IsOLMSubscriptionEnabled g =
     (case gs_addon (gc_spec g) of
        None \<Rightarrow> False
      | Some a \<Rightarrow>
          (if ad_enabled a \<noteq> Some True then False
           else (case ad_olm a of
                   None \<Rightarrow> False
                 | Some s \<Rightarrow> (case olm_enabled s of None \<Rightarrow> False | Some b \<Rightarrow> b))))"

text \<open>The six values of \<open>GetOLMSubscriptionValues\<close>, in its order.\<close>

definition GetOLMSubscriptionValues ::
  "olm_spec option \<Rightarrow> string \<times> string \<times> string \<times> string \<times> string \<times> string" where
  "GetOLMSubscriptionValues os =
     (case os of
        None \<Rightarrow> (''openshift-gitops-operator'', ''openshift-gitops-operator'', ''latest'',
                  ''redhat-operators'', ''openshift-marketplace'', ''Automatic'')
      | Some s \<Rightarrow>
          (olm_default ''openshift-gitops-operator'' (olm_name s),
           olm_default ''openshift-gitops-operator'' (olm_ns s),
           olm_default ''latest'' (olm_channel s),
           olm_default ''redhat-operators'' (olm_source s),
           olm_default ''openshift-marketplace'' (olm_source_ns s),
           olm_default ''Automatic'' (olm_approval s)))"

definition HasCustomOLMSubscriptionValues :: "olm_spec option \<Rightarrow> bool" where
  "HasCustomOLMSubscriptionValues os =
     (case os of
        None \<Rightarrow> False
      | Some s \<Rightarrow> olm_name s \<noteq> [] \<or> olm_ns s \<noteq> [] \<or> olm_channel s \<noteq> [] \<or>
                  olm_source s \<noteq> [] \<or> olm_source_ns s \<noteq> [] \<or> olm_approval s \<noteq> [])"

text \<open>\<open>GetGitOpsAddonStatus\<close>: whether the addon and the agent are enabled, nil pointers as false.\<close>

definition GetGitOpsAddonStatus :: "gitops_cluster \<Rightarrow> bool \<times> bool" where
  "GetGitOpsAddonStatus g =
     (case gs_addon (gc_spec g) of
        None \<Rightarrow> (False, False)
      | Some a \<Rightarrow>
          ((case ad_enabled a of None \<Rightarrow> False | Some b \<Rightarrow> b),
           (case ad_agent a of
              None \<Rightarrow> False
            | Some ag \<Rightarrow> (case ag_enabled ag of None \<Rightarrow> False | Some b \<Rightarrow> b))))"

abbreviation addonEnabled :: "gitops_cluster \<Rightarrow> bool" where
  "addonEnabled g \<equiv> fst (GetGitOpsAddonStatus g)"

abbreviation agentEnabled :: "gitops_cluster \<Rightarrow> bool" where
  "agentEnabled g \<equiv> snd (GetGitOpsAddonStatus g)"

definition agent_of :: "gitops_cluster \<Rightarrow> agent_spec option" where
  "agent_of g = (case gs_addon (gc_spec g) of None \<Rightarrow> None | Some addon \<Rightarrow> ad_agent addon)"

definition skipHubCAPropagationAnnotation :: string where
  "skipHubCAPropagationAnnotation = ''apps.open-cluster-management.io/skip-hub-ca-propagation''"

definition hasSkipHubCAPropagationAnnotation :: "gitops_cluster \<Rightarrow> bool" where
  "hasSkipHubCAPropagationAnnotation g \<longleftrightarrow>
     mget (m_annos (gc_meta g)) skipHubCAPropagationAnnotation = ''true''"

section \<open>Initialising conditions\<close>

definition initializeCondition :: "string \<Rightarrow> string \<Rightarrow> gitops_cluster \<Rightarrow> gitops_cluster" where
  "initializeCondition now t g =
     (if GetCondition g t = None
      then SetCondition now t CUnknown ''Reconciling'' ''Reconciliation in progress'' g
      else g)"

text \<open>The condition types that apply to a GitOpsCluster, in the order they are initialised.\<close>

definition applicable_types :: "gitops_cluster \<Rightarrow> string list" where
  "applicable_types g =
     [GitOpsClusterReady, GitOpsClusterPlacementResolved, GitOpsClusterArgoServerVerified,
      GitOpsClusterApplicationSetResourcesReady, GitOpsClusterPolicyTemplateReady,
      GitOpsClusterClustersRegistered]
     @ (if addonEnabled g then
          [GitOpsClusterAddOnDeploymentConfigsReady, GitOpsClusterManagedClusterAddOnsReady,
           GitOpsClusterArgoCDPolicyReady] else [])
     @ (if IsOLMSubscriptionEnabled g then [GitOpsClusterOLMSubscriptionReady] else [])
     @ (if agentEnabled g then
          [GitOpsClusterAddOnTemplateReady, GitOpsClusterArgoCDAgentPrereqsReady,
           GitOpsClusterCertificatesReady]
          @ (if \<not> hasSkipHubCAPropagationAnnotation g then [GitOpsClusterManifestWorksApplied] else [])
        else [])"

definition initializeConditions :: "string \<Rightarrow> gitops_cluster \<Rightarrow> gitops_cluster" where
  "initializeConditions now g = fold (initializeCondition now) (applicable_types g) g"

section \<open>The Ready condition\<close>

definition failedConditions :: "gitops_cluster \<Rightarrow> string list" where
  "failedConditions g =
     map c_type (filter (\<lambda>c. c_type c \<noteq> GitOpsClusterReady \<and> c_status c = CFalse) (conditions g))"

definition criticalConditions :: "gitops_cluster \<Rightarrow> string list" where
  "criticalConditions g =
     [GitOpsClusterPlacementResolved, GitOpsClusterArgoServerVerified, GitOpsClusterClustersRegistered]
     @ filter (\<lambda>t. case GetCondition g t of None \<Rightarrow> False | Some c \<Rightarrow> c_status c \<noteq> CUnknown)
         [GitOpsClusterApplicationSetResourcesReady, GitOpsClusterPolicyTemplateReady]
     @ (if addonEnabled g then
          [GitOpsClusterAddOnDeploymentConfigsReady, GitOpsClusterManagedClusterAddOnsReady,
           GitOpsClusterArgoCDPolicyReady] else [])
     @ (if IsOLMSubscriptionEnabled g then [GitOpsClusterOLMSubscriptionReady] else [])
     @ (if agentEnabled g then
          [GitOpsClusterAddOnTemplateReady, GitOpsClusterArgoCDAgentPrereqsReady,
           GitOpsClusterCertificatesReady]
          @ (if \<not> hasSkipHubCAPropagationAnnotation g then [GitOpsClusterManifestWorksApplied] else [])
        else [])"

text \<open>The loop over the critical conditions, which stops at the first one that is not True.\<close>

fun all_ready :: "gitops_cluster \<Rightarrow> string list \<Rightarrow> bool" where
  "all_ready g [] = True"
| "all_ready g (t # ts) =
     (case GetCondition g t of
        None \<Rightarrow> False
      | Some c \<Rightarrow> (if c_status c = CUnknown then False
                   else if c_status c \<noteq> CTrue then False
                   else all_ready g ts))"

definition updateReadyCondition :: "string \<Rightarrow> gitops_cluster \<Rightarrow> gitops_cluster" where
  "updateReadyCondition now g =
     (let failed = failedConditions g in
      if failed \<noteq> [] then
        SetCondition now GitOpsClusterReady CFalse ''ClusterRegistrationFailed''
          (''One or more components have failed: '' @ join_with '', '' failed) g
      else if all_ready g (criticalConditions g) then
        SetCondition now GitOpsClusterReady CTrue ''Success''
          ''GitOpsCluster is ready and all components are functioning correctly'' g
      else
        SetCondition now GitOpsClusterReady CUnknown ''Reconciling''
          ''GitOpsCluster components are still being processed'' g)"

record condition_update =
  cu_status :: cond_status
  cu_reason :: string
  cu_message :: string

definition apply_update :: "string \<Rightarrow> string \<times> condition_update \<Rightarrow> gitops_cluster \<Rightarrow> gitops_cluster" where
  "apply_update now tu g =
     SetCondition now (fst tu) (cu_status (snd tu)) (cu_reason (snd tu)) (cu_message (snd tu)) g"

definition updateGitOpsClusterConditions ::
  "string \<Rightarrow> string \<Rightarrow> string \<Rightarrow> (string \<times> condition_update) list \<Rightarrow> gitops_cluster \<Rightarrow> gitops_cluster" where
  "updateGitOpsClusterConditions now phase message updates g =
     updateReadyCondition now
       (fold (apply_update now) updates
         (g\<lparr>gc_status := (gc_status g)\<lparr>st_updated := now, st_phase := phase, st_message := message\<rparr>\<rparr>))"


section \<open>Lookup laws\<close>

text \<open>
  What the conditions list promises its users: a slot per condition type that \<open>put\<close> fills and
  leaves every other slot alone, and that never grows a second entry for a type.
\<close>

locale condition_slots =
  fixes look :: "'g \<Rightarrow> string \<Rightarrow> 'c option"
    and put :: "'u \<Rightarrow> string \<Rightarrow> 'g \<Rightarrow> 'g"
    and merge :: "'u \<Rightarrow> string \<Rightarrow> 'c option \<Rightarrow> 'c"
  assumes look_put: "look (put u t g) t = Some (merge u t (look g t))"
    and look_put_other: "t' \<noteq> t \<Longrightarrow> look (put u t g) t' = look g t'"
begin

definition puts :: "(string \<times> 'u) list \<Rightarrow> 'g \<Rightarrow> 'g" where
  "puts tus g = fold (\<lambda>tu. put (snd tu) (fst tu)) tus g"

lemma puts_other: "t \<notin> fst ` set tus \<Longrightarrow> look (puts tus g) t = look g t"
  by (induction tus arbitrary: g) (auto simp: puts_def look_put_other)

lemma puts_at:
  assumes "distinct (map fst tus)" and "(t, u) \<in> set tus"
  shows "look (puts tus g) t = Some (merge u t (look g t))"
  using assms
proof (induction tus arbitrary: g)
  case (Cons tu tus)
  show ?case
  proof (cases "tu = (t, u)")
    case True
    with Cons.prems have "t \<notin> fst ` set tus" by simp
    from puts_other [OF this, of "put u t g"] True show ?thesis
      by (simp add: puts_def look_put)
  next
    case False
    with Cons.prems have *: "(t, u) \<in> set tus" "fst tu \<noteq> t" "distinct (map fst tus)"
      by (auto simp: rev_image_eqI)
    from Cons.IH [OF *(3,1), of "put (snd tu) (fst tu) g"] *(2) show ?thesis
      by (simp add: puts_def look_put_other)
  qed
qed simp

lemma puts_perm:
  assumes "distinct (map fst tus)" and "mset tus = mset tus'"
  shows "look (puts tus g) t = look (puts tus' g) t"
proof -
  have d': "distinct (map fst tus')" and s: "set tus = set tus'"
    using assms mset_eq_setD [OF assms(2)] mset_eq_imp_distinct_iff [of "map fst tus" "map fst tus'"]
    by (metis mset_map, simp)
  show ?thesis
  proof (cases "t \<in> fst ` set tus")
    case True
    then obtain u where "(t, u) \<in> set tus" by auto
    then show ?thesis
      using puts_at [OF assms(1)] puts_at [OF d'] s by simp
  next
    case False
    then show ?thesis using s by (simp add: puts_other)
  qed
qed

end

lemma conditions_with [simp]: "conditions (with_conditions f g) = f (conditions g)"
  by (simp add: conditions_def with_conditions_def)

lemma spec_with [simp]:
  "gc_spec (with_conditions f g) = gc_spec g" "gc_meta (with_conditions f g) = gc_meta g"
  by (simp_all add: with_conditions_def)

lemma spec_SetCondition [simp]:
  "gc_spec (SetCondition now t st r m g) = gc_spec g"
  "gc_meta (SetCondition now t st r m g) = gc_meta g"
  by (simp_all add: SetCondition_def)

definition merge_cond :: "string \<Rightarrow> condition_update \<Rightarrow> string \<Rightarrow> condition option \<Rightarrow> condition" where
  "merge_cond now u t old =
     \<lparr>c_type = t, c_status = cu_status u, c_reason = cu_reason u, c_message = cu_message u,
      c_time = (case old of Some c \<Rightarrow> if c_status c = cu_status u then c_time c else now | None \<Rightarrow> now)\<rparr>"

abbreviation cond_of :: "condition list \<Rightarrow> string \<Rightarrow> condition option" where
  "cond_of cs t \<equiv> find (\<lambda>c. c_type c = t) cs"

lemma cond_of_type: "cond_of cs t = Some c \<Longrightarrow> c_type c = t"
  by (auto simp: find_Some_iff)

lemma cond_of_mem: "cond_of cs t = Some c \<Longrightarrow> c \<in> set cs"
  by (auto simp: find_Some_iff)

lemma set_cond_same:
  "cond_of (set_cond now t st r m cs) t =
     Some (merge_cond now \<lparr>cu_status = st, cu_reason = r, cu_message = m\<rparr> t (cond_of cs t))"
  by (induction now t st r m cs rule: set_cond.induct) (auto simp: merge_cond_def)

lemma set_cond_other: "t' \<noteq> t \<Longrightarrow> cond_of (set_cond now t st r m cs) t' = cond_of cs t'"
  by (induction now t st r m cs rule: set_cond.induct) auto

lemma set_cond_types:
  "map c_type (set_cond now t st r m cs) =
     (if t \<in> c_type ` set cs then map c_type cs else map c_type cs @ [t])"
  by (induction now t st r m cs rule: set_cond.induct) (auto simp: image_iff)

lemma condition_update_eta [simp]:
  "\<lparr>cu_status = cu_status u, cu_reason = cu_reason u, cu_message = cu_message u\<rparr> = (u :: condition_update)"
  by (cases u) simp

interpretation slots: condition_slots GetCondition "\<lambda>u t g. apply_update now (t, u) g" "merge_cond now"
  for now :: string
  by unfold_locales
     (simp_all add: apply_update_def SetCondition_def GetCondition_def set_cond_same set_cond_other)

lemma GetCondition_SetCondition:
  "GetCondition (SetCondition now t st r m g) t' =
     (if t' = t then Some (merge_cond now \<lparr>cu_status = st, cu_reason = r, cu_message = m\<rparr> t (GetCondition g t))
      else GetCondition g t')"
  by (simp add: SetCondition_def GetCondition_def set_cond_same set_cond_other)

lemma merge_cond_simps [simp]:
  "c_type (merge_cond now u t old) = t"
  "c_status (merge_cond now u t old) = cu_status u"
  "c_reason (merge_cond now u t old) = cu_reason u"
  "c_message (merge_cond now u t old) = cu_message u"
  by (simp_all add: merge_cond_def)

lemma puts_fold: "condition_slots.puts (\<lambda>u t g. apply_update now (t, u) g) us g = fold (apply_update now) us g"
  by (simp add: slots.puts_def)

definition distinct_conditions :: "gitops_cluster \<Rightarrow> bool" where
  "distinct_conditions g \<longleftrightarrow> distinct (map c_type (conditions g))"

lemma distinct_SetCondition [simp]:
  "distinct_conditions g \<Longrightarrow> distinct_conditions (SetCondition now t st r m g)"
  by (auto simp: distinct_conditions_def SetCondition_def set_cond_types)

lemma distinct_fold_updates:
  "distinct_conditions g \<Longrightarrow> distinct_conditions (fold (apply_update now) us g)"
  by (induction us arbitrary: g) (auto simp: apply_update_def)

lemma spec_fold_updates [simp]:
  "gc_spec (fold (apply_update now) us g) = gc_spec g"
  "gc_meta (fold (apply_update now) us g) = gc_meta g"
  by (induction us arbitrary: g) (auto simp: apply_update_def)

section \<open>The Ready condition, abstractly\<close>

text \<open>
  The contract of \<open>updateReadyCondition\<close>: False when some other condition is False, True when none
  is and every condition the configuration requires is True, Unknown otherwise.
\<close>

definition ready_spec :: "gitops_cluster \<Rightarrow> cond_status" where
  "ready_spec g =
     (if \<exists>c \<in> set (conditions g). c_type c \<noteq> GitOpsClusterReady \<and> c_status c = CFalse then CFalse
      else if \<forall>t \<in> set (criticalConditions g). IsConditionTrue g t then CTrue
      else CUnknown)"

lemma all_ready_iff: "all_ready g ts \<longleftrightarrow> (\<forall>t \<in> set ts. IsConditionTrue g t)"
  by (induction g ts rule: all_ready.induct) (auto simp: IsConditionTrue_def split: option.splits)

lemma failedConditions_empty:
  "failedConditions g = [] \<longleftrightarrow>
     \<not> (\<exists>c \<in> set (conditions g). c_type c \<noteq> GitOpsClusterReady \<and> c_status c = CFalse)"
  by (auto simp: failedConditions_def filter_empty_conv)

lemma updateReadyCondition_ex:
  "\<exists>r m. updateReadyCondition now g = SetCondition now GitOpsClusterReady (ready_spec g) r m g"
proof -
  consider "failedConditions g \<noteq> []" | "failedConditions g = []" "all_ready g (criticalConditions g)"
    | "failedConditions g = []" "\<not> all_ready g (criticalConditions g)" by blast
  then show ?thesis
  proof cases
    case 1
    then have "ready_spec g = CFalse"
      unfolding failedConditions_empty ready_spec_def by simp
    with 1 show ?thesis by (auto simp: updateReadyCondition_def Let_def)
  next
    case 2
    then have "ready_spec g = CTrue"
      unfolding failedConditions_empty ready_spec_def all_ready_iff by simp
    with 2 show ?thesis by (auto simp: updateReadyCondition_def Let_def)
  next
    case 3
    then have "ready_spec g = CUnknown"
      unfolding failedConditions_empty ready_spec_def all_ready_iff by simp
    with 3 show ?thesis by (auto simp: updateReadyCondition_def Let_def)
  qed
qed

lemma updateReadyCondition_cases:
  obtains r m where
    "updateReadyCondition now g = SetCondition now GitOpsClusterReady (ready_spec g) r m g"
  using updateReadyCondition_ex by blast

lemma updateReady_status:
  "map_option c_status (GetCondition (updateReadyCondition now g) GitOpsClusterReady) = Some (ready_spec g)"
  by (rule updateReadyCondition_cases [of now g]) (simp add: GetCondition_SetCondition)

lemma updateReady_other:
  "t \<noteq> GitOpsClusterReady \<Longrightarrow> GetCondition (updateReadyCondition now g) t = GetCondition g t"
  by (rule updateReadyCondition_cases [of now g]) (simp add: GetCondition_SetCondition)

lemma updateReady_frame [simp]:
  "gc_spec (updateReadyCondition now g) = gc_spec g"
  "gc_meta (updateReadyCondition now g) = gc_meta g"
  "distinct_conditions g \<Longrightarrow> distinct_conditions (updateReadyCondition now g)"
  by (rule updateReadyCondition_cases [of now g]; simp)+

section \<open>Properties\<close>

lemma set_cond_rest: "filter (\<lambda>c. c_type c \<noteq> t) (set_cond now t st r m cs) = filter (\<lambda>c. c_type c \<noteq> t) cs"
  by (induction now t st r m cs rule: set_cond.induct) auto

lemma failing_filter:
  "(\<exists>c \<in> set cs. c_type c \<noteq> t \<and> c_status c = CFalse) \<longleftrightarrow>
   (\<exists>c \<in> set (filter (\<lambda>c. c_type c \<noteq> t) cs). c_status c = CFalse)"
  by auto

lemma critical_not_Ready: "GitOpsClusterReady \<notin> set (criticalConditions g)"
  by (auto simp: criticalConditions_def condition_type_defs)

lemma ready_spec_Ready [simp]:
  "ready_spec (SetCondition now GitOpsClusterReady st r m g) = ready_spec g"
proof -
  let ?g = "SetCondition now GitOpsClusterReady st r m g"
  have get: "t \<noteq> GitOpsClusterReady \<Longrightarrow> GetCondition ?g t = GetCondition g t" for t
    by (simp add: GetCondition_SetCondition)
  have flags: "GetGitOpsAddonStatus ?g = GetGitOpsAddonStatus g"
    "IsOLMSubscriptionEnabled ?g = IsOLMSubscriptionEnabled g"
    "hasSkipHubCAPropagationAnnotation ?g = hasSkipHubCAPropagationAnnotation g"
    by (simp_all add: GetGitOpsAddonStatus_def IsOLMSubscriptionEnabled_def
        hasSkipHubCAPropagationAnnotation_def)
  have "GitOpsClusterApplicationSetResourcesReady \<noteq> GitOpsClusterReady"
    "GitOpsClusterPolicyTemplateReady \<noteq> GitOpsClusterReady"
    by (simp_all add: condition_type_defs)
  then have crit: "criticalConditions ?g = criticalConditions g"
    by (simp add: criticalConditions_def get flags)
  have "(\<forall>t \<in> set (criticalConditions g). IsConditionTrue ?g t) =
        (\<forall>t \<in> set (criticalConditions g). IsConditionTrue g t)"
    using critical_not_Ready [of g] by (metis IsConditionTrue_def get)
  moreover have "(\<exists>c \<in> set (conditions ?g). c_type c \<noteq> GitOpsClusterReady \<and> c_status c = CFalse) \<longleftrightarrow>
      (\<exists>c \<in> set (conditions g). c_type c \<noteq> GitOpsClusterReady \<and> c_status c = CFalse)"
    unfolding failing_filter by (simp add: SetCondition_def set_cond_rest)
  ultimately show ?thesis
    unfolding ready_spec_def crit by simp
qed

lemma ready_spec_updateReady [simp]: "ready_spec (updateReadyCondition now g) = ready_spec g"
  by (rule updateReadyCondition_cases [of now g]) simp

lemma find_distinct_iff:
  "distinct (map c_type cs) \<Longrightarrow> c \<in> set cs \<longleftrightarrow> cond_of cs (c_type c) = Some c"
  by (induction cs) (auto simp: find_Some_iff rev_image_eqI)

lemma ready_spec_cong:
  assumes "distinct_conditions g" "distinct_conditions h"
    and get: "\<And>t. GetCondition g t = GetCondition h t"
    and "gc_spec g = gc_spec h" "gc_meta g = gc_meta h"
  shows "ready_spec g = ready_spec h"
proof -
  have "set (conditions g) = set (conditions h)"
    using assms(1-3) by (auto simp: distinct_conditions_def GetCondition_def find_distinct_iff)
  moreover have "criticalConditions g = criticalConditions h"
    using assms by (simp add: criticalConditions_def GetGitOpsAddonStatus_def
        IsOLMSubscriptionEnabled_def hasSkipHubCAPropagationAnnotation_def)
  ultimately show ?thesis
    by (simp add: ready_spec_def IsConditionTrue_def get)
qed

abbreviation stamped :: "string \<Rightarrow> string \<Rightarrow> string \<Rightarrow> gitops_cluster \<Rightarrow> gitops_cluster" where
  "stamped now phase message g \<equiv>
     g\<lparr>gc_status := (gc_status g)\<lparr>st_updated := now, st_phase := phase, st_message := message\<rparr>\<rparr>"

lemma stamped_simps [simp]:
  "conditions (stamped now p m g) = conditions g"
  "GetCondition (stamped now p m g) t = GetCondition g t"
  "distinct_conditions (stamped now p m g) = distinct_conditions g"
  by (simp_all add: conditions_def GetCondition_def distinct_conditions_def)

text \<open>
  after \<open>SetCondition\<close> the condition of that type has exactly the given status, reason and
  message, and keeps its transition time if its status did not change (otherwise it is now); the
  condition of every other type is what it was.
\<close>
theorem SetCondition_lookup:
  "GetCondition (SetCondition now t st reason message g) t' =
     (if t' = t
      then Some \<lparr>c_type = t, c_status = st, c_reason = reason, c_message = message,
                 c_time = (case GetCondition g t of
                             Some c \<Rightarrow> if c_status c = st then c_time c else now
                           | None \<Rightarrow> now)\<rparr>
      else GetCondition g t')"
  by (simp add: GetCondition_SetCondition merge_cond_def split: option.splits)

text \<open>
  no update or initialisation ever leaves two conditions of one type in the status list (the
  CRD declares the list a map keyed by type).
\<close>
theorem conditions_stay_distinct:
  assumes "distinct_conditions g"
  shows "distinct_conditions (updateGitOpsClusterConditions now phase message updates g)
    \<and> distinct_conditions (initializeConditions now g)"
proof -
  have "distinct_conditions g \<Longrightarrow> distinct_conditions (fold (initializeCondition now) ts g)" for ts g
    by (induction ts arbitrary: g) (auto simp: initializeCondition_def)
  with assms show ?thesis
    by (simp add: updateGitOpsClusterConditions_def initializeConditions_def distinct_fold_updates)
qed


text \<open>
  a failing condition dominates: whatever phase is reported and whatever else is updated, once
  an update sets some condition other than Ready to False, Ready is False.
\<close>
theorem failed_update_not_ready:
  assumes "distinct (map fst updates)" and "(t, u) \<in> set updates"
    and "cu_status u = CFalse" and "t \<noteq> GitOpsClusterReady"
  shows "IsConditionFalse (updateGitOpsClusterConditions now phase message updates g) GitOpsClusterReady"
proof -
  let ?h = "fold (apply_update now) updates (stamped now phase message g)"
  from slots.puts_at [OF assms(1,2), of now "stamped now phase message g"]
  have "GetCondition ?h t = Some (merge_cond now u t (GetCondition g t))"
    by (simp add: puts_fold)
  then have "\<exists>c \<in> set (conditions ?h). c_type c = t \<and> c_status c = CFalse"
    using assms(3) by (intro bexI [of _ "merge_cond now u t (GetCondition g t)"])
      (simp_all add: GetCondition_def cond_of_mem)
  then have "ready_spec ?h = CFalse"
    using assms(4) by (auto simp: ready_spec_def)
  with updateReady_status [of now ?h] show ?thesis
    by (auto simp: updateGitOpsClusterConditions_def IsConditionFalse_def)
qed

text \<open>
  the order in which Go visits the update map does not matter: any two orders of the same
  updates give the same condition for every type but Ready, and the same Ready status.
\<close>
theorem update_order_irrelevant:
  fixes g now phase message updates updates'
  assumes "distinct_conditions g" and "distinct (map fst updates)" and "mset updates = mset updates'"
  defines "g1 \<equiv> updateGitOpsClusterConditions now phase message updates g"
    and "g2 \<equiv> updateGitOpsClusterConditions now phase message updates' g"
  shows "(t \<noteq> GitOpsClusterReady \<longrightarrow> GetCondition g1 t = GetCondition g2 t) \<and>
    map_option c_status (GetCondition g1 GitOpsClusterReady) =
    map_option c_status (GetCondition g2 GitOpsClusterReady)"
proof -
  let ?h = "\<lambda>us. fold (apply_update now) us (stamped now phase message g)"
  have get: "GetCondition (?h updates) t = GetCondition (?h updates') t" for t
    using slots.puts_perm [OF assms(2,3), of now "stamped now phase message g"] by (simp add: puts_fold)
  have "ready_spec (?h updates) = ready_spec (?h updates')"
    by (rule ready_spec_cong) (simp_all add: get distinct_fold_updates assms(1))
  then show ?thesis
    by (simp add: g1_def g2_def updateGitOpsClusterConditions_def updateReady_other updateReady_status get)
qed

text \<open>
  initialisation adds an Unknown condition for exactly the applicable types that have none,
  and changes no condition that is there.
\<close>
theorem initializeConditions_lookup:
  "GetCondition (initializeConditions now g) t =
     (case GetCondition g t of
        Some c \<Rightarrow> Some c
      | None \<Rightarrow>
          if t \<in> set (applicable_types g)
          then Some \<lparr>c_type = t, c_status = CUnknown, c_reason = ''Reconciling'',
                     c_message = ''Reconciliation in progress'', c_time = now\<rparr>
          else None)"
proof -
  have "GetCondition (fold (initializeCondition now) ts g) t =
     (case GetCondition g t of Some c \<Rightarrow> Some c
      | None \<Rightarrow> if t \<in> set ts then Some \<lparr>c_type = t, c_status = CUnknown, c_reason = ''Reconciling'',
                     c_message = ''Reconciliation in progress'', c_time = now\<rparr> else None)" for ts g
    by (induction ts arbitrary: g)
       (auto simp: initializeCondition_def GetCondition_SetCondition merge_cond_def split: option.splits)
  then show ?thesis
    by (simp add: initializeConditions_def)
qed

section \<open>Witnesses\<close>

definition sample_gitops :: gitops_cluster where
  "sample_gitops =
     \<lparr>gc_meta = plain_meta ''gc'' ''team'' [] [],
      gc_spec = \<lparr>gs_argo_ns = ''argo'', gs_placement = Some \<lparr>pr_kind = ''Placement'', pr_name = ''p'',
          pr_apiVersion = ''cluster.open-cluster-management.io/v1beta1''\<rparr>, gs_msa_ref = [], gs_addon = None,
          gs_blank_secrets = None, gs_policy_template = None\<rparr>,
      gc_status = \<lparr>st_updated = [], st_message = [], st_phase = [], st_conditions = []\<rparr>\<rparr>"

lemma sample_distinct: "distinct_conditions sample_gitops"
  by (simp add: sample_gitops_def distinct_conditions_def conditions_def)

theorem conditions_stay_distinct_witness:
  "distinct_conditions (initializeConditions ''t0'' sample_gitops)"
  using conditions_stay_distinct [OF sample_distinct, of "''t0''" "[]" "[]" "[]"] by simp

theorem failed_update_not_ready_witness:
  "IsConditionFalse (updateGitOpsClusterConditions ''t0'' ''successful'' []
     [(GitOpsClusterClustersRegistered, \<lparr>cu_status = CFalse, cu_reason = ''r'', cu_message = ''m''\<rparr>)]
     sample_gitops) GitOpsClusterReady"
  by (rule failed_update_not_ready
      [where t = GitOpsClusterClustersRegistered
        and u = "\<lparr>cu_status = CFalse, cu_reason = ''r'', cu_message = ''m''\<rparr>"])
     (simp_all add: condition_type_defs)

theorem update_order_irrelevant_witness:
  "let u = \<lparr>cu_status = CTrue, cu_reason = ''r'', cu_message = ''m''\<rparr>;
       us = [(GitOpsClusterPlacementResolved, u), (GitOpsClusterClustersRegistered, u)] in
   map_option c_status (GetCondition (updateGitOpsClusterConditions ''t'' [] [] us sample_gitops) GitOpsClusterReady)
   = map_option c_status (GetCondition (updateGitOpsClusterConditions ''t'' [] [] (rev us) sample_gitops) GitOpsClusterReady)"
proof -
  have "distinct (map fst [(GitOpsClusterPlacementResolved, u), (GitOpsClusterClustersRegistered, u)])" for u :: condition_update
    by (simp add: condition_type_defs)
  from update_order_irrelevant [OF sample_distinct this] show ?thesis
    by (simp add: Let_def)
qed

end
