(* ===== verification/ImportClusters.thy ===== *)
theory ImportClusters
  imports ClusterEvents Conditions JsonText Sha1
begin

text \<open>
  \<open>pkg/controller/gitopscluster/import_clusters.go\<close>: the Argo CD cluster secrets of the managed
  clusters. For each cluster a secret is built from the first source that works, written into the
  Argo CD namespace, and the secrets it replaces are cleaned up. The JSON decoder of the legacy
  configuration and the reachability of cluster URLs are the argument \<open>net\<close>.
\<close>

section \<open>Names\<close>

definition componentName :: string where "componentName = ''application-manager''"
definition clusterProxyServiceName :: string where "clusterProxyServiceName = ''cluster-proxy-addon-user''"
definition clusterProxyServiceNamespace :: string where "clusterProxyServiceNamespace = ''multicluster-engine''"
definition clusterProxyDefaultPort :: string where "clusterProxyDefaultPort = ''9092''"
definition serviceCAConfigMapName :: string where "serviceCAConfigMapName = ''openshift-service-ca.crt''"
definition serviceCAKey :: string where "serviceCAKey = ''service-ca.crt''"
definition legacyClusterSecretAnnotation :: string where
  "legacyClusterSecretAnnotation = ''apps.open-cluster-management.io/legacy-cluster-secret''"
definition clusterSecretSuffix :: string where "clusterSecretSuffix = ''-cluster-secret''"
definition labelKeyClusterAgentMapping :: string where
  "labelKeyClusterAgentMapping = ''argocd-agent.argoproj-labs.io/agent-name''"

definition argoSecretType :: string where "argoSecretType = ''argocd.argoproj.io/secret-type''"
definition clusterServerLabel :: string where
  "clusterServerLabel = ''apps.open-cluster-management.io/cluster-server''"
definition dataSourceLabel :: string where "dataSourceLabel = ''apps.open-cluster-management.io/data-source''"

lemmas secret_labels =
  argoSecretType_def ArgocdClusterSecretLabel_def ACMClusterNameLabel_def clusterServerLabel_def
  dataSourceLabel_def labelKeyClusterAgentMapping_def

datatype data_source =
  DataSourceClusterProxy | DataSourceManagedServiceAccount | DataSourceLegacySecret | DataSourceBlankSecret

abbreviation mc_name :: "managed_cluster \<Rightarrow> string" where "mc_name c \<equiv> m_name (mc_meta c)"
abbreviation mc_labels :: "managed_cluster \<Rightarrow> smap" where "mc_labels c \<equiv> m_labels (mc_meta c)"

text \<open>
  Library answers: the bearer token that decoding a configuration yields, whether a URL makes a valid
  request, and whether a request to it with a token and a CA bundle gets a response.
\<close>

record net =
  ne_token :: "string \<Rightarrow> goerr + string"
  ne_valid_url :: "string \<Rightarrow> bool"
  ne_reach :: "string \<Rightarrow> string \<Rightarrow> string \<Rightarrow> bool"

section \<open>URLs and labels\<close>

definition is_alnum :: "char \<Rightarrow> bool" where
  "is_alnum c \<longleftrightarrow>
     (let n = (of_char c :: nat) in 97 \<le> n \<and> n \<le> 122 \<or> 65 \<le> n \<and> n \<le> 90 \<or> 48 \<le> n \<and> n \<le> 57)"

definition truncateLabelValue :: "string \<Rightarrow> string" where
  "truncateLabelValue s =
     (let s' = (if length s > 63 then take 63 s else s) in trim_right_func (\<lambda>c. \<not> is_alnum c) s')"

definition has_http_prefix :: "string \<Rightarrow> bool" where
  "has_http_prefix url \<longleftrightarrow>
     has_prefix (trim_space url) ''http://'' \<or> has_prefix (trim_space url) ''https://''"

definition addHTTPSPrefix :: "string \<Rightarrow> string" where
  "addHTTPSPrefix url =
     (if url = [] then ''https://''
      else if \<not> has_http_prefix url then ''https://'' @ url else url)"

text \<open>The URL without protocol and port, for use in a label.\<close>

definition strip_protocol :: "string \<Rightarrow> string" where
  "strip_protocol url =
     (case str_index url ''://'' of Some (Suc i) \<Rightarrow> drop (Suc i + 3) url | _ \<Rightarrow> url)"

definition strip_port :: "string \<Rightarrow> string" where
  "strip_port url = (case str_index url '':'' of Some (Suc i) \<Rightarrow> take (Suc i) url | _ \<Rightarrow> url)"

definition strippedClusterURL :: "string \<Rightarrow> string" where
  "strippedClusterURL url = strip_port (strip_protocol url)"

definition getManagedClusterToken :: "net \<Rightarrow> string option \<Rightarrow> goerr + string" where
  "getManagedClusterToken net dataConfig =
     (case dataConfig of
        None \<Rightarrow> Inl (ErrText ''empty secret data config'')
      | Some raw \<Rightarrow>
          (case ne_token net raw of
             Inl e \<Rightarrow> Inl (Wrapped ''failed to unmarshal JSON'' e)
           | Inr tok \<Rightarrow> if tok = [] then Inl (ErrText ''bearerToken field is missing or empty'') else Inr tok))"

fun first_reachable :: "net \<Rightarrow> string \<Rightarrow> client_config list \<Rightarrow> string option" where
  "first_reachable net tok [] = None"
| "first_reachable net tok (c # cs) =
     (let url = addHTTPSPrefix (cc_url c) in
      if \<not> ne_valid_url net url then first_reachable net tok cs
      else if ne_reach net url tok (cc_ca c) then Some url
      else first_reachable net tok cs)"

definition getManagedClusterURL :: "net \<Rightarrow> managed_cluster \<Rightarrow> string \<Rightarrow> goerr + string" where
  "getManagedClusterURL net cluster tok =
     (case mc_configs cluster of
        [] \<Rightarrow> Inl (ErrText (''no client configs found for managed cluster: '' @ mc_name cluster))
      | [c] \<Rightarrow> Inr (addHTTPSPrefix (cc_url c))
      | c # cs \<Rightarrow>
          (case first_reachable net tok (c # cs) of
             Some url \<Rightarrow> Inr url
           | None \<Rightarrow> Inr (addHTTPSPrefix (cc_url c))))"

section \<open>Building a secret\<close>

definition cluster_labels :: "string \<Rightarrow> string \<Rightarrow> smap" where
  "cluster_labels cluster server =
     [(argoSecretType, ''cluster''), (ArgocdClusterSecretLabel, ''true''),
      (ACMClusterNameLabel, cluster), (clusterServerLabel, server)]"

definition new_secret :: "string \<Rightarrow> string \<Rightarrow> smap \<Rightarrow> smap \<Rightarrow> managed_cluster \<Rightarrow> secret" where
  "new_secret nm ns labels string_data cluster =
     \<lparr>s_meta = plain_meta nm ns (add_missing labels (mc_labels cluster)) [],
      s_type = ''Opaque'', s_data = [], s_string_data = string_data\<rparr>"

definition insecure_tls :: json where
  "insecure_tls = JObj [(''insecure'', JBool True)]"

definition secure_tls :: "string \<Rightarrow> json" where
  "secure_tls ca = JObj [(''insecure'', JBool False), (''caData'', JStr (base64_encode ca))]"

definition cluster_config :: "string \<Rightarrow> json \<Rightarrow> string" where
  "cluster_config tok tls = json_text (JObj [(''bearerToken'', JStr tok), (''tlsClientConfig'', tls)])"

definition or_default :: "string \<Rightarrow> string" where
  "or_default msaRef = (if msaRef = [] then componentName else msaRef)"

definition createBlankClusterSecret :: "string \<Rightarrow> managed_cluster \<Rightarrow> string \<Rightarrow> secret" where
  "createBlankClusterSecret argoNs cluster msaRef =
     new_secret (mc_name cluster @ ''-'' @ or_default msaRef @ clusterSecretSuffix) argoNs
       (cluster_labels (mc_name cluster) (mc_name cluster @ ''-control-plane'') @ [(dataSourceLabel, ''blank'')])
       [(''name'', mc_name cluster), (''server'', ''https://'' @ mc_name cluster @ ''-control-plane'')]
       cluster"

text \<open>The token and the CA of a managed service account.\<close>

definition GetManagedServiceAccountToken :: "string \<Rightarrow> string \<Rightarrow> (string \<times> string) api" where
  "GetManagedServiceAccountToken ns msaName0 =
     (let msaName = or_default msaName0 in do {
        a \<leftarrow> get_account (ns, msaName);
        case a of
          Inl e \<Rightarrow> State_Monad.return (Inl e)
        | Inr account \<Rightarrow>
            (case sa_token_ref account of
               None \<Rightarrow> State_Monad.return (Inl (ErrText
                  (''no token reference secret found in the managed service account: '' @ ns @ ''/'' @ msaName)))
             | Some ref \<Rightarrow> do {
                 s \<leftarrow> get_secret (ns, tr_name ref);
                 State_Monad.return (case s of
                   Inl e \<Rightarrow> Inl e
                 | Inr tokenSecret \<Rightarrow>
                     Inr (mget (s_data tokenSecret) ''token'', mget (s_data tokenSecret) ''ca.crt''))
               })
      })"

record proxy_info =
  px_port :: string
  px_available :: bool
  px_host :: string

definition GetClusterProxyInfo :: "(world, proxy_info \<times> goerr option) state" where
  "GetClusterProxyInfo = do {
     s \<leftarrow> get_service (clusterProxyServiceNamespace, clusterProxyServiceName);
     State_Monad.return (case s of
       Inl e \<Rightarrow>
         (let info = \<lparr>px_port = clusterProxyDefaultPort, px_available = False, px_host = []\<rparr> in
          if is_not_found e then (info, None) else (info, Some e))
     | Inr svc \<Rightarrow>
         (let port = (case sv_ports svc of p # _ \<Rightarrow> itoa (sp_port p) | [] \<Rightarrow> clusterProxyDefaultPort) in
          (\<lparr>px_port = port, px_available = True,
            px_host = clusterProxyServiceName @ ''.'' @ clusterProxyServiceNamespace @ ''.svc.cluster.local:'' @ port\<rparr>,
           None)))
   }"

definition GetClusterProxyURL :: "proxy_info \<Rightarrow> string \<Rightarrow> string" where
  "GetClusterProxyURL info cluster =
     (if \<not> px_available info then [] else ''https://'' @ px_host info @ ''/'' @ cluster)"

definition GetServiceCAFromConfigMap :: "string \<Rightarrow> string api" where
  "GetServiceCAFromConfigMap ns = do {
     c \<leftarrow> get_configmap (ns, serviceCAConfigMapName);
     State_Monad.return (case c of
       Inl e \<Rightarrow> if is_not_found e then Inr [] else Inl e
     | Inr cm \<Rightarrow> (case map_of (cm_data cm) serviceCAKey of None \<Rightarrow> Inr [] | Some caCert \<Rightarrow> Inr caCert))
   }"

definition token_error :: "string \<Rightarrow> string \<Rightarrow> goerr \<Rightarrow> goerr" where
  "token_error ns msa e = Wrapped (''failed to get token from ManagedServiceAccount '' @ ns @ ''/'' @ msa) e"

definition no_token :: "string \<Rightarrow> string \<Rightarrow> goerr" where
  "no_token ns msa = ErrText (''token not found in ManagedServiceAccount '' @ ns @ ''/'' @ msa)"

text \<open>The secret both token-based options build from a server URL, a token and TLS settings.\<close>

definition token_secret ::
  "string \<Rightarrow> managed_cluster \<Rightarrow> string \<Rightarrow> string \<Rightarrow> string \<Rightarrow> json \<Rightarrow> string \<Rightarrow> secret" where
  "token_secret argoNs cluster msaName url tok tls source =
     new_secret (mc_name cluster @ ''-'' @ msaName @ ''-cluster-secret'') argoNs
       (cluster_labels (mc_name cluster) (truncateLabelValue (strippedClusterURL url)) @ [(dataSourceLabel, source)])
       [(''config'', cluster_config tok tls), (''name'', mc_name cluster), (''server'', url)]
       cluster"

definition CreateManagedClusterSecretViaClusterProxy ::
  "string \<Rightarrow> managed_cluster \<Rightarrow> proxy_info \<Rightarrow> string \<Rightarrow> bool \<Rightarrow> secret api" where
  "CreateManagedClusterSecretViaClusterProxy argoNs cluster info msaRef legacy =
     (if \<not> px_available info then State_Monad.return (Inl (ErrText ''cluster proxy service is not available''))
      else (let url = GetClusterProxyURL info (mc_name cluster); msaName = or_default msaRef in do {
        ca \<leftarrow> (if legacy then State_Monad.return (Inr [])
               else do {
                 c \<leftarrow> GetServiceCAFromConfigMap (mc_name cluster);
                 State_Monad.return (case c of
                   Inl e \<Rightarrow> Inl (Wrapped (''failed to get service CA for managed cluster '' @ mc_name cluster) e)
                 | Inr cert \<Rightarrow>
                     if cert = [] then Inl (ErrText (''service CA certificate not found for managed cluster '' @ mc_name cluster))
                     else Inr cert)
               });
        case ca of
          Inl e \<Rightarrow> State_Monad.return (Inl e)
        | Inr serviceCACert \<Rightarrow> do {
            t \<leftarrow> GetManagedServiceAccountToken (mc_name cluster) msaName;
            State_Monad.return (case t of
              Inl e \<Rightarrow> Inl (token_error (mc_name cluster) msaName e)
            | Inr (tok, _) \<Rightarrow>
                if tok = [] then Inl (no_token (mc_name cluster) msaName)
                else Inr (token_secret argoNs cluster msaName url tok
                       (if legacy then insecure_tls else secure_tls serviceCACert) ''cluster-proxy''))
          }
      }))"

fun first_url :: "client_config list \<Rightarrow> string \<times> string" where
  "first_url [] = ([], [])"
| "first_url (c # cs) = (if cc_url c \<noteq> [] then (cc_url c, cc_ca c) else first_url cs)"

definition tryManagedServiceAccountOption ::
  "string \<Rightarrow> managed_cluster \<Rightarrow> string \<Rightarrow> bool \<Rightarrow> secret api" where
  "tryManagedServiceAccountOption argoNs cluster msaRef legacy =
     (if mc_configs cluster = [] then
        State_Monad.return (Inl (ErrText (''managed cluster '' @ mc_name cluster @ '' has no client configs'')))
      else (case first_url (mc_configs cluster) of
        (url0, caBundle) \<Rightarrow>
          (if url0 = [] then
             State_Monad.return (Inl (ErrText (''managed cluster '' @ mc_name cluster @ '' has no valid URL in client configs'')))
           else (let url = (if \<not> has_http_prefix url0 then ''https://'' @ url0 else url0) in do {
             t \<leftarrow> GetManagedServiceAccountToken (mc_name cluster) msaRef;
             State_Monad.return (case t of
               Inl e \<Rightarrow> Inl (token_error (mc_name cluster) msaRef e)
             | Inr (tok, _) \<Rightarrow>
                 if tok = [] then Inl (no_token (mc_name cluster) msaRef)
                 else Inr (token_secret argoNs cluster (or_default msaRef) url tok
                        (if legacy then insecure_tls
                         else if length caBundle > 0 then secure_tls caBundle else insecure_tls)
                        ''managed-service-account''))
           }))))"

definition CreateManagedClusterSecretInArgo ::
  "net \<Rightarrow> string \<Rightarrow> secret \<Rightarrow> managed_cluster \<Rightarrow> bool \<Rightarrow> goerr + secret" where
  "CreateManagedClusterSecretInArgo net argoNs src cluster blank =
     (if blank then
        Inr (new_secret (mc_name cluster @ ''-'' @ componentName @ clusterSecretSuffix) argoNs
               (cluster_labels (mc_name cluster) (mc_name cluster @ ''-control-plane''))
               [(''name'', mc_name cluster), (''server'', ''https://'' @ mc_name cluster @ ''-control-plane'')] cluster)
      else
        and_then
          (if mget (s_data src) ''server'' = [] then
             and_then (getManagedClusterToken net (map_of (s_data src) ''config''))
               (\<lambda>tok. getManagedClusterURL net cluster tok)
           else Inr (mget (s_data src) ''server''))
          (\<lambda>url. Inr (new_secret (m_name (s_meta src)) argoNs
             (cluster_labels (mget (m_labels (s_meta src)) ACMClusterNameLabel)
                             (mget (m_labels (s_meta src)) clusterServerLabel))
             [(''config'', mget (s_data src) ''config''), (''name'', mget (s_data src) ''name''), (''server'', url)]
             cluster)))"

definition tryLegacySecretOption :: "net \<Rightarrow> string \<Rightarrow> managed_cluster \<Rightarrow> secret api" where
  "tryLegacySecretOption net argoNs cluster = do {
     g1 \<leftarrow> get_secret (mc_name cluster, mc_name cluster @ clusterSecretSuffix);
     g \<leftarrow> (case g1 of
             Inr s \<Rightarrow> State_Monad.return (Inr s)
           | Inl _ \<Rightarrow> get_secret (mc_name cluster, mc_name cluster @ ''-'' @ componentName @ clusterSecretSuffix));
     State_Monad.return (case g of
       Inl e \<Rightarrow> Inl (Wrapped (''legacy secret not found for managed cluster '' @ mc_name cluster) e)
     | Inr s \<Rightarrow> CreateManagedClusterSecretInArgo net argoNs s cluster False)
   }"

text \<open>The deprecated direct path, which also reads the URL from the first reachable client config.\<close>

definition CreateManagedClusterSecretFromManagedServiceAccount ::
  "net \<Rightarrow> string \<Rightarrow> managed_cluster \<Rightarrow> string \<Rightarrow> bool \<Rightarrow> bool \<Rightarrow> secret api" where
  "CreateManagedClusterSecretFromManagedServiceAccount net argoNs cluster msaRef enableTLS blank =
     (if blank then State_Monad.return
        (Inr (new_secret (mc_name cluster @ ''-'' @ componentName @ clusterSecretSuffix) argoNs
               (cluster_labels (mc_name cluster) (mc_name cluster @ ''-control-plane''))
               [(''name'', mc_name cluster), (''server'', ''https://'' @ mc_name cluster @ ''-control-plane'')] cluster))
      else do {
        a \<leftarrow> get_account (mc_name cluster, msaRef);
        case a of
          Inl e \<Rightarrow> State_Monad.return (Inl e)
        | Inr account \<Rightarrow>
            (case sa_token_ref account of
               None \<Rightarrow> State_Monad.return (Inl (ErrText
                 (''no token reference secret found in the managed service account: '' @ mc_name cluster @ ''/'' @ msaRef)))
             | Some ref \<Rightarrow> do {
                 s \<leftarrow> get_secret (mc_name cluster, tr_name ref);
                 State_Monad.return (case s of
                   Inl e \<Rightarrow> Inl e
                 | Inr tokenSecret \<Rightarrow>
                     (let tok = mget (s_data tokenSecret) ''token'';
                          tls = (if enableTLS then secure_tls (mget (s_data tokenSecret) ''ca.crt'') else insecure_tls) in
                      and_then (getManagedClusterURL net cluster tok) (\<lambda>url.
                        Inr (new_secret (mc_name cluster @ ''-'' @ msaRef @ ''-cluster-secret'') argoNs
                          (cluster_labels (mc_name cluster) (truncateLabelValue (strippedClusterURL url)))
                          [(''config'', cluster_config tok tls), (''name'', mc_name cluster), (''server'', url)]
                          cluster))))
               })
      })"

definition createClusterSecretWithFallback ::
  "net \<Rightarrow> string \<Rightarrow> managed_cluster \<Rightarrow> proxy_info \<Rightarrow> string \<Rightarrow> bool \<Rightarrow> bool \<Rightarrow> (secret \<times> data_source) api" where
  "createClusterSecretWithFallback net argoNs cluster info msaRef blank legacy =
     (if blank then
        State_Monad.return (Inr (createBlankClusterSecret argoNs cluster msaRef, DataSourceBlankSecret))
      else do {
        p \<leftarrow> (if px_available info \<and> \<not> legacy
              then CreateManagedClusterSecretViaClusterProxy argoNs cluster info msaRef legacy
              else State_Monad.return (Inl (ErrText ''cluster proxy not used'')));
        case p of
          Inr s \<Rightarrow> State_Monad.return (Inr (s, DataSourceClusterProxy))
        | Inl _ \<Rightarrow> do {
            m \<leftarrow> tryManagedServiceAccountOption argoNs cluster msaRef legacy;
            case m of
              Inr s \<Rightarrow> State_Monad.return (Inr (s, DataSourceManagedServiceAccount))
            | Inl _ \<Rightarrow> do {
                l \<leftarrow> tryLegacySecretOption net argoNs cluster;
                State_Monad.return (case l of
                  Inr s \<Rightarrow> Inr (s, DataSourceLegacySecret)
                | Inl e \<Rightarrow> Inl (Wrapped (''all options exhausted for managed cluster '' @ mc_name cluster) e))
              }
          }
      })"

section \<open>Secrets in the Argo CD namespace\<close>

definition has_label :: "smap \<Rightarrow> string \<Rightarrow> string \<Rightarrow> bool" where
  "has_label labels k v \<longleftrightarrow> map_of labels k = Some v"

definition GetAllManagedClusterSecretsInArgo :: "secret list api" where
  "GetAllManagedClusterSecretsInArgo =
     list_secrets (\<lambda>s. has_label (m_labels (s_meta s)) ArgocdClusterSecretLabel ''true''
                     \<and> has_label (m_labels (s_meta s)) argoSecretType ''cluster'')"

text \<open>The map of cluster names to the secrets users created for them.\<close>

definition add_non_acm :: "secret \<Rightarrow> (string \<times> secret list) list \<Rightarrow> (string \<times> secret list) list" where
  "add_non_acm s m =
     (if \<not> has_key (m_labels (s_meta s)) ArgocdClusterSecretLabel then
        (case map_of (s_data s) ''name'' of
           None \<Rightarrow> m
         | Some cluster \<Rightarrow>
             mset_key cluster ((case map_of m cluster of None \<Rightarrow> [] | Some ss \<Rightarrow> ss) @ [s]) m)
      else m)"

definition GetAllNonAcmManagedClusterSecretsInArgo :: "string \<Rightarrow> (string \<times> secret list) list api" where
  "GetAllNonAcmManagedClusterSecretsInArgo argoNs = do {
     l \<leftarrow> list_secrets (\<lambda>s. m_ns (s_meta s) = argoNs \<and> has_label (m_labels (s_meta s)) argoSecretType ''cluster'');
     State_Monad.return (case l of Inl e \<Rightarrow> Inl e | Inr items \<Rightarrow> Inr (fold add_non_acm items []))
   }"

definition unionSecretData :: "secret \<Rightarrow> secret \<Rightarrow> secret" where
  "unionSecretData new existing =
     (let newLabels = mdel_key labelKeyClusterAgentMapping (m_labels (s_meta new));
          newAnnotations = add_missing (m_annos (s_meta new))
            (filter (\<lambda>(k, _). k \<noteq> ''managed-by'' \<and> k \<noteq> ''kubectl.kubernetes.io/last-applied-configuration'')
              (m_annos (s_meta existing)))
      in new\<lparr>s_meta := (s_meta new)\<lparr>m_labels := newLabels, m_annos := newAnnotations\<rparr>\<rparr>)"

definition isOldSecretReferencedByArgoApps :: "string \<Rightarrow> string \<Rightarrow> (world, bool) state" where
  "isOldSecretReferencedByArgoApps ns serverURL = do {
     l \<leftarrow> list_apps (\<lambda>a. m_ns (u_meta a) = ns);
     State_Monad.return (case l of
       Inl e \<Rightarrow> if is_no_match e then False else True
     | Inr apps \<Rightarrow>
         list_ex (\<lambda>a. (case nested_string (u_fields a) [''spec'', ''destination'', ''server''] of
                         Inr (Some s) \<Rightarrow> s | _ \<Rightarrow> []) = serverURL) apps)
   }"

definition de_label :: "secret \<Rightarrow> secret" where
  "de_label s = s\<lparr>s_meta := (s_meta s)\<lparr>m_labels := mdel_key argoSecretType (m_labels (s_meta s))\<rparr>\<rparr>"

definition re_label :: "secret \<Rightarrow> secret" where
  "re_label s = s\<lparr>s_meta := (s_meta s)\<lparr>m_labels := mset_key argoSecretType ''cluster'' (m_labels (s_meta s))\<rparr>\<rparr>"

text \<open>De-label, delete, and restore the label when the deletion fails; errors are logged.\<close>

definition removeOldSecret :: "secret \<Rightarrow> (world, unit) state" where
  "removeOldSecret old = do {
     p \<leftarrow> patch_secret (skey old) de_label;
     case p of
       Inl e \<Rightarrow> State_Monad.return ()
     | Inr _ \<Rightarrow> do {
         d \<leftarrow> delete_secret (skey old);
         case d of
           Inl e \<Rightarrow>
             (if \<not> is_not_found e then do {
                r \<leftarrow> patch_secret (skey old) re_label;
                State_Monad.return ()
              } else State_Monad.return ())
         | Inr _ \<Rightarrow> State_Monad.return ()
       }
   }"

definition server_of :: "secret \<Rightarrow> string" where
  "server_of s =
     (if mget (s_string_data s) ''server'' = [] then mget (s_data s) ''server''
      else mget (s_string_data s) ''server'')"

definition cleanupOne :: "secret \<Rightarrow> secret \<Rightarrow> (world, unit) state" where
  "cleanupOne new old =
     (if m_name (s_meta old) = m_name (s_meta new) then State_Monad.return ()
      else if has_key (m_labels (s_meta old)) labelKeyClusterAgentMapping then State_Monad.return ()
      else (let oldServer = mget (s_data old) ''server'' in
        if oldServer \<noteq> server_of new then do {
          ref \<leftarrow> isOldSecretReferencedByArgoApps (m_ns (s_meta new)) oldServer;
          if ref then State_Monad.return () else removeOldSecret old
        }
        else removeOldSecret old))"

definition old_secret_selector :: "string \<Rightarrow> string \<Rightarrow> secret \<Rightarrow> bool" where
  "old_secret_selector ns cluster s \<longleftrightarrow>
     m_ns (s_meta s) = ns \<and>
     has_label (m_labels (s_meta s)) ArgocdClusterSecretLabel ''true'' \<and>
     has_label (m_labels (s_meta s)) argoSecretType ''cluster'' \<and>
     has_label (m_labels (s_meta s)) ACMClusterNameLabel cluster"

definition cleanupOldArgoClusterSecrets :: "secret \<Rightarrow> string \<Rightarrow> (world, unit) state" where
  "cleanupOldArgoClusterSecrets new cluster = do {
     l \<leftarrow> list_secrets (old_secret_selector (m_ns (s_meta new)) cluster);
     case l of
       Inl e \<Rightarrow> State_Monad.return ()
     | Inr items \<Rightarrow> loopM (\<lambda>_ old. cleanupOne new old) () items
   }"

definition cleanupOldClusterSecrets :: "string \<Rightarrow> (world, unit) state" where
  "cleanupOldClusterSecrets cluster = do {
     g \<leftarrow> get_secret (cluster, cluster @ clusterSecretSuffix);
     case g of
       Inl e \<Rightarrow> State_Monad.return ()
     | Inr s \<Rightarrow> do { d \<leftarrow> delete_secret (skey s); State_Monad.return () }
   }"

section \<open>Adding the clusters\<close>

type_synonym orphans = "(nsname \<times> string) list"

definition saveClusterSecret :: "orphans \<Rightarrow> nsname \<Rightarrow> nsname \<Rightarrow> orphans" where
  "saveClusterSecret orphanList secretObjectKey msaSecretObjectKey =
     mdel_key msaSecretObjectKey (mdel_key secretObjectKey orphanList)"

definition join_error :: "goerr option \<Rightarrow> goerr \<Rightarrow> goerr option" where
  "join_error acc e = Some (Joined (case acc of None \<Rightarrow> [e] | Some a \<Rightarrow> [a, e]))"

text \<open>Create or update the secret; returns the secret as written.\<close>

definition writeClusterSecret :: "secret \<Rightarrow> secret api" where
  "writeClusterSecret new = do {
     g \<leftarrow> get_secret (skey new);
     case g of
       Inr existing \<Rightarrow>
         (let merged = unionSecretData new existing in do {
            u \<leftarrow> update_secret merged;
            State_Monad.return (case u of Inl e \<Rightarrow> Inl e | Inr _ \<Rightarrow> Inr merged)
          })
     | Inl e \<Rightarrow>
         (if is_not_found e then do {
            c \<leftarrow> create_secret new;
            State_Monad.return (case c of Inl e' \<Rightarrow> Inl e' | Inr _ \<Rightarrow> Inr new)
          }
          else State_Monad.return (Inl e))
   }"

text \<open>After the secret is written: the secrets it replaces are cleaned up and it is no orphan.\<close>

definition finishCluster ::
  "data_source \<Rightarrow> secret \<Rightarrow> managed_cluster \<Rightarrow> orphans \<times> goerr option \<Rightarrow> (world, orphans \<times> goerr option) state" where
  "finishCluster source written cluster acc = do {
     u \<leftarrow> (if source = DataSourceClusterProxy \<or> source = DataSourceManagedServiceAccount
           then cleanupOldClusterSecrets (mc_name cluster) else State_Monad.return ());
     v \<leftarrow> cleanupOldArgoClusterSecrets written (mc_name cluster);
     State_Monad.return (mdel_key (skey written) (fst acc), snd acc)
   }"

definition storeCluster ::
  "data_source \<Rightarrow> secret \<Rightarrow> managed_cluster \<Rightarrow> orphans \<Rightarrow> orphans \<times> goerr option \<Rightarrow>
   (world, orphans \<times> goerr option) state" where
  "storeCluster source new cluster saved acc = do {
     wr \<leftarrow> writeClusterSecret new;
     case wr of
       Inl e \<Rightarrow> State_Monad.return (saved, join_error (snd acc) e)
     | Inr written \<Rightarrow> finishCluster source written cluster acc
   }"

definition addCluster ::
  "net \<Rightarrow> string \<Rightarrow> (string \<times> secret list) list \<Rightarrow> proxy_info \<Rightarrow> string \<Rightarrow> bool \<Rightarrow> bool \<Rightarrow>
   orphans \<times> goerr option \<Rightarrow> managed_cluster \<Rightarrow> (world, orphans \<times> goerr option) state" where
  "addCluster net argoNs nonAcm info msaRef blank legacy acc cluster =
     (let saved = saveClusterSecret (fst acc)
            (argoNs, mc_name cluster @ clusterSecretSuffix)
            (argoNs, mc_name cluster @ ''-'' @ componentName @ clusterSecretSuffix) in
      if (case map_of nonAcm (mc_name cluster) of None \<Rightarrow> 0 | Some ss \<Rightarrow> length ss) > 0 then
        State_Monad.return (saved, join_error (snd acc)
          (ErrText (''found existing non-ACM ArgoCD clusters secrets for cluster: '' @ mc_name cluster)))
      else do {
        c \<leftarrow> createClusterSecretWithFallback net argoNs cluster info (or_default msaRef) blank legacy;
        case c of
          Inl e \<Rightarrow> State_Monad.return (saved, join_error (snd acc) e)
        | Inr (new, source) \<Rightarrow> storeCluster source new cluster saved acc
      })"

definition legacy_requested :: "gitops_cluster \<Rightarrow> bool" where
  "legacy_requested g \<longleftrightarrow> map_of (m_annos (gc_meta g)) legacyClusterSecretAnnotation = Some ''true''"

text \<open>Returns the remaining orphans and the joined error.\<close>

definition AddManagedClustersToArgo ::
  "net \<Rightarrow> gitops_cluster \<Rightarrow> managed_cluster list \<Rightarrow> orphans \<Rightarrow> bool \<Rightarrow> (world, orphans \<times> goerr option) state" where
  "AddManagedClustersToArgo net g clusters orphanList blank =
     (if gs_placement (gc_spec g) = None then State_Monad.return (orphanList, None)
      else (let argoNamespace = gs_argo_ns (gc_spec g) in do {
        n \<leftarrow> GetAllNonAcmManagedClusterSecretsInArgo argoNamespace;
        case n of
          Inl e \<Rightarrow> State_Monad.return (orphanList, Some e)
        | Inr nonAcm \<Rightarrow> do {
            i \<leftarrow> GetClusterProxyInfo;
            loopM (addCluster net argoNamespace nonAcm (fst i) (gs_msa_ref (gc_spec g)) blank (legacy_requested g))
              (orphanList, None) clusters
          }
      }))"

section \<open>Facts about the parts\<close>

lemma token_quiet: "state_io_rel quiet (GetManagedServiceAccountToken ns msa)"
  unfolding GetManagedServiceAccountToken_def by (intro quiet.frame_rules get_quiet)

lemma service_ca_quiet: "state_io_rel quiet (GetServiceCAFromConfigMap ns)"
  unfolding GetServiceCAFromConfigMap_def by (intro quiet.frame_rules get_quiet)

lemma proxy_info_quiet: "state_io_rel quiet GetClusterProxyInfo"
  unfolding GetClusterProxyInfo_def by (intro quiet.frame_rules get_quiet)

lemma proxy_secret_quiet:
  "state_io_rel quiet (CreateManagedClusterSecretViaClusterProxy argoNs cluster info msaRef legacy)"
  unfolding CreateManagedClusterSecretViaClusterProxy_def
  by (intro quiet.frame_rules token_quiet service_ca_quiet)

lemma msa_secret_quiet: "state_io_rel quiet (tryManagedServiceAccountOption argoNs cluster msaRef legacy)"
  unfolding tryManagedServiceAccountOption_def by (intro quiet.frame_rules token_quiet)

lemma legacy_secret_quiet: "state_io_rel quiet (tryLegacySecretOption net argoNs cluster)"
  unfolding tryLegacySecretOption_def by (intro quiet.frame_rules get_quiet)

lemma fallback_quiet:
  "state_io_rel quiet (createClusterSecretWithFallback net argoNs cluster info msaRef blank legacy)"
  unfolding createClusterSecretWithFallback_def
  by (intro quiet.frame_rules proxy_secret_quiet msa_secret_quiet legacy_secret_quiet)

lemma non_acm_quiet: "state_io_rel quiet (GetAllNonAcmManagedClusterSecretsInArgo ns)"
  unfolding GetAllNonAcmManagedClusterSecretsInArgo_def by (intro quiet.frame_rules list_quiet)

lemma new_secret_simps [simp]:
  "m_ns (s_meta (new_secret nm ns labels sd c)) = ns" "m_name (s_meta (new_secret nm ns labels sd c)) = nm"
  "m_labels (s_meta (new_secret nm ns labels sd c)) = add_missing labels (mc_labels c)"
  "s_string_data (new_secret nm ns labels sd c) = sd" "s_data (new_secret nm ns labels sd c) = []"
  by (simp_all add: new_secret_def)

text \<open>What each source builds.\<close>

lemma proxy_secret_shape:
  assumes "run_state (CreateManagedClusterSecretViaClusterProxy argoNs cluster info msaRef False) w = (Inr s, w')"
  shows "\<exists>tok ca. tok \<noteq> [] \<and> ca \<noteq> [] \<and>
    s = token_secret argoNs cluster (or_default msaRef) (GetClusterProxyURL info (mc_name cluster)) tok
          (secure_tls ca) ''cluster-proxy''"
  using assms
  by (auto simp: CreateManagedClusterSecretViaClusterProxy_def Let_def split: if_splits sum.splits prod.splits)

lemma msa_secret_shape:
  assumes "run_state (tryManagedServiceAccountOption argoNs cluster msaRef legacy) w = (Inr s, w')"
  shows "\<exists>url tok tls. tok \<noteq> [] \<and> has_http_prefix url \<and>
    s = token_secret argoNs cluster (or_default msaRef) url tok tls ''managed-service-account'' \<and>
    (\<not> legacy \<and> snd (first_url (mc_configs cluster)) \<noteq> [] \<longrightarrow> tls = secure_tls (snd (first_url (mc_configs cluster))))"
proof -
  have p: "has_http_prefix (''https://'' @ u)" for u
  proof -
    have "\<exists>t. trim_right_func is_space (''https://'' @ u) = ''https://'' @ t"
      by (rule trim_right_func_keep) (simp_all add: is_space_def)
    then obtain t where "trim_space (''https://'' @ u) = ''https://'' @ t"
      by (auto simp: trim_space_def is_space_def)
    then show ?thesis by (simp add: has_http_prefix_def has_prefix_def)
  qed
  show ?thesis
    using assms p
    by (auto simp: tryManagedServiceAccountOption_def Let_def split: if_splits sum.splits prod.splits)
qed

lemma blank_ns [simp]: "m_ns (s_meta (createBlankClusterSecret argoNs cluster msaRef)) = argoNs"
  by (simp add: createBlankClusterSecret_def)

lemma token_secret_ns [simp]: "m_ns (s_meta (token_secret argoNs cluster msa url tok tls src)) = argoNs"
  by (simp add: token_secret_def)

lemma legacy_ns:
  "run_state (tryLegacySecretOption net argoNs cluster) w = (Inr s, w') \<Longrightarrow> m_ns (s_meta s) = argoNs"
  by (auto simp: tryLegacySecretOption_def CreateManagedClusterSecretInArgo_def and_then_Inr
      split: sum.splits prod.splits)

lemma fallback_cases:
  assumes "run_state (createClusterSecretWithFallback net argoNs cluster info msaRef blank legacy) w = (Inr (s, src), w')"
  obtains (blank) "blank" "s = createBlankClusterSecret argoNs cluster msaRef" "src = DataSourceBlankSecret"
  | (proxy) u v where "\<not> blank" "\<not> legacy" "src = DataSourceClusterProxy"
      "run_state (CreateManagedClusterSecretViaClusterProxy argoNs cluster info msaRef False) u = (Inr s, v)"
  | (msa) u v where "\<not> blank" "src = DataSourceManagedServiceAccount"
      "run_state (tryManagedServiceAccountOption argoNs cluster msaRef legacy) u = (Inr s, v)"
  | (legacy) u v where "\<not> blank" "src = DataSourceLegacySecret"
      "run_state (tryLegacySecretOption net argoNs cluster) u = (Inr s, v)"
  using assms
  by (auto simp: createClusterSecretWithFallback_def split: if_splits sum.splits prod.splits)

lemma fallback_ns:
  assumes "run_state (createClusterSecretWithFallback net argoNs cluster info msaRef blank legacy) w = (Inr (s, src), w')"
  shows "m_ns (s_meta s) = argoNs"
  using assms
  by (cases rule: fallback_cases) (auto dest: proxy_secret_shape msa_secret_shape legacy_ns)

text \<open>Which secrets adding the clusters may touch: those of the Argo CD namespace and the long-lived ones.\<close>

definition touchable :: "string \<Rightarrow> managed_cluster list \<Rightarrow> nsname set" where
  "touchable argoNs clusters =
     {k. fst k = argoNs} \<union> (\<lambda>c. (mc_name c, mc_name c @ clusterSecretSuffix)) ` set clusters"

lemma skey_simps [simp]: "fst (skey s) = m_ns (s_meta s)" "skey (de_label s) = skey s" "skey (re_label s) = skey s"
  by (simp_all add: skey_def de_label_def re_label_def)

lemma union_meta [simp]:
  "m_ns (s_meta (unionSecretData new old)) = m_ns (s_meta new)"
  "m_name (s_meta (unionSecretData new old)) = m_name (s_meta new)"
  by (simp_all add: unionSecretData_def Let_def)

lemma referenced_quiet: "state_io_rel quiet (isOldSecretReferencedByArgoApps ns url)"
  unfolding isOldSecretReferencedByArgoApps_def by (intro quiet.frame_rules list_quiet)

lemma removeOldSecret_keeps: "skey old \<in> K \<Longrightarrow> state_io_rel (keeps_secrets K w) (removeOldSecret old)"
  unfolding removeOldSecret_def
  by (intro inv_frame.frame_rules patch_secret_keeps delete_secret_keeps) simp_all

lemma cleanupOne_keeps: "skey old \<in> K \<Longrightarrow> state_io_rel (keeps_secrets K w) (cleanupOne new old)"
  unfolding cleanupOne_def
  by (intro inv_frame.frame_rules quiet_keeps_secrets [OF referenced_quiet] removeOldSecret_keeps)

lemma cleanupOldArgo_keeps:
  assumes "\<And>s. old_secret_selector (m_ns (s_meta new)) cluster s \<Longrightarrow> skey s \<in> K"
  shows "state_io_rel (keeps_secrets K w) (cleanupOldArgoClusterSecrets new cluster)"
  unfolding cleanupOldArgoClusterSecrets_def
proof (rule inv_frame.bind_frame_result)
  show "state_io_rel (keeps_secrets K w) (list_secrets (old_secret_selector (m_ns (s_meta new)) cluster))"
    by (rule quiet_keeps_secrets [OF list_quiet])
next
  fix l s t
  assume l: "run_state (list_secrets (old_secret_selector (m_ns (s_meta new)) cluster)) s = (l, t)"
  have one: "state_io_rel (keeps_secrets K w) (cleanupOne new old)" if "l = Inr items" "old \<in> set items" for items old
  proof -
    have "old_secret_selector (m_ns (s_meta new)) cluster old"
      using secrets.list_result [OF l [unfolded that(1)]] that(2) by simp
    then show ?thesis by (rule cleanupOne_keeps [OF assms])
  qed
  show "state_io_rel (keeps_secrets K w)
      (case l of Inl e \<Rightarrow> State_Monad.return () | Inr items \<Rightarrow> loopM (\<lambda>_. cleanupOne new) () items)"
    by (intro inv_frame.frame_rules one) auto
qed

lemma cleanupOldCluster_keeps:
  assumes "(c, c @ clusterSecretSuffix) \<in> K"
  shows "state_io_rel (keeps_secrets K w) (cleanupOldClusterSecrets c)"
proof (rule state_io_relI, rule impI)
  fix r s t
  assume run: "run_state (cleanupOldClusterSecrets c) s = (r, t)" and s: "secret_writes K w s"
  have "skey x = (c, c @ clusterSecretSuffix)" if "map_of (w_secrets s) (c, c @ clusterSecretSuffix) = Some x" for x
    by (rule secret_writes_keyD [OF s that])
  with run s assms show "secret_writes K w t"
    by (auto simp: cleanupOldClusterSecrets_def run_simps secret_writes_del split: option.splits if_splits)
qed

lemma writeClusterSecret_keeps:
  "skey new \<in> K \<Longrightarrow> state_io_rel (keeps_secrets K w) (writeClusterSecret new)"
  unfolding writeClusterSecret_def
  by (intro inv_frame.frame_rules quiet_keeps_secrets [OF get_quiet] create_secret_keeps update_secret_keeps)
     (simp_all add: skey_def)

lemma written_ns: "run_state (writeClusterSecret new) w = (Inr s, w') \<Longrightarrow> m_ns (s_meta s) = m_ns (s_meta new)"
  by (auto simp: writeClusterSecret_def Let_def split: sum.splits prod.splits if_splits)

lemma finishCluster_keeps:
  assumes "c \<in> set clusters" and "m_ns (s_meta written) = argoNs"
  shows "state_io_rel (keeps_secrets (touchable argoNs clusters) w) (finishCluster src written c acc)"
  unfolding finishCluster_def
  using assms
  by (intro inv_frame.frame_rules cleanupOldCluster_keeps cleanupOldArgo_keeps)
     (auto simp: touchable_def old_secret_selector_def)

lemma storeCluster_keeps:
  assumes "c \<in> set clusters" and "m_ns (s_meta new) = argoNs"
  shows "state_io_rel (keeps_secrets (touchable argoNs clusters) w) (storeCluster src new c saved acc)"
  unfolding storeCluster_def
proof (rule inv_frame.bind_frame_result)
  show "state_io_rel (keeps_secrets (touchable argoNs clusters) w) (writeClusterSecret new)"
    by (rule writeClusterSecret_keeps) (simp add: touchable_def assms(2))
next
  fix wr s t
  assume "run_state (writeClusterSecret new) s = (wr, t)"
  then show "state_io_rel (keeps_secrets (touchable argoNs clusters) w)
      (case wr of Inl e \<Rightarrow> State_Monad.return (saved, join_error (snd acc) e)
       | Inr written \<Rightarrow> finishCluster src written c acc)"
    using assms written_ns [of new s _ t]
    by (intro inv_frame.frame_rules finishCluster_keeps) auto
qed

lemma addCluster_keeps:
  assumes "c \<in> set clusters"
  shows "state_io_rel (keeps_secrets (touchable argoNs clusters) w)
    (addCluster net argoNs nonAcm info msaRef blank legacy acc c)"
  unfolding addCluster_def Let_def
proof (rule inv_frame.if_frame, rule inv_frame.return_frame, rule inv_frame.bind_frame_result)
  show "state_io_rel (keeps_secrets (touchable argoNs clusters) w)
      (createClusterSecretWithFallback net argoNs c info (or_default msaRef) blank legacy)"
    by (rule quiet_keeps_secrets [OF fallback_quiet])
next
  fix r s t saved
  assume "run_state (createClusterSecretWithFallback net argoNs c info (or_default msaRef) blank legacy) s = (r, t)"
  then show "state_io_rel (keeps_secrets (touchable argoNs clusters) w)
      (case r of Inl e \<Rightarrow> State_Monad.return (saved, join_error (snd acc) e)
       | Inr (new, source) \<Rightarrow> storeCluster source new c saved acc)"
    using fallback_ns [of net argoNs c info "or_default msaRef" blank legacy s _ _ t]
    by (intro inv_frame.frame_rules storeCluster_keeps assms) auto
qed

lemma addAll_keeps:
  "state_io_rel (keeps_secrets (touchable (gs_argo_ns (gc_spec g)) clusters) w)
     (AddManagedClustersToArgo net g clusters orphanList blank)"
  unfolding AddManagedClustersToArgo_def Let_def
  by (intro inv_frame.return_frame inv_frame.bind_frame inv_frame.if_frame inv_frame.sum_frame inv_frame.loopM_frame
      quiet_keeps_secrets [OF non_acm_quiet] quiet_keeps_secrets [OF proxy_info_quiet] addCluster_keeps)

text \<open>
  Cleaning up replaced secrets: the ones it may remove, judged in the world it starts in. The
  reference check counts only when the server does not deny that Applications are a kind.
\<close>

definition app_refers :: "world \<Rightarrow> string \<Rightarrow> string \<Rightarrow> bool" where
  "app_refers w ns url \<longleftrightarrow>
     (\<exists>a \<in> set (map snd (w_apps w)). m_ns (u_meta a) = ns \<and>
        (case nested_string (u_fields a) [''spec'', ''destination'', ''server''] of
           Inr (Some s) \<Rightarrow> s | _ \<Rightarrow> []) = url)"

definition removable :: "world \<Rightarrow> secret \<Rightarrow> string \<Rightarrow> secret \<Rightarrow> bool" where
  "removable w new cluster old \<longleftrightarrow>
     old_secret_selector (m_ns (s_meta new)) cluster old \<and>
     m_name (s_meta old) \<noteq> m_name (s_meta new) \<and>
     \<not> has_key (m_labels (s_meta old)) labelKeyClusterAgentMapping \<and>
     (installed w \<longrightarrow> mget (s_data old) ''server'' = server_of new \<or>
        \<not> app_refers w (m_ns (s_meta new)) (mget (s_data old) ''server''))"

lemma removeOldSecret_apps: "state_io_rel (\<lambda>s t. w_apps t = w_apps s) (removeOldSecret old)"
  unfolding removeOldSecret_def
  by (intro same_frame.frame_rules)
     (auto intro!: state_io_relI simp: run_simps split: option.splits if_splits)

lemma removeOldSecret_installed: "state_io_rel (\<lambda>s t. installed s \<longrightarrow> installed t) (removeOldSecret old)"
  unfolding removeOldSecret_def
  by (intro inv_frame.frame_rules secrets.keeps_installed)

lemma unreferenced:
  assumes "run_state (isOldSecretReferencedByArgoApps ns url) s = (False, t)" and "installed s"
  shows "\<not> app_refers s ns url"
  unfolding app_refers_def using assms installed_verdict [OF assms(2)]
  by (auto simp: isOldSecretReferencedByArgoApps_def run_simps list_ex_iff split: option.splits if_splits)

abbreviation removable_keys :: "world \<Rightarrow> secret \<Rightarrow> string \<Rightarrow> nsname set" where
  "removable_keys w new cluster \<equiv>
     {k. \<exists>old. map_of (w_secrets w) k = Some old \<and> removable w new cluster old}"

definition cleaning_secrets :: "nsname set \<Rightarrow> world \<Rightarrow> world \<Rightarrow> bool" where
  "cleaning_secrets K w s \<longleftrightarrow>
     secret_writes K w s \<and> w_apps s = w_apps w \<and> (installed w \<longrightarrow> installed s)"

lemma cleaning_start: "keyed s_meta (w_secrets w) \<Longrightarrow> cleaning_secrets K w w"
  by (simp add: cleaning_secrets_def secret_writes_def changes_only_def)

lemma cleaning_quiet:
  assumes "state_io_rel quiet m" shows "state_io_rel (\<lambda>s t. cleaning_secrets K w s \<longrightarrow> cleaning_secrets K w t) m"
proof (rule state_io_relI, rule impI)
  fix x s t
  assume run: "run_state m s = (x, t)" and c: "cleaning_secrets K w s"
  have q: "quiet s t" by (rule state_io_relD [OF assms run])
  have "secret_writes K w t = secret_writes K w s"
    by (rule secret_writes_sel) (rule quiet_sel(1) [OF q])
  moreover have "installed s \<Longrightarrow> installed t"
    using q by (auto simp: quiet_def installed_def dest!: in_set_dropD)
  ultimately show "cleaning_secrets K w t"
    using c quiet_sel(10) [OF q] by (auto simp: cleaning_secrets_def)
qed

lemma removeOldSecret_cleaning:
  assumes "skey old \<in> K"
  shows "state_io_rel (\<lambda>s t. cleaning_secrets K w s \<longrightarrow> cleaning_secrets K w t) (removeOldSecret old)"
proof (rule state_io_relI, rule impI)
  fix x s t
  assume run: "run_state (removeOldSecret old) s = (x, t)" and c: "cleaning_secrets K w s"
  show "cleaning_secrets K w t"
    using state_io_relD [OF removeOldSecret_keeps [OF assms, of w] run]
      state_io_relD [OF removeOldSecret_apps run] state_io_relD [OF removeOldSecret_installed run] c
    by (auto simp: cleaning_secrets_def)
qed

lemma cleanupOne_cleaning:
  assumes sel: "old_secret_selector (m_ns (s_meta new)) cluster old"
    and old: "map_of (w_secrets w) (skey old) = Some old"
  defines "K \<equiv> removable_keys w new cluster"
  shows "state_io_rel (\<lambda>s t. cleaning_secrets K w s \<longrightarrow> cleaning_secrets K w t) (cleanupOne new old)"
  unfolding cleanupOne_def Let_def
proof (intro inv_frame.if_frame inv_frame.return_frame)
  assume n: "m_name (s_meta old) \<noteq> m_name (s_meta new)" "\<not> has_key (m_labels (s_meta old)) labelKeyClusterAgentMapping"
  show "state_io_rel (\<lambda>s t. cleaning_secrets K w s \<longrightarrow> cleaning_secrets K w t) (removeOldSecret old)"
    if "\<not> mget (s_data old) ''server'' \<noteq> server_of new"
    by (rule removeOldSecret_cleaning) (use sel old n that in \<open>simp add: K_def removable_def\<close>)
  show "state_io_rel (\<lambda>s t. cleaning_secrets K w s \<longrightarrow> cleaning_secrets K w t)
    (do { ref \<leftarrow> isOldSecretReferencedByArgoApps (m_ns (s_meta new)) (mget (s_data old) ''server'');
          if ref then State_Monad.return () else removeOldSecret old })"
  proof (rule inv_bind [OF cleaning_quiet [OF referenced_quiet]])
    fix ref s t
    assume c: "cleaning_secrets K w s"
      and run: "run_state (isOldSecretReferencedByArgoApps (m_ns (s_meta new)) (mget (s_data old) ''server'')) s = (ref, t)"
    show "state_io_rel (\<lambda>s t. cleaning_secrets K w s \<longrightarrow> cleaning_secrets K w t)
        (if ref then State_Monad.return () else removeOldSecret old)"
    proof (rule inv_frame.if_frame [OF inv_frame.return_frame])
      assume "\<not> ref"
      with run have r: "run_state (isOldSecretReferencedByArgoApps (m_ns (s_meta new)) (mget (s_data old) ''server'')) s = (False, t)"
        by simp
      have "removable w new cluster old"
        using unreferenced [OF r] c sel n by (auto simp: removable_def cleaning_secrets_def app_refers_def)
      then show "state_io_rel (\<lambda>s t. cleaning_secrets K w s \<longrightarrow> cleaning_secrets K w t) (removeOldSecret old)"
        using old by (intro removeOldSecret_cleaning) (simp add: K_def)
    qed
  qed
qed

lemma cleanupOldArgo_cleaning:
  assumes keyed: "keyed s_meta (w_secrets w)" and run: "run_state (cleanupOldArgoClusterSecrets new cluster) w = (r, t)"
  shows "cleaning_secrets (removable_keys w new cluster) w t"
proof -
  let ?K = "removable_keys w new cluster"
  obtain l u where l: "run_state (list_secrets (old_secret_selector (m_ns (s_meta new)) cluster)) w = (l, u)"
    by (rule prod.exhaust)
  have u: "cleaning_secrets ?K w u"
    using state_io_relD [OF cleaning_quiet [OF list_quiet] l] cleaning_start [OF keyed] by blast
  show ?thesis
  proof (cases l)
    case (Inl e)
    with u l run show ?thesis by (simp add: cleanupOldArgoClusterSecrets_def)
  next
    case (Inr items)
    have "state_io_rel (\<lambda>s t. cleaning_secrets ?K w s \<longrightarrow> cleaning_secrets ?K w t) (loopM (\<lambda>_. cleanupOne new) () items)"
    proof (rule inv_frame.loopM_frame)
      fix b old
      assume "old \<in> set items"
      with secrets.list_result [OF l [unfolded Inr]]
      have "old_secret_selector (m_ns (s_meta new)) cluster old" and "old \<in> set (map snd (w_secrets w))"
        by auto
      with keyed_listed [OF keyed] show "state_io_rel (\<lambda>s t. cleaning_secrets ?K w s \<longrightarrow> cleaning_secrets ?K w t) (cleanupOne new old)"
        by (intro cleanupOne_cleaning) (simp_all add: skey_def)
    qed
    moreover have "run_state (loopM (\<lambda>_. cleanupOne new) () items) u = (r, t)"
      using run l Inr by (simp add: cleanupOldArgoClusterSecrets_def)
    ultimately show ?thesis using u state_io_relD by fastforce
  qed
qed

text \<open>When no request is rejected, every secret that may be removed is.\<close>

lemma removeOldSecret_calm:
  assumes "calm s"
  obtains t where "run_state (removeOldSecret old) s = ((), t)" "calm t" "w_apps t = w_apps s"
    "map_of (w_secrets t) = (map_of (w_secrets s))(skey old := None)"
  using assms that
  by (cases "map_of (w_secrets s) (skey old)")
     (auto simp: removeOldSecret_def run_simps has_key_def fun_upd_idem)

lemma referenced_calm:
  "calm s \<Longrightarrow> run_state (isOldSecretReferencedByArgoApps ns url) s =
     (app_refers s ns url, consume s)"
  by (auto simp: app_refers_def isOldSecretReferencedByArgoApps_def run_simps list_ex_iff)

lemma cleanupOne_calm:
  assumes "calm w" "calm s" "w_apps s = w_apps w" "old_secret_selector (m_ns (s_meta new)) cluster old"
  obtains t where "run_state (cleanupOne new old) s = ((), t)" "calm t" "w_apps t = w_apps w"
    "map_of (w_secrets t) =
       (if removable w new cluster old then (map_of (w_secrets s))(skey old := None) else map_of (w_secrets s))"
proof (cases "m_name (s_meta old) = m_name (s_meta new) \<or> has_key (m_labels (s_meta old)) labelKeyClusterAgentMapping")
  case True
  with assms show ?thesis by (intro that [of s]) (auto simp: cleanupOne_def removable_def)
next
  case False
  obtain t where t: "run_state (removeOldSecret old) s = ((), t)" "calm t" "w_apps t = w_apps s"
    "map_of (w_secrets t) = (map_of (w_secrets s))(skey old := None)"
    by (rule removeOldSecret_calm [OF assms(2)])
  obtain t' where t': "run_state (removeOldSecret old) (consume s) = ((), t')" "calm t'" "w_apps t' = w_apps (consume s)"
    "map_of (w_secrets t') = (map_of (w_secrets (consume s)))(skey old := None)"
    by (rule removeOldSecret_calm [OF calm_consume [OF assms(2)]])
  have same_apps: "app_refers s ns url = app_refers w ns url" for ns url
    using assms(3) by (simp add: app_refers_def)
  let ?ref = "app_refers w (m_ns (s_meta new)) (mget (s_data old) ''server'')"
  consider (same) "mget (s_data old) ''server'' = server_of new"
    | (ref) "mget (s_data old) ''server'' \<noteq> server_of new" "?ref"
    | (free) "mget (s_data old) ''server'' \<noteq> server_of new" "\<not> ?ref" by blast
  then show ?thesis
  proof cases
    case same
    then have "removable w new cluster old" using False assms(4) by (simp add: removable_def)
    with same False t assms show ?thesis by (intro that [of t]) (simp_all add: cleanupOne_def)
  next
    case ref
    then have "\<not> removable w new cluster old" using calm_installed [OF assms(1)] by (auto simp: removable_def)
    moreover have "run_state (cleanupOne new old) s = ((), consume s)"
      using False ref(1) ref(2) referenced_calm [OF assms(2)] same_apps by (simp add: cleanupOne_def)
    ultimately show ?thesis using assms by (intro that [of "consume s"]) simp_all
  next
    case free
    then have "removable w new cluster old" using False assms(4) by (simp add: removable_def)
    moreover have "run_state (cleanupOne new old) s = ((), t')"
      using False free referenced_calm [OF assms(2)] same_apps t'(1) by (simp add: cleanupOne_def)
    ultimately show ?thesis using t' assms by (intro that [of t']) simp_all
  qed
qed

lemma cleanup_loop_calm:
  assumes "calm w" "calm s" "w_apps s = w_apps w" "\<forall>old \<in> set items. old_secret_selector (m_ns (s_meta new)) cluster old"
  shows "\<exists>t. run_state (loopM (\<lambda>_. cleanupOne new) () items) s = ((), t) \<and>
    map_of (w_secrets t) = (\<lambda>k. if \<exists>old \<in> set items. removable w new cluster old \<and> skey old = k
                                then None else map_of (w_secrets s) k)"
  using assms(2-)
proof (induction items arbitrary: s)
  case Nil then show ?case by simp
next
  case (Cons old items)
  then obtain t where t: "run_state (cleanupOne new old) s = ((), t)" "calm t" "w_apps t = w_apps w"
    "map_of (w_secrets t) =
       (if removable w new cluster old then (map_of (w_secrets s))(skey old := None) else map_of (w_secrets s))"
    by (auto intro: cleanupOne_calm [OF assms(1)])
  from Cons.IH [OF t(2,3)] Cons.prems(3) obtain u where
    "run_state (loopM (\<lambda>_. cleanupOne new) () items) t = ((), u)"
    "map_of (w_secrets u) = (\<lambda>k. if \<exists>old \<in> set items. removable w new cluster old \<and> skey old = k
                                then None else map_of (w_secrets t) k)" by auto
  with t show ?case by (auto simp: fun_eq_iff)
qed

lemma cleanupOldArgo_calm:
  assumes calm: "calm w" and keyed: "keyed s_meta (w_secrets w)"
  shows "\<exists>t. run_state (cleanupOldArgoClusterSecrets new cluster) w = ((), t) \<and>
    (\<forall>k. map_of (w_secrets t) k =
       (case map_of (w_secrets w) k of
          None \<Rightarrow> None | Some old \<Rightarrow> if removable w new cluster old then None else Some old))"
proof -
  let ?items = "filter (old_secret_selector (m_ns (s_meta new)) cluster) (map snd (w_secrets w))"
  have l: "run_state (list_secrets (old_secret_selector (m_ns (s_meta new)) cluster)) w = (Inr ?items, consume w)"
    using calm by (simp add: secrets.list_run)
  obtain t where t: "run_state (loopM (\<lambda>_. cleanupOne new) () ?items) (consume w) = ((), t)"
    "map_of (w_secrets t) = (\<lambda>k. if \<exists>old \<in> set ?items. removable w new cluster old \<and> skey old = k
                                then None else map_of (w_secrets (consume w)) k)"
    using cleanup_loop_calm [of w "consume w" ?items new cluster] calm by auto
  have k: "(\<exists>old \<in> set ?items. removable w new cluster old \<and> skey old = k) \<longleftrightarrow>
      (\<exists>old. map_of (w_secrets w) k = Some old \<and> removable w new cluster old)" for k
  proof
    assume "\<exists>old \<in> set ?items. removable w new cluster old \<and> skey old = k"
    then show "\<exists>old. map_of (w_secrets w) k = Some old \<and> removable w new cluster old"
      using keyed_listed [OF keyed] by (auto simp: skey_def)
  next
    assume "\<exists>old. map_of (w_secrets w) k = Some old \<and> removable w new cluster old"
    then obtain old where old: "map_of (w_secrets w) k = Some old" "removable w new cluster old" by blast
    have "old \<in> snd ` set (w_secrets w)" using map_of_SomeD [OF old(1)] by force
    then have "old \<in> set ?items" using old(2) by (simp add: removable_def)
    moreover have "skey old = k" using keyedD [OF keyed old(1)] by (simp add: skey_def)
    ultimately show "\<exists>old \<in> set ?items. removable w new cluster old \<and> skey old = k" using old(2) by blast
  qed
  have "run_state (cleanupOldArgoClusterSecrets new cluster) w = ((), t)"
    using l t(1) by (simp add: cleanupOldArgoClusterSecrets_def)
  moreover have "\<forall>k. map_of (w_secrets t) k =
       (case map_of (w_secrets w) k of
          None \<Rightarrow> None | Some old \<Rightarrow> if removable w new cluster old then None else Some old)"
    unfolding t(2) k by (auto split: option.splits)
  ultimately show ?thesis by blast
qed

text \<open>What the fallback chain builds, whatever its source.\<close>

lemma legacy_labels:
  assumes "run_state (tryLegacySecretOption net argoNs c) w = (Inr s, w')"
  shows "map_of (m_labels (s_meta s)) argoSecretType = Some ''cluster''"
    "map_of (m_labels (s_meta s)) ArgocdClusterSecretLabel = Some ''true''"
  using assms
  by (auto simp: tryLegacySecretOption_def CreateManagedClusterSecretInArgo_def and_then_Inr
      cluster_labels_def mget_def map_add_def secret_labels split: sum.splits prod.splits)

text \<open>Registering a cluster with a blank secret.\<close>

definition blank_key :: "string \<Rightarrow> string \<Rightarrow> string \<Rightarrow> nsname" where
  "blank_key argoNs msaRef cluster = (argoNs, cluster @ ''-'' @ or_default msaRef @ clusterSecretSuffix)"

definition blank_registered :: "string \<Rightarrow> string \<Rightarrow> string \<Rightarrow> world \<Rightarrow> bool" where
  "blank_registered argoNs msaRef cluster w \<longleftrightarrow>
     (\<exists>s. map_of (w_secrets w) (blank_key argoNs msaRef cluster) = Some s \<and>
          map_of (m_labels (s_meta s)) ACMClusterNameLabel = Some cluster \<and>
          map_of (m_labels (s_meta s)) argoSecretType = Some ''cluster'' \<and>
          mget (s_data s) ''name'' = cluster \<and>
          mget (s_data s) ''server'' = ''https://'' @ cluster @ ''-control-plane'')"

lemma written_store:
  assumes "run_state (writeClusterSecret new) w = (Inr s, t)"
  shows "w_secrets t = mset_key (skey new) (persist_secret s) (w_secrets w)" "skey s = skey new"
    "s_string_data s = s_string_data new" "s_data s = s_data new"
    "k \<noteq> labelKeyClusterAgentMapping \<Longrightarrow> map_of (m_labels (s_meta s)) k = map_of (m_labels (s_meta new)) k"
  using assms
  by (auto simp: writeClusterSecret_def unionSecretData_def run_simps Let_def skey_def
      split: sum.splits prod.splits if_splits option.splits)

lemma blank_key_eq [simp]: "blank_key ns msa c = blank_key ns msa c' \<longleftrightarrow> c = c'"
  by (simp add: blank_key_def)

lemma blank_secret_facts:
  "skey (createBlankClusterSecret ns c (or_default msa)) = blank_key ns msa (mc_name c)"
  "map_of (m_labels (s_meta (createBlankClusterSecret ns c msa))) ACMClusterNameLabel = Some (mc_name c)"
  "map_of (m_labels (s_meta (createBlankClusterSecret ns c msa))) argoSecretType = Some ''cluster''"
  "s_string_data (createBlankClusterSecret ns c msa) =
     [(''name'', mc_name c), (''server'', ''https://'' @ mc_name c @ ''-control-plane'')]"
  by (simp_all add: createBlankClusterSecret_def cluster_labels_def map_add_def secret_labels skey_def
      blank_key_def or_default_def componentName_def)

lemma write_blank:
  assumes "run_state (writeClusterSecret (createBlankClusterSecret ns c (or_default msa))) w = (Inr s, t)"
  shows "blank_registered ns msa (mc_name c) t"
    and "blank_registered ns msa c0 w \<Longrightarrow> blank_registered ns msa c0 t"
proof -
  note st = written_store [OF assms]
  have l: "map_of (m_labels (s_meta s)) ACMClusterNameLabel = Some (mc_name c)"
    "map_of (m_labels (s_meta s)) argoSecretType = Some ''cluster''"
    by (subst st(5), simp add: secret_labels, rule blank_secret_facts)+
  show r: "blank_registered ns msa (mc_name c) t"
    using l st(3,4) by (simp add: blank_registered_def st(1) blank_secret_facts persist_secret_def mget_def)
  show "blank_registered ns msa c0 w \<Longrightarrow> blank_registered ns msa c0 t"
    using r by (cases "c0 = mc_name c") (simp_all add: blank_registered_def st(1) blank_secret_facts)
qed

lemma finish_blank:
  assumes run: "run_state (finishCluster DataSourceBlankSecret written c acc) w = (acc', t)"
    and keyed: "keyed s_meta (w_secrets w)" and key: "skey written = blank_key ns msa (mc_name c)"
  shows "keyed s_meta (w_secrets t)" "acc' = (mdel_key (skey written) (fst acc), snd acc)"
    and "blank_registered ns msa c0 w \<Longrightarrow> blank_registered ns msa c0 t"
proof -
  obtain u where run': "run_state (cleanupOldArgoClusterSecrets written (mc_name c)) w = (u, t)"
    using run by (auto simp: finishCluster_def split: prod.splits)
  have cl: "cleaning_secrets (removable_keys w written (mc_name c)) w t"
    by (rule cleanupOldArgo_cleaning [OF keyed run'])
  then show "keyed s_meta (w_secrets t)" by (simp add: cleaning_secrets_def secret_writes_def)
  show "acc' = (mdel_key (skey written) (fst acc), snd acc)"
    using run by (auto simp: finishCluster_def split: prod.splits)
  assume reg: "blank_registered ns msa c0 w"
  then obtain s where s: "map_of (w_secrets w) (blank_key ns msa c0) = Some s"
    "map_of (m_labels (s_meta s)) ACMClusterNameLabel = Some c0"
    by (auto simp: blank_registered_def)
  have "m_name (s_meta s) = snd (blank_key ns msa c0)"
    using keyedD [OF keyed s(1)] by (metis snd_conv)
  moreover have "m_name (s_meta written) = snd (blank_key ns msa (mc_name c))"
    using key by (metis skey_def snd_conv)
  ultimately have "\<not> removable w written (mc_name c) s"
    using s(2) by (auto simp: removable_def old_secret_selector_def has_label_def)
  with s(1) have "blank_key ns msa c0 \<notin> removable_keys w written (mc_name c)" by simp
  with cl have "map_of (w_secrets t) (blank_key ns msa c0) = map_of (w_secrets w) (blank_key ns msa c0)"
    unfolding cleaning_secrets_def secret_writes_def by (blast dest: changes_onlyD)
  with reg show "blank_registered ns msa c0 t" by (simp add: blank_registered_def)
qed

lemma addCluster_blank:
  assumes run: "run_state (addCluster net ns nonAcm info msa True legacy acc c) w = ((orph, None), t)"
    and keyed: "keyed s_meta (w_secrets w)"
  shows "snd acc = None" "keyed s_meta (w_secrets t)" "blank_registered ns msa (mc_name c) t"
    "blank_registered ns msa c0 w \<Longrightarrow> blank_registered ns msa c0 t"
    "orph = mdel_key (blank_key ns msa (mc_name c)) (fst acc)"
proof -
  let ?new = "createBlankClusterSecret ns c (or_default msa)"
  obtain saved where "run_state (storeCluster DataSourceBlankSecret ?new c saved acc) w = ((orph, None), t)"
    using run
    by (auto simp: addCluster_def createClusterSecretWithFallback_def join_error_def Let_def split: if_splits)
  then obtain s u where wr: "run_state (writeClusterSecret ?new) w = (Inr s, u)"
    and fin: "run_state (finishCluster DataSourceBlankSecret s c acc) u = ((orph, None), t)"
    by (auto simp: storeCluster_def join_error_def split: sum.splits prod.splits)
  have key: "skey s = blank_key ns msa (mc_name c)"
    using written_store(2) [OF wr] by (simp add: blank_secret_facts)
  have ku: "keyed s_meta (w_secrets u)"
    using keyed_mset_key [OF keyed, of "persist_secret s"] written_store(1) [OF wr] written_store(2) [OF wr]
    by (simp add: skey_def)
  note fin' = finish_blank [OF fin ku key]
  show "snd acc = None" "orph = mdel_key (blank_key ns msa (mc_name c)) (fst acc)" using fin'(2) key by simp_all
  show "keyed s_meta (w_secrets t)" by (rule fin'(1))
  show "blank_registered ns msa (mc_name c) t" by (rule fin'(3) [OF write_blank(1) [OF wr]])
  show "blank_registered ns msa c0 w \<Longrightarrow> blank_registered ns msa c0 t"
    by (rule fin'(3) [OF write_blank(2) [OF wr]])
qed

text \<open>An error once recorded is returned.\<close>

lemma error_kept:
  assumes "run_state (addCluster net ns nonAcm info msa blank legacy acc c) w = (acc', t)" and "snd acc \<noteq> None"
  shows "snd acc' \<noteq> None"
  using assms
  by (auto simp: addCluster_def storeCluster_def finishCluster_def join_error_def Let_def
      split: if_splits sum.splits prod.splits)

lemma errors_kept:
  "run_state (loopM (addCluster net ns nonAcm info msa blank legacy) acc cs) w = (acc', t) \<Longrightarrow> snd acc \<noteq> None \<Longrightarrow>
    snd acc' \<noteq> None"
  by (induction cs arbitrary: acc w) (auto split: prod.splits dest: error_kept)

lemma addClusters_blank:
  assumes "run_state (loopM (addCluster net ns nonAcm info msa True legacy) acc clusters) w = ((orph, None), t)"
    and "keyed s_meta (w_secrets w)"
  shows "snd acc = None \<and>
    (\<forall>c \<in> set clusters. blank_registered ns msa (mc_name c) t \<and> \<not> has_key orph (blank_key ns msa (mc_name c))) \<and>
    (\<forall>c0. blank_registered ns msa c0 w \<longrightarrow> blank_registered ns msa c0 t) \<and>
    (\<forall>k. \<not> has_key (fst acc) k \<longrightarrow> \<not> has_key orph k)"
  using assms
proof (induction clusters arbitrary: acc w)
  case Nil
  then show ?case by auto
next
  case (Cons c cs)
  obtain o1 e1 u where one: "run_state (addCluster net ns nonAcm info msa True legacy acc c) w = ((o1, e1), u)"
    by (metis prod.exhaust)
  with Cons.prems(1) have rest: "run_state (loopM (addCluster net ns nonAcm info msa True legacy) (o1, e1) cs) u = ((orph, None), t)"
    by simp
  have e1: "e1 = None"
    using errors_kept [OF rest] by (cases e1) simp_all
  note first = addCluster_blank [OF one [unfolded e1] Cons.prems(2)]
  from Cons.IH [OF rest first(2)] e1 have later:
    "\<forall>c \<in> set cs. blank_registered ns msa (mc_name c) t \<and> \<not> has_key orph (blank_key ns msa (mc_name c))"
    "\<forall>c0. blank_registered ns msa c0 u \<longrightarrow> blank_registered ns msa c0 t"
    "\<forall>k. \<not> has_key o1 k \<longrightarrow> \<not> has_key orph k" by auto
  have "\<not> has_key o1 (blank_key ns msa (mc_name c))" using first(5) by simp
  with later(3) have "\<not> has_key orph (blank_key ns msa (mc_name c))" by blast
  moreover have "\<forall>k. \<not> has_key (fst acc) k \<longrightarrow> \<not> has_key o1 k" using first(5) by simp
  ultimately show ?case using first(1,3,4) later by (auto simp del: split_paired_All)
qed

lemma blank_identity:
  "mget (s_string_data (createBlankClusterSecret ns c msa)) ''name'' = mc_name c"
  "m_name (s_meta (createBlankClusterSecret ns c msa)) = mc_name c @ ''-'' @ or_default msa @ ''-cluster-secret''"
  "map_of (m_labels (s_meta (createBlankClusterSecret ns c msa))) ArgocdClusterSecretLabel = Some ''true''"
  by (simp_all add: createBlankClusterSecret_def cluster_labels_def map_add_def secret_labels clusterSecretSuffix_def mget_def)

lemma token_identity:
  "m_name (s_meta (token_secret ns c msa url tok tls src)) = mc_name c @ ''-'' @ msa @ ''-cluster-secret''"
  "map_of (m_labels (s_meta (token_secret ns c msa url tok tls src))) argoSecretType = Some ''cluster''"
  "map_of (m_labels (s_meta (token_secret ns c msa url tok tls src))) ArgocdClusterSecretLabel = Some ''true''"
  "map_of (m_labels (s_meta (token_secret ns c msa url tok tls src))) ACMClusterNameLabel = Some (mc_name c)"
  "mget (s_string_data (token_secret ns c msa url tok tls src)) ''name'' = mc_name c"
  "mget (s_string_data (token_secret ns c msa url tok tls src)) ''server'' = url"
  "mget (s_string_data (token_secret ns c msa url tok tls src)) ''config'' = cluster_config tok tls"
  by (simp_all add: token_secret_def cluster_labels_def map_add_def secret_labels mget_def)

section \<open>Properties\<close>

text \<open>
  C34: a truncated label value is a prefix of the input of at most 63 characters that is empty or ends
  in a letter or digit, and it is the longest such prefix.
\<close>
theorem truncate_label_valid:
  "(\<exists>rest. s = truncateLabelValue s @ rest) \<and> length (truncateLabelValue s) \<le> 63
    \<and> (truncateLabelValue s = [] \<or> is_alnum (last (truncateLabelValue s)))
    \<and> (\<forall>p rest. s = p @ rest \<and> length p \<le> 63 \<and> p \<noteq> [] \<and> is_alnum (last p) \<longrightarrow>
          length p \<le> length (truncateLabelValue s))"
proof -
  let ?s = "take 63 s" and ?p = "\<lambda>c. \<not> is_alnum c"
  have v: "truncateLabelValue s = trim_right_func ?p ?s" by (simp add: truncateLabelValue_def)
  obtain t where t: "?s = trim_right_func ?p ?s @ t" using trim_right_func_prefix by blast
  have "s = trim_right_func ?p ?s @ (t @ drop 63 s)"
    by (metis t append_assoc append_take_drop_id)
  moreover have "length (trim_right_func ?p ?s) \<le> 63"
    using length_trim_right_func [of ?p ?s] by simp
  moreover have "trim_right_func ?p ?s = [] \<or> is_alnum (last (trim_right_func ?p ?s))"
    using last_trim_right_func by blast
  moreover have "length p \<le> length (trim_right_func ?p ?s)"
    if p: "s = p @ rest" "length p \<le> 63" "p \<noteq> []" "is_alnum (last p)" for p rest
  proof -
    have s: "?s = p @ take (63 - length p) rest" using p by simp
    obtain t where "trim_right_func ?p (p @ take (63 - length p) rest) = p @ t"
      using trim_right_func_keep [of p ?p "take (63 - length p) rest"] p by auto
    then show ?thesis by (simp add: s)
  qed
  ultimately show ?thesis unfolding v by blast
qed

text \<open>
  the identity of a cluster secret. Whatever source the fallback chain uses, and however requests
  fail, it only reads; the secret it returns is in the Argo CD namespace and carries Argo CD's and
  ACM's labels, which the labels of the ManagedCluster cannot override; and unless it is copied from a
  legacy secret it is named after the cluster and the managed service account and names the cluster in
  its label and its data.
\<close>
theorem cluster_secret_identity:
  assumes "run_state (createClusterSecretWithFallback net argoNs cluster info msaRef blank legacy) w = (Inr (s, src), w')"
  shows "quiet w w' \<and> m_ns (s_meta s) = argoNs
      \<and> map_of (m_labels (s_meta s)) argoSecretType = Some ''cluster''
      \<and> map_of (m_labels (s_meta s)) ArgocdClusterSecretLabel = Some ''true''
      \<and> (blank \<longleftrightarrow> src = DataSourceBlankSecret)
      \<and> (src \<noteq> DataSourceLegacySecret \<longrightarrow>
           m_name (s_meta s) = mc_name cluster @ ''-'' @ or_default msaRef @ ''-cluster-secret''
           \<and> map_of (m_labels (s_meta s)) ACMClusterNameLabel = Some (mc_name cluster)
           \<and> mget (s_string_data s) ''name'' = mc_name cluster)"
proof -
  have q: "quiet w w'" by (rule state_io_relD [OF fallback_quiet assms])
  from assms show ?thesis
  proof (cases rule: fallback_cases)
    case blank
    with q show ?thesis by (simp add: blank_secret_facts(2,3) blank_identity)
  next
    case proxy
    with q proxy_secret_shape [OF proxy(4)] show ?thesis by (auto simp: token_identity)
  next
    case msa
    with q msa_secret_shape [OF msa(3)] show ?thesis by (auto simp: token_identity)
  next
    case legacy
    with q legacy_ns [OF legacy(3)] legacy_labels [OF legacy(3)] show ?thesis by auto
  qed
qed

text \<open>
  traffic through the cluster proxy is never insecure: a secret built from the proxy points at the
  proxy's path for the cluster, with a non-empty token and TLS verified against a non-empty CA bundle;
  and one built from the client configs verifies TLS whenever the config chosen has a CA bundle, unless
  the legacy annotation asks otherwise.
\<close>
theorem proxy_secret_secure:
  assumes "run_state (createClusterSecretWithFallback net argoNs cluster info msaRef blank legacy) w = (Inr (s, src), w')"
  shows "(src = DataSourceClusterProxy \<longrightarrow> \<not> legacy \<and> mget (s_string_data s) ''server'' = GetClusterProxyURL info (mc_name cluster)
      \<and> (\<exists>tok ca. tok \<noteq> [] \<and> ca \<noteq> [] \<and> mget (s_string_data s) ''config'' = cluster_config tok (secure_tls ca)))
    \<and> (src = DataSourceManagedServiceAccount \<and> \<not> legacy \<and> snd (first_url (mc_configs cluster)) \<noteq> [] \<longrightarrow>
        (\<exists>tok. tok \<noteq> [] \<and> mget (s_string_data s) ''config'' =
            cluster_config tok (secure_tls (snd (first_url (mc_configs cluster))))))"
  using assms
proof (cases rule: fallback_cases)
  case proxy
  from proxy_secret_shape [OF proxy(4)] obtain tok ca where "tok \<noteq> []" "ca \<noteq> []"
    "s = token_secret argoNs cluster (or_default msaRef) (GetClusterProxyURL info (mc_name cluster)) tok
          (secure_tls ca) ''cluster-proxy''" by blast
  with proxy show ?thesis by (simp add: token_identity) blast
next
  case msa
  from msa_secret_shape [OF msa(3)] obtain url tok tls where "tok \<noteq> []"
    "s = token_secret argoNs cluster (or_default msaRef) url tok tls ''managed-service-account''"
    "\<not> legacy \<and> snd (first_url (mc_configs cluster)) \<noteq> [] \<longrightarrow> tls = secure_tls (snd (first_url (mc_configs cluster)))"
    by blast
  with msa show ?thesis by (simp add: token_identity) blast
qed simp_all

text \<open>
  C24: cleaning up replaced secrets is safe. However requests fail, a secret changes only if it is a
  removable one: an ACM cluster secret of the same cluster and namespace, under another name, not of the
  agent mode, and, unless the server denies that Applications are a kind, with the server of the new
  secret or one that no Application of the namespace has as its destination.
\<close>
theorem old_secret_cleanup_safe:
  assumes "keyed s_meta (w_secrets w)"
    and "map_of (w_secrets (snd (run_state (cleanupOldArgoClusterSecrets new cluster) w))) k \<noteq> map_of (w_secrets w) k"
  shows "\<exists>old. map_of (w_secrets w) k = Some old \<and> removable w new cluster old"
proof -
  obtain r t where run: "run_state (cleanupOldArgoClusterSecrets new cluster) w = (r, t)"
    by (rule prod.exhaust)
  with cleanupOldArgo_cleaning [OF assms(1) run] assms(2) have "k \<in> removable_keys w new cluster"
    unfolding cleaning_secrets_def secret_writes_def by (auto dest!: changes_onlyD [of _ _ _ _ k])
  then show ?thesis by simp
qed

text \<open>
  cleaning up replaced secrets is complete: when no request is rejected the store afterwards is the
  one before without the removable secrets.
\<close>
theorem old_secret_cleanup_complete:
  assumes "calm w" and "keyed s_meta (w_secrets w)"
  shows "map_of (w_secrets (snd (run_state (cleanupOldArgoClusterSecrets new cluster) w))) k =
    (case map_of (w_secrets w) k of
       None \<Rightarrow> None | Some old \<Rightarrow> if removable w new cluster old then None else Some old)"
proof -
  obtain t where "run_state (cleanupOldArgoClusterSecrets new cluster) w = ((), t)"
    "\<forall>k. map_of (w_secrets t) k =
       (case map_of (w_secrets w) k of
          None \<Rightarrow> None | Some old \<Rightarrow> if removable w new cluster old then None else Some old)"
    using cleanupOldArgo_calm [OF assms] by blast
  then show ?thesis by (simp del: split_paired_All)
qed

text \<open>
  importing clusters writes only secrets, and only those of the Argo CD namespace and the long-lived
  token secrets of the imported clusters, however requests fail.
\<close>
theorem add_clusters_frame:
  fixes net g clusters orphanList blank w k
  assumes "keyed s_meta (w_secrets w)"
    and "fst k \<noteq> gs_argo_ns (gc_spec g)"
    and "\<forall>c \<in> set clusters. k \<noteq> (mc_name c, mc_name c @ clusterSecretSuffix)"
  defines "w' \<equiv> snd (run_state (AddManagedClustersToArgo net g clusters orphanList blank) w)"
  shows "keyed s_meta (w_secrets w') \<and> map_of (w_secrets w') k = map_of (w_secrets w) k"
proof -
  have "secret_writes (touchable (gs_argo_ns (gc_spec g)) clusters) w w'"
    unfolding w'_def using inv_frame.frame_snd [OF addAll_keeps, of g clusters w w] assms(1)
    by (auto simp: secret_writes_def changes_only_def)
  moreover have "k \<notin> touchable (gs_argo_ns (gc_spec g)) clusters"
    using assms(2,3) by (auto simp: touchable_def)
  ultimately show ?thesis unfolding secret_writes_def by (blast dest: changes_onlyD)
qed

text \<open>
  C23: a pull-model import that reports no error registers every cluster: its secret exists afterwards
  under the expected name, labelled and naming the cluster, no clean-up of another cluster's import
  removed it, and it is not among the orphans.
\<close>
theorem blank_import_registers:
  assumes "run_state (AddManagedClustersToArgo net g clusters orphanList True) w = ((orphans, None), w')"
    and "gs_placement (gc_spec g) \<noteq> None" and "keyed s_meta (w_secrets w)" and "c \<in> set clusters"
  shows "blank_registered (gs_argo_ns (gc_spec g)) (gs_msa_ref (gc_spec g)) (mc_name c) w'
    \<and> \<not> has_key orphans (blank_key (gs_argo_ns (gc_spec g)) (gs_msa_ref (gc_spec g)) (mc_name c))"
proof -
  let ?ns = "gs_argo_ns (gc_spec g)"
  obtain n u where n: "run_state (GetAllNonAcmManagedClusterSecretsInArgo ?ns) w = (n, u)" by (rule prod.exhaust)
  obtain i v where i: "run_state GetClusterProxyInfo u = (i, v)" by (rule prod.exhaust)
  from assms(1,2) n i obtain nonAcm where
    "run_state (loopM (addCluster net ?ns nonAcm (fst i) (gs_msa_ref (gc_spec g)) True (legacy_requested g))
       (orphanList, None) clusters) v = ((orphans, None), w')"
    by (auto simp: AddManagedClustersToArgo_def Let_def split: sum.splits)
  moreover have "w_secrets v = w_secrets w"
    using quiet_sel(1) [OF state_io_relD [OF non_acm_quiet n]] quiet_sel(1) [OF state_io_relD [OF proxy_info_quiet i]] by simp
  ultimately show ?thesis using addClusters_blank assms(3,4) by fastforce
qed

section \<open>Witnesses\<close>

definition sample_cluster :: managed_cluster where
  "sample_cluster =
     \<lparr>mc_meta = plain_meta ''c1'' [] [(ACMClusterNameLabel, ''forged''), (''env'', ''prod'')] [],
      mc_configs = [\<lparr>cc_url = ''api.c1:6443'', cc_ca = ''CA''\<rparr>], mc_conditions = []\<rparr>"

definition sample_secret :: "string \<Rightarrow> string \<Rightarrow> secret" where
  "sample_secret nm server =
     \<lparr>s_meta = plain_meta nm ''argo'' (cluster_labels ''c1'' ''x'') [], s_type = ''Opaque'',
      s_data = [(''name'', ''c1''), (''server'', server)], s_string_data = []\<rparr>"

text \<open>A managed service account with a token, the proxy service and its CA, and two older secrets.\<close>

definition import_world :: world where
  "import_world = empty_world\<lparr>
     w_services := [((clusterProxyServiceNamespace, clusterProxyServiceName), \<lparr>sv_meta = plain_meta clusterProxyServiceName clusterProxyServiceNamespace [] [], sv_type = ''ClusterIP'',
        sv_ports = [\<lparr>sp_name = ''proxy'', sp_port = 9092, sp_nodePort = 0\<rparr>], sv_ingress = []\<rparr>)],
     w_configmaps := [((''c1'', serviceCAConfigMapName),
        \<lparr>cm_meta = plain_meta serviceCAConfigMapName ''c1'' [] [], cm_data = [(serviceCAKey, ''PEM'')]\<rparr>)],
     w_accounts := [((''c1'', componentName), 
        \<lparr>sa_meta = plain_meta componentName ''c1'' [] [],
         sa_token_ref = Some \<lparr>tr_name = ''tok'', tr_refreshed = []\<rparr>, sa_expiration = None\<rparr>)],
     w_secrets := [((''c1'', ''tok''), \<lparr>s_meta = plain_meta ''tok'' ''c1'' [] [], s_type = ''Opaque'',
                       s_data = [(''token'', ''T'')], s_string_data = []\<rparr>),
                   ((''argo'', ''old''), sample_secret ''old'' ''https://gone''),
                   ((''argo'', ''new''), sample_secret ''new'' ''https://here'')]\<rparr>"

lemma import_world_facts:
  "calm import_world" "keyed s_meta (w_secrets import_world)"
  by (simp_all add: import_world_def empty_world_def keyed_def sample_secret_def)

definition sample_net :: net where
  "sample_net = \<lparr>ne_token = (\<lambda>_. Inl (ErrText [])), ne_valid_url = (\<lambda>_. False), ne_reach = (\<lambda>_ _ _. False)\<rparr>"

abbreviation proxy_info_1 :: proxy_info where
  "proxy_info_1 \<equiv> \<lparr>px_port = ''9092'', px_available = True, px_host = ''proxy:9092''\<rparr>"

lemma import_run:
  "run_state (createClusterSecretWithFallback sample_net ''argo'' sample_cluster proxy_info_1 [] False False) import_world =
     (Inr (token_secret ''argo'' sample_cluster componentName ''https://proxy:9092/c1'' ''T'' (secure_tls ''PEM'') ''cluster-proxy'',
           DataSourceClusterProxy), import_world)"
  by (simp add: createClusterSecretWithFallback_def CreateManagedClusterSecretViaClusterProxy_def
      GetServiceCAFromConfigMap_def GetManagedServiceAccountToken_def GetClusterProxyURL_def run_simps
      verdict_def import_world_def empty_world_def sample_cluster_def or_default_def Let_def consume_def
      componentName_def mget_def)

theorem truncate_label_valid_witness:
  "truncateLabelValue ''a.b-'' = ''a.b''"
proof -
  obtain rest where r: "''a.b-'' = truncateLabelValue ''a.b-'' @ rest"
    and l: "truncateLabelValue ''a.b-'' = [] \<or> is_alnum (last (truncateLabelValue ''a.b-''))"
    using truncate_label_valid [of "''a.b-''"] by blast
  have "\<forall>p rest. ''a.b-'' = p @ rest \<and> length p \<le> 63 \<and> p \<noteq> [] \<and> is_alnum (last p) \<longrightarrow>
      length p \<le> length (truncateLabelValue ''a.b-'')"
    using truncate_label_valid [of "''a.b-''"] by blast
  from this [THEN spec [of _ "''a.b''"], THEN spec [of _ "''-''"]]
  have "3 \<le> length (truncateLabelValue ''a.b-'')" by (simp add: is_alnum_def)
  moreover define v where "v = truncateLabelValue ''a.b-''"
  ultimately have "v = ''a.b''"
    using r l unfolding v_def [symmetric] by (auto simp: Cons_eq_append_conv is_alnum_def)
  then show ?thesis by (simp add: v_def)
qed

theorem cluster_secret_identity_witness:
  "\<exists>s. fst (run_state (createClusterSecretWithFallback sample_net ''argo'' sample_cluster proxy_info_1 [] False False) import_world)
       = Inr (s, DataSourceClusterProxy)
     \<and> m_name (s_meta s) = ''c1-application-manager-cluster-secret''
     \<and> map_of (m_labels (s_meta s)) ACMClusterNameLabel = Some ''c1''"
  using cluster_secret_identity [OF import_run] import_run
  by (simp add: sample_cluster_def or_default_def componentName_def)

theorem proxy_secret_secure_witness:
  "\<exists>s tok ca. fst (run_state (createClusterSecretWithFallback sample_net ''argo'' sample_cluster proxy_info_1 [] False False) import_world)
       = Inr (s, DataSourceClusterProxy)
     \<and> ca \<noteq> [] \<and> mget (s_string_data s) ''config'' = cluster_config tok (secure_tls ca)"
  using proxy_secret_secure [OF import_run] import_run by auto

theorem old_secret_cleanup_safe_witness:
  "map_of (w_secrets (snd (run_state (cleanupOldArgoClusterSecrets (sample_secret ''new'' ''https://here'') ''c1'') import_world)))
     (''argo'', ''new'') = Some (sample_secret ''new'' ''https://here'')"
proof (rule ccontr)
  let ?k = "(''argo'', ''new'')"
  have m: "map_of (w_secrets import_world) ?k = Some (sample_secret ''new'' ''https://here'')"
    by (simp add: import_world_def)
  assume "\<not> ?thesis"
  with m have "map_of (w_secrets (snd (run_state (cleanupOldArgoClusterSecrets (sample_secret ''new'' ''https://here'') ''c1'') import_world))) ?k
      \<noteq> map_of (w_secrets import_world) ?k" by simp
  from old_secret_cleanup_safe [OF import_world_facts(2) this] m show False
    by (auto simp: removable_def)
qed

theorem old_secret_cleanup_complete_witness:
  "map_of (w_secrets (snd (run_state (cleanupOldArgoClusterSecrets (sample_secret ''new'' ''https://here'') ''c1'') import_world)))
     (''argo'', ''old'') = None"
proof -
  have "map_of (w_secrets import_world) (''argo'', ''old'') = Some (sample_secret ''old'' ''https://gone'')"
    by (simp add: import_world_def)
  moreover have "removable import_world (sample_secret ''new'' ''https://here'') ''c1'' (sample_secret ''old'' ''https://gone'')"
    by (simp add: removable_def old_secret_selector_def sample_secret_def cluster_labels_def has_label_def has_key_def
        secret_labels app_refers_def import_world_def empty_world_def)
  ultimately show ?thesis
    using old_secret_cleanup_complete [OF import_world_facts, of "sample_secret ''new'' ''https://here''" "''c1''" "(''argo'', ''old'')"]
    by simp
qed

abbreviation blank_import :: "(world, orphans \<times> goerr option) state" where
  "blank_import \<equiv>
     AddManagedClustersToArgo sample_net sample_gitops [sample_cluster] [((''argo'', ''c1-application-manager-cluster-secret''), [])] True"

theorem add_clusters_frame_witness:
  "map_of (w_secrets (snd (run_state blank_import import_world))) (''c1'', ''tok'') = map_of (w_secrets import_world) (''c1'', ''tok'')"
  by (rule add_clusters_frame [OF import_world_facts(2), THEN conjunct2])
     (simp_all add: sample_gitops_def sample_cluster_def clusterSecretSuffix_def)

lemma blank_import_run:
  "\<exists>os w'. run_state blank_import import_world = ((os, None), w')"
proof -
  have c: "calm import_world" by (rule import_world_facts)
  have "run_state (GetAllNonAcmManagedClusterSecretsInArgo ''argo'') import_world = (Inr [], import_world)"
    by (simp add: GetAllNonAcmManagedClusterSecretsInArgo_def run_simps import_world_def empty_world_def verdict_def
        consume_def sample_secret_def cluster_labels_def add_non_acm_def has_label_def has_key_def secret_labels)
  moreover have "run_state (writeClusterSecret (createBlankClusterSecret ''argo'' sample_cluster componentName)) w =
      (Inr (createBlankClusterSecret ''argo'' sample_cluster componentName),
       w_secrets_update (mset_key (''argo'', ''c1-application-manager-cluster-secret'')
         (persist_secret (createBlankClusterSecret ''argo'' sample_cluster componentName))) (consume (consume w)))"
    if "calm w" "w_secrets w = w_secrets import_world" for w
    using that
    by (simp add: writeClusterSecret_def run_simps skey_def createBlankClusterSecret_def sample_cluster_def or_default_def
        componentName_def clusterSecretSuffix_def import_world_def has_key_def)
  moreover obtain i v where "run_state GetClusterProxyInfo import_world = (i, v)" by (rule prod.exhaust)
  moreover from this have "calm v" "w_secrets v = w_secrets import_world"
    using quiet_sel [OF state_io_relD [OF proxy_info_quiet]] c by metis+
  ultimately show ?thesis
    by (simp add: AddManagedClustersToArgo_def sample_gitops_def addCluster_def storeCluster_def finishCluster_def
        createClusterSecretWithFallback_def or_default_def Let_def componentName_def split: prod.splits)
qed

theorem blank_import_registers_witness:
  "blank_registered ''argo'' [] ''c1'' (snd (run_state blank_import import_world))"
proof -
  obtain os w' where r: "run_state blank_import import_world = ((os, None), w')"
    using blank_import_run by blast
  from blank_import_registers [OF r _ import_world_facts(2), of sample_cluster] r show ?thesis
    by (simp add: sample_gitops_def sample_cluster_def)
qed

end
