(* ===== verification/GitOpsClusters.thy ===== *)
theory GitOpsClusters
  imports ImportClusters "HOL-Library.Multiset"
begin

text \<open>
  The parts of \<open>pkg/controller/gitopscluster/gitopscluster_controller.go\<close> around one reconcile:
  which namespace a GitOpsCluster may write to, which one a PlacementDecision concerns, the validation
  of its specification, and the removal of orphan cluster secrets; and the placement lookup of
  \<open>server_discovery.go\<close>.
\<close>

section \<open>The Argo CD namespace\<close>

definition LabelKeyAllowedArgoNamespace :: string where
  "LabelKeyAllowedArgoNamespace = ''apps.open-cluster-management.io/gitops-argo-namespace''"

text \<open>\<open>%q\<close> of a name, which needs no escapes.\<close>

definition quoted :: "string \<Rightarrow> string" where
  "quoted s = [CHR 0x22] @ s @ [CHR 0x22]"

definition verifyArgoNamespaceAuthorized :: "gitops_cluster \<Rightarrow> string \<Rightarrow> unit api" where
  "verifyArgoNamespaceAuthorized instanc argoNamespace =
     (if argoNamespace = m_ns (gc_meta instanc) then State_Monad.return (Inr ())
      else do {
        g \<leftarrow> get_namespace ([], argoNamespace);
        State_Monad.return (case g of
          Inl e \<Rightarrow> Inl (Wrapped (''unable to verify target argoNamespace '' @ quoted argoNamespace) e)
        | Inr ns \<Rightarrow>
            if mget (m_labels ns) LabelKeyAllowedArgoNamespace \<noteq> ''true'' then
              Inl (ErrText (''cross-namespace argoNamespace '' @ quoted argoNamespace @
                '' is not permitted: target Namespace must carry label '' @ LabelKeyAllowedArgoNamespace @ ''=true''))
            else Inr ())
      })"

definition GetEffectiveArgoNamespace :: "gitops_cluster \<Rightarrow> string" where
  "GetEffectiveArgoNamespace g =
     (if gs_argo_ns (gc_spec g) \<noteq> [] then gs_argo_ns (gc_spec g) else m_ns (gc_meta g))"

definition has_labels :: "smap \<Rightarrow> smap \<Rightarrow> bool" where
  "has_labels wanted labels \<longleftrightarrow> list_all (\<lambda>(k, v). map_of labels k = Some v) wanted"

definition FindServiceWithLabelsAndNamespace :: "string \<Rightarrow> smap \<Rightarrow> (world, bool) state" where
  "FindServiceWithLabelsAndNamespace ns wanted = do {
     l \<leftarrow> list_services (\<lambda>s. m_ns (sv_meta s) = ns \<and> has_labels wanted (m_labels (sv_meta s)));
     State_Monad.return (case l of Inl e \<Rightarrow> False | Inr items \<Rightarrow> length items \<noteq> 0)
   }"

definition VerifyArgocdNamespace :: "string \<Rightarrow> (world, bool) state" where
  "VerifyArgocdNamespace argoNamespace =
     FindServiceWithLabelsAndNamespace argoNamespace
       [(''app.kubernetes.io/component'', ''server''), (''app.kubernetes.io/part-of'', ''argocd'')]"

section \<open>Placements\<close>

definition placementLabel :: string where
  "placementLabel = ''cluster.open-cluster-management.io/placement''"

text \<open>The loop over the GitOpsClusters of the namespace: it stops at the first that matches.\<close>

fun first_request :: "placement_decision \<Rightarrow> gitops_cluster list \<Rightarrow> goerr + nsname list" where
  "first_request obj [] = Inr []"
| "first_request obj (g # gs) =
     (case gs_placement (gc_spec g) of
        None \<Rightarrow> Inl (Panicked ''nil pointer dereference'')
      | Some ref \<Rightarrow>
          (if equal_fold (pr_name ref) (mget (m_labels (pd_meta obj)) placementLabel)
              \<and> equal_fold (m_ns (gc_meta g)) (m_ns (pd_meta obj))
           then Inr [(m_ns (gc_meta g), m_name (gc_meta g))]
           else first_request obj gs))"

definition mapPlacementDecision :: "placement_decision \<Rightarrow> (world, goerr + nsname list) state" where
  "mapPlacementDecision obj = do {
     l \<leftarrow> list_gitops (\<lambda>g. m_ns (gc_meta g) = m_ns (pd_meta obj));
     State_Monad.return (first_request obj (case l of Inl e \<Rightarrow> [] | Inr items \<Rightarrow> items))
   }"

definition valid_placement_ref :: "placement_ref \<Rightarrow> bool" where
  "valid_placement_ref ref \<longleftrightarrow>
     pr_kind ref = ''Placement'' \<and>
     (equal_fold (pr_apiVersion ref) ''cluster.open-cluster-management.io/v1alpha1'' \<or>
      equal_fold (pr_apiVersion ref) ''cluster.open-cluster-management.io/v1beta1'')"

definition errInvalidPlacementRef :: goerr where
  "errInvalidPlacementRef = ErrText ''invalid placement reference''"

definition get_decided :: "managed_cluster list \<Rightarrow> string \<Rightarrow> (world, goerr + managed_cluster list) state" where
  "get_decided acc cluster = do {
     g \<leftarrow> get_cluster ([], cluster);
     State_Monad.return (case g of Inl e \<Rightarrow> Inl e | Inr c \<Rightarrow> Inr (acc @ [c]))
   }"

definition decision_of :: "string \<Rightarrow> string \<Rightarrow> placement_decision \<Rightarrow> bool" where
  "decision_of ns placement d \<longleftrightarrow>
     m_ns (pd_meta d) = ns \<and> map_of (m_labels (pd_meta d)) placementLabel = Some placement"

definition GetManagedClusters :: "string \<Rightarrow> placement_ref \<Rightarrow> managed_cluster list api" where
  "GetManagedClusters ns ref =
     (if \<not> valid_placement_ref ref then State_Monad.return (Inl errInvalidPlacementRef)
      else do {
        p \<leftarrow> get_placement (ns, pr_name ref);
        case p of
          Inl e \<Rightarrow> State_Monad.return (Inl e)
        | Inr placement \<Rightarrow> do {
            l \<leftarrow> list_decisions (decision_of ns (pr_name ref));
            case l of
              Inl e \<Rightarrow> State_Monad.return (Inl e)
            | Inr ds \<Rightarrow> loopE get_decided [] (concat (map pd_clusters ds))
          }
      })"

section \<open>Validation\<close>

definition ValidateArgoCDAgentSpec :: "agent_spec option \<Rightarrow> goerr + unit" where
  "ValidateArgoCDAgentSpec agent =
     (case agent of
        None \<Rightarrow> Inr ()
      | Some a \<Rightarrow>
          (if ag_mode a \<noteq> [] \<and> \<not> list_ex (\<lambda>m. ag_mode a = m) [''managed'', ''autonomous''] then
             Inl (ErrText (''invalid Mode '' @ [CHR 0x27] @ ag_mode a @ [CHR 0x27] @
               '': must be one of [managed autonomous]''))
           else Inr ()))"

definition ValidateGitOpsAddonSpec :: "addon_spec option \<Rightarrow> goerr + unit" where
  "ValidateGitOpsAddonSpec addon =
     (case addon of
        None \<Rightarrow> Inr ()
      | Some a \<Rightarrow>
          (case ValidateArgoCDAgentSpec (ad_agent a) of
             Inl e \<Rightarrow> Inl (Wrapped ''ArgoCDAgent validation failed'' e)
           | Inr _ \<Rightarrow> Inr ()))"

definition GetAllGitOpsClusters :: "gitops_cluster list api" where
  "GetAllGitOpsClusters = list_gitops (\<lambda>_. True)"

definition IsLocalCluster :: "managed_cluster option \<Rightarrow> bool" where
  "IsLocalCluster c =
     (case c of
        None \<Rightarrow> False
      | Some mc \<Rightarrow> mc_name mc = ''local-cluster'' \<or> map_of (mc_labels mc) ''local-cluster'' = Some ''true'')"

definition isObjectGoneError :: "goerr \<Rightarrow> bool" where
  "isObjectGoneError e \<longleftrightarrow>
     is_not_found e \<or> is_conflict e \<or>
     str_contains (err_text e) ''StorageError'' \<or> str_contains (err_text e) ''UID in precondition''"

section \<open>Orphan secrets\<close>

text \<open>What a reconcile starts from: every cluster secret in any namespace, with its printed key.\<close>

definition orphan_candidates :: "secret list \<Rightarrow> orphans" where
  "orphan_candidates items =
     fold (\<lambda>s m. mset_key (skey s) (m_ns (s_meta s) @ ''/'' @ m_name (s_meta s)) m) items []"

definition secret_owner :: "secret \<Rightarrow> string" where
  "secret_owner s =
     (if mget (m_labels (s_meta s)) ACMClusterNameLabel = [] then mget (s_data s) ''name''
      else mget (m_labels (s_meta s)) ACMClusterNameLabel)"

definition cleanupOrphan :: "bool \<Rightarrow> nsname \<times> string \<Rightarrow> (world, bool) state" where
  "cleanupOrphan ok entry = do {
     g \<leftarrow> get_secret (fst entry);
     case g of
       Inl e \<Rightarrow> State_Monad.return ok
     | Inr s \<Rightarrow>
         (if secret_owner s = [] then State_Monad.return ok
          else do {
            c \<leftarrow> get_cluster ([], secret_owner s);
            case c of
              Inr mc \<Rightarrow> State_Monad.return ok
            | Inl e \<Rightarrow>
                (if \<not> is_not_found e then State_Monad.return False
                 else do {
                   d \<leftarrow> delete_secret (skey s);
                   State_Monad.return (case d of Inl e' \<Rightarrow> False | Inr _ \<Rightarrow> ok)
                 })
          })
   }"

definition cleanupOrphanSecrets :: "orphans \<Rightarrow> (world, bool) state" where
  "cleanupOrphanSecrets orphanList = loopM cleanupOrphan True orphanList"

section \<open>Facts\<close>

lemma authorized_quiet: "state_io_rel quiet (verifyArgoNamespaceAuthorized g ns)"
  unfolding verifyArgoNamespaceAuthorized_def by (intro quiet.frame_rules get_quiet)

lemma managed_clusters_quiet: "state_io_rel quiet (GetManagedClusters ns ref)"
  unfolding GetManagedClusters_def get_decided_def by (intro quiet.frame_rules get_quiet list_quiet)

definition concerns :: "placement_decision \<Rightarrow> gitops_cluster \<Rightarrow> bool" where
  "concerns obj g \<longleftrightarrow>
     (\<exists>ref. gs_placement (gc_spec g) = Some ref \<and>
        equal_fold (pr_name ref) (mget (m_labels (pd_meta obj)) placementLabel))
     \<and> equal_fold (m_ns (gc_meta g)) (m_ns (pd_meta obj))"

lemma first_request_Inl:
  "first_request obj gs = Inl e \<Longrightarrow>
     \<exists>pre g post. gs = pre @ g # post \<and> gs_placement (gc_spec g) = None \<and> (\<forall>h \<in> set pre. \<not> concerns obj h)"
proof (induction gs)
  case (Cons g gs)
  show ?case
  proof (cases "gs_placement (gc_spec g)")
    case None
    then show ?thesis by (intro exI [of _ "[]"]) auto
  next
    case (Some ref)
    then have g: "\<not> concerns obj g" "first_request obj gs = Inl e"
      using Cons.prems by (auto simp: concerns_def split: if_splits)
    from Cons.IH [OF g(2)] obtain pre h post where
      "gs = pre @ h # post" "gs_placement (gc_spec h) = None" "\<forall>x \<in> set pre. \<not> concerns obj x" by blast
    with g(1) show ?thesis
      by (intro exI [of _ "g # pre"] exI [of _ h] exI [of _ post]) simp
  qed
qed simp

lemma first_request_panics:
  "gs_placement (gc_spec g) = None \<Longrightarrow> \<forall>h \<in> set pre. \<not> concerns obj h \<Longrightarrow>
     \<exists>e. first_request obj (pre @ g # post) = Inl e"
  by (induction pre) (auto simp: concerns_def split: option.splits)

lemma first_request_Inr:
  "first_request obj gs = Inr ks \<Longrightarrow> ks \<noteq> [] \<Longrightarrow>
     \<exists>g \<in> set gs. concerns obj g \<and> ks = [(m_ns (gc_meta g), m_name (gc_meta g))]"
  by (induction gs) (auto simp: concerns_def split: option.splits if_splits)

lemma first_request_none:
  "first_request obj gs = Inr [] \<Longrightarrow> \<forall>g \<in> set gs. \<not> concerns obj g"
  by (induction gs) (auto simp: concerns_def split: option.splits if_splits)

text \<open>The clusters the decisions name, read one by one.\<close>

lemma get_decided_run:
  "run_state (get_decided acc n) w =
     (case verdict w of
        Some e \<Rightarrow> Inl e
      | None \<Rightarrow> (case map_of (w_clusters w) ([], n) of
                    None \<Rightarrow> Inl (not_found ''managedclusters'' ([], n)) | Some c \<Rightarrow> Inr (acc @ [c])), consume w)"
  by (simp add: get_decided_def run_simps split: option.splits)

lemma get_decided_loop:
  "run_state (loopE get_decided acc ns) w = (Inr cs, w') \<Longrightarrow>
     \<exists>found. cs = acc @ found \<and> map Some found = map (\<lambda>n. map_of (w_clusters w) ([], n)) ns"
proof (induction ns arbitrary: acc w)
  case (Cons n ns)
  then obtain c where c: "map_of (w_clusters w) ([], n) = Some c"
    "run_state (loopE get_decided (acc @ [c]) ns) (consume w) = (Inr cs, w')"
    by (auto simp: get_decided_run split: option.splits)
  from Cons.IH [OF c(2)] obtain found where
    "cs = (acc @ [c]) @ found" "map Some found = map (\<lambda>n. map_of (w_clusters w) ([], n)) ns"
    by auto
  with c(1) show ?case by (intro exI [of _ "c # found"]) simp
qed simp

text \<open>An orphan whose ManagedCluster is gone.\<close>

definition ownerless :: "world \<Rightarrow> secret \<Rightarrow> bool" where
  "ownerless w s \<longleftrightarrow> secret_owner s \<noteq> [] \<and> map_of (w_clusters w) ([], secret_owner s) = None"

abbreviation ownerless_keys :: "world \<Rightarrow> orphans \<Rightarrow> nsname set" where
  "ownerless_keys w os \<equiv> {k \<in> fst ` set os. \<exists>s. map_of (w_secrets w) k = Some s \<and> ownerless w s}"

definition removing :: "world \<Rightarrow> orphans \<Rightarrow> world \<Rightarrow> bool" where
  "removing w os t \<longleftrightarrow>
     honest t \<and> keyed s_meta (w_secrets t) \<and> w_clusters t = w_clusters w
     \<and> deletes_only (ownerless_keys w os) w_secrets w t"

lemma removing_consume [simp]: "removing w os (consume t) \<longleftrightarrow> removing w os t" if "honest t"
  using that by (simp add: removing_def deletes_only_def)

lemma cleanupOrphan_removing:
  assumes "entry \<in> set os"
  shows "state_io_rel (\<lambda>s t. removing w os s \<longrightarrow> removing w os t) (cleanupOrphan ok entry)"
proof (rule state_io_relI, rule impI)
  fix r s t
  assume run: "run_state (cleanupOrphan ok entry) s = (r, t)" and inv: "removing w os s"
  have h: "honest s" "honest (consume s)" "honest (consume (consume s))" using inv by (simp_all add: removing_def)
  have inv': "removing w os (consume s)" "removing w os (consume (consume s))"
    "removing w os (consume (consume (consume s)))" using inv h by simp_all
  show "removing w os t"
  proof (cases "map_of (w_secrets s) (fst entry)")
    case None
    with run inv' show ?thesis by (auto simp: cleanupOrphan_def run_simps split: option.splits)
  next
    case (Some x)
    have k: "skey x = fst entry"
      using keyedD [of s_meta "w_secrets s" "fst entry" x] Some inv by (simp add: removing_def skey_def)
    have w: "map_of (w_secrets w) (fst entry) = Some x"
      using inv Some unfolding removing_def deletes_only_def by (metis option.distinct(1))
    have "removing w os (w_secrets_update (mdel_key (fst entry)) (consume (consume (consume s))))"
      if "ownerless w x"
      using inv' w that assms unfolding removing_def
      by (auto simp: keyed_mdel_key intro: deletes_only_mdel)
    moreover have "ownerless w x" if "secret_owner x \<noteq> []" "map_of (w_clusters s) ([], secret_owner x) = None"
      using that inv by (simp add: ownerless_def removing_def)
    ultimately show ?thesis
      using run inv' Some k honest_verdict [OF h(2)]
      by (auto simp: cleanupOrphan_def run_simps split: option.splits if_splits)
  qed
qed

lemma cleanupOrphan_calm:
  assumes "calm s" "keyed s_meta (w_secrets s)" "w_clusters s = w_clusters w"
  obtains t where "run_state (cleanupOrphan ok entry) s = (ok, t)" "calm t" "keyed s_meta (w_secrets t)"
    "w_clusters t = w_clusters w"
    "map_of (w_secrets t) =
       (case map_of (w_secrets s) (fst entry) of
          None \<Rightarrow> map_of (w_secrets s)
        | Some x \<Rightarrow> if ownerless w x then (map_of (w_secrets s))(fst entry := None) else map_of (w_secrets s))"
proof (cases "map_of (w_secrets s) (fst entry)")
  case None
  with assms that show ?thesis by (auto simp: cleanupOrphan_def run_simps)
next
  case (Some x)
  have k: "skey x = fst entry"
    using keyedD [OF assms(2) Some] by (simp add: skey_def)
  show ?thesis
  proof (cases "ownerless w x")
    case True
    with Some k assms that [of "w_secrets_update (mdel_key (fst entry)) (consume (consume (consume s)))"] show ?thesis
      by (auto simp: cleanupOrphan_def run_simps ownerless_def has_key_def keyed_mdel_key)
  next
    case False
    then have "run_state (cleanupOrphan ok entry) s =
        (ok, if secret_owner x = [] then consume s else consume (consume s))"
      using Some assms by (auto simp: cleanupOrphan_def run_simps ownerless_def)
    with False Some assms that show ?thesis by auto
  qed
qed

lemma cleanupOrphans_calm:
  assumes "calm s" "keyed s_meta (w_secrets s)" "w_clusters s = w_clusters w"
  shows "\<exists>t. run_state (loopM cleanupOrphan ok os) s = (ok, t) \<and> keyed s_meta (w_secrets t) \<and>
    map_of (w_secrets t) =
      (\<lambda>k. case map_of (w_secrets s) k of
             None \<Rightarrow> None | Some x \<Rightarrow> if k \<in> fst ` set os \<and> ownerless w x then None else Some x)"
  using assms
proof (induction os arbitrary: s)
  case Nil
  then show ?case by (auto simp: fun_eq_iff split: option.splits)
next
  case (Cons e os)
  obtain t where t: "run_state (cleanupOrphan ok e) s = (ok, t)" "calm t" "keyed s_meta (w_secrets t)"
    "w_clusters t = w_clusters w"
    "map_of (w_secrets t) =
       (case map_of (w_secrets s) (fst e) of
          None \<Rightarrow> map_of (w_secrets s)
        | Some x \<Rightarrow> if ownerless w x then (map_of (w_secrets s))(fst e := None) else map_of (w_secrets s))"
    by (rule cleanupOrphan_calm [OF Cons.prems])
  from Cons.IH [OF t(2-4)] obtain u where u: "run_state (loopM cleanupOrphan ok os) t = (ok, u)" "keyed s_meta (w_secrets u)"
    "map_of (w_secrets u) = (\<lambda>k. case map_of (w_secrets t) k of
             None \<Rightarrow> None | Some x \<Rightarrow> if k \<in> fst ` set os \<and> ownerless w x then None else Some x)" by blast
  have "map_of (w_secrets u) k = (case map_of (w_secrets s) k of
          None \<Rightarrow> None | Some x \<Rightarrow> if k \<in> fst ` set (e # os) \<and> ownerless w x then None else Some x)" for k
    by (cases "map_of (w_secrets s) (fst e)"; cases "map_of (w_secrets s) k"; cases "k = fst e")
       (auto simp: u(3) t(5))
  with t(1) u(1,2) show ?case by (auto simp: fun_eq_iff)
qed

section \<open>Properties\<close>

definition argo_permitted :: "world \<Rightarrow> gitops_cluster \<Rightarrow> string \<Rightarrow> bool" where
  "argo_permitted w g ns \<longleftrightarrow>
     ns = m_ns (gc_meta g) \<or>
     (\<exists>m. map_of (w_namespaces w) ([], ns) = Some m \<and>
          map_of (m_labels m) LabelKeyAllowedArgoNamespace = Some ''true'')"

text \<open>
  the namespace gate. However the request fails, a GitOpsCluster is let through only to its own
  namespace or to one whose Namespace object carries the admin's label with the value true; and when no
  request is rejected those are let through.
\<close>
theorem namespace_gate:
  "(fst (run_state (verifyArgoNamespaceAuthorized g ns) w) = Inr () \<longrightarrow> argo_permitted w g ns)
    \<and> (calm w \<and> argo_permitted w g ns \<longrightarrow> fst (run_state (verifyArgoNamespaceAuthorized g ns) w) = Inr ())"
  by (auto simp: argo_permitted_def verifyArgoNamespaceAuthorized_def run_simps mget_def split: option.splits if_splits)

text \<open>
  the clusters of a placement are exactly the ones its decisions name, in their order: when the
  lookup returns, the reference was valid, the Placement exists, every named ManagedCluster was found as
  stored, and nothing was written. A missing ManagedCluster fails the whole lookup.
\<close>
theorem managed_clusters_exact:
  assumes "run_state (GetManagedClusters ns ref) w = (Inr cs, w')"
  shows "valid_placement_ref ref \<and> map_of (w_placements w) (ns, pr_name ref) \<noteq> None \<and> quiet w w'
    \<and> map Some cs = map (\<lambda>n. map_of (w_clusters w) ([], n))
        (concat (map pd_clusters (filter (decision_of ns (pr_name ref)) (map snd (w_decisions w)))))"
proof -
  have q: "quiet w w'" by (rule state_io_relD [OF managed_clusters_quiet assms])
  from assms show ?thesis
    using q get_decided_loop [of "[]"]
    by (auto simp: GetManagedClusters_def run_simps split: if_splits option.splits)
qed

text \<open>
  a PlacementDecision reaches a GitOpsCluster of its namespace whose placement it belongs to, and
  no event is lost, unless the mapper panics: it does exactly when a GitOpsCluster without a placement
  reference is listed before the first one concerned.
\<close>
theorem placement_mapper:
  fixes obj w
  assumes "calm w"
  defines "gs \<equiv> filter (\<lambda>g. m_ns (gc_meta g) = m_ns (pd_meta obj)) (map snd (w_gitops w))"
  shows "case fst (run_state (mapPlacementDecision obj) w) of
      Inl e \<Rightarrow> \<exists>pre g post. gs = pre @ g # post \<and> gs_placement (gc_spec g) = None \<and> (\<forall>h \<in> set pre. \<not> concerns obj h)
    | Inr [] \<Rightarrow> \<forall>g \<in> set gs. \<not> concerns obj g
    | Inr ks \<Rightarrow> \<exists>g \<in> set gs. concerns obj g \<and> ks = [(m_ns (gc_meta g), m_name (gc_meta g))]"
proof -
  have r: "fst (run_state (mapPlacementDecision obj) w) = first_request obj gs"
    using assms(1) by (simp add: mapPlacementDecision_def run_simps gs_def)
  show ?thesis
  proof (cases "first_request obj gs")
    case (Inl e)
    with first_request_Inl [OF Inl] show ?thesis by (simp add: r)
  next
    case (Inr ks)
    show ?thesis
    proof (cases ks)
      case Nil
      with first_request_none Inr show ?thesis by (simp add: r)
    next
      case (Cons a as)
      with first_request_Inr [OF Inr] Inr show ?thesis by (auto simp: r)
    qed
  qed
qed

text \<open>
  no credentials of a live cluster are removed as orphans. Unless the API server claims that an
  existing object is missing, and however else requests fail, a secret changes only by being deleted,
  only if it was among the orphans, and only if its ManagedCluster does not exist.
\<close>
theorem orphan_secrets_safe:
  assumes "honest w" and "keyed s_meta (w_secrets w)"
    and "map_of (w_secrets (snd (run_state (cleanupOrphanSecrets os) w))) k \<noteq> map_of (w_secrets w) k"
  shows "map_of (w_secrets (snd (run_state (cleanupOrphanSecrets os) w))) k = None \<and> has_key os k
    \<and> (\<exists>s. map_of (w_secrets w) k = Some s \<and> ownerless w s)"
proof -
  have start: "removing w os w"
    using assms(1,2) by (simp add: removing_def deletes_only_def)
  have "state_io_rel (\<lambda>s t. removing w os s \<longrightarrow> removing w os t) (cleanupOrphanSecrets os)"
    unfolding cleanupOrphanSecrets_def by (intro inv_frame.loopM_frame cleanupOrphan_removing)
  from inv_frame.frame_snd [OF this, of w] start
  have "deletes_only (ownerless_keys w os) w_secrets w (snd (run_state (cleanupOrphanSecrets os) w))"
    by (simp add: removing_def)
  from deletes_onlyD [OF this assms(3)] show ?thesis
    by (auto simp: has_key_def map_of_eq_None_iff)
qed

text \<open>
  C35: orphan clean-up is complete: when no request is rejected it succeeds and the store afterwards is
  the one before without the orphans whose ManagedCluster is gone; in whatever order the orphans are
  visited.
\<close>
theorem orphan_secrets_exact:
  fixes w os os' k
  assumes "calm w" and "keyed s_meta (w_secrets w)" and "mset os' = mset os"
  defines "w' \<equiv> snd (run_state (cleanupOrphanSecrets os') w)"
  shows "fst (run_state (cleanupOrphanSecrets os') w) \<and> map_of (w_secrets w') k =
    (case map_of (w_secrets w) k of
       None \<Rightarrow> None | Some s \<Rightarrow> if has_key os k \<and> ownerless w s then None else Some s)"
proof -
  have s: "set os' = set os" using assms(3) by (metis set_mset_mset)
  have k: "k \<in> fst ` set os' \<longleftrightarrow> has_key os k" by (auto simp: s has_key_def map_of_eq_None_iff)
  from cleanupOrphans_calm [OF assms(1,2) refl, of True os'] obtain t where
    "run_state (loopM cleanupOrphan True os') w = (True, t)"
    "map_of (w_secrets t) = (\<lambda>k. case map_of (w_secrets w) k of
       None \<Rightarrow> None | Some x \<Rightarrow> if k \<in> fst ` set os' \<and> ownerless w x then None else Some x)" by blast
  then show ?thesis by (simp only: cleanupOrphanSecrets_def w'_def k fst_conv snd_conv simp_thms)
qed

section \<open>Witnesses\<close>

theorem namespace_gate_witness:
  "fst (run_state (verifyArgoNamespaceAuthorized sample_gitops ''argo'') empty_world) \<noteq> Inr ()
    \<and> fst (run_state (verifyArgoNamespaceAuthorized sample_gitops ''team'') empty_world) = Inr ()"
  using namespace_gate [of sample_gitops "''argo''" empty_world] namespace_gate [of sample_gitops "''team''" empty_world]
  by (auto simp: argo_permitted_def sample_gitops_def empty_world_def)

definition sample_decision :: placement_decision where
  "sample_decision = \<lparr>pd_meta = plain_meta ''d1'' ''team'' [(placementLabel, ''p'')] [], pd_clusters = [''c1'']\<rparr>"

definition placed_world :: world where
  "placed_world = empty_world\<lparr>
     w_placements := [((''team'', ''p''), \<lparr>u_meta = plain_meta ''p'' ''team'' [] [], u_fields = []\<rparr>)],
     w_decisions := [((''team'', ''d1''), sample_decision)],
     w_clusters := [(([], ''c1''), sample_cluster)],
     w_gitops := [((''team'', ''gc''), sample_gitops\<lparr>gc_spec := (gc_spec sample_gitops)\<lparr>gs_placement := None\<rparr>\<rparr>)],
     w_secrets := [((''argo'', ''old''), sample_secret ''old'' ''https://gone'')]\<rparr>"

abbreviation sample_ref :: placement_ref where
  "sample_ref \<equiv> \<lparr>pr_kind = ''Placement'', pr_name = ''p'', pr_apiVersion = ''cluster.open-cluster-management.io/v1beta1''\<rparr>"

lemma placed_run:
  "run_state (GetManagedClusters ''team'' sample_ref) placed_world = (Inr [sample_cluster], placed_world)"
  by (simp add: GetManagedClusters_def valid_placement_ref_def equal_fold_def run_simps get_decided_run verdict_def
      placed_world_def empty_world_def consume_def decision_of_def sample_decision_def)

theorem managed_clusters_exact_witness:
  "map_of (w_clusters placed_world) ([], ''c1'') = Some sample_cluster"
  using managed_clusters_exact [OF placed_run]
  by (simp add: placed_world_def decision_of_def sample_decision_def)

theorem placement_mapper_witness:
  "\<exists>e. fst (run_state (mapPlacementDecision sample_decision) placed_world) = Inl e"
proof -
  have "calm placed_world" by (simp add: placed_world_def empty_world_def)
  from placement_mapper [OF this, of sample_decision] show ?thesis
    by (auto simp: mapPlacementDecision_def run_simps placed_world_def empty_world_def verdict_def sample_decision_def
        sample_gitops_def)
qed

abbreviation gone_world :: world where
  "gone_world \<equiv> placed_world\<lparr>w_clusters := []\<rparr>"

lemma gone_world_facts:
  "calm gone_world" "honest gone_world" "keyed s_meta (w_secrets gone_world)"
  by (simp_all add: placed_world_def empty_world_def honest_def keyed_def sample_secret_def)

lemma gone_secret: "map_of (w_secrets gone_world) (''argo'', ''old'') = Some (sample_secret ''old'' ''https://gone'')"
  by (simp add: placed_world_def)

lemma gone_ownerless: "ownerless gone_world (sample_secret ''old'' ''https://gone'')"
  by (simp add: ownerless_def secret_owner_def sample_secret_def cluster_labels_def mget_def secret_labels)

theorem orphan_secrets_exact_witness:
  "map_of (w_secrets (snd (run_state (cleanupOrphanSecrets [((''argo'', ''old''), ''argo/old'')]) gone_world))) (''argo'', ''old'') = None"
  using orphan_secrets_exact [OF gone_world_facts(1,3) refl, of "[((''argo'', ''old''), ''argo/old'')]" "(''argo'', ''old'')"]
    gone_secret gone_ownerless
  by (simp add: has_key_def)

theorem orphan_secrets_safe_witness:
  "map_of (w_secrets (snd (run_state (cleanupOrphanSecrets [((''argo'', ''old''), ''argo/old'')]) placed_world))) (''argo'', ''old'')
     = Some (sample_secret ''old'' ''https://gone'')"
proof (rule ccontr)
  have h: "honest placed_world" "keyed s_meta (w_secrets placed_world)"
    "map_of (w_secrets placed_world) (''argo'', ''old'') = Some (sample_secret ''old'' ''https://gone'')"
    by (simp_all add: placed_world_def empty_world_def honest_def keyed_def sample_secret_def)
  assume "\<not> ?thesis"
  with h(3) have "map_of (w_secrets (snd (run_state (cleanupOrphanSecrets [((''argo'', ''old''), ''argo/old'')]) placed_world)))
      (''argo'', ''old'') \<noteq> map_of (w_secrets placed_world) (''argo'', ''old'')" by simp
  from orphan_secrets_safe [OF h(1,2) this] h(3) show False
    by (auto simp: ownerless_def secret_owner_def sample_secret_def cluster_labels_def mget_def secret_labels
        placed_world_def)
qed

end
