(* ===== verification/JsonMap.thy ===== *)
theory JsonMap
  imports JsonText "HOL-Library.Multiset"
begin

text \<open>
  \<open>json.Unmarshal\<close> of the Go standard library into a \<open>map[string]string\<close>. An object whose values
  are strings or null decodes (null leaves the empty string, the last of several equal keys wins);
  everything else is an error. Bytes from 0x80 on are passed through, which is exact for valid UTF-8.
\<close>

section \<open>Strings\<close>

definition hex_digit :: "char \<Rightarrow> nat option" where
  "hex_digit c =
     (let n = of_char c :: nat in
      if 48 \<le> n \<and> n \<le> 57 then Some (n - 48)
      else if 97 \<le> n \<and> n \<le> 102 then Some (n - 87)
      else if 65 \<le> n \<and> n \<le> 70 then Some (n - 55)
      else None)"

fun hex4 :: "string \<Rightarrow> (nat \<times> string) option" where
  "hex4 (a # b # c # d # s) =
     (case (hex_digit a, hex_digit b, hex_digit c, hex_digit d) of
        (Some i, Some j, Some k, Some l) \<Rightarrow> Some (((i * 16 + j) * 16 + k) * 16 + l, s)
      | _ \<Rightarrow> None)"
| "hex4 _ = None"

definition utf8 :: "nat \<Rightarrow> string" where
  "utf8 n =
     (if n < 128 then [char_of n]
      else if n < 2048 then [char_of (192 + n div 64), char_of (128 + n mod 64)]
      else if n < 65536 then
        [char_of (224 + n div 4096), char_of (128 + n div 64 mod 64), char_of (128 + n mod 64)]
      else
        [char_of (240 + n div 262144), char_of (128 + n div 4096 mod 64), char_of (128 + n div 64 mod 64),
         char_of (128 + n mod 64)])"

text \<open>A code unit from \<open>\u\<close>: a surrogate needs its partner, else it is the replacement character.\<close>

definition partner :: "nat \<Rightarrow> string \<Rightarrow> (nat \<times> string) option" where
  "partner n s =
     (case s of
        a # b # r \<Rightarrow>
          (if a = CHR 0x5C \<and> b = CHR ''u'' then
             (case hex4 r of
                Some (m, r') \<Rightarrow>
                  (if 55296 \<le> n \<and> n < 56320 \<and> 56320 \<le> m \<and> m < 57344
                   then Some ((n - 55296) * 1024 + (m - 56320) + 65536, r') else None)
              | None \<Rightarrow> None)
           else None)
      | _ \<Rightarrow> None)"

definition unicode_escape :: "nat \<Rightarrow> string \<Rightarrow> string \<times> string" where
  "unicode_escape n s =
     (if 55296 \<le> n \<and> n < 57344 then
        (case partner n s of Some (m, r) \<Rightarrow> (utf8 m, r) | None \<Rightarrow> (utf8 65533, s))
      else (utf8 n, s))"

definition simple_escape :: "char \<Rightarrow> char option" where
  "simple_escape c = map_of
     [(CHR 0x22, CHR 0x22), (CHR 0x5C, CHR 0x5C), (CHR ''/'', CHR ''/''), (CHR ''b'', CHR 0x08),
      (CHR ''f'', CHR 0x0C), (CHR ''n'', CHR 0x0A), (CHR ''r'', CHR 0x0D), (CHR ''t'', CHR 0x09)] c"

lemma hex4_length: "hex4 s = Some (n, r) \<Longrightarrow> length r < length s"
  by (induction s rule: hex4.induct) (auto split: option.splits)

lemma unicode_escape_length: "unicode_escape n s = (x, r) \<Longrightarrow> length r \<le> length s"
  by (auto simp: unicode_escape_def partner_def dest!: hex4_length split: if_splits option.splits list.splits)

text \<open>The rest of a string literal after its opening quote.\<close>

function parse_string :: "string \<Rightarrow> (string \<times> string) option" where
  "parse_string [] = None"
| "parse_string (c # s) =
     (if c = CHR 0x22 then Some ([], s)
      else if c = CHR 0x5C then
        (case s of
           [] \<Rightarrow> None
         | e # s' \<Rightarrow>
             (if e = CHR ''u'' then
                (case hex4 s' of
                   None \<Rightarrow> None
                 | Some (n, s'') \<Rightarrow>
                     (case unicode_escape n s'' of
                        (x, r) \<Rightarrow> map_option (\<lambda>(v, t). (x @ v, t)) (parse_string r)))
              else
                (case simple_escape e of
                   None \<Rightarrow> None
                 | Some x \<Rightarrow> map_option (\<lambda>(v, t). (x # v, t)) (parse_string s'))))
      else if (of_char c :: nat) < 32 then None
      else map_option (\<lambda>(v, t). (c # v, t)) (parse_string s))"
  by pat_completeness auto

termination
  by (relation "measure length") (auto dest!: hex4_length dest: unicode_escape_length [OF sym])

lemma parse_string_length: "parse_string s = Some (v, r) \<Longrightarrow> length r < length s"
proof (induction s arbitrary: v r rule: parse_string.induct)
  case (2 c s)
  then show ?case
    by (force split: if_splits list.splits option.splits prod.splits dest!: hex4_length dest: unicode_escape_length)
qed simp

section \<open>Objects of strings\<close>

definition json_space :: "char \<Rightarrow> bool" where
  "json_space c \<longleftrightarrow> c \<in> set [CHR 0x20, CHR 0x09, CHR 0x0A, CHR 0x0D]"

abbreviation skip_space :: "string \<Rightarrow> string" where
  "skip_space \<equiv> dropWhile json_space"

text \<open>A value that fits a string: a string literal, or null.\<close>

fun parse_value :: "string \<Rightarrow> (string \<times> string) option" where
  "parse_value [] = None"
| "parse_value (c # s) =
     (if c = CHR 0x22 then parse_string s
      else if c = CHR ''n'' \<and> take 3 s = ''ull'' then Some ([], drop 3 s)
      else None)"

definition parse_member :: "string \<Rightarrow> ((string \<times> string) \<times> string) option" where
  "parse_member s =
     (case skip_space s of
        [] \<Rightarrow> None
      | q # s1 \<Rightarrow>
          (if q \<noteq> CHR 0x22 then None
           else (case parse_string s1 of
                   None \<Rightarrow> None
                 | Some (k, s2) \<Rightarrow>
                     (case skip_space s2 of
                        [] \<Rightarrow> None
                      | c # s3 \<Rightarrow>
                          (if c \<noteq> CHR '':'' then None
                           else map_option (\<lambda>(v, r). ((k, v), r)) (parse_value (skip_space s3)))))))"

lemma parse_value_length: "parse_value s = Some (v, r) \<Longrightarrow> length r < length s"
  by (cases s) (auto split: if_splits dest: parse_string_length)

lemma skip_space_length: "length (skip_space s) \<le> length s"
  by (rule length_dropWhile_le)

lemma parse_member_length:
  assumes "parse_member s = Some (kv, r)" shows "length r < length s"
proof -
  from assms obtain k v s1 s2 s3 where s: "skip_space s = CHR 0x22 # s1" "parse_string s1 = Some (k, s2)"
    "skip_space s2 = CHR '':'' # s3" "parse_value (skip_space s3) = Some (v, r)"
    by (auto simp: parse_member_def split: list.splits if_splits option.splits)
  show ?thesis
    using skip_space_length [of s] skip_space_length [of s2] skip_space_length [of s3]
      parse_string_length [OF s(2)] parse_value_length [OF s(4)] s(1,3) by simp
qed

function parse_members :: "string \<Rightarrow> ((string \<times> string) list \<times> string) option" where
  "parse_members s =
     (case parse_member s of
        None \<Rightarrow> None
      | Some (kv, r) \<Rightarrow>
          (case skip_space r of
             [] \<Rightarrow> None
           | c # r' \<Rightarrow>
               (if c = CHR ''}'' then Some ([kv], r')
                else if c = CHR '','' then map_option (\<lambda>(m, t). (kv # m, t)) (parse_members r')
                else None)))"
  by pat_completeness auto

termination
proof (relation "measure length", goal_cases)
  case (2 s x kv r c r')
  then have "length r < length s" "length (c # r') \<le> length r"
    using parse_member_length [of s kv r] skip_space_length [of r] by auto
  then show ?case by simp
qed simp

declare parse_members.simps [simp del]

definition parse_object :: "string \<Rightarrow> (string \<times> string) list option" where
  "parse_object s =
     (case skip_space s of
        [] \<Rightarrow> None
      | c # s1 \<Rightarrow>
          (if c \<noteq> CHR ''{'' then None
           else (case (if take 1 (skip_space s1) = ''}'' then Some ([], drop 1 (skip_space s1)) else parse_members s1) of
                   None \<Rightarrow> None
                 | Some (m, r) \<Rightarrow> if skip_space r = [] then Some m else None)))"

definition unmarshal_string_map :: "string \<Rightarrow> smap option" where
  "unmarshal_string_map s = map_option (\<lambda>m. fold (\<lambda>(k, v). mset_key k v) m []) (parse_object s)"

section \<open>Decoding what was encoded\<close>

lemma hex_digit_char: "n < 16 \<Longrightarrow> hex_digit (hex_char n) = Some n"
  by (auto simp: hex_digit_def hex_char_def Let_def)

lemma parse_escaped: "parse_string (escape_char c @ s) = map_option (\<lambda>(v, t). (c # v, t)) (parse_string s)"
proof -
  have n: "(of_char c :: nat) < 256" by (metis mod_less_divisor of_char_mod_256 zero_less_numeral)
  show ?thesis
  proof (cases "(of_char c :: nat) < 32 \<or> c \<in> set ''<>&''")
    case True
    then have small: "(of_char c :: nat) < 128" by auto
    have h: "hex4 (''00'' @ [hex_char (of_char c div 16), hex_char (of_char c mod 16)] @ s) = Some (of_char c, s)"
    proof -
      have z: "hex_digit CHR ''0'' = Some 0" by (simp add: hex_digit_def)
      have "hex_digit (hex_char (of_char c div 16)) = Some (of_char c div 16)"
        using n by (intro hex_digit_char less_mult_imp_div_less) simp
      moreover have "hex_digit (hex_char (of_char c mod 16)) = Some (of_char c mod 16)"
        by (rule hex_digit_char) simp
      ultimately show ?thesis using z by simp
    qed
    have u: "unicode_escape (of_char c) s = ([c], s)"
      using small by (simp add: unicode_escape_def utf8_def)
    show ?thesis
      using True h u by (auto simp: escape_char_def simple_escape_def)
  next
    case False
    then show ?thesis by (auto simp: escape_char_def simple_escape_def)
  qed
qed

lemma parse_json_string:
  "parse_string (concat (map escape_char s) @ CHR 0x22 # r) = Some (s, r)"
  by (induction s) (simp_all add: parse_escaped del: parse_string.simps(2), simp)

lemma skip_space_keep: "\<not> json_space c \<Longrightarrow> skip_space (c # s) = c # s"
  by simp

lemma not_space [simp]:
  "\<not> json_space CHR 0x22" "\<not> json_space CHR '':''" "\<not> json_space CHR '',''" "\<not> json_space CHR ''}''"
  "\<not> json_space CHR ''{''"
  by (simp_all add: json_space_def)

lemma parse_member_json:
  "parse_member (json_string k @ '':'' @ json_string v @ r) = Some ((k, v), r)"
  by (simp add: parse_member_def json_string_def parse_json_string)

definition member_text :: "string \<times> string \<Rightarrow> string" where
  "member_text kv = json_string (fst kv) @ '':'' @ json_string (snd kv)"

lemma parse_member_text: "parse_member (member_text kv @ r) = Some (kv, r)"
  using parse_member_json [of "fst kv" "snd kv" r] by (simp add: member_text_def)

lemma parse_members_json:
  "m \<noteq> [] \<Longrightarrow> parse_members (join_with '','' (map member_text m) @ CHR ''}'' # r) = Some (m, r)"
proof (induction m)
  case (Cons kv m)
  show ?case
  proof (cases m)
    case Nil
    then show ?thesis by (subst parse_members.simps) (simp add: parse_member_text)
  next
    case (Cons kv' m')
    then show ?thesis
      using Cons.IH by (subst parse_members.simps) (simp add: parse_member_text)
  qed
qed simp

text \<open>\<open>json.Marshal\<close> of a map of strings.\<close>

definition marshal_string_map :: "smap \<Rightarrow> string" where
  "marshal_string_map m = json_text (JObj (map (\<lambda>(k, v). (k, JStr v)) m))"

lemma sort_values: "sort_key fst (map (\<lambda>(k, v). (k, f v)) m) = map (\<lambda>(k, v). (k, f v)) (sort_key fst m)"
proof -
  have i: "insort_key fst (k, f v) (map (\<lambda>(k, v). (k, f v)) xs) = map (\<lambda>(k, v). (k, f v)) (insort_key fst (k, v) xs)" for k v xs
    by (induction xs) (auto split: prod.splits)
  show ?thesis by (induction m) (auto simp: i)
qed

lemma marshal_members:
  "marshal_string_map m = CHR ''{'' # join_with '','' (map member_text (sort_key fst m)) @ ''}''"
proof -
  have c: "(\<lambda>(k, v). (k, json_text v)) \<circ> (\<lambda>(k, v). (k, JStr v)) = (\<lambda>(k, v). (k, json_string v))"
    by auto
  have f: "(\<lambda>(k, t). json_string k @ '':'' @ t) \<circ> (\<lambda>(k, v). (k, json_string v)) = member_text"
    by (auto simp: member_text_def)
  have "marshal_string_map m = ''{'' @ join_with '',''
      (map (\<lambda>(k, t). json_string k @ '':'' @ t) (sort_key fst (map (\<lambda>(k, v). (k, json_string v)) m))) @ ''}''"
    unfolding marshal_string_map_def json_text.simps map_map c ..
  then show ?thesis unfolding sort_values map_map f by simp
qed

lemma parse_marshal: "parse_object (marshal_string_map m) = Some (sort_key fst m)"
proof (cases m)
  case Nil
  then show ?thesis by (simp add: parse_object_def marshal_members)
next
  case (Cons kv m')
  let ?m = "sort_key fst m"
  have ne: "?m \<noteq> []" using Cons by (metis length_0_conv length_sort list.distinct(1))
  then obtain k v n where m: "?m = (k, v) # n" by (metis list.exhaust surj_pair)
  have s: "\<exists>x. join_with '','' (map member_text ?m) @ ''}'' = CHR 0x22 # x"
    unfolding m by (cases n) (auto simp: member_text_def json_string_def)
  then have "\<not> take 1 (skip_space (join_with '','' (map member_text ?m) @ ''}'')) = ''}''"
    by auto
  with parse_members_json [OF ne, of "[]"] show ?thesis
    by (simp add: parse_object_def marshal_members)
qed

lemma map_of_fold_update:
  "map_of (fold (\<lambda>(k, v). mset_key k v) m n) = map_of n ++ map_of (rev m)"
  by (induction m arbitrary: n) (auto simp: map_add_def fun_eq_iff split: option.splits)

text \<open>Decoding an encoded map gives the map back.\<close>

lemma unmarshal_marshal:
  assumes "distinct (map fst m)"
  shows "\<exists>m'. unmarshal_string_map (marshal_string_map m) = Some m' \<and> map_of m' = map_of m"
proof -
  have d: "distinct (map fst (rev (sort_key fst m)))"
    using assms by (metis distinct_rev mset_map mset_sort rev_map mset_eq_imp_distinct_iff)
  have "map_of (rev (sort_key fst m)) = map_of m"
    using assms d by (intro map_of_inject_set [THEN iffD2]) simp_all
  then show ?thesis by (simp add: unmarshal_string_map_def parse_marshal map_of_fold_update)
qed

end
