(* ===== verification/ImageRegistry.thy ===== *)
theory ImageRegistry
  imports GitOpsClusters JsonMap
begin

text \<open>
  \<open>pkg/controller/gitopscluster/imageregistry_controller.go\<close>: a ManagedClusterImageRegistry that
  has opted in rewrites the images in the AddOnDeploymentConfig of every cluster its placement
  selects, and restores them when it goes. The bookkeeping is kept in annotations of the config.
\<close>

section \<open>Names\<close>

definition imageRegistryFinalizer :: string where
  "imageRegistryFinalizer = ''imageregistry.open-cluster-management.io/gitops-addon-cleanup''"
definition adcManagedByAnnotation :: string where
  "adcManagedByAnnotation = ''imageregistry.open-cluster-management.io/managed-by''"
definition adcOriginalValuesAnnotation :: string where
  "adcOriginalValuesAnnotation = ''imageregistry.open-cluster-management.io/original-values''"
definition adcLastMirroredValuesAnnotation :: string where
  "adcLastMirroredValuesAnnotation = ''imageregistry.open-cluster-management.io/last-mirrored-values''"
definition gitopsAddonImageMirroringAnnotation :: string where
  "gitopsAddonImageMirroringAnnotation = ''apps.open-cluster-management.io/gitops-addon-image-mirroring''"
definition gitopsAddonName :: string where "gitopsAddonName = ''gitops-addon''"
definition addonDeploymentConfigGroup :: string where
  "addonDeploymentConfigGroup = ''addon.open-cluster-management.io''"
definition addonDeploymentConfigResource :: string where
  "addonDeploymentConfigResource = ''addondeploymentconfigs''"

lemmas mirror_annotations =
  adcManagedByAnnotation_def adcOriginalValuesAnnotation_def adcLastMirroredValuesAnnotation_def

section \<open>Helpers\<close>

definition parseOriginalValues :: "string \<Rightarrow> smap" where
  "parseOriginalValues raw =
     (if raw = [] then [] else (case unmarshal_string_map raw of Some m \<Rightarrow> m | None \<Rightarrow> []))"

definition marshalOriginalValues :: "smap \<Rightarrow> string" where
  "marshalOriginalValues m = (if length m = 0 then [] else marshal_string_map m)"

definition ownerKeyFor :: "image_registry \<Rightarrow> string" where
  "ownerKeyFor r = m_ns (ir_meta r) @ ''/'' @ m_name (ir_meta r)"

definition splitOwnerKey :: "string \<Rightarrow> nsname option" where
  "splitOwnerKey key =
     (case dropWhile (\<lambda>c. c \<noteq> CHR ''/'') key of
        [] \<Rightarrow> None
      | _ # nm \<Rightarrow>
          (let ns = takeWhile (\<lambda>c. c \<noteq> CHR ''/'') key in
           if ns = [] \<or> nm = [] then None else Some (ns, nm)))"

fun containsString :: "string list \<Rightarrow> string \<Rightarrow> bool" where
  "containsString [] s = False"
| "containsString (x # xs) s = (if x = s then True else containsString xs s)"

definition removeString :: "string list \<Rightarrow> string \<Rightarrow> string list" where
  "removeString xs s = filter (\<lambda>x. x \<noteq> s) xs"

definition wantsGitOpsAddonImageMirroring :: "image_registry option \<Rightarrow> bool" where
  "wantsGitOpsAddonImageMirroring r =
     (case r of None \<Rightarrow> False
      | Some m \<Rightarrow> mget (m_annos (ir_meta m)) gitopsAddonImageMirroringAnnotation = ''true'')"

definition isGitOpsAddonImageRegistryTarget :: "image_registry option \<Rightarrow> bool" where
  "isGitOpsAddonImageRegistryTarget r =
     (case r of None \<Rightarrow> False
      | Some m \<Rightarrow> wantsGitOpsAddonImageMirroring (Some m) \<or> containsString (m_finalizers (ir_meta m)) imageRegistryFinalizer)"

text \<open>The watch predicate on updates.\<close>

definition imageRegistryUpdate :: "image_registry \<Rightarrow> image_registry \<Rightarrow> bool" where
  "imageRegistryUpdate old new \<longleftrightarrow>
     isGitOpsAddonImageRegistryTarget (Some old) \<or> isGitOpsAddonImageRegistryTarget (Some new)"

section \<open>Mirroring a value\<close>

definition match_registry :: "string \<Rightarrow> registries \<Rightarrow> string option \<Rightarrow> string option" where
  "match_registry host reg found =
     (if rg_mirror reg = [] then found
      else if rg_source reg = [] \<or> rg_source reg = host then Some (rg_mirror reg) else found)"

definition computeMirroredValue :: "string \<Rightarrow> registries list \<Rightarrow> string \<Rightarrow> string option" where
  "computeMirroredValue value regs registry =
     (case str_index value ''/'' of
        None \<Rightarrow> None
      | Some 0 \<Rightarrow> None
      | Some idx \<Rightarrow>
          (let host = take idx value; rest = drop idx value in
           if regs = [] \<and> registry = [] then None
           else (let effective = (if regs = [] then [\<lparr>rg_mirror = registry, rg_source = []\<rparr>] else regs) in
                 (case fold (match_registry host) effective None of
                    None \<Rightarrow> None
                  | Some newHost \<Rightarrow> if newHost = host then None else Some (newHost @ rest)))))"

text \<open>The four results of \<open>computeUpdatedVariables\<close> as they are built, variable by variable.\<close>

record mirroring =
  mi_vars :: "custom_var list"
  mi_orig :: smap
  mi_last :: smap
  mi_changed :: bool

definition updateVariable ::
  "smap \<Rightarrow> smap \<Rightarrow> registries list \<Rightarrow> string \<Rightarrow> custom_var \<Rightarrow> mirroring \<Rightarrow> mirroring" where
  "updateVariable origMap lastMap regs registry v acc =
     (let intact = (case (map_of origMap (cv_name v), map_of lastMap (cv_name v)) of
                      (Some orig, Some lastMirrored) \<Rightarrow> if cv_value v = lastMirrored then Some orig else None
                    | _ \<Rightarrow> None) in
      (case intact of
         Some orig \<Rightarrow>
           (case computeMirroredValue orig regs registry of
              Some mirrored \<Rightarrow>
                \<lparr>mi_vars = mi_vars acc @ [\<lparr>cv_name = cv_name v, cv_value = mirrored\<rparr>],
                 mi_orig = mset_key (cv_name v) orig (mi_orig acc),
                 mi_last = mset_key (cv_name v) mirrored (mi_last acc),
                 mi_changed = (if cv_value v \<noteq> mirrored then True else mi_changed acc)\<rparr>
            | None \<Rightarrow>
                acc\<lparr>mi_vars := mi_vars acc @ [\<lparr>cv_name = cv_name v, cv_value = orig\<rparr>],
                    mi_changed := (if cv_value v \<noteq> orig then True else mi_changed acc)\<rparr>)
       | None \<Rightarrow>
           (case computeMirroredValue (cv_value v) regs registry of
              Some mirrored \<Rightarrow>
                \<lparr>mi_vars = mi_vars acc @ [\<lparr>cv_name = cv_name v, cv_value = mirrored\<rparr>],
                 mi_orig = mset_key (cv_name v) (cv_value v) (mi_orig acc),
                 mi_last = mset_key (cv_name v) mirrored (mi_last acc),
                 mi_changed = True\<rparr>
            | None \<Rightarrow> acc\<lparr>mi_vars := mi_vars acc @ [v]\<rparr>)))"

definition computeUpdatedVariables ::
  "custom_var list \<Rightarrow> smap \<Rightarrow> smap \<Rightarrow> registries list \<Rightarrow> string \<Rightarrow> mirroring" where
  "computeUpdatedVariables current origMap lastMap regs registry =
     fold (updateVariable origMap lastMap regs registry) current
       \<lparr>mi_vars = [], mi_orig = [], mi_last = [], mi_changed = False\<rparr>"

section \<open>Finding the clusters and their configs\<close>

definition add_new :: "string list \<Rightarrow> string \<Rightarrow> string list" where
  "add_new seen c = (if c \<in> set seen then seen else seen @ [c])"

definition resolvePlacementClusterNames :: "image_registry \<Rightarrow> string list api" where
  "resolvePlacementClusterNames r =
     (if \<not> equal_fold (ir_group r) ''cluster.open-cluster-management.io''
         \<or> \<not> (equal_fold (ir_resource r) ''placement'' \<or> equal_fold (ir_resource r) ''placements'') then
        State_Monad.return (Inl (ErrText
          (''invalid placementRef group/resource: '' @ ir_group r @ ''/'' @ ir_resource r)))
      else do {
        p \<leftarrow> get_placement (m_ns (ir_meta r), ir_name r);
        case p of
          Inl e \<Rightarrow> State_Monad.return (Inl e)
        | Inr placement \<Rightarrow> do {
            l \<leftarrow> list_decisions (decision_of (m_ns (ir_meta r)) (ir_name r));
            State_Monad.return (case l of
              Inl e \<Rightarrow> Inl e
            | Inr ds \<Rightarrow> Inr (fold (\<lambda>c seen. add_new seen c) (concat (map pd_clusters ds)) []))
          }
      })"

definition is_config_ref :: "addon_config \<Rightarrow> bool" where
  "is_config_ref cfg \<longleftrightarrow>
     \<not> (ac_group cfg \<noteq> addonDeploymentConfigGroup \<or> ac_resource cfg \<noteq> addonDeploymentConfigResource)"

definition findGitOpsAddonDeploymentConfig :: "string \<Rightarrow> deployment_config api" where
  "findGitOpsAddonDeploymentConfig cluster = do {
     m \<leftarrow> get_addon (cluster, gitopsAddonName);
     case m of
       Inl e \<Rightarrow> State_Monad.return (Inl e)
     | Inr mca \<Rightarrow>
         (case find is_config_ref (ca_configs mca) of
            Some cfg \<Rightarrow> get_adc (if ac_ns cfg = [] then cluster else ac_ns cfg, ac_name cfg)
          | None \<Rightarrow> State_Monad.return (Inl (ApiError NotFound
              (''no '' @ addonDeploymentConfigResource @ '' config referenced by ManagedClusterAddOn '' @
               cluster @ ''/'' @ gitopsAddonName))))
   }"

definition adc_key :: "deployment_config \<Rightarrow> nsname" where
  "adc_key adc = (m_ns (dc_meta adc), m_name (dc_meta adc))"

abbreviation adc_annos :: "deployment_config \<Rightarrow> smap" where
  "adc_annos adc \<equiv> m_annos (dc_meta adc)"

definition with_mirroring :: "custom_var list \<Rightarrow> smap \<Rightarrow> deployment_config \<Rightarrow> deployment_config" where
  "with_mirroring vars annos adc =
     adc\<lparr>dc_meta := (dc_meta adc)\<lparr>m_annos := annos\<rparr>, dc_vars := vars\<rparr>"

definition drop_bookkeeping :: "smap \<Rightarrow> smap" where
  "drop_bookkeeping annos =
     mdel_key adcLastMirroredValuesAnnotation
       (mdel_key adcOriginalValuesAnnotation (mdel_key adcManagedByAnnotation annos))"

section \<open>Applying\<close>

text \<open>The config as \<open>applyImageMirroring\<close> wants it; \<open>None\<close> when nothing changes.\<close>

definition mirrored_config :: "image_registry \<Rightarrow> deployment_config \<Rightarrow> deployment_config option" where
  "mirrored_config r adc =
     (let ownerKey = ownerKeyFor r;
          origMap = parseOriginalValues (mget (adc_annos adc) adcOriginalValuesAnnotation);
          lastMap = parseOriginalValues (mget (adc_annos adc) adcLastMirroredValuesAnnotation);
          m = computeUpdatedVariables (dc_vars adc) origMap lastMap (ir_registries r) (ir_registry r);
          newOrig = marshalOriginalValues (mi_orig m);
          newLast = marshalOriginalValues (mi_last m);
          annotationsChanged =
            mget (adc_annos adc) adcManagedByAnnotation \<noteq> ownerKey \<and> length (mi_orig m) > 0
            \<or> mget (adc_annos adc) adcOriginalValuesAnnotation \<noteq> newOrig
            \<or> mget (adc_annos adc) adcLastMirroredValuesAnnotation \<noteq> newLast in
      if \<not> mi_changed m \<and> \<not> annotationsChanged then None
      else Some (with_mirroring (mi_vars m)
             (if length (mi_orig m) = 0 then drop_bookkeeping (adc_annos adc)
              else mset_key adcLastMirroredValuesAnnotation newLast
                     (mset_key adcOriginalValuesAnnotation newOrig
                       (mset_key adcManagedByAnnotation ownerKey (adc_annos adc)))) adc))"

definition applyImageMirroring :: "image_registry \<Rightarrow> string \<Rightarrow> unit api" where
  "applyImageMirroring r cluster = do {
     f \<leftarrow> findGitOpsAddonDeploymentConfig cluster;
     case f of
       Inl e \<Rightarrow> State_Monad.return (if is_not_found e then Inr () else Inl e)
     | Inr adc \<Rightarrow>
         (if (case map_of (adc_annos adc) adcManagedByAnnotation of
                Some existingOwner \<Rightarrow> existingOwner \<noteq> ownerKeyFor r | None \<Rightarrow> False) then
            State_Monad.return (Inl (ErrText
              (''addOnDeploymentConfig '' @ m_ns (dc_meta adc) @ ''/'' @ m_name (dc_meta adc) @
               '' is already managed by ManagedClusterImageRegistry '' @ mget (adc_annos adc) adcManagedByAnnotation @
               '', refusing to take over from '' @ ownerKeyFor r)))
          else (case mirrored_config r adc of
                  None \<Rightarrow> State_Monad.return (Inr ())
                | Some new \<Rightarrow> update_adc (adc_key adc) new))
   }"

section \<open>Reverting\<close>

text \<open>The config with its recorded originals restored; \<open>None\<close> when there is nothing to revert.\<close>

definition revert_variable :: "smap \<Rightarrow> custom_var \<Rightarrow> custom_var" where
  "revert_variable origMap v =
     (case map_of origMap (cv_name v) of
        Some orig \<Rightarrow> \<lparr>cv_name = cv_name v, cv_value = orig\<rparr>
      | None \<Rightarrow> v)"

definition reverted_config :: "deployment_config \<Rightarrow> deployment_config option" where
  "reverted_config adc =
     (let origMap = parseOriginalValues (mget (adc_annos adc) adcOriginalValuesAnnotation);
          changed = list_ex (\<lambda>v. case map_of origMap (cv_name v) of
                                   Some orig \<Rightarrow> cv_value v \<noteq> orig | None \<Rightarrow> False) (dc_vars adc) in
      if \<not> changed \<and> \<not> has_key (adc_annos adc) adcManagedByAnnotation
         \<and> \<not> has_key (adc_annos adc) adcOriginalValuesAnnotation
         \<and> \<not> has_key (adc_annos adc) adcLastMirroredValuesAnnotation then None
      else Some (with_mirroring (map (revert_variable origMap) (dc_vars adc)) (drop_bookkeeping (adc_annos adc)) adc))"

definition revertAddOnDeploymentConfig :: "deployment_config \<Rightarrow> unit api" where
  "revertAddOnDeploymentConfig adc =
     (case reverted_config adc of
        None \<Rightarrow> State_Monad.return (Inr ())
      | Some new \<Rightarrow> update_adc (adc_key adc) new)"

definition revertClusterImageMirroring :: "string \<Rightarrow> string \<Rightarrow> unit api" where
  "revertClusterImageMirroring ownerKey cluster = do {
     f \<leftarrow> findGitOpsAddonDeploymentConfig cluster;
     case f of
       Inl e \<Rightarrow> State_Monad.return (if is_not_found e then Inr () else Inl e)
     | Inr adc \<Rightarrow>
         (if mget (adc_annos adc) adcManagedByAnnotation \<noteq> ownerKey then State_Monad.return (Inr ())
          else revertAddOnDeploymentConfig adc)
   }"

text \<open>\<open>utilerrors.NewAggregate\<close>: nil for no errors.\<close>

definition NewAggregate :: "goerr list \<Rightarrow> goerr + unit" where
  "NewAggregate errs = (if errs = [] then Inr () else Inl (Joined errs))"

definition collect_error :: "goerr list \<Rightarrow> goerr + unit \<Rightarrow> goerr list" where
  "collect_error errs r = (case r of Inl e \<Rightarrow> errs @ [e] | Inr _ \<Rightarrow> errs)"

definition revertListed :: "string \<Rightarrow> string list \<Rightarrow> goerr list \<Rightarrow> deployment_config \<Rightarrow> (world, goerr list) state" where
  "revertListed ownerKey handled errs adc =
     (if m_ns (dc_meta adc) \<in> set handled then State_Monad.return errs
      else if mget (adc_annos adc) adcManagedByAnnotation \<noteq> ownerKey then State_Monad.return errs
      else do {
        r \<leftarrow> revertAddOnDeploymentConfig adc;
        State_Monad.return (collect_error errs r)
      })"

definition revertImageMirroring :: "image_registry \<Rightarrow> unit api" where
  "revertImageMirroring r = do {
     c \<leftarrow> resolvePlacementClusterNames r;
     let clusterNames = (case c of Inr ns \<Rightarrow> ns | Inl _ \<Rightarrow> []);
     errs \<leftarrow> loopM (\<lambda>errs cluster. do {
               x \<leftarrow> revertClusterImageMirroring (ownerKeyFor r) cluster;
               State_Monad.return (collect_error errs x)
             }) [] clusterNames;
     l \<leftarrow> list_adcs (\<lambda>_. True);
     case l of
       Inl e \<Rightarrow> State_Monad.return (NewAggregate (errs @ [e]))
     | Inr items \<Rightarrow> do {
         errs' \<leftarrow> loopM (revertListed (ownerKeyFor r) clusterNames) errs items;
         State_Monad.return (NewAggregate errs')
       }
   }"

section \<open>Reconcile\<close>

definition registry_key :: "image_registry \<Rightarrow> nsname" where
  "registry_key r = (m_ns (ir_meta r), m_name (ir_meta r))"

definition with_finalizers :: "string list \<Rightarrow> image_registry \<Rightarrow> image_registry" where
  "with_finalizers fs r = r\<lparr>ir_meta := (ir_meta r)\<lparr>m_finalizers := fs\<rparr>\<rparr>"

text \<open>The result is the minutes after which to reconcile again, 0 for not at all.\<close>

definition reconcileDelete :: "image_registry \<Rightarrow> nat api" where
  "reconcileDelete r =
     (if \<not> containsString (m_finalizers (ir_meta r)) imageRegistryFinalizer then State_Monad.return (Inr 0)
      else do {
        x \<leftarrow> revertImageMirroring r;
        case x of
          Inl e \<Rightarrow> State_Monad.return (Inl e)
        | Inr _ \<Rightarrow> do {
            u \<leftarrow> update_registry (registry_key r)
                  (with_finalizers (removeString (m_finalizers (ir_meta r)) imageRegistryFinalizer) r);
            State_Monad.return (case u of Inl e \<Rightarrow> Inl e | Inr _ \<Rightarrow> Inr 0)
          }
      })"

definition applyAll :: "image_registry \<Rightarrow> goerr list \<Rightarrow> string \<Rightarrow> (world, goerr list) state" where
  "applyAll r errs cluster = do {
     x \<leftarrow> applyImageMirroring r cluster;
     State_Monad.return (case x of Inl e \<Rightarrow> errs @ [Wrapped (''cluster '' @ cluster) e] | Inr _ \<Rightarrow> errs)
   }"

definition ReconcileImageRegistry :: "nsname \<Rightarrow> nat api" where
  "ReconcileImageRegistry req = do {
     g \<leftarrow> get_registry req;
     case g of
       Inl e \<Rightarrow> State_Monad.return (if is_not_found e then Inr 0 else Inl e)
     | Inr r \<Rightarrow>
         (if m_deleting (ir_meta r) then reconcileDelete r
          else if \<not> wantsGitOpsAddonImageMirroring (Some r) then
            (if containsString (m_finalizers (ir_meta r)) imageRegistryFinalizer then reconcileDelete r
             else State_Monad.return (Inr 0))
          else if \<not> containsString (m_finalizers (ir_meta r)) imageRegistryFinalizer then do {
            u \<leftarrow> update_registry (registry_key r)
                  (with_finalizers (m_finalizers (ir_meta r) @ [imageRegistryFinalizer]) r);
            State_Monad.return (case u of Inl e \<Rightarrow> Inl e | Inr _ \<Rightarrow> Inr 0)
          }
          else do {
            c \<leftarrow> resolvePlacementClusterNames r;
            case c of
              Inl e \<Rightarrow> State_Monad.return (Inl e)
            | Inr clusterNames \<Rightarrow> do {
                errs \<leftarrow> loopM (applyAll r) [] clusterNames;
                State_Monad.return (if length errs > 0 then Inl (Joined errs) else Inr 5)
              }
          })
   }"

section \<open>Watches\<close>

definition imageRegistryPlacementDecisionMap :: "placement_decision \<Rightarrow> (world, nsname list) state" where
  "imageRegistryPlacementDecisionMap obj = do {
     l \<leftarrow> list_registries (\<lambda>r. m_ns (ir_meta r) = m_ns (pd_meta obj));
     State_Monad.return (case l of
       Inl e \<Rightarrow> []
     | Inr items \<Rightarrow>
         map registry_key (filter (\<lambda>r. wantsGitOpsAddonImageMirroring (Some r)
           \<and> equal_fold (ir_name r) (mget (m_labels (pd_meta obj)) placementLabel)) items))
   }"

definition addRequest :: "deployment_config \<Rightarrow> nsname list \<Rightarrow> image_registry \<Rightarrow> (world, nsname list) state" where
  "addRequest obj requests r =
     (if \<not> wantsGitOpsAddonImageMirroring (Some r) then State_Monad.return requests
      else do {
        c \<leftarrow> resolvePlacementClusterNames r;
        State_Monad.return (case c of
          Inl e \<Rightarrow> requests
        | Inr names \<Rightarrow> if m_ns (dc_meta obj) \<in> set names then requests @ [registry_key r] else requests)
      })"

definition addOnDeploymentConfigMap :: "deployment_config \<Rightarrow> (world, nsname list) state" where
  "addOnDeploymentConfigMap obj =
     (case (case map_of (adc_annos obj) adcManagedByAnnotation of
              Some owner \<Rightarrow> splitOwnerKey owner | None \<Rightarrow> None) of
        Some key \<Rightarrow> State_Monad.return [key]
      | None \<Rightarrow> do {
          l \<leftarrow> list_registries (\<lambda>_. True);
          case l of
            Inl e \<Rightarrow> State_Monad.return []
          | Inr items \<Rightarrow> loopM (addRequest obj) [] items
        })"

end
