(* ===== verification/ImageMirroring.thy ===== *)
theory ImageMirroring
  imports ImageRegistry
begin

text \<open>
  What image mirroring does to an AddOnDeploymentConfig: the source value of a variable, the
  reference definition of mirroring and of its bookkeeping, that mirroring settles after one pass,
  keeps the source values and can be reverted; and what the handlers of
  \<open>imageregistry_controller.go\<close> leave alone.
\<close>

section \<open>The source value of a variable\<close>

text \<open>
  A variable is intact when it is tracked and holds what was last written for it: then its source is
  the recorded original, otherwise its live value.
\<close>

definition source_value :: "smap \<Rightarrow> smap \<Rightarrow> custom_var \<Rightarrow> string" where
  "source_value origMap lastMap v =
     (case (map_of origMap (cv_name v), map_of lastMap (cv_name v)) of
        (Some orig, Some lastMirrored) \<Rightarrow> if cv_value v = lastMirrored then orig else cv_value v
      | _ \<Rightarrow> cv_value v)"

definition mirror_or_keep :: "registries list \<Rightarrow> string \<Rightarrow> string \<Rightarrow> string" where
  "mirror_or_keep regs registry s =
     (case computeMirroredValue s regs registry of Some m \<Rightarrow> m | None \<Rightarrow> s)"

definition mirrored_var :: "smap \<Rightarrow> smap \<Rightarrow> registries list \<Rightarrow> string \<Rightarrow> custom_var \<Rightarrow> custom_var" where
  "mirrored_var origMap lastMap regs registry v =
     \<lparr>cv_name = cv_name v, cv_value = mirror_or_keep regs registry (source_value origMap lastMap v)\<rparr>"

text \<open>The variables that get a mirror, with an entry for each.\<close>

definition tracked_entries ::
  "smap \<Rightarrow> smap \<Rightarrow> registries list \<Rightarrow> string \<Rightarrow> custom_var list \<Rightarrow> (string \<times> string \<times> string) list" where
  "tracked_entries origMap lastMap regs registry vs =
     concat (map (\<lambda>v. let s = source_value origMap lastMap v in
       case computeMirroredValue s regs registry of Some m \<Rightarrow> [(cv_name v, s, m)] | None \<Rightarrow> []) vs)"

lemma computeMirroredValue_changes:
  assumes "computeMirroredValue s regs registry = Some m"
  shows "m \<noteq> s"
proof -
  from assms obtain i h where i: "m = h @ drop i s" "h \<noteq> take i s"
    by (auto simp: computeMirroredValue_def Let_def split: option.splits nat.splits if_splits)
  then show ?thesis
    by (metis append_same_eq append_take_drop_id)
qed

lemma updateVariable_eq:
  "updateVariable origMap lastMap regs registry v acc =
     (let s = source_value origMap lastMap v; new = mirrored_var origMap lastMap regs registry v in
      \<lparr>mi_vars = mi_vars acc @ [new],
       mi_orig = (case computeMirroredValue s regs registry of
                    Some m \<Rightarrow> mset_key (cv_name v) s (mi_orig acc) | None \<Rightarrow> mi_orig acc),
       mi_last = (case computeMirroredValue s regs registry of
                    Some m \<Rightarrow> mset_key (cv_name v) m (mi_last acc) | None \<Rightarrow> mi_last acc),
       mi_changed = (mi_changed acc \<or> new \<noteq> v)\<rparr>)"
  by (cases v)
     (auto simp: updateVariable_def source_value_def mirrored_var_def mirror_or_keep_def Let_def
       split: option.splits dest: computeMirroredValue_changes)

lemma mset_key_fresh: "k \<notin> fst ` set m \<Longrightarrow> mset_key k v m = m @ [(k, v)]"
  by (induction m) auto

lemma compute_fold:
  "distinct (map fst (mi_orig acc) @ map cv_name vs) \<Longrightarrow> map fst (mi_last acc) = map fst (mi_orig acc) \<Longrightarrow>
   fold (updateVariable origMap lastMap regs registry) vs acc =
     \<lparr>mi_vars = mi_vars acc @ map (mirrored_var origMap lastMap regs registry) vs,
      mi_orig = mi_orig acc @ map (\<lambda>(n, s, m). (n, s)) (tracked_entries origMap lastMap regs registry vs),
      mi_last = mi_last acc @ map (\<lambda>(n, s, m). (n, m)) (tracked_entries origMap lastMap regs registry vs),
      mi_changed = (mi_changed acc \<or> map (mirrored_var origMap lastMap regs registry) vs \<noteq> vs)\<rparr>"
proof (induction vs arbitrary: acc)
  case Nil
  then show ?case by (simp add: tracked_entries_def)
next
  case (Cons v vs)
  let ?a = "updateVariable origMap lastMap regs registry v acc"
  let ?s = "source_value origMap lastMap v"
  have fresh: "cv_name v \<notin> fst ` set (mi_orig acc)" using Cons.prems by auto
  then have fresh': "cv_name v \<notin> fst ` set (mi_last acc)"
    by (metis Cons.prems(2) list.set_map)
  have a: "distinct (map fst (mi_orig ?a) @ map cv_name vs)" "map fst (mi_last ?a) = map fst (mi_orig ?a)"
    using Cons.prems fresh fresh'
    by (auto simp: updateVariable_eq Let_def mset_key_fresh split: option.splits)
  show ?case
    using Cons.IH [OF a] fresh fresh'
    by (auto simp: updateVariable_eq Let_def mset_key_fresh tracked_entries_def split: option.splits)
qed

text \<open>The reference definition, for variables with distinct names.\<close>

lemma compute_eq:
  assumes "distinct (map cv_name vs)"
  shows "computeUpdatedVariables vs origMap lastMap regs registry =
     \<lparr>mi_vars = map (mirrored_var origMap lastMap regs registry) vs,
      mi_orig = map (\<lambda>(n, s, m). (n, s)) (tracked_entries origMap lastMap regs registry vs),
      mi_last = map (\<lambda>(n, s, m). (n, m)) (tracked_entries origMap lastMap regs registry vs),
      mi_changed = (map (mirrored_var origMap lastMap regs registry) vs \<noteq> vs)\<rparr>"
  unfolding computeUpdatedVariables_def by (subst compute_fold) (use assms in auto)

lemma compute_cong:
  assumes "map_of o1 = map_of o2" and "map_of l1 = map_of l2"
  shows "computeUpdatedVariables vs o1 l1 regs registry = computeUpdatedVariables vs o2 l2 regs registry"
proof -
  have "updateVariable o1 l1 regs registry = updateVariable o2 l2 regs registry"
    by (intro ext) (simp add: updateVariable_def assms)
  then show ?thesis by (simp add: computeUpdatedVariables_def)
qed

section \<open>Mirroring again\<close>

lemma entry_names: "fst ` set (tracked_entries o1 l1 regs registry vs) \<subseteq> cv_name ` set vs"
  by (auto simp: tracked_entries_def Let_def split: option.splits)

lemma entries_distinct:
  "distinct (map cv_name vs) \<Longrightarrow> distinct (map fst (tracked_entries o1 l1 regs registry vs))"
proof (induction vs)
  case (Cons v vs)
  then show ?case
    using entry_names [of o1 l1 regs registry vs]
    by (auto simp: tracked_entries_def Let_def split: option.splits)
qed (simp add: tracked_entries_def)

lemma map_of_entries:
  assumes "distinct (map cv_name vs)" and "v \<in> set vs"
  shows "map_of (tracked_entries o1 l1 regs registry vs) (cv_name v) =
    map_option (\<lambda>m. (source_value o1 l1 v, m)) (computeMirroredValue (source_value o1 l1 v) regs registry)"
  using assms
proof (induction vs)
  case (Cons w vs)
  have none: "map_of (tracked_entries o1 l1 regs registry vs) (cv_name w) = None" if "cv_name w \<notin> cv_name ` set vs"
    using that entry_names [of o1 l1 regs registry vs] by (auto simp: map_of_eq_None_iff)
  have step: "tracked_entries o1 l1 regs registry (w # vs) =
      (case computeMirroredValue (source_value o1 l1 w) regs registry of
         Some m \<Rightarrow> [(cv_name w, source_value o1 l1 w, m)] | None \<Rightarrow> []) @ tracked_entries o1 l1 regs registry vs"
    by (simp add: tracked_entries_def Let_def)
  show ?case
  proof (cases "v = w")
    case True
    then show ?thesis using Cons.prems none by (auto simp: step split: option.splits)
  next
    case False
    then have v: "v \<in> set vs" using Cons.prems by simp
    then have "cv_name v \<in> cv_name ` set vs" by (rule imageI)
    then have "cv_name v \<noteq> cv_name w" using Cons.prems(1) by auto
    note v this
    with Cons show ?thesis by (auto simp: step split: option.splits)
  qed
qed simp

lemma map_of_map_fst:
  "map_of (map (\<lambda>(n, s, m). (n, s)) es) k = map_option fst (map_of es k)"
  "map_of (map (\<lambda>(n, s, m). (n, m)) es) k = map_option snd (map_of es k)"
  by (induction es) auto

text \<open>The bookkeeping a pass leaves finds the same source values again.\<close>

lemma source_value_again:
  fixes o1 l1 :: smap and regs :: "registries list" and registry :: string
  assumes "distinct (map cv_name vs)" and "v \<in> set vs"
  defines "es \<equiv> tracked_entries o1 l1 regs registry vs"
  shows "source_value (map (\<lambda>(n, s, m). (n, s)) es) (map (\<lambda>(n, s, m). (n, m)) es) (mirrored_var o1 l1 regs registry v)
     = source_value o1 l1 v"
proof -
  define s where "s = source_value o1 l1 v"
  have v: "mirrored_var o1 l1 regs registry v = \<lparr>cv_name = cv_name v, cv_value = mirror_or_keep regs registry s\<rparr>"
    by (simp add: mirrored_var_def s_def)
  have "map_of es (cv_name v) = map_option (Pair s) (computeMirroredValue s regs registry)"
    unfolding es_def s_def by (rule map_of_entries [OF assms(1,2)])
  then show ?thesis
    unfolding s_def [symmetric] v
    by (simp add: source_value_def map_of_map_fst mirror_or_keep_def split: option.splits)
qed

lemma mirrored_var_name [simp]: "cv_name (mirrored_var o1 l1 regs registry v) = cv_name v"
  by (simp add: mirrored_var_def)

lemma compute_again:
  fixes o1 l1 :: smap and regs :: "registries list" and registry :: string
  assumes "distinct (map cv_name vs)"
  defines "m \<equiv> computeUpdatedVariables vs o1 l1 regs registry"
  shows "computeUpdatedVariables (mi_vars m) (mi_orig m) (mi_last m) regs registry = m\<lparr>mi_changed := False\<rparr>"
proof -
  let ?es = "tracked_entries o1 l1 regs registry vs"
  let ?o = "map (\<lambda>(n, s, m). (n, s)) ?es" and ?l = "map (\<lambda>(n, s, m). (n, m)) ?es"
  let ?vs = "map (mirrored_var o1 l1 regs registry) vs"
  have d: "distinct (map cv_name ?vs)" using assms(1) by (simp add: comp_def)
  have s: "source_value ?o ?l (mirrored_var o1 l1 regs registry v) = source_value o1 l1 v" if "v \<in> set vs" for v
    using source_value_again [OF assms(1) that] .
  have vars: "map (mirrored_var ?o ?l regs registry) ?vs = ?vs"
  proof (unfold map_map, rule map_cong [OF refl])
    fix v assume "v \<in> set vs"
    from s [OF this] show "(mirrored_var ?o ?l regs registry \<circ> mirrored_var o1 l1 regs registry) v
      = mirrored_var o1 l1 regs registry v"
      by (simp only: comp_apply mirrored_var_def [of ?o ?l] mirrored_var_name mirrored_var_def [of o1 l1 regs registry v, symmetric])
  qed
  have "(\<lambda>v. let s = source_value ?o ?l v in
      case computeMirroredValue s regs registry of Some m \<Rightarrow> [(cv_name v, s, m)] | None \<Rightarrow> [])
      (mirrored_var o1 l1 regs registry v) = (\<lambda>v. let s = source_value o1 l1 v in
      case computeMirroredValue s regs registry of Some m \<Rightarrow> [(cv_name v, s, m)] | None \<Rightarrow> []) v" if "v \<in> set vs" for v
    by (simp only: s [OF that] mirrored_var_name)
  then have es: "tracked_entries ?o ?l regs registry ?vs = ?es"
    unfolding tracked_entries_def [of _ _ _ _ ?vs] tracked_entries_def [of o1 l1 regs registry vs] map_map comp_def
    by (intro arg_cong [of _ _ concat] map_cong refl)
  show ?thesis
    unfolding m_def compute_eq [OF assms(1)] mirroring.simps
    by (simp only: compute_eq [OF d] vars es refl not_True_eq_False)
qed


section \<open>Configs\<close>

lemma annos_distinct [simp]:
  "adcManagedByAnnotation \<noteq> adcOriginalValuesAnnotation" "adcOriginalValuesAnnotation \<noteq> adcManagedByAnnotation"
  "adcManagedByAnnotation \<noteq> adcLastMirroredValuesAnnotation" "adcLastMirroredValuesAnnotation \<noteq> adcManagedByAnnotation"
  "adcOriginalValuesAnnotation \<noteq> adcLastMirroredValuesAnnotation"
  "adcLastMirroredValuesAnnotation \<noteq> adcOriginalValuesAnnotation"
  by (simp_all add: mirror_annotations)

text \<open>What a map of original values is written as reads back as the same map.\<close>

lemma parse_marshal_values:
  assumes "distinct (map fst m)"
  shows "map_of (parseOriginalValues (marshalOriginalValues m)) = map_of m"
proof (cases m)
  case (Cons kv m')
  from unmarshal_marshal [OF assms] obtain m'' where
    "unmarshal_string_map (marshal_string_map m) = Some m''" "map_of m'' = map_of m" by blast
  moreover have "marshal_string_map m \<noteq> []" by (simp add: marshal_members)
  ultimately show ?thesis using Cons by (simp add: parseOriginalValues_def marshalOriginalValues_def)
qed (simp add: parseOriginalValues_def marshalOriginalValues_def)

lemma parse_nil [simp]: "parseOriginalValues [] = []" "marshalOriginalValues [] = []"
  by (simp_all add: parseOriginalValues_def marshalOriginalValues_def)

abbreviation recorded_orig :: "deployment_config \<Rightarrow> smap" where
  "recorded_orig adc \<equiv> parseOriginalValues (mget (adc_annos adc) adcOriginalValuesAnnotation)"
abbreviation recorded_last :: "deployment_config \<Rightarrow> smap" where
  "recorded_last adc \<equiv> parseOriginalValues (mget (adc_annos adc) adcLastMirroredValuesAnnotation)"

text \<open>The source values of a config, in order: what it would hold without mirroring.\<close>

definition source_vars :: "deployment_config \<Rightarrow> custom_var list" where
  "source_vars adc = map (\<lambda>v. \<lparr>cv_name = cv_name v,
     cv_value = source_value (recorded_orig adc) (recorded_last adc) v\<rparr>) (dc_vars adc)"

abbreviation mirroring_of :: "image_registry \<Rightarrow> deployment_config \<Rightarrow> mirroring" where
  "mirroring_of r adc \<equiv>
     computeUpdatedVariables (dc_vars adc) (recorded_orig adc) (recorded_last adc) (ir_registries r) (ir_registry r)"

abbreviation var_names :: "deployment_config \<Rightarrow> string list" where
  "var_names adc \<equiv> map cv_name (dc_vars adc)"

lemma with_mirroring_sel [simp]:
  "dc_vars (with_mirroring vars annos adc) = vars"
  "adc_annos (with_mirroring vars annos adc) = annos"
  "dc_install_ns (with_mirroring vars annos adc) = dc_install_ns adc"
  "adc_key (with_mirroring vars annos adc) = adc_key adc"
  by (simp_all add: with_mirroring_def adc_key_def)

lemma drop_bookkeeping_mget [simp]:
  "mget (drop_bookkeeping annos) adcManagedByAnnotation = []"
  "mget (drop_bookkeeping annos) adcOriginalValuesAnnotation = []"
  "mget (drop_bookkeeping annos) adcLastMirroredValuesAnnotation = []"
  "\<not> has_key (drop_bookkeeping annos) adcManagedByAnnotation"
  "map_of (drop_bookkeeping annos) adcManagedByAnnotation = None"
  by (simp_all add: drop_bookkeeping_def)

lemma compute_keys:
  assumes "distinct (map cv_name vs)"
  shows "distinct (map fst (mi_orig (computeUpdatedVariables vs o1 l1 regs registry)))"
    "distinct (map fst (mi_last (computeUpdatedVariables vs o1 l1 regs registry)))"
    "mi_orig (computeUpdatedVariables vs o1 l1 regs registry) = [] \<longleftrightarrow>
     mi_last (computeUpdatedVariables vs o1 l1 regs registry) = []"
proof -
  let ?es = "tracked_entries o1 l1 regs registry vs"
  have "fst \<circ> (\<lambda>(n :: string, s :: string, m :: string). (n, s)) = fst" "fst \<circ> (\<lambda>(n :: string, s :: string, m :: string). (n, m)) = fst"
    by auto
  with entries_distinct [OF assms, of o1 l1 regs registry] show
    "distinct (map fst (mi_orig (computeUpdatedVariables vs o1 l1 regs registry)))"
    "distinct (map fst (mi_last (computeUpdatedVariables vs o1 l1 regs registry)))"
    "mi_orig (computeUpdatedVariables vs o1 l1 regs registry) = [] \<longleftrightarrow>
     mi_last (computeUpdatedVariables vs o1 l1 regs registry) = []"
    unfolding compute_eq [OF assms] by simp_all
qed

text \<open>What a config that was rewritten records is what the pass computed.\<close>

lemma mirrored_config_records:
  assumes "distinct (var_names adc)" and "mirrored_config r adc = Some adc'"
  shows "dc_vars adc' = mi_vars (mirroring_of r adc)"
    "mget (adc_annos adc') adcOriginalValuesAnnotation = marshalOriginalValues (mi_orig (mirroring_of r adc))"
    "mget (adc_annos adc') adcLastMirroredValuesAnnotation = marshalOriginalValues (mi_last (mirroring_of r adc))"
    "map_of (recorded_orig adc') = map_of (mi_orig (mirroring_of r adc))"
    "map_of (recorded_last adc') = map_of (mi_last (mirroring_of r adc))"
    "mi_orig (mirroring_of r adc) \<noteq> [] \<Longrightarrow> mget (adc_annos adc') adcManagedByAnnotation = ownerKeyFor r"
proof -
  note keys = compute_keys [OF assms(1), of "recorded_orig adc" "recorded_last adc" "ir_registries r" "ir_registry r"]
  show v: "dc_vars adc' = mi_vars (mirroring_of r adc)"
    and o': "mget (adc_annos adc') adcOriginalValuesAnnotation = marshalOriginalValues (mi_orig (mirroring_of r adc))"
    and l': "mget (adc_annos adc') adcLastMirroredValuesAnnotation = marshalOriginalValues (mi_last (mirroring_of r adc))"
    and "mi_orig (mirroring_of r adc) \<noteq> [] \<Longrightarrow> mget (adc_annos adc') adcManagedByAnnotation = ownerKeyFor r"
    using assms(2) keys(3) by (auto simp: mirrored_config_def Let_def split: if_splits)
  show "map_of (recorded_orig adc') = map_of (mi_orig (mirroring_of r adc))"
    unfolding o' by (rule parse_marshal_values [OF keys(1)])
  show "map_of (recorded_last adc') = map_of (mi_last (mirroring_of r adc))"
    unfolding l' by (rule parse_marshal_values [OF keys(2)])
qed

lemma mirroring_of_again:
  assumes "distinct (var_names adc)" and "mirrored_config r adc = Some adc'"
  shows "mirroring_of r adc' = (mirroring_of r adc)\<lparr>mi_changed := False\<rparr>"
proof -
  note rec = mirrored_config_records [OF assms]
  have "mirroring_of r adc' = computeUpdatedVariables (mi_vars (mirroring_of r adc)) (mi_orig (mirroring_of r adc))
      (mi_last (mirroring_of r adc)) (ir_registries r) (ir_registry r)"
    unfolding rec(1) by (rule compute_cong [OF rec(4,5)])
  then show ?thesis by (simp add: compute_again [OF assms(1)])
qed

lemma mirrored_config_settled:
  assumes "distinct (var_names adc)" and "mirrored_config r adc = Some adc'"
  shows "mirrored_config r adc' = None"
  using mirroring_of_again [OF assms] mirrored_config_records [OF assms]
  by (auto simp: mirrored_config_def [of r adc'] Let_def)

text \<open>Mirroring keeps the source values.\<close>

lemma source_vars_kept:
  assumes "distinct (var_names adc)" and "mirrored_config r adc = Some adc'"
  shows "source_vars adc' = source_vars adc"
proof -
  note rec = mirrored_config_records [OF assms]
  note eq = compute_eq [OF assms(1), of "recorded_orig adc" "recorded_last adc" "ir_registries r" "ir_registry r"]
  let ?es = "tracked_entries (recorded_orig adc) (recorded_last adc) (ir_registries r) (ir_registry r) (dc_vars adc)"
  let ?o = "map (\<lambda>(n, s, m). (n, s)) ?es" and ?l = "map (\<lambda>(n, s, m). (n, m)) ?es"
  have "source_value (recorded_orig adc') (recorded_last adc') = source_value ?o ?l"
    by (intro ext) (simp add: source_value_def rec(4,5) eq)
  moreover have "dc_vars adc' = map (mirrored_var (recorded_orig adc) (recorded_last adc) (ir_registries r) (ir_registry r)) (dc_vars adc)"
    by (simp add: rec(1) eq)
  ultimately show ?thesis
    by (simp add: source_vars_def source_value_again [OF assms(1)])
qed


section \<open>Reverting\<close>

text \<open>The config after a revert.\<close>

definition restored :: "deployment_config \<Rightarrow> deployment_config" where
  "restored adc = (case reverted_config adc of Some b \<Rightarrow> b | None \<Rightarrow> adc)"

lemma revert_unchanged:
  "\<not> list_ex (\<lambda>v. case map_of origMap (cv_name v) of Some orig \<Rightarrow> cv_value v \<noteq> orig | None \<Rightarrow> False) vs \<Longrightarrow>
   map (revert_variable origMap) vs = vs"
  by (induction vs) (auto simp: revert_variable_def split: option.splits)

lemma restored_vars: "dc_vars (restored adc) = map (revert_variable (recorded_orig adc)) (dc_vars adc)"
  by (auto simp: restored_def reverted_config_def Let_def revert_unchanged)

lemma drop_bookkeeping_absent:
  "\<not> has_key annos adcManagedByAnnotation \<Longrightarrow> \<not> has_key annos adcOriginalValuesAnnotation \<Longrightarrow>
   \<not> has_key annos adcLastMirroredValuesAnnotation \<Longrightarrow> map_of (drop_bookkeeping annos) = map_of annos"
  by (auto simp: drop_bookkeeping_def has_key_def fun_eq_iff)

lemma restored_annos: "map_of (adc_annos (restored adc)) = map_of (drop_bookkeeping (adc_annos adc))"
  by (auto simp: restored_def reverted_config_def Let_def drop_bookkeeping_absent)

lemma revert_source:
  assumes "distinct (var_names adc)" and "mirrored_config r adc = Some adc'"
  shows "map (revert_variable (recorded_orig adc')) (dc_vars adc') = source_vars adc"
proof -
  note rec = mirrored_config_records [OF assms]
  note eq = compute_eq [OF assms(1), of "recorded_orig adc" "recorded_last adc" "ir_registries r" "ir_registry r"]
  let ?es = "tracked_entries (recorded_orig adc) (recorded_last adc) (ir_registries r) (ir_registry r) (dc_vars adc)"
  have o': "map_of (recorded_orig adc') n = map_option fst (map_of ?es n)" for n
    by (simp add: rec(4) eq map_of_map_fst)
  have v: "dc_vars adc' = map (mirrored_var (recorded_orig adc) (recorded_last adc) (ir_registries r) (ir_registry r)) (dc_vars adc)"
    by (simp add: rec(1) eq)
  show ?thesis
    unfolding v source_vars_def map_map
    by (intro map_cong refl)
       (simp add: revert_variable_def o' map_of_entries [OF assms(1)] mirrored_var_def mirror_or_keep_def
         split: option.splits)
qed

lemma mirrored_config_annos:
  assumes "mirrored_config r adc = Some adc'"
  shows "map_of (drop_bookkeeping (adc_annos adc')) = map_of (drop_bookkeeping (adc_annos adc))"
  using assms by (auto simp: mirrored_config_def Let_def drop_bookkeeping_def fun_eq_iff split: if_splits)

lemma mirrored_config_frame:
  assumes "mirrored_config r adc = Some adc'"
  shows "adc_key adc' = adc_key adc" "dc_install_ns adc' = dc_install_ns adc"
  using assms by (auto simp: mirrored_config_def Let_def split: if_splits)

lemma source_vars_fresh:
  assumes "\<not> has_key (adc_annos adc) adcOriginalValuesAnnotation"
  shows "source_vars adc = dc_vars adc"
proof -
  have "recorded_orig adc = []" using assms by (simp add: mget_def has_key_def)
  then show ?thesis by (auto simp: source_vars_def source_value_def intro!: map_idI)
qed

text \<open>C25: mirroring can be undone. After a pass of \<open>applyImageMirroring\<close> over a config, a revert leaves the
  source value of every variable (for a config without bookkeeping: exactly the variables it had), in
  the same order, no bookkeeping annotation, every other annotation as before, and the same install
  namespace.\<close>

theorem mirroring_reversible:
  assumes "distinct (var_names adc)" and "mirrored_config r adc = Some adc'"
  shows "dc_vars (restored adc') = source_vars adc
    \<and> (\<not> has_key (adc_annos adc) adcOriginalValuesAnnotation \<longrightarrow> source_vars adc = dc_vars adc)
    \<and> map_of (adc_annos (restored adc')) = map_of (drop_bookkeeping (adc_annos adc))
    \<and> adc_key (restored adc') = adc_key adc \<and> dc_install_ns (restored adc') = dc_install_ns adc"
  using revert_source [OF assms] mirrored_config_frame [OF assms(2)] source_vars_fresh [of adc]
  by (simp add: restored_vars restored_annos mirrored_config_annos [OF assms(2)])
     (auto simp: restored_def reverted_config_def Let_def)

section \<open>The handlers\<close>

definition config_key :: "string \<Rightarrow> addon_config \<Rightarrow> nsname" where
  "config_key cluster cfg = (if ac_ns cfg = [] then cluster else ac_ns cfg, ac_name cfg)"

text \<open>The config a cluster's addon references, and what looking it up returns.\<close>

definition references :: "world \<Rightarrow> string \<Rightarrow> nsname option" where
  "references w cluster =
     (case map_of (w_addons w) (cluster, gitopsAddonName) of
        None \<Rightarrow> None
      | Some mca \<Rightarrow> map_option (config_key cluster) (find is_config_ref (ca_configs mca)))"

definition lookup_config :: "world \<Rightarrow> string \<Rightarrow> deployment_config option" where
  "lookup_config w cluster = (case references w cluster of None \<Rightarrow> None | Some k \<Rightarrow> map_of (w_adcs w) k)"

lemma find_quiet: "state_io_rel quiet (findGitOpsAddonDeploymentConfig cluster)"
  unfolding findGitOpsAddonDeploymentConfig_def by (intro quiet.frame_rules get_quiet)

lemma find_Inr:
  assumes "run_state (findGitOpsAddonDeploymentConfig cluster) w = (Inr adc, w')"
  shows "lookup_config w cluster = Some adc"
  using assms
  by (auto simp: findGitOpsAddonDeploymentConfig_def run_simps lookup_config_def references_def config_key_def
      split: option.splits)

lemma find_calm:
  assumes "calm w"
  shows "(case lookup_config w cluster of
      Some adc \<Rightarrow> fst (run_state (findGitOpsAddonDeploymentConfig cluster) w) = Inr adc
    | None \<Rightarrow> \<exists>e. fst (run_state (findGitOpsAddonDeploymentConfig cluster) w) = Inl e \<and> is_not_found e)"
  using assms
  by (auto simp: findGitOpsAddonDeploymentConfig_def run_simps lookup_config_def references_def config_key_def
      split: option.splits)

lemma resolve_quiet: "state_io_rel quiet (resolvePlacementClusterNames r)"
  unfolding resolvePlacementClusterNames_def by (intro quiet.frame_rules get_quiet list_quiet)


text \<open>A config that no other registry manages.\<close>

definition mine :: "image_registry \<Rightarrow> deployment_config \<Rightarrow> bool" where
  "mine r adc \<longleftrightarrow>
     (case map_of (adc_annos adc) adcManagedByAnnotation of None \<Rightarrow> True | Some owner \<Rightarrow> owner = ownerKeyFor r)"

lemma applyImageMirroring_eq:
  "applyImageMirroring r cluster = do {
     f \<leftarrow> findGitOpsAddonDeploymentConfig cluster;
     case f of
       Inl e \<Rightarrow> State_Monad.return (if is_not_found e then Inr () else Inl e)
     | Inr adc \<Rightarrow>
         (if \<not> mine r adc then
            State_Monad.return (Inl (ErrText
              (''addOnDeploymentConfig '' @ m_ns (dc_meta adc) @ ''/'' @ m_name (dc_meta adc) @
               '' is already managed by ManagedClusterImageRegistry '' @ mget (adc_annos adc) adcManagedByAnnotation @
               '', refusing to take over from '' @ ownerKeyFor r)))
          else (case mirrored_config r adc of
                  None \<Rightarrow> State_Monad.return (Inr ())
                | Some new \<Rightarrow> update_adc (adc_key adc) new))
   }"
  by (auto simp: applyImageMirroring_def mine_def split: option.splits sum.splits
      intro!: arg_cong2 [of _ _ _ _ State_Monad.bind] ext)

text \<open>The configs as the API server keeps them: one per key, with variables of distinct names.\<close>

definition well_configured :: "world \<Rightarrow> bool" where
  "well_configured w \<longleftrightarrow> keyed dc_meta (w_adcs w)
     \<and> (\<forall>k adc. map_of (w_adcs w) k = Some adc \<longrightarrow> distinct (var_names adc))"

text \<open>Everything but the configs is as it was, whatever verdicts were consumed.\<close>

definition only_configs :: "world \<Rightarrow> world \<Rightarrow> bool" where
  "only_configs s t \<longleftrightarrow> quiet s (t\<lparr>w_adcs := w_adcs s\<rparr>)"

lemma only_configs_sel:
  assumes "only_configs s t"
  shows "w_addons t = w_addons s" "w_placements t = w_placements s" "w_decisions t = w_decisions s"
    "w_registries t = w_registries s" "w_secrets t = w_secrets s" "calm s \<Longrightarrow> calm t"
  using quiet_sel [OF assms [unfolded only_configs_def]] by (simp_all add: calm_def)

interpretation only_configs: frame only_configs
proof unfold_locales
  show "only_configs s s" for s by (simp add: only_configs_def quiet.frame_refl)
next
  fix s t u assume 1: "only_configs s t" and 2: "only_configs t u"
  from 1 obtain n where n: "t\<lparr>w_adcs := w_adcs s\<rparr> = s\<lparr>w_verdicts := drop n (w_verdicts s)\<rparr>"
    unfolding only_configs_def quiet_def by blast
  from 2 obtain m where m: "u\<lparr>w_adcs := w_adcs t\<rparr> = t\<lparr>w_verdicts := drop m (w_verdicts t)\<rparr>"
    unfolding only_configs_def quiet_def by blast
  have v: "w_verdicts t = drop n (w_verdicts s)" using arg_cong [OF n, of w_verdicts] by simp
  have "u\<lparr>w_adcs := w_adcs s\<rparr> = (u\<lparr>w_adcs := w_adcs t\<rparr>)\<lparr>w_adcs := w_adcs s\<rparr>" by simp
  also have "\<dots> = (t\<lparr>w_adcs := w_adcs s\<rparr>)\<lparr>w_verdicts := drop m (w_verdicts t)\<rparr>" unfolding m by simp
  also have "\<dots> = s\<lparr>w_verdicts := drop (m + n) (w_verdicts s)\<rparr>" unfolding n v by (simp add: drop_drop)
  finally show "only_configs s u" unfolding only_configs_def quiet_def by blast
qed

lemma same_configs: "w_adcs t = w_adcs s \<Longrightarrow> t\<lparr>w_adcs := w_adcs s\<rparr> = t"
  by (cases t) simp

lemma quiet_only_configs: "quiet s t \<Longrightarrow> only_configs s t"
  using quiet_sel(15) [of s t] by (simp add: only_configs_def same_configs)

lemma quiet_rel_only_configs: "state_io_rel quiet m \<Longrightarrow> state_io_rel only_configs m"
  by (simp add: state_io_rel_def quiet_only_configs)

lemma update_adc_only_configs: "state_io_rel only_configs (update_adc k x)"
  by (auto intro!: state_io_relI simp: run_simps only_configs_def quiet_consume same_configs split: option.splits if_splits)

lemma apply_only_configs: "state_io_rel only_configs (applyImageMirroring r cluster)"
  unfolding applyImageMirroring_eq
  by (intro only_configs.frame_rules quiet_rel_only_configs find_quiet update_adc_only_configs)

text \<open>What one application does to the configs, whatever is rejected.\<close>

lemma apply_adcs:
  assumes "run_state (applyImageMirroring r cluster) w = (x, t)"
  shows "w_adcs t = w_adcs w \<or>
    (\<exists>adc adc'. lookup_config w cluster = Some adc \<and> mine r adc \<and> mirrored_config r adc = Some adc'
       \<and> w_adcs t = mset_key (adc_key adc) adc' (w_adcs w))"
proof -
  obtain f w1 where f: "run_state (findGitOpsAddonDeploymentConfig cluster) w = (f, w1)" by (rule prod.exhaust)
  have q: "w_adcs w1 = w_adcs w" using quiet_sel(15) [OF state_io_relD [OF find_quiet f]] .
  show ?thesis
  proof (cases f)
    case (Inl e)
    with assms f q show ?thesis by (simp add: applyImageMirroring_eq)
  next
    case (Inr adc)
    then have "lookup_config w cluster = Some adc" using find_Inr f by simp
    with assms f q Inr show ?thesis
      by (auto simp: applyImageMirroring_eq run_simps split: if_splits option.splits)
  qed
qed

text \<open>And what it does when nothing is rejected.\<close>

lemma apply_calm:
  assumes "calm w" and "keyed dc_meta (w_adcs w)" and "run_state (applyImageMirroring r cluster) w = (x, t)"
  shows "w_adcs t = (case lookup_config w cluster of
        None \<Rightarrow> w_adcs w
      | Some adc \<Rightarrow> (case (if mine r adc then mirrored_config r adc else None) of
          None \<Rightarrow> w_adcs w | Some adc' \<Rightarrow> mset_key (adc_key adc) adc' (w_adcs w)))"
    and "x = Inr () \<longleftrightarrow> (\<forall>adc. lookup_config w cluster = Some adc \<longrightarrow> mine r adc)"
proof -
  obtain f w1 where f: "run_state (findGitOpsAddonDeploymentConfig cluster) w = (f, w1)" by (rule prod.exhaust)
  have q: "w_adcs w1 = w_adcs w" "calm w1"
    using quiet_sel(15,19) [OF state_io_relD [OF find_quiet f]] assms(1) by simp_all
  have "w_adcs t = (case lookup_config w cluster of
        None \<Rightarrow> w_adcs w
      | Some adc \<Rightarrow> (case (if mine r adc then mirrored_config r adc else None) of
          None \<Rightarrow> w_adcs w | Some adc' \<Rightarrow> mset_key (adc_key adc) adc' (w_adcs w)))
    \<and> (x = Inr () \<longleftrightarrow> (\<forall>adc. lookup_config w cluster = Some adc \<longrightarrow> mine r adc))"
  proof (cases "lookup_config w cluster")
    case None
    with find_calm [OF assms(1), of cluster] f assms(3) q show ?thesis by (auto simp: applyImageMirroring_eq)
  next
    case (Some adc)
    then obtain k where k: "map_of (w_adcs w) k = Some adc" by (auto simp: lookup_config_def split: option.splits)
    from keyedD [OF assms(2) this] have "has_key (w_adcs w) (adc_key adc)" using k by (simp add: adc_key_def has_key_def)
    with Some find_calm [OF assms(1), of cluster] f assms(3) q show ?thesis
      by (auto simp: applyImageMirroring_eq run_simps split: if_splits option.splits)
  qed
  then show "w_adcs t = (case lookup_config w cluster of
        None \<Rightarrow> w_adcs w
      | Some adc \<Rightarrow> (case (if mine r adc then mirrored_config r adc else None) of
          None \<Rightarrow> w_adcs w | Some adc' \<Rightarrow> mset_key (adc_key adc) adc' (w_adcs w)))"
    and "x = Inr () \<longleftrightarrow> (\<forall>adc. lookup_config w cluster = Some adc \<longrightarrow> mine r adc)" by simp_all
qed


lemma mirroring_names: "map cv_name (mi_vars (computeUpdatedVariables vs o1 l1 regs registry)) = map cv_name vs"
proof -
  have "map cv_name (mi_vars (fold (updateVariable o1 l1 regs registry) vs acc)) = map cv_name (mi_vars acc @ vs)" for acc
    by (induction vs arbitrary: acc) (simp_all add: updateVariable_eq Let_def)
  then show ?thesis by (simp add: computeUpdatedVariables_def)
qed

lemma mirrored_names: "mirrored_config r adc = Some adc' \<Longrightarrow> var_names adc' = var_names adc"
  by (auto simp: mirrored_config_def Let_def mirroring_names split: if_splits)

lemma lookup_key:
  "keyed dc_meta (w_adcs w) \<Longrightarrow> lookup_config w cluster = Some adc \<Longrightarrow>
     references w cluster = Some (adc_key adc) \<and> map_of (w_adcs w) (adc_key adc) = Some adc"
  by (auto simp: lookup_config_def adc_key_def split: option.splits dest: keyedD)

text \<open>applying a registry to a cluster changes nothing but the config the cluster's addon references,
  and that only when no other registry manages it; the names of its variables, its install namespace and
  every annotation other than the three bookkeeping ones stay. This holds under every failure.\<close>

theorem mirroring_frame:
  assumes "keyed dc_meta (w_adcs w)" and "run_state (applyImageMirroring r cluster) w = (x, t)"
  shows "only_configs w t
    \<and> (\<forall>k. map_of (w_adcs t) k \<noteq> map_of (w_adcs w) k \<longrightarrow>
         references w cluster = Some k
         \<and> (\<exists>adc adc'. map_of (w_adcs w) k = Some adc \<and> map_of (w_adcs t) k = Some adc' \<and> mine r adc
              \<and> var_names adc' = var_names adc \<and> dc_install_ns adc' = dc_install_ns adc
              \<and> map_of (drop_bookkeeping (adc_annos adc')) = map_of (drop_bookkeeping (adc_annos adc))))"
proof -
  have "references w cluster = Some k
         \<and> (\<exists>adc adc'. map_of (w_adcs w) k = Some adc \<and> map_of (w_adcs t) k = Some adc' \<and> mine r adc
              \<and> var_names adc' = var_names adc \<and> dc_install_ns adc' = dc_install_ns adc
              \<and> map_of (drop_bookkeeping (adc_annos adc')) = map_of (drop_bookkeeping (adc_annos adc)))"
    if k: "map_of (w_adcs t) k \<noteq> map_of (w_adcs w) k" for k
  proof -
    from apply_adcs [OF assms(2)] k obtain adc adc' where a: "lookup_config w cluster = Some adc" "mine r adc"
      "mirrored_config r adc = Some adc'" "w_adcs t = mset_key (adc_key adc) adc' (w_adcs w)" by auto
    with k have "k = adc_key adc" by (auto split: if_splits)
    with a lookup_key [OF assms(1) a(1)] mirrored_config_frame [OF a(3)] mirrored_names [OF a(3)]
      mirrored_config_annos [OF a(3)]
    show ?thesis by simp
  qed
  with state_io_relD [OF apply_only_configs assms(2)] show ?thesis by blast
qed

section \<open>Passes settle\<close>

definition settled :: "image_registry \<Rightarrow> world \<Rightarrow> string \<Rightarrow> bool" where
  "settled r w cluster \<longleftrightarrow>
     (\<forall>adc. lookup_config w cluster = Some adc \<longrightarrow> mine r adc \<and> mirrored_config r adc = None)"

lemma mine_mirrored: "mirrored_config r adc = Some adc' \<Longrightarrow> mine r adc'"
  by (auto simp: mine_def mirrored_config_def Let_def drop_bookkeeping_def split: if_splits)

lemma apply_step:
  assumes "calm w" and "well_configured w" and "run_state (applyImageMirroring r cluster) w = (x, t)"
  shows "calm t" "well_configured t" "settled r w c \<Longrightarrow> settled r t c" "x = Inr () \<Longrightarrow> settled r t cluster"
proof -
  have k: "keyed dc_meta (w_adcs w)" using assms(2) by (simp add: well_configured_def)
  note same = only_configs_sel [OF state_io_relD [OF apply_only_configs assms(3)]]
  then show "calm t" using assms(1) by simp
  have ref: "references t c = references w c" for c by (simp add: references_def same(1))
  note adcs = apply_calm [OF assms(1) k assms(3)]
  consider (idle) "w_adcs t = w_adcs w"
      "x = Inr () \<Longrightarrow> settled r w cluster"
    | (writes) adc adc' where "lookup_config w cluster = Some adc" "mirrored_config r adc = Some adc'"
      "w_adcs t = mset_key (adc_key adc) adc' (w_adcs w)"
    using adcs by (fastforce simp: settled_def split: option.splits if_splits)
  then have "well_configured t \<and> (settled r w c \<longrightarrow> settled r t c) \<and> (x = Inr () \<longrightarrow> settled r t cluster)"
  proof cases
    case idle
    then have "lookup_config t = lookup_config w" by (intro ext) (simp only: lookup_config_def ref)
    with idle show ?thesis using assms(2) by (simp add: well_configured_def settled_def)
  next
    case writes
    note l = lookup_key [OF k writes(1)]
    have d: "distinct (var_names adc)" using assms(2) l unfolding well_configured_def by blast
    have key: "adc_key adc' = adc_key adc" using mirrored_config_frame [OF writes(2)] by simp
    have new: "mine r adc'" "mirrored_config r adc' = None" "distinct (var_names adc')"
      using mine_mirrored [OF writes(2)] mirrored_config_settled [OF d writes(2)] mirrored_names [OF writes(2)] d by simp_all
    have "keyed dc_meta (w_adcs t)"
      using keyed_mset_key [OF k, of adc'] key by (simp add: writes(3) adc_key_def)
    then have "well_configured t"
      using assms(2) new(3) by (auto simp: well_configured_def writes(3))
    moreover have "lookup_config t c = (if references w c = Some (adc_key adc) then Some adc' else lookup_config w c)" for c
      by (simp add: lookup_config_def ref writes(3) split: option.splits)
    ultimately show ?thesis using new l by (auto simp: settled_def)
  qed
  then show "well_configured t" "settled r w c \<Longrightarrow> settled r t c" "x = Inr () \<Longrightarrow> settled r t cluster" by auto
qed

lemma applyAll_run:
  "run_state (applyAll r errs c) w =
     (case run_state (applyImageMirroring r c) w of
        (x, t) \<Rightarrow> (case x of Inl e \<Rightarrow> errs @ [Wrapped (''cluster '' @ c) e] | Inr _ \<Rightarrow> errs, t))"
  by (simp add: applyAll_def split: prod.splits)

lemma applyAll_only_configs: "state_io_rel only_configs (applyAll r errs c)"
  unfolding applyAll_def by (intro only_configs.frame_rules apply_only_configs)

lemma applyAll_settles:
  assumes "calm w" and "well_configured w" and "run_state (loopM (applyAll r) errs cs) w = (errs', t)" and "errs' = []"
  shows "well_configured t \<and> (\<forall>c. c \<in> set cs \<or> settled r w c \<longrightarrow> settled r t c) \<and> errs = []"
  using assms
proof (induction cs arbitrary: errs w)
  case (Cons c cs)
  obtain x u where u: "run_state (applyImageMirroring r c) w = (x, u)" by (rule prod.exhaust)
  note step = apply_step [OF Cons.prems(1,2) u]
  from Cons.prems(3) u have run: "run_state (loopM (applyAll r)
      (case x of Inl e \<Rightarrow> errs @ [Wrapped (''cluster '' @ c) e] | Inr _ \<Rightarrow> errs) cs) u = (errs', t)"
    by (simp add: applyAll_run)
  note IH = Cons.IH [OF step(1,2) run Cons.prems(4)]
  then have "x = Inr ()" "errs = []" by (auto split: sum.splits)
  with IH step(3,4) show ?case by auto
qed simp

lemma lookup_quiet: "quiet w t \<Longrightarrow> lookup_config t c = lookup_config w c"
  by (simp only: lookup_config_def references_def quiet_sel)

lemma settled_quiet:
  assumes "calm w" and "keyed dc_meta (w_adcs w)" and "settled r w c"
    and "run_state (applyImageMirroring r c) w = (x, t)"
  shows "x = Inr () \<and> quiet w t"
proof -
  have s: "lookup_config w c = Some adc \<Longrightarrow> mine r adc \<and> mirrored_config r adc = None" for adc
    using assms(3) by (simp add: settled_def)
  have "w_adcs t = w_adcs w" "x = Inr ()"
    using apply_calm [OF assms(1,2,4)] s by (auto split: option.splits)
  moreover have "only_configs w t" using state_io_relD [OF apply_only_configs assms(4)] .
  ultimately show ?thesis by (simp add: only_configs_def same_configs)
qed

lemma applyAll_settled:
  assumes "calm w" and "keyed dc_meta (w_adcs w)" and "\<forall>c \<in> set cs. settled r w c"
  shows "\<exists>t. run_state (loopM (applyAll r) errs cs) w = (errs, t) \<and> quiet w t"
  using assms
proof (induction cs arbitrary: w)
  case Nil
  then show ?case by (simp add: quiet.frame_refl)
next
  case (Cons c cs)
  obtain x u where u: "run_state (applyImageMirroring r c) w = (x, u)" by (rule prod.exhaust)
  have s: "settled r w c" using Cons.prems(3) by simp
  have xu: "x = Inr ()" "quiet w u" using settled_quiet [OF Cons.prems(1,2) s u] by auto
  note q = quiet_sel [OF xu(2)]
  have "calm u" "keyed dc_meta (w_adcs u)" "\<forall>c \<in> set cs. settled r u c"
    using Cons.prems q by (simp_all add: settled_def lookup_quiet [OF xu(2)])
  from Cons.IH [OF this] obtain t where "run_state (loopM (applyAll r) errs cs) u = (errs, t)" "quiet u t" by blast
  with u xu show ?case by (auto simp: applyAll_run intro: quiet.frame_trans)
qed


lemma resolve_calm:
  assumes "calm w" and "calm t" and "w_placements t = w_placements w" and "w_decisions t = w_decisions w"
  shows "fst (run_state (resolvePlacementClusterNames r) t) = fst (run_state (resolvePlacementClusterNames r) w)"
  using assms by (simp add: resolvePlacementClusterNames_def run_simps split: option.splits)

text \<open>The steps of a reconcile that applies.\<close>

lemma reconcile_applies:
  assumes "calm w" and "run_state (ReconcileImageRegistry key) w = (Inr n, t)" and "0 < n"
  obtains r names u where "map_of (w_registries w) key = Some r"
    "\<not> m_deleting (ir_meta r)" "wantsGitOpsAddonImageMirroring (Some r)"
    "containsString (m_finalizers (ir_meta r)) imageRegistryFinalizer"
    "run_state (resolvePlacementClusterNames r) (consume w) = (Inr names, u)"
    "run_state (loopM (applyAll r) [] names) u = ([], t)" "n = 5"
proof -
  have del: "fst (run_state (reconcileDelete r) v) = Inr n \<Longrightarrow> False" for r v
    using assms(3) by (auto simp: reconcileDelete_def split: prod.splits sum.splits if_splits)
  from assms(1,2) obtain r where r: "map_of (w_registries w) key = Some r"
    using assms(3) by (auto simp: ReconcileImageRegistry_def run_simps split: option.splits)
  obtain c u where u: "run_state (resolvePlacementClusterNames r) (consume w) = (c, u)" by (rule prod.exhaust)
  have g: "\<not> m_deleting (ir_meta r)" "wantsGitOpsAddonImageMirroring (Some r)"
    "containsString (m_finalizers (ir_meta r)) imageRegistryFinalizer"
    using assms r del [of r "consume w"]
    by (auto simp: ReconcileImageRegistry_def run_simps split: if_splits option.splits prod.splits sum.splits)
  from assms r u g obtain names errs where names: "c = Inr names"
    "run_state (loopM (applyAll r) [] names) u = (errs, t)" "(if length errs > 0 then Inl (Joined errs) else Inr 5) = Inr n"
    by (cases c) (auto simp: ReconcileImageRegistry_def run_simps split: prod.splits)
  from names(3) have "errs = []" "n = 5" by (auto split: if_splits)
  with that r g u names show ?thesis by blast
qed

text \<open>a reconcile pass reaches a fixed point. When a reconcile of an opted-in registry succeeds, the next
  one, with no change from outside, succeeds too and only reads: nothing is mirrored twice and no update
  triggers the watch on AddOnDeploymentConfigs again, however many clusters share a config.\<close>

theorem mirroring_settles:
  assumes "calm w" and "well_configured w" and "run_state (ReconcileImageRegistry key) w = (Inr n, t)" and "0 < n"
  shows "\<exists>t'. run_state (ReconcileImageRegistry key) t = (Inr n, t') \<and> quiet t t'"
proof -
  obtain r names u where r: "map_of (w_registries w) key = Some r"
    and g: "\<not> m_deleting (ir_meta r)" "wantsGitOpsAddonImageMirroring (Some r)"
      "containsString (m_finalizers (ir_meta r)) imageRegistryFinalizer"
    and u: "run_state (resolvePlacementClusterNames r) (consume w) = (Inr names, u)"
    and loop: "run_state (loopM (applyAll r) [] names) u = ([], t)" and n: "n = 5"
    using reconcile_applies [OF assms(1,3,4)] by blast
  have qu: "quiet w u"
    using quiet_consume state_io_relD [OF resolve_quiet u] by (rule quiet.frame_trans)
  note q = quiet_sel [OF qu]
  have u': "calm u" "well_configured u" using assms(1,2) q by (simp_all add: well_configured_def)
  note st = applyAll_settles [OF u' loop refl]
  have oc: "only_configs u t"
    using state_io_relD [OF only_configs.loopM_frame loop] applyAll_only_configs by blast
  note same = only_configs_sel [OF oc]
  have t: "calm t" "keyed dc_meta (w_adcs t)" using st same u' by (simp_all add: well_configured_def)
  obtain c v where v: "run_state (resolvePlacementClusterNames r) (consume t) = (c, v)" by (rule prod.exhaust)
  have "c = Inr names"
    using resolve_calm [of "consume w" "consume t" r] assms(1) t(1) u v same q by simp
  have qv: "quiet t v"
    using quiet_consume state_io_relD [OF resolve_quiet v] by (rule quiet.frame_trans)
  have "calm v" "keyed dc_meta (w_adcs v)" "\<forall>c \<in> set names. settled r v c"
    using st t quiet_sel [OF qv] by (simp_all add: settled_def lookup_quiet [OF qv])
  from applyAll_settled [OF this, of "[]"] obtain t' where
    t': "run_state (loopM (applyAll r) [] names) v = ([], t')" "quiet v t'" by blast
  have "map_of (w_registries t) key = Some r" using r same q by simp
  then have "run_state (ReconcileImageRegistry key) t = (Inr n, t')"
    using g v t' \<open>c = Inr names\<close> t(1) n by (simp add: ReconcileImageRegistry_def run_simps)
  moreover have "quiet t t'" using qv t'(2) by (rule quiet.frame_trans)
  ultimately show ?thesis by blast
qed

section \<open>An example\<close>

definition sample_registry :: image_registry where
  "sample_registry = \<lparr>ir_meta = (plain_meta ''mirrors'' ''acm'' [] [(gitopsAddonImageMirroringAnnotation, ''true'')])
       \<lparr>m_finalizers := [imageRegistryFinalizer]\<rparr>,
     ir_group = ''cluster.open-cluster-management.io'', ir_resource = ''placement'', ir_name = ''all'',
     ir_registries = [\<lparr>rg_mirror = ''mirror.local'', rg_source = ''quay.io''\<rparr>], ir_registry = []\<rparr>"

definition sample_config :: deployment_config where
  "sample_config = \<lparr>dc_meta = plain_meta ''gitops-addon-config'' ''c1'' [] [],
     dc_vars = [\<lparr>cv_name = ''IMG'', cv_value = ''quay.io/argo:1''\<rparr>, \<lparr>cv_name = ''MODE'', cv_value = ''managed''\<rparr>],
     dc_install_ns = ''ns''\<rparr>"

definition mirrored_sample :: deployment_config where
  "mirrored_sample = \<lparr>dc_meta = plain_meta ''gitops-addon-config'' ''c1'' []
       [(adcManagedByAnnotation, ''acm/mirrors''),
        (adcOriginalValuesAnnotation, marshal_string_map [(''IMG'', ''quay.io/argo:1'')]),
        (adcLastMirroredValuesAnnotation, marshal_string_map [(''IMG'', ''mirror.local/argo:1'')])],
     dc_vars = [\<lparr>cv_name = ''IMG'', cv_value = ''mirror.local/argo:1''\<rparr>, \<lparr>cv_name = ''MODE'', cv_value = ''managed''\<rparr>],
     dc_install_ns = ''ns''\<rparr>"

definition mirror_world :: world where
  "mirror_world = empty_world\<lparr>
     w_placements := [((''acm'', ''all''), \<lparr>u_meta = plain_meta ''all'' ''acm'' [] [], u_fields = []\<rparr>)],
     w_decisions := [((''acm'', ''all-1''), \<lparr>pd_meta = plain_meta ''all-1'' ''acm'' [(placementLabel, ''all'')] [],
       pd_clusters = [''c1'', ''c1'']\<rparr>)],
     w_addons := [((''c1'', ''gitops-addon''), \<lparr>ca_meta = plain_meta ''gitops-addon'' ''c1'' [] [], ca_install_ns = [],
       ca_configs = [\<lparr>ac_group = addonDeploymentConfigGroup, ac_resource = addonDeploymentConfigResource,
         ac_name = ''gitops-addon-config'', ac_ns = []\<rparr>]\<rparr>)],
     w_adcs := [((''c1'', ''gitops-addon-config''), sample_config)],
     w_registries := [((''acm'', ''mirrors''), sample_registry)]\<rparr>"

lemma sample_mirrored: "mirrored_config sample_registry sample_config = Some mirrored_sample"
  by (simp add: mirrored_config_def sample_config_def sample_registry_def mirrored_sample_def mget_def
      computeUpdatedVariables_def updateVariable_def computeMirroredValue_def match_registry_def has_prefix_def
      ownerKeyFor_def with_mirroring_def marshalOriginalValues_def plain_meta_def marshal_members)

lemma sample_names: "distinct (var_names sample_config)"
  by (simp add: sample_config_def)

theorem mirroring_reversible_witness: "dc_vars (restored mirrored_sample) = dc_vars sample_config"
  using mirroring_reversible [OF sample_names sample_mirrored]
  by (simp add: sample_config_def has_key_def)

lemma mirror_world_good: "calm mirror_world" "well_configured mirror_world"
  by (auto simp: mirror_world_def empty_world_def well_configured_def keyed_def sample_names)
     (simp_all add: sample_config_def)

lemma mirror_world_lookup: "lookup_config mirror_world ''c1'' = Some sample_config"
  by (simp add: lookup_config_def references_def mirror_world_def gitopsAddonName_def is_config_ref_def config_key_def)

theorem mirroring_frame_witness:
  "map_of (w_adcs (snd (run_state (applyImageMirroring sample_registry ''c2'') mirror_world))) (''c1'', ''gitops-addon-config'')
     = Some sample_config"
proof (rule ccontr)
  have k: "keyed dc_meta (w_adcs mirror_world)" using mirror_world_good by (simp add: well_configured_def)
  obtain x t where r: "run_state (applyImageMirroring sample_registry ''c2'') mirror_world = (x, t)" by (rule prod.exhaust)
  assume "\<not> ?thesis"
  then have "map_of (w_adcs t) (''c1'', ''gitops-addon-config'') \<noteq> map_of (w_adcs mirror_world) (''c1'', ''gitops-addon-config'')"
    by (simp add: r) (simp add: mirror_world_def)
  with mirroring_frame [OF k r] have "references mirror_world ''c2'' = Some (''c1'', ''gitops-addon-config'')" by blast
  then show False by (simp add: references_def mirror_world_def)
qed


lemma mirror_world_resolve:
  "run_state (resolvePlacementClusterNames sample_registry) mirror_world = (Inr [''c1''], mirror_world)"
proof -
  have "consume mirror_world = mirror_world" "verdict mirror_world = None"
    by (simp_all add: consume_nil mirror_world_def empty_world_def verdict_def)
  moreover have "map_of (w_placements mirror_world) (''acm'', ''all'') = Some \<lparr>u_meta = plain_meta ''all'' ''acm'' [] [], u_fields = []\<rparr>"
    "filter (decision_of ''acm'' ''all'') (map snd (w_decisions mirror_world)) = map snd (w_decisions mirror_world)"
    "fold (\<lambda>c seen. add_new seen c) (concat (map pd_clusters (map snd (w_decisions mirror_world)))) [] = [''c1'']"
    by (simp_all add: mirror_world_def decision_of_def add_new_def)
  moreover have "m_ns (ir_meta sample_registry) = ''acm''" "ir_name sample_registry = ''all''"
    "equal_fold (ir_group sample_registry) ''cluster.open-cluster-management.io''"
    "equal_fold (ir_resource sample_registry) ''placement''"
    by (simp_all add: sample_registry_def plain_meta_def equal_fold_def)
  ultimately show ?thesis
    by (simp add: resolvePlacementClusterNames_def run_simps comp_def)
qed

lemma mirror_world_reconciles:
  "\<exists>t. run_state (ReconcileImageRegistry (''acm'', ''mirrors'')) mirror_world = (Inr 5, t)"
proof -
  have c: "consume mirror_world = mirror_world" "verdict mirror_world = None"
    by (simp_all add: consume_nil mirror_world_def empty_world_def verdict_def)
  have r: "map_of (w_registries mirror_world) (''acm'', ''mirrors'') = Some sample_registry"
    by (simp add: mirror_world_def)
  have g: "\<not> m_deleting (ir_meta sample_registry)" "wantsGitOpsAddonImageMirroring (Some sample_registry)"
    "containsString (m_finalizers (ir_meta sample_registry)) imageRegistryFinalizer"
    by (simp_all add: sample_registry_def plain_meta_def wantsGitOpsAddonImageMirroring_def mget_def)
  obtain x t where t: "run_state (applyImageMirroring sample_registry ''c1'') mirror_world = (x, t)" by (rule prod.exhaust)
  have "x = Inr ()"
    using apply_calm(2) [OF _ _ t] mirror_world_good mirror_world_lookup
    by (simp add: well_configured_def mine_def sample_config_def)
  with c r g t mirror_world_resolve show ?thesis
    by (simp add: ReconcileImageRegistry_def run_simps applyAll_run)
qed

theorem mirroring_settles_witness:
  "\<exists>t t'. run_state (ReconcileImageRegistry (''acm'', ''mirrors'')) mirror_world = (Inr 5, t)
     \<and> run_state (ReconcileImageRegistry (''acm'', ''mirrors'')) t = (Inr 5, t') \<and> quiet t t'"
proof -
  from mirror_world_reconciles obtain t where
    t: "run_state (ReconcileImageRegistry (''acm'', ''mirrors'')) mirror_world = (Inr 5, t)" by blast
  with mirroring_settles [OF mirror_world_good t] show ?thesis by simp
qed

end
