(* ===== verification/ImageRevert.thy ===== *)
theory ImageRevert
  imports ImageMirroring
begin

text \<open>
  What \<open>revertImageMirroring\<close> and the clean-up of a ManagedClusterImageRegistry
  (\<open>imageregistry_controller.go\<close>) do: only configs the registry owns are restored, under every failure,
  and exactly which of them are restored when nothing fails.
\<close>

section \<open>Ownership\<close>

definition owner_is :: "string \<Rightarrow> deployment_config \<Rightarrow> bool" where
  "owner_is ownerKey adc \<longleftrightarrow> mget (adc_annos adc) adcManagedByAnnotation = ownerKey"

definition owns :: "image_registry \<Rightarrow> world \<Rightarrow> nsname \<Rightarrow> bool" where
  "owns r w k \<longleftrightarrow> (\<exists>adc. map_of (w_adcs w) k = Some adc \<and> owner_is (ownerKeyFor r) adc)"

lemma ownerKey_nonempty [simp]: "ownerKeyFor r \<noteq> []" "[] \<noteq> ownerKeyFor r"
  by (simp_all add: ownerKeyFor_def)

lemma restored_key [simp]: "adc_key (restored adc) = adc_key adc"
  by (simp add: restored_def reverted_config_def Let_def)

lemma owner_has_key: "owner_is (ownerKeyFor r) adc \<Longrightarrow> has_key (adc_annos adc) adcManagedByAnnotation"
  by (auto simp: owner_is_def mget_def has_key_def split: option.splits)

lemma restored_not_owned [simp]: "\<not> owner_is (ownerKeyFor r) (restored adc)"
  by (auto simp: owner_is_def restored_def reverted_config_def Let_def mget_def has_key_def split: option.splits)

lemma reverted_owned: "owner_is (ownerKeyFor r) adc \<Longrightarrow> reverted_config adc = Some (restored adc)"
  using owner_has_key [of r adc] by (simp add: restored_def reverted_config_def Let_def)

text \<open>The configs of one world are those of another, but for owned ones that were restored.\<close>

definition reverting :: "image_registry \<Rightarrow> world \<Rightarrow> world \<Rightarrow> bool" where
  "reverting r s t \<longleftrightarrow> only_configs s t \<and> (keyed dc_meta (w_adcs s) \<longrightarrow> keyed dc_meta (w_adcs t))
     \<and> (\<forall>k. map_of (w_adcs t) k = map_of (w_adcs s) k
          \<or> (\<exists>adc. map_of (w_adcs s) k = Some adc \<and> owner_is (ownerKeyFor r) adc
               \<and> map_of (w_adcs t) k = Some (restored adc)))"

interpretation reverting: frame "reverting r" for r
proof unfold_locales
  show "reverting r s s" for s by (simp add: reverting_def only_configs.frame_refl)
next
  fix s t u assume st: "reverting r s t" and tu: "reverting r t u"
  have "only_configs s u" using st tu only_configs.frame_trans [of s t u] by (simp add: reverting_def)
  moreover have "map_of (w_adcs u) k = map_of (w_adcs s) k
          \<or> (\<exists>adc. map_of (w_adcs s) k = Some adc \<and> owner_is (ownerKeyFor r) adc
               \<and> map_of (w_adcs u) k = Some (restored adc))" for k
    using st tu restored_not_owned [of r] unfolding reverting_def by (metis option.inject)
  ultimately show "reverting r s u" using st tu by (simp add: reverting_def)
qed

lemma quiet_reverting: "quiet s t \<Longrightarrow> reverting r s t"
  using quiet_sel(15) [of s t] by (simp add: reverting_def quiet_only_configs)

lemma reverting_owns: "reverting r s t \<Longrightarrow> owns r t k \<Longrightarrow> owns r s k \<and> map_of (w_adcs t) k = map_of (w_adcs s) k"
  unfolding reverting_def owns_def by (metis option.inject restored_not_owned)

lemma reverting_sel:
  assumes "reverting r s t"
  shows "only_configs s t" "keyed dc_meta (w_adcs s) \<Longrightarrow> keyed dc_meta (w_adcs t)"
  using assms by (simp_all add: reverting_def)

section \<open>One config\<close>

lemma revert_one:
  assumes "keyed dc_meta (w_adcs w)" and "map_of (w_adcs w) (adc_key adc) = Some adc"
    and "owner_is (ownerKeyFor r) adc" and "run_state (revertAddOnDeploymentConfig adc) w = (x, t)"
  shows "reverting r w t" "calm w \<Longrightarrow> x = Inr () \<and> \<not> owns r t (adc_key adc)"
    "k' \<noteq> adc_key adc \<Longrightarrow> map_of (w_adcs t) k' = map_of (w_adcs w) k'"
proof -
  have h: "has_key (w_adcs w) (adc_key adc)" using assms(2) by (simp add: has_key_def)
  have run: "run_state (update_adc (adc_key adc) (restored adc)) w = (x, t)"
    using assms(4) by (simp add: revertAddOnDeploymentConfig_def reverted_owned [OF assms(3)])
  have k: "keyed dc_meta (mset_key (adc_key adc) (restored adc) (w_adcs w))"
    using keyed_mset_key [OF assms(1), of "restored adc"] restored_key [of adc] by (simp add: adc_key_def)
  have "map_of (w_adcs t) k' = map_of (w_adcs w) k' \<or> k' = adc_key adc \<and> map_of (w_adcs t) k' = Some (restored adc)" for k'
    using run by (auto simp: run_simps split: option.splits if_splits)
  with assms(2,3) have "map_of (w_adcs t) k' = map_of (w_adcs w) k' \<or>
      (\<exists>a. map_of (w_adcs w) k' = Some a \<and> owner_is (ownerKeyFor r) a \<and> map_of (w_adcs t) k' = Some (restored a))" for k'
    by blast
  moreover have "keyed dc_meta (w_adcs t)" using run k assms(1) h by (auto simp: run_simps split: option.splits)
  ultimately show "reverting r w t"
    using state_io_relD [OF update_adc_only_configs run] unfolding reverting_def by blast
  show "calm w \<Longrightarrow> x = Inr () \<and> \<not> owns r t (adc_key adc)"
    using run h by (auto simp: run_simps owns_def)
  show "k' \<noteq> adc_key adc \<Longrightarrow> map_of (w_adcs t) k' = map_of (w_adcs w) k'"
    using run by (auto simp: run_simps split: option.splits if_splits)
qed

lemma revert_cluster:
  assumes "keyed dc_meta (w_adcs w)" and "run_state (revertClusterImageMirroring (ownerKeyFor r) c) w = (x, t)"
  shows "reverting r w t" "calm w \<Longrightarrow> x = Inr () \<and> (\<forall>k. references w c = Some k \<longrightarrow> \<not> owns r t k)"
    "references w c \<noteq> Some k' \<Longrightarrow> map_of (w_adcs t) k' = map_of (w_adcs w) k'"
proof -
  obtain f u where f: "run_state (findGitOpsAddonDeploymentConfig c) w = (f, u)" by (rule prod.exhaust)
  have q: "quiet w u" using state_io_relD [OF find_quiet f] .
  note qs = quiet_sel(15,19) [OF q]
  have "reverting r w t \<and> (calm w \<longrightarrow> x = Inr () \<and> (\<forall>k. references w c = Some k \<longrightarrow> \<not> owns r t k))
    \<and> (references w c \<noteq> Some k' \<longrightarrow> map_of (w_adcs t) k' = map_of (w_adcs w) k')"
  proof (cases f)
    case (Inl e)
    with assms(2) f have t: "t = u" "x = (if is_not_found e then Inr () else Inl e)"
      by (simp_all add: revertClusterImageMirroring_def)
    have "x = Inr () \<and> (\<forall>k. references w c = Some k \<longrightarrow> \<not> owns r t k)" if "calm w"
    proof -
      from find_calm [OF that, of c] f Inl have "lookup_config w c = None" "is_not_found e"
        by (auto split: option.splits)
      with t qs show ?thesis by (auto simp: owns_def lookup_config_def)
    qed
    with t q qs show ?thesis by (simp add: quiet_reverting)
  next
    case (Inr adc)
    then have l: "lookup_config w c = Some adc" using find_Inr f by simp
    note key = lookup_key [OF assms(1) l]
    show ?thesis
    proof (cases "owner_is (ownerKeyFor r) adc")
      case True
      with assms(2) f Inr have run: "run_state (revertAddOnDeploymentConfig adc) u = (x, t)"
        by (simp add: revertClusterImageMirroring_def owner_is_def)
      have u: "keyed dc_meta (w_adcs u)" "map_of (w_adcs u) (adc_key adc) = Some adc" using assms(1) key qs by simp_all
      from revert_one [OF u True run] q key qs show ?thesis
        by (auto intro: reverting.frame_trans [OF quiet_reverting])
    next
      case False
      with assms(2) f Inr have "t = u" "x = Inr ()" by (simp_all add: revertClusterImageMirroring_def owner_is_def)
      with q False key qs show ?thesis by (auto simp: quiet_reverting owns_def)
    qed
  qed
  then show "reverting r w t" "calm w \<Longrightarrow> x = Inr () \<and> (\<forall>k. references w c = Some k \<longrightarrow> \<not> owns r t k)"
    "references w c \<noteq> Some k' \<Longrightarrow> map_of (w_adcs t) k' = map_of (w_adcs w) k'" by auto
qed

section \<open>The two loops\<close>

definition revertCluster :: "image_registry \<Rightarrow> goerr list \<Rightarrow> string \<Rightarrow> (world, goerr list) state" where
  "revertCluster r errs c = do {
     x \<leftarrow> revertClusterImageMirroring (ownerKeyFor r) c;
     State_Monad.return (collect_error errs x)
   }"

lemma revertCluster_run:
  "run_state (revertClusterImageMirroring (ownerKeyFor r) c) w = (x, u) \<Longrightarrow>
   run_state (revertCluster r errs c) w = (collect_error errs x, u)"
  by (simp add: revertCluster_def)

lemma revertListed_run:
  "fst (adc_key adc) \<in> set handled \<or> \<not> owner_is ownerKey adc \<Longrightarrow>
     run_state (revertListed ownerKey handled errs adc) w = (errs, w)"
  "fst (adc_key adc) \<notin> set handled \<Longrightarrow> owner_is ownerKey adc \<Longrightarrow>
     run_state (revertAddOnDeploymentConfig adc) w = (x, u) \<Longrightarrow>
     run_state (revertListed ownerKey handled errs adc) w = (collect_error errs x, u)"
  by (auto simp: revertListed_def adc_key_def owner_is_def)

lemma revert_clusters:
  assumes "keyed dc_meta (w_adcs w)" and "run_state (loopM (revertCluster r) errs cs) w = (errs', t)"
  shows "reverting r w t \<and> (calm w \<longrightarrow> errs' = errs \<and> (\<forall>c \<in> set cs. \<forall>k. references w c = Some k \<longrightarrow> \<not> owns r t k))
    \<and> ((\<forall>c \<in> set cs. references w c \<noteq> Some k') \<longrightarrow> map_of (w_adcs t) k' = map_of (w_adcs w) k')"
  using assms
proof (induction cs arbitrary: errs w)
  case Nil
  then show ?case by (simp add: reverting.frame_refl)
next
  case (Cons c cs)
  obtain x u where u: "run_state (revertClusterImageMirroring (ownerKeyFor r) c) w = (x, u)" by (rule prod.exhaust)
  note one = revert_cluster [OF Cons.prems(1) u]
  note sel = only_configs_sel [OF reverting_sel(1) [OF one(1)]]
  from Cons.prems(2) u have run: "run_state (loopM (revertCluster r) (collect_error errs x) cs) u = (errs', t)"
    by (simp add: revertCluster_run)
  note IH = Cons.IH [OF reverting_sel(2) [OF one(1) Cons.prems(1)] run]
  have "references u = references w" by (intro ext) (simp add: references_def sel(1))
  moreover have "\<not> owns r u k \<Longrightarrow> \<not> owns r t k" for k using reverting_owns IH by blast
  ultimately show ?case
    using IH one sel(6) by (auto intro: reverting.frame_trans simp: collect_error_def)
qed

lemma revert_listed:
  assumes "keyed dc_meta (w_adcs w)"
    and "\<forall>adc \<in> set items. owner_is (ownerKeyFor r) adc \<longrightarrow> map_of (w_adcs w) (adc_key adc) = Some adc"
    and "distinct (map adc_key items)"
    and "run_state (loopM (revertListed (ownerKeyFor r) handled) errs items) w = (errs', t)"
  shows "reverting r w t
    \<and> (fst k \<in> set handled \<or> k \<notin> adc_key ` set items \<longrightarrow> map_of (w_adcs t) k = map_of (w_adcs w) k)
    \<and> (calm w \<longrightarrow> errs' = errs \<and> (\<forall>a \<in> set items. fst (adc_key a) \<notin> set handled \<and> owner_is (ownerKeyFor r) a \<longrightarrow> \<not> owns r t (adc_key a)))"
  using assms
proof (induction items arbitrary: errs w)
  case Nil
  then show ?case by (simp add: reverting.frame_refl)
next
  case (Cons adc items)
  show ?case
  proof (cases "fst (adc_key adc) \<in> set handled \<or> \<not> owner_is (ownerKeyFor r) adc")
    case True
    then have "run_state (loopM (revertListed (ownerKeyFor r) handled) errs items) w = (errs', t)"
      using Cons.prems(4) by (simp add: revertListed_run(1))
    from Cons.IH [OF _ _ _ this] Cons.prems True show ?thesis by auto
  next
    case False
    obtain x u where u: "run_state (revertAddOnDeploymentConfig adc) w = (x, u)" by (rule prod.exhaust)
    have own: "owner_is (ownerKeyFor r) adc" "map_of (w_adcs w) (adc_key adc) = Some adc" using False Cons.prems(2) by auto
    note one = revert_one [OF Cons.prems(1) own(2,1) u]
    note sel = only_configs_sel [OF reverting_sel(1) [OF one(1)]]
    have other: "map_of (w_adcs u) k = map_of (w_adcs w) k" if "k \<noteq> adc_key adc" for k
      using one(3) that .
    have run: "run_state (loopM (revertListed (ownerKeyFor r) handled) (collect_error errs x) items) u = (errs', t)"
      using Cons.prems(4) False revertListed_run(2) [OF _ _ u] by simp
    have rest: "map_of (w_adcs u) (adc_key a) = Some a" if "a \<in> set items" "owner_is (ownerKeyFor r) a" for a
    proof -
      have "adc_key a \<in> adc_key ` set items" using that(1) by (rule imageI)
      with Cons.prems(3) have "adc_key a \<noteq> adc_key adc" by auto
      with other Cons.prems(2) that show ?thesis by simp
    qed
    have items: "\<forall>a \<in> set items. owner_is (ownerKeyFor r) a \<longrightarrow> map_of (w_adcs u) (adc_key a) = Some a"
      "distinct (map adc_key items)" using rest Cons.prems(3) by simp_all
    from Cons.IH [OF reverting_sel(2) [OF one(1) Cons.prems(1)] items run]
    have IH: "reverting r u t" "fst k \<in> set handled \<or> k \<notin> adc_key ` set items \<longrightarrow> map_of (w_adcs t) k = map_of (w_adcs u) k"
      "calm u \<longrightarrow> errs' = collect_error errs x \<and> (\<forall>a \<in> set items. fst (adc_key a) \<notin> set handled \<and> owner_is (ownerKeyFor r) a \<longrightarrow> \<not> owns r t (adc_key a))"
      by blast+
    have "reverting r w t" using one(1) IH(1) by (rule reverting.frame_trans)
    moreover have "map_of (w_adcs t) k = map_of (w_adcs w) k"
      if "fst k \<in> set handled \<or> k \<notin> adc_key ` set (adc # items)"
    proof -
      from that False have "k \<noteq> adc_key adc" by auto
      with that IH(2) other show ?thesis by simp
    qed
    moreover have "errs' = errs \<and> \<not> owns r t (adc_key adc) \<and>
        (\<forall>a \<in> set items. fst (adc_key a) \<notin> set handled \<and> owner_is (ownerKeyFor r) a \<longrightarrow> \<not> owns r t (adc_key a))" if "calm w"
    proof -
      have "\<not> owns r t (adc_key adc)" using one(2) [OF that] reverting_owns [OF IH(1)] by blast
      with IH(3) sel(6) [OF that] one(2) [OF that] show ?thesis by (simp add: collect_error_def)
    qed
    ultimately show ?thesis by simp
  qed
qed

section \<open>The whole revert\<close>

text \<open>The clusters the revert goes through one by one: what the placement still selects.\<close>

definition reverted_clusters :: "image_registry \<Rightarrow> world \<Rightarrow> string list" where
  "reverted_clusters r w = (case fst (run_state (resolvePlacementClusterNames r) w) of Inr ns \<Rightarrow> ns | Inl _ \<Rightarrow> [])"

lemma revertImageMirroring_eq:
  "revertImageMirroring r = do {
     c \<leftarrow> resolvePlacementClusterNames r;
     let clusterNames = (case c of Inr ns \<Rightarrow> ns | Inl _ \<Rightarrow> []);
     errs \<leftarrow> loopM (revertCluster r) [] clusterNames;
     l \<leftarrow> list_adcs (\<lambda>_. True);
     case l of
       Inl e \<Rightarrow> State_Monad.return (NewAggregate (errs @ [e]))
     | Inr items \<Rightarrow> do {
         errs' \<leftarrow> loopM (revertListed (ownerKeyFor r) clusterNames) errs items;
         State_Monad.return (NewAggregate errs')
       }
   }"
  by (simp add: revertImageMirroring_def revertCluster_def [abs_def])

lemma keyed_items:
  assumes "keyed mt st"
  shows "distinct (map (\<lambda>x. (m_ns (mt x), m_name (mt x))) (map snd st))"
proof -
  have "map_of st (fst kx) = Some (snd kx)" if "kx \<in> set st" for kx
    using assms that by (cases kx) (auto simp: keyed_def)
  then have "map (\<lambda>x. (m_ns (mt x), m_name (mt x))) (map snd st) = map fst st"
    using keyedD [OF assms] by (simp add: comp_def)
  with assms show ?thesis by (simp only: keyed_def)
qed

lemma revert_all:
  assumes "keyed dc_meta (w_adcs w)" and "run_state (revertImageMirroring r) w = (x, t)"
  shows "reverting r w t"
    and "calm w \<Longrightarrow> x = Inr () \<and> (\<forall>k. owns r t k \<longleftrightarrow>
      owns r w k \<and> fst k \<in> set (reverted_clusters r w) \<and> (\<forall>c \<in> set (reverted_clusters r w). references w c \<noteq> Some k))"
proof -
  let ?names = "reverted_clusters r w"
  obtain c u where c: "run_state (resolvePlacementClusterNames r) w = (c, u)" by (rule prod.exhaust)
  have q: "quiet w u" using state_io_relD [OF resolve_quiet c] .
  have names: "(case c of Inr ns \<Rightarrow> ns | Inl _ \<Rightarrow> []) = ?names" by (simp add: reverted_clusters_def c)
  obtain errs v where v: "run_state (loopM (revertCluster r) [] ?names) u = (errs, v)" by (rule prod.exhaust)
  have ku: "keyed dc_meta (w_adcs u)" using assms(1) quiet_sel(15) [OF q] by simp
  note cl = revert_clusters [OF ku v]
  have wv: "reverting r w v" using reverting.frame_trans [OF quiet_reverting [OF q]] cl by blast
  note kv = reverting_sel(2) [OF wv assms(1)]
  have refs: "references u = references w" by (intro ext) (simp only: references_def quiet_sel [OF q])
  let ?items = "map snd (w_adcs v)"
  have step: "(x = NewAggregate (errs @ [e]) \<and> t = consume v)" if "verdict v = Some e" for e
    using assms(2) c v names that by (simp add: revertImageMirroring_eq run_simps Let_def)
  show "reverting r w t"
    and "calm w \<Longrightarrow> x = Inr () \<and> (\<forall>k. owns r t k \<longleftrightarrow>
      owns r w k \<and> fst k \<in> set ?names \<and> (\<forall>c \<in> set ?names. references w c \<noteq> Some k))"
  proof (atomize (full), cases "verdict v")
    case (Some e)
    have "\<not> calm w" using Some only_configs_sel(6) [OF reverting_sel(1) [OF wv]] by auto
    then show "reverting r w t \<and> (calm w \<longrightarrow> x = Inr () \<and> (\<forall>k. owns r t k \<longleftrightarrow>
      owns r w k \<and> fst k \<in> set ?names \<and> (\<forall>c \<in> set ?names. references w c \<noteq> Some k)))"
      using step [OF Some] reverting.frame_trans [OF wv quiet_reverting [OF quiet_consume]] by simp
  next
    case None
    obtain errs' where loop: "run_state (loopM (revertListed (ownerKeyFor r) ?names) errs ?items) (consume v) = (errs', t)"
      and x: "x = NewAggregate errs'"
      using assms(2) c v names None by (auto simp: revertImageMirroring_eq run_simps Let_def split: prod.splits)
    have k': "keyed dc_meta (w_adcs (consume v))" using kv by simp
    have listed: "map_of (w_adcs (consume v)) (adc_key a) = Some a" if "a \<in> set ?items" for a
      using keyed_listed [OF kv that] by (simp add: adc_key_def)
    have d: "distinct (map adc_key ?items)" using keyed_items [OF kv] by (simp add: adc_key_def [abs_def])
    have ls: "reverting r (consume v) t"
      "fst k \<in> set ?names \<longrightarrow> map_of (w_adcs t) k = map_of (w_adcs v) k"
      "calm (consume v) \<longrightarrow> errs' = errs \<and> (\<forall>a \<in> set ?items. fst (adc_key a) \<notin> set ?names \<and> owner_is (ownerKeyFor r) a \<longrightarrow>
         \<not> owns r t (adc_key a))" for k
      using revert_listed [OF k' _ d loop, of k] listed by simp_all
    have vt: "reverting r v t" using reverting.frame_trans [OF quiet_reverting [OF quiet_consume] ls(1)] .
    have "x = Inr () \<and> (\<forall>k. owns r t k \<longleftrightarrow>
      owns r w k \<and> fst k \<in> set ?names \<and> (\<forall>c \<in> set ?names. references w c \<noteq> Some k))" if "calm w"
    proof -
      have calm: "calm u" "calm v" "calm (consume v)"
        using that quiet_sel(19) [OF q] only_configs_sel(6) [OF reverting_sel(1) [OF wv]] by auto
      have "errs' = []" using ls(3) cl calm by simp
      moreover have "owns r t k \<longleftrightarrow>
        owns r w k \<and> fst k \<in> set ?names \<and> (\<forall>c \<in> set ?names. references w c \<noteq> Some k)" for k
      proof
        assume o': "owns r t k"
        note w = reverting_owns [OF reverting.frame_trans [OF wv vt] o'] and v' = reverting_owns [OF vt o']
        then obtain a where a: "map_of (w_adcs v) k = Some a" "owner_is (ownerKeyFor r) a" by (auto simp: owns_def)
        have "(k, a) \<in> set (w_adcs v)" using a(1) by (rule map_of_SomeD)
        then have "a \<in> set ?items" by force
        moreover have "adc_key a = k" using keyedD [OF kv a(1)] by (simp add: adc_key_def)
        ultimately have "fst k \<in> set ?names" using ls(3) calm(3) a o' by blast
        moreover have "owns r v k" using o' v' by (simp add: owns_def)
        with cl calm(1) refs have "\<forall>c \<in> set ?names. references w c \<noteq> Some k" by metis
        ultimately show "owns r w k \<and> fst k \<in> set ?names \<and> (\<forall>c \<in> set ?names. references w c \<noteq> Some k)" using w by simp
      next
        assume k: "owns r w k \<and> fst k \<in> set ?names \<and> (\<forall>c \<in> set ?names. references w c \<noteq> Some k)"
        then have "map_of (w_adcs v) k = map_of (w_adcs u) k" using revert_clusters [OF ku v, of k] refs by simp
        with k ls(2) [of k] quiet_sel(15) [OF q] show "owns r t k" by (simp add: owns_def)
      qed
      ultimately show ?thesis using x by (simp add: NewAggregate_def)
    qed
    with reverting.frame_trans [OF wv vt] show "reverting r w t \<and> (calm w \<longrightarrow> x = Inr () \<and> (\<forall>k. owns r t k \<longleftrightarrow>
      owns r w k \<and> fst k \<in> set ?names \<and> (\<forall>c \<in> set ?names. references w c \<noteq> Some k)))" by blast
  qed
qed


section \<open>Clean-up\<close>

lemma revert_only_configs: "keyed dc_meta (w_adcs w) \<Longrightarrow> run_state (revertImageMirroring r) w = (x, t) \<Longrightarrow> only_configs w t"
  using revert_all(1) by (simp add: reverting_def)

text \<open>the clean-up of a registry is safe under every failure. Every AddOnDeploymentConfig is either left
  as it was or one the registry owned and restored; no other object but the registry is written; and the
  registry itself loses at most its finalizer, and that only when the revert reported no error.\<close>

theorem cleanup_safe:
  assumes "keyed dc_meta (w_adcs w)" and "run_state (reconcileDelete r) w = (x, t)"
  shows "\<exists>u. reverting r w u \<and> w_adcs t = w_adcs u
    \<and> (w_registries t \<noteq> w_registries w \<longrightarrow>
         run_state (revertImageMirroring r) w = (Inr (), u) \<and>
         w_registries t = mset_key (registry_key r)
           (with_finalizers (removeString (m_finalizers (ir_meta r)) imageRegistryFinalizer) r) (w_registries w))"
proof (cases "containsString (m_finalizers (ir_meta r)) imageRegistryFinalizer")
  case False
  with assms(2) show ?thesis by (auto simp: reconcileDelete_def intro!: exI [of _ w] reverting.frame_refl)
next
  case True
  obtain y u where u: "run_state (revertImageMirroring r) w = (y, u)" by (rule prod.exhaust)
  have rev: "reverting r w u" using revert_all(1) [OF assms(1) u] .
  note same = only_configs_sel [OF revert_only_configs [OF assms(1) u]]
  show ?thesis
    using assms(2) True u rev same(4)
    by (intro exI [of _ u]) (cases y; auto simp: reconcileDelete_def run_simps split: option.splits if_splits)
qed

text \<open>what the clean-up reaches when nothing fails. A reconcile of a registry that is being deleted, or is no
  longer opted in, succeeds and drops the finalizer. A config the registry owned is still owned
  afterwards exactly when its namespace is that of a cluster the placement selects but no selected
  cluster's addon references it: the scan over all configs skips those namespaces, so there the images
  stay mirrored for good.\<close>

theorem cleanup_exact:
  assumes "calm w" and "keyed dc_meta (w_adcs w)" and "keyed ir_meta (w_registries w)"
    and "map_of (w_registries w) key = Some r"
    and "containsString (m_finalizers (ir_meta r)) imageRegistryFinalizer"
    and "m_deleting (ir_meta r) \<or> \<not> wantsGitOpsAddonImageMirroring (Some r)"
    and "run_state (ReconcileImageRegistry key) w = (x, t)"
  shows "x = Inr 0
    \<and> map_of (w_registries t) key = Some (with_finalizers (removeString (m_finalizers (ir_meta r)) imageRegistryFinalizer) r)
    \<and> (\<forall>k. owns r t k \<longleftrightarrow> owns r w k
         \<and> (\<exists>c \<in> set (reverted_clusters r w). fst k = c) \<and> (\<forall>c \<in> set (reverted_clusters r w). references w c \<noteq> Some k))"
proof -
  let ?w = "consume w"
  have k: "registry_key r = key" using keyedD [OF assms(3,4)] by (simp add: registry_key_def)
  obtain y u where u: "run_state (revertImageMirroring r) ?w = (y, u)" by (rule prod.exhaust)
  have kw: "keyed dc_meta (w_adcs ?w)" using assms(2) by simp
  note same = only_configs_sel [OF revert_only_configs [OF kw u]]
  have calm: "calm ?w" "calm u" using assms(1) same(6) by simp_all
  have "fst (run_state (resolvePlacementClusterNames r) ?w) = fst (run_state (resolvePlacementClusterNames r) w)"
    by (rule resolve_calm [OF assms(1) calm(1)]) simp_all
  then have names: "reverted_clusters r ?w = reverted_clusters r w" by (simp add: reverted_clusters_def)
  have refs: "references ?w = references w" by (intro ext) (simp add: references_def)
  note all = revert_all(2) [OF kw u calm(1)]
  have h: "has_key (w_registries u) key" using same(4) assms(4) by (simp add: has_key_def)
  have del: "run_state (reconcileDelete r) ?w = (x, t)"
  proof -
    have "run_state (ReconcileImageRegistry key) w = run_state (reconcileDelete r) ?w"
      using assms(1,4) assms(5,6) by (cases "m_deleting (ir_meta r)") (simp_all add: ReconcileImageRegistry_def run_simps)
    with assms(7) show ?thesis by simp
  qed
  have "y = Inr ()" by (rule conjunct1 [OF all])
  with del u assms(5) have "run_state (update_registry key
      (with_finalizers (removeString (m_finalizers (ir_meta r)) imageRegistryFinalizer) r)) u =
      (Inr (), t) \<and> x = Inr 0"
    using h calm(2) k by (simp add: reconcileDelete_def run_simps)
  then have run: "x = Inr 0" "t = w_registries_update (mset_key key
      (with_finalizers (removeString (m_finalizers (ir_meta r)) imageRegistryFinalizer) r)) (consume u)"
    using h calm(2) by (simp_all add: run_simps)
  have "owns r t k' \<longleftrightarrow> owns r u k'" for k' by (simp add: owns_def run(2))
  moreover have "owns r ?w k' \<longleftrightarrow> owns r w k'" for k' by (simp add: owns_def)
  ultimately show ?thesis using run all names refs by (auto simp: has_key_def)
qed

section \<open>An example\<close>

text \<open>
  A registry being deleted whose placement still selects the cluster \<open>c1\<close>, where the images are mirrored,
  and whose gitops-addon is gone.
\<close>

definition leaving_registry :: image_registry where
  "leaving_registry = sample_registry\<lparr>ir_meta := (ir_meta sample_registry)\<lparr>m_deleting := True\<rparr>\<rparr>"

definition leaving_world :: world where
  "leaving_world = mirror_world\<lparr>w_addons := [], w_adcs := [((''c1'', ''gitops-addon-config''), mirrored_sample)],
     w_registries := [((''acm'', ''mirrors''), leaving_registry)]\<rparr>"

lemma leaving_world_good:
  "calm leaving_world" "keyed dc_meta (w_adcs leaving_world)" "keyed ir_meta (w_registries leaving_world)"
  "map_of (w_registries leaving_world) (''acm'', ''mirrors'') = Some leaving_registry"
  "containsString (m_finalizers (ir_meta leaving_registry)) imageRegistryFinalizer" "m_deleting (ir_meta leaving_registry)"
  by (simp_all add: leaving_world_def mirror_world_def empty_world_def keyed_def leaving_registry_def
      sample_registry_def mirrored_sample_def plain_meta_def)

lemma leaving_clusters: "reverted_clusters leaving_registry leaving_world = [''c1'']"
proof -
  have "fst (run_state (resolvePlacementClusterNames leaving_registry) leaving_world) =
      fst (run_state (resolvePlacementClusterNames leaving_registry) mirror_world)"
    by (rule resolve_calm [OF mirror_world_good(1) leaving_world_good(1)]) (simp_all add: leaving_world_def)
  moreover have "resolvePlacementClusterNames leaving_registry = resolvePlacementClusterNames sample_registry"
    by (simp add: resolvePlacementClusterNames_def leaving_registry_def)
  ultimately show ?thesis by (simp add: reverted_clusters_def mirror_world_resolve)
qed

theorem cleanup_exact_witness:
  "\<exists>t. run_state (ReconcileImageRegistry (''acm'', ''mirrors'')) leaving_world = (Inr 0, t)
     \<and> owns leaving_registry t (''c1'', ''gitops-addon-config'')"
proof -
  obtain x t where r: "run_state (ReconcileImageRegistry (''acm'', ''mirrors'')) leaving_world = (x, t)" by (rule prod.exhaust)
  have "owns leaving_registry leaving_world (''c1'', ''gitops-addon-config'')"
    by (simp add: owns_def owner_is_def leaving_world_def mirrored_sample_def mget_def ownerKeyFor_def
        leaving_registry_def sample_registry_def plain_meta_def)
  moreover have "references leaving_world ''c1'' = None" by (simp add: references_def leaving_world_def)
  ultimately show ?thesis
    using cleanup_exact [OF leaving_world_good(1-5) _ r] leaving_world_good(6) leaving_clusters r by auto
qed

theorem cleanup_safe_witness:
  "\<exists>u. reverting leaving_registry leaving_world u
     \<and> w_adcs (snd (run_state (reconcileDelete leaving_registry) leaving_world)) = w_adcs u"
proof -
  obtain x t where r: "run_state (reconcileDelete leaving_registry) leaving_world = (x, t)" by (rule prod.exhaust)
  from cleanup_safe [OF leaving_world_good(2) r] r show ?thesis by auto
qed

end
