(* ===== verification/AddonManagement.thy ===== *)
theory AddonManagement
  imports ImageRevert
begin

text \<open>
  \<open>pkg/controller/gitopscluster/addon_management.go\<close>: the AddOnDeploymentConfig and the
  ManagedClusterAddOn of a managed cluster, with the variables that flow from the hub to it
  (\<open>pkg/utils/config.go\<close>), and the detection of the principal's image
  (\<open>agent_version_heal.go\<close>). The environment of the process is an argument: a variable that is not set reads
  as the empty string, as with \<open>os.Getenv\<close>.
\<close>

type_synonym environment = "string \<Rightarrow> string"

section \<open>Variables\<close>

definition DefaultOperatorImages :: smap where
  "DefaultOperatorImages =
     [(''GITOPS_OPERATOR_IMAGE'',
       ''registry.redhat.io/openshift-gitops-1/gitops-rhel9-operator@sha256:ec145c44990edf0ee098ea6552a4c6c120c66e725efe6fdd4933d6051602dbf6''),
      (''ARGOCD_IMAGE'',
       ''registry.redhat.io/openshift-gitops-1/argocd-rhel9@sha256:deda478bd4d845e08dd25fb839e1c15d7d4507a397c7184c90b4f78d19410e05''),
      (''ARGOCD_REPOSERVER_IMAGE'',
       ''registry.redhat.io/openshift-gitops-1/argocd-rhel9@sha256:deda478bd4d845e08dd25fb839e1c15d7d4507a397c7184c90b4f78d19410e05''),
      (''ARGOCD_REDIS_IMAGE'',
       ''registry.redhat.io/rhel9/redis-7@sha256:d4865f7560b555f366db86b6097568e02163fed131f765352d46d9478e59f5d6''),
      (''ARGOCD_REDIS_HA_IMAGE'',
       ''registry.redhat.io/rhel9/redis-7@sha256:d4865f7560b555f366db86b6097568e02163fed131f765352d46d9478e59f5d6''),
      (''ARGOCD_REDIS_HA_PROXY_IMAGE'',
       ''registry.redhat.io/openshift4/ose-haproxy-router-rhel9@sha256:5a0aa5b4d20601b1632a315fd25aed7f94fe2b1e5ff097fcc42be245b3c72e9b''),
      (''ARGOCD_DEX_IMAGE'',
       ''registry.redhat.io/openshift-gitops-1/dex-rhel9@sha256:51454e5c706fd913503980d29a11ab233e3d0b82d319b23d46394612dd81d3ff''),
      (''BACKEND_IMAGE'',
       ''registry.redhat.io/openshift-gitops-1/gitops-rhel9@sha256:36a54bd16da5c4ddd09edcce72942e92d4d18533453bd1e93aee3261ace6949c''),
      (''GITOPS_CONSOLE_PLUGIN_IMAGE'',
       ''registry.redhat.io/openshift-gitops-1/console-plugin-rhel9@sha256:a87a5e273a4b47e0d4ac8a6fdad7e74abef7ce93e8250623927004d4d1fc09a0''),
      (''ARGOCD_EXTENSION_IMAGE'',
       ''registry.redhat.io/openshift-gitops-1/argocd-extensions-rhel9@sha256:34c704f9fb45355b434146fc5097db0b612643e7f91856155ac5765b3da5045d''),
      (''ARGO_ROLLOUTS_IMAGE'',
       ''registry.redhat.io/openshift-gitops-1/argo-rollouts-rhel9@sha256:bd7a1f2743eee67efbea5cab042ff4a1656f4f6821b925159d516c8f581bc38c''),
      (''ARGOCD_PRINCIPAL_IMAGE'',
       ''registry.redhat.io/openshift-gitops-1/argocd-agent-rhel9@sha256:b7d3afe3a5f6cdc41377e3ed522ee7c7db74f126dfefee9d62ede8ddfbf6b1cc''),
      (''ARGOCD_AGENT_IMAGE'',
       ''registry.redhat.io/openshift-gitops-1/argocd-agent-rhel9@sha256:b7d3afe3a5f6cdc41377e3ed522ee7c7db74f126dfefee9d62ede8ddfbf6b1cc''),
      (''ARGOCD_IMAGE_UPDATER_IMAGE'',
       ''registry.redhat.io/openshift-gitops-1/argocd-image-updater-rhel9@sha256:bd8604a3da6f4350962fb6e17e4550b8d666271f830bcb799a474feda403395d'')]"

definition hubOnlyEnvVars :: "string list" where
  "hubOnlyEnvVars = [''ARGOCD_PRINCIPAL_IMAGE'']"

definition IsHubOnlyEnvVar :: "string \<Rightarrow> bool" where
  "IsHubOnlyEnvVar envKey \<longleftrightarrow> envKey \<in> set hubOnlyEnvVars"

definition SpokeConfigEnvVars :: "string list" where
  "SpokeConfigEnvVars =
     sort (filter (\<lambda>k. \<not> IsHubOnlyEnvVar k) (map fst DefaultOperatorImages)) @
     [''HTTP_PROXY'', ''HTTPS_PROXY'', ''NO_PROXY''] @
     [''ARGOCD_AGENT_ENABLED'', ''ARGOCD_AGENT_SERVER_ADDRESS'', ''ARGOCD_AGENT_SERVER_PORT'', ''ARGOCD_AGENT_MODE'']"

definition AllConfigEnvVars :: "string list" where
  "AllConfigEnvVars =
     sort (map fst DefaultOperatorImages) @
     [''HTTP_PROXY'', ''HTTPS_PROXY'', ''NO_PROXY''] @
     [''ARGOCD_AGENT_ENABLED'', ''ARGOCD_AGENT_SERVER_ADDRESS'', ''ARGOCD_AGENT_SERVER_PORT'', ''ARGOCD_AGENT_MODE'']"

definition skipAgentVersionHealAnnotation :: string where
  "skipAgentVersionHealAnnotation = ''apps.open-cluster-management.io/skip-agent-version-heal''"
definition EnvArgoCDAgentImage :: string where "EnvArgoCDAgentImage = ''ARGOCD_AGENT_IMAGE''"

definition operatorImage :: "environment \<Rightarrow> string \<times> string \<Rightarrow> smap \<Rightarrow> smap" where
  "operatorImage env entry m =
     (case entry of (envKey, defaultValue) \<Rightarrow>
        if IsHubOnlyEnvVar envKey then m
        else mset_key envKey (if env envKey \<noteq> [] then env envKey else defaultValue) m)"

definition set_unless_empty :: "string \<Rightarrow> string \<Rightarrow> smap \<Rightarrow> smap" where
  "set_unless_empty k v m = (if v \<noteq> [] then mset_key k v m else m)"

definition extractArgoCDAgentVariables :: "agent_spec \<Rightarrow> smap \<Rightarrow> smap" where
  "extractArgoCDAgentVariables a m =
     set_unless_empty ''ARGOCD_AGENT_MODE'' (ag_mode a)
       (set_unless_empty ''ARGOCD_AGENT_SERVER_PORT'' (ag_server_port a)
         (set_unless_empty ''ARGOCD_AGENT_SERVER_ADDRESS'' (ag_server_address a)
           (if ag_enabled a = Some True then mset_key ''ARGOCD_AGENT_ENABLED'' ''true'' m else m)))"

definition olm_variables :: "string \<Rightarrow> string \<times> string \<times> string \<times> string \<times> string \<times> string \<Rightarrow> smap \<Rightarrow> smap" where
  "olm_variables enabled values m =
     (case values of (nm, ns, channel, source, sourceNs, approval) \<Rightarrow>
        mset_key ''OLM_SUBSCRIPTION_INSTALL_PLAN_APPROVAL'' approval
          (mset_key ''OLM_SUBSCRIPTION_SOURCE_NAMESPACE'' sourceNs
            (mset_key ''OLM_SUBSCRIPTION_SOURCE'' source
              (mset_key ''OLM_SUBSCRIPTION_CHANNEL'' channel
                (mset_key ''OLM_SUBSCRIPTION_NAMESPACE'' ns
                  (mset_key ''OLM_SUBSCRIPTION_NAME'' nm
                    (mset_key ''OLM_SUBSCRIPTION_ENABLED'' enabled m)))))))"

definition ExtractVariablesFromGitOpsCluster ::
  "environment \<Rightarrow> gitops_cluster \<Rightarrow> string \<Rightarrow> smap \<Rightarrow> smap" where
  "ExtractVariablesFromGitOpsCluster env g agentImageOverride m0 =
     (let m1 = fold (operatorImage env) DefaultOperatorImages m0;
          m2 = (if mget (m_annos (gc_meta g)) skipAgentVersionHealAnnotation = ''true'' then mdel_key EnvArgoCDAgentImage m1
                else if agentImageOverride \<noteq> [] then mset_key EnvArgoCDAgentImage agentImageOverride m1
                else m1);
          m3 = mset_key ''NO_PROXY'' (env ''NO_PROXY'')
                 (mset_key ''HTTPS_PROXY'' (env ''HTTPS_PROXY'') (mset_key ''HTTP_PROXY'' (env ''HTTP_PROXY'') m2)) in
      (case gs_addon (gc_spec g) of
         None \<Rightarrow> m3
       | Some addon \<Rightarrow>
           (let m4 = set_unless_empty ''GITOPS_OPERATOR_IMAGE'' (ad_operator_image addon) m3;
                m5 = (case ad_agent addon of None \<Rightarrow> m4 | Some a \<Rightarrow> extractArgoCDAgentVariables a m4) in
            if IsOLMSubscriptionEnabled g then olm_variables ''true'' (GetOLMSubscriptionValues (ad_olm addon)) m5
            else olm_variables ''false'' (GetOLMSubscriptionValues None) m5)))"

text \<open>The variables the controller manages for a GitOpsCluster.\<close>

definition managed_variables :: "environment \<Rightarrow> gitops_cluster \<Rightarrow> string \<Rightarrow> smap" where
  "managed_variables env g agentImageOverride =
     ExtractVariablesFromGitOpsCluster env g agentImageOverride
       (mset_key ''ARGOCD_NAMESPACE'' GitOpsNamespace [(''ARGOCD_AGENT_ENABLED'', ''false'')])"

section \<open>The AddOnDeploymentConfig\<close>

definition customizedVariablesEqual :: "custom_var list \<Rightarrow> custom_var list \<Rightarrow> bool" where
  "customizedVariablesEqual a b =
     (if length a \<noteq> length b then False
      else (let ma = fold (\<lambda>v m. mset_key (cv_name v) (cv_value v) m) a [] in
            list_all (\<lambda>v. map_of ma (cv_name v) = Some (cv_value v)) b))"

definition by_name :: "custom_var list \<Rightarrow> (string \<times> custom_var) list" where
  "by_name vs = fold (\<lambda>v m. mset_key (cv_name v) v m) vs []"

definition preserveMirroredImageValues :: "custom_var list \<Rightarrow> custom_var list \<Rightarrow> smap \<Rightarrow> custom_var list" where
  "preserveMirroredImageValues desired existing annotations =
     (if length annotations = 0 then desired
      else (let origMap = parseOriginalValues (mget annotations adcOriginalValuesAnnotation) in
            if length origMap = 0 then desired
            else map (\<lambda>v.
              if map_of origMap (cv_name v) = Some (cv_value v) then
                (case map_of (by_name existing) (cv_name v) of Some live \<Rightarrow> live | None \<Rightarrow> v)
              else v) desired))"

definition var_of :: "string \<times> string \<Rightarrow> custom_var" where
  "var_of entry = \<lparr>cv_name = fst entry, cv_value = snd entry\<rparr>"

text \<open>
  The variables an existing config is updated with. \<open>entries\<close> are the managed variables in the order
  in which the loop over the map visits them, which Go leaves open.
\<close>

definition updated_variables :: "bool \<Rightarrow> (string \<times> string) list \<Rightarrow> custom_var list \<Rightarrow> custom_var list" where
  "updated_variables shouldOverrideExisting entries existing =
     (if shouldOverrideExisting then
        filter (\<lambda>v. \<not> has_key entries (cv_name v)) existing @ map var_of entries
      else
        map (\<lambda>v. case map_of entries (cv_name v) of
                   Some newValue \<Rightarrow> \<lparr>cv_name = cv_name v, cv_value = newValue\<rparr> | None \<Rightarrow> v) existing @
        map var_of (filter (\<lambda>(n, _). \<not> has_key (by_name existing) n) entries))"

definition overrides :: "gitops_cluster \<Rightarrow> bool" where
  "overrides g =
     (case gs_addon (gc_spec g) of None \<Rightarrow> False
      | Some addon \<Rightarrow> (case ad_override addon of None \<Rightarrow> False | Some b \<Rightarrow> b))"

definition updated_config :: "gitops_cluster \<Rightarrow> (string \<times> string) list \<Rightarrow> deployment_config \<Rightarrow> deployment_config option" where
  "updated_config g entries existing =
     (let vars = preserveMirroredImageValues (updated_variables (overrides g) entries (dc_vars existing))
            (dc_vars existing) (m_annos (dc_meta existing)) in
      if \<not> customizedVariablesEqual vars (dc_vars existing) \<or> dc_install_ns existing \<noteq> AddonAgentNamespace
      then Some (existing\<lparr>dc_vars := vars, dc_install_ns := AddonAgentNamespace\<rparr>)
      else None)"

definition addon_config_ref :: "string \<Rightarrow> addon_config" where
  "addon_config_ref ns =
     \<lparr>ac_group = addonDeploymentConfigGroup, ac_resource = addonDeploymentConfigResource,
      ac_name = ''gitops-addon-config'', ac_ns = ns\<rparr>"

definition UpdateManagedClusterAddonConfig :: "string \<Rightarrow> unit api" where
  "UpdateManagedClusterAddonConfig ns =
     (if ns = [] then State_Monad.return (Inl (ErrText ''no namespace provided''))
      else do {
        g \<leftarrow> get_addon (ns, gitopsAddonName);
        case g of
          Inl e \<Rightarrow> State_Monad.return (if is_not_found e then Inr () else Inl e)
        | Inr existing \<Rightarrow>
            (if list_ex (\<lambda>c. c = addon_config_ref ns) (ca_configs existing) then State_Monad.return (Inr ())
             else update_addon (m_ns (ca_meta existing), m_name (ca_meta existing))
                    (existing\<lparr>ca_configs := ca_configs existing @ [addon_config_ref ns]\<rparr>))
      })"

text \<open>\<open>visit\<close> is the order in which the loop over the managed variables goes.\<close>

definition CreateAddOnDeploymentConfig ::
  "(smap \<Rightarrow> (string \<times> string) list) \<Rightarrow> environment \<Rightarrow> gitops_cluster \<Rightarrow> managed_cluster option \<Rightarrow> string \<Rightarrow> unit api" where
  "CreateAddOnDeploymentConfig visit env g managedCluster agentImageOverride =
     (case managedCluster of
        None \<Rightarrow> State_Monad.return (Inl (ErrText ''no managed cluster provided''))
      | Some mc \<Rightarrow> do {
          let ns = mc_name mc;
          let entries = visit (managed_variables env g agentImageOverride);
          e \<leftarrow> get_adc (ns, ''gitops-addon-config'');
          r \<leftarrow> (case e of
                  Inl err \<Rightarrow>
                    (if is_not_found err then
                       create_adc (ns, ''gitops-addon-config'')
                         \<lparr>dc_meta = plain_meta ''gitops-addon-config'' ns [] [], dc_vars = map var_of entries,
                          dc_install_ns = AddonAgentNamespace\<rparr>
                     else State_Monad.return (Inl err))
                | Inr existing \<Rightarrow>
                    (case updated_config g entries existing of
                       None \<Rightarrow> State_Monad.return (Inr ())
                     | Some new \<Rightarrow> update_adc (adc_key existing) new));
          case r of
            Inl err \<Rightarrow> State_Monad.return (Inl err)
          | Inr _ \<Rightarrow> do {
              _ \<leftarrow> UpdateManagedClusterAddonConfig ns;
              State_Monad.return (Inr ())
            }
        })"

section \<open>The ManagedClusterAddOn\<close>

definition getAddOnTemplateName :: "gitops_cluster \<Rightarrow> string" where
  "getAddOnTemplateName g = ''gitops-addon-'' @ m_ns (gc_meta g) @ ''-'' @ m_name (gc_meta g)"

definition expected_configs :: "string \<Rightarrow> gitops_cluster \<Rightarrow> addon_config list" where
  "expected_configs ns g =
     (let templateName = (if agentEnabled g then getAddOnTemplateName g else []) in
      (if templateName \<noteq> [] then
         [\<lparr>ac_group = addonDeploymentConfigGroup, ac_resource = ''addontemplates'', ac_name = templateName, ac_ns = []\<rparr>]
       else []) @ [addon_config_ref ns])"

definition config_matches :: "addon_config \<Rightarrow> addon_config \<Rightarrow> bool" where
  "config_matches expected c \<longleftrightarrow>
     ac_group c = ac_group expected \<and> ac_resource c = ac_resource expected \<and> ac_name c = ac_name expected
     \<and> (ac_ns expected = [] \<or> ac_ns c = ac_ns expected)"

definition add_config :: "addon_config \<Rightarrow> addon_config list \<Rightarrow> addon_config list" where
  "add_config expected configs =
     (if list_ex (config_matches expected) configs then configs else configs @ [expected])"

definition ensured_addon :: "string \<Rightarrow> gitops_cluster \<Rightarrow> cluster_addon \<Rightarrow> cluster_addon option" where
  "ensured_addon ns g existing =
     (let expected = expected_configs ns g;
          withMissing = fold add_config expected (ca_configs existing);
          newConfigs = filter (\<lambda>c. list_ex (\<lambda>e. config_matches e c) expected) withMissing in
      if ca_install_ns existing \<noteq> AddonAgentNamespace
         \<or> length withMissing \<noteq> length (ca_configs existing)
         \<or> length newConfigs \<noteq> length withMissing
      then Some (existing\<lparr>ca_install_ns := AddonAgentNamespace, ca_configs := newConfigs\<rparr>)
      else None)"

definition EnsureManagedClusterAddon :: "string \<Rightarrow> gitops_cluster \<Rightarrow> unit api" where
  "EnsureManagedClusterAddon ns g =
     (if ns = [] then State_Monad.return (Inl (ErrText ''no namespace provided''))
      else do {
        e \<leftarrow> get_addon (ns, gitopsAddonName);
        case e of
          Inl err \<Rightarrow>
            (if is_not_found err then
               create_addon (ns, gitopsAddonName)
                 \<lparr>ca_meta = plain_meta gitopsAddonName ns
                    [(''app.kubernetes.io/managed-by'', ''multicloud-integrations''),
                     (''app.kubernetes.io/component'', ''addon'')] [],
                  ca_install_ns = AddonAgentNamespace, ca_configs = expected_configs ns g\<rparr>
             else State_Monad.return (Inl err))
        | Inr existing \<Rightarrow>
            (case ensured_addon ns g existing of
               None \<Rightarrow> State_Monad.return (Inr ())
             | Some new \<Rightarrow> update_addon (m_ns (ca_meta existing), m_name (ca_meta existing)) new)
      })"

section \<open>The principal's image\<close>

definition findContainerImage :: "container list \<Rightarrow> string \<Rightarrow> string" where
  "findContainerImage containers deploymentName =
     (case find (\<lambda>c. ct_name c = ''principal'') containers of
        Some c \<Rightarrow> ct_image c
      | None \<Rightarrow>
          (case find (\<lambda>c. ct_name c = deploymentName) containers of
             Some c \<Rightarrow> ct_image c
           | None \<Rightarrow> (case containers of c # _ \<Rightarrow> ct_image c | [] \<Rightarrow> [])))"

fun first_principal :: "deployment list \<Rightarrow> string" where
  "first_principal [] = []"
| "first_principal (d # ds) =
     (if \<not> has_suffix (m_name (dp_meta d)) ''-agent-principal'' then first_principal ds
      else (let img = findContainerImage (dp_containers d) (m_name (dp_meta d)) in
            if img = [] then first_principal ds else img))"

definition findPrincipalDeploymentImage :: "string \<Rightarrow> string api" where
  "findPrincipalDeploymentImage ns = do {
     l \<leftarrow> list_deployments (\<lambda>d. m_ns (dp_meta d) = ns \<and>
            has_labels [(''app.kubernetes.io/component'', ''principal'')] (m_labels (dp_meta d)));
     State_Monad.return (case l of
       Inl e \<Rightarrow> Inl (Wrapped (''failed to list deployments in '' @ ns) e)
     | Inr items \<Rightarrow> Inr (first_principal items))
   }"

definition HealAgentVersionDrift :: "gitops_cluster \<Rightarrow> string api" where
  "HealAgentVersionDrift g =
     (if mget (m_annos (gc_meta g)) skipAgentVersionHealAnnotation = ''true'' then State_Monad.return (Inr [])
      else if \<not> agentEnabled g then State_Monad.return (Inr [])
      else do {
        r \<leftarrow> findPrincipalDeploymentImage (if gs_argo_ns (gc_spec g) = [] then ''openshift-gitops'' else gs_argo_ns (gc_spec g));
        State_Monad.return (case r of
          Inl e \<Rightarrow> Inl (Wrapped ''failed to find principal deployment'' e)
        | Inr img \<Rightarrow> Inr img)
      })"

definition principalDeploymentMap :: "deployment \<Rightarrow> (world, nsname list) state" where
  "principalDeploymentMap deploy =
     (if \<not> has_suffix (m_name (dp_meta deploy)) ''-agent-principal'' then State_Monad.return []
      else do {
        l \<leftarrow> list_gitops (\<lambda>_. True);
        State_Monad.return (case l of
          Inl e \<Rightarrow> []
        | Inr items \<Rightarrow>
            map (\<lambda>g. (m_ns (gc_meta g), m_name (gc_meta g)))
              (filter (\<lambda>g. (if gs_argo_ns (gc_spec g) \<noteq> [] then gs_argo_ns (gc_spec g) else ''openshift-gitops'') = m_ns (dp_meta deploy)
                 \<and> agentEnabled g) items))
      })"

definition principalDeploymentCreate :: "deployment \<Rightarrow> bool" where
  "principalDeploymentCreate obj = has_suffix (m_name (dp_meta obj)) ''-agent-principal''"

definition principalDeploymentUpdate :: "deployment \<Rightarrow> deployment \<Rightarrow> bool" where
  "principalDeploymentUpdate old new =
     (if \<not> has_suffix (m_name (dp_meta new)) ''-agent-principal'' then False
      else findContainerImage (dp_containers old) (m_name (dp_meta new)) \<noteq>
           findContainerImage (dp_containers new) (m_name (dp_meta new)))"

definition principalDeploymentDelete :: "deployment \<Rightarrow> bool" where
  "principalDeploymentDelete obj = False"


section \<open>Lists of variables as maps\<close>

abbreviation pairs :: "custom_var list \<Rightarrow> (string \<times> string) list" where
  "pairs vs \<equiv> map (\<lambda>v. (cv_name v, cv_value v)) vs"

definition var_values :: "custom_var list \<Rightarrow> string \<Rightarrow> string option" where
  "var_values vs = map_of (pairs vs)"

lemma fst_pair [simp]: "fst \<circ> (\<lambda>v. (cv_name v, f v)) = cv_name"
  by (simp add: comp_def)

lemma by_name_eq: "by_name vs = fold (\<lambda>(k, v). mset_key k v) (map (\<lambda>v. (cv_name v, v)) vs) []"
  by (simp add: by_name_def fold_map comp_def)

lemma by_name_map:
  assumes "distinct (map cv_name vs)"
  shows "map_of (by_name vs) n = map_of (map (\<lambda>v. (cv_name v, v)) vs) n"
  unfolding by_name_eq map_of_fold_update
  using map_of_rev_distinct [of "map (\<lambda>v. (cv_name v, v)) vs"] assms by (simp add: comp_def)

lemma has_name: "distinct (map cv_name vs) \<Longrightarrow> has_key (by_name vs) n \<longleftrightarrow> n \<in> cv_name ` set vs"
  by (force simp: has_key_def by_name_map map_of_eq_None_iff)

lemma by_name_values: "map_option cv_value (map_of (map (\<lambda>v. (cv_name v, v)) vs) n) = var_values vs n"
  by (induction vs) (auto simp: var_values_def)

lemma by_name_name: "map_of (map (\<lambda>v. (cv_name v, v)) vs) n = Some v \<Longrightarrow> cv_name v = n"
  by (induction vs) (auto split: if_splits)

lemma var_values_None: "var_values vs n = None \<longleftrightarrow> n \<notin> cv_name ` set vs"
  by (force simp: var_values_def map_of_eq_None_iff)

lemma var_valuesI: "distinct (map cv_name vs) \<Longrightarrow> v \<in> set vs \<Longrightarrow> var_values vs (cv_name v) = Some (cv_value v)"
  by (auto simp: var_values_def comp_def)

lemma equal_sound:
  assumes "distinct (map cv_name a)" and "distinct (map cv_name b)"
  shows "customizedVariablesEqual a b \<longleftrightarrow> var_values a = var_values b"
proof -
  have d: "distinct (map fst (pairs a))" "distinct (map fst (pairs b))" using assms by simp_all
  note dp = distinct_map [THEN iffD1, THEN conjunct1, OF d(1)] distinct_map [THEN iffD1, THEN conjunct1, OF d(2)]
  have card: "card (set (pairs a)) = length a" "card (set (pairs b)) = length b"
    using distinct_card [OF dp(1)] distinct_card [OF dp(2)] by (simp_all only: length_map)
  have "map_of (fold (\<lambda>v m. mset_key (cv_name v) (cv_value v) m) a []) = var_values a"
  proof -
    have "fold (\<lambda>v m. mset_key (cv_name v) (cv_value v) m) a [] = fold (\<lambda>(k, v). mset_key k v) (pairs a) []"
      by (simp add: fold_map comp_def)
    then show ?thesis using map_of_rev_distinct [OF d(1)] by (simp add: map_of_fold_update var_values_def rev_map)
  qed
  moreover have "list_all (\<lambda>v. var_values a (cv_name v) = Some (cv_value v)) b \<longleftrightarrow> set (pairs b) \<subseteq> set (pairs a)"
    unfolding var_values_def map_of_eq_Some_iff [OF d(1)] by (auto simp: list_all_iff)
  ultimately have "customizedVariablesEqual a b \<longleftrightarrow> length a = length b \<and> set (pairs b) \<subseteq> set (pairs a)"
    by (simp add: customizedVariablesEqual_def)
  also have "\<dots> \<longleftrightarrow> set (pairs a) = set (pairs b)"
  proof
    assume "length a = length b \<and> set (pairs b) \<subseteq> set (pairs a)"
    with card show "set (pairs a) = set (pairs b)" by (intro card_subset_eq [symmetric]) simp_all
  next
    assume e: "set (pairs a) = set (pairs b)"
    with card show "length a = length b \<and> set (pairs b) \<subseteq> set (pairs a)" by simp
  qed
  also have "\<dots> \<longleftrightarrow> var_values a = var_values b"
    unfolding var_values_def by (rule map_of_inject_set [OF d, symmetric])
  finally show ?thesis .
qed

text \<open>The values an update asks for.\<close>

definition wanted :: "(string \<times> string) list \<Rightarrow> deployment_config \<Rightarrow> string \<Rightarrow> string option" where
  "wanted entries existing n =
     (case map_of entries n of
        None \<Rightarrow> var_values (dc_vars existing) n
      | Some d \<Rightarrow>
          (if map_of (recorded_orig existing) n = Some d \<and> var_values (dc_vars existing) n \<noteq> None
           then var_values (dc_vars existing) n else Some d))"

lemma var_of_simps [simp]: "cv_name (var_of e) = fst e" "cv_value (var_of e) = snd e"
  by (simp_all add: var_of_def)

lemma var_values_append: "var_values (xs @ ys) n = (case var_values xs n of Some v \<Rightarrow> Some v | None \<Rightarrow> var_values ys n)"
  by (simp add: var_values_def map_add_def split: option.splits)

lemma var_values_entries: "var_values (map var_of es) n = map_of es n"
  by (induction es) (auto simp: var_values_def)

lemma var_values_filter: "var_values (filter (\<lambda>v. P (cv_name v)) vs) n = (if P n then var_values vs n else None)"
  by (induction vs) (auto simp: var_values_def)

lemma map_of_filter_key: "map_of (filter (\<lambda>(k, _). P k) es) n = (if P n then map_of es n else None)"
  by (induction es) auto

lemma var_values_map:
  assumes "\<And>v. v \<in> set vs \<Longrightarrow> cv_name (f v) = cv_name v" and "\<And>v. v \<in> set vs \<Longrightarrow> cv_value (f v) = g (cv_name v) (cv_value v)"
  shows "var_values (map f vs) n = map_option (g n) (var_values vs n)"
  using assms by (induction vs) (auto simp: var_values_def)

lemma updated_values:
  assumes "distinct (map cv_name existing)"
  shows "var_values (updated_variables ov entries existing) n =
    (case map_of entries n of Some d \<Rightarrow> Some d | None \<Rightarrow> var_values existing n)"
proof (cases ov)
  case True
  then show ?thesis
    using var_values_filter [of "\<lambda>n. \<not> has_key entries n" existing n]
    by (auto simp: updated_variables_def var_values_append var_values_entries has_key_def split: option.splits)
next
  case False
  have "var_values (map (\<lambda>v. case map_of entries (cv_name v) of
          Some newValue \<Rightarrow> \<lparr>cv_name = cv_name v, cv_value = newValue\<rparr> | None \<Rightarrow> v) existing) n =
      map_option (\<lambda>x. case map_of entries n of Some d \<Rightarrow> d | None \<Rightarrow> x) (var_values existing n)"
    by (rule var_values_map) (auto split: option.splits)
  moreover have "has_key (by_name existing) n \<longleftrightarrow> var_values existing n \<noteq> None" for n
    by (simp add: has_name [OF assms] var_values_None)
  ultimately show ?thesis
    using False by (auto simp: updated_variables_def var_values_append var_values_entries map_of_filter_key
        split: option.splits)
qed

lemma updated_distinct:
  assumes "distinct (map cv_name existing)" and "distinct (map fst entries)"
  shows "distinct (map cv_name (updated_variables ov entries existing))"
proof (cases ov)
  case True
  have "distinct (map cv_name (filter P existing))" for P
    using assms(1) by (rule distinct_map_filter)
  with True assms show ?thesis
    by (auto simp: updated_variables_def comp_def has_key_def map_of_eq_None_iff image_iff)
next
  case False
  have names: "map cv_name (map (\<lambda>v. case map_of entries (cv_name v) of
          Some newValue \<Rightarrow> \<lparr>cv_name = cv_name v, cv_value = newValue\<rparr> | None \<Rightarrow> v) existing) = map cv_name existing"
    by (auto split: option.splits)
  have "distinct (map fst (filter (\<lambda>(n, _). \<not> has_key (by_name existing) n) entries))"
    using assms(2) by (rule distinct_map_filter)
  moreover note has_name [OF assms(1)]
  moreover have "map cv_name (map var_of es) = map fst es" for es by simp
  ultimately show ?thesis
    unfolding updated_variables_def using False assms(1) names by (simp del: map_map) auto
qed


lemma preserve_eq:
  "preserveMirroredImageValues desired existing annos =
     map (\<lambda>v. if map_of (parseOriginalValues (mget annos adcOriginalValuesAnnotation)) (cv_name v) = Some (cv_value v) then
              (case map_of (by_name existing) (cv_name v) of Some live \<Rightarrow> live | None \<Rightarrow> v)
            else v) desired"
  by (auto simp: preserveMirroredImageValues_def Let_def mget_def)

lemma preserve_values:
  fixes desired existing :: "custom_var list" and annos :: smap
  assumes "distinct (map cv_name existing)"
  defines "out \<equiv> preserveMirroredImageValues desired existing annos"
    and "orig \<equiv> map_of (parseOriginalValues (mget annos adcOriginalValuesAnnotation))"
  shows "map cv_name out = map cv_name desired"
    and "var_values out n = map_option (\<lambda>d. if orig n = Some d then
           (case var_values existing n of Some l \<Rightarrow> l | None \<Rightarrow> d) else d) (var_values desired n)"
proof -
  let ?f = "\<lambda>v. if orig (cv_name v) = Some (cv_value v) then
              (case map_of (by_name existing) (cv_name v) of Some live \<Rightarrow> live | None \<Rightarrow> v)
            else v"
  have out: "out = map ?f desired" by (simp add: out_def orig_def preserve_eq)
  have n: "cv_name (?f v) = cv_name v" for v
  proof (cases "map_of (map (\<lambda>v. (cv_name v, v)) existing) (cv_name v)")
    case (Some l)
    with by_name_name [OF Some] show ?thesis by (simp add: by_name_map [OF assms(1)])
  qed (simp add: by_name_map [OF assms(1)])
  then show "map cv_name out = map cv_name desired" by (simp add: out)
  have "cv_value (?f v) = (if orig (cv_name v) = Some (cv_value v) then
      (case var_values existing (cv_name v) of Some l \<Rightarrow> l | None \<Rightarrow> cv_value v) else cv_value v)" for v
    unfolding by_name_map [OF assms(1)] by_name_values [of existing "cv_name v", symmetric]
    by (simp split: option.splits)
  then show "var_values out n = map_option (\<lambda>d. if orig n = Some d then
           (case var_values existing n of Some l \<Rightarrow> l | None \<Rightarrow> d) else d) (var_values desired n)"
    unfolding out using n by (intro var_values_map) auto
qed

text \<open>An update is made exactly when the wanted values or the namespace differ, and makes them so.\<close>

lemma updated_config_spec:
  assumes "distinct (var_names existing)" and "distinct (map fst entries)"
  obtains vs where "distinct (map cv_name vs)" "var_values vs = wanted entries existing"
    "updated_config g entries existing =
       (if var_values (dc_vars existing) = wanted entries existing \<and> dc_install_ns existing = AddonAgentNamespace
        then None else Some (existing\<lparr>dc_vars := vs, dc_install_ns := AddonAgentNamespace\<rparr>))"
proof -
  let ?d = "updated_variables (overrides g) entries (dc_vars existing)"
  let ?vs = "preserveMirroredImageValues ?d (dc_vars existing) (m_annos (dc_meta existing))"
  note pv = preserve_values [OF assms(1), of ?d "m_annos (dc_meta existing)"]
  have d: "distinct (map cv_name ?vs)" using pv(1) updated_distinct [OF assms] by simp
  have v: "var_values ?vs n = wanted entries existing n" for n
    unfolding pv(2) updated_values [OF assms(1)] wanted_def
    by (cases "map_of entries n"; cases "var_values (dc_vars existing) n") simp_all
  have "customizedVariablesEqual ?vs (dc_vars existing) \<longleftrightarrow> var_values (dc_vars existing) = wanted entries existing"
    using equal_sound [OF d assms(1)] v by (auto simp: fun_eq_iff)
  then show ?thesis
    using that [OF d] v by (auto simp: updated_config_def Let_def fun_eq_iff)
qed

definition settled_config :: "(string \<times> string) list \<Rightarrow> deployment_config \<Rightarrow> bool" where
  "settled_config entries existing \<longleftrightarrow>
     var_values (dc_vars existing) = wanted entries existing \<and> dc_install_ns existing = AddonAgentNamespace"

lemma wanted_cong: "map_of e1 = map_of e2 \<Longrightarrow> wanted e1 = wanted e2"
  by (intro ext) (simp add: wanted_def)

lemma settled_config_cong: "map_of e1 = map_of e2 \<Longrightarrow> settled_config e1 = settled_config e2"
  by (intro ext) (simp add: settled_config_def wanted_cong [of e1 e2])

lemma updated_config_None:
  "distinct (var_names existing) \<Longrightarrow> distinct (map fst entries) \<Longrightarrow>
     updated_config g entries existing = None \<longleftrightarrow> settled_config entries existing"
  by (rule updated_config_spec [of existing entries g]) (auto simp: settled_config_def)

lemma updated_config_Some:
  assumes "distinct (var_names existing)" and "distinct (map fst entries)" and "updated_config g entries existing = Some new"
  shows "settled_config entries new" "distinct (var_names new)" "var_values (dc_vars new) = wanted entries existing"
    "dc_meta new = dc_meta existing"
proof -
  obtain vs where vs: "distinct (map cv_name vs)" "var_values vs = wanted entries existing"
    "new = existing\<lparr>dc_vars := vs, dc_install_ns := AddonAgentNamespace\<rparr>"
    using updated_config_spec [OF assms(1,2), of g] assms(3) by (metis option.distinct(1) option.inject)
  then show "distinct (var_names new)" "var_values (dc_vars new) = wanted entries existing" "dc_meta new = dc_meta existing"
    by simp_all
  have "wanted entries new n = wanted entries existing n" for n
    by (auto simp: wanted_def vs split: option.splits)
  then show "settled_config entries new" using vs by (simp add: settled_config_def fun_eq_iff)
qed

text \<open>what a pass writes into an existing AddOnDeploymentConfig. Whatever the order in which the managed
  variables are visited: variables the controller does not manage keep their values; a managed variable
  gets its value from the hub, unless it is mirrored from just that value, when it keeps what the mirror
  put there; nothing else appears. And nothing is written exactly when all of that holds already.
  In particular the flag overrideExistingConfigs has no effect on any value.\<close>

theorem config_values:
  fixes existing :: deployment_config and entries :: "(string \<times> string) list" and g h :: gitops_cluster
  assumes "distinct (var_names existing)" and "distinct (map fst entries)"
  defines "new \<equiv> (case updated_config g entries existing of Some new \<Rightarrow> new | None \<Rightarrow> existing)"
  shows "(case map_of entries n of
      None \<Rightarrow> var_values (dc_vars new) n = var_values (dc_vars existing) n
    | Some d \<Rightarrow> var_values (dc_vars new) n =
        (if map_of (recorded_orig existing) n = Some d \<and> var_values (dc_vars existing) n \<noteq> None
         then var_values (dc_vars existing) n else Some d))
    \<and> dc_install_ns new = AddonAgentNamespace \<and> dc_meta new = dc_meta existing
    \<and> (updated_config g entries existing = None \<longleftrightarrow>
         updated_config h entries existing = None)"
proof -
  have v: "var_values (dc_vars new) = wanted entries existing \<and> dc_install_ns new = AddonAgentNamespace \<and> dc_meta new = dc_meta existing"
  proof (cases "updated_config g entries existing")
    case None
    then show ?thesis using updated_config_None [OF assms(1,2), of g] by (simp add: new_def settled_config_def)
  next
    case (Some x)
    then show ?thesis using updated_config_Some [OF assms(1,2) Some] by (simp add: new_def settled_config_def)
  qed
  then show ?thesis
    using updated_config_None [OF assms(1,2)] by (auto simp: wanted_def split: option.splits)
qed

section \<open>No fight over mirrored images\<close>

text \<open>
  The hub's value is what every managed variable of a config comes from, be it mirrored or not.
\<close>

definition sourced :: "(string \<times> string) list \<Rightarrow> deployment_config \<Rightarrow> bool" where
  "sourced entries adc \<longleftrightarrow> dc_install_ns adc = AddonAgentNamespace
     \<and> (\<forall>n d. map_of entries n = Some d \<longrightarrow> var_values (source_vars adc) n = Some d)"

lemma source_var_values:
  "var_values (source_vars adc) n =
     map_option (\<lambda>x. source_value (recorded_orig adc) (recorded_last adc) \<lparr>cv_name = n, cv_value = x\<rparr>) (var_values (dc_vars adc) n)"
  unfolding source_vars_def
  by (rule var_values_map) (simp_all add: source_value_def split: option.splits)

lemma sourced_settled:
  assumes "sourced entries adc" shows "settled_config entries adc"
proof -
  have "var_values (dc_vars adc) n = wanted entries adc n" for n
  proof (cases "map_of entries n")
    case (Some d)
    with assms have "var_values (source_vars adc) n = Some d" by (simp add: sourced_def)
    then obtain x where x: "var_values (dc_vars adc) n = Some x"
      "source_value (recorded_orig adc) (recorded_last adc) \<lparr>cv_name = n, cv_value = x\<rparr> = d"
      by (auto simp: source_var_values)
    with Some show ?thesis by (auto simp: wanted_def source_value_def split: option.splits if_splits)
  qed (simp add: wanted_def)
  with assms show ?thesis by (simp add: settled_config_def sourced_def fun_eq_iff)
qed

text \<open>the GitOpsCluster controller and the image registry controller do not fight over a config. While every
  managed variable has the hub's value or is mirrored from it, the GitOpsCluster controller writes
  nothing; and whatever registry mirrors the config next, that stays so, and a third pass of either
  controller writes nothing.\<close>

theorem controllers_agree:
  assumes "distinct (var_names adc)" and "distinct (map fst entries)" and "sourced entries adc"
  shows "updated_config g entries adc = None
    \<and> (\<forall>r adc'. mirrored_config r adc = Some adc' \<longrightarrow>
         sourced entries adc' \<and> updated_config g entries adc' = None \<and> mirrored_config r adc' = None)"
proof -
  have "sourced entries adc' \<and> updated_config g entries adc' = None \<and> mirrored_config r adc' = None"
    if m: "mirrored_config r adc = Some adc'" for r adc'
  proof -
    have d: "distinct (var_names adc')" using assms(1) mirrored_names [OF m] by simp
    have s: "sourced entries adc'"
      using assms(3) source_vars_kept [OF assms(1) m] mirrored_config_frame [OF m] by (simp add: sourced_def)
    then show ?thesis
      using updated_config_None [OF d assms(2)] sourced_settled mirrored_config_settled [OF assms(1) m] by simp
  qed
  then show ?thesis using updated_config_None [OF assms(1,2)] sourced_settled [OF assms(3)] by blast
qed


section \<open>Passes over a cluster settle\<close>

text \<open>The managed variables form a map.\<close>

lemma operatorImage_distinct: "distinct (map fst m) \<Longrightarrow> distinct (map fst (operatorImage env e m))"
  by (auto simp: operatorImage_def distinct_update split: prod.splits)

lemma set_unless_empty_distinct: "distinct (map fst m) \<Longrightarrow> distinct (map fst (set_unless_empty k v m))"
  by (simp add: set_unless_empty_def distinct_update)

lemma agent_variables_distinct: "distinct (map fst m) \<Longrightarrow> distinct (map fst (extractArgoCDAgentVariables a m))"
  unfolding extractArgoCDAgentVariables_def by (intro set_unless_empty_distinct) (simp add: distinct_update)

lemma olm_variables_distinct: "distinct (map fst m) \<Longrightarrow> distinct (map fst (olm_variables b vs m))"
  by (simp add: olm_variables_def distinct_update split: prod.splits)

lemma fold_distinct:
  "(\<And>e m. distinct (map fst m) \<Longrightarrow> distinct (map fst (f e m))) \<Longrightarrow> distinct (map fst m) \<Longrightarrow>
     distinct (map fst (fold f es m))"
  by (induction es arbitrary: m) auto

lemma extract_distinct:
  assumes "distinct (map fst m)"
  shows "distinct (map fst (ExtractVariablesFromGitOpsCluster env g img m))"
proof -
  have "distinct (map fst (fold (operatorImage env) DefaultOperatorImages m))"
    by (rule fold_distinct [OF operatorImage_distinct assms])
  then show ?thesis
    unfolding ExtractVariablesFromGitOpsCluster_def Let_def
    by (auto intro!: olm_variables_distinct agent_variables_distinct set_unless_empty_distinct distinct_update distinct_delete
        split: option.splits)
qed

lemma managed_distinct: "distinct (map fst (managed_variables env g img))"
  unfolding managed_variables_def by (rule extract_distinct) simp

text \<open>A loop over a map visits every entry once, in some order.\<close>

definition visits :: "(smap \<Rightarrow> (string \<times> string) list) \<Rightarrow> bool" where
  "visits v \<longleftrightarrow> (\<forall>m. mset (v m) = mset m)"

lemma visits_map:
  assumes "visits v" and "distinct (map fst m)"
  shows "distinct (map fst (v m))" "map_of (v m) = map_of m"
proof -
  have "mset (map fst (v m)) = mset (map fst m)" using assms(1) by (simp add: visits_def)
  with assms(2) show d: "distinct (map fst (v m))" by (metis mset_eq_imp_distinct_iff)
  have "set (v m) = set m" using assms(1) unfolding visits_def by (metis set_mset_mset)
  with map_of_inject_set [OF d assms(2)] show "map_of (v m) = map_of m" by simp
qed

definition addon_refs :: "string \<Rightarrow> world \<Rightarrow> bool" where
  "addon_refs ns w \<longleftrightarrow> ns = [] \<or> (\<forall>a. map_of (w_addons w) (ns, gitopsAddonName) = Some a \<longrightarrow> addon_config_ref ns \<in> set (ca_configs a))"

lemma update_ref_run:
  assumes "calm w" and "keyed ca_meta (w_addons w)"
  shows "\<exists>r t. run_state (UpdateManagedClusterAddonConfig ns) w = (r, t) \<and> calm t \<and> w_adcs t = w_adcs w \<and> addon_refs ns t"
proof (cases "ns = [] \<or> map_of (w_addons w) (ns, gitopsAddonName) = None")
  case True
  with assms show ?thesis by (auto simp: UpdateManagedClusterAddonConfig_def run_simps addon_refs_def)
next
  case False
  then obtain a where a: "map_of (w_addons w) (ns, gitopsAddonName) = Some a" "ns \<noteq> []" by auto
  with keyedD [OF assms(2) a(1)] assms show ?thesis
    by (auto simp: UpdateManagedClusterAddonConfig_def run_simps addon_refs_def list_ex_iff has_key_def)
qed

lemma update_ref_quiet:
  assumes "calm w" and "addon_refs ns w" and "run_state (UpdateManagedClusterAddonConfig ns) w = (r, t)"
  shows "quiet w t"
  using assms by (auto simp: UpdateManagedClusterAddonConfig_def run_simps addon_refs_def list_ex_iff
      quiet_consume quiet.frame_refl split: if_splits option.splits)

definition config_of :: "string \<Rightarrow> nsname" where "config_of ns = (ns, ''gitops-addon-config'')"

text \<open>a pass of CreateAddOnDeploymentConfig over a cluster reaches a fixed point. When nothing is rejected it
  succeeds; afterwards the cluster has a config in which every managed variable is as wanted and that
  installs into the addon namespace, and, if it has a gitops-addon, that references the config; and every
  further pass only reads, in whatever order either pass visits the managed variables.\<close>

theorem config_pass_settles:
  assumes "calm w" and "well_configured w" and "keyed ca_meta (w_addons w)"
    and "visits v1" and "visits v2"
    and "run_state (CreateAddOnDeploymentConfig v1 env g (Some mc) img) w = (x, t)"
  shows "x = Inr () \<and> addon_refs (mc_name mc) t
    \<and> (\<exists>cfg. map_of (w_adcs t) (config_of (mc_name mc)) = Some cfg
         \<and> settled_config (managed_variables env g img) cfg \<and> distinct (var_names cfg))
    \<and> (\<forall>y u. run_state (CreateAddOnDeploymentConfig v2 env g (Some mc) img) t = (y, u) \<longrightarrow> y = Inr () \<and> quiet t u)"
proof -
  let ?m = "managed_variables env g img" and ?k = "config_of (mc_name mc)"
  note e1 = visits_map [OF assms(4) managed_distinct [of env g img]]
  note e2 = visits_map [OF assms(5) managed_distinct [of env g img]]
  have sc: "settled_config (v1 ?m) = settled_config ?m" "settled_config (v2 ?m) = settled_config ?m"
    using settled_config_cong e1(2) e2(2) by blast+
  have "\<exists>u cfg. run_state (do { r \<leftarrow> UpdateManagedClusterAddonConfig (mc_name mc); State_Monad.return (Inr ()) }) u = (x, t)
     \<and> calm u \<and> keyed ca_meta (w_addons u)
     \<and> map_of (w_adcs u) ?k = Some cfg \<and> settled_config ?m cfg \<and> distinct (var_names cfg)"
  proof (cases "map_of (w_adcs w) ?k")
    case None
    let ?new = "\<lparr>dc_meta = plain_meta ''gitops-addon-config'' (mc_name mc) [] [], dc_vars = map var_of (v1 ?m),
        dc_install_ns = AddonAgentNamespace\<rparr>"
    have vars: "map cv_name (map var_of (v1 ?m)) = map fst (v1 ?m)" by simp
    have "var_values (map var_of (v1 ?m)) = wanted ?m ?new"
      using e1(2) by (auto simp: wanted_def var_values_entries fun_eq_iff mget_def split: option.splits)
    with e1(1) have "settled_config ?m ?new" "distinct (var_names ?new)"
      by (simp_all add: settled_config_def del: map_map add: vars)
    with None assms(1,3,6) show ?thesis
      by (intro exI [of _ "w_adcs_update (mset_key ?k ?new) (consume (consume w))"] exI [of _ ?new])
         (simp add: CreateAddOnDeploymentConfig_def run_simps config_of_def Let_def has_key_def)
  next
    case (Some cfg)
    have d: "distinct (var_names cfg)" using assms(2) Some unfolding well_configured_def by blast
    have k: "adc_key cfg = ?k" using keyedD [of dc_meta "w_adcs w" ?k cfg] assms(2) Some
      by (simp add: adc_key_def well_configured_def)
    show ?thesis
    proof (cases "updated_config g (v1 ?m) cfg")
      case None
      then have "settled_config ?m cfg" using updated_config_None [OF d e1(1)] sc by simp
      with d Some None assms(1,3,6) show ?thesis
        by (intro exI [of _ "consume w"] exI [of _ cfg])
           (simp add: CreateAddOnDeploymentConfig_def run_simps config_of_def Let_def)
    next
      case (Some new)
      note n = updated_config_Some [OF d e1(1) Some]
      have "adc_key new = ?k" using k n(4) by (simp add: adc_key_def)
      with n sc Some \<open>map_of (w_adcs w) ?k = Some cfg\<close> k assms(1,3,6) show ?thesis
        by (intro exI [of _ "w_adcs_update (mset_key ?k new) (consume (consume w))"] exI [of _ new])
           (simp add: CreateAddOnDeploymentConfig_def run_simps config_of_def Let_def has_key_def)
    qed
  qed
  then obtain u cfg where u: "run_state (do { r \<leftarrow> UpdateManagedClusterAddonConfig (mc_name mc); State_Monad.return (Inr ()) }) u = (x, t)"
    "calm u" "keyed ca_meta (w_addons u)"
    "map_of (w_adcs u) ?k = Some cfg" "settled_config ?m cfg" "distinct (var_names cfg)" by blast
  from update_ref_run [OF u(2,3), of "mc_name mc"] u(1) have t: "x = Inr ()" "calm t" "w_adcs t = w_adcs u" "addon_refs (mc_name mc) t"
    by auto
  have again: "y = Inr () \<and> quiet t u'"
    if r: "run_state (CreateAddOnDeploymentConfig v2 env g (Some mc) img) t = (y, u')" for y u'
  proof -
    have none: "updated_config g (v2 ?m) cfg = None" using updated_config_None [OF u(6) e2(1)] u(5) sc by simp
    obtain z u2 where z: "run_state (UpdateManagedClusterAddonConfig (mc_name mc)) (consume t) = (z, u2)" by (rule prod.exhaust)
    have "quiet (consume t) u2"
      using update_ref_quiet [OF _ _ z] t by (simp add: addon_refs_def)
    moreover have "y = Inr ()" "u' = u2"
      using r z none t u(4) by (simp_all add: CreateAddOnDeploymentConfig_def run_simps config_of_def Let_def)
    ultimately show ?thesis using quiet.frame_trans [OF quiet_consume] by blast
  qed
  then show ?thesis using t u by auto
qed


section \<open>The addon's configs\<close>

definition addon_exact :: "string \<Rightarrow> gitops_cluster \<Rightarrow> cluster_addon \<Rightarrow> bool" where
  "addon_exact ns g a \<longleftrightarrow> ca_install_ns a = AddonAgentNamespace
     \<and> (\<forall>e \<in> set (expected_configs ns g). list_ex (config_matches e) (ca_configs a))
     \<and> (\<forall>c \<in> set (ca_configs a). list_ex (\<lambda>e. config_matches e c) (expected_configs ns g))"

lemma config_matches_self [simp]: "config_matches e e"
  by (simp add: config_matches_def)

lemma matched_self: "e \<in> set es \<Longrightarrow> list_ex (config_matches e) es \<and> list_ex (\<lambda>e'. config_matches e' e) es"
  unfolding list_ex_iff using config_matches_self by blast

lemma fold_add_config:
  "\<exists>ys. fold add_config es cs = cs @ ys \<and> set ys \<subseteq> set es \<and> (\<forall>e \<in> set es. list_ex (config_matches e) (cs @ ys))
     \<and> ((\<forall>e \<in> set es. list_ex (config_matches e) cs) \<longrightarrow> ys = [])"
proof (induction es arbitrary: cs)
  case (Cons e es)
  show ?case
  proof (cases "list_ex (config_matches e) cs")
    case True
    obtain ys where "fold add_config es cs = cs @ ys" "set ys \<subseteq> set es" "\<forall>e \<in> set es. list_ex (config_matches e) (cs @ ys)"
      "(\<forall>e \<in> set es. list_ex (config_matches e) cs) \<longrightarrow> ys = []" using Cons.IH by blast
    moreover have "fold add_config (e # es) cs = fold add_config es cs" using True by (simp add: add_config_def)
    ultimately show ?thesis using True by (intro exI [of _ ys]) auto
  next
    case False
    obtain ys where "fold add_config es (cs @ [e]) = (cs @ [e]) @ ys" "set ys \<subseteq> set es"
      "\<forall>d \<in> set es. list_ex (config_matches d) ((cs @ [e]) @ ys)"
      using Cons.IH [of "cs @ [e]"] by (elim exE conjE) (rule that)
    moreover have "fold add_config (e # es) cs = fold add_config es (cs @ [e])" using False by (simp add: add_config_def)
    ultimately show ?thesis using False by (intro exI [of _ "e # ys"]) auto
  qed
qed simp

lemma filter_all: "length (filter P xs) = length xs \<longleftrightarrow> (\<forall>x \<in> set xs. P x)"
  by (metis filter_True length_filter_less less_irrefl)

lemma ensured_addon_None: "ensured_addon ns g a = None \<longleftrightarrow> addon_exact ns g a"
proof -
  let ?es = "expected_configs ns g"
  obtain ys where ys: "fold add_config ?es (ca_configs a) = ca_configs a @ ys"
    "\<forall>e \<in> set ?es. list_ex (config_matches e) (ca_configs a @ ys)"
    "(\<forall>e \<in> set ?es. list_ex (config_matches e) (ca_configs a)) \<longrightarrow> ys = []"
    using fold_add_config [of ?es "ca_configs a"] by blast
  have "ensured_addon ns g a = None \<longleftrightarrow> ca_install_ns a = AddonAgentNamespace \<and> ys = []
      \<and> length (filter (\<lambda>c. list_ex (\<lambda>e. config_matches e c) ?es) (ca_configs a @ ys)) = length (ca_configs a @ ys)"
    by (simp add: ensured_addon_def Let_def ys(1))
  also have "\<dots> \<longleftrightarrow> addon_exact ns g a"
    unfolding filter_all addon_exact_def using ys(2,3) by auto
  finally show ?thesis .
qed

lemma ensured_addon_Some:
  assumes "ensured_addon ns g a = Some b"
  shows "addon_exact ns g b" "ca_meta b = ca_meta a"
proof -
  let ?es = "expected_configs ns g"
  obtain ys where ys: "fold add_config ?es (ca_configs a) = ca_configs a @ ys"
    "\<forall>e \<in> set ?es. list_ex (config_matches e) (ca_configs a @ ys)"
    using fold_add_config [of ?es "ca_configs a"] by blast
  define cs where "cs = filter (\<lambda>c. list_ex (\<lambda>e. config_matches e c) ?es) (ca_configs a @ ys)"
  have b: "b = a\<lparr>ca_install_ns := AddonAgentNamespace, ca_configs := cs\<rparr>"
    using assms by (auto simp: ensured_addon_def Let_def ys(1) cs_def split: if_splits)
  then show "ca_meta b = ca_meta a" by simp
  have "list_ex (config_matches e) cs" if "e \<in> set ?es" for e
  proof -
    from ys(2) that obtain c where "c \<in> set (ca_configs a @ ys)" "config_matches e c" by (auto simp: list_ex_iff)
    with that show ?thesis unfolding cs_def list_ex_iff set_filter by blast
  qed
  moreover have "\<forall>c \<in> set cs. list_ex (\<lambda>e. config_matches e c) ?es" by (simp only: cs_def set_filter) simp
  ultimately show "addon_exact ns g b" by (simp add: b addon_exact_def)
qed

text \<open>EnsureManagedClusterAddon makes the cluster's gitops-addon exactly the one the GitOpsCluster asks for,
  whatever was there: the standard install namespace, every expected config reference (the dynamic
  template with the agent, the deployment config always) and no other. A further call only reads.\<close>

theorem addon_ensured:
  assumes "calm w" and "keyed ca_meta (w_addons w)" and "ns \<noteq> []"
    and "run_state (EnsureManagedClusterAddon ns g) w = (x, t)"
  shows "x = Inr () \<and> (\<exists>a. map_of (w_addons t) (ns, gitopsAddonName) = Some a \<and> addon_exact ns g a)
    \<and> (\<forall>y u. run_state (EnsureManagedClusterAddon ns g) t = (y, u) \<longrightarrow> y = Inr () \<and> quiet t u)"
proof -
  have "calm t \<and> x = Inr () \<and> (\<exists>a. map_of (w_addons t) (ns, gitopsAddonName) = Some a \<and> addon_exact ns g a)"
  proof (cases "map_of (w_addons w) (ns, gitopsAddonName)")
    case None
    have "addon_exact ns g \<lparr>ca_meta = plain_meta gitopsAddonName ns
                    [(''app.kubernetes.io/managed-by'', ''multicloud-integrations''),
                     (''app.kubernetes.io/component'', ''addon'')] [],
                  ca_install_ns = AddonAgentNamespace, ca_configs = expected_configs ns g\<rparr>"
      by (simp add: addon_exact_def matched_self)
    with None assms show ?thesis by (auto simp: EnsureManagedClusterAddon_def run_simps has_key_def)
  next
    case (Some a)
    have k: "(m_ns (ca_meta a), m_name (ca_meta a)) = (ns, gitopsAddonName)" using keyedD [OF assms(2) Some] .
    show ?thesis
    proof (cases "ensured_addon ns g a")
      case None
      with Some assms ensured_addon_None [of ns g a] show ?thesis by (auto simp: EnsureManagedClusterAddon_def run_simps)
    next
      case (Some b)
      with \<open>map_of (w_addons w) (ns, gitopsAddonName) = Some a\<close> k assms ensured_addon_Some [OF Some]
      show ?thesis by (auto simp: EnsureManagedClusterAddon_def run_simps has_key_def)
    qed
  qed
  then obtain a where a: "calm t" "x = Inr ()" "map_of (w_addons t) (ns, gitopsAddonName) = Some a" "addon_exact ns g a"
    by blast
  then have "ensured_addon ns g a = None" by (simp add: ensured_addon_None)
  with a assms(3) have "run_state (EnsureManagedClusterAddon ns g) t = (Inr (), consume t)"
    by (simp add: EnsureManagedClusterAddon_def run_simps)
  with a quiet_consume [of t] show ?thesis by auto
qed

section \<open>What flows from the hub\<close>

lemma images_lookup:
  assumes "distinct (map fst es)"
  shows "map_of (fold (operatorImage env) es m) n =
    (case map_of es n of
       Some d \<Rightarrow> if IsHubOnlyEnvVar n then map_of m n else Some (if env n \<noteq> [] then env n else d)
     | None \<Rightarrow> map_of m n)"
  using assms
proof (induction es arbitrary: m)
  case (Cons e es)
  then have "map_of es (fst e) = None" by (simp add: map_of_eq_None_iff)
  with Cons show ?case by (auto simp: operatorImage_def split: prod.splits option.splits)
qed simp

lemma image_names:
  "map fst DefaultOperatorImages =
     [''GITOPS_OPERATOR_IMAGE'', ''ARGOCD_IMAGE'', ''ARGOCD_REPOSERVER_IMAGE'', ''ARGOCD_REDIS_IMAGE'',
      ''ARGOCD_REDIS_HA_IMAGE'', ''ARGOCD_REDIS_HA_PROXY_IMAGE'', ''ARGOCD_DEX_IMAGE'', ''BACKEND_IMAGE'',
      ''GITOPS_CONSOLE_PLUGIN_IMAGE'', ''ARGOCD_EXTENSION_IMAGE'', ''ARGO_ROLLOUTS_IMAGE'', ''ARGOCD_PRINCIPAL_IMAGE'',
      ''ARGOCD_AGENT_IMAGE'', ''ARGOCD_IMAGE_UPDATER_IMAGE'']"
  by (simp only: DefaultOperatorImages_def list.map fst_conv)

lemma images_distinct: "distinct (map fst DefaultOperatorImages)"
  unfolding image_names by simp

lemma image_default: "n \<in> set (map fst DefaultOperatorImages) \<Longrightarrow> \<exists>d. map_of DefaultOperatorImages n = Some d \<and> d \<noteq> []"
  unfolding DefaultOperatorImages_def by (auto simp only: list.map fst_conv set_simps insert_iff empty_iff map_of.simps) auto

lemma set_unless_empty_map [simp]:
  "map_of (set_unless_empty k v m) n = (if n = k \<and> v \<noteq> [] then Some v else map_of m n)"
  by (auto simp: set_unless_empty_def)

lemma agent_variables_map:
  "map_of (extractArgoCDAgentVariables a m) n =
     (if n = ''ARGOCD_AGENT_MODE'' \<and> ag_mode a \<noteq> [] then Some (ag_mode a)
      else if n = ''ARGOCD_AGENT_SERVER_PORT'' \<and> ag_server_port a \<noteq> [] then Some (ag_server_port a)
      else if n = ''ARGOCD_AGENT_SERVER_ADDRESS'' \<and> ag_server_address a \<noteq> [] then Some (ag_server_address a)
      else if n = ''ARGOCD_AGENT_ENABLED'' \<and> ag_enabled a = Some True then Some ''true''
      else map_of m n)"
  by (auto simp: extractArgoCDAgentVariables_def)

definition olm_names :: "string list" where
  "olm_names = [''OLM_SUBSCRIPTION_ENABLED'', ''OLM_SUBSCRIPTION_NAME'', ''OLM_SUBSCRIPTION_NAMESPACE'',
     ''OLM_SUBSCRIPTION_CHANNEL'', ''OLM_SUBSCRIPTION_SOURCE'', ''OLM_SUBSCRIPTION_SOURCE_NAMESPACE'',
     ''OLM_SUBSCRIPTION_INSTALL_PLAN_APPROVAL'']"

lemma olm_variables_other: "n \<notin> set olm_names \<Longrightarrow> map_of (olm_variables b vs m) n = map_of m n"
  by (auto simp: olm_variables_def olm_names_def split: prod.splits)


section \<open>An example\<close>

definition hub_env :: environment where
  "hub_env = (\<lambda>k. if k = ''HTTP_PROXY'' then ''http://proxy'' else [])"

definition sourced_config :: deployment_config where
  "sourced_config = sample_config\<lparr>dc_install_ns := AddonAgentNamespace\<rparr>"

theorem config_values_witness:
  "var_values (dc_vars (case updated_config sample_gitops [(''IMG'', ''quay.io/argo:2'')] sample_config of
       Some new \<Rightarrow> new | None \<Rightarrow> sample_config)) ''IMG'' = Some ''quay.io/argo:2''"
proof -
  have "distinct (map fst [(''IMG'', ''quay.io/argo:2'')])" by simp
  from config_values [OF sample_names this, where n = "''IMG''" and g = sample_gitops and h = sample_gitops] show ?thesis
    by (simp add: sample_config_def mget_def)
qed

lemma sample_sourced: "sourced [(''IMG'', ''quay.io/argo:1'')] sourced_config"
  by (simp add: sourced_def sourced_config_def sample_config_def source_vars_def var_values_def source_value_def mget_def)

theorem controllers_agree_witness:
  "updated_config sample_gitops [(''IMG'', ''quay.io/argo:1'')] sourced_config = None"
proof -
  have "distinct (var_names sourced_config)" using sample_names by (simp add: sourced_config_def)
  moreover have "distinct (map fst [(''IMG'', ''quay.io/argo:1'')])" by simp
  ultimately show ?thesis using controllers_agree sample_sourced by blast
qed

lemma mirror_world_addons: "keyed ca_meta (w_addons mirror_world)"
  by (simp add: mirror_world_def keyed_def)

lemma visits_id: "visits (\<lambda>m. m)" "visits rev"
  by (simp_all add: visits_def)

theorem config_pass_settles_witness:
  "fst (run_state (CreateAddOnDeploymentConfig (\<lambda>m. m) hub_env sample_gitops (Some sample_cluster) []) mirror_world) = Inr ()"
proof -
  obtain x t where r: "run_state (CreateAddOnDeploymentConfig (\<lambda>m. m) hub_env sample_gitops (Some sample_cluster) []) mirror_world = (x, t)"
    by (rule prod.exhaust)
  from config_pass_settles [OF mirror_world_good mirror_world_addons visits_id r] r show ?thesis by simp
qed

theorem addon_ensured_witness:
  "fst (run_state (EnsureManagedClusterAddon ''c1'' sample_gitops) mirror_world) = Inr ()"
proof -
  obtain x t where r: "run_state (EnsureManagedClusterAddon ''c1'' sample_gitops) mirror_world = (x, t)"
    by (rule prod.exhaust)
  from addon_ensured [OF mirror_world_good(1) mirror_world_addons _ r] r show ?thesis by simp
qed

end
