(* ===== verification/AddonEnvironment.thy ===== *)
theory AddonEnvironment
  imports AddonManagement
begin

text \<open>
  How configuration reaches a spoke: the environment of the addon's containers in the AddOnTemplate
  (\<open>addon_template_management.go\<close>, \<open>buildAddonEnvVars\<close> and \<open>buildCleanupEnvVars\<close>), the values the addon framework
  puts in, and what the agent on the spoke reads from it (\<open>pkg/utils/config.go\<close>, \<open>NewGitOpsAddonConfig\<close>).
\<close>

section \<open>The template's environment\<close>

datatype env_value = EnvText string | EnvField string

definition placeholder :: "string \<Rightarrow> string" where
  "placeholder k = ''{{'' @ k @ ''}}''"

definition placeholder_var :: "string \<Rightarrow> string \<times> env_value" where
  "placeholder_var k = (k, EnvText (placeholder k))"

definition buildCleanupEnvVars :: "(string \<times> env_value) list" where
  "buildCleanupEnvVars = map placeholder_var
     [''ARGOCD_NAMESPACE'', ''OLM_SUBSCRIPTION_ENABLED'', ''OLM_SUBSCRIPTION_NAME'', ''OLM_SUBSCRIPTION_NAMESPACE'',
      ''OLM_SUBSCRIPTION_CHANNEL'', ''OLM_SUBSCRIPTION_SOURCE'', ''OLM_SUBSCRIPTION_SOURCE_NAMESPACE'',
      ''OLM_SUBSCRIPTION_INSTALL_PLAN_APPROVAL'']"

definition buildAddonEnvVars :: "(string \<times> env_value) list" where
  "buildAddonEnvVars =
     (''POD_NAMESPACE'', EnvField ''metadata.namespace'') #
     map placeholder_var (sort (filter (\<lambda>k. \<not> IsHubOnlyEnvVar k) (map fst DefaultOperatorImages))) @
     map placeholder_var [''HTTP_PROXY'', ''HTTPS_PROXY'', ''NO_PROXY''] @
     map placeholder_var [''ARGOCD_AGENT_ENABLED'', ''ARGOCD_AGENT_SERVER_ADDRESS'', ''ARGOCD_AGENT_SERVER_PORT'',
       ''ARGOCD_AGENT_MODE''] @
     [placeholder_var ''ARGOCD_NAMESPACE''] @
     map placeholder_var [''OLM_SUBSCRIPTION_ENABLED'', ''OLM_SUBSCRIPTION_NAME'', ''OLM_SUBSCRIPTION_NAMESPACE'',
       ''OLM_SUBSCRIPTION_CHANNEL'', ''OLM_SUBSCRIPTION_SOURCE'', ''OLM_SUBSCRIPTION_SOURCE_NAMESPACE'',
       ''OLM_SUBSCRIPTION_INSTALL_PLAN_APPROVAL'']"

section \<open>On the spoke\<close>

record addon_settings =
  as_images :: smap
  as_http_proxy :: string
  as_https_proxy :: string
  as_no_proxy :: string
  as_agent_enabled :: bool
  as_server_address :: string
  as_server_port :: string
  as_mode :: string

definition image_or_default :: "environment \<Rightarrow> string \<times> string \<Rightarrow> smap \<Rightarrow> smap" where
  "image_or_default env entry m =
     (case entry of (envKey, defaultValue) \<Rightarrow>
        mset_key envKey (if env envKey \<noteq> [] then env envKey else defaultValue) m)"

definition unless_empty :: "string \<Rightarrow> string \<Rightarrow> string" where
  "unless_empty v old = (if v \<noteq> [] then v else old)"

definition NewGitOpsAddonConfig :: "environment \<Rightarrow> addon_settings" where
  "NewGitOpsAddonConfig env =
     \<lparr>as_images = fold (image_or_default env) DefaultOperatorImages [],
      as_http_proxy = unless_empty (env ''HTTP_PROXY'') [],
      as_https_proxy = unless_empty (env ''HTTPS_PROXY'') [],
      as_no_proxy = unless_empty (env ''NO_PROXY'') [],
      as_agent_enabled = (if env ''ARGOCD_AGENT_ENABLED'' = ''true'' then True else False),
      as_server_address = unless_empty (env ''ARGOCD_AGENT_SERVER_ADDRESS'') [],
      as_server_port = unless_empty (env ''ARGOCD_AGENT_SERVER_PORT'') [],
      as_mode = unless_empty (env ''ARGOCD_AGENT_MODE'') ''managed''\<rparr>"

definition GetImage :: "addon_settings \<Rightarrow> string \<Rightarrow> string" where
  "GetImage c envName =
     (case map_of (as_images c) envName of
        Some img \<Rightarrow> img
      | None \<Rightarrow> (case map_of DefaultOperatorImages envName of Some defaultImg \<Rightarrow> defaultImg | None \<Rightarrow> []))"

section \<open>From the hub to the spoke\<close>

text \<open>
  The addon framework is not part of the repository. What the code relies on: a value that is a
  placeholder becomes the variable's value, and stays as it is when there is no such variable.
\<close>

definition renders :: "(smap \<Rightarrow> string \<Rightarrow> string) \<Rightarrow> bool" where
  "renders render \<longleftrightarrow> (\<forall>vars k. render vars (placeholder k) =
     (case map_of vars k of Some v \<Rightarrow> v | None \<Rightarrow> placeholder k))"

text \<open>The environment of a container with the given entries, in a pod of namespace \<open>ns\<close>.\<close>

definition container_env :: "(smap \<Rightarrow> string \<Rightarrow> string) \<Rightarrow> smap \<Rightarrow> string \<Rightarrow> (string \<times> env_value) list \<Rightarrow> environment" where
  "container_env render vars ns entries k =
     (case map_of entries k of
        None \<Rightarrow> []
      | Some (EnvText s) \<Rightarrow> render vars s
      | Some (EnvField f) \<Rightarrow> if f = ''metadata.namespace'' then ns else [])"

definition spoke_images :: "string list" where
  "spoke_images = filter (\<lambda>k. \<not> IsHubOnlyEnvVar k) (map fst DefaultOperatorImages)"

lemma map_of_placeholders: "map_of (map placeholder_var ks) k = (if k \<in> set ks then Some (EnvText (placeholder k)) else None)"
  by (induction ks) (auto simp: placeholder_var_def)

definition other_vars :: "string list" where
  "other_vars = [''HTTP_PROXY'', ''HTTPS_PROXY'', ''NO_PROXY'', ''ARGOCD_AGENT_ENABLED'',
     ''ARGOCD_AGENT_SERVER_ADDRESS'', ''ARGOCD_AGENT_SERVER_PORT'', ''ARGOCD_AGENT_MODE'']"

lemma spoke_images_eq:
  "spoke_images = [''GITOPS_OPERATOR_IMAGE'', ''ARGOCD_IMAGE'', ''ARGOCD_REPOSERVER_IMAGE'', ''ARGOCD_REDIS_IMAGE'',
      ''ARGOCD_REDIS_HA_IMAGE'', ''ARGOCD_REDIS_HA_PROXY_IMAGE'', ''ARGOCD_DEX_IMAGE'', ''BACKEND_IMAGE'',
      ''GITOPS_CONSOLE_PLUGIN_IMAGE'', ''ARGOCD_EXTENSION_IMAGE'', ''ARGO_ROLLOUTS_IMAGE'',
      ''ARGOCD_AGENT_IMAGE'', ''ARGOCD_IMAGE_UPDATER_IMAGE'']"
  unfolding spoke_images_def image_names IsHubOnlyEnvVar_def hubOnlyEnvVars_def by simp

lemma not_pod: "k \<in> set (spoke_images @ other_vars) \<Longrightarrow> k \<noteq> ''POD_NAMESPACE''"
  unfolding spoke_images_eq other_vars_def by auto

definition addon_vars :: "string list" where
  "addon_vars = sort spoke_images @ other_vars @ [''ARGOCD_NAMESPACE'', ''OLM_SUBSCRIPTION_ENABLED'',
     ''OLM_SUBSCRIPTION_NAME'', ''OLM_SUBSCRIPTION_NAMESPACE'', ''OLM_SUBSCRIPTION_CHANNEL'', ''OLM_SUBSCRIPTION_SOURCE'',
     ''OLM_SUBSCRIPTION_SOURCE_NAMESPACE'', ''OLM_SUBSCRIPTION_INSTALL_PLAN_APPROVAL'']"

lemma buildAddonEnvVars_eq:
  "buildAddonEnvVars = (''POD_NAMESPACE'', EnvField ''metadata.namespace'') # map placeholder_var addon_vars"
  by (simp add: buildAddonEnvVars_def spoke_images_def other_vars_def addon_vars_def)

lemma addon_entries:
  assumes "k \<in> set (spoke_images @ other_vars)"
  shows "map_of buildAddonEnvVars k = Some (EnvText (placeholder k))"
proof -
  have "k \<in> set addon_vars" using assms unfolding addon_vars_def set_append set_sort by blast
  with not_pod [OF assms] show ?thesis by (simp add: buildAddonEnvVars_eq map_of_placeholders)
qed

lemma container_env_addon:
  assumes "renders render" and "k \<in> set (spoke_images @ other_vars)"
  shows "container_env render vars ns buildAddonEnvVars k = (case map_of vars k of Some v \<Rightarrow> v | None \<Rightarrow> placeholder k)"
  using assms(1) addon_entries [OF assms(2)] by (simp add: container_env_def renders_def)

lemma image_or_default_lookup:
  "distinct (map fst es) \<Longrightarrow> map_of (fold (image_or_default env) es m) n =
    (case map_of es n of Some d \<Rightarrow> Some (if env n \<noteq> [] then env n else d) | None \<Rightarrow> map_of m n)"
proof (induction es arbitrary: m)
  case (Cons e es)
  then have "map_of es (fst e) = None" by (simp add: map_of_eq_None_iff)
  with Cons show ?case by (auto simp: image_or_default_def split: prod.splits option.splits)
qed simp


section \<open>What the hub provides\<close>

definition operator_image_of :: "gitops_cluster \<Rightarrow> string" where
  "operator_image_of g = (case gs_addon (gc_spec g) of None \<Rightarrow> [] | Some addon \<Rightarrow> ad_operator_image addon)"

definition heal_skipped :: "gitops_cluster \<Rightarrow> bool" where
  "heal_skipped g \<longleftrightarrow> mget (m_annos (gc_meta g)) skipAgentVersionHealAnnotation = ''true''"

text \<open>The value of a variable by its layers: the environment or the default, the principal's image, the proxies,
  the specification.\<close>

definition image_layer :: "environment \<Rightarrow> string \<Rightarrow> string option" where
  "image_layer env n =
     (case map_of DefaultOperatorImages n of
        Some d \<Rightarrow> if IsHubOnlyEnvVar n then None else Some (if env n \<noteq> [] then env n else d)
      | None \<Rightarrow> map_of [(''ARGOCD_AGENT_ENABLED'', ''false''), (''ARGOCD_NAMESPACE'', GitOpsNamespace)] n)"

definition heal_layer :: "gitops_cluster \<Rightarrow> string \<Rightarrow> (string \<Rightarrow> string option) \<Rightarrow> string \<Rightarrow> string option" where
  "heal_layer g img m = (if heal_skipped g then m(EnvArgoCDAgentImage := None)
     else if img \<noteq> [] then m(EnvArgoCDAgentImage \<mapsto> img) else m)"

definition proxy_layer :: "environment \<Rightarrow> (string \<Rightarrow> string option) \<Rightarrow> string \<Rightarrow> string option" where
  "proxy_layer env m =
     m(''HTTP_PROXY'' \<mapsto> env ''HTTP_PROXY'', ''HTTPS_PROXY'' \<mapsto> env ''HTTPS_PROXY'', ''NO_PROXY'' \<mapsto> env ''NO_PROXY'')"

definition spec_layer :: "gitops_cluster \<Rightarrow> (string \<Rightarrow> string option) \<Rightarrow> string \<Rightarrow> string option" where
  "spec_layer g m n =
     (case agent_of g of
        Some a \<Rightarrow>
          if n = ''ARGOCD_AGENT_MODE'' \<and> ag_mode a \<noteq> [] then Some (ag_mode a)
          else if n = ''ARGOCD_AGENT_SERVER_PORT'' \<and> ag_server_port a \<noteq> [] then Some (ag_server_port a)
          else if n = ''ARGOCD_AGENT_SERVER_ADDRESS'' \<and> ag_server_address a \<noteq> [] then Some (ag_server_address a)
          else if n = ''ARGOCD_AGENT_ENABLED'' \<and> ag_enabled a = Some True then Some ''true''
          else if n = ''GITOPS_OPERATOR_IMAGE'' \<and> operator_image_of g \<noteq> [] then Some (operator_image_of g) else m n
      | None \<Rightarrow> if n = ''GITOPS_OPERATOR_IMAGE'' \<and> operator_image_of g \<noteq> [] then Some (operator_image_of g) else m n)"

lemma layers_cong: "m k = m' k \<Longrightarrow> spec_layer g (proxy_layer env m) k = spec_layer g (proxy_layer env m') k"
  by (auto simp: spec_layer_def proxy_layer_def split: option.splits)

lemma image_layer_base:
  "map_of (fold (operatorImage env) DefaultOperatorImages
     (mset_key ''ARGOCD_NAMESPACE'' GitOpsNamespace [(''ARGOCD_AGENT_ENABLED'', ''false'')])) n = image_layer env n"
proof (cases "map_of DefaultOperatorImages n")
  case None
  then show ?thesis by (simp add: images_lookup [OF images_distinct] image_layer_def)
next
  case (Some d)
  then have "n \<in> set (map fst DefaultOperatorImages)" by (force dest: map_of_SomeD)
  then have "n \<noteq> ''ARGOCD_NAMESPACE''" "n \<noteq> ''ARGOCD_AGENT_ENABLED''" unfolding image_names by auto
  with Some show ?thesis by (simp add: images_lookup [OF images_distinct] image_layer_def)
qed

lemma managed_layers:
  assumes "n \<notin> set olm_names"
  shows "map_of (managed_variables env g img) n =
    spec_layer g (proxy_layer env (heal_layer g img (image_layer env))) n"
proof -
  define base where "base = fold (operatorImage env) DefaultOperatorImages
     (mset_key ''ARGOCD_NAMESPACE'' GitOpsNamespace [(''ARGOCD_AGENT_ENABLED'', ''false'')])"
  have b: "map_of base = image_layer env" unfolding base_def by (intro ext) (rule image_layer_base)
  define m3 where "m3 = mset_key ''NO_PROXY'' (env ''NO_PROXY'') (mset_key ''HTTPS_PROXY'' (env ''HTTPS_PROXY'')
     (mset_key ''HTTP_PROXY'' (env ''HTTP_PROXY'')
       (if heal_skipped g then mdel_key EnvArgoCDAgentImage base
        else if img \<noteq> [] then mset_key EnvArgoCDAgentImage img base else base)))"
  have m3: "map_of m3 = proxy_layer env (heal_layer g img (image_layer env))"
    by (simp add: m3_def proxy_layer_def heal_layer_def b)
  have "map_of (managed_variables env g img) n = (case gs_addon (gc_spec g) of
      None \<Rightarrow> map_of m3 n
    | Some addon \<Rightarrow> map_of (case ad_agent addon of None \<Rightarrow> set_unless_empty ''GITOPS_OPERATOR_IMAGE'' (ad_operator_image addon) m3
        | Some a \<Rightarrow> extractArgoCDAgentVariables a (set_unless_empty ''GITOPS_OPERATOR_IMAGE'' (ad_operator_image addon) m3)) n)"
    unfolding managed_variables_def ExtractVariablesFromGitOpsCluster_def Let_def base_def [symmetric]
      heal_skipped_def [symmetric] m3_def [symmetric]
    by (simp add: olm_variables_other [OF assms] split: option.splits)
  also have "\<dots> = spec_layer g (map_of m3) n"
    by (auto simp: spec_layer_def agent_of_def operator_image_of_def agent_variables_map split: option.splits)
  finally show ?thesis by (simp add: m3)
qed


lemma spoke_image_names: "k \<in> set spoke_images \<Longrightarrow> k \<notin> set olm_names \<and> k \<notin> set other_vars \<and> k \<noteq> ''ARGOCD_NAMESPACE'' \<and> \<not> IsHubOnlyEnvVar k"
  unfolding spoke_images_eq olm_names_def other_vars_def IsHubOnlyEnvVar_def hubOnlyEnvVars_def by auto

lemma spoke_image_layer: "k \<in> set spoke_images \<Longrightarrow> \<exists>v. image_layer env k = Some v \<and> v \<noteq> []"
  using image_default [of k] by (auto simp: spoke_images_def image_layer_def)

text \<open>Every spoke image has a value on the hub, and never an empty one.\<close>

lemma managed_image:
  assumes "k \<in> set spoke_images" and "k \<noteq> EnvArgoCDAgentImage \<or> \<not> heal_skipped g"
  shows "\<exists>v. map_of (managed_variables env g img) k = Some v \<and> v \<noteq> []"
proof -
  note n = spoke_image_names [OF assms(1)]
  have o: "k \<noteq> ''HTTP_PROXY'' \<and> k \<noteq> ''HTTPS_PROXY'' \<and> k \<noteq> ''NO_PROXY'' \<and> k \<noteq> ''ARGOCD_AGENT_MODE''
    \<and> k \<noteq> ''ARGOCD_AGENT_SERVER_PORT'' \<and> k \<noteq> ''ARGOCD_AGENT_SERVER_ADDRESS'' \<and> k \<noteq> ''ARGOCD_AGENT_ENABLED''"
    using n unfolding other_vars_def by auto
  from spoke_image_layer [OF assms(1)] obtain v where v: "image_layer env k = Some v" "v \<noteq> []" by blast
  then have "\<exists>v. heal_layer g img (image_layer env) k = Some v \<and> v \<noteq> []"
    using assms(2) by (auto simp: heal_layer_def)
  with o show ?thesis
    by (auto simp: managed_layers [of k, OF conjunct1 [OF n]] spec_layer_def proxy_layer_def split: option.splits)
qed

lemma agent_enabled_iff: "agentEnabled g \<longleftrightarrow> (\<exists>a. agent_of g = Some a \<and> ag_enabled a = Some True)"
  by (auto simp: GetGitOpsAddonStatus_def agent_of_def split: option.splits)


section \<open>An example\<close>

text \<open>A framework that replaces a text that is one placeholder, and leaves every other text alone.\<close>

definition simple_render :: "smap \<Rightarrow> string \<Rightarrow> string" where
  "simple_render vars s =
     (if has_prefix s ''{{'' \<and> has_suffix s ''}}'' then
        (case map_of vars (take (length s - 4) (drop 2 s)) of Some v \<Rightarrow> v | None \<Rightarrow> s)
      else s)"

lemma simple_renders: "renders simple_render"
  unfolding renders_def
proof (intro allI)
  fix vars k
  have "has_prefix (placeholder k) ''{{''" "has_suffix (placeholder k) ''}}''"
    "take (length (placeholder k) - 4) (drop 2 (placeholder k)) = k"
    by (simp_all add: placeholder_def has_prefix_def has_suffix_def)
  then show "simple_render vars (placeholder k) = (case map_of vars k of Some v \<Rightarrow> v | None \<Rightarrow> placeholder k)"
    by (simp add: simple_render_def)
qed


end
