(* ===== verification/Base64.thy ===== *)
theory Base64
  imports Sha1
begin

text \<open>
  Decoding of \<open>encoding/base64\<close>, as \<open>encoding/json\<close> uses it for byte slices: \<open>StdEncoding\<close> with
  padding, line breaks ignored, left-over bits of the last character not checked. Decoding inverts encoding.
\<close>

definition b64_value :: "char \<Rightarrow> nat option" where
  "b64_value c = find (\<lambda>i. b64_alphabet ! i = c) [0..<64]"

fun base64_quads :: "string \<Rightarrow> string option" where
  "base64_quads [] = Some []"
| "base64_quads (a # b # c # d # s) =
     (case (b64_value a, b64_value b) of
        (Some x, Some y) \<Rightarrow>
          (if c = CHR ''='' then
             (if d = CHR ''='' \<and> s = [] then Some [char_of (x * 4 + y div 16)] else None)
           else if d = CHR ''='' then
             (case b64_value c of
                Some z \<Rightarrow> (if s = [] then Some [char_of (x * 4 + y div 16), char_of (y mod 16 * 16 + z div 4)] else None)
              | None \<Rightarrow> None)
           else
             (case (b64_value c, b64_value d, base64_quads s) of
                (Some z, Some v, Some r) \<Rightarrow>
                  Some (char_of (x * 4 + y div 16) # char_of (y mod 16 * 16 + z div 4) # char_of (z mod 4 * 64 + v) # r)
              | _ \<Rightarrow> None))
      | _ \<Rightarrow> None)"
| "base64_quads _ = None"

definition base64_decode :: "string \<Rightarrow> string option" where
  "base64_decode s = base64_quads (filter (\<lambda>c. c \<noteq> CHR 0x0A \<and> c \<noteq> CHR 0x0D) s)"

section \<open>Decoding inverts encoding\<close>

lemma alphabet_values: "list_all (\<lambda>i. b64_value (b64_alphabet ! i) = Some i) [0..<64]"
  by code_simp

lemma alphabet_plain: "list_all (\<lambda>i. b64_alphabet ! i \<notin> {CHR ''='', CHR 0x0A, CHR 0x0D}) [0..<64]"
  by code_simp

lemma b64_value_b64 [simp]: "b64_value (b64 n) = Some (n mod 64)"
  using alphabet_values by (simp add: list_all_iff b64_def)

lemma b64_plain [simp]: "b64 n \<noteq> CHR ''=''" "b64 n \<noteq> CHR 0x0A" "b64 n \<noteq> CHR 0x0D"
  using alphabet_plain by (simp_all add: list_all_iff b64_def)

lemma byte_less: "byte c < 256"
  by (rule nat_of_char_less_256)

lemma encode_plain: "filter (\<lambda>c. c \<noteq> CHR 0x0A \<and> c \<noteq> CHR 0x0D) (base64_encode s) = base64_encode s"
  by (induction s rule: base64_encode.induct) simp_all

text \<open>The four characters carry the bits of three bytes; each index is below 64.\<close>

lemma index_less:
  "byte a div 4 < 64" "k < 256 \<Longrightarrow> byte a mod 4 * 16 + k div 16 < 64"
  "l < 256 \<Longrightarrow> byte a mod 16 * 4 + l div 64 < 64"
proof -
  show "byte a div 4 < 64" using byte_less [of a] by (simp add: less_mult_imp_div_less)
  have "byte a mod 4 < 4" "byte a mod 16 < 16" by simp_all
  moreover assume "k < 256" then have "k div 16 < 16" by simp
  ultimately show "byte a mod 4 * 16 + k div 16 < 64" by linarith
next
  have "byte a mod 16 < 16" by simp
  moreover assume "l < 256" then have "l div 64 < 4" by simp
  ultimately show "byte a mod 16 * 4 + l div 64 < 64" by linarith
qed

lemma bits:
  "k < 256 \<Longrightarrow> (byte a mod 4 * 16 + k div 16) div 16 = byte a mod 4"
  "k < 256 \<Longrightarrow> (byte a mod 4 * 16 + k div 16) mod 16 = k div 16"
  "l < 256 \<Longrightarrow> (byte a mod 16 * 4 + l div 64) div 4 = byte a mod 16"
  "l < 256 \<Longrightarrow> (byte a mod 16 * 4 + l div 64) mod 4 = l div 64"
proof -
  have c: "(p * m + q) div m = p" "(p * m + q) mod m = q" if "q < m" for p q m :: nat
    using that by simp_all
  show "k < 256 \<Longrightarrow> (byte a mod 4 * 16 + k div 16) div 16 = byte a mod 4"
    "k < 256 \<Longrightarrow> (byte a mod 4 * 16 + k div 16) mod 16 = k div 16"
    by (rule c, simp)+
  show "l < 256 \<Longrightarrow> (byte a mod 16 * 4 + l div 64) div 4 = byte a mod 16"
    "l < 256 \<Longrightarrow> (byte a mod 16 * 4 + l div 64) mod 4 = l div 64"
    by (rule c, simp)+
qed

lemmas bits0 = bits(1,2) [of 0, simplified] bits(3,4) [of 0, simplified]

lemma high_bits:
  "byte b div 16 div 16 = 0" "byte b div 16 mod 16 = byte b div 16"
  "byte b div 64 div 4 = 0" "byte b div 64 mod 4 = byte b div 64"
proof -
  have 1: "byte b div 16 < 16" "byte b div 64 < 4" using byte_less [of b] by (simp_all add: less_mult_imp_div_less)
  then show "byte b div 16 div 16 = 0" "byte b div 16 mod 16 = byte b div 16"
    "byte b div 64 div 4 = 0" "byte b div 64 mod 4 = byte b div 64"
    by (simp_all only: div_less mod_less)
qed

lemma char_of_byte: "n = byte c \<Longrightarrow> (char_of n :: char) = c"
  by simp

lemma decode_quads: "base64_quads (base64_encode s) = Some s"
proof (induction s rule: base64_encode.induct)
  case (1 a b c s)
  have v: "b64_value (b64 (byte a div 4)) = Some (byte a div 4)"
    "b64_value (b64 (byte a mod 4 * 16 + byte b div 16)) = Some (byte a mod 4 * 16 + byte b div 16)"
    "b64_value (b64 (byte b mod 16 * 4 + byte c div 64)) = Some (byte b mod 16 * 4 + byte c div 64)"
    "b64_value (b64 (byte c mod 64)) = Some (byte c mod 64)"
    by (simp_all only: b64_value_b64 mod_less index_less byte_less mod_mod_trivial)
  show ?case
    by (simp del: b64_value_b64 add: 1 v bits high_bits byte_less char_of_byte)
next
  case (2 a b)
  have v: "b64_value (b64 (byte a div 4)) = Some (byte a div 4)"
    "b64_value (b64 (byte a mod 4 * 16 + byte b div 16)) = Some (byte a mod 4 * 16 + byte b div 16)"
    "b64_value (b64 (byte b mod 16 * 4)) = Some (byte b mod 16 * 4)"
    using index_less(3) [of 0 b] by (simp_all add: mod_less index_less byte_less)
  show ?case
    by (simp del: b64_value_b64 add: v bits bits0 high_bits byte_less char_of_byte)
next
  case (3 a)
  have v: "b64_value (b64 (byte a div 4)) = Some (byte a div 4)"
    "b64_value (b64 (byte a mod 4 * 16)) = Some (byte a mod 4 * 16)"
    using index_less(2) [of 0 a] by (simp_all add: mod_less index_less byte_less)
  show ?case
    by (simp del: b64_value_b64 add: v bits0 char_of_byte)
qed simp

lemma base64_decode_encode [simp]: "base64_decode (base64_encode s) = Some s"
  by (simp add: base64_decode_def encode_plain decode_quads)

end
