(* ===== verification/AgentPrereqs.thy ===== *)
theory AgentPrereqs
  imports GitOpsClusters Base64
begin

text \<open>
  What the GitOpsCluster controller prepares in the Argo CD namespace and on the clusters:
  \<open>rbac_management.go\<close> (the role by which ApplicationSets read placements, the addon manager's role),
  \<open>secret_management.go\<close> (the Redis password and the signing key of the agent) and
  \<open>propagate_hub_ca.go\<close> (the agent's CA, shipped to every cluster as a ManifestWork). The generated
  RSA key is the argument \<open>key\<close>, an error when its generation fails.
\<close>

section \<open>Roles\<close>

definition RoleSuffix :: string where "RoleSuffix = ''-applicationset-controller-placement''"
definition configMapNameOld :: string where "configMapNameOld = ''acm-placementrule''"
definition configMapNameNew :: string where "configMapNameNew = ''acm-placement''"

definition getRoleDuck :: "string \<Rightarrow> role" where
  "getRoleDuck ns =
     \<lparr>ro_meta = plain_meta (ns @ RoleSuffix) ns [] [],
      ro_rules =
        [\<lparr>ru_groups = [''apps.open-cluster-management.io''], ru_resources = [''placementrules''], ru_verbs = [''list'']\<rparr>,
         \<lparr>ru_groups = [''cluster.open-cluster-management.io''], ru_resources = [''placementdecisions''], ru_verbs = [''list'']\<rparr>]\<rparr>"

definition defaultAppSetAccount :: string where
  "defaultAppSetAccount = ''openshift-gitops-applicationset-controller''"

text \<open>One of the two label searches: \<open>Inl\<close> is the name the function returns.\<close>

definition searchAppSetAccount :: "string \<Rightarrow> unit \<Rightarrow> smap \<Rightarrow> (world, string + unit) state" where
  "searchAppSetAccount ns u label = do {
     l \<leftarrow> list_serviceaccounts (\<lambda>a. m_ns a = ns \<and> has_labels label (m_labels a));
     State_Monad.return (case l of
       Inl e \<Rightarrow> Inl defaultAppSetAccount
     | Inr items \<Rightarrow>
         (case find (\<lambda>a. has_suffix (m_name a) ''-applicationset-controller'') items of
            Some a \<Rightarrow> Inl (m_name a)
          | None \<Rightarrow> Inr ()))
   }"

definition getAppSetServiceAccountName :: "string \<Rightarrow> (world, string) state" where
  "getAppSetServiceAccountName ns = do {
     r \<leftarrow> loopE (searchAppSetAccount ns) ()
            [[(''app.kubernetes.io/part-of'', ''argocd-applicationset'')], [(''app.kubernetes.io/part-of'', ''argocd'')]];
     State_Monad.return (case r of Inl nm \<Rightarrow> nm | Inr u \<Rightarrow> defaultAppSetAccount)
   }"

definition getRoleBindingDuck :: "string \<Rightarrow> (world, role_binding) state" where
  "getRoleBindingDuck ns = do {
     saName \<leftarrow> getAppSetServiceAccountName ns;
     State_Monad.return
       \<lparr>rb_meta = plain_meta (ns @ RoleSuffix) ns [] [], rb_group = ''rbac.authorization.k8s.io'', rb_kind = ''Role'',
        rb_role = ns @ RoleSuffix, rb_subjects = [\<lparr>sj_kind = ''ServiceAccount'', sj_name = saName, sj_ns = ns\<rparr>]\<rparr>
   }"

definition getConfigMapDuck :: "string \<Rightarrow> string \<Rightarrow> string \<Rightarrow> string \<Rightarrow> configmap" where
  "getConfigMapDuck configMapName ns apiVersion knd =
     \<lparr>cm_meta = plain_meta configMapName ns [] [],
      cm_data = [(''apiVersion'', apiVersion), (''kind'', knd), (''statusListKey'', ''decisions''),
                 (''matchKey'', ''clusterName'')]\<rparr>"

definition applicationSetConfigMaps :: "string \<Rightarrow> configmap list" where
  "applicationSetConfigMaps ns =
     [getConfigMapDuck configMapNameOld ns ''apps.open-cluster-management.io/v1'' ''placementrules'',
      getConfigMapDuck configMapNameNew ns ''cluster.open-cluster-management.io/v1beta1'' ''placementdecisions'']"

definition ensureConfigMap :: "string \<Rightarrow> unit \<Rightarrow> configmap \<Rightarrow> unit api" where
  "ensureConfigMap ns u cm = do {
     g \<leftarrow> get_configmap (ns, m_name (cm_meta cm));
     case g of
       Inl e \<Rightarrow>
         (if str_contains (err_text e) '' not found'' then create_configmap (ns, m_name (cm_meta cm)) cm
          else State_Monad.return (Inl e))
     | Inr x \<Rightarrow> State_Monad.return (Inr ())
   }"

definition CreateApplicationSetConfigMaps :: "string \<Rightarrow> unit api" where
  "CreateApplicationSetConfigMaps ns =
     (if ns = [] then State_Monad.return (Inl (ErrText ''no namespace provided''))
      else loopE (ensureConfigMap ns) () (applicationSetConfigMaps ns))"

text \<open>An error of the lookups other than not found is dropped: the function goes on.\<close>

definition CreateApplicationSetRbac :: "string \<Rightarrow> unit api" where
  "CreateApplicationSetRbac ns =
     (if ns = [] then State_Monad.return (Inl (ErrText ''no namespace provided''))
      else do {
        g \<leftarrow> get_role (ns, ns @ RoleSuffix);
        r \<leftarrow> (case g of
               Inl e \<Rightarrow> (if is_not_found e then create_role (ns, ns @ RoleSuffix) (getRoleDuck ns)
                         else State_Monad.return (Inr ()))
             | Inr x \<Rightarrow> State_Monad.return (Inr ()));
        case r of
          Inl e \<Rightarrow> State_Monad.return (Inl e)
        | Inr u \<Rightarrow> do {
            b \<leftarrow> get_rolebinding (ns, ns @ RoleSuffix);
            case b of
              Inl e \<Rightarrow>
                (if is_not_found e then do {
                   duck \<leftarrow> getRoleBindingDuck ns;
                   create_rolebinding (ns, ns @ RoleSuffix) duck
                 } else State_Monad.return (Inr ()))
            | Inr x \<Rightarrow> State_Monad.return (Inr ())
          }
      })"

text \<open>
  The shape the remaining functions share: nothing is done when the object exists, a lookup that fails
  is an error, and an object that another process created meanwhile is accepted.
\<close>

definition unless_exists :: "string \<Rightarrow> (world, goerr + 'a) state \<Rightarrow> unit api \<Rightarrow> unit api" where
  "unless_exists text look mk = do {
     g \<leftarrow> look;
     case g of
       Inr x \<Rightarrow> State_Monad.return (Inr ())
     | Inl e \<Rightarrow> (if \<not> is_not_found e then State_Monad.return (Inl (Wrapped text e)) else mk)
   }"

definition tolerate_existing :: "string \<Rightarrow> unit api \<Rightarrow> unit api" where
  "tolerate_existing text mk = do {
     c \<leftarrow> mk;
     State_Monad.return (case c of
       Inl e \<Rightarrow> if is_already_exists e then Inr () else Inl (Wrapped text e)
     | Inr u \<Rightarrow> Inr ())
   }"

definition addonManagerRole :: "string \<Rightarrow> role" where
  "addonManagerRole ns =
     \<lparr>ro_meta = plain_meta ''addon-manager-controller-role'' ns [(''apps.open-cluster-management.io/gitopsaddon'', ''true'')] [],
      ro_rules = [\<lparr>ru_groups = [[]], ru_resources = [''secrets''], ru_verbs = [''get'', ''list'', ''watch'']\<rparr>]\<rparr>"

definition ensureAddonManagerRole :: "string \<Rightarrow> unit api" where
  "ensureAddonManagerRole ns =
     unless_exists ''failed to check addon-manager-controller-role'' (get_role (ns, ''addon-manager-controller-role''))
       (tolerate_existing ''failed to create addon-manager-controller-role''
          (create_role (ns, ''addon-manager-controller-role'') (addonManagerRole ns)))"

definition addonManagerRoleBinding :: "string \<Rightarrow> role_binding" where
  "addonManagerRoleBinding ns =
     \<lparr>rb_meta = plain_meta ''addon-manager-controller-rolebinding'' ns
        [(''apps.open-cluster-management.io/gitopsaddon'', ''true'')] [],
      rb_group = ''rbac.authorization.k8s.io'', rb_kind = ''Role'', rb_role = ''addon-manager-controller-role'',
      rb_subjects = [\<lparr>sj_kind = ''ServiceAccount'', sj_name = ''addon-manager-controller-sa'',
        sj_ns = ''open-cluster-management-hub''\<rparr>]\<rparr>"

definition ensureAddonManagerRoleBinding :: "string \<Rightarrow> unit api" where
  "ensureAddonManagerRoleBinding ns =
     unless_exists ''failed to check addon-manager-controller-rolebinding''
       (get_rolebinding (ns, ''addon-manager-controller-rolebinding''))
       (tolerate_existing ''failed to create addon-manager-controller-rolebinding''
          (create_rolebinding (ns, ''addon-manager-controller-rolebinding'') (addonManagerRoleBinding ns)))"

definition ensureAddonManagerRBAC :: "string \<Rightarrow> unit api" where
  "ensureAddonManagerRBAC ns = do {
     r \<leftarrow> ensureAddonManagerRole ns;
     case r of
       Inl e \<Rightarrow> State_Monad.return (Inl (Wrapped ''failed to ensure addon-manager-controller role'' e))
     | Inr u \<Rightarrow> do {
         b \<leftarrow> ensureAddonManagerRoleBinding ns;
         State_Monad.return (case b of
           Inl e \<Rightarrow> Inl (Wrapped ''failed to ensure addon-manager-controller rolebinding'' e)
         | Inr v \<Rightarrow> Inr ())
       }
   }"

section \<open>Secrets of the agent\<close>

definition gitops_secret :: "string \<Rightarrow> string \<Rightarrow> smap \<Rightarrow> secret" where
  "gitops_secret nm ns data =
     \<lparr>s_meta = plain_meta nm ns [(''apps.open-cluster-management.io/gitopscluster'', ''true'')] [],
      s_type = ''Opaque'', s_data = data, s_string_data = []\<rparr>"

definition or_gitops_namespace :: "string \<Rightarrow> string" where
  "or_gitops_namespace ns = (if ns = [] then GitOpsNamespace else ns)"

definition is_initial_password :: "secret \<Rightarrow> bool" where
  "is_initial_password s = has_suffix (m_name (s_meta s)) ''redis-initial-password''"

definition ensureArgoCDRedisSecret :: "string \<Rightarrow> unit api" where
  "ensureArgoCDRedisSecret gitopsNamespace =
     (let ns = or_gitops_namespace gitopsNamespace in
      unless_exists ''failed to check argocd-redis secret'' (get_secret (ns, ''argocd-redis''))
        (do {
           l \<leftarrow> list_secrets (\<lambda>s. m_ns (s_meta s) = ns);
           case l of
             Inl e \<Rightarrow> State_Monad.return (Inl (Wrapped (''failed to list secrets in namespace '' @ ns) e))
           | Inr items \<Rightarrow>
               (case find is_initial_password items of
                  None \<Rightarrow> State_Monad.return (Inl (ErrText
                    (''ArgoCD Redis password secret not found in namespace '' @ [CHR 0x27] @ ns @ [CHR 0x27] @
                     ''. Please ensure ArgoCD has been installed and the Redis initial password secret exists (should end with '' @
                     [CHR 0x27] @ ''redis-initial-password'' @ [CHR 0x27] @ '')'')))
                | Some s \<Rightarrow>
                    (case map_of (s_data s) ''admin.password'' of
                       None \<Rightarrow> State_Monad.return (Inl (ErrText
                         (''admin.password field is missing in Redis password secret '' @ [CHR 0x27] @ m_name (s_meta s) @
                          [CHR 0x27] @ ''. The secret may be corrupted or in an unexpected format'')))
                     | Some pw \<Rightarrow>
                         tolerate_existing ''failed to create argocd-redis secret''
                           (create_secret (gitops_secret ''argocd-redis'' ns [(''auth'', pw)]))))
         }))"

definition ensureArgoCDAgentJWTSecret :: "goerr + string \<Rightarrow> string \<Rightarrow> unit api" where
  "ensureArgoCDAgentJWTSecret key gitopsNamespace =
     (let ns = or_gitops_namespace gitopsNamespace in
      unless_exists ''failed to check argocd-agent-jwt secret'' (get_secret (ns, ''argocd-agent-jwt''))
        (case key of
           Inl e \<Rightarrow> State_Monad.return (Inl (Wrapped ''could not generate RSA private key'' e))
         | Inr keyPEM \<Rightarrow>
             tolerate_existing ''failed to create argocd-agent-jwt secret''
               (create_secret (gitops_secret ''argocd-agent-jwt'' ns [(''jwt.key'', keyPEM)]))))"

section \<open>Facts\<close>

lemma account_name_quiet: "state_io_rel quiet (getAppSetServiceAccountName ns)"
  unfolding getAppSetServiceAccountName_def searchAppSetAccount_def by (intro quiet.frame_rules list_quiet)

lemma role_binding_quiet: "state_io_rel quiet (getRoleBindingDuck ns)"
  unfolding getRoleBindingDuck_def by (intro quiet.frame_rules account_name_quiet)

text \<open>Accounts an ApplicationSet controller may run under: one of the namespace by its suffix, or the default name.\<close>

definition appset_account :: "string \<Rightarrow> string \<Rightarrow> world \<Rightarrow> bool" where
  "appset_account ns nm w \<longleftrightarrow> nm = defaultAppSetAccount
     \<or> (\<exists>a \<in> set (map snd (w_serviceaccounts w)). m_ns a = ns \<and> m_name a = nm \<and> has_suffix nm ''-applicationset-controller'')"

lemma search_account_run:
  assumes "run_state (searchAppSetAccount ns () label) w = (Inl nm, t)"
  shows "appset_account ns nm w"
proof -
  let ?p = "\<lambda>a. m_ns a = ns \<and> has_labels label (m_labels a)"
  let ?q = "\<lambda>a. has_suffix (m_name a) ''-applicationset-controller''"
  from assms have "nm = defaultAppSetAccount \<or> (\<exists>a. find ?q (filter ?p (map snd (w_serviceaccounts w))) = Some a \<and> nm = m_name a)"
    by (auto simp: searchAppSetAccount_def run_simps split: option.splits)
  then show ?thesis
    by (auto simp: appset_account_def dest!: find_SomeD)
qed

lemma account_name_run:
  assumes "run_state (getAppSetServiceAccountName ns) w = (nm, t)" shows "appset_account ns nm w"
proof -
  let ?a = "[(''app.kubernetes.io/part-of'', ''argocd-applicationset'')]" and ?b = "[(''app.kubernetes.io/part-of'', ''argocd'')]"
  obtain x u where x: "run_state (searchAppSetAccount ns () ?a) w = (x, u)" by (rule prod.exhaust)
  obtain y v where y: "run_state (searchAppSetAccount ns () ?b) u = (y, v)" by (rule prod.exhaust)
  have "quiet w u" by (rule state_io_relD [OF _ x]) (unfold searchAppSetAccount_def, intro quiet.frame_rules list_quiet)
  then have "appset_account ns n w = appset_account ns n u" for n by (simp add: appset_account_def quiet_sel)
  with assms x y search_account_run [of ns ?a w] search_account_run [of ns ?b u] show ?thesis
    by (auto simp: getAppSetServiceAccountName_def appset_account_def split: sum.splits)
qed

text \<open>errors of the lookups other than not found are dropped: the role and its binding are reported as
  created although neither lookup succeeded, nothing was created and nothing may exist.\<close>

theorem rbac_errors_dropped:
  assumes "w_verdicts w = [Some e1, Some e2]" and "\<not> is_not_found e1" and "\<not> is_not_found e2" and "ns \<noteq> []"
  shows "run_state (CreateApplicationSetRbac ns) w = (Inr (), w\<lparr>w_verdicts := []\<rparr>)"
  using assms by (simp add: CreateApplicationSetRbac_def run_simps verdict_def consume_def)

theorem rbac_errors_dropped_witness:
  "run_state (CreateApplicationSetRbac ''argo'')
     (empty_world\<lparr>w_verdicts := [Some (ErrText ''forbidden''), Some (ErrText ''forbidden'')]\<rparr>) = (Inr (), empty_world)"
  using rbac_errors_dropped [of "empty_world\<lparr>w_verdicts := [Some (ErrText ''forbidden''), Some (ErrText ''forbidden'')]\<rparr>"
      "ErrText ''forbidden''" "ErrText ''forbidden''" "''argo''"]
  by (simp add: empty_world_def)

text \<open>when nothing is rejected the role and the binding of ApplicationSets exist afterwards; one that was there is
  kept, a new role may only list placements, and a new binding gives it to one account of the namespace.\<close>

theorem applicationset_rbac:
  assumes "calm w" and "ns \<noteq> []" and "run_state (CreateApplicationSetRbac ns) w = (r, t)"
  shows "r = Inr ()
    \<and> map_of (w_roles t) (ns, ns @ RoleSuffix) =
        (case map_of (w_roles w) (ns, ns @ RoleSuffix) of Some x \<Rightarrow> Some x | None \<Rightarrow> Some (getRoleDuck ns))
    \<and> (\<exists>b. map_of (w_rolebindings t) (ns, ns @ RoleSuffix) = Some b
        \<and> (map_of (w_rolebindings w) (ns, ns @ RoleSuffix) = Some b
           \<or> map_of (w_rolebindings w) (ns, ns @ RoleSuffix) = None \<and> rb_role b = ns @ RoleSuffix
             \<and> (\<exists>nm. rb_subjects b = [\<lparr>sj_kind = ''ServiceAccount'', sj_name = nm, sj_ns = ns\<rparr>] \<and> appset_account ns nm w)))"
proof -
  let ?k = "(ns, ns @ RoleSuffix)"
  define w1 where "w1 = (case map_of (w_roles w) ?k of Some _ \<Rightarrow> consume w
     | None \<Rightarrow> w_roles_update (mset_key ?k (getRoleDuck ns)) (consume (consume w)))"
  have w1: "calm w1" "w_rolebindings w1 = w_rolebindings w" "w_serviceaccounts w1 = w_serviceaccounts w"
    "map_of (w_roles w1) ?k = (case map_of (w_roles w) ?k of Some x \<Rightarrow> Some x | None \<Rightarrow> Some (getRoleDuck ns))"
    using assms(1) by (auto simp: w1_def split: option.splits)
  have rest: "run_state (get_rolebinding ?k \<bind> case_sum
       (\<lambda>e. if is_not_found e then getRoleBindingDuck ns \<bind> create_rolebinding ?k else State_Monad.return (Inr ()))
       (\<lambda>x. State_Monad.return (Inr ()))) w1 = (r, t)"
    using assms by (cases "map_of (w_roles w) ?k") (simp_all add: CreateApplicationSetRbac_def roles.verb_run has_key_def w1_def)
  show ?thesis
  proof (cases "map_of (w_rolebindings w) ?k")
    case (Some b)
    with rest w1 show ?thesis by (auto simp: run_simps)
  next
    case None
    obtain nm u where u: "run_state (getAppSetServiceAccountName ns) (consume w1) = (nm, u)" by (rule prod.exhaust)
    have q: "quiet (consume w1) u" by (rule state_io_relD [OF account_name_quiet u])
    have "appset_account ns nm w" using account_name_run [OF u] w1(3) by (simp add: appset_account_def)
    with None rest w1 u quiet_sel [OF q] show ?thesis by (auto simp: getRoleBindingDuck_def run_simps has_key_def)
  qed
qed

text \<open>A secret of the namespace that holds an initial Redis password.\<close>

definition initial_password :: "string \<Rightarrow> string \<Rightarrow> world \<Rightarrow> bool" where
  "initial_password ns pw w \<longleftrightarrow> (\<exists>s \<in> set (map snd (w_secrets w)). m_ns (s_meta s) = ns
     \<and> has_suffix (m_name (s_meta s)) ''redis-initial-password'' \<and> map_of (s_data s) ''admin.password'' = Some pw)"

text \<open>under every failure, preparing the agent's Redis and JWT secrets overwrites nothing: an existing one is kept
  as it is, a missing one is created with the initial password of the same namespace or with the new
  key. When nothing is rejected, success means that the secret exists, and the key is always created.\<close>

theorem agent_secrets_ensured:
  assumes "run_state (ensureArgoCDRedisSecret ns) w = (r, t)" and "run_state (ensureArgoCDAgentJWTSecret (Inr pem) ns) w = (q, u)"
  defines "redis \<equiv> (or_gitops_namespace ns, ''argocd-redis'')" and "jwt \<equiv> (or_gitops_namespace ns, ''argocd-agent-jwt'')"
  shows "secrets.touches {redis} w t \<and> secrets.touches {jwt} w u
    \<and> (map_of (w_secrets t) redis = map_of (w_secrets w) redis
       \<or> map_of (w_secrets w) redis = None
         \<and> (\<exists>pw. initial_password (fst redis) pw w
              \<and> map_of (w_secrets t) redis = Some (gitops_secret ''argocd-redis'' (fst redis) [(''auth'', pw)])))
    \<and> (map_of (w_secrets u) jwt = map_of (w_secrets w) jwt
       \<or> map_of (w_secrets w) jwt = None
         \<and> map_of (w_secrets u) jwt = Some (gitops_secret ''argocd-agent-jwt'' (fst jwt) [(''jwt.key'', pem)]))
    \<and> (calm w \<longrightarrow> (r = Inr () \<longrightarrow> map_of (w_secrets t) redis \<noteq> None) \<and> q = Inr () \<and> map_of (w_secrets u) jwt \<noteq> None)"
proof -
  let ?ns = "or_gitops_namespace ns"
  have rt: "state_io_rel (secrets.touches {redis}) (ensureArgoCDRedisSecret ns)"
    unfolding ensureArgoCDRedisSecret_def unless_exists_def tolerate_existing_def Let_def create_secret_def redis_def
    by (intro secrets.touching.frame_rules secrets.get_touches secrets.list_touches secrets.create_touches)
       (simp add: skey_def gitops_secret_def)
  have jt: "state_io_rel (secrets.touches {jwt}) (ensureArgoCDAgentJWTSecret (Inr pem) ns)"
    unfolding ensureArgoCDAgentJWTSecret_def unless_exists_def tolerate_existing_def Let_def create_secret_def jwt_def
    by (intro secrets.touching.frame_rules secrets.get_touches secrets.create_touches)
       (simp_all add: skey_def gitops_secret_def)
  have key: "skey (gitops_secret nm ?ns d) = (?ns, nm)" "persist_secret (gitops_secret nm ?ns d) = gitops_secret nm ?ns d" for nm d
    by (simp_all add: skey_def gitops_secret_def persist_secret_def)
  have j: "(map_of (w_secrets u) jwt = map_of (w_secrets w) jwt
       \<or> map_of (w_secrets w) jwt = None
         \<and> map_of (w_secrets u) jwt = Some (gitops_secret ''argocd-agent-jwt'' (fst jwt) [(''jwt.key'', pem)]))
    \<and> (calm w \<longrightarrow> q = Inr () \<and> map_of (w_secrets u) jwt \<noteq> None)"
    using assms(2)
    by (auto simp: ensureArgoCDAgentJWTSecret_def unless_exists_def tolerate_existing_def Let_def run_simps jwt_def key
        has_key_def split: option.splits if_splits)
  have pw: "initial_password ?ns p w" if "find is_initial_password (filter (\<lambda>s. m_ns (s_meta s) = ?ns) (map snd (w_secrets w))) = Some s"
    "map_of (s_data s) ''admin.password'' = Some p" for s p
    using find_SomeD [OF that(1)] that(2) unfolding initial_password_def is_initial_password_def by auto
  have r: "(map_of (w_secrets t) redis = map_of (w_secrets w) redis
       \<or> map_of (w_secrets w) redis = None
         \<and> (\<exists>pw. initial_password (fst redis) pw w
              \<and> map_of (w_secrets t) redis = Some (gitops_secret ''argocd-redis'' (fst redis) [(''auth'', pw)])))
    \<and> (calm w \<longrightarrow> r = Inr () \<longrightarrow> map_of (w_secrets t) redis \<noteq> None)"
    using assms(1)
    by (auto simp: ensureArgoCDRedisSecret_def unless_exists_def tolerate_existing_def Let_def run_simps redis_def key
        has_key_def split: option.splits if_splits dest: pw)
  show ?thesis using j r state_io_relD [OF rt assms(1)] state_io_relD [OF jt assms(2)] by blast
qed

definition prepared_world :: world where
  "prepared_world = empty_world\<lparr>w_secrets := [((''argo'', ''x-redis-initial-password''),
     \<lparr>s_meta = plain_meta ''x-redis-initial-password'' ''argo'' [] [], s_type = ''Opaque'',
      s_data = [(''admin.password'', ''pw'')], s_string_data = []\<rparr>)]\<rparr>"

lemma prepared_calm: "calm prepared_world"
  by (simp add: prepared_world_def empty_world_def)

theorem applicationset_rbac_witness:
  "map_of (w_roles (snd (run_state (CreateApplicationSetRbac ''argo'') prepared_world)))
     (''argo'', ''argo'' @ RoleSuffix) = Some (getRoleDuck ''argo'')"
proof -
  obtain r t where run: "run_state (CreateApplicationSetRbac ''argo'') prepared_world = (r, t)" by (rule prod.exhaust)
  from applicationset_rbac [OF prepared_calm _ run] run show ?thesis
    by (simp add: prepared_world_def empty_world_def)
qed

theorem agent_secrets_ensured_witness:
  "map_of (w_secrets (snd (run_state (ensureArgoCDAgentJWTSecret (Inr ''KEY'') ''argo'') prepared_world)))
     (''argo'', ''argocd-agent-jwt'') = Some (gitops_secret ''argocd-agent-jwt'' ''argo'' [(''jwt.key'', ''KEY'')])"
proof -
  obtain r t where a: "run_state (ensureArgoCDRedisSecret ''argo'') prepared_world = (r, t)" by (rule prod.exhaust)
  obtain q u where b: "run_state (ensureArgoCDAgentJWTSecret (Inr ''KEY'') ''argo'') prepared_world = (q, u)" by (rule prod.exhaust)
  have "map_of (w_secrets prepared_world) (''argo'', ''argocd-agent-jwt'') = None" by (simp add: prepared_world_def)
  with agent_secrets_ensured [OF a b] b prepared_calm show ?thesis by (auto simp: or_gitops_namespace_def)
qed

end
