(* ===== verification/ServerDiscovery.thy ===== *)
theory ServerDiscovery
  imports AgentPrereqs
begin

text \<open>
  \<open>pkg/controller/gitopscluster/server_discovery.go\<close>: finding the services of the agent's principal and of
  its resource proxy, and the address under which clusters reach the principal: a Route, a load
  balancer or a node port, tried in this order. The GitOpsCluster in memory is changed by the
  discovery, so it is passed and returned. The uncached reader of the manager (\<open>apiReader\<close>), which is
  nil only in tests, is the API server.
\<close>

section \<open>Services\<close>

text \<open>One of the well-known names: \<open>Inl\<close> returns the service.\<close>

definition tryPrincipalName :: "string \<Rightarrow> unit \<Rightarrow> string \<Rightarrow> (world, service + unit) state" where
  "tryPrincipalName ns u nm = do {
     g \<leftarrow> get_service (ns, nm);
     State_Monad.return (case g of Inr svc \<Rightarrow> Inl svc | Inl e \<Rightarrow> Inr ())
   }"

definition FindArgoCDAgentPrincipalService :: "string \<Rightarrow> service api" where
  "FindArgoCDAgentPrincipalService ns = do {
     r \<leftarrow> loopE (tryPrincipalName ns) () [''openshift-gitops-agent-principal'', ''argocd-agent-principal''];
     case r of
       Inl svc \<Rightarrow> State_Monad.return (Inr svc)
     | Inr u \<Rightarrow> do {
         l \<leftarrow> list_services (\<lambda>s. m_ns (sv_meta s) = ns);
         State_Monad.return (case l of
           Inl e \<Rightarrow> Inl (Wrapped (''failed to list services in namespace '' @ [CHR 0x27] @ ns @ [CHR 0x27]) e)
         | Inr items \<Rightarrow>
             (case find (\<lambda>s. has_suffix (m_name (sv_meta s)) ''-agent-principal'') items of
                Some svc \<Rightarrow> Inr svc
              | None \<Rightarrow> Inl (ErrText (''ArgoCD agent principal service not found in namespace '' @ [CHR 0x27] @ ns @ [CHR 0x27] @
                  ''. Please ensure the ArgoCD instance has been deployed with agent mode enabled and the principal service is running''))))
       }
   }"

definition defaultResourceProxyServiceName :: string where
  "defaultResourceProxyServiceName = ''openshift-gitops-agent-principal-resource-proxy''"

definition resourceProxyPortFromService :: "service \<Rightarrow> int option" where
  "resourceProxyPortFromService svc = map_option sp_port (find (\<lambda>p. sp_name p = ''resource-proxy'') (sv_ports svc))"

fun first_proxy :: "service list \<Rightarrow> (service \<times> int) option" where
  "first_proxy [] = None"
| "first_proxy (s # ss) =
     (case resourceProxyPortFromService s of Some port \<Rightarrow> Some (s, port) | None \<Rightarrow> first_proxy ss)"

definition proxy_by_name :: "goerr + service \<Rightarrow> (service \<times> int) option" where
  "proxy_by_name g = (case g of Inl e \<Rightarrow> None | Inr svc \<Rightarrow> map_option (Pair svc) (resourceProxyPortFromService svc))"

definition FindArgoCDAgentResourceProxyService :: "string \<Rightarrow> (service \<times> int) api" where
  "FindArgoCDAgentResourceProxyService ns = do {
     g \<leftarrow> get_service (ns, defaultResourceProxyServiceName);
     case proxy_by_name g of
       Some sp \<Rightarrow> State_Monad.return (Inr sp)
     | None \<Rightarrow> do {
         l \<leftarrow> list_services (\<lambda>s. m_ns (sv_meta s) = ns \<and>
                has_labels [(''app.kubernetes.io/part-of'', ''argocd-agent'')] (m_labels (sv_meta s)));
         State_Monad.return (case l of
           Inl e \<Rightarrow> Inl (Wrapped (''failed to list argocd-agent services in namespace '' @ [CHR 0x27] @ ns @ [CHR 0x27]) e)
         | Inr items \<Rightarrow>
             (case first_proxy items of
                Some sp \<Rightarrow> Inr sp
              | None \<Rightarrow> Inl (ErrText (''ArgoCD agent resource-proxy service not found in namespace '' @
                  [CHR 0x27] @ ns @ [CHR 0x27]))))
       }
   }"

section \<open>Existing configuration\<close>

definition is_server_var :: "custom_var \<Rightarrow> bool" where
  "is_server_var v \<longleftrightarrow> cv_name v = ''ARGOCD_AGENT_SERVER_ADDRESS'' \<and> cv_value v \<noteq> []
     \<or> cv_name v = ''ARGOCD_AGENT_SERVER_PORT'' \<and> cv_value v \<noteq> []"

text \<open>The loop over the clusters returns early (\<open>Inl\<close>) with an error or with \<open>true\<close>.\<close>

definition serverConfigOf :: "unit \<Rightarrow> managed_cluster \<Rightarrow> (world, (goerr + bool) + unit) state" where
  "serverConfigOf u c = do {
     g \<leftarrow> get_adc (mc_name c, ''gitops-addon-config'');
     State_Monad.return (case g of
       Inl e \<Rightarrow> if is_not_found e then Inr ()
                else Inl (Inl (Wrapped (''failed to get AddOnDeploymentConfig in namespace '' @ mc_name c) e))
     | Inr existing \<Rightarrow> if list_ex is_server_var (dc_vars existing) then Inl (Inr True) else Inr ())
   }"

definition HasExistingServerConfig :: "managed_cluster list \<Rightarrow> bool api" where
  "HasExistingServerConfig clusters = do {
     r \<leftarrow> loopE serverConfigOf () clusters;
     State_Monad.return (case r of Inl res \<Rightarrow> res | Inr u \<Rightarrow> Inr False)
   }"

section \<open>Discovery\<close>

definition is_agent_part :: "string \<Rightarrow> route \<Rightarrow> bool" where
  "is_agent_part ns r \<longleftrightarrow>
     m_ns (rt_meta r) = ns \<and> has_labels [(''app.kubernetes.io/part-of'', ''argocd-agent'')] (m_labels (rt_meta r))"

definition discoverFromRoute :: "string \<Rightarrow> (string \<times> string) api" where
  "discoverFromRoute ns = do {
     l \<leftarrow> list_routes (is_agent_part ns);
     State_Monad.return (case l of
       Inl e \<Rightarrow>
         if is_not_found e \<or> str_contains (err_text e) ''no matches for kind''
         then Inl (Wrapped ''Route API not available (not an OpenShift cluster)'' e)
         else Inl (Wrapped ''failed to list routes'' e)
     | Inr [] \<Rightarrow> Inl (ErrText (''no ArgoCD agent principal route found in namespace '' @ ns))
     | Inr (r0 # rs) \<Rightarrow>
         (let r = (case find (\<lambda>r. str_contains (m_name (rt_meta r)) ''principal'') (r0 # rs) of Some r \<Rightarrow> r | None \<Rightarrow> r0) in
          if rt_host r = [] then Inl (ErrText (''route '' @ ns @ ''/'' @ m_name (rt_meta r) @ '' has no host configured''))
          else Inr (rt_host r, if \<not> rt_tls r then ''80'' else ''443'')))
   }"

fun ingress_address :: "(string \<times> string) list \<Rightarrow> string" where
  "ingress_address [] = []"
| "ingress_address ((hostname, ip) # is) =
     (if hostname \<noteq> [] then hostname else if ip \<noteq> [] then ip else ingress_address is)"

definition is_https :: "service_port \<Rightarrow> bool" where
  "is_https p \<longleftrightarrow> sp_name p = ''https'' \<or> sp_port p = 443"

definition service_port_text :: "service \<Rightarrow> string option" where
  "service_port_text svc =
     (case find is_https (sv_ports svc) of
        Some p \<Rightarrow> Some (itoa (sp_port p))
      | None \<Rightarrow> (case sv_ports svc of p # ps \<Rightarrow> Some (itoa (sp_port p)) | [] \<Rightarrow> None))"

definition discoverFromLoadBalancer :: "string \<Rightarrow> (string \<times> string) api" where
  "discoverFromLoadBalancer ns = do {
     f \<leftarrow> FindArgoCDAgentPrincipalService ns;
     State_Monad.return (case f of
       Inl e \<Rightarrow> Inl (Wrapped ''failed to find ArgoCD agent principal service'' e)
     | Inr svc \<Rightarrow>
         (let addr = ingress_address (sv_ingress svc) in
          if addr = [] then Inl (ErrText (''ArgoCD agent principal service '' @ [CHR 0x27] @ m_name (sv_meta svc) @
            [CHR 0x27] @ '' in namespace '' @ [CHR 0x27] @ ns @ [CHR 0x27] @ '' does not have an external LoadBalancer IP or hostname''))
          else
            (case service_port_text svc of
               Some port \<Rightarrow> Inr (addr, port)
             | None \<Rightarrow> Inl (ErrText (''ArgoCD agent principal service '' @ [CHR 0x27] @ m_name (sv_meta svc) @ [CHR 0x27] @
                 '' has no ports defined'')))))
   }"

definition node_port :: "service \<Rightarrow> int" where
  "node_port svc =
     (case find (\<lambda>p. sp_nodePort p \<noteq> 0 \<and> (sp_port p = 443 \<or> sp_name p = ''https'')) (sv_ports svc) of
        Some p \<Rightarrow> sp_nodePort p
      | None \<Rightarrow> (case find (\<lambda>p. sp_nodePort p \<noteq> 0) (sv_ports svc) of Some p \<Rightarrow> sp_nodePort p | None \<Rightarrow> 0))"

definition node_ready :: "node \<Rightarrow> bool" where
  "node_ready n \<longleftrightarrow> list_ex (\<lambda>(t, s). t = ''Ready'' \<and> s = CTrue) (nd_conditions n)"

fun node_address :: "node list \<Rightarrow> string" where
  "node_address [] = []"
| "node_address (n # ns) =
     (if \<not> node_ready n then node_address ns
      else (case find (\<lambda>(t, a). t = ''InternalIP'') (nd_addresses n) of
              Some (t, a) \<Rightarrow> if a \<noteq> [] then a else node_address ns
            | None \<Rightarrow> node_address ns))"

definition discoverFromNodePort :: "string \<Rightarrow> (string \<times> string) api" where
  "discoverFromNodePort ns = do {
     f \<leftarrow> FindArgoCDAgentPrincipalService ns;
     case f of
       Inl e \<Rightarrow> State_Monad.return (Inl (Wrapped ''failed to find ArgoCD agent principal service'' e))
     | Inr svc \<Rightarrow>
         (if sv_type svc \<noteq> ''NodePort'' \<and> sv_type svc \<noteq> ''LoadBalancer'' then
            State_Monad.return (Inl (ErrText (''ArgoCD agent principal service '' @ [CHR 0x27] @ m_name (sv_meta svc) @ [CHR 0x27] @
              '' is not NodePort or LoadBalancer type (type='' @ sv_type svc @ '')'')))
          else if node_port svc = 0 then
            State_Monad.return (Inl (ErrText (''ArgoCD agent principal service '' @ [CHR 0x27] @ m_name (sv_meta svc) @ [CHR 0x27] @
              '' has no NodePort assigned'')))
          else do {
            l \<leftarrow> list_nodes (\<lambda>_. True);
            State_Monad.return (case l of
              Inl e \<Rightarrow> Inl (Wrapped ''failed to list nodes'' e)
            | Inr items \<Rightarrow>
                if items = [] then Inl (ErrText ''no nodes found in cluster'')
                else if node_address items = [] then Inl (ErrText ''no InternalIP found on any ready node'')
                else Inr (node_address items, itoa (node_port svc)))
          })
   }"

definition server_configured :: "gitops_cluster \<Rightarrow> bool" where
  "server_configured g \<longleftrightarrow>
     (case agent_of g of None \<Rightarrow> False | Some a \<Rightarrow> ag_server_address a \<noteq> [] \<and> ag_server_port a \<noteq> [])"

definition empty_agent :: agent_spec where
  "empty_agent = \<lparr>ag_enabled = None, ag_propagate_ca = None, ag_server_address = [], ag_server_port = [], ag_mode = []\<rparr>"

definition empty_addon :: addon_spec where
  "empty_addon = \<lparr>ad_enabled = None, ad_operator_image = [], ad_agent = None, ad_override = None, ad_olm = None\<rparr>"

definition with_server :: "string \<Rightarrow> string \<Rightarrow> gitops_cluster \<Rightarrow> gitops_cluster" where
  "with_server addr port g =
     (let addon = (case gs_addon (gc_spec g) of Some a \<Rightarrow> a | None \<Rightarrow> empty_addon);
          agent = (case ad_agent addon of Some a \<Rightarrow> a | None \<Rightarrow> empty_agent) in
      g\<lparr>gc_spec := (gc_spec g)\<lparr>gs_addon :=
          Some (addon\<lparr>ad_agent := Some (agent\<lparr>ag_server_address := addr, ag_server_port := port\<rparr>)\<rparr>)\<rparr>\<rparr>)"

text \<open>
  \<open>client.Update\<close> of a GitOpsCluster, which has a status subresource: the stored status is kept, and
  the object in memory becomes what the server returns.
\<close>

definition update_cluster :: "gitops_cluster \<Rightarrow> gitops_cluster api" where
  "update_cluster g = request (\<lambda>w.
     let k = (m_ns (gc_meta g), m_name (gc_meta g)) in
     case map_of (w_gitops w) k of
       None \<Rightarrow> (Inl (not_found ''gitopsclusters'' k), w)
     | Some old \<Rightarrow>
         (let new = g\<lparr>gc_status := gc_status old\<rparr> in (Inr new, w_gitops_update (mset_key k new) w)))"

definition discoverEndpoint :: "string \<Rightarrow> (string \<times> string) api" where
  "discoverEndpoint ns = do {
     a \<leftarrow> discoverFromRoute ns;
     case a of
       Inr ep \<Rightarrow> State_Monad.return (Inr ep)
     | Inl e1 \<Rightarrow> do {
         b \<leftarrow> discoverFromLoadBalancer ns;
         case b of
           Inr ep \<Rightarrow> State_Monad.return (Inr ep)
         | Inl e2 \<Rightarrow> do {
             c \<leftarrow> discoverFromNodePort ns;
             State_Monad.return (case c of
               Inr ep \<Rightarrow> Inr ep
             | Inl e3 \<Rightarrow> Inl (Wrapped ''failed to discover ArgoCD agent principal endpoint (tried Route, LoadBalancer, and NodePort)'' e3))
           }
       }
   }"

definition DiscoverServerAddressAndPort :: "gitops_cluster \<Rightarrow> (world, gitops_cluster \<times> (goerr + unit)) state" where
  "DiscoverServerAddressAndPort g =
     (if server_configured g then State_Monad.return (g, Inr ())
      else do {
        ep \<leftarrow> discoverEndpoint (or_gitops_namespace (gs_argo_ns (gc_spec g)));
        case ep of
          Inl e \<Rightarrow> State_Monad.return (g, Inl e)
        | Inr (addr, port) \<Rightarrow> do {
            u \<leftarrow> update_cluster (with_server addr port g);
            State_Monad.return (case u of
              Inl e \<Rightarrow> (with_server addr port g, Inl (Wrapped ''failed to update GitOpsCluster with discovered server address and port'' e))
            | Inr new \<Rightarrow> (new, Inr ()))
          }
      })"

definition EnsureServerAddressAndPort :: "gitops_cluster \<Rightarrow> (world, gitops_cluster \<times> (goerr + bool)) state" where
  "EnsureServerAddressAndPort g = do {
     (g', r) \<leftarrow> DiscoverServerAddressAndPort g;
     State_Monad.return (g', case r of Inl e \<Rightarrow> Inl e | Inr u \<Rightarrow> Inr (\<not> server_configured g))
   }"

section \<open>Facts\<close>

lemma principal_quiet: "state_io_rel quiet (FindArgoCDAgentPrincipalService ns)"
  unfolding FindArgoCDAgentPrincipalService_def tryPrincipalName_def by (intro quiet.frame_rules get_quiet list_quiet)

lemma proxy_quiet: "state_io_rel quiet (FindArgoCDAgentResourceProxyService ns)"
  unfolding FindArgoCDAgentResourceProxyService_def by (intro quiet.frame_rules get_quiet list_quiet)

lemma endpoint_quiet: "state_io_rel quiet (discoverEndpoint ns)"
  unfolding discoverEndpoint_def discoverFromRoute_def discoverFromLoadBalancer_def discoverFromNodePort_def
  by (intro quiet.frame_rules principal_quiet list_quiet)

text \<open>The services that may be the principal's: of the namespace, with the suffix of the operator's names.\<close>

definition principal_service :: "string \<Rightarrow> world \<Rightarrow> service \<Rightarrow> bool" where
  "principal_service ns w s \<longleftrightarrow> s \<in> set (map snd (w_services w)) \<and> m_ns (sv_meta s) = ns
     \<and> has_suffix (m_name (sv_meta s)) ''-agent-principal''"

lemma well_known_suffix:
  "has_suffix ''openshift-gitops-agent-principal'' ''-agent-principal''" "has_suffix ''argocd-agent-principal'' ''-agent-principal''"
  by code_simp+

lemma stored_in: "map_of st k = Some x \<Longrightarrow> x \<in> set (map snd st)"
  by (force dest: map_of_SomeD)

lemma try_name_run:
  assumes "run_state (tryPrincipalName ns () nm) w = (Inl svc, t)" and "keyed sv_meta (w_services w)"
    and "has_suffix nm ''-agent-principal''"
  shows "principal_service ns w svc"
proof -
  have m: "map_of (w_services w) (ns, nm) = Some svc"
    using assms(1) by (auto simp: tryPrincipalName_def run_simps split: option.splits sum.splits)
  from keyedD [OF assms(2) m] stored_in [OF m] assms(3) show ?thesis by (auto simp: principal_service_def)
qed

lemma principal_run:
  assumes "run_state (FindArgoCDAgentPrincipalService ns) w = (Inr svc, t)" and "keyed sv_meta (w_services w)"
  shows "principal_service ns w svc"
proof -
  obtain x u where x: "run_state (tryPrincipalName ns () ''openshift-gitops-agent-principal'') w = (x, u)" by (rule prod.exhaust)
  obtain y v where y: "run_state (tryPrincipalName ns () ''argocd-agent-principal'') u = (y, v)" by (rule prod.exhaust)
  have tq: "state_io_rel quiet (tryPrincipalName ns () nm)" for nm
    unfolding tryPrincipalName_def by (intro quiet.frame_rules get_quiet)
  have s: "w_services u = w_services w" "w_services v = w_services u"
    using quiet_sel(4) state_io_relD [OF tq x] state_io_relD [OF tq y] by blast+
  have k: "keyed sv_meta (w_services u)" using assms(2) s by simp
  have "(\<exists>s. x = Inl s \<and> s = svc) \<or> (\<exists>s. y = Inl s \<and> s = svc)
      \<or> find (\<lambda>s. has_suffix (m_name (sv_meta s)) ''-agent-principal'') (filter (\<lambda>s. m_ns (sv_meta s) = ns) (map snd (w_services v))) = Some svc"
    using assms(1) x y
    by (auto simp: FindArgoCDAgentPrincipalService_def run_simps split: sum.splits option.splits)
  then show ?thesis
  proof (elim disjE exE conjE)
    fix s assume "x = Inl s" "s = svc"
    with x show ?thesis using try_name_run [OF _ assms(2) well_known_suffix(1)] by blast
  next
    fix s assume "y = Inl s" "s = svc"
    then have "principal_service ns u svc" using y try_name_run [OF _ k well_known_suffix(2)] by blast
    then show ?thesis by (simp add: principal_service_def s)
  next
    assume "find (\<lambda>s. has_suffix (m_name (sv_meta s)) ''-agent-principal'') (filter (\<lambda>s. m_ns (sv_meta s) = ns) (map snd (w_services v))) = Some svc"
    from find_SomeD [OF this] s show ?thesis by (auto simp: principal_service_def)
  qed
qed

text \<open>Where a discovered address and port may come from.\<close>

definition reachable_at :: "string \<Rightarrow> world \<Rightarrow> string \<Rightarrow> string \<Rightarrow> bool" where
  "reachable_at ns w addr port \<longleftrightarrow>
     (\<exists>r \<in> set (map snd (w_routes w)). is_agent_part ns r \<and> rt_host r = addr \<and> port = (if rt_tls r then ''443'' else ''80''))
     \<or> (\<exists>s i p. principal_service ns w s \<and> i \<in> set (sv_ingress s) \<and> (addr = fst i \<or> addr = snd i)
          \<and> p \<in> set (sv_ports s) \<and> port = itoa (sp_port p))
     \<or> (\<exists>s p n. principal_service ns w s \<and> p \<in> set (sv_ports s) \<and> sp_nodePort p \<noteq> 0 \<and> port = itoa (sp_nodePort p)
          \<and> n \<in> set (map snd (w_nodes w)) \<and> node_ready n \<and> (''InternalIP'', addr) \<in> set (nd_addresses n))"

lemma ingress_some: "ingress_address is \<noteq> [] \<Longrightarrow> \<exists>i \<in> set is. ingress_address is = fst i \<or> ingress_address is = snd i"
  by (induction "is" rule: ingress_address.induct) (auto split: if_splits)

lemma node_some:
  "node_address ns \<noteq> [] \<Longrightarrow> \<exists>n \<in> set ns. node_ready n \<and> (''InternalIP'', node_address ns) \<in> set (nd_addresses n)"
  by (induction ns) (auto dest!: find_SomeD split: if_splits option.splits)

lemma port_text_some: "service_port_text s = Some port \<Longrightarrow> \<exists>p \<in> set (sv_ports s). port = itoa (sp_port p)"
  by (auto simp: service_port_text_def dest!: find_SomeD split: option.splits list.splits)

lemma node_port_some: "node_port s \<noteq> 0 \<Longrightarrow> \<exists>p \<in> set (sv_ports s). sp_nodePort p \<noteq> 0 \<and> node_port s = sp_nodePort p"
  by (auto simp: node_port_def dest!: find_SomeD split: option.splits)

lemma itoa_nonempty [simp]: "itoa i \<noteq> []"
  by (simp add: itoa_def)

lemma reachable_balancer:
  "principal_service ns w s \<Longrightarrow> i \<in> set (sv_ingress s) \<Longrightarrow> addr = fst i \<or> addr = snd i \<Longrightarrow> p \<in> set (sv_ports s) \<Longrightarrow>
    reachable_at ns w addr (itoa (sp_port p))"
  unfolding reachable_at_def by blast

lemma reachable_node:
  "principal_service ns w s \<Longrightarrow> p \<in> set (sv_ports s) \<Longrightarrow> sp_nodePort p \<noteq> 0 \<Longrightarrow> n \<in> set (map snd (w_nodes w)) \<Longrightarrow>
    node_ready n \<Longrightarrow> (''InternalIP'', addr) \<in> set (nd_addresses n) \<Longrightarrow> reachable_at ns w addr (itoa (sp_nodePort p))"
  unfolding reachable_at_def by blast

definition endpoint_good :: "string \<Rightarrow> world \<Rightarrow> string \<times> string \<Rightarrow> bool" where
  "endpoint_good ns w ep \<longleftrightarrow> fst ep \<noteq> [] \<and> snd ep \<noteq> [] \<and> reachable_at ns w (fst ep) (snd ep)"

lemma endpoint_good_quiet: "quiet w u \<Longrightarrow> endpoint_good ns u ep = endpoint_good ns w ep"
  by (simp add: endpoint_good_def reachable_at_def principal_service_def quiet_sel)

lemma chosen_in: "(case find P (r # rs) of Some x \<Rightarrow> x | None \<Rightarrow> r) \<in> set (r # rs)"
proof (cases "find P (r # rs)")
  case None
  then show ?thesis by (simp only: option.case list.set_intros)
next
  case (Some x)
  from find_SomeD [OF this] show ?thesis unfolding Some option.case by blast
qed

lemma route_run:
  assumes "run_state (discoverFromRoute ns) w = (Inr ep, t)" shows "endpoint_good ns w ep"
proof -
  let ?rs = "filter (is_agent_part ns) (map snd (w_routes w))"
  let ?P = "\<lambda>r. str_contains (m_name (rt_meta r)) ''principal''"
  have v: "verdict w = None" using assms by (auto simp: discoverFromRoute_def run_simps split: option.splits if_splits)
  show ?thesis
  proof (cases ?rs)
    case Nil
    with assms v show ?thesis by (simp add: discoverFromRoute_def run_simps)
  next
    case (Cons r0 rs)
    define r where "r = (case find ?P (r0 # rs) of Some x \<Rightarrow> x | None \<Rightarrow> r0)"
    have "r \<in> set ?rs" unfolding Cons r_def by (rule chosen_in)
    moreover have "rt_host r \<noteq> []" "ep = (rt_host r, if \<not> rt_tls r then ''80'' else ''443'')"
      using assms v Cons by (auto simp: discoverFromRoute_def routes.list_run Let_def r_def [symmetric] simp del: find.simps split: if_splits)
    ultimately show ?thesis by (auto simp: endpoint_good_def reachable_at_def)
  qed
qed

lemma balancer_run:
  assumes "run_state (discoverFromLoadBalancer ns) w = (Inr ep, t)" and "keyed sv_meta (w_services w)"
  shows "endpoint_good ns w ep"
proof -
  obtain f u where f: "run_state (FindArgoCDAgentPrincipalService ns) w = (f, u)" by (rule prod.exhaust)
  from assms(1) f obtain s port where s: "f = Inr s" "ingress_address (sv_ingress s) \<noteq> []" "service_port_text s = Some port"
    "ep = (ingress_address (sv_ingress s), port)"
    by (auto simp: discoverFromLoadBalancer_def Let_def split: sum.splits if_splits option.splits)
  have "principal_service ns w s" using principal_run [OF _ assms(2)] f s(1) by blast
  moreover obtain i where "i \<in> set (sv_ingress s)"
    "ingress_address (sv_ingress s) = fst i \<or> ingress_address (sv_ingress s) = snd i"
    using ingress_some [OF s(2)] by blast
  moreover obtain p where "p \<in> set (sv_ports s)" "port = itoa (sp_port p)" using port_text_some [OF s(3)] by blast
  ultimately have "reachable_at ns w (ingress_address (sv_ingress s)) port" using reachable_balancer by blast
  with s \<open>port = itoa (sp_port p)\<close> show ?thesis by (simp add: endpoint_good_def)
qed

lemma node_run:
  assumes "run_state (discoverFromNodePort ns) w = (Inr ep, t)" and "keyed sv_meta (w_services w)"
  shows "endpoint_good ns w ep"
proof -
  obtain f u where f: "run_state (FindArgoCDAgentPrincipalService ns) w = (f, u)" by (rule prod.exhaust)
  have q: "quiet w u" by (rule state_io_relD [OF principal_quiet f])
  from assms(1) f quiet_sel(24) [OF q] obtain s where s: "f = Inr s" "node_port s \<noteq> 0" "node_address (map snd (w_nodes w)) \<noteq> []"
    "ep = (node_address (map snd (w_nodes w)), itoa (node_port s))"
    by (auto simp: discoverFromNodePort_def run_simps split: sum.splits if_splits option.splits)
  have "principal_service ns w s" using principal_run [OF _ assms(2)] f s(1) by blast
  moreover obtain p where "p \<in> set (sv_ports s)" "sp_nodePort p \<noteq> 0" "node_port s = sp_nodePort p"
    using node_port_some [OF s(2)] by blast
  moreover obtain n where "n \<in> set (map snd (w_nodes w))" "node_ready n"
    "(''InternalIP'', node_address (map snd (w_nodes w))) \<in> set (nd_addresses n)"
    using node_some [OF s(3)] by blast
  ultimately have "reachable_at ns w (node_address (map snd (w_nodes w))) (itoa (node_port s))"
    using reachable_node by metis
  with s show ?thesis by (simp add: endpoint_good_def)
qed

lemma discover_run:
  assumes "run_state (discoverEndpoint ns) w = (Inr ep, t)" and "keyed sv_meta (w_services w)"
  shows "endpoint_good ns w ep"
proof -
  obtain x u where x: "run_state (discoverFromRoute ns) w = (x, u)" by (rule prod.exhaust)
  obtain y v where y: "run_state (discoverFromLoadBalancer ns) u = (y, v)" by (rule prod.exhaust)
  obtain z q where z: "run_state (discoverFromNodePort ns) v = (z, q)" by (rule prod.exhaust)
  have "state_io_rel quiet (discoverFromRoute ns)" "state_io_rel quiet (discoverFromLoadBalancer ns)"
    unfolding discoverFromRoute_def discoverFromLoadBalancer_def by (intro quiet.frame_rules principal_quiet list_quiet)+
  with x y have q: "quiet w u" "quiet u v" by (auto dest: state_io_relD)
  have k: "keyed sv_meta (w_services u)" "keyed sv_meta (w_services v)" using assms(2) q by (simp_all add: quiet_sel)
  have "x = Inr ep \<or> y = Inr ep \<or> z = Inr ep"
    using assms(1) x y z by (auto simp: discoverEndpoint_def split: sum.splits)
  then show ?thesis
    using route_run balancer_run [OF _ k(1)] node_run [OF _ k(2)] x y z
      endpoint_good_quiet [OF q(1)] endpoint_good_quiet [OF q(2)] by blast
qed

definition gkey :: "gitops_cluster \<Rightarrow> nsname" where
  "gkey g = (m_ns (gc_meta g), m_name (gc_meta g))"

lemma update_cluster_run:
  "run_state (update_cluster g) w =
     (case verdict w of
        Some e \<Rightarrow> (Inl e, consume w)
      | None \<Rightarrow> (case map_of (w_gitops w) (gkey g) of
            None \<Rightarrow> (Inl (not_found ''gitopsclusters'' (gkey g)), consume w)
          | Some old \<Rightarrow> (Inr (g\<lparr>gc_status := gc_status old\<rparr>),
              w_gitops_update (mset_key (gkey g) (g\<lparr>gc_status := gc_status old\<rparr>)) (consume w))))"
  by (auto simp: update_cluster_def request_run Let_def gkey_def split: option.splits)

lemma update_cluster_touches: "state_io_rel (gitops.touches {gkey g}) (update_cluster g)"
  by (auto intro!: state_io_relI gitops.touches_consume gitops.touches_upd
      simp: update_cluster_run changes_only_def split: option.splits)

lemma with_server_simps [simp]:
  "gkey (with_server a p g) = gkey g" "gc_meta (with_server a p g) = gc_meta g" "gc_status (with_server a p g) = gc_status g"
  "agent_of (with_server a p g) = Some ((case agent_of g of Some ag \<Rightarrow> ag | None \<Rightarrow> empty_agent)\<lparr>ag_server_address := a, ag_server_port := p\<rparr>)"
  "gc_status (g\<lparr>gc_status := st\<rparr>) = st" "agent_of (g\<lparr>gc_status := st\<rparr>) = agent_of g"
  by (auto simp: with_server_def gkey_def Let_def agent_of_def empty_addon_def split: option.splits)

text \<open>under every failure, discovery writes nothing but the GitOpsCluster, and nothing at all when address and
  port are both set. When it succeeds both are non-empty, and newly discovered ones belong to a Route of
  the agent, to a load balancer or a node port of a principal service in the Argo CD namespace; the rest of the agent's
  specification is kept, but an address that was set without a port is replaced.\<close>

theorem discovery_sound:
  assumes "keyed sv_meta (w_services w)" and "run_state (DiscoverServerAddressAndPort g) w = ((g', r), t)"
  shows "gitops.touches {gkey g} w t \<and> gc_meta g' = gc_meta g
    \<and> (server_configured g \<longrightarrow> g' = g \<and> r = Inr () \<and> t = w)
    \<and> (r = Inr () \<longrightarrow> server_configured g')
    \<and> (\<not> server_configured g \<and> r = Inr () \<longrightarrow>
         (\<exists>addr port. reachable_at (or_gitops_namespace (gs_argo_ns (gc_spec g))) w addr port
            \<and> agent_of g' = Some ((case agent_of g of Some ag \<Rightarrow> ag | None \<Rightarrow> empty_agent)
                                    \<lparr>ag_server_address := addr, ag_server_port := port\<rparr>)
            \<and> map_of (w_gitops t) (gkey g) = Some g'))"
proof (cases "server_configured g")
  case True
  with assms(2) show ?thesis by (auto simp: DiscoverServerAddressAndPort_def gitops.touches_refl)
next
  case False
  let ?ns = "or_gitops_namespace (gs_argo_ns (gc_spec g))"
  obtain x u where x: "run_state (discoverEndpoint ?ns) w = (x, u)" by (rule prod.exhaust)
  have q: "quiet w u" by (rule state_io_relD [OF endpoint_quiet x])
  show ?thesis
  proof (cases x)
    case (Inl e)
    with False x assms(2) q show ?thesis by (auto simp: DiscoverServerAddressAndPort_def gitops.quiet_touches)
  next
    case (Inr ep)
    obtain a p where ep: "ep = (a, p)" by (rule prod.exhaust)
    have good: "endpoint_good ?ns w (a, p)" using discover_run [OF _ assms(1)] x Inr ep by blast
    obtain y v where y: "run_state (update_cluster (with_server a p g)) u = (y, v)" by (rule prod.exhaust)
    have t: "t = v" "gitops.touches {gkey g} w v"
      using False x y Inr ep assms(2) state_io_relD [OF update_cluster_touches y]
        gitops.touches_trans [OF gitops.quiet_touches [OF q]]
      by (auto simp: DiscoverServerAddressAndPort_def)
    have r: "g' = (case y of Inl e \<Rightarrow> with_server a p g | Inr new \<Rightarrow> new)" "r = Inr () \<longleftrightarrow> (\<exists>new. y = Inr new)"
      using False x y Inr ep assms(2) by (auto simp: DiscoverServerAddressAndPort_def split: sum.splits)
    show ?thesis
    proof (cases y)
      case (Inl e)
      with r t False show ?thesis by simp
    next
      case (Inr new)
      then have "\<exists>st. new = (with_server a p g)\<lparr>gc_status := st\<rparr>" "map_of (w_gitops v) (gkey g) = Some new"
        using y by (auto simp: update_cluster_run split: option.splits)
      with r t False good Inr show ?thesis
        by (auto simp: server_configured_def endpoint_good_def split: option.splits)
    qed
  qed
qed

definition half_configured :: gitops_cluster where
  "half_configured = sample_gitops\<lparr>gc_spec := (gc_spec sample_gitops)\<lparr>gs_addon :=
     Some (empty_addon\<lparr>ad_enabled := Some True,
       ad_agent := Some (empty_agent\<lparr>ag_enabled := Some True, ag_server_address := ''10.0.0.1''\<rparr>)\<rparr>)\<rparr>\<rparr>"

definition route_world :: world where
  "route_world = empty_world\<lparr>
     w_routes := [((''argo'', ''principal''),
       \<lparr>rt_meta = plain_meta ''principal'' ''argo'' [(''app.kubernetes.io/part-of'', ''argocd-agent'')] [],
        rt_host = ''agent.example.com'', rt_tls = True\<rparr>)],
     w_gitops := [((''team'', ''gc''), half_configured)]\<rparr>"

lemma route_world_run:
  "run_state (discoverFromRoute ''argo'') route_world = (Inr (''agent.example.com'', ''443''), route_world)"
  by (simp add: discoverFromRoute_def run_simps route_world_def empty_world_def verdict_def consume_def is_agent_part_def
      has_labels_def str_contains_def has_prefix_def)

theorem discovery_sound_witness:
  "agent_of (fst (fst (run_state (DiscoverServerAddressAndPort half_configured) route_world)))
     = Some (empty_agent\<lparr>ag_enabled := Some True, ag_server_address := ''agent.example.com'', ag_server_port := ''443''\<rparr>)"
proof -
  obtain g' r t where run: "run_state (DiscoverServerAddressAndPort half_configured) route_world = ((g', r), t)"
    by (metis prod.exhaust)
  have a: "agent_of half_configured = Some (empty_agent\<lparr>ag_enabled := Some True, ag_server_address := ''10.0.0.1''\<rparr>)"
    by (simp add: half_configured_def agent_of_def empty_addon_def)
  then have no: "\<not> server_configured half_configured" by (simp add: server_configured_def empty_agent_def)
  have "gs_argo_ns (gc_spec half_configured) = ''argo''" "gkey half_configured = (''team'', ''gc'')"
    by (simp_all add: half_configured_def sample_gitops_def gkey_def)
  with run no have ok: "r = Inr ()"
    by (auto simp: DiscoverServerAddressAndPort_def discoverEndpoint_def or_gitops_namespace_def route_world_run update_cluster_run)
       (auto simp: route_world_def empty_world_def verdict_def)
  have "keyed sv_meta (w_services route_world)" by (simp add: route_world_def empty_world_def)
  from discovery_sound [OF this run] no ok a obtain addr port where
    "reachable_at ''argo'' route_world addr port" "agent_of g' = Some (empty_agent\<lparr>ag_enabled := Some True, ag_server_address := addr, ag_server_port := port\<rparr>)"
    using \<open>gs_argo_ns (gc_spec half_configured) = ''argo''\<close> by (auto simp: or_gitops_namespace_def empty_agent_def)
  with run show ?thesis by (auto simp: reachable_at_def principal_service_def route_world_def empty_world_def)
qed

end
