(* ===== verification/HubCA.thy ===== *)
theory HubCA
  imports AgentPrereqs
begin

text \<open>
  \<open>pkg/controller/gitopscluster/propagate_hub_ca.go\<close>: the CA certificate of the Argo CD agent is
  wrapped into one ManifestWork per managed cluster, which the cluster's work agent applies. The
  secret inside a stored work is read back with \<open>encoding/json\<close>; its fields other than the namespace and
  the data are taken to have the types of the API.
\<close>

section \<open>Reading a secret back\<close>

text \<open>A struct field is matched whatever the case of its key; the last key counts.\<close>

definition json_field :: "string \<Rightarrow> jobj \<Rightarrow> json option" where
  "json_field nm m = fold (\<lambda>(k, v) found. if equal_fold k nm then Some v else found) m None"

fun json_bytes :: "string \<times> json \<Rightarrow> (string \<times> string) option" where
  "json_bytes (k, JStr s) = map_option (Pair k) (base64_decode s)"
| "json_bytes (k, JNull) = Some (k, [])"
| "json_bytes (k, v) = None"

definition decode_data :: "json option \<Rightarrow> smap option" where
  "decode_data j =
     (case j of
        None \<Rightarrow> Some []
      | Some JNull \<Rightarrow> Some []
      | Some (JObj m) \<Rightarrow> those (map json_bytes m)
      | Some v \<Rightarrow> None)"

definition decode_namespace :: "json option \<Rightarrow> string option" where
  "decode_namespace j =
     (case j of
        None \<Rightarrow> Some []
      | Some JNull \<Rightarrow> Some []
      | Some (JObj m) \<Rightarrow>
          (case json_field ''namespace'' m of
             None \<Rightarrow> Some []
           | Some JNull \<Rightarrow> Some []
           | Some (JStr s) \<Rightarrow> Some s
           | Some v \<Rightarrow> None)
      | Some v \<Rightarrow> None)"

text \<open>\<open>json.Unmarshal(raw, &secret)\<close>: namespace and data; \<open>None\<close> is an error.\<close>

definition unmarshal_secret :: "json \<Rightarrow> (string \<times> smap) option" where
  "unmarshal_secret j =
     (case j of
        JNull \<Rightarrow> Some ([], [])
      | JObj m \<Rightarrow>
          (case (decode_namespace (json_field ''metadata'' m), decode_data (json_field ''data'' m)) of
             (Some ns, Some data) \<Rightarrow> Some (ns, data)
           | _ \<Rightarrow> None)
      | v \<Rightarrow> None)"

section \<open>The works\<close>

definition principalCAName :: string where "principalCAName = ''argocd-agent-ca''"

definition getArgoCDAgentCACert :: "string \<Rightarrow> string api" where
  "getArgoCDAgentCACert argoNamespace = do {
     g \<leftarrow> get_secret (argoNamespace, principalCAName);
     State_Monad.return (case g of
       Inl e \<Rightarrow> Inl (Wrapped ''failed to get argocd-agent-ca secret'' e)
     | Inr s \<Rightarrow>
         (case map_of (s_data s) ''tls.crt'' of
            Some c \<Rightarrow> Inr c
          | None \<Rightarrow>
              (case map_of (s_data s) ''ca.crt'' of
                 Some c \<Rightarrow> Inr c
               | None \<Rightarrow> Inl (ErrText (''CA certificate data not found in argocd-agent-ca secret. Expected either '' @
                   [CHR 0x27] @ ''tls.crt'' @ [CHR 0x27] @ '' or '' @ [CHR 0x27] @ ''ca.crt'' @ [CHR 0x27] @
                   '' field to be present'')))))
   }"

text \<open>The JSON of the secret, with the fields the code sets.\<close>

definition ca_secret_json :: "string \<Rightarrow> string \<Rightarrow> json" where
  "ca_secret_json ns caCert = JObj
     [(''kind'', JStr ''Secret''), (''apiVersion'', JStr ''v1''),
      (''metadata'', JObj [(''name'', JStr principalCAName), (''namespace'', JStr ns)]),
      (''data'', JObj [(''ca.crt'', JStr (base64_encode caCert))]),
      (''type'', JStr ''Opaque'')]"

definition createArgoCDAgentManifestWork :: "string \<Rightarrow> string \<Rightarrow> string \<Rightarrow> manifest_work" where
  "createArgoCDAgentManifestWork clusterName ns caCert =
     \<lparr>mw_meta = plain_meta ''argocd-agent-ca-mw'' clusterName [] [],
      mw_spec = \<lparr>ws_manifests = [RawManifest (ca_secret_json ns caCert)], ws_configs = [], ws_orphaning = None\<rparr>,
      mw_feedback = []\<rparr>"

definition ca_work_outdated :: "string \<Rightarrow> string \<Rightarrow> manifest_work \<Rightarrow> bool" where
  "ca_work_outdated ns caCert existing =
     (case ws_manifests (mw_spec existing) of
        RawManifest j # ms \<Rightarrow>
          (case unmarshal_secret j of
             Some (sns, data) \<Rightarrow> mget data ''ca.crt'' \<noteq> caCert \<or> sns \<noteq> ns
           | None \<Rightarrow> False)
      | ms \<Rightarrow> False)"

definition propagateTo :: "string \<Rightarrow> unit \<Rightarrow> managed_cluster \<Rightarrow> unit api" where
  "propagateTo caCert u cluster =
     (if IsLocalCluster (Some cluster) then State_Monad.return (Inr ())
      else do {
        let work = createArgoCDAgentManifestWork (mc_name cluster) GitOpsNamespace caCert;
        let k = (m_ns (mw_meta work), m_name (mw_meta work));
        g \<leftarrow> get_work k;
        case g of
          Inl e \<Rightarrow>
            (if is_not_found e then create_work k work
             else State_Monad.return (Inl (Wrapped (''failed to get ManifestWork '' @ fst k @ ''/'' @ snd k) e)))
        | Inr existing \<Rightarrow>
            (if ca_work_outdated GitOpsNamespace caCert existing
             then update_work (m_ns (mw_meta existing), m_name (mw_meta existing)) (existing\<lparr>mw_spec := mw_spec work\<rparr>)
             else State_Monad.return (Inr ()))
      })"

definition PropagateHubCA :: "gitops_cluster \<Rightarrow> managed_cluster list \<Rightarrow> unit api" where
  "PropagateHubCA g clusters = do {
     r \<leftarrow> getArgoCDAgentCACert (GetEffectiveArgoNamespace g);
     case r of
       Inl e \<Rightarrow> State_Monad.return (Inl (Wrapped ''failed to get ArgoCD agent CA certificate'' e))
     | Inr caCert \<Rightarrow> loopE (propagateTo caCert) () clusters
   }"

section \<open>Facts\<close>

lemma secret_json_roundtrip: "unmarshal_secret (ca_secret_json ns ca) = Some (ns, [(''ca.crt'', ca)])"
  by (simp add: unmarshal_secret_def ca_secret_json_def json_field_def equal_fold_def ascii_lower_def
      decode_namespace_def decode_data_def principalCAName_def)

definition ca_work_key :: "managed_cluster \<Rightarrow> nsname" where
  "ca_work_key c = (mc_name c, ''argocd-agent-ca-mw'')"

text \<open>A work that carries the certificate, as the cluster's agent will read it.\<close>

definition carries :: "string \<Rightarrow> manifest_work \<Rightarrow> bool" where
  "carries ca wk \<longleftrightarrow> (\<exists>j ms data. ws_manifests (mw_spec wk) = RawManifest j # ms
     \<and> unmarshal_secret j = Some (GitOpsNamespace, data) \<and> mget data ''ca.crt'' = ca)"

text \<open>A work whose first manifest does not read as a secret: the code leaves it alone.\<close>

definition unreadable :: "manifest_work \<Rightarrow> bool" where
  "unreadable wk \<longleftrightarrow> (\<forall>j ms. ws_manifests (mw_spec wk) = RawManifest j # ms \<longrightarrow> unmarshal_secret j = None)"

lemma created_carries: "carries ca (createArgoCDAgentManifestWork c GitOpsNamespace ca)"
  "carries ca (wk\<lparr>mw_spec := mw_spec (createArgoCDAgentManifestWork c GitOpsNamespace ca)\<rparr>)"
  by (simp_all add: carries_def createArgoCDAgentManifestWork_def secret_json_roundtrip mget_def)

lemma outdated_iff: "ca_work_outdated GitOpsNamespace ca wk \<longleftrightarrow> \<not> carries ca wk \<and> \<not> unreadable wk"
  by (auto simp: ca_work_outdated_def carries_def unreadable_def split: list.splits manifest.splits option.splits)

text \<open>What may happen to a work: the certificate is written where it was missing or another one.\<close>

definition ca_step :: "string \<Rightarrow> manifest_work option \<Rightarrow> manifest_work option \<Rightarrow> bool" where
  "ca_step ca old new \<longleftrightarrow> new = old \<or>
     (\<exists>wk. new = Some wk \<and> carries ca wk
        \<and> (\<forall>wk0. old = Some wk0 \<longrightarrow> \<not> carries ca wk0 \<and> \<not> unreadable wk0 \<and> mw_meta wk = mw_meta wk0))"

lemma ca_step_trans: "ca_step ca x y \<Longrightarrow> ca_step ca y z \<Longrightarrow> ca_step ca x z"
  by (auto simp: ca_step_def)

definition ca_writes :: "string \<Rightarrow> nsname set \<Rightarrow> world \<Rightarrow> world \<Rightarrow> bool" where
  "ca_writes ca K w t \<longleftrightarrow> keyed mw_meta (w_works t) \<and> works.touches K w t
     \<and> (\<forall>k. ca_step ca (map_of (w_works w) k) (map_of (w_works t) k))"

lemma ca_writes_refl: "keyed mw_meta (w_works w) \<Longrightarrow> ca_writes ca K w w"
  by (simp add: ca_writes_def works.touches_refl ca_step_def)

lemma ca_writes_quiet:
  assumes "ca_writes ca K w s" and "quiet s t" shows "ca_writes ca K w t"
  using assms works.touches_trans [OF _ works.quiet_touches [OF assms(2)]]
  unfolding ca_writes_def by (simp add: quiet_sel [OF assms(2)])

lemma ca_writes_put:
  assumes "ca_writes ca K w s" and "k \<in> K" and "k = (m_ns (mw_meta wk), m_name (mw_meta wk))"
    and "ca_step ca (map_of (w_works s) k) (Some wk)"
  shows "ca_writes ca K w (w_works_update (mset_key k wk) (consume s))"
proof -
  have "works.touches K s (w_works_update (mset_key k wk) (consume s))"
    using assms(2) by (intro works.touches_upd) (simp add: changes_only_def)
  then have "works.touches K w (w_works_update (mset_key k wk) (consume s))"
    using assms(1) works.touches_trans unfolding ca_writes_def by blast
  moreover have "keyed mw_meta (mset_key k wk (w_works s))"
    using assms(1,3) by (simp add: ca_writes_def keyed_mset_key)
  moreover have "ca_step ca (map_of (w_works w) k') (map_of (mset_key k wk (w_works s)) k')" for k'
    using assms(1,4) ca_step_trans [of ca _ "map_of (w_works s) k"]
    unfolding ca_writes_def by (cases "k' = k") (metis map_of_mset_key fun_upd_same, metis map_of_mset_key fun_upd_other)
  ultimately show ?thesis by (simp only: ca_writes_def works.sel_upd consume_sel) simp
qed

definition up_to_date :: "string \<Rightarrow> managed_cluster \<Rightarrow> world \<Rightarrow> bool" where
  "up_to_date ca c w \<longleftrightarrow> IsLocalCluster (Some c)
     \<or> (\<exists>wk. map_of (w_works w) (ca_work_key c) = Some wk \<and> (carries ca wk \<or> unreadable wk))"

lemma propagate_step:
  assumes I: "ca_writes ca K w s" and K: "\<not> IsLocalCluster (Some c) \<Longrightarrow> ca_work_key c \<in> K"
    and run: "run_state (propagateTo ca () c) s = (r, t)"
  shows "ca_writes ca K w t \<and> (calm s \<longrightarrow> r = Inr () \<and> up_to_date ca c t \<and> (up_to_date ca c s \<longrightarrow> quiet s t))"
proof (cases "IsLocalCluster (Some c)")
  case True
  with assms show ?thesis by (simp add: propagateTo_def up_to_date_def quiet.frame_refl)
next
  case False
  define new where "new = createArgoCDAgentManifestWork (mc_name c) GitOpsNamespace ca"
  have kn: "(m_ns (mw_meta new), m_name (mw_meta new)) = ca_work_key c"
    by (simp add: new_def createArgoCDAgentManifestWork_def ca_work_key_def)
  have cn: "carries ca new" "carries ca (wk\<lparr>mw_spec := mw_spec new\<rparr>)" for wk
    by (simp_all add: new_def created_carries)
  have q: "ca_writes ca K w (consume s)" "ca_writes ca K w (consume (consume s))"
    using I ca_writes_quiet quiet_consume by blast+
  note put = ca_writes_put [OF q(1) K [OF False]]
  have prog: "propagateTo ca () c = do {
        g \<leftarrow> get_work (ca_work_key c);
        case g of
          Inl e \<Rightarrow>
            (if is_not_found e then create_work (ca_work_key c) new
             else State_Monad.return (Inl (Wrapped (''failed to get ManifestWork '' @ fst (ca_work_key c) @ ''/'' @ snd (ca_work_key c)) e)))
        | Inr existing \<Rightarrow>
            (if ca_work_outdated GitOpsNamespace ca existing
             then update_work (m_ns (mw_meta existing), m_name (mw_meta existing)) (existing\<lparr>mw_spec := mw_spec new\<rparr>)
             else State_Monad.return (Inr ()))}"
    unfolding propagateTo_def Let_def new_def [symmetric] kn using False by simp
  show ?thesis
  proof (cases "map_of (w_works s) (ca_work_key c)")
    case None
    have "ca_writes ca K w (w_works_update (mset_key (ca_work_key c) new) (consume (consume s)))"
      using put [of new] None kn cn(1) by (simp add: ca_step_def)
    with None False run q show ?thesis
      by (auto simp: prog run_simps has_key_def up_to_date_def cn split: option.splits if_splits)
  next
    case (Some wk)
    have km: "keyed mw_meta (w_works s)" using I by (simp add: ca_writes_def)
    have k: "(m_ns (mw_meta wk), m_name (mw_meta wk)) = ca_work_key c" using keyedD [OF km Some] .
    have w: "ca_work_outdated GitOpsNamespace ca wk \<Longrightarrow>
        ca_writes ca K w (w_works_update (mset_key (ca_work_key c) (wk\<lparr>mw_spec := mw_spec new\<rparr>)) (consume (consume s)))"
      using put [of "wk\<lparr>mw_spec := mw_spec new\<rparr>"] Some k cn(2) by (simp add: ca_step_def outdated_iff)
    show ?thesis
    proof (cases "ca_work_outdated GitOpsNamespace ca wk")
      case True
      with Some False run q w show ?thesis
        by (auto simp: prog run_simps k has_key_def up_to_date_def cn outdated_iff split: option.splits if_splits)
    next
      case no: False
      with Some False run q show ?thesis
        by (auto simp: prog run_simps has_key_def up_to_date_def outdated_iff quiet_consume split: option.splits if_splits)
    qed
  qed
qed

lemma propagate_loop:
  assumes "ca_writes ca K w s" and "\<forall>c \<in> set cs. \<not> IsLocalCluster (Some c) \<longrightarrow> ca_work_key c \<in> K"
    and "run_state (loopE (propagateTo ca) () cs) s = (r, t)"
  shows "ca_writes ca K w t"
  using assms
proof (induction cs arbitrary: s)
  case (Cons c cs)
  obtain x u where x: "run_state (propagateTo ca () c) s = (x, u)" by (rule prod.exhaust)
  then have "ca_writes ca K w u" using propagate_step [OF Cons.prems(1) _ x] Cons.prems(2) by simp
  with Cons x show ?case by (auto split: sum.splits)
qed simp

lemma propagate_settles:
  assumes "ca_writes ca K w s" and "\<forall>c \<in> set cs. \<not> IsLocalCluster (Some c) \<longrightarrow> ca_work_key c \<in> K" and "calm s"
  shows "\<exists>t. run_state (loopE (propagateTo ca) () cs) s = (Inr (), t) \<and> ca_writes ca K w t \<and> calm t
    \<and> (\<forall>c \<in> set cs. up_to_date ca c t) \<and> ((\<forall>c \<in> set cs. up_to_date ca c s) \<longrightarrow> quiet s t)"
  using assms
proof (induction cs arbitrary: s)
  case Nil
  then show ?case by (simp add: quiet.frame_refl)
next
  case (Cons c cs)
  obtain x u where x: "run_state (propagateTo ca () c) s = (x, u)" by (rule prod.exhaust)
  have st: "ca_writes ca K w u" "x = Inr ()" "up_to_date ca c u" "up_to_date ca c s \<longrightarrow> quiet s u"
    using propagate_step [OF Cons.prems(1) _ x] Cons.prems by simp_all
  have keep: "up_to_date ca d t'" if "up_to_date ca d s'" "ca_writes ca K s' t'" for d s' t'
  proof -
    have "ca_step ca (map_of (w_works s') (ca_work_key d)) (map_of (w_works t') (ca_work_key d))"
      using that(2) unfolding ca_writes_def by blast
    with that(1) show ?thesis by (auto simp: up_to_date_def ca_step_def)
  qed
  have us: "ca_writes ca K s u"
    using propagate_step [OF ca_writes_refl _ x, of K] Cons.prems by (simp add: ca_writes_def)
  then have cu: "calm u" using Cons.prems(3) works.touches_calm unfolding ca_writes_def by blast
  obtain t where t: "run_state (loopE (propagateTo ca) () cs) u = (Inr (), t)" "ca_writes ca K w t" "calm t"
    "\<forall>d \<in> set cs. up_to_date ca d t" "(\<forall>d \<in> set cs. up_to_date ca d u) \<longrightarrow> quiet u t"
    using Cons.IH [OF st(1) _ cu] Cons.prems(2) by auto
  have "ca_writes ca K u t"
    using propagate_loop [OF ca_writes_refl _ t(1), of K] Cons.prems(2) st(1) by (simp add: ca_writes_def)
  then have "up_to_date ca c t" using keep st(3) by blast
  moreover have "(\<forall>d \<in> set (c # cs). up_to_date ca d s) \<longrightarrow> quiet s t"
    using st(4) t(5) keep us quiet.frame_trans by (metis list.set_intros(1,2))
  ultimately show ?case using x st(2) t by auto
qed

text \<open>The certificate the hub's secret holds: \<open>tls.crt\<close>, or \<open>ca.crt\<close> without it.\<close>

definition agent_ca :: "gitops_cluster \<Rightarrow> world \<Rightarrow> string option" where
  "agent_ca g w = (case map_of (w_secrets w) (GetEffectiveArgoNamespace g, principalCAName) of
     None \<Rightarrow> None
   | Some s \<Rightarrow> (case map_of (s_data s) ''tls.crt'' of Some c \<Rightarrow> Some c | None \<Rightarrow> map_of (s_data s) ''ca.crt''))"

lemma ca_cert_run:
  "run_state (getArgoCDAgentCACert (GetEffectiveArgoNamespace g)) w = (r, t) \<Longrightarrow> quiet w t
    \<and> (\<forall>ca. r = Inr ca \<longrightarrow> agent_ca g w = Some ca) \<and> (calm w \<longrightarrow> agent_ca g w = Some ca \<longrightarrow> r = Inr ca)"
  by (auto simp: getArgoCDAgentCACert_def run_simps quiet_consume agent_ca_def split: option.splits)

definition ca_targets :: "managed_cluster list \<Rightarrow> nsname set" where
  "ca_targets cs = ca_work_key ` {c \<in> set cs. \<not> IsLocalCluster (Some c)}"

lemma ca_targetsI: "\<forall>c \<in> set cs. \<not> IsLocalCluster (Some c) \<longrightarrow> ca_work_key c \<in> ca_targets cs"
  by (simp add: ca_targets_def)

text \<open>under every failure, propagating the CA changes nothing but the CA works of the given clusters, the
  hub's own cluster excepted. A work that changes is there afterwards with the certificate of the agent's CA
  secret; before, it was missing, or it was readable and carried something else, and its metadata is kept.\<close>

theorem hub_ca_safe:
  assumes "keyed mw_meta (w_works w)" and "run_state (PropagateHubCA g cs) w = (r, t)"
  shows "works.touches (ca_targets cs) w t
    \<and> (\<forall>k. map_of (w_works t) k \<noteq> map_of (w_works w) k \<longrightarrow>
         (\<exists>ca wk. agent_ca g w = Some ca \<and> map_of (w_works t) k = Some wk \<and> carries ca wk
            \<and> (\<forall>old. map_of (w_works w) k = Some old \<longrightarrow>
                 \<not> carries ca old \<and> \<not> unreadable old \<and> mw_meta wk = mw_meta old)))"
proof -
  obtain x u where x: "run_state (getArgoCDAgentCACert (GetEffectiveArgoNamespace g)) w = (x, u)" by (rule prod.exhaust)
  note c = ca_cert_run [OF x]
  show ?thesis
  proof (cases x)
    case (Inl e)
    then have "quiet w t" using assms(2) x c by (simp add: PropagateHubCA_def)
    then show ?thesis by (simp add: works.quiet_touches quiet_sel)
  next
    case (Inr ca)
    then have "run_state (loopE (propagateTo ca) () cs) u = (r, t)" using assms(2) x by (simp add: PropagateHubCA_def)
    moreover have "ca_writes ca (ca_targets cs) w u" using ca_writes_quiet [OF ca_writes_refl [OF assms(1)]] c by blast
    ultimately have "ca_writes ca (ca_targets cs) w t" using propagate_loop ca_targetsI by blast
    then have t: "works.touches (ca_targets cs) w t" "\<And>k. ca_step ca (map_of (w_works w) k) (map_of (w_works t) k)"
      unfolding ca_writes_def by blast+
    have "agent_ca g w = Some ca" using c Inr by simp
    with t show ?thesis unfolding ca_step_def by (intro conjI allI impI) (assumption, metis)
  qed
qed

text \<open>when nothing is rejected and the hub has the CA, propagation succeeds; every cluster but the hub's own
  then has the CA work, carrying the hub's certificate into the namespace of Argo CD on the cluster, unless
  a work of that name was there that does not read as a secret, which is left as it is. Propagating again only reads.\<close>

theorem hub_ca_settles:
  assumes "calm w" and "keyed mw_meta (w_works w)" and "agent_ca g w = Some ca"
    and "run_state (PropagateHubCA g cs) w = (r, t)"
  shows "r = Inr () \<and> (\<forall>c \<in> set cs. up_to_date ca c t)
    \<and> (\<forall>k wk. map_of (w_works t) k = Some wk \<and> unreadable wk \<longrightarrow> map_of (w_works w) k = Some wk)
    \<and> (\<forall>q u. run_state (PropagateHubCA g cs) t = (q, u) \<longrightarrow> q = Inr () \<and> quiet t u)"
proof -
  obtain x u where x: "run_state (getArgoCDAgentCACert (GetEffectiveArgoNamespace g)) w = (x, u)" by (rule prod.exhaust)
  note c = ca_cert_run [OF x]
  have "x = Inr ca" "quiet w u" using c assms(1,3) by blast+
  with assms(1) quiet_sel(19) have u: "x = Inr ca" "quiet w u" "calm u" by blast+
  obtain t' where t': "run_state (loopE (propagateTo ca) () cs) u = (Inr (), t')" "ca_writes ca (ca_targets cs) w t'" "calm t'"
    "\<forall>c \<in> set cs. up_to_date ca c t'"
    using propagate_settles [OF ca_writes_quiet [OF ca_writes_refl [OF assms(2)] u(2)] ca_targetsI u(3)] by blast
  then have t: "r = Inr ()" "t' = t" using assms(4) x u(1) by (simp_all add: PropagateHubCA_def)
  have keyt: "keyed mw_meta (w_works t)" and tt: "works.touches (ca_targets cs) w t"
    using t'(2) t(2) by (simp_all add: ca_writes_def)
  then have "agent_ca g t = agent_ca g w" by (auto simp: agent_ca_def works.touches_def)
  have again: "q = Inr () \<and> quiet t v" if run: "run_state (PropagateHubCA g cs) t = (q, v)" for q v
  proof -
    obtain y t1 where y: "run_state (getArgoCDAgentCACert (GetEffectiveArgoNamespace g)) t = (y, t1)" by (rule prod.exhaust)
    note d = ca_cert_run [OF y]
    have ct: "calm t" "agent_ca g t = Some ca" using \<open>agent_ca g t = agent_ca g w\<close> assms(3) t'(3) t(2) by simp_all
    then have "y = Inr ca" "quiet t t1" using d by blast+
    with ct(1) quiet_sel(19) have t1: "y = Inr ca" "quiet t t1" "calm t1" by blast+
    have "\<forall>c \<in> set cs. up_to_date ca c t1" using t'(4) t(2) by (simp add: up_to_date_def quiet_sel [OF t1(2)])
    then obtain v' where "run_state (loopE (propagateTo ca) () cs) t1 = (Inr (), v')" "quiet t1 v'"
      using propagate_settles [OF ca_writes_quiet [OF ca_writes_refl [OF keyt] t1(2)] ca_targetsI t1(3)] by blast
    then have "q = Inr ()" "quiet t1 v" using run y t1(1) by (simp_all add: PropagateHubCA_def)
    then show ?thesis using t1(2) quiet.frame_trans by blast
  qed
  have "\<not> unreadable wk" if "carries ca wk" for wk using that by (auto simp: carries_def unreadable_def)
  then have "map_of (w_works w) k = Some wk" if "map_of (w_works t) k = Some wk" "unreadable wk" for k wk
    using t'(2) t(2) that unfolding ca_writes_def ca_step_def by (metis option.inject)
  with t t'(4) again show ?thesis by blast
qed

definition ca_world :: world where
  "ca_world = empty_world\<lparr>w_secrets :=
     [((GetEffectiveArgoNamespace sample_gitops, principalCAName),
       \<lparr>s_meta = plain_meta principalCAName (GetEffectiveArgoNamespace sample_gitops) [] [], s_type = ''Opaque'',
        s_data = [(''tls.crt'', ''PEM'')], s_string_data = []\<rparr>)]\<rparr>"

lemma ca_world_good: "calm ca_world" "keyed mw_meta (w_works ca_world)" "agent_ca sample_gitops ca_world = Some ''PEM''"
  by (simp_all add: ca_world_def empty_world_def agent_ca_def)

theorem hub_ca_settles_witness:
  "\<exists>wk. map_of (w_works (snd (run_state (PropagateHubCA sample_gitops [sample_cluster]) ca_world))) (''c1'', ''argocd-agent-ca-mw'')
     = Some wk \<and> (carries ''PEM'' wk \<or> unreadable wk)"
proof -
  obtain r t where run: "run_state (PropagateHubCA sample_gitops [sample_cluster]) ca_world = (r, t)" by (rule prod.exhaust)
  from hub_ca_settles [OF ca_world_good run] have "up_to_date ''PEM'' sample_cluster t" by simp
  with run show ?thesis
    by (auto simp: up_to_date_def sample_cluster_def IsLocalCluster_def ca_work_key_def ACMClusterNameLabel_def split: if_splits)
qed

theorem hub_ca_safe_witness:
  "map_of (w_works (snd (run_state (PropagateHubCA sample_gitops [sample_cluster]) ca_world))) (''c1'', ''other'') = None"
proof -
  obtain r t where run: "run_state (PropagateHubCA sample_gitops [sample_cluster]) ca_world = (r, t)" by (rule prod.exhaust)
  from hub_ca_safe [OF ca_world_good(2) run] have "changes_only (ca_targets [sample_cluster]) w_works ca_world t"
    by (simp add: works.touches_only)
  from changes_onlyD [OF this, of "(''c1'', ''other'')"] run show ?thesis
    by (auto simp: ca_targets_def ca_work_key_def ca_world_def empty_world_def)
qed

end
