(* ===== verification/AgentCertificates.thy ===== *)
theory AgentCertificates
  imports ServerDiscovery HubCA
begin

text \<open>
  \<open>pkg/controller/gitopscluster/argocd_agent_certificates.go\<close>: the CA of the Argo CD agent and the TLS
  certificates of its principal and resource proxy. Issuing and rotating certificates is done by
  \<open>sdk-go/pkg/certrotation\<close>, reading them by \<open>crypto/x509\<close>: both are the argument \<open>lib\<close>. (The
  clientset is a real one; with the fake of the tests every function fails at once.) The host names a certificate must cover and the deletion of one that does not are the code's.
\<close>

text \<open>
  The library: waiting for the informers' caches, the signing key pair and the CA bundle of a
  namespace, the certificate of a secret for a list of hosts; the names a PEM certificate covers
  (\<open>None\<close> if it does not parse) and the canonical text of a host (\<open>net.ParseIP(h).String()\<close> for an address).
\<close>

record cert_lib =
  lib_sync :: "string \<Rightarrow> unit api"
  lib_signing :: "string \<Rightarrow> string api"
  lib_bundle :: "string \<Rightarrow> string \<Rightarrow> string api"
  lib_target :: "string \<Rightarrow> string \<Rightarrow> string list \<Rightarrow> string \<Rightarrow> string \<Rightarrow> unit api"
  lib_sans :: "string \<Rightarrow> string list option"
  lib_canon :: "string \<Rightarrow> string"

definition wrap_error :: "string \<Rightarrow> 'a api \<Rightarrow> ('a \<Rightarrow> 'b api) \<Rightarrow> 'b api" where
  "wrap_error text m k = do {
     r \<leftarrow> m;
     case r of Inl e \<Rightarrow> State_Monad.return (Inl (Wrapped text e)) | Inr x \<Rightarrow> k x
   }"

definition ArgoCDAgentPrincipalTLSSecretName :: string where
  "ArgoCDAgentPrincipalTLSSecretName = ''argocd-agent-principal-tls''"

definition ArgoCDAgentResourceProxyTLSSecretName :: string where
  "ArgoCDAgentResourceProxyTLSSecretName = ''argocd-agent-resource-proxy-tls''"

section \<open>The CA\<close>

definition EnsureArgoCDAgentCASecret :: "cert_lib \<Rightarrow> gitops_cluster \<Rightarrow> unit api" where
  "EnsureArgoCDAgentCASecret lib g =
     (let ns = GetEffectiveArgoNamespace g in do {
        s \<leftarrow> lib_sync lib ns;
        case s of
          Inl e \<Rightarrow> State_Monad.return (Inl e)
        | Inr u \<Rightarrow>
            wrap_error ''failed to ensure signing cert key pair'' (lib_signing lib ns) (\<lambda>ca.
            wrap_error ''failed to ensure CA bundle'' (lib_bundle lib ns ca) (\<lambda>b. State_Monad.return (Inr ())))
      })"

definition verifyCACertificateExists :: "string \<Rightarrow> unit api" where
  "verifyCACertificateExists ns = do {
     g \<leftarrow> get_secret (ns, principalCAName);
     State_Monad.return (case g of
       Inl e \<Rightarrow>
         if is_not_found e then Inl (ErrText (''ArgoCD agent CA certificate secret '' @ [CHR 0x27] @ principalCAName @ [CHR 0x27] @
           '' not found in namespace '' @ [CHR 0x27] @ ns @ [CHR 0x27] @
           ''. The certificate may not have been generated yet, please check the controller logs for certificate generation errors''))
         else Inl e
     | Inr s \<Rightarrow> Inr ())
   }"

definition loadCACertificate :: "cert_lib \<Rightarrow> string \<Rightarrow> (string \<times> string) api" where
  "loadCACertificate lib ns =
     wrap_error ''failed to load signing cert key pair'' (lib_signing lib ns) (\<lambda>ca.
     wrap_error ''failed to load CA bundle'' (lib_bundle lib ns ca) (\<lambda>b. State_Monad.return (Inr (ca, b))))"

section \<open>Host names\<close>

definition appendNodeIPs :: "string list \<Rightarrow> (world, string list) state" where
  "appendNodeIPs hostnames = do {
     l \<leftarrow> list_nodes (\<lambda>_. True);
     State_Monad.return (case l of
       Inl e \<Rightarrow> hostnames
     | Inr items \<Rightarrow>
         hostnames @ concat (map (\<lambda>n. map snd (filter (\<lambda>(t, a). t = ''InternalIP'' \<and> a \<noteq> []) (nd_addresses n))) items))
   }"

definition discoverRouteHostname :: "string \<Rightarrow> string api" where
  "discoverRouteHostname ns = do {
     l \<leftarrow> list_routes (is_agent_part ns);
     State_Monad.return (case l of
       Inl e \<Rightarrow> Inl (Wrapped ''failed to list routes'' e)
     | Inr [] \<Rightarrow> Inl (ErrText (''no ArgoCD agent principal route found in namespace '' @ ns))
     | Inr (r0 # rs) \<Rightarrow>
         (case find (\<lambda>r. str_contains (m_name (rt_meta r)) ''principal'' \<and> rt_host r \<noteq> []) (r0 # rs) of
            Some r \<Rightarrow> Inr (rt_host r)
          | None \<Rightarrow> if rt_host r0 \<noteq> [] then Inr (rt_host r0) else Inl (ErrText ''no route with host found'')))
   }"

definition service_dns :: "string \<Rightarrow> string \<Rightarrow> string list" where
  "service_dns svc ns = [svc @ ''.'' @ ns @ ''.svc'', svc @ ''.'' @ ns @ ''.svc.cluster.local'']"

definition localHosts :: "string list" where
  "localHosts = [''localhost'', ''127.0.0.1'', ''::1'']"

definition configured_address :: "gitops_cluster \<Rightarrow> string list" where
  "configured_address g =
     (case agent_of g of None \<Rightarrow> [] | Some a \<Rightarrow> if ag_server_address a \<noteq> [] then [ag_server_address a] else [])"

definition ingress_hosts :: "(string \<times> string) list \<Rightarrow> string list" where
  "ingress_hosts is = concat (map (\<lambda>(hostname, ip).
     (if hostname \<noteq> [] then [hostname] else []) @ (if ip \<noteq> [] then [ip] else [])) is)"

definition add_route_host :: "goerr + string \<Rightarrow> string list \<Rightarrow> string list" where
  "add_route_host r hosts =
     (case r of Inl e \<Rightarrow> hosts | Inr h \<Rightarrow> if h \<noteq> [] \<and> h \<notin> set hosts then hosts @ [h] else hosts)"

definition getPrincipalHostNames :: "string \<Rightarrow> gitops_cluster \<Rightarrow> (world, string list) state" where
  "getPrincipalHostNames ns g = do {
     r \<leftarrow> discoverRouteHostname ns;
     let hosts = add_route_host r (configured_address g);
     f \<leftarrow> FindArgoCDAgentPrincipalService ns;
     case f of
       Inl e \<Rightarrow> appendNodeIPs (hosts @ service_dns ''argocd-agent-principal'' ns @ localHosts)
     | Inr svc \<Rightarrow> do {
         let hosts = hosts @ ingress_hosts (sv_ingress svc);
         hosts \<leftarrow> (if length (sv_ingress svc) = 0 then appendNodeIPs hosts else State_Monad.return hosts);
         State_Monad.return (hosts @ service_dns (m_name (sv_meta svc)) ns @ localHosts)
       }
   }"

definition getResourceProxyHostNames :: "string \<Rightarrow> (world, string list) state" where
  "getResourceProxyHostNames ns = do {
     p \<leftarrow> FindArgoCDAgentResourceProxyService ns;
     f \<leftarrow> FindArgoCDAgentPrincipalService ns;
     State_Monad.return
       (service_dns (case p of Inl e \<Rightarrow> ''argocd-agent-principal-resource-proxy'' | Inr (svc, port) \<Rightarrow> m_name (sv_meta svc)) ns @
        service_dns (case f of Inl e \<Rightarrow> ''argocd-agent-principal'' | Inr svc \<Rightarrow> m_name (sv_meta svc)) ns @
        localHosts)
   }"

section \<open>Certificates\<close>

text \<open>The hosts a certificate lacks; one that cannot be read covers nothing.\<close>

definition missing_hosts :: "cert_lib \<Rightarrow> string list \<Rightarrow> string list \<Rightarrow> string list" where
  "missing_hosts lib sans desired = filter (\<lambda>h. lib_canon lib h \<notin> set sans) desired"

definition sans_drifted :: "cert_lib \<Rightarrow> string list \<Rightarrow> secret \<Rightarrow> bool" where
  "sans_drifted lib desired s =
     (case map_of (s_data s) ''tls.crt'' of
        None \<Rightarrow> True
      | Some pem \<Rightarrow>
          (case lib_sans lib pem of
             None \<Rightarrow> True
           | Some sans \<Rightarrow> missing_hosts lib sans desired \<noteq> []))"

definition deleteSecretIfSANsDrifted :: "cert_lib \<Rightarrow> string \<Rightarrow> string \<Rightarrow> string list \<Rightarrow> (world, unit) state" where
  "deleteSecretIfSANsDrifted lib ns nm desired = do {
     g \<leftarrow> get_secret (ns, nm);
     case g of
       Inl e \<Rightarrow> State_Monad.return ()
     | Inr s \<Rightarrow>
         (if sans_drifted lib desired s then do {
            d \<leftarrow> delete_secret (skey s);
            State_Monad.return ()
          } else State_Monad.return ())
   }"

text \<open>The two functions that ensure a TLS certificate differ in the host names, the secret and the texts.\<close>

definition ensureTLSCert :: "cert_lib \<Rightarrow> string \<Rightarrow> string \<Rightarrow> string \<Rightarrow> (world, string list) state \<Rightarrow> unit api" where
  "ensureTLSCert lib what nm ns hostNames =
     wrap_error ''CA certificate not found'' (verifyCACertificateExists ns) (\<lambda>u. do {
       s \<leftarrow> lib_sync lib ns;
       case s of
         Inl e \<Rightarrow> State_Monad.return (Inl e)
       | Inr u \<Rightarrow>
           wrap_error ''failed to load CA certificate'' (loadCACertificate lib ns) (\<lambda>(ca, bundle). do {
             desired \<leftarrow> hostNames;
             d \<leftarrow> deleteSecretIfSANsDrifted lib ns nm desired;
             wrap_error (''failed to ensure '' @ what @ '' TLS certificate'') (lib_target lib ns nm desired ca bundle)
               (\<lambda>u. State_Monad.return (Inr ()))
           })
     })"

definition EnsureArgoCDAgentPrincipalTLSCert :: "cert_lib \<Rightarrow> gitops_cluster \<Rightarrow> unit api" where
  "EnsureArgoCDAgentPrincipalTLSCert lib g =
     (let ns = GetEffectiveArgoNamespace g in
      ensureTLSCert lib ''principal'' ArgoCDAgentPrincipalTLSSecretName ns (getPrincipalHostNames ns g))"

definition EnsureArgoCDAgentResourceProxyTLSCert :: "cert_lib \<Rightarrow> gitops_cluster \<Rightarrow> unit api" where
  "EnsureArgoCDAgentResourceProxyTLSCert lib g =
     (let ns = GetEffectiveArgoNamespace g in
      ensureTLSCert lib ''resource proxy'' ArgoCDAgentResourceProxyTLSSecretName ns (getResourceProxyHostNames ns))"

section \<open>Facts\<close>

text \<open>The principal's service when nothing is rejected.\<close>

definition principal_of :: "string \<Rightarrow> world \<Rightarrow> service option" where
  "principal_of ns w =
     (case map_of (w_services w) (ns, ''openshift-gitops-agent-principal'') of
        Some s \<Rightarrow> Some s
      | None \<Rightarrow>
          (case map_of (w_services w) (ns, ''argocd-agent-principal'') of
             Some s \<Rightarrow> Some s
           | None \<Rightarrow> find (\<lambda>s. has_suffix (m_name (sv_meta s)) ''-agent-principal'')
               (filter (\<lambda>s. m_ns (sv_meta s) = ns) (map snd (w_services w)))))"

lemma principal_calm:
  assumes "calm w" and "run_state (FindArgoCDAgentPrincipalService ns) w = (f, t)"
  shows "quiet w t" "calm t" "f = Inr s \<longleftrightarrow> principal_of ns w = Some s"
proof -
  show q: "quiet w t" by (rule state_io_relD [OF principal_quiet assms(2)])
  show "calm t" using quiet_sel(19) [OF q] assms(1) by blast
  show "f = Inr s \<longleftrightarrow> principal_of ns w = Some s"
    using assms
    by (auto simp: FindArgoCDAgentPrincipalService_def tryPrincipalName_def run_simps principal_of_def
        split: option.splits)
qed

lemma node_ips:
  assumes "calm w"
  shows "\<exists>xs t. run_state (appendNodeIPs hosts) w = (hosts @ xs, t) \<and> quiet w t
    \<and> (\<forall>n \<in> set (map snd (w_nodes w)). \<forall>a. (''InternalIP'', a) \<in> set (nd_addresses n) \<longrightarrow> a \<noteq> [] \<longrightarrow> a \<in> set xs)"
  using assms quiet_consume by (auto simp: appendNodeIPs_def run_simps image_iff intro!: bexI)

lemma node_ips_quiet: "state_io_rel quiet (appendNodeIPs hosts)"
  unfolding appendNodeIPs_def by (intro quiet.frame_rules list_quiet)

lemma route_hostname_quiet: "state_io_rel quiet (discoverRouteHostname ns)"
  unfolding discoverRouteHostname_def by (intro quiet.frame_rules list_quiet)

lemma principal_hosts_quiet: "state_io_rel quiet (getPrincipalHostNames ns g)"
  unfolding getPrincipalHostNames_def
  by (intro quiet.frame_rules route_hostname_quiet principal_quiet node_ips_quiet)

lemma proxy_hosts_quiet: "state_io_rel quiet (getResourceProxyHostNames ns)"
  unfolding getResourceProxyHostNames_def by (intro quiet.frame_rules proxy_quiet principal_quiet)

lemma find_refine:
  "Q (case find P (r0 # rs) of Some r \<Rightarrow> r | None \<Rightarrow> r0) \<Longrightarrow>
    find (\<lambda>r. P r \<and> Q r) (r0 # rs) = Some (case find P (r0 # rs) of Some r \<Rightarrow> r | None \<Rightarrow> r0)
    \<or> find (\<lambda>r. P r \<and> Q r) (r0 # rs) = None \<and> (case find P (r0 # rs) of Some r \<Rightarrow> r | None \<Rightarrow> r0) = r0"
proof (cases "find P (r0 # rs)")
  case None
  then have "find (\<lambda>r. P r \<and> Q r) (r0 # rs) = None" unfolding find_None_iff by blast
  with None show ?thesis by (simp del: find.simps)
next
  case (Some x)
  assume "Q (case find P (r0 # rs) of Some r \<Rightarrow> r | None \<Rightarrow> r0)"
  then have "Q x" by (simp only: Some option.case)
  have "find (\<lambda>r. P r \<and> Q r) xs = Some x" if "find P xs = Some x" "Q x" for xs
    using that by (induction xs) (auto split: if_splits)
  with Some \<open>Q x\<close> have "find (\<lambda>r. P r \<and> Q r) (r0 # rs) = Some x" by blast
  with Some show ?thesis by (simp del: find.simps)
qed

lemma ingress_in_hosts: "ingress_address is \<noteq> [] \<Longrightarrow> ingress_address is \<in> set (ingress_hosts is)"
  by (induction "is" rule: ingress_address.induct) (auto simp: ingress_hosts_def split: if_splits)

text \<open>The parts every list of principal hosts has.\<close>

lemma principal_hosts_calm:
  assumes "calm w" and "run_state (getPrincipalHostNames ns g) w = (hosts, t)"
  shows "set (configured_address g) \<subseteq> set hosts" "set localHosts \<subseteq> set hosts"
    "\<And>h u. run_state (discoverRouteHostname ns) w = (Inr h, u) \<Longrightarrow> h \<noteq> [] \<Longrightarrow> h \<in> set hosts"
    "\<And>s. principal_of ns w = Some s \<Longrightarrow> set (ingress_hosts (sv_ingress s)) \<subseteq> set hosts"
    "\<And>s n a. principal_of ns w = Some s \<Longrightarrow> sv_ingress s = [] \<Longrightarrow> n \<in> set (map snd (w_nodes w)) \<Longrightarrow>
       (''InternalIP'', a) \<in> set (nd_addresses n) \<Longrightarrow> a \<noteq> [] \<Longrightarrow> a \<in> set hosts"
proof -
  obtain r u where r: "run_state (discoverRouteHostname ns) w = (r, u)" by (rule prod.exhaust)
  have qu: "quiet w u" by (rule state_io_relD [OF route_hostname_quiet r])
  then have cu: "calm u" using quiet_sel(19) assms(1) by blast
  obtain f v where f: "run_state (FindArgoCDAgentPrincipalService ns) u = (f, v)" by (rule prod.exhaust)
  note pc = principal_calm [OF cu f]
  have pu: "principal_of ns u = principal_of ns w" "w_nodes v = w_nodes w"
    by (simp_all only: principal_of_def quiet_sel [OF qu] quiet_sel [OF pc(1)])
  define hs where "hs = add_route_host r (configured_address g)"
  have hs: "set (configured_address g) \<subseteq> set hs" "\<And>h. r = Inr h \<Longrightarrow> h \<noteq> [] \<Longrightarrow> h \<in> set hs"
    by (auto simp: hs_def add_route_host_def split: sum.splits)
  have cases: "(\<exists>e xs. f = Inl e \<and> hosts = (hs @ service_dns ''argocd-agent-principal'' ns @ localHosts) @ xs)
    \<or> (\<exists>s xs. f = Inr s \<and> hosts = hs @ ingress_hosts (sv_ingress s) @ xs @ service_dns (m_name (sv_meta s)) ns @ localHosts
         \<and> (sv_ingress s = [] \<longrightarrow> (\<forall>n \<in> set (map snd (w_nodes w)). \<forall>a. (''InternalIP'', a) \<in> set (nd_addresses n) \<longrightarrow> a \<noteq> [] \<longrightarrow> a \<in> set xs)))"
  proof (cases f)
    case (Inl e)
    obtain xs t' where "run_state (appendNodeIPs (hs @ service_dns ''argocd-agent-principal'' ns @ localHosts)) v
        = ((hs @ service_dns ''argocd-agent-principal'' ns @ localHosts) @ xs, t')"
      using node_ips [OF pc(2)] by blast
    with Inl assms(2) r f show ?thesis by (auto simp: getPrincipalHostNames_def Let_def hs_def)
  next
    case (Inr s)
    show ?thesis
    proof (cases "sv_ingress s")
      case Nil
      obtain xs t' where x: "run_state (appendNodeIPs (hs @ ingress_hosts (sv_ingress s))) v = ((hs @ ingress_hosts (sv_ingress s)) @ xs, t')"
        "\<forall>n \<in> set (map snd (w_nodes v)). \<forall>a. (''InternalIP'', a) \<in> set (nd_addresses n) \<longrightarrow> a \<noteq> [] \<longrightarrow> a \<in> set xs"
        using node_ips [OF pc(2)] by blast
      have "hosts = hs @ ingress_hosts (sv_ingress s) @ xs @ service_dns (m_name (sv_meta s)) ns @ localHosts"
        using Inr Nil assms(2) r f x(1) by (simp add: getPrincipalHostNames_def Let_def hs_def)
      with Inr x(2) pu(2) show ?thesis by auto
    next
      case (Cons i "is")
      then have "hosts = hs @ ingress_hosts (sv_ingress s) @ [] @ service_dns (m_name (sv_meta s)) ns @ localHosts"
        using Inr assms(2) r f by (simp add: getPrincipalHostNames_def Let_def hs_def)
      with Inr Cons show ?thesis by (intro disjI2 exI [of _ s] exI [of _ "[]"]) simp
    qed
  qed
  have sub: "set hs \<union> set localHosts \<subseteq> set hosts"
    using cases
  proof (elim disjE exE conjE)
    fix e xs assume "hosts = (hs @ service_dns ''argocd-agent-principal'' ns @ localHosts) @ xs"
    then show ?thesis by auto
  next
    fix s xs assume "hosts = hs @ ingress_hosts (sv_ingress s) @ xs @ service_dns (m_name (sv_meta s)) ns @ localHosts"
    then show ?thesis by auto
  qed
  then show "set (configured_address g) \<subseteq> set hosts" "set localHosts \<subseteq> set hosts" using hs(1) by blast+
  show "h \<in> set hosts" if "run_state (discoverRouteHostname ns) w = (Inr h, u')" "h \<noteq> []" for h u'
    using sub hs(2) [of h] that r by auto
  fix s assume s: "principal_of ns w = Some s"
  then have "f = Inr s" using pc(3) [of s] pu(1) by simp
  with cases obtain xs where xs: "hosts = hs @ ingress_hosts (sv_ingress s) @ xs @ service_dns (m_name (sv_meta s)) ns @ localHosts"
    "sv_ingress s = [] \<longrightarrow> (\<forall>n \<in> set (map snd (w_nodes w)). \<forall>a. (''InternalIP'', a) \<in> set (nd_addresses n) \<longrightarrow> a \<noteq> [] \<longrightarrow> a \<in> set xs)"
    by blast
  show "set (ingress_hosts (sv_ingress s)) \<subseteq> set hosts" unfolding xs(1) set_append by blast
  show "a \<in> set hosts" if "sv_ingress s = []" "n \<in> set (map snd (w_nodes w))" "(''InternalIP'', a) \<in> set (nd_addresses n)" "a \<noteq> []" for n a
    using xs(2) that unfolding xs(1) set_append by blast
qed

text \<open>The namespace's stores that host names are computed from.\<close>

definition same_network :: "world \<Rightarrow> world \<Rightarrow> bool" where
  "same_network w t \<longleftrightarrow> w_routes t = w_routes w \<and> w_services t = w_services w \<and> w_nodes t = w_nodes w"

text \<open>
  The principal's certificate covers the address clusters are given: with both in one namespace, whatever
  endpoint discovery finds is among the principal's hosts. A service whose ingress points are all blank is the exception,
  for which discovery falls back to the nodes and the certificate does not.
\<close>

lemma discovered_host:
  assumes "calm w" and "run_state (discoverEndpoint ns) w = (Inr (addr, port), t)"
    and "run_state (getPrincipalHostNames ns g) z = (hosts, u)" and "calm z" and "same_network w z"
    and "\<And>s. principal_of ns w = Some s \<Longrightarrow> sv_ingress s = [] \<or> ingress_address (sv_ingress s) \<noteq> []"
  shows "addr \<in> set hosts"
proof -
  have nz: "w_routes z = w_routes w" "w_services z = w_services w" "w_nodes z = w_nodes w"
    using assms(5) by (simp_all add: same_network_def)
  have pz: "principal_of ns z = principal_of ns w" by (simp only: principal_of_def nz)
  note h = principal_hosts_calm [OF assms(4,3), unfolded pz nz]
  let ?P = "\<lambda>r. str_contains (m_name (rt_meta r)) ''principal''"
  let ?rs = "filter (is_agent_part ns) (map snd (w_routes w))"
  obtain x w1 where x: "run_state (discoverFromRoute ns) w = (x, w1)" by (rule prod.exhaust)
  have q1: "quiet w w1" by (rule state_io_relD [OF _ x]) (unfold discoverFromRoute_def, intro quiet.frame_rules list_quiet)
  have c1: "calm w1" using quiet_sel(19) [OF q1] assms(1) by blast
  obtain y w2 where y: "run_state (discoverFromLoadBalancer ns) w1 = (y, w2)" by (rule prod.exhaust)
  have q2: "quiet w1 w2" by (rule state_io_relD [OF _ y]) (unfold discoverFromLoadBalancer_def, intro quiet.frame_rules principal_quiet)
  have c2: "calm w2" using quiet_sel(19) [OF q2] c1 by blast
  have pw: "principal_of ns w1 = principal_of ns w" "principal_of ns w2 = principal_of ns w" "w_nodes w2 = w_nodes w"
    by (simp_all only: principal_of_def quiet_sel [OF q1] quiet_sel [OF q2])
  obtain f v where f: "run_state (FindArgoCDAgentPrincipalService ns) w1 = (f, v)" by (rule prod.exhaust)
  obtain f2 v2 where f2: "run_state (FindArgoCDAgentPrincipalService ns) w2 = (f2, v2)" by (rule prod.exhaust)
  show ?thesis
  proof (cases x)
    case (Inr ep)
    then have ep: "ep = (addr, port)" using assms(2) x by (simp add: discoverEndpoint_def)
    obtain r0 rs where rs: "?rs = r0 # rs" using x Inr assms(1) by (cases ?rs) (simp_all add: discoverFromRoute_def run_simps)
    define r where "r = (case find ?P (r0 # rs) of Some r \<Rightarrow> r | None \<Rightarrow> r0)"
    have r: "rt_host r \<noteq> []" "addr = rt_host r"
      using x Inr assms(1) rs ep
      by (auto simp: discoverFromRoute_def routes.list_run Let_def r_def [symmetric] simp del: find.simps split: if_splits)
    have "find (\<lambda>r. ?P r \<and> rt_host r \<noteq> []) (r0 # rs) = Some r \<or> find (\<lambda>r. ?P r \<and> rt_host r \<noteq> []) (r0 # rs) = None \<and> r = r0"
      if "rt_host r \<noteq> []" using that unfolding r_def by (rule find_refine)
    with r have "\<exists>u. run_state (discoverRouteHostname ns) z = (Inr addr, u)"
      using assms(4) rs nz by (auto simp: discoverRouteHostname_def routes.list_run simp del: find.simps)
    then show ?thesis using h(3) r by blast
  next
    case (Inl e)
    show ?thesis
    proof (cases y)
      case (Inr ep)
      then have "ep = (addr, port)" using Inl assms(2) x y by (simp add: discoverEndpoint_def)
      then obtain s where "f = Inr s" "addr = ingress_address (sv_ingress s)" "addr \<noteq> []"
        using Inr y f by (auto simp: discoverFromLoadBalancer_def Let_def split: sum.splits if_splits option.splits)
      then have "addr \<in> set (ingress_hosts (sv_ingress s))" "principal_of ns w = Some s"
        using ingress_in_hosts principal_calm(3) [OF c1 f] pw(1) by auto
      then show ?thesis using h(4) by blast
    next
      case (Inl e2)
      then have n: "run_state (discoverFromNodePort ns) w2 = (Inr (addr, port), t)"
        using \<open>x = Inl e\<close> assms(2) x y by (auto simp: discoverEndpoint_def split: sum.splits prod.splits)
      have nv: "w_nodes v2 = w_nodes w" using pw(3) quiet_sel [OF principal_calm(1) [OF c2 f2]] by simp
      obtain s where s: "f2 = Inr s" "addr = node_address (map snd (w_nodes w))" "addr \<noteq> []" "node_port s \<noteq> 0"
        using n f2 principal_calm(2) [OF c2 f2] nv by (auto simp: discoverFromNodePort_def run_simps split: sum.splits if_splits option.splits)
      have ps: "principal_of ns w = Some s" using principal_calm(3) [OF c2 f2, of s] s(1) pw(2) by simp
      then have "f = Inr s" using principal_calm(3) [OF c1 f, of s] pw(1) by simp
      moreover have "service_port_text s \<noteq> None" using node_port_some [OF s(4)] by (auto simp: service_port_text_def split: option.splits list.splits)
      ultimately have "ingress_address (sv_ingress s) = []"
        using Inl y f by (auto simp: discoverFromLoadBalancer_def Let_def split: if_splits option.splits)
      then have i: "sv_ingress s = []" using assms(6) [OF ps] by blast
      obtain nd where "nd \<in> set (map snd (w_nodes w))" "(''InternalIP'', addr) \<in> set (nd_addresses nd)"
        using node_some s(2,3) by metis
      then show ?thesis using h(5) [OF ps i _ _ s(3)] by blast
    qed
  qed
qed

section \<open>What the library promises\<close>

definition caBundleName :: string where "caBundleName = ''argocd-agent-ca-bundle''"

text \<open>
  The documented behaviour of certificate rotation: waiting for caches reads, each function writes its own
  object only, and a certificate that was missing is issued for the hosts asked for (an existing one is
  kept until its time comes, and then issued for these hosts).
\<close>

definition issues :: "cert_lib \<Rightarrow> bool" where
  "issues lib \<longleftrightarrow>
     (\<forall>ns. state_io_rel quiet (lib_sync lib ns)) \<and>
     (\<forall>ns. state_io_rel (secrets.touches {(ns, principalCAName)}) (lib_signing lib ns)) \<and>
     (\<forall>ns ca. state_io_rel (configmaps.touches {(ns, caBundleName)}) (lib_bundle lib ns ca)) \<and>
     (\<forall>ns nm hosts ca b. state_io_rel (secrets.touches {(ns, nm)}) (lib_target lib ns nm hosts ca b)) \<and>
     (\<forall>ns nm hosts ca b w u t. run_state (lib_target lib ns nm hosts ca b) w = (Inr u, t) \<longrightarrow>
        (\<exists>s. map_of (w_secrets t) (ns, nm) = Some s \<and>
             (map_of (w_secrets w) (ns, nm) = Some s \<or> \<not> sans_drifted lib hosts s)))"

lemma issuesD:
  assumes "issues lib"
  shows "run_state (lib_sync lib ns) w = (r, t) \<Longrightarrow> quiet w t"
    "run_state (lib_signing lib ns) w = (q, t) \<Longrightarrow> secrets.touches {(ns, principalCAName)} w t"
    "run_state (lib_bundle lib ns ca) w = (q, t) \<Longrightarrow> configmaps.touches {(ns, caBundleName)} w t"
    "run_state (lib_target lib ns nm hosts ca b) w = (r, t) \<Longrightarrow> secrets.touches {(ns, nm)} w t"
proof -
  from assms have 1: "state_io_rel quiet (lib_sync lib ns)"
    and 2: "state_io_rel (secrets.touches {(ns, principalCAName)}) (lib_signing lib ns)"
    and 3: "state_io_rel (configmaps.touches {(ns, caBundleName)}) (lib_bundle lib ns ca)"
    and 4: "state_io_rel (secrets.touches {(ns, nm)}) (lib_target lib ns nm hosts ca b)"
    unfolding issues_def by simp_all
  show "run_state (lib_sync lib ns) w = (r, t) \<Longrightarrow> quiet w t" by (rule state_io_relD [OF 1])
  show "run_state (lib_signing lib ns) w = (q, t) \<Longrightarrow> secrets.touches {(ns, principalCAName)} w t" by (rule state_io_relD [OF 2])
  show "run_state (lib_bundle lib ns ca) w = (q, t) \<Longrightarrow> configmaps.touches {(ns, caBundleName)} w t" by (rule state_io_relD [OF 3])
  show "run_state (lib_target lib ns nm hosts ca b) w = (r, t) \<Longrightarrow> secrets.touches {(ns, nm)} w t" by (rule state_io_relD [OF 4])
qed

lemma issued:
  assumes "issues lib" and "run_state (lib_target lib ns nm hosts ca b) w = (Inr u, t)"
  shows "\<exists>s. map_of (w_secrets t) (ns, nm) = Some s \<and> (map_of (w_secrets w) (ns, nm) = Some s \<or> \<not> sans_drifted lib hosts s)"
  using assms(1) [unfolded issues_def, THEN conjunct2, THEN conjunct2, THEN conjunct2, THEN conjunct2] assms(2) by blast

lemma network_touched:
  "secrets.touches K w t \<Longrightarrow> same_network w t" "configmaps.touches K w t \<Longrightarrow> same_network w t" "quiet w t \<Longrightarrow> same_network w t"
  by (auto simp: same_network_def secrets.touches_def configmaps.touches_def quiet_sel)

text \<open>A step of a composed run that does not fail.\<close>

lemma wrap_error_run:
  "run_state (wrap_error text m k) w = (Inr x, t) \<longleftrightarrow>
    (\<exists>y u. run_state m w = (Inr y, u) \<and> run_state (k y) u = (Inr x, t))"
  by (auto simp: wrap_error_def split: prod.splits sum.splits)

lemma network_calm: "secrets.touches K w t \<Longrightarrow> calm w \<Longrightarrow> calm t" "configmaps.touches K w t \<Longrightarrow> calm w \<Longrightarrow> calm t"
  using secrets.touches_calm configmaps.touches_calm by blast+

lemma kept_keyed:
  "map_of (w_secrets t) k = map_of (w_secrets w) k \<Longrightarrow> keyed s_meta (w_secrets w) \<Longrightarrow> map_of (w_secrets t) k = Some s \<Longrightarrow> skey s = k"
  using keyedD [of s_meta "w_secrets w" k s] by (simp add: skey_def)

lemma drift_run_at:
  assumes "calm w" and "\<And>s. map_of (w_secrets w) (ns, nm) = Some s \<Longrightarrow> skey s = (ns, nm)"
    and "run_state (deleteSecretIfSANsDrifted lib ns nm hosts) w = (u, t)"
  shows "secrets.touches {(ns, nm)} w t
    \<and> (\<forall>s. map_of (w_secrets t) (ns, nm) = Some s \<longrightarrow> \<not> sans_drifted lib hosts s)"
proof (cases "map_of (w_secrets w) (ns, nm)")
  case None
  with assms show ?thesis
    by (auto simp: deleteSecretIfSANsDrifted_def run_simps secrets.touches_consume)
next
  case (Some s)
  have k: "skey s = (ns, nm)" using assms(2) [OF Some] .
  have "secrets.touches {(ns, nm)} w (w_secrets_update (mdel_key (ns, nm)) (consume (consume w)))"
    by (rule secrets.touches_trans [OF secrets.touches_consume]) (rule secrets.touches_upd, simp add: changes_only_def)
  with assms Some k show ?thesis
    by (auto simp: deleteSecretIfSANsDrifted_def run_simps has_key_def secrets.touches_consume split: if_splits)
qed

lemma tls_cert_run:
  assumes lib: "issues lib" and calm: "calm w" and keyed: "keyed s_meta (w_secrets w)" and nm: "nm \<noteq> principalCAName"
    and hosts: "state_io_rel quiet hostNames"
    and run: "run_state (ensureTLSCert lib what nm ns hostNames) w = (Inr x, t)"
  obtains desired v v' s where "calm v" "same_network w v" "run_state hostNames v = (desired, v')"
    "map_of (w_secrets t) (ns, nm) = Some s" "\<not> sans_drifted lib desired s"
proof -
  from run obtain u1 w1 where 1: "run_state (verifyCACertificateExists ns) w = (Inr u1, w1)"
    "run_state (do { s \<leftarrow> lib_sync lib ns;
       case s of
         Inl e \<Rightarrow> State_Monad.return (Inl e)
       | Inr u \<Rightarrow>
           wrap_error ''failed to load CA certificate'' (loadCACertificate lib ns) (\<lambda>(ca, bundle). do {
             desired \<leftarrow> hostNames;
             d \<leftarrow> deleteSecretIfSANsDrifted lib ns nm desired;
             wrap_error (''failed to ensure '' @ what @ '' TLS certificate'') (lib_target lib ns nm desired ca bundle)
               (\<lambda>u. State_Monad.return (Inr ()))
           })}) w1 = (Inr x, t)"
    unfolding ensureTLSCert_def wrap_error_run by blast
  obtain y w2 where y: "run_state (lib_sync lib ns) w1 = (y, w2)" by (rule prod.exhaust)
  with 1(2) obtain ca b w5 where 2: "run_state (loadCACertificate lib ns) w2 = (Inr (ca, b), w5)"
    "run_state (do {
             desired \<leftarrow> hostNames;
             d \<leftarrow> deleteSecretIfSANsDrifted lib ns nm desired;
             wrap_error (''failed to ensure '' @ what @ '' TLS certificate'') (lib_target lib ns nm desired ca b)
               (\<lambda>u. State_Monad.return (Inr ()))}) w5 = (Inr x, t)"
    by (auto simp: wrap_error_run split: sum.splits)
  then obtain w3 ca' where 3: "run_state (lib_signing lib ns) w2 = (Inr ca', w3)" "run_state (lib_bundle lib ns ca') w3 = (Inr b, w5)"
    by (auto simp: loadCACertificate_def wrap_error_run)
  obtain desired w6 where 6: "run_state hostNames w5 = (desired, w6)" by (rule prod.exhaust)
  obtain d w7 where 7: "run_state (deleteSecretIfSANsDrifted lib ns nm desired) w6 = (d, w7)" by (rule prod.exhaust)
  from 2(2) 6 7 obtain q where 8: "run_state (lib_target lib ns nm desired ca b) w7 = (Inr q, t)"
    by (auto simp: wrap_error_run)
  have q1: "quiet w w1" using 1(1) by (auto simp: verifyCACertificateExists_def run_simps quiet_consume)
  have q2: "quiet w1 w2" by (rule issuesD(1) [OF lib y])
  have t3: "secrets.touches {(ns, principalCAName)} w2 w3" by (rule issuesD(2) [OF lib 3(1)])
  have t5: "configmaps.touches {(ns, caBundleName)} w3 w5" by (rule issuesD(3) [OF lib 3(2)])
  have q6: "quiet w5 w6" by (rule state_io_relD [OF hosts 6])
  have c: "calm w2" using calm q1 q2 quiet_sel(19) by blast
  then have c5: "calm w5" using t3 t5 network_calm by blast
  then have c6: "calm w6" using q6 quiet_sel(19) by blast
  have n: "same_network w w5"
    using network_touched(3) [OF q1] network_touched(3) [OF q2] network_touched(1) [OF t3] network_touched(2) [OF t5]
    by (simp add: same_network_def)
  have "map_of (w_secrets w3) (ns, nm) = map_of (w_secrets w2) (ns, nm)"
    using changes_onlyD [OF secrets.touches_only [OF t3], of "(ns, nm)"] nm by simp
  then have "map_of (w_secrets w6) (ns, nm) = map_of (w_secrets w) (ns, nm)"
    using t5 quiet_sel(1) [OF q1] quiet_sel(1) [OF q2] quiet_sel(1) [OF q6] by (auto simp: configmaps.touches_def)
  then have "skey s = (ns, nm)" if "map_of (w_secrets w6) (ns, nm) = Some s" for s
    using kept_keyed [OF _ keyed that] by blast
  note dr = drift_run_at [OF c6 this 7]
  obtain s where s: "map_of (w_secrets t) (ns, nm) = Some s"
    "map_of (w_secrets w7) (ns, nm) = Some s \<or> \<not> sans_drifted lib desired s"
    using issued [OF lib 8] by blast
  have "\<not> sans_drifted lib desired s" using s(2) dr [THEN conjunct2, THEN spec, of s] by blast
  note s(1) this
  then show ?thesis by (rule that [OF c5 n 6])
qed

text \<open>when nothing is rejected and the principal's certificate is ensured, it covers the host's own names, the server
  address of the specification and, if discovery looks in the same namespace, every endpoint discovery can find, with
  the library as documented. The exception are services whose load balancer has only blank ingress points.\<close>

theorem principal_cert_covers:
  assumes "issues lib" and "calm w" and "keyed s_meta (w_secrets w)"
    and "\<And>s. principal_of (GetEffectiveArgoNamespace g) w = Some s \<Longrightarrow> sv_ingress s = [] \<or> ingress_address (sv_ingress s) \<noteq> []"
    and "run_state (EnsureArgoCDAgentPrincipalTLSCert lib g) w = (Inr x, t)"
  shows "\<exists>s hosts. map_of (w_secrets t) (GetEffectiveArgoNamespace g, ArgoCDAgentPrincipalTLSSecretName) = Some s
    \<and> \<not> sans_drifted lib hosts s \<and> set localHosts \<union> set (configured_address g) \<subseteq> set hosts
    \<and> (\<forall>addr port u. run_state (discoverEndpoint (GetEffectiveArgoNamespace g)) w = (Inr (addr, port), u) \<longrightarrow> addr \<in> set hosts)"
proof -
  let ?ns = "GetEffectiveArgoNamespace g"
  have nm: "ArgoCDAgentPrincipalTLSSecretName \<noteq> principalCAName"
    by (simp add: ArgoCDAgentPrincipalTLSSecretName_def principalCAName_def)
  from assms(5) have "run_state (ensureTLSCert lib ''principal'' ArgoCDAgentPrincipalTLSSecretName ?ns (getPrincipalHostNames ?ns g)) w = (Inr x, t)"
    by (simp add: EnsureArgoCDAgentPrincipalTLSCert_def Let_def)
  then obtain hosts v v' s where
    r: "calm v" "same_network w v" "run_state (getPrincipalHostNames ?ns g) v = (hosts, v')"
    "map_of (w_secrets t) (?ns, ArgoCDAgentPrincipalTLSSecretName) = Some s" "\<not> sans_drifted lib hosts s"
    by (rule tls_cert_run [OF assms(1-3) nm principal_hosts_quiet])
  note h = principal_hosts_calm(1,2) [OF r(1,3)]
  have "addr \<in> set hosts" if "run_state (discoverEndpoint ?ns) w = (Inr (addr, port), u)" for addr port u
    using assms(4) by (rule discovered_host [OF assms(2) that r(3,1,2)])
  then have d: "\<forall>addr port u. run_state (discoverEndpoint ?ns) w = (Inr (addr, port), u) \<longrightarrow> addr \<in> set hosts"
    by blast
  show ?thesis by (intro exI [of _ s] exI [of _ hosts] conjI r(4,5) d Un_least h)
qed

text \<open>A library whose certificates list their hosts: each character after a dot, each host closed by a mark.\<close>

fun pack :: "string list \<Rightarrow> string" where
  "pack [] = []"
| "pack (h # hs) = concat (map (\<lambda>c. [CHR ''.'', c]) h) @ CHR ''!'' # pack hs"

fun unpack :: "string \<Rightarrow> string \<Rightarrow> string list" where
  "unpack acc [] = []"
| "unpack acc [c] = (if c = CHR ''!'' then [acc] else [])"
| "unpack acc (c # d # r) = (if c = CHR ''!'' then acc # unpack [] (d # r) else unpack (acc @ [d]) r)"

lemma unpack_mark: "unpack acc (CHR ''!'' # r) = acc # unpack [] r"
  by (cases r) auto

lemma unpack_pack: "unpack acc (concat (map (\<lambda>c. [CHR ''.'', c]) h) @ CHR ''!'' # r) = (acc @ h) # unpack [] r"
  by (induction h arbitrary: acc) (simp_all add: unpack_mark)

lemma unpack_all: "unpack [] (pack hs) = hs"
  by (induction hs) (simp_all add: unpack_pack)

definition listing_secret :: "string \<Rightarrow> string \<Rightarrow> string list \<Rightarrow> secret" where
  "listing_secret nm ns hosts = \<lparr>s_meta = plain_meta nm ns [] [], s_type = ''kubernetes.io/tls'',
     s_data = [(''tls.crt'', pack hosts)], s_string_data = []\<rparr>"

definition listing_lib :: cert_lib where
  "listing_lib = \<lparr>
     lib_sync = (\<lambda>ns. State_Monad.return (Inr ())),
     lib_signing = (\<lambda>ns. State_Monad.return (Inr ''CA'')),
     lib_bundle = (\<lambda>ns ca. State_Monad.return (Inr ca)),
     lib_target = (\<lambda>ns nm hosts ca b. do {
       g \<leftarrow> get_secret (ns, nm);
       case g of
         Inr s \<Rightarrow> State_Monad.return (Inr ())
       | Inl e \<Rightarrow> create_secret (listing_secret nm ns hosts)
     }),
     lib_sans = (\<lambda>pem. Some (unpack [] pem)),
     lib_canon = (\<lambda>h. h)\<rparr>"

lemma listing_secret: "skey (listing_secret nm ns hosts) = (ns, nm)"
  "persist_secret (listing_secret nm ns hosts) = listing_secret nm ns hosts"
  "\<not> sans_drifted listing_lib hosts (listing_secret nm ns hosts)"
  by (simp_all add: listing_secret_def skey_def persist_secret_def sans_drifted_def missing_hosts_def listing_lib_def unpack_all)

lemma listing_target:
  "lib_target listing_lib ns nm hosts ca b = do {
     g \<leftarrow> get_secret (ns, nm);
     case g of Inr s \<Rightarrow> State_Monad.return (Inr ()) | Inl e \<Rightarrow> create_secret (listing_secret nm ns hosts)
   }"
  by (simp add: listing_lib_def)

lemma listing_lib_issues: "issues listing_lib"
  unfolding issues_def
proof (intro conjI allI impI)
  fix ns nm ca b :: string and hosts w u t
  show "state_io_rel quiet (lib_sync listing_lib ns)"
    unfolding listing_lib_def cert_lib.simps by (intro quiet.frame_rules)
  show "state_io_rel (secrets.touches {(ns, principalCAName)}) (lib_signing listing_lib ns)"
    unfolding listing_lib_def cert_lib.simps by (intro secrets.touching.frame_rules)
  show "state_io_rel (configmaps.touches {(ns, caBundleName)}) (lib_bundle listing_lib ns ca)"
    unfolding listing_lib_def cert_lib.simps by (intro configmaps.touching.frame_rules)
  show "state_io_rel (secrets.touches {(ns, nm)}) (lib_target listing_lib ns nm hosts ca b)"
    unfolding listing_lib_def cert_lib.simps
    by (intro secrets.touching.frame_rules secrets.get_touches create_secret_touches) (simp add: listing_secret)
  assume "run_state (lib_target listing_lib ns nm hosts ca b) w = (Inr u, t)"
  then show "\<exists>s. map_of (w_secrets t) (ns, nm) = Some s \<and> (map_of (w_secrets w) (ns, nm) = Some s \<or> \<not> sans_drifted listing_lib hosts s)"
    by (auto simp: listing_target run_simps listing_secret
        split: sum.splits option.splits if_splits prod.splits)
qed

lemma ca_world_empty:
  "consume ca_world = ca_world" "w_routes ca_world = []" "w_services ca_world = []" "w_nodes ca_world = []"
  "map_of (w_secrets ca_world) (ns, ArgoCDAgentPrincipalTLSSecretName) = None"
  "map_of (w_secrets ca_world) (GetEffectiveArgoNamespace sample_gitops, principalCAName) \<noteq> None"
  by (simp_all add: ca_world_def empty_world_def consume_def ArgoCDAgentPrincipalTLSSecretName_def principalCAName_def)

lemma ca_world_hosts: "\<exists>hosts. run_state (getPrincipalHostNames ns g) ca_world = (hosts, ca_world)"
  by (simp add: getPrincipalHostNames_def discoverRouteHostname_def FindArgoCDAgentPrincipalService_def
      tryPrincipalName_def appendNodeIPs_def run_simps ca_world_good ca_world_empty Let_def)

lemma ca_world_issued:
  "\<exists>t. run_state (EnsureArgoCDAgentPrincipalTLSCert listing_lib sample_gitops) ca_world = (Inr (), t)"
proof -
  let ?ns = "GetEffectiveArgoNamespace sample_gitops"
  obtain hosts where h: "run_state (getPrincipalHostNames ?ns sample_gitops) ca_world = (hosts, ca_world)"
    using ca_world_hosts by blast
  obtain s where s: "map_of (w_secrets ca_world) (?ns, principalCAName) = Some s"
    using ca_world_empty(6) by blast
  show ?thesis
    by (simp add: EnsureArgoCDAgentPrincipalTLSCert_def Let_def ensureTLSCert_def wrap_error_def verifyCACertificateExists_def
        loadCACertificate_def deleteSecretIfSANsDrifted_def run_simps ca_world_good ca_world_empty h s listing_lib_def
        has_key_def listing_secret)
qed

theorem principal_cert_covers_witness:
  "\<exists>s hosts. map_of (w_secrets (snd (run_state (EnsureArgoCDAgentPrincipalTLSCert listing_lib sample_gitops) ca_world)))
       (GetEffectiveArgoNamespace sample_gitops, ArgoCDAgentPrincipalTLSSecretName) = Some s
     \<and> \<not> sans_drifted listing_lib hosts s \<and> ''localhost'' \<in> set hosts"
proof -
  obtain t where run: "run_state (EnsureArgoCDAgentPrincipalTLSCert listing_lib sample_gitops) ca_world = (Inr (), t)"
    using ca_world_issued by blast
  have k: "keyed s_meta (w_secrets ca_world)" by (simp add: ca_world_def empty_world_def keyed_def)
  have p: "principal_of ns ca_world = None" for ns by (simp add: ca_world_empty principal_of_def)
  from principal_cert_covers [OF listing_lib_issues ca_world_good(1) k _ run] p obtain s hosts where
    "map_of (w_secrets t) (GetEffectiveArgoNamespace sample_gitops, ArgoCDAgentPrincipalTLSSecretName) = Some s"
    "\<not> sans_drifted listing_lib hosts s" "set localHosts \<subseteq> set hosts" by auto
  with run show ?thesis by (auto simp: localHosts_def)
qed

end
