(* ===== verification/GoNet.thy ===== *)
theory GoNet
  imports Base64
begin

text \<open>
  The parts of the Go standard library that deal with addresses and encodings: which texts
  \<open>netip.ParseAddr\<close> and \<open>netip.ParseAddrPort\<close> accept, \<open>strconv.ParseUint\<close> for ports and
  \<open>pem.EncodeToMemory\<close> without headers.
\<close>

definition is_digit :: "char \<Rightarrow> bool" where
  "is_digit c \<longleftrightarrow> c \<in> set ''0123456789''"

definition is_hex :: "char \<Rightarrow> bool" where
  "is_hex c \<longleftrightarrow> is_digit c \<or> c \<in> set ''abcdefABCDEF''"

definition decimal :: "string \<Rightarrow> nat" where
  "decimal s = fold (\<lambda>c n. 10 * n + (of_char c - 48)) s 0"

definition parse_uint16 :: "string \<Rightarrow> nat option" where
  "parse_uint16 s =
     (if s \<noteq> [] \<and> list_all is_digit s \<and> decimal s < 2 ^ 16 then Some (decimal s) else None)"

section \<open>Addresses\<close>

definition octet_ok :: "string \<Rightarrow> bool" where
  "octet_ok p \<longleftrightarrow> p \<noteq> [] \<and> list_all is_digit p \<and> (length p > 1 \<longrightarrow> hd p \<noteq> CHR ''0'') \<and> decimal p \<le> 255"

definition ipv4_ok :: "string \<Rightarrow> bool" where
  "ipv4_ok s \<longleftrightarrow> length (split_char CHR ''.'' s) = 4 \<and> list_all octet_ok (split_char CHR ''.'' s)"

text \<open>
  The loop of \<open>parseIPv6\<close>: how many of the eight groups are missing, whether \<open>::\<close> was seen, and the rest of the text.
  At the end groups may be missing exactly if there is a \<open>::\<close> to stand for them.
\<close>

fun ipv6_groups :: "nat \<Rightarrow> bool \<Rightarrow> string \<Rightarrow> bool" where
  "ipv6_groups 0 ell s \<longleftrightarrow> s = [] \<and> \<not> ell"
| "ipv6_groups (Suc r) ell s \<longleftrightarrow>
     (let g = takeWhile is_hex s; t = dropWhile is_hex s in
      if g = [] \<or> 4 < length g then False
      else
        (case t of
           [] \<Rightarrow> ell = (0 < r)
         | c # u \<Rightarrow>
             if c = CHR ''.'' then (ell \<or> r = 1) \<and> 1 \<le> r \<and> ipv4_ok s \<and> ell = (1 < r)
             else if c \<noteq> CHR '':'' then False
             else
               (case u of
                  [] \<Rightarrow> False
                | d # v \<Rightarrow>
                    if d = CHR '':'' then \<not> ell \<and> (if v = [] then 0 < r else ipv6_groups r True v)
                    else ipv6_groups r ell u)))"

definition ipv6_ok :: "string \<Rightarrow> bool" where
  "ipv6_ok s \<longleftrightarrow>
     (let a = takeWhile (\<lambda>c. c \<noteq> CHR ''%'') s; z = dropWhile (\<lambda>c. c \<noteq> CHR ''%'') s in
      length z \<noteq> 1 \<and>
      (if has_prefix a ''::'' then (drop 2 a = [] \<or> ipv6_groups 8 True (drop 2 a)) else ipv6_groups 8 False a))"

datatype ip_version = IPv4 | IPv6

definition parse_addr :: "string \<Rightarrow> ip_version option" where
  "parse_addr s =
     (case find (\<lambda>c. c \<in> set ''.:%'') s of
        Some c \<Rightarrow>
          if c = CHR ''.'' then (if ipv4_ok s then Some IPv4 else None)
          else if c = CHR '':'' then (if ipv6_ok s then Some IPv6 else None)
          else None
      | None \<Rightarrow> None)"

text \<open>An address and a port: the text is split at its last colon, and the brackets around an IPv6 address are needed.\<close>

definition parse_addr_port :: "string \<Rightarrow> bool" where
  "parse_addr_port s \<longleftrightarrow>
     (let r = rev s; port = rev (takeWhile (\<lambda>c. c \<noteq> CHR '':'') r); rest = dropWhile (\<lambda>c. c \<noteq> CHR '':'') r in
      rest \<noteq> [] \<and>
      (let ip = rev (tl rest) in
       ip \<noteq> [] \<and> parse_uint16 port \<noteq> None \<and>
       (if hd ip = CHR ''['' then 2 \<le> length ip \<and> last ip = CHR '']'' \<and> parse_addr (butlast (tl ip)) = Some IPv6
        else parse_addr ip = Some IPv4)))"

section \<open>PEM\<close>

fun pem_lines :: "nat \<Rightarrow> string \<Rightarrow> string" where
  "pem_lines k [] = (if k = 0 then [] else [CHR 0x0A])"
| "pem_lines k (c # s) = (if k = 63 then c # CHR 0x0A # pem_lines 0 s else c # pem_lines (Suc k) s)"

definition pem_encode :: "string \<Rightarrow> string \<Rightarrow> string" where
  "pem_encode ty bytes =
     ''-----BEGIN '' @ ty @ ''-----'' @ [CHR 0x0A] @ pem_lines 0 (base64_encode bytes) @
     ''-----END '' @ ty @ ''-----'' @ [CHR 0x0A]"

end
