(* ===== verification/AgentClusters.thy ===== *)
theory AgentClusters
  imports ServerDiscovery HubCA JsonText GoNet
begin

text \<open>
  \<open>pkg/controller/gitopscluster/argocd_agent_clusters.go\<close>: the Argo CD cluster secrets of a hub whose
  clusters run the Argo CD agent. The validity of names (\<open>k8s.io/apimachinery/pkg/api/validation\<close>) and the parsing of the
  CA's key pair (\<open>crypto/tls\<close>) are the argument \<open>lib\<close>; what each cluster draws from the random source, its
  client key, certificate and password, is the argument \<open>draws\<close>, by position in the list of clusters.
\<close>

record agent_lib =
  al_dns :: "string \<Rightarrow> bool"
  al_pair :: "string \<Rightarrow> string \<Rightarrow> goerr + string"

record agent_draw =
  dw_key :: "goerr + string"
  dw_sign :: "string \<Rightarrow> string \<Rightarrow> goerr + string"
  dw_password :: "goerr + string"

section \<open>Cluster configuration\<close>

definition annotationKeyAppSkipReconcile :: string where
  "annotationKeyAppSkipReconcile = ''argocd.argoproj.io/skip-reconcile''"

definition lastAppliedAnnotation :: string where
  "lastAppliedAnnotation = ''kubectl.kubernetes.io/last-applied-configuration''"

record tls_client_config =
  tc_insecure :: bool
  tc_ca :: string
  tc_cert :: string
  tc_key :: string

record argo_cluster =
  ac_server :: string
  ac_name :: string
  ac_username :: string
  ac_password :: string
  ac_tls :: tls_client_config
  ac_labels :: smap
  ac_annos :: smap

definition opt_field :: "string \<Rightarrow> string \<Rightarrow> string \<Rightarrow> (string \<times> string) list" where
  "opt_field k v t = (if v = [] then [] else [(k, t)])"

definition tls_json :: "tls_client_config \<Rightarrow> string" where
  "tls_json c = json_struct
     ((if tc_insecure c then [(''insecure'', ''true'')] else []) @
      opt_field ''caData'' (tc_ca c) (json_string (base64_encode (tc_ca c))) @
      opt_field ''certData'' (tc_cert c) (json_string (base64_encode (tc_cert c))) @
      opt_field ''keyData'' (tc_key c) (json_string (base64_encode (tc_key c))))"

definition config_json :: "argo_cluster \<Rightarrow> string" where
  "config_json c = json_struct
     (opt_field ''username'' (ac_username c) (json_string (ac_username c)) @
      opt_field ''password'' (ac_password c) (json_string (ac_password c)) @
      [(''tlsClientConfig'', tls_json (ac_tls c))])"

text \<open>The labels of the secret kept are those it had; the caller always passes a new one.\<close>

definition clusterToSecret :: "argo_cluster \<Rightarrow> secret \<Rightarrow> goerr + secret" where
  "clusterToSecret c s =
     (let labels = mset_key argoSecretType ''cluster'' (ac_labels c);
          kept = (case map_of (m_labels (s_meta s)) ACMClusterNameLabel of
                    None \<Rightarrow> labels | Some v \<Rightarrow> mset_key ACMClusterNameLabel v labels) in
      if has_key (ac_annos c) lastAppliedAnnotation then
        Inl (ErrText (''annotation '' @ lastAppliedAnnotation @ '' cannot be set''))
      else Inr (s\<lparr>
        s_data := [(''server'', trim_right (ac_server c) ''/''),
                   (''name'', if ac_name c = [] then ac_server c else ac_name c),
                   (''config'', config_json c)],
        s_meta := (s_meta s)\<lparr>m_labels := kept, m_annos := mset_key ''managed-by'' ''argocd-agent'' (ac_annos c)\<rparr>\<rparr>))"

section \<open>Server addresses\<close>

definition constructServerURL :: "agent_lib \<Rightarrow> string \<Rightarrow> string \<Rightarrow> string \<Rightarrow> goerr + string" where
  "constructServerURL lib addr port agent =
     (let address = addr @ '':'' @ port;
          host = takeWhile (\<lambda>c. c \<noteq> CHR '':'') address;
          rest = tl (dropWhile (\<lambda>c. c \<noteq> CHR '':'') address) in
      if \<not> parse_addr_port address \<and> \<not> al_dns lib host then Inl (ErrText (''invalid hostname: '' @ host))
      else if \<not> parse_addr_port address \<and> parse_uint16 rest = None then Inl (ErrText (''invalid port: '' @ rest))
      else if \<not> al_dns lib agent then Inl (ErrText (''invalid agent name: '' @ agent))
      else Inr (''https://'' @ address @ ''?agentName='' @ agent))"

definition constructResourceProxyURL :: "agent_lib \<Rightarrow> string \<Rightarrow> string \<Rightarrow> int \<Rightarrow> string \<Rightarrow> goerr + string" where
  "constructResourceProxyURL lib svc ns port agent =
     (if \<not> al_dns lib agent then Inl (ErrText (''invalid agent name: '' @ agent))
      else Inr (''https://'' @ svc @ ''.'' @ ns @ ''.svc:'' @ itoa port @ ''?agentName='' @ agent))"

definition getArgoCDAgentServerConfig :: "gitops_cluster \<Rightarrow> goerr + string \<times> string" where
  "getArgoCDAgentServerConfig g =
     (let addr = (case agent_of g of None \<Rightarrow> [] | Some a \<Rightarrow> ag_server_address a);
          port = (case agent_of g of None \<Rightarrow> ''443'' | Some a \<Rightarrow> if ag_server_port a = [] then ''443'' else ag_server_port a) in
      if addr = [] then Inl (ErrText ''ArgoCD agent server address not configured in GitOpsCluster spec'')
      else Inr (addr, port))"

text \<open>The strategy for the addresses: the resource proxy's service, or the configured address.\<close>

type_synonym url_source = "(string \<times> int) + string \<times> string"

definition server_url :: "agent_lib \<Rightarrow> string \<Rightarrow> url_source \<Rightarrow> string \<Rightarrow> goerr + string" where
  "server_url lib ns src agent =
     (case src of
        Inl (svc, port) \<Rightarrow> constructResourceProxyURL lib svc ns port agent
      | Inr (addr, port) \<Rightarrow> constructServerURL lib addr port agent)"

definition choose_source :: "gitops_cluster \<Rightarrow> string \<Rightarrow> url_source api" where
  "choose_source g ns = do {
     p \<leftarrow> FindArgoCDAgentResourceProxyService ns;
     State_Monad.return (case p of
       Inr (svc, port) \<Rightarrow> Inr (Inl (m_name (sv_meta svc), port))
     | Inl e \<Rightarrow>
         (case getArgoCDAgentServerConfig g of
            Inl e \<Rightarrow> Inl (Wrapped ''resource proxy unavailable and external server address not configured'' e)
          | Inr a \<Rightarrow> Inr (Inr a)))
   }"

section \<open>Keys and certificates\<close>

definition loadPrincipalCACertificate :: "agent_lib \<Rightarrow> string \<Rightarrow> (string \<times> string) api" where
  "loadPrincipalCACertificate lib ns = do {
     g \<leftarrow> get_secret (ns, principalCAName);
     State_Monad.return (case g of
       Inl e \<Rightarrow> Inl (Wrapped ''failed to get principal CA secret'' e)
     | Inr s \<Rightarrow>
         (case map_of (s_data s) ''tls.crt'' of
            None \<Rightarrow> Inl (ErrText ''CA certificate not found in secret'')
          | Some cert \<Rightarrow>
              (case map_of (s_data s) ''tls.key'' of
                 None \<Rightarrow> Inl (ErrText ''CA private key not found in secret'')
               | Some key \<Rightarrow>
                   (case al_pair lib cert key of
                      Inl e \<Rightarrow> Inl (Wrapped ''failed to parse CA certificate'' e)
                    | Inr der \<Rightarrow> Inr (der, pem_encode ''CERTIFICATE'' der)))))
   }"

definition generateAgentClientCertificate :: "agent_draw \<Rightarrow> string \<Rightarrow> string \<Rightarrow> goerr + string \<times> string" where
  "generateAgentClientCertificate d agent signer =
     (case dw_key d of
        Inl e \<Rightarrow> Inl (Wrapped ''failed to generate client key'' e)
      | Inr key \<Rightarrow>
          (case dw_sign d agent signer of
             Inl e \<Rightarrow> Inl (Wrapped ''failed to create client certificate'' e)
           | Inr der \<Rightarrow> Inr (pem_encode ''CERTIFICATE'' der, pem_encode ''RSA PRIVATE KEY'' key)))"

definition generateRandomPassword :: "agent_draw \<Rightarrow> goerr + string" where
  "generateRandomPassword d = (case dw_password d of Inl e \<Rightarrow> Inl e | Inr bytes \<Rightarrow> Inr (base64_encode bytes))"

section \<open>Secrets\<close>

definition is_blank_secret :: "string \<Rightarrow> string \<Rightarrow> secret \<Rightarrow> bool" where
  "is_blank_secret ns cluster s \<longleftrightarrow>
     m_ns (s_meta s) = ns \<and>
     has_labels [(argoSecretType, ''cluster''), (ArgocdClusterSecretLabel, ''true''),
       (ACMClusterNameLabel, cluster), (dataSourceLabel, ''blank'')] (m_labels (s_meta s))"

definition deleteBlank :: "unit \<Rightarrow> secret \<Rightarrow> unit api" where
  "deleteBlank u s = do {
     d \<leftarrow> delete_secret (skey s);
     State_Monad.return (case d of
       Inl e \<Rightarrow> if is_not_found e then Inr ()
                else Inl (Wrapped (''failed to delete blank cluster secret '' @ m_name (s_meta s)) e)
     | Inr v \<Rightarrow> Inr ())
   }"

definition deleteBlankClusterSecretsForCluster :: "string \<Rightarrow> string \<Rightarrow> unit api" where
  "deleteBlankClusterSecretsForCluster cluster ns = do {
     l \<leftarrow> list_secrets (is_blank_secret ns cluster);
     case l of
       Inl e \<Rightarrow> State_Monad.return (Inl (Wrapped (''failed to list blank cluster secrets for cluster '' @ cluster) e))
     | Inr items \<Rightarrow> loopE deleteBlank () items
   }"

definition inClusterServerURL :: string where "inClusterServerURL = ''https://kubernetes.default.svc''"

definition findLocalCluster :: "managed_cluster option api" where
  "findLocalCluster = do {
     l \<leftarrow> list_clusters (\<lambda>_. True);
     State_Monad.return (case l of
       Inl e \<Rightarrow> Inl (Wrapped ''failed to list ManagedClusters'' e)
     | Inr items \<Rightarrow> Inr (find (\<lambda>c. IsLocalCluster (Some c)) items))
   }"

definition localSecret :: "string \<Rightarrow> string \<Rightarrow> secret" where
  "localSecret ns cluster =
     \<lparr>s_meta = plain_meta (''cluster-'' @ cluster) ns [(argoSecretType, ''cluster'')] [], s_type = ''Opaque'',
      s_data = [(''name'', cluster), (''server'', inClusterServerURL), (''config'', ''{}'')], s_string_data = []\<rparr>"

definition storeLocalSecret :: "secret \<Rightarrow> unit api" where
  "storeLocalSecret s = do {
     g \<leftarrow> get_secret (skey s);
     case g of
       Inl e \<Rightarrow>
         (if \<not> is_not_found e then State_Monad.return (Inl (Wrapped ''failed to check existing local-cluster secret'' e))
          else do {
            c \<leftarrow> create_secret s;
            State_Monad.return (case c of
              Inl e \<Rightarrow> Inl (Wrapped (''failed to create local-cluster secret '' @ m_name (s_meta s)) e) | Inr u \<Rightarrow> Inr ())
          })
     | Inr existing \<Rightarrow> do {
         u \<leftarrow> update_secret s;
         State_Monad.return (case u of
           Inl e \<Rightarrow> Inl (Wrapped (''failed to update local-cluster secret '' @ m_name (s_meta s)) e) | Inr u \<Rightarrow> Inr ())
       }
   }"

definition noLocalCluster :: string where
  "noLocalCluster = ''no ManagedCluster identified as local-cluster (name '' @ [CHR 0x22] @ ''local-cluster'' @ [CHR 0x22] @
     '' or '' @ [CHR 0x22] @ ''local-cluster: true'' @ [CHR 0x22] @ '' label) - cannot register the in-cluster ArgoCD secret''"

definition ensureLocalClusterSecret :: "string \<Rightarrow> orphans \<Rightarrow> (world, orphans \<times> (goerr + unit)) state" where
  "ensureLocalClusterSecret ns orph = do {
     f \<leftarrow> findLocalCluster;
     case f of
       Inl e \<Rightarrow> State_Monad.return (orph, Inl (Wrapped ''failed to find local-cluster'' e))
     | Inr None \<Rightarrow> State_Monad.return (orph, Inl (ErrText noLocalCluster))
     | Inr (Some c) \<Rightarrow> do {
         r \<leftarrow> storeLocalSecret (localSecret ns (mc_name c));
         State_Monad.return (mdel_key (ns, ''cluster-'' @ mc_name c) orph, r)
       }
   }"

text \<open>What is computed for a cluster before its secret is written; every failure only skips the cluster.\<close>

definition agentCluster :: "agent_lib \<Rightarrow> agent_draw \<Rightarrow> url_source \<Rightarrow> string \<Rightarrow> string \<times> string \<Rightarrow> managed_cluster \<Rightarrow> goerr + argo_cluster" where
  "agentCluster lib d src ns ca cluster =
     (let name = mc_name cluster in
      and_then (generateAgentClientCertificate d name (fst ca)) (\<lambda>(cert, key).
      and_then (generateRandomPassword d) (\<lambda>password.
      and_then (server_url lib ns src name) (\<lambda>url. Inr
        \<lparr>ac_server = url, ac_name = name, ac_username = name, ac_password = password,
         ac_tls = \<lparr>tc_insecure = False, tc_ca = snd ca, tc_cert = cert, tc_key = key\<rparr>,
         ac_labels = add_missing [(labelKeyClusterAgentMapping, name), (argoSecretType, ''cluster'')] (mc_labels cluster),
         ac_annos = [(annotationKeyAppSkipReconcile, ''true'')]\<rparr>))))"

definition agentSecret :: "agent_lib \<Rightarrow> agent_draw \<Rightarrow> url_source \<Rightarrow> string \<Rightarrow> string \<times> string \<Rightarrow> managed_cluster \<Rightarrow> goerr + secret" where
  "agentSecret lib d src ns ca cluster =
     and_then (agentCluster lib d src ns ca cluster) (\<lambda>c.
       clusterToSecret c \<lparr>s_meta = plain_meta (''cluster-'' @ mc_name cluster) ns [] [], s_type = [], s_data = [], s_string_data = []\<rparr>)"

definition registerAgentCluster ::
  "agent_lib \<Rightarrow> agent_draw \<Rightarrow> url_source \<Rightarrow> string \<Rightarrow> string \<times> string \<Rightarrow> managed_cluster \<Rightarrow> (world, unit) state" where
  "registerAgentCluster lib d src ns ca cluster = do {
     g \<leftarrow> get_secret (ns, ''cluster-'' @ mc_name cluster);
     if (case g of Inl e \<Rightarrow> \<not> is_not_found e | Inr s \<Rightarrow> False) then State_Monad.return ()
     else
       (case agentSecret lib d src ns ca cluster of
          Inl e \<Rightarrow> State_Monad.return ()
        | Inr s \<Rightarrow> do {
            w \<leftarrow> (case g of Inl e \<Rightarrow> create_secret s | Inr x \<Rightarrow> update_secret s);
            case w of
              Inl e \<Rightarrow> State_Monad.return ()
            | Inr u \<Rightarrow> do {
                d \<leftarrow> deleteBlankClusterSecretsForCluster (mc_name cluster) ns;
                State_Monad.return ()
              }
          })
   }"

definition createAgentCluster ::
  "agent_lib \<Rightarrow> (nat \<Rightarrow> agent_draw) \<Rightarrow> url_source \<Rightarrow> string \<Rightarrow> string \<times> string \<Rightarrow> orphans \<Rightarrow> nat \<times> managed_cluster
    \<Rightarrow> (world, orphans) state" where
  "createAgentCluster lib draws src ns ca orph entry =
     (let cluster = snd entry; name = mc_name cluster in
      if IsLocalCluster (Some cluster) \<or> \<not> al_dns lib name then State_Monad.return orph
      else do {
        u \<leftarrow> registerAgentCluster lib (draws (fst entry)) src ns ca cluster;
        State_Monad.return (mdel_key (ns, name @ ''-gitops-cluster'') (mdel_key (ns, ''cluster-'' @ name) orph))
      })"

definition CreateArgoCDAgentClusters ::
  "agent_lib \<Rightarrow> (nat \<Rightarrow> agent_draw) \<Rightarrow> gitops_cluster \<Rightarrow> managed_cluster list \<Rightarrow> orphans
    \<Rightarrow> (world, orphans \<times> (goerr + unit)) state" where
  "CreateArgoCDAgentClusters lib draws g cs orph =
     (let ns = gs_argo_ns (gc_spec g) in
      if ns = [] then State_Monad.return (orph, Inl (ErrText ''ArgoCDnamespace must not be empty''))
      else do {
        l \<leftarrow> ensureLocalClusterSecret ns orph;
        case l of
          (orph1, Inl e) \<Rightarrow> State_Monad.return (orph1, Inl (Wrapped ''failed to ensure local-cluster secret'' e))
        | (orph1, Inr u) \<Rightarrow> do {
            p \<leftarrow> choose_source g ns;
            case p of
              Inl e \<Rightarrow> State_Monad.return (orph1, Inl e)
            | Inr src \<Rightarrow> do {
                k \<leftarrow> loadPrincipalCACertificate lib ns;
                case k of
                  Inl e \<Rightarrow> State_Monad.return (orph1, Inl (Wrapped ''failed to load principal CA certificate'' e))
                | Inr ca \<Rightarrow> do {
                    orph2 \<leftarrow> loopM (createAgentCluster lib draws src ns ca) orph1 (List.enumerate 0 cs);
                    State_Monad.return (orph2, Inr ())
                  }
              }
          }
      })"

section \<open>What is written\<close>

lemma agentSecretD:
  assumes "agentSecret lib d src ns ca c = Inr s"
  shows "skey s = (ns, ''cluster-'' @ mc_name c)" "persist_secret s = s"
    "map_of (m_labels (s_meta s)) = (map_of (mc_labels c))(labelKeyClusterAgentMapping \<mapsto> mc_name c, argoSecretType \<mapsto> ''cluster'')"
    "map_of (m_annos (s_meta s)) = [annotationKeyAppSkipReconcile \<mapsto> ''true'', ''managed-by'' \<mapsto> ''argocd-agent'']"
    "mc_name c \<noteq> [] \<Longrightarrow> map_of (s_data s) ''name'' = Some (mc_name c)"
    "\<exists>url. server_url lib ns src (mc_name c) = Inr url \<and> map_of (s_data s) ''server'' = Some (trim_right url ''/'')"
    "\<exists>cfg. map_of (s_data s) ''config'' = Some cfg"
  using assms
  by (auto simp: agentSecret_def agentCluster_def clusterToSecret_def Let_def and_then_Inr skey_def persist_secret_def
      has_key_def fun_eq_iff map_add_def annotationKeyAppSkipReconcile_def lastAppliedAnnotation_def split: option.splits if_splits)

text \<open>The keys the secrets of clusters are written to.\<close>

definition agent_targets :: "string \<Rightarrow> managed_cluster set \<Rightarrow> nsname set" where
  "agent_targets ns cs = (\<lambda>c. (ns, ''cluster-'' @ mc_name c)) ` cs"

definition local_clusters :: "world \<Rightarrow> managed_cluster set" where
  "local_clusters w = {c \<in> set (map snd (w_clusters w)). IsLocalCluster (Some c)}"

text \<open>
  Outside the targets a secret is as it was, or it was the blank secret of one of the named clusters
  and is gone.
\<close>

definition blank_before :: "string \<Rightarrow> string set \<Rightarrow> world \<Rightarrow> nsname \<Rightarrow> bool" where
  "blank_before ns N w k \<longleftrightarrow> (\<exists>x n. map_of (w_secrets w) k = Some x \<and> n \<in> N \<and> is_blank_secret ns n x)"

definition kept_or_blank :: "string \<Rightarrow> string set \<Rightarrow> world \<Rightarrow> nsname \<Rightarrow> secret option \<Rightarrow> bool" where
  "kept_or_blank ns N w k x \<longleftrightarrow> x = map_of (w_secrets w) k \<or> x = None \<and> blank_before ns N w k"

definition agent_writes :: "nsname set \<Rightarrow> string \<Rightarrow> string set \<Rightarrow> world \<Rightarrow> world \<Rightarrow> bool" where
  "agent_writes T ns N w s \<longleftrightarrow>
     keyed s_meta (w_secrets s) \<and> w_clusters s = w_clusters w \<and>
     (\<forall>k. k \<notin> T \<longrightarrow> kept_or_blank ns N w k (map_of (w_secrets s) k))"

abbreviation keeps_agent_writes where
  "keeps_agent_writes T ns N w \<equiv> state_io_rel (\<lambda>s t. agent_writes T ns N w s \<longrightarrow> agent_writes T ns N w t)"

lemma agent_writes_quiet:
  assumes "quiet s t" and "agent_writes T ns N w s" shows "agent_writes T ns N w t"
  using assms(2) unfolding agent_writes_def quiet_sel(1) [OF assms(1)] quiet_sel(6) [OF assms(1)] .

lemma quiet_agent_writes: "state_io_rel quiet m \<Longrightarrow> keeps_agent_writes T ns N w m"
  unfolding state_io_rel_def using agent_writes_quiet by blast

lemma agent_writesD: "agent_writes T ns N w s \<Longrightarrow> k \<notin> T \<Longrightarrow> kept_or_blank ns N w k (map_of (w_secrets s) k)"
  unfolding agent_writes_def by blast

lemma agent_writes_put:
  assumes "agent_writes T ns N w s" and "skey x \<in> T"
  shows "agent_writes T ns N w (w_secrets_update (mset_key (skey x) x) (consume s))"
  unfolding agent_writes_def
proof (intro conjI allI impI)
  show "keyed s_meta (w_secrets (w_secrets_update (mset_key (skey x) x) (consume s)))"
    using assms keyed_mset_key [of s_meta "w_secrets s" x] by (simp add: agent_writes_def skey_def)
  show "w_clusters (w_secrets_update (mset_key (skey x) x) (consume s)) = w_clusters w"
    using assms by (simp add: agent_writes_def)
  fix k assume "k \<notin> T"
  then show "kept_or_blank ns N w k (map_of (w_secrets (w_secrets_update (mset_key (skey x) x) (consume s))) k)"
    using agent_writesD [OF assms(1), of k] assms(2) by (cases "k = skey x") simp_all
qed

lemma agent_writes_del:
  assumes "agent_writes T ns N w s" and "k \<in> T \<or> blank_before ns N w k"
  shows "agent_writes T ns N w (w_secrets_update (mdel_key k) (consume s))"
  unfolding agent_writes_def
proof (intro conjI allI impI)
  show "keyed s_meta (w_secrets (w_secrets_update (mdel_key k) (consume s)))"
    using assms by (simp add: agent_writes_def keyed_mdel_key)
  show "w_clusters (w_secrets_update (mdel_key k) (consume s)) = w_clusters w"
    using assms by (simp add: agent_writes_def)
  fix j assume j: "j \<notin> T"
  show "kept_or_blank ns N w j (map_of (w_secrets (w_secrets_update (mdel_key k) (consume s))) j)"
  proof (cases "j = k")
    case True
    with j assms(2) show ?thesis by (simp add: kept_or_blank_def)
  next
    case False
    with agent_writesD [OF assms(1) j] show ?thesis by simp
  qed
qed

lemma put_agent_writes:
  assumes "skey x \<in> T"
  shows "keeps_agent_writes T ns N w (create_secret x)" "keeps_agent_writes T ns N w (update_secret x)"
  using agent_writes_put [of T ns N w _ "persist_secret x"] agent_writes_quiet [OF quiet_consume] assms
  by (auto intro!: state_io_relI simp: run_simps split: option.splits if_splits)

lemma del_agent_writes:
  assumes "k \<in> T \<or> blank_before ns N w k"
  shows "keeps_agent_writes T ns N w (delete_secret k)"
  using agent_writes_del [OF _ assms] agent_writes_quiet [OF quiet_consume]
  by (auto intro!: state_io_relI simp: run_simps split: option.splits if_splits)

lemma blank_listed:
  assumes "agent_writes T ns N w s" and "n \<in> N" and "run_state (list_secrets (is_blank_secret ns n)) s = (Inr items, t)" and "x \<in> set items"
  shows "skey x \<in> T \<or> blank_before ns N w (skey x)"
proof -
  have x: "x \<in> set (map snd (w_secrets s))" "is_blank_secret ns n x"
    using assms(3,4) by (auto simp: run_simps split: option.splits)
  have "map_of (w_secrets s) (skey x) = Some x"
    using keyed_listed [OF _ x(1), of s_meta] assms(1) by (simp add: agent_writes_def skey_def)
  moreover have "skey x \<in> T \<or> kept_or_blank ns N w (skey x) (map_of (w_secrets s) (skey x))"
    using assms(1) unfolding agent_writes_def by blast
  ultimately show ?thesis using x(2) assms(2) unfolding kept_or_blank_def blank_before_def by auto
qed

lemma delete_blank_agent_writes:
  assumes "n \<in> N"
  shows "keeps_agent_writes T ns N w (deleteBlankClusterSecretsForCluster n ns)"
  unfolding deleteBlankClusterSecretsForCluster_def
proof (rule inv_bind [OF quiet_agent_writes [OF list_quiet]])
  fix l s t
  assume I: "agent_writes T ns N w s" and run: "run_state (list_secrets (is_blank_secret ns n)) s = (l, t)"
  have "skey x \<in> T \<or> blank_before ns N w (skey x)" if "l = Inr items" "x \<in> set items" for items x
    using blank_listed [OF I assms] run that by blast
  then show "keeps_agent_writes T ns N w (case l of
       Inl e \<Rightarrow> State_Monad.return (Inl (Wrapped (''failed to list blank cluster secrets for cluster '' @ n) e))
     | Inr items \<Rightarrow> loopE deleteBlank () items)"
    unfolding deleteBlank_def by (intro inv_frame.frame_rules del_agent_writes)
qed

lemma register_agent_writes:
  assumes "mc_name c \<in> N" and "(ns, ''cluster-'' @ mc_name c) \<in> T"
  shows "keeps_agent_writes T ns N w (registerAgentCluster lib d src ns ca c)"
  unfolding registerAgentCluster_def
  using assms
  by (intro inv_frame.frame_rules quiet_agent_writes [OF get_quiet] put_agent_writes delete_blank_agent_writes)
     (auto dest: agentSecretD(1))

lemma create_agent_writes:
  assumes "\<not> IsLocalCluster (Some c) \<Longrightarrow> al_dns lib (mc_name c) \<Longrightarrow> mc_name c \<in> N \<and> (ns, ''cluster-'' @ mc_name c) \<in> T"
  shows "keeps_agent_writes T ns N w (createAgentCluster lib draws src ns ca orph (i, c))"
  unfolding createAgentCluster_def Let_def snd_conv
  using assms by (intro inv_frame.frame_rules register_agent_writes) auto

lemma choose_source_quiet: "state_io_rel quiet (choose_source g ns)"
  unfolding choose_source_def by (intro quiet.frame_rules proxy_quiet)

lemma load_ca_quiet: "state_io_rel quiet (loadPrincipalCACertificate lib ns)"
  unfolding loadPrincipalCACertificate_def by (intro quiet.frame_rules get_quiet)

lemma find_local_quiet: "state_io_rel quiet findLocalCluster"
  unfolding findLocalCluster_def by (intro quiet.frame_rules list_quiet)

lemma find_local:
  "run_state findLocalCluster s = (Inr (Some c), t) \<Longrightarrow> c \<in> local_clusters s"
  by (auto simp: findLocalCluster_def run_simps local_clusters_def dest!: find_SomeD split: option.splits)

lemma local_agent_writes:
  assumes "agent_targets ns (local_clusters w) \<subseteq> T"
  shows "keeps_agent_writes T ns N w (ensureLocalClusterSecret ns orph)"
  unfolding ensureLocalClusterSecret_def
proof (rule inv_bind [OF quiet_agent_writes [OF find_local_quiet]])
  fix f s t
  assume I: "agent_writes T ns N w s" and run: "run_state findLocalCluster s = (f, t)"
  have same: "local_clusters s = local_clusters w" using I by (simp add: local_clusters_def agent_writes_def)
  have "skey (localSecret ns (mc_name c)) \<in> T" if "f = Inr (Some c)" for c
  proof -
    have "c \<in> local_clusters w" using find_local run that same by blast
    then have "(ns, ''cluster-'' @ mc_name c) \<in> T" using assms unfolding agent_targets_def by blast
    then show ?thesis by (simp add: localSecret_def skey_def)
  qed
  then show "keeps_agent_writes T ns N w (case f of
       Inl e \<Rightarrow> State_Monad.return (orph, Inl (Wrapped ''failed to find local-cluster'' e))
     | Inr None \<Rightarrow> State_Monad.return (orph, Inl (ErrText noLocalCluster))
     | Inr (Some c) \<Rightarrow> do {
         r \<leftarrow> storeLocalSecret (localSecret ns (mc_name c));
         State_Monad.return (mdel_key (ns, ''cluster-'' @ mc_name c) orph, r)
       })"
    unfolding storeLocalSecret_def
    by (intro inv_frame.frame_rules quiet_agent_writes [OF get_quiet] put_agent_writes) blast+
qed

text \<open>The clusters a run writes secrets for: the hub's own and the remote ones with a valid name.\<close>

definition agent_routed :: "agent_lib \<Rightarrow> managed_cluster list \<Rightarrow> managed_cluster set" where
  "agent_routed lib cs = {c \<in> set cs. \<not> IsLocalCluster (Some c) \<and> al_dns lib (mc_name c)}"

lemma create_all_agent_writes:
  "keeps_agent_writes (agent_targets (gs_argo_ns (gc_spec g)) (local_clusters w \<union> agent_routed lib cs)) (gs_argo_ns (gc_spec g))
     (mc_name ` agent_routed lib cs) w (CreateArgoCDAgentClusters lib draws g cs orph)"
proof -
  let ?ns = "gs_argo_ns (gc_spec g)"
  let ?T = "agent_targets ?ns (local_clusters w \<union> agent_routed lib cs)"
  have "keeps_agent_writes ?T ?ns (mc_name ` agent_routed lib cs) w (createAgentCluster lib draws src ?ns ca orph' x)"
    if "x \<in> set (List.enumerate 0 cs)" for src ca orph' x
  proof (cases x)
    case (Pair i c)
    with that have "c \<in> set cs" by (metis in_set_enumerate_eq nth_mem snd_conv add.commute add_0 le0 diff_zero)
    then show ?thesis
      unfolding Pair by (intro create_agent_writes) (auto simp: agent_routed_def agent_targets_def)
  qed
  then show ?thesis
    unfolding CreateArgoCDAgentClusters_def Let_def
    by (intro inv_frame.frame_rules local_agent_writes quiet_agent_writes [OF choose_source_quiet]
        quiet_agent_writes [OF load_ca_quiet]) (auto simp: agent_targets_def)
qed

text \<open>The orphans only lose entries.\<close>

lemma orphans_shrink:
  assumes "run_state (CreateArgoCDAgentClusters lib draws g cs orph) w = ((orph', r), t)"
  shows "map_of orph' \<subseteq>\<^sub>m map_of orph"
proof -
  have step: "map_of (mdel_key k m) \<subseteq>\<^sub>m map_of m" for k and m :: orphans
    by (simp add: map_le_def)
  have create: "map_of (fst (run_state (createAgentCluster lib draws src ns ca m x) s)) \<subseteq>\<^sub>m map_of m" for src ns ca m x s
    using map_le_trans [OF step step] by (auto simp: createAgentCluster_def Let_def split: prod.splits)
  have loop: "map_of (fst (run_state (loopM (createAgentCluster lib draws src ns ca) m xs) s)) \<subseteq>\<^sub>m map_of m" for src ns ca m xs s
  proof (induction xs arbitrary: m s)
    case (Cons x xs)
    obtain m' s' where 1: "run_state (createAgentCluster lib draws src ns ca m x) s = (m', s')" by (rule prod.exhaust)
    have "map_of m' \<subseteq>\<^sub>m map_of m" using create [of src ns ca m x s] 1 by simp
    with 1 map_le_trans [OF Cons [of m' s']] show ?case by simp
  qed simp
  have local: "map_of (fst (fst (run_state (ensureLocalClusterSecret ns m) s))) \<subseteq>\<^sub>m map_of m" for ns m s
    using step by (auto simp: ensureLocalClusterSecret_def split: prod.splits sum.splits option.splits)
  let ?ns = "gs_argo_ns (gc_spec g)"
  show ?thesis
  proof (cases "?ns = []")
    case True
    with assms show ?thesis by (simp add: CreateArgoCDAgentClusters_def)
  next
    case False
    obtain m q u where 1: "run_state (ensureLocalClusterSecret ?ns orph) w = ((m, q), u)" by (metis prod.exhaust)
    have m: "map_of m \<subseteq>\<^sub>m map_of orph" using local [of ?ns orph w] 1 by simp
    have "map_of orph' \<subseteq>\<^sub>m map_of m"
      using assms False 1 loop
      by (auto simp: CreateArgoCDAgentClusters_def Let_def split: sum.splits prod.splits)
         (metis fst_conv)+
    with m show ?thesis by (rule map_le_trans [rotated])
  qed
qed

text \<open>C36: under every failure, registering agent clusters writes nothing but secrets, and of these it changes only those named
  after the hub's own ManagedCluster and after the remote clusters with a valid name; any other secret is left as it is
  or was the blank placeholder of one of these clusters and is gone. No orphan is added.\<close>

theorem agent_clusters_safe:
  assumes "keyed s_meta (w_secrets w)" and "run_state (CreateArgoCDAgentClusters lib draws g cs orph) w = ((orph', r), t)"
  defines "ns \<equiv> gs_argo_ns (gc_spec g)"
  shows "secrets.touches ({ns} \<times> UNIV) w t \<and> keyed s_meta (w_secrets t)
    \<and> (\<forall>k. k \<notin> agent_targets ns (local_clusters w \<union> agent_routed lib cs) \<longrightarrow>
         kept_or_blank ns (mc_name ` agent_routed lib cs) w k (map_of (w_secrets t) k))
    \<and> map_of orph' \<subseteq>\<^sub>m map_of orph"
proof -
  have w: "agent_writes T ns N w w" for T N
    using assms(1) by (simp add: agent_writes_def kept_or_blank_def)
  have a: "agent_writes (agent_targets ns (local_clusters w \<union> agent_routed lib cs)) ns (mc_name ` agent_routed lib cs) w t"
    using state_io_relD [OF create_all_agent_writes assms(2)] w unfolding ns_def by blast
  have del: "state_io_rel (secrets.touches ({n} \<times> UNIV)) (deleteBlankClusterSecretsForCluster c n)" for c n
    unfolding deleteBlankClusterSecretsForCluster_def
  proof (rule secrets.touching.bind_frame_result [OF secrets.list_touches])
    fix l s v
    assume "run_state (list_secrets (is_blank_secret n c)) s = (l, v)"
    then have "skey x \<in> {n} \<times> UNIV" if "l = Inr items" "x \<in> set items" for items x
      using that by (auto simp: run_simps skey_def is_blank_secret_def split: option.splits)
    then show "state_io_rel (secrets.touches ({n} \<times> UNIV)) (case l of
       Inl e \<Rightarrow> State_Monad.return (Inl (Wrapped (''failed to list blank cluster secrets for cluster '' @ c) e))
     | Inr items \<Rightarrow> loopE deleteBlank () items)"
      unfolding deleteBlank_def by (intro secrets.touching.frame_rules secrets.delete_touches)
  qed
  have reg: "state_io_rel (secrets.touches ({n} \<times> UNIV)) (registerAgentCluster lib d src n ca c)" for d src n ca c
    unfolding registerAgentCluster_def
    by (intro secrets.touching.frame_rules secrets.get_touches create_secret_touches update_secret_touches del)
       (simp_all add: agentSecretD(1))
  have "state_io_rel (secrets.touches ({ns} \<times> UNIV)) (CreateArgoCDAgentClusters lib draws g cs orph)"
    unfolding CreateArgoCDAgentClusters_def Let_def ns_def ensureLocalClusterSecret_def storeLocalSecret_def createAgentCluster_def
    by (intro secrets.touching.frame_rules secrets.get_touches create_secret_touches update_secret_touches reg
        secrets.reading_touches find_local_quiet choose_source_quiet load_ca_quiet)
       (simp_all add: localSecret_def skey_def)
  from state_io_relD [OF this assms(2)] a orphans_shrink [OF assms(2)] show ?thesis
    by (simp only: agent_writes_def) blast
qed

section \<open>What is registered\<close>

lemma delete_items_run:
  assumes "calm w"
  shows "\<exists>t. run_state (loopE deleteBlank () items) w = (Inr (), t) \<and> calm t
      \<and> (\<forall>k. map_of (w_secrets t) k = (if k \<in> skey ` set items then None else map_of (w_secrets w) k))"
  using assms
proof (induction items arbitrary: w)
  case (Cons s items)
  define v where "v = (if has_key (w_secrets w) (skey s) then w_secrets_update (mdel_key (skey s)) (consume w) else consume w)"
  have v: "calm v" "map_of (w_secrets v) = (map_of (w_secrets w))(skey s := None)"
    using Cons.prems by (auto simp: v_def has_key_def)
  obtain t where t: "run_state (loopE deleteBlank () items) v = (Inr (), t)" "calm t"
    "\<forall>k. map_of (w_secrets t) k = (if k \<in> skey ` set items then None else map_of (w_secrets v) k)"
    using Cons.IH [OF v(1)] by blast
  have "run_state (deleteBlank () s) w = (Inr (), v)"
    using Cons.prems by (simp add: deleteBlank_def run_simps v_def)
  with t(1) have "run_state (loopE deleteBlank () (s # items)) w = (Inr (), t)" by simp
  moreover have "map_of (w_secrets t) k = (if k \<in> skey ` set (s # items) then None else map_of (w_secrets w) k)" for k
    using t(3) [THEN spec, of k] unfolding v(2) by simp
  ultimately show ?case using t(2) by blast
qed simp

lemma delete_blank_run:
  assumes "calm w" and "keyed s_meta (w_secrets w)"
  shows "\<exists>t. run_state (deleteBlankClusterSecretsForCluster n ns) w = (Inr (), t) \<and> calm t
     \<and> (\<forall>k. map_of (w_secrets t) k = (case map_of (w_secrets w) k of
          None \<Rightarrow> None | Some x \<Rightarrow> if is_blank_secret ns n x then None else Some x))"
proof -
  let ?items = "filter (is_blank_secret ns n) (map snd (w_secrets w))"
  obtain t where t: "run_state (loopE deleteBlank () ?items) (consume w) = (Inr (), t)" "calm t"
    "\<forall>k. map_of (w_secrets t) k = (if k \<in> skey ` set ?items then None else map_of (w_secrets w) k)"
    using delete_items_run [of "consume w" ?items]
      assms(1) by auto
  have "k \<in> skey ` set ?items \<longleftrightarrow> (\<exists>x. map_of (w_secrets w) k = Some x \<and> is_blank_secret ns n x)" for k
  proof
    assume "k \<in> skey ` set ?items"
    then obtain x where "k = skey x" "x \<in> set (map snd (w_secrets w))" "is_blank_secret ns n x" by auto
    with keyed_listed [OF assms(2)] show "\<exists>x. map_of (w_secrets w) k = Some x \<and> is_blank_secret ns n x"
      unfolding skey_def by blast
  next
    assume "\<exists>x. map_of (w_secrets w) k = Some x \<and> is_blank_secret ns n x"
    then obtain x where x: "map_of (w_secrets w) k = Some x" "is_blank_secret ns n x" by blast
    then have "x \<in> set ?items" "skey x = k"
      using keyedD [OF assms(2) x(1)] map_of_SomeD [OF x(1)] by (auto simp: skey_def intro: rev_image_eqI)
    then show "k \<in> skey ` set ?items" by blast
  qed
  moreover have "run_state (deleteBlankClusterSecretsForCluster n ns) w = (Inr (), t)"
    using t(1) assms(1) by (simp add: deleteBlankClusterSecretsForCluster_def run_simps)
  ultimately show ?thesis using t(2,3) by (intro exI [of _ t]) (auto split: option.splits)
qed

lemma agentSecret_not_blank:
  assumes "agentSecret lib d src ns ca c = Inr s" and "map_of (mc_labels c) dataSourceLabel \<noteq> Some ''blank''"
  shows "\<not> is_blank_secret ns n s"
  using agentSecretD(3) [OF assms(1)] assms(2)
  by (auto simp: is_blank_secret_def has_labels_def labelKeyClusterAgentMapping_def argoSecretType_def dataSourceLabel_def)

text \<open>Registering one cluster when nothing is rejected.\<close>

lemma register_run:
  assumes "calm w" and "keyed s_meta (w_secrets w)" and "agentSecret lib d src ns ca c = Inr s"
    and "map_of (mc_labels c) dataSourceLabel \<noteq> Some ''blank''"
  shows "\<exists>t. run_state (registerAgentCluster lib d src ns ca c) w = ((), t) \<and> calm t \<and> keyed s_meta (w_secrets t)
     \<and> map_of (w_secrets t) (ns, ''cluster-'' @ mc_name c) = Some s
     \<and> (\<forall>k. k \<noteq> (ns, ''cluster-'' @ mc_name c) \<longrightarrow> map_of (w_secrets t) k = (case map_of (w_secrets w) k of
          None \<Rightarrow> None | Some x \<Rightarrow> if is_blank_secret ns (mc_name c) x then None else Some x))"
proof -
  let ?k = "(ns, ''cluster-'' @ mc_name c)"
  note s = agentSecretD [OF assms(3)]
  note nb = agentSecret_not_blank [OF assms(3,4)]
  define v where "v = w_secrets_update (mset_key ?k s) (consume (consume w))"
  have ks: "(m_ns (s_meta s), m_name (s_meta s)) = ?k" using s(1) by (simp add: skey_def)
  have v: "calm v" "keyed s_meta (w_secrets v)" "map_of (w_secrets v) = (map_of (w_secrets w))(?k \<mapsto> s)"
    using assms(1) keyed_mset_key [OF assms(2), of s] unfolding ks by (simp_all add: v_def)
  obtain t where t: "run_state (deleteBlankClusterSecretsForCluster (mc_name c) ns) v = (Inr (), t)" "calm t"
    "\<forall>k. map_of (w_secrets t) k = (case map_of (w_secrets v) k of
          None \<Rightarrow> None | Some x \<Rightarrow> if is_blank_secret ns (mc_name c) x then None else Some x)"
    using delete_blank_run [OF v(1,2)] by blast
  have "keyed s_meta (w_secrets t)"
    using state_io_relD [OF delete_blank_agent_writes [of "mc_name c" "{mc_name c}" "{}" ns v] t(1)] v(2)
    by (auto simp: agent_writes_def kept_or_blank_def)
  moreover have "run_state (registerAgentCluster lib d src ns ca c) w = ((), t)"
    using t(1) assms(1) s(1,2)
    by (cases "map_of (w_secrets w) ?k") (simp_all add: registerAgentCluster_def run_simps assms(3) has_key_def v_def)
  moreover have "map_of (w_secrets t) ?k = Some s" using t(3) [THEN spec, of ?k] nb unfolding v(3) by simp
  moreover have "map_of (w_secrets t) k = (case map_of (w_secrets w) k of
          None \<Rightarrow> None | Some x \<Rightarrow> if is_blank_secret ns (mc_name c) x then None else Some x)" if "k \<noteq> ?k" for k
    using t(3) [THEN spec, of k] that unfolding v(3) by simp
  ultimately show ?thesis using t(2) by blast
qed

text \<open>A cluster that cannot be registered is skipped without a trace.\<close>

lemma skip_run:
  assumes "calm w" and "agentSecret lib d src ns ca c = Inl e"
  shows "\<exists>t. run_state (registerAgentCluster lib d src ns ca c) w = ((), t) \<and> quiet w t"
  using assms quiet_consume by (auto simp: registerAgentCluster_def run_simps split: option.splits)

text \<open>A cluster is registered: its secret is one computed for it, and it has no blank placeholder.\<close>

definition registered :: "agent_lib \<Rightarrow> (nat \<Rightarrow> agent_draw) \<Rightarrow> url_source \<Rightarrow> string \<Rightarrow> string \<times> string \<Rightarrow> managed_cluster \<Rightarrow> world \<Rightarrow> bool" where
  "registered lib draws src ns ca c t \<longleftrightarrow>
     (\<exists>i s. agentSecret lib (draws i) src ns ca c = Inr s \<and> map_of (w_secrets t) (ns, ''cluster-'' @ mc_name c) = Some s)
     \<and> (\<forall>k x. map_of (w_secrets t) k = Some x \<longrightarrow> \<not> is_blank_secret ns (mc_name c) x)"

lemma registered_kept:
  assumes "registered lib draws src ns ca c w" and "mc_name c' \<noteq> mc_name c"
    and "map_of (mc_labels c) dataSourceLabel \<noteq> Some ''blank''" and "map_of (mc_labels c') dataSourceLabel \<noteq> Some ''blank''"
    and "agentSecret lib d src ns ca c' = Inr s'" and "map_of (w_secrets t) (ns, ''cluster-'' @ mc_name c') = Some s'"
    and "\<forall>k. k \<noteq> (ns, ''cluster-'' @ mc_name c') \<longrightarrow> map_of (w_secrets t) k = (case map_of (w_secrets w) k of
          None \<Rightarrow> None | Some x \<Rightarrow> if is_blank_secret ns (mc_name c') x then None else Some x)"
  shows "registered lib draws src ns ca c t"
proof -
  note nb = agentSecret_not_blank
  obtain i s where s: "agentSecret lib (draws i) src ns ca c = Inr s" "map_of (w_secrets w) (ns, ''cluster-'' @ mc_name c) = Some s"
    using assms(1) unfolding registered_def by blast
  have "map_of (w_secrets t) (ns, ''cluster-'' @ mc_name c) = Some s"
    using assms(7) [THEN spec, of "(ns, ''cluster-'' @ mc_name c)"] assms(2) s(2) nb [OF s(1) assms(3)] by simp
  moreover have "\<not> is_blank_secret ns (mc_name c) x" if x: "map_of (w_secrets t) k = Some x" for k x
  proof (cases "k = (ns, ''cluster-'' @ mc_name c')")
    case True
    with x assms(6) nb [OF assms(5,4)] show ?thesis by simp
  next
    case False
    then have "map_of (w_secrets w) k = Some x"
      using x assms(7) [THEN spec, of k] by (simp split: option.splits if_splits)
    then show ?thesis using assms(1) unfolding registered_def by blast
  qed
  ultimately show ?thesis using s(1) unfolding registered_def by blast
qed

lemma registered_now:
  assumes "agentSecret lib (draws i) src ns ca c = Inr s" and "map_of (mc_labels c) dataSourceLabel \<noteq> Some ''blank''"
    and "map_of (w_secrets t) (ns, ''cluster-'' @ mc_name c) = Some s"
    and "\<forall>k. k \<noteq> (ns, ''cluster-'' @ mc_name c) \<longrightarrow> map_of (w_secrets t) k = (case map_of (w_secrets w) k of
          None \<Rightarrow> None | Some x \<Rightarrow> if is_blank_secret ns (mc_name c) x then None else Some x)"
  shows "registered lib draws src ns ca c t"
proof -
  have "\<not> is_blank_secret ns (mc_name c) x" if x: "map_of (w_secrets t) k = Some x" for k x
  proof (cases "k = (ns, ''cluster-'' @ mc_name c)")
    case True
    with x assms(3) agentSecret_not_blank [OF assms(1,2)] show ?thesis by simp
  next
    case False
    then show ?thesis using x assms(4) [THEN spec, of k] by (auto split: option.splits if_splits)
  qed
  with assms(1,3) show ?thesis unfolding registered_def by blast
qed

lemma registered_quiet:
  assumes "quiet w t" and "registered lib draws src ns ca c w" shows "registered lib draws src ns ca c t"
  using assms(2) unfolding registered_def quiet_sel(1) [OF assms(1)] .

lemma create_loop:
  assumes "calm w" and "keyed s_meta (w_secrets w)"
    and "inj_on mc_name (snd ` set xs \<union> D)"
    and "\<forall>c \<in> snd ` set xs \<union> D. map_of (mc_labels c) dataSourceLabel \<noteq> Some ''blank''"
    and "\<forall>c \<in> D. registered lib draws src ns ca c w"
  shows "\<exists>m t. run_state (loopM (createAgentCluster lib draws src ns ca) orph xs) w = (m, t) \<and> calm t
     \<and> (\<forall>c \<in> D. registered lib draws src ns ca c t)
     \<and> (\<forall>(i, c) \<in> set xs. \<not> IsLocalCluster (Some c) \<and> al_dns lib (mc_name c) \<and> (\<exists>s. agentSecret lib (draws i) src ns ca c = Inr s)
          \<longrightarrow> registered lib draws src ns ca c t)"
  using assms
proof (induction xs arbitrary: w orph D)
  case (Cons x xs)
  obtain i c where x: "x = (i, c)" by (rule prod.exhaust)
  have sub: "inj_on mc_name (snd ` set xs \<union> D)" "\<forall>c \<in> snd ` set xs \<union> D. map_of (mc_labels c) dataSourceLabel \<noteq> Some ''blank''"
    using Cons.prems(3,4) by (auto intro: inj_on_subset)
  consider "IsLocalCluster (Some c) \<or> \<not> al_dns lib (mc_name c)"
    | e where "\<not> (IsLocalCluster (Some c) \<or> \<not> al_dns lib (mc_name c))" "agentSecret lib (draws i) src ns ca c = Inl e"
    | s where "\<not> (IsLocalCluster (Some c) \<or> \<not> al_dns lib (mc_name c))" "agentSecret lib (draws i) src ns ca c = Inr s"
    by (cases "agentSecret lib (draws i) src ns ca c") blast+
  then show ?case
  proof cases
    case 1
    then have "createAgentCluster lib draws src ns ca orph x = State_Monad.return orph"
      by (simp add: createAgentCluster_def x)
    then show ?thesis using Cons.IH [OF Cons.prems(1,2) sub Cons.prems(5), of orph] 1 x by auto
  next
    case 2
    obtain v where v: "run_state (registerAgentCluster lib (draws i) src ns ca c) w = ((), v)" "quiet w v"
      using skip_run [OF Cons.prems(1) 2(2)] by blast
    have "calm v" "keyed s_meta (w_secrets v)" "\<forall>c \<in> D. registered lib draws src ns ca c v"
      using quiet_sel(1,19) [OF v(2)] Cons.prems(1,2,5) registered_quiet [OF v(2)] by simp_all
    moreover obtain m where "run_state (createAgentCluster lib draws src ns ca orph x) w = (m, v)"
      using v(1) 2(1) x by (simp add: createAgentCluster_def Let_def)
    ultimately show ?thesis using Cons.IH [OF _ _ sub, of v m] 2(2) x by auto
  next
    case 3
    have nb: "map_of (mc_labels c) dataSourceLabel \<noteq> Some ''blank''" using Cons.prems(4) x by simp
    obtain v where v: "run_state (registerAgentCluster lib (draws i) src ns ca c) w = ((), v)" "calm v" "keyed s_meta (w_secrets v)"
      "map_of (w_secrets v) (ns, ''cluster-'' @ mc_name c) = Some s"
      "\<forall>k. k \<noteq> (ns, ''cluster-'' @ mc_name c) \<longrightarrow> map_of (w_secrets v) k = (case map_of (w_secrets w) k of
          None \<Rightarrow> None | Some x \<Rightarrow> if is_blank_secret ns (mc_name c) x then None else Some x)"
      using register_run [OF Cons.prems(1,2) 3(2) nb] by blast
    have r: "registered lib draws src ns ca c v" by (rule registered_now [of lib draws i, OF 3(2) nb v(4,5)])
    have all: "\<forall>c' \<in> insert c D. registered lib draws src ns ca c' v"
    proof
      fix c' assume c': "c' \<in> insert c D"
      show "registered lib draws src ns ca c' v"
      proof (cases "c' = c")
        case False
        then have D: "c' \<in> D" and ne: "mc_name c \<noteq> mc_name c'"
          using c' Cons.prems(3) x by (auto dest: inj_onD)
        show ?thesis
          using registered_kept [OF bspec [OF Cons.prems(5) D] ne _ nb 3(2) v(4,5)] Cons.prems(4) D by blast
      qed (use r in simp)
    qed
    have sub': "inj_on mc_name (snd ` set xs \<union> insert c D)"
      "\<forall>c \<in> snd ` set xs \<union> insert c D. map_of (mc_labels c) dataSourceLabel \<noteq> Some ''blank''"
      using Cons.prems(3,4) x by (simp_all add: Un_commute insert_commute)
    moreover obtain m where "run_state (createAgentCluster lib draws src ns ca orph x) w = (m, v)"
      using v(1) 3(1) x by (simp add: createAgentCluster_def Let_def)
    ultimately show ?thesis using Cons.IH [OF v(2,3) sub' all, of m] x by auto
  qed
qed simp

definition url_source_ok :: "gitops_cluster \<Rightarrow> world \<Rightarrow> url_source \<Rightarrow> bool" where
  "url_source_ok g w src \<longleftrightarrow>
     (case src of
        Inl (svc, port) \<Rightarrow> \<exists>s \<in> set (map snd (w_services w)).
          m_name (sv_meta s) = svc \<and> resourceProxyPortFromService s = Some port
      | Inr a \<Rightarrow> getArgoCDAgentServerConfig g = Inr a)"

lemma first_proxy_SomeD: "first_proxy ss = Some (s, p) \<Longrightarrow> s \<in> set ss \<and> resourceProxyPortFromService s = Some p"
  by (induction ss) (auto split: option.splits)

lemma choose_source_run:
  assumes "run_state (choose_source g ns) w = (Inr src, t)" shows "url_source_ok g w src"
  using assms
  by (auto simp: choose_source_def FindArgoCDAgentResourceProxyService_def run_simps url_source_ok_def proxy_by_name_def
      dest!: first_proxy_SomeD map_of_SomeD intro: rev_bexI split: sum.splits option.splits)

definition ca_loaded :: "agent_lib \<Rightarrow> string \<Rightarrow> world \<Rightarrow> string \<times> string \<Rightarrow> bool" where
  "ca_loaded lib ns w ca \<longleftrightarrow>
     (\<exists>s cert key. map_of (w_secrets w) (ns, principalCAName) = Some s \<and> map_of (s_data s) ''tls.crt'' = Some cert
        \<and> map_of (s_data s) ''tls.key'' = Some key \<and> al_pair lib cert key = Inr (fst ca)
        \<and> snd ca = pem_encode ''CERTIFICATE'' (fst ca))"

lemma load_ca_run:
  assumes "run_state (loadPrincipalCACertificate lib ns) w = (Inr ca, t)" shows "ca_loaded lib ns w ca"
  using assms
  by (auto simp: loadPrincipalCACertificate_def run_simps ca_loaded_def split: sum.splits option.splits)

lemma local_run:
  assumes "calm w" and "keyed s_meta (w_secrets w)" and "run_state (ensureLocalClusterSecret ns orph) w = ((m, Inr u), t)"
  shows "\<exists>h \<in> local_clusters w. calm t \<and> keyed s_meta (w_secrets t)
     \<and> secrets.touches {(ns, ''cluster-'' @ mc_name h)} w t
     \<and> map_of (w_secrets t) (ns, ''cluster-'' @ mc_name h) = Some (localSecret ns (mc_name h))"
proof -
  obtain f v where f: "run_state findLocalCluster w = (f, v)" by (rule prod.exhaust)
  obtain h where h: "f = Inr (Some h)" "h \<in> local_clusters w"
    using assms(3) f find_local by (auto simp: ensureLocalClusterSecret_def split: sum.splits option.splits)
  have q: "quiet w v" by (rule state_io_relD [OF find_local_quiet f])
  have s: "skey (localSecret ns (mc_name h)) = (ns, ''cluster-'' @ mc_name h)"
    "persist_secret (localSecret ns (mc_name h)) = localSecret ns (mc_name h)"
    by (simp_all add: skey_def localSecret_def persist_secret_def)
  have run: "run_state (storeLocalSecret (localSecret ns (mc_name h))) v = (Inr (), t)"
    using assms(3) f h(1) by (auto simp: ensureLocalClusterSecret_def split: prod.splits)
  have c: "calm v" using quiet_sel(19) [OF q] assms(1) by blast
  have "state_io_rel (secrets.touches {(ns, ''cluster-'' @ mc_name h)}) (storeLocalSecret (localSecret ns (mc_name h)))"
    unfolding storeLocalSecret_def
    by (intro secrets.touching.frame_rules secrets.get_touches create_secret_touches update_secret_touches) (simp_all add: s)
  from state_io_relD [OF this run] have t: "secrets.touches {(ns, ''cluster-'' @ mc_name h)} w t"
    by (rule secrets.touches_trans [OF secrets.quiet_touches [OF q]])
  have "w_secrets t = mset_key (ns, ''cluster-'' @ mc_name h) (localSecret ns (mc_name h)) (w_secrets v)"
    using run c by (cases "map_of (w_secrets v) (ns, ''cluster-'' @ mc_name h)") (auto simp: storeLocalSecret_def run_simps s has_key_def)
  moreover have "(m_ns (s_meta (localSecret ns (mc_name h))), m_name (s_meta (localSecret ns (mc_name h)))) = (ns, ''cluster-'' @ mc_name h)"
    using s(1) by (simp only: skey_def)
  ultimately have "keyed s_meta (w_secrets t)" "map_of (w_secrets t) (ns, ''cluster-'' @ mc_name h) = Some (localSecret ns (mc_name h))"
    using keyed_mset_key [of s_meta "w_secrets v" "localSecret ns (mc_name h)"] assms(2) quiet_sel(1) [OF q] by simp_all
  then show ?thesis using h(2) t secrets.touches_calm [OF t assms(1)] by blast
qed

text \<open>C37: when nothing is rejected and registration succeeds, every remote cluster with a valid name whose key, password
  and address could be made has its agent secret, made from the resource proxy's service of the namespace (or the configured address) and from
  the stored CA, and no blank placeholder is left for it; the hub's own cluster has the in-cluster secret. Clusters for which something failed are
  skipped, and the result does not show it. A ManagedCluster labelled as a blank secret is excluded: its secret would be deleted at once.\<close>

theorem agent_clusters_registered:
  assumes "calm w" and "keyed s_meta (w_secrets w)" and "inj_on mc_name (set cs)"
    and "\<forall>c \<in> set cs. map_of (mc_labels c) dataSourceLabel \<noteq> Some ''blank''"
    and "run_state (CreateArgoCDAgentClusters lib draws g cs orph) w = ((orph', Inr ()), t)"
  defines "ns \<equiv> gs_argo_ns (gc_spec g)"
  shows "\<exists>src ca. url_source_ok g w src \<and> ca_loaded lib ns w ca
    \<and> (\<forall>i < length cs. cs ! i \<in> agent_routed lib cs \<and> (\<exists>s. agentSecret lib (draws i) src ns ca (cs ! i) = Inr s)
         \<longrightarrow> registered lib draws src ns ca (cs ! i) t)
    \<and> (\<exists>h \<in> local_clusters w. mc_name h \<notin> mc_name ` agent_routed lib cs \<longrightarrow>
         map_of (w_secrets t) (ns, ''cluster-'' @ mc_name h) = Some (localSecret ns (mc_name h)))"
proof -
  have ne: "ns \<noteq> []" using assms(5) by (auto simp: CreateArgoCDAgentClusters_def ns_def)
  obtain m q w1 where 1: "run_state (ensureLocalClusterSecret ns orph) w = ((m, q), w1)" by (metis prod.exhaust)
  with assms(5) ne have "q = Inr ()" by (cases q) (auto simp: CreateArgoCDAgentClusters_def ns_def Let_def)
  with local_run [OF assms(1,2)] 1 obtain h where h: "h \<in> local_clusters w" "calm w1" "keyed s_meta (w_secrets w1)"
    "secrets.touches {(ns, ''cluster-'' @ mc_name h)} w w1"
    "map_of (w_secrets w1) (ns, ''cluster-'' @ mc_name h) = Some (localSecret ns (mc_name h))" by blast
  obtain p w2 where 2: "run_state (choose_source g ns) w1 = (p, w2)" by (rule prod.exhaust)
  with assms(5) ne 1 \<open>q = Inr ()\<close> obtain src where src: "p = Inr src"
    by (cases p) (auto simp: CreateArgoCDAgentClusters_def ns_def Let_def)
  obtain k w3 where 3: "run_state (loadPrincipalCACertificate lib ns) w2 = (k, w3)" by (rule prod.exhaust)
  with assms(5) ne 1 2 \<open>q = Inr ()\<close> src obtain ca where ca: "k = Inr ca"
    by (cases k) (auto simp: CreateArgoCDAgentClusters_def ns_def Let_def)
  have 4: "run_state (loopM (createAgentCluster lib draws src ns ca) m (List.enumerate 0 cs)) w3 = (orph', t)"
    using assms(5) ne 1 2 3 \<open>q = Inr ()\<close> src ca by (auto simp: CreateArgoCDAgentClusters_def ns_def Let_def split: prod.splits)
  have q2: "quiet w1 w2" by (rule state_io_relD [OF choose_source_quiet 2])
  have q3: "quiet w2 w3" by (rule state_io_relD [OF load_ca_quiet 3])
  have c3: "calm w3" "keyed s_meta (w_secrets w3)" "w_secrets w3 = w_secrets w1"
    using h(2,3) quiet_sel(1,19) [OF q2] quiet_sel(1,19) [OF q3] by simp_all
  have sv: "w_services w1 = w_services w" using h(4) by (auto simp: secrets.touches_def)
  have "url_source_ok g w1 src" using choose_source_run 2 src by blast
  then have s: "url_source_ok g w src" unfolding url_source_ok_def sv .
  have "map_of (w_secrets w1) (ns, principalCAName) = map_of (w_secrets w) (ns, principalCAName)"
    using changes_onlyD [OF secrets.touches_only [OF h(4)], of "(ns, principalCAName)"] by (simp add: principalCAName_def)
  then have l: "ca_loaded lib ns w ca" using load_ca_run [of lib ns w2 ca w3] 3 ca quiet_sel(1) [OF q2] by (simp add: ca_loaded_def)
  have snds: "snd ` set (List.enumerate 0 cs) = set cs" by (simp flip: set_map)
  have inj: "inj_on mc_name (snd ` set (List.enumerate 0 cs) \<union> {})"
    and nb: "\<forall>c \<in> snd ` set (List.enumerate 0 cs) \<union> {}. map_of (mc_labels c) dataSourceLabel \<noteq> Some ''blank''"
    unfolding snds using assms(3,4) by simp_all
  have loop: "\<forall>(i, c) \<in> set (List.enumerate 0 cs). \<not> IsLocalCluster (Some c) \<and> al_dns lib (mc_name c)
      \<and> (\<exists>s. agentSecret lib (draws i) src ns ca c = Inr s) \<longrightarrow> registered lib draws src ns ca c t"
    using create_loop [OF c3(1,2) inj nb, of lib draws src ns ca m] 4 by auto
  have "registered lib draws src ns ca (cs ! i) t"
    if "i < length cs" "cs ! i \<in> agent_routed lib cs" "\<exists>s. agentSecret lib (draws i) src ns ca (cs ! i) = Inr s" for i
  proof -
    have "(i, cs ! i) \<in> set (List.enumerate 0 cs)" using that(1) by (simp add: in_set_enumerate_eq)
    with bspec [OF loop this] that(2,3) show ?thesis by (auto simp: agent_routed_def)
  qed
  moreover have "map_of (w_secrets t) (ns, ''cluster-'' @ mc_name h) = Some (localSecret ns (mc_name h))"
    if "mc_name h \<notin> mc_name ` agent_routed lib cs"
  proof -
    let ?T = "agent_targets ns (agent_routed lib cs)"
    have "keeps_agent_writes ?T ns (mc_name ` agent_routed lib cs) w3 (createAgentCluster lib draws src ns ca m x)"
      if "x \<in> set (List.enumerate 0 cs)" for m x
    proof (cases x)
      case (Pair i c)
      with that snds have "c \<in> set cs" by force
      then show ?thesis unfolding Pair by (intro create_agent_writes) (auto simp: agent_routed_def agent_targets_def)
    qed
    then have "keeps_agent_writes ?T ns (mc_name ` agent_routed lib cs) w3 (loopM (createAgentCluster lib draws src ns ca) m (List.enumerate 0 cs))"
      by (intro inv_frame.loopM_frame)
    from state_io_relD [OF this 4] c3(2) have a: "agent_writes ?T ns (mc_name ` agent_routed lib cs) w3 t"
      by (simp add: agent_writes_def kept_or_blank_def)
    have "(ns, ''cluster-'' @ mc_name h) \<notin> ?T" using that by (auto simp: agent_targets_def)
    from agent_writesD [OF a this] h(5) c3(3) show ?thesis
      by (auto simp: kept_or_blank_def blank_before_def is_blank_secret_def has_labels_def localSecret_def argoSecretType_def
          ArgocdClusterSecretLabel_def)
  qed
  ultimately show ?thesis using s l h(1) by blast
qed

section \<open>Addresses\<close>

text \<open>What the validation of names promises: RFC 1123 subdomains.\<close>

definition dns_names :: "agent_lib \<Rightarrow> bool" where
  "dns_names lib \<longleftrightarrow>
     (\<forall>s. al_dns lib s \<longrightarrow> s \<noteq> [] \<and> set s \<subseteq> set ''abcdefghijklmnopqrstuvwxyz0123456789-.'')"

lemma valid_name_plain: "dns_names lib \<Longrightarrow> al_dns lib s \<Longrightarrow> c \<notin> set ''abcdefghijklmnopqrstuvwxyz0123456789-.'' \<Longrightarrow> c \<notin> set s"
  unfolding dns_names_def by blast

lemma query_unique:
  assumes "p @ ''?agentName='' @ a = q @ ''?agentName='' @ b" and "CHR ''?'' \<notin> set a" and "CHR ''?'' \<notin> set b"
  shows "a = b"
proof -
  have "takeWhile (\<lambda>c. c \<noteq> CHR ''?'') (rev (p @ ''?agentName='' @ a)) = rev (''agentName='' @ a)"
    if "CHR ''?'' \<notin> set a" for p a
    using that by (simp add: takeWhile_append)
  from this [OF assms(2), of p] this [OF assms(3), of q] have "rev (''agentName='' @ a) = rev (''agentName='' @ b)"
    unfolding assms(1) by (rule trans [OF sym])
  then show ?thesis by simp
qed

text \<open>the address of an agent's cluster secret is an https address that ends with the agent's name as its only query, so
  that two clusters never share one and stripping slashes changes nothing; in fallback mode its host and port are an IP address and
  port or a valid name with a 16-bit port.\<close>

theorem agent_url_identifies:
  assumes "dns_names lib" and "server_url lib ns src a = Inr u"
  shows "(\<exists>host. u = ''https://'' @ host @ ''?agentName='' @ a
      \<and> (\<forall>addr port. src = Inr (addr, port) \<longrightarrow> host = addr @ '':'' @ port
           \<and> (parse_addr_port host \<or> (\<exists>name digits. host = name @ '':'' @ digits \<and> al_dns lib name \<and> parse_uint16 digits \<noteq> None))))
    \<and> trim_right u ''/'' = u
    \<and> (\<forall>b. server_url lib ns src b = Inr u \<longrightarrow> b = a)"
proof -
  obtain f where f: "\<And>n v. server_url lib ns src n = Inr v \<Longrightarrow> v = ''https://'' @ f @ ''?agentName='' @ n \<and> al_dns lib n"
    and g: "\<And>addr port. src = Inr (addr, port) \<Longrightarrow> f = addr @ '':'' @ port"
  proof (cases src)
    case (Inl sp)
    obtain svc port where "sp = (svc, port)" by (rule prod.exhaust)
    with Inl show ?thesis
      by (intro that [of "svc @ ''.'' @ ns @ ''.svc:'' @ itoa port"]) (auto simp: server_url_def constructResourceProxyURL_def split: if_splits)
  next
    case (Inr ap)
    obtain addr port where "ap = (addr, port)" by (rule prod.exhaust)
    with Inr show ?thesis
      by (intro that [of "addr @ '':'' @ port"]) (auto simp: server_url_def constructServerURL_def Let_def split: if_splits)
  qed
  have u: "u = ''https://'' @ f @ ''?agentName='' @ a" "al_dns lib a" using f [OF assms(2)] by blast+
  have host: "parse_addr_port f \<or> (\<exists>name digits. f = name @ '':'' @ digits \<and> al_dns lib name \<and> parse_uint16 digits \<noteq> None)"
    if "src = Inr (addr, port)" for addr port
  proof -
    let ?p = "\<lambda>c. c \<noteq> CHR '':''"
    have split: "f = takeWhile ?p f @ '':'' @ tl (dropWhile ?p f)"
    proof -
      have "dropWhile ?p f \<noteq> []" using g [OF that] by (simp add: dropWhile_append)
      moreover then have "hd (dropWhile ?p f) = CHR '':''" using hd_dropWhile by blast
      ultimately have "dropWhile ?p f = '':'' @ tl (dropWhile ?p f)" by (cases "dropWhile ?p f") auto
      then show ?thesis using takeWhile_dropWhile_id [of ?p f] by metis
    qed
    show ?thesis
    proof (cases "parse_addr_port f")
      case False
      then have "al_dns lib (takeWhile ?p f)" "parse_uint16 (tl (dropWhile ?p f)) \<noteq> None"
        using assms(2) g [OF that] that by (auto simp: server_url_def constructServerURL_def Let_def split: if_splits)
      with split show ?thesis by blast
    qed simp
  qed
  have "a \<noteq> []" using assms(1) u(2) by (auto simp: dns_names_def)
  then have "last u = last a" "last a \<in> set a" by (simp_all add: u(1))
  moreover have "CHR ''/'' \<notin> set a" by (rule valid_name_plain [OF assms(1) u(2)]) simp
  ultimately have "last u \<noteq> CHR ''/''" by metis
  then have "trim_right u ''/'' = u" by (simp add: trim_right_def trim_right_func_id)
  moreover have "b = a" if "server_url lib ns src b = Inr u" for b
  proof -
    have b: "u = ''https://'' @ f @ ''?agentName='' @ b" "al_dns lib b" using f [OF that] by blast+
    with u(1) have "(''https://'' @ f) @ ''?agentName='' @ b = (''https://'' @ f) @ ''?agentName='' @ a" by simp
    then show ?thesis by (rule query_unique) (use valid_name_plain [OF assms(1)] u(2) b(2) in auto)
  qed
  ultimately show ?thesis using u(1) g host by blast
qed

section \<open>Clusters that leave\<close>

lemma cleanup_keeps_others:
  assumes "fst entry \<noteq> k"
  shows "state_io_rel (\<lambda>s t. keyed s_meta (w_secrets s) \<and> map_of (w_secrets s) k = x \<longrightarrow> keyed s_meta (w_secrets t) \<and> map_of (w_secrets t) k = x)
    (cleanupOrphan ok entry)"
proof (rule state_io_relI, rule impI)
  fix r s t
  assume run: "run_state (cleanupOrphan ok entry) s = (r, t)" and I: "keyed s_meta (w_secrets s) \<and> map_of (w_secrets s) k = x"
  have "skey y = fst entry" if "map_of (w_secrets s) (fst entry) = Some y" for y
    using keyedD [OF conjunct1 [OF I] that] by (simp add: skey_def)
  then show "keyed s_meta (w_secrets t) \<and> map_of (w_secrets t) k = x"
    using run I assms by (auto simp: cleanupOrphan_def run_simps keyed_mdel_key split: option.splits if_splits)
qed

lemma candidates_keys: "fst ` set (fold (\<lambda>s m. mset_key (skey s) (g s) m) items m) = skey ` set items \<union> fst ` set m"
proof (induction items arbitrary: m)
  case (Cons s items)
  have "fst ` set (mset_key (skey s) (g s) m) = insert (skey s) (fst ` set m)" by (metis list.set_map dom_map_of_conv_image_fst map_of_mset_key dom_fun_upd option.distinct(1))
  with Cons show ?case by auto
qed simp

text \<open>the secret of an agent's cluster is never an orphan: unless the ManagedCluster itself carries the label of imported clusters, the list
  a reconcile starts from does not have it, and cleaning up what is left of that list keeps it, whether or not the
  ManagedCluster still exists.\<close>

theorem agent_secret_never_orphan:
  assumes "keyed s_meta (w_secrets w)" and "agentSecret lib d src ns ca c = Inr s"
    and "map_of (mc_labels c) ArgocdClusterSecretLabel \<noteq> Some ''true''" and "map_of (w_secrets w) (skey s) = Some s"
    and "run_state GetAllManagedClusterSecretsInArgo w = (Inr items, u)" and "set m \<subseteq> set (orphan_candidates items)"
    and "run_state (cleanupOrphanSecrets m) u = (ok, t)"
  shows "skey s \<notin> fst ` set (orphan_candidates items) \<and> map_of (w_secrets t) (skey s) = Some s"
proof -
  have u: "w_secrets u = w_secrets w" "items = filter (\<lambda>s. has_label (m_labels (s_meta s)) ArgocdClusterSecretLabel ''true''
                     \<and> has_label (m_labels (s_meta s)) argoSecretType ''cluster'') (map snd (w_secrets w))"
    using assms(5) by (auto simp: GetAllManagedClusterSecretsInArgo_def run_simps split: option.splits)
  have "skey s \<notin> skey ` set items"
  proof
    assume "skey s \<in> skey ` set items"
    then obtain y where "y \<in> set items" "skey s = skey y" by (rule imageE)
    then have y: "skey y = skey s" "y \<in> set (map snd (w_secrets w))" "has_label (m_labels (s_meta y)) ArgocdClusterSecretLabel ''true''"
      unfolding u(2) by simp_all
    then have "y = s" using keyed_listed [OF assms(1) y(2)] assms(4) by (simp add: skey_def)
    with y(3) agentSecretD(3) [OF assms(2)] assms(3) show False
      by (auto simp: has_label_def ArgocdClusterSecretLabel_def labelKeyClusterAgentMapping_def argoSecretType_def)
  qed
  then have no: "skey s \<notin> fst ` set (orphan_candidates items)" by (simp add: orphan_candidates_def candidates_keys)
  have "state_io_rel (\<lambda>a b. keyed s_meta (w_secrets a) \<and> map_of (w_secrets a) (skey s) = Some s \<longrightarrow>
      keyed s_meta (w_secrets b) \<and> map_of (w_secrets b) (skey s) = Some s) (cleanupOrphanSecrets m)"
    unfolding cleanupOrphanSecrets_def
  proof (rule inv_frame.loopM_frame, rule cleanup_keeps_others)
    fix e assume "e \<in> set m"
    with no assms(6) show "fst e \<noteq> skey s" by (metis image_eqI subsetD)
  qed
  from state_io_relD [OF this assms(7)] no u(1) assms(1,4) show ?thesis by simp
qed

section \<open>Witnesses\<close>

definition spoke :: managed_cluster where
  "spoke = \<lparr>mc_meta = plain_meta ''c1'' [] [(''env'', ''prod'')] [], mc_configs = [], mc_conditions = []\<rparr>"

definition hub :: managed_cluster where
  "hub = \<lparr>mc_meta = plain_meta ''local-cluster'' [] [] [], mc_configs = [], mc_conditions = []\<rparr>"

definition plain_lib :: agent_lib where
  "plain_lib = \<lparr>al_dns = (\<lambda>s. s \<noteq> [] \<and> set s \<subseteq> set ''abcdefghijklmnopqrstuvwxyz0123456789-.''), al_pair = (\<lambda>c k. Inr c)\<rparr>"

definition fixed_draw :: agent_draw where
  "fixed_draw = \<lparr>dw_key = Inr ''KEY'', dw_sign = (\<lambda>n ca. Inr (n @ ca)), dw_password = Inr ''PASSWORD''\<rparr>"

definition agent_world :: world where
  "agent_world = empty_world\<lparr>
     w_clusters := [(([], ''local-cluster''), hub), (([], ''c1''), spoke)],
     w_services := [((''argo'', defaultResourceProxyServiceName),
       \<lparr>sv_meta = plain_meta defaultResourceProxyServiceName ''argo'' [] [], sv_type = ''ClusterIP'',
        sv_ports = [\<lparr>sp_name = ''resource-proxy'', sp_port = 9090, sp_nodePort = 0\<rparr>], sv_ingress = []\<rparr>)],
     w_secrets := [((''argo'', principalCAName),
       \<lparr>s_meta = plain_meta principalCAName ''argo'' [] [], s_type = ''Opaque'',
        s_data = [(''tls.crt'', ''CRT''), (''tls.key'', ''KEY'')], s_string_data = []\<rparr>),
       ((''argo'', ''blank''),
       \<lparr>s_meta = plain_meta ''blank'' ''argo'' [(argoSecretType, ''cluster''), (ArgocdClusterSecretLabel, ''true''),
          (ACMClusterNameLabel, ''c1''), (dataSourceLabel, ''blank'')] [], s_type = ''Opaque'', s_data = [], s_string_data = []\<rparr>)]\<rparr>"

lemma agent_world_facts:
  "calm agent_world" "keyed s_meta (w_secrets agent_world)" "gs_argo_ns (gc_spec sample_gitops) = ''argo''"
  by (simp_all add: agent_world_def empty_world_def keyed_def sample_gitops_def principalCAName_def)

lemma plain_names: "al_dns plain_lib ''c1''" "\<not> IsLocalCluster (Some spoke)" "IsLocalCluster (Some hub)" "dns_names plain_lib"
  by (simp_all add: plain_lib_def spoke_def hub_def IsLocalCluster_def dns_names_def)

lemma spoke_secret: "\<exists>s. agentSecret plain_lib fixed_draw (Inl (defaultResourceProxyServiceName, 9090)) ns ca spoke = Inr s"
  by (simp add: agentSecret_def agentCluster_def clusterToSecret_def generateAgentClientCertificate_def generateRandomPassword_def
      server_url_def constructResourceProxyURL_def fixed_draw_def plain_names spoke_def Let_def has_key_def
      annotationKeyAppSkipReconcile_def lastAppliedAnnotation_def)

definition local_world :: world where
  "local_world = w_secrets_update (mset_key (''argo'', ''cluster-local-cluster'') (localSecret ''argo'' ''local-cluster'')) agent_world"

lemma agent_world_steps:
  "run_state (ensureLocalClusterSecret ''argo'' []) agent_world = (([], Inr ()), local_world)"
  "run_state (choose_source sample_gitops ''argo'') local_world = (Inr (Inl (defaultResourceProxyServiceName, 9090)), local_world)"
  "run_state (loadPrincipalCACertificate plain_lib ''argo'') local_world = (Inr (''CRT'', pem_encode ''CERTIFICATE'' ''CRT''), local_world)"
proof -
  have v: "consume agent_world = agent_world" "verdict agent_world = None" "consume local_world = local_world" "verdict local_world = None"
    by (simp_all add: agent_world_def local_world_def empty_world_def consume_def verdict_def)
  have l: "skey (localSecret ''argo'' ''local-cluster'') = (''argo'', ''cluster-local-cluster'')"
    "persist_secret (localSecret ''argo'' ''local-cluster'') = localSecret ''argo'' ''local-cluster''"
    by (simp_all add: localSecret_def skey_def persist_secret_def)
  have c: "map snd (w_clusters agent_world) = [hub, spoke]" "mc_name hub = ''local-cluster''"
    by (simp_all add: agent_world_def hub_def)
  have "run_state findLocalCluster agent_world = (Inr (Some hub), agent_world)"
    by (simp add: findLocalCluster_def run_simps v c plain_names(3))
  moreover have "map_of (w_secrets agent_world) (''argo'', ''cluster-local-cluster'') = None"
    by (simp add: agent_world_def principalCAName_def)
  then have "run_state (storeLocalSecret (localSecret ''argo'' ''local-cluster'')) agent_world = (Inr (), local_world)"
    by (simp add: storeLocalSecret_def run_simps v l has_key_def local_world_def)
  ultimately show "run_state (ensureLocalClusterSecret ''argo'' []) agent_world = (([], Inr ()), local_world)"
    by (simp add: ensureLocalClusterSecret_def c(2))
  show "run_state (choose_source sample_gitops ''argo'') local_world = (Inr (Inl (defaultResourceProxyServiceName, 9090)), local_world)"
    by (simp add: choose_source_def FindArgoCDAgentResourceProxyService_def run_simps v proxy_by_name_def)
       (simp add: local_world_def agent_world_def resourceProxyPortFromService_def)
  have "map_of (w_secrets local_world) (''argo'', principalCAName) =
      Some \<lparr>s_meta = plain_meta principalCAName ''argo'' [] [], s_type = ''Opaque'',
        s_data = [(''tls.crt'', ''CRT''), (''tls.key'', ''KEY'')], s_string_data = []\<rparr>"
    by (simp add: local_world_def agent_world_def principalCAName_def)
  then show "run_state (loadPrincipalCACertificate plain_lib ''argo'') local_world = (Inr (''CRT'', pem_encode ''CERTIFICATE'' ''CRT''), local_world)"
    by (simp add: loadPrincipalCACertificate_def run_simps v plain_lib_def)
qed

lemma agent_world_run:
  "\<exists>t. run_state (CreateArgoCDAgentClusters plain_lib (\<lambda>_. fixed_draw) sample_gitops [spoke, hub] []) agent_world = (([], Inr ()), t)"
proof -
  let ?m = "loopM (createAgentCluster plain_lib (\<lambda>_. fixed_draw) (Inl (defaultResourceProxyServiceName, 9090)) ''argo'' (''CRT'', pem_encode ''CERTIFICATE'' ''CRT'')) []
    (List.enumerate 0 [spoke, hub])"
  obtain m t where l: "run_state ?m local_world = (m, t)" by (rule prod.exhaust)
  have run: "run_state (CreateArgoCDAgentClusters plain_lib (\<lambda>_. fixed_draw) sample_gitops [spoke, hub] []) agent_world = ((m, Inr ()), t)"
    using l by (simp add: CreateArgoCDAgentClusters_def Let_def agent_world_facts(3) agent_world_steps del: loopM.simps enumerate_simps)
  then have "m = []" using orphans_shrink [OF run] by (cases m) (auto simp: map_le_def)
  with run show ?thesis by blast
qed

theorem agent_clusters_registered_witness:
  "\<exists>t s. run_state (CreateArgoCDAgentClusters plain_lib (\<lambda>_. fixed_draw) sample_gitops [spoke, hub] []) agent_world = (([], Inr ()), t)
     \<and> map_of (w_secrets t) (''argo'', ''cluster-c1'') = Some s \<and> map_of (s_data s) ''name'' = Some ''c1''
     \<and> map_of (m_labels (s_meta s)) ''env'' = Some ''prod''"
proof -
  obtain t where run: "run_state (CreateArgoCDAgentClusters plain_lib (\<lambda>_. fixed_draw) sample_gitops [spoke, hub] []) agent_world = (([], Inr ()), t)"
    using agent_world_run by blast
  have n: "mc_name spoke = ''c1''" "mc_name hub = ''local-cluster''" by (simp_all add: spoke_def hub_def)
  have "inj_on mc_name (set [spoke, hub])" "\<forall>c \<in> set [spoke, hub]. map_of (mc_labels c) dataSourceLabel \<noteq> Some ''blank''"
    by (auto simp: n spoke_def hub_def dataSourceLabel_def)
  from agent_clusters_registered [OF agent_world_facts(1,2) this run] obtain src ca where
    src: "url_source_ok sample_gitops agent_world src" and
    reg: "\<forall>i < length [spoke, hub]. [spoke, hub] ! i \<in> agent_routed plain_lib [spoke, hub]
         \<and> (\<exists>s. agentSecret plain_lib fixed_draw src (gs_argo_ns (gc_spec sample_gitops)) ca ([spoke, hub] ! i) = Inr s)
         \<longrightarrow> registered plain_lib (\<lambda>_. fixed_draw) src (gs_argo_ns (gc_spec sample_gitops)) ca ([spoke, hub] ! i) t"
    by (elim exE conjE)
  have "src = Inl (defaultResourceProxyServiceName, 9090)"
    using src
    by (auto simp: url_source_ok_def agent_world_def resourceProxyPortFromService_def getArgoCDAgentServerConfig_def agent_of_def
        sample_gitops_def split: sum.splits)
  then have "\<exists>s. agentSecret plain_lib fixed_draw src (gs_argo_ns (gc_spec sample_gitops)) ca spoke = Inr s" using spoke_secret by simp
  moreover have "spoke \<in> agent_routed plain_lib [spoke, hub]" using plain_names(1,2) n(1) by (simp add: agent_routed_def)
  ultimately have "registered plain_lib (\<lambda>_. fixed_draw) src (gs_argo_ns (gc_spec sample_gitops)) ca spoke t"
    using reg [THEN spec, of 0] by simp
  then obtain s where s: "agentSecret plain_lib fixed_draw src ''argo'' ca spoke = Inr s" "map_of (w_secrets t) (''argo'', ''cluster-'' @ mc_name spoke) = Some s"
    unfolding registered_def agent_world_facts(3) by blast
  have "map_of (m_labels (s_meta s)) ''env'' = Some ''prod''"
    unfolding agentSecretD(3) [OF s(1)] by (simp add: spoke_def labelKeyClusterAgentMapping_def argoSecretType_def)
  moreover have "map_of (s_data s) ''name'' = Some ''c1''" using agentSecretD(5) [OF s(1)] n(1) by simp
  ultimately show ?thesis using run s(2) n(1) by (intro exI conjI) auto
qed

theorem agent_clusters_safe_witness:
  "map_of (w_secrets (snd (run_state (CreateArgoCDAgentClusters plain_lib (\<lambda>_. fixed_draw) sample_gitops [spoke, hub] []) agent_world))) (''argo'', ''other'') = None"
proof -
  obtain t where run: "run_state (CreateArgoCDAgentClusters plain_lib (\<lambda>_. fixed_draw) sample_gitops [spoke, hub] []) agent_world = (([], Inr ()), t)"
    using agent_world_run by blast
  have "(''argo'', ''other'') \<notin> agent_targets (gs_argo_ns (gc_spec sample_gitops)) (local_clusters agent_world \<union> agent_routed plain_lib [spoke, hub])"
    by (auto simp: agent_targets_def)
  with agent_clusters_safe [OF agent_world_facts(2) run] have
    "kept_or_blank (gs_argo_ns (gc_spec sample_gitops)) (mc_name ` agent_routed plain_lib [spoke, hub]) agent_world (''argo'', ''other'')
       (map_of (w_secrets t) (''argo'', ''other''))" by blast
  moreover have "map_of (w_secrets agent_world) (''argo'', ''other'') = None" by (simp add: agent_world_def principalCAName_def)
  ultimately show ?thesis using run by (auto simp: kept_or_blank_def)
qed

theorem agent_url_identifies_witness:
  "trim_right ''https://10.0.0.1:443?agentName=c1'' ''/'' = ''https://10.0.0.1:443?agentName=c1''"
proof -
  have "al_dns plain_lib ''10.0.0.1''" "parse_uint16 ''443'' \<noteq> None"
    by (simp_all add: plain_lib_def parse_uint16_def is_digit_def decimal_def)
  then have "server_url plain_lib ''argo'' (Inr (''10.0.0.1'', ''443'')) ''c1'' = Inr ''https://10.0.0.1:443?agentName=c1''"
    using plain_names(1) by (simp add: server_url_def constructServerURL_def Let_def)
  from agent_url_identifies [OF plain_names(4) this] show ?thesis by blast
qed

theorem agent_secret_never_orphan_witness:
  "\<exists>s w. map_of (w_secrets w) (''argo'', ''cluster-c1'') = Some s
     \<and> map_of (w_secrets (snd (run_state (cleanupOrphanSecrets []) w))) (''argo'', ''cluster-c1'') = Some s"
proof -
  obtain s where s: "agentSecret plain_lib fixed_draw (Inl (defaultResourceProxyServiceName, 9090)) ''argo'' (''CRT'', ''PEM'') spoke = Inr s"
    using spoke_secret by blast
  define w where "w = empty_world\<lparr>w_secrets := [((''argo'', ''cluster-c1''), s)]\<rparr>"
  have k: "skey s = (''argo'', ''cluster-c1'')" using agentSecretD(1) [OF s] by (simp add: spoke_def)
  then have g: "keyed s_meta (w_secrets w)" "map_of (w_secrets w) (skey s) = Some s"
    by (simp_all add: w_def keyed_def skey_def)
  have l: "map_of (mc_labels spoke) ArgocdClusterSecretLabel \<noteq> Some ''true''" by (simp add: spoke_def ArgocdClusterSecretLabel_def)
  obtain items u where i: "run_state GetAllManagedClusterSecretsInArgo w = (Inr items, u)"
    by (simp add: GetAllManagedClusterSecretsInArgo_def run_simps w_def empty_world_def verdict_def)
  have "run_state (cleanupOrphanSecrets []) u = (True, u)" by (simp add: cleanupOrphanSecrets_def)
  from agent_secret_never_orphan [OF g(1) s l g(2) i _ this] have "map_of (w_secrets u) (skey s) = Some s" by simp
  then show ?thesis using k by (intro exI [of _ s] exI [of _ u]) (simp add: cleanupOrphanSecrets_def)
qed

end
