(* ===== verification/AddonTemplates.thy ===== *)
theory AddonTemplates
  imports AddonEnvironment HubCA
begin

text \<open>
  \<open>pkg/controller/gitopscluster/addon_template_management.go\<close>: the AddOnTemplate of a GitOpsCluster with the
  Argo CD agent. A template's manifests are the JSON objects the code stores; the encoder of the API types
  also prints a few empty structs (\<open>resources\<close>, \<open>strategy\<close>), which nothing reads and which are left out. The
  environment of the controller is the argument \<open>env\<close>; the variables of the containers are in AddonManagement.
\<close>

section \<open>The controller's image\<close>

definition imagePullPolicyForImage :: "string \<Rightarrow> string" where
  "imagePullPolicyForImage img = (if has_suffix img '':latest'' then ''Always'' else ''IfNotPresent'')"

definition ControllerImageEnvVar :: string where "ControllerImageEnvVar = ''CONTROLLER_IMAGE''"

definition runs_gitopscluster :: "string list \<times> string \<Rightarrow> bool" where
  "runs_gitopscluster c \<longleftrightarrow> list_ex (\<lambda>cmd. str_contains cmd ''gitopscluster'') (fst c)"

definition getControllerImage :: "environment \<Rightarrow> string api" where
  "getControllerImage env =
     (if env ControllerImageEnvVar \<noteq> [] then State_Monad.return (Inr (env ControllerImageEnvVar))
      else if env ''POD_NAME'' = [] \<or> env ''POD_NAMESPACE'' = [] then
        State_Monad.return (Inl (ErrText (''controller image configuration missing: '' @ ControllerImageEnvVar @
          '' environment variable not set and auto-detection failed (POD_NAME or POD_NAMESPACE not set)'')))
      else do {
        g \<leftarrow> get_pod (env ''POD_NAMESPACE'', env ''POD_NAME'');
        State_Monad.return (case g of
          Inl e \<Rightarrow> Inl (Wrapped (''failed to auto-detect controller image: could not get pod '' @ env ''POD_NAMESPACE'' @ ''/'' @ env ''POD_NAME'') e)
        | Inr pod \<Rightarrow>
            (case find runs_gitopscluster (po_containers pod) of
               Some c \<Rightarrow> Inr (snd c)
             | None \<Rightarrow> Inl (ErrText (''failed to auto-detect controller image: no container with '' @ [CHR 0x27] @ ''gitopscluster'' @ [CHR 0x27] @
                 '' command found in pod '' @ env ''POD_NAMESPACE'' @ ''/'' @ env ''POD_NAME''))))
      })"

section \<open>Manifests\<close>

definition GitOpsAddonLabel :: string where "GitOpsAddonLabel = ''apps.open-cluster-management.io/gitopsaddon''"
definition agentAddonNamespace :: string where "agentAddonNamespace = ''open-cluster-management-agent-addon''"

definition jstrs :: "string list \<Rightarrow> json" where "jstrs xs = JArr (map JStr xs)"
definition jmap :: "smap \<Rightarrow> json" where "jmap m = JObj (map (\<lambda>(k, v). (k, JStr v)) m)"

definition typed_object :: "string \<Rightarrow> string \<Rightarrow> string \<Rightarrow> string \<Rightarrow> smap \<Rightarrow> smap \<Rightarrow> jobj \<Rightarrow> jobj" where
  "typed_object apiVersion kd nm ns annos labels fs =
     [(''apiVersion'', JStr apiVersion), (''kind'', JStr kd),
      (''metadata'', JObj ([(''name'', JStr nm)] @ (if ns = [] then [] else [(''namespace'', JStr ns)]) @
         (if annos = [] then [] else [(''annotations'', jmap annos)]) @ [(''labels'', jmap labels)]))] @ fs"

definition preDelete :: smap where "preDelete = [(''addon.open-cluster-management.io/addon-pre-delete'', [])]"
definition addonLabels :: smap where "addonLabels = [(GitOpsAddonLabel, ''true'')]"

definition newManifestWithoutStatus :: "jobj \<Rightarrow> manifest" where
  "newManifestWithoutStatus objMap = RawManifest (JObj (mdel_key ''status'' objMap))"

definition rule :: "string list \<Rightarrow> string list \<Rightarrow> string list \<Rightarrow> policy_rule" where
  "rule groups resources verbs = \<lparr>ru_groups = groups, ru_resources = resources, ru_verbs = verbs\<rparr>"

definition rule_json :: "policy_rule \<Rightarrow> json" where
  "rule_json r = JObj [(''verbs'', jstrs (ru_verbs r)), (''apiGroups'', jstrs (ru_groups r)), (''resources'', jstrs (ru_resources r))]"

definition cleanupClusterRoleRules :: "policy_rule list" where
  "cleanupClusterRoleRules =
     [rule [[]] [''namespaces''] [''get'', ''list'', ''watch''],
      rule [[]] [''serviceaccounts''] [''get'', ''list'', ''watch'', ''delete''],
      rule [[]] [''pods''] [''get'', ''list'', ''watch'', ''delete''],
      rule [[]] [''configmaps''] [''get'', ''list'', ''watch'', ''create'', ''update'', ''delete''],
      rule [[]] [''services''] [''get'', ''list'', ''watch'', ''delete''],
      rule [[]] [''events''] [''create'', ''patch''],
      rule [''apps''] [''deployments''] [''get'', ''list'', ''watch'', ''delete''],
      rule [''apps''] [''statefulsets''] [''get'', ''list'', ''watch'', ''delete''],
      rule [''rbac.authorization.k8s.io''] [''roles'', ''rolebindings''] [''get'', ''list'', ''delete''],
      rule [''rbac.authorization.k8s.io''] [''clusterroles'', ''clusterrolebindings''] [''get'', ''list'', ''delete''],
      rule [''argoproj.io''] [''argocds''] [''get'', ''list'', ''watch'', ''delete'', ''patch''],
      rule [''operators.coreos.com''] [''subscriptions''] [''get'', ''list'', ''delete''],
      rule [''operators.coreos.com''] [''clusterserviceversions''] [''get'', ''list'', ''delete''],
      rule [''operators.coreos.com''] [''installplans''] [''get'', ''list'', ''delete''],
      rule [''pipelines.openshift.io''] [''gitopsservices''] [''get'', ''delete'']]"

definition gitopsAddonClusterRoleRules :: "policy_rule list" where
  "gitopsAddonClusterRoleRules =
     [rule [[]] [''namespaces''] [''get'', ''list'', ''watch'', ''create'', ''update'', ''patch''],
      rule [[]] [''secrets''] [''get'', ''list'', ''watch'', ''create'', ''update'', ''patch'', ''delete''],
      rule [[]] [''serviceaccounts''] [''get'', ''list'', ''watch'', ''create'', ''update'', ''patch'', ''delete''],
      rule [[]] [''pods''] [''get'', ''list'', ''watch'', ''delete''],
      rule [[]] [''configmaps''] [''get'', ''list'', ''watch'', ''create'', ''update'', ''patch'', ''delete''],
      rule [[]] [''services''] [''get'', ''list'', ''watch'', ''create'', ''update'', ''patch'', ''delete''],
      rule [[]] [''events''] [''create'', ''patch''],
      rule [''apps''] [''deployments''] [''get'', ''list'', ''watch'', ''create'', ''update'', ''patch'', ''delete''],
      rule [''apps''] [''deployments/finalizers''] [''update''],
      rule [''rbac.authorization.k8s.io''] [''roles'', ''rolebindings''] [''get'', ''list'', ''watch'', ''create'', ''update'', ''patch'', ''delete'', ''escalate'', ''bind''],
      rule [''rbac.authorization.k8s.io''] [''clusterroles'', ''clusterrolebindings''] [''get'', ''list'', ''watch'', ''create'', ''update'', ''patch'', ''delete'', ''escalate'', ''bind''],
      rule [''apiextensions.k8s.io''] [''customresourcedefinitions''] [''get'', ''list'', ''watch'', ''create'', ''update'', ''patch''],
      rule [''argoproj.io''] [''argocds''] [''get'', ''list'', ''watch'', ''create'', ''update'', ''delete''],
      rule [''operators.coreos.com''] [''subscriptions''] [''get'', ''list'', ''watch'', ''create'', ''update'', ''delete''],
      rule [''operators.coreos.com''] [''clusterserviceversions''] [''get'', ''list'', ''delete''],
      rule [''operators.coreos.com''] [''operatorgroups''] [''get'', ''list'', ''create''],
      rule [''pipelines.openshift.io''] [''gitopsservices''] [''get'', ''delete''],
      rule [''cluster.open-cluster-management.io''] [''managedclusters''] [''list''],
      rule [''cluster.open-cluster-management.io''] [''clusterclaims''] [''get''],
      rule [''operator.open-cluster-management.io''] [''clustermanagers''] [''list''],
      rule [''coordination.k8s.io''] [''leases''] [''get'', ''list'', ''watch'', ''create'', ''update'', ''patch'', ''delete'']]"

definition rbacVersion :: string where "rbacVersion = ''rbac.authorization.k8s.io/v1''"

definition buildCleanupClusterRoleManifest :: manifest where
  "buildCleanupClusterRoleManifest = newManifestWithoutStatus
     (typed_object rbacVersion ''ClusterRole'' ''gitops-addon-cleanup'' [] preDelete addonLabels
       [(''rules'', JArr (map rule_json cleanupClusterRoleRules))])"

definition binding_fields :: "string \<Rightarrow> string \<Rightarrow> jobj" where
  "binding_fields clusterRole ns =
     [(''subjects'', JArr [jmap [(''kind'', ''ServiceAccount''), (''name'', ''gitops-addon''), (''namespace'', ns)]]),
      (''roleRef'', jmap [(''apiGroup'', ''rbac.authorization.k8s.io''), (''kind'', ''ClusterRole''), (''name'', clusterRole)])]"

definition buildCleanupClusterRoleBindingManifest :: "string \<Rightarrow> manifest" where
  "buildCleanupClusterRoleBindingManifest ns = newManifestWithoutStatus
     (typed_object rbacVersion ''ClusterRoleBinding'' ''gitops-addon-cleanup'' [] preDelete addonLabels
       (binding_fields ''gitops-addon-cleanup'' ns))"

definition env_json :: "string \<times> env_value \<Rightarrow> json" where
  "env_json e =
     (case snd e of
        EnvText v \<Rightarrow> jmap [(''name'', fst e), (''value'', v)]
      | EnvField f \<Rightarrow> JObj [(''name'', JStr (fst e)), (''valueFrom'', JObj [(''fieldRef'', jmap [(''fieldPath'', f)])])])"

definition buildCleanupJobManifest :: "string \<Rightarrow> string \<Rightarrow> manifest" where
  "buildCleanupJobManifest img ns = newManifestWithoutStatus
     (typed_object ''batch/v1'' ''Job'' ''gitops-addon-cleanup'' ns preDelete addonLabels
       [(''spec'', JObj
          [(''manualSelector'', JBool True), (''backoffLimit'', JNum 3), (''activeDeadlineSeconds'', JNum 600),
           (''selector'', JObj [(''matchLabels'', jmap [(''job-name'', ''gitops-addon-cleanup'')])]),
           (''template'', JObj
              [(''metadata'', JObj [(''labels'', jmap [(''job-name'', ''gitops-addon-cleanup'')])]),
               (''spec'', JObj
                  [(''serviceAccountName'', JStr ''gitops-addon''), (''restartPolicy'', JStr ''Never''),
                   (''containers'', JArr [JObj
                      [(''name'', JStr ''cleanup''), (''image'', JStr img),
                       (''imagePullPolicy'', JStr (imagePullPolicyForImage img)),
                       (''command'', jstrs [''/usr/local/bin/gitopsaddon'']), (''args'', jstrs [''-cleanup'']),
                       (''env'', JArr (map env_json buildCleanupEnvVars))]])])])]),
        (''status'', JObj [])])"

definition buildServiceAccountManifest :: "string \<Rightarrow> manifest" where
  "buildServiceAccountManifest ns = newManifestWithoutStatus
     (typed_object ''v1'' ''ServiceAccount'' ''gitops-addon'' ns [] addonLabels
       [(''imagePullSecrets'', JArr [jmap [(''name'', ''open-cluster-management-image-pull-credentials'')]])])"

definition buildClusterRoleManifest :: manifest where
  "buildClusterRoleManifest = newManifestWithoutStatus
     (typed_object rbacVersion ''ClusterRole'' ''gitops-addon'' [] [] addonLabels
       [(''rules'', JArr (map rule_json gitopsAddonClusterRoleRules))])"

definition buildClusterRoleBindingManifest :: "string \<Rightarrow> manifest" where
  "buildClusterRoleBindingManifest ns = newManifestWithoutStatus
     (typed_object rbacVersion ''ClusterRoleBinding'' ''gitops-addon'' [] [] addonLabels (binding_fields ''gitops-addon'' ns))"

definition buildDeploymentManifest :: "string \<Rightarrow> string \<Rightarrow> manifest" where
  "buildDeploymentManifest img ns = newManifestWithoutStatus
     (typed_object ''apps/v1'' ''Deployment'' ''gitops-addon'' ns [] ((''app'', ''gitops-addon'') # addonLabels)
       [(''spec'', JObj
          [(''replicas'', JNum 1),
           (''selector'', JObj [(''matchLabels'', jmap [(''app'', ''gitops-addon'')])]),
           (''template'', JObj
              [(''metadata'', JObj [(''labels'', jmap [(''app'', ''gitops-addon'')])]),
               (''spec'', JObj
                  [(''serviceAccountName'', JStr ''gitops-addon''),
                   (''containers'', JArr [JObj
                      [(''name'', JStr ''gitops-addon''), (''image'', JStr img),
                       (''imagePullPolicy'', JStr (imagePullPolicyForImage img)),
                       (''command'', jstrs [''/usr/local/bin/gitopsaddon'']),
                       (''env'', JArr (map env_json buildAddonEnvVars)),
                       (''securityContext'', JObj
                          [(''readOnlyRootFilesystem'', JBool True), (''allowPrivilegeEscalation'', JBool False),
                           (''runAsNonRoot'', JBool True), (''capabilities'', JObj [(''drop'', jstrs [''ALL''])])]),
                       (''volumeMounts'', JArr [jmap [(''mountPath'', ''/tmp''), (''name'', ''tmp-volume'')]])]]),
                   (''volumes'', JArr [JObj [(''name'', JStr ''tmp-volume''), (''emptyDir'', JObj [])]])])])]),
        (''status'', JObj [])])"

text \<open>The namespace is defaulted and then not used.\<close>

definition buildAddonManifests :: "string \<Rightarrow> string \<Rightarrow> manifest list" where
  "buildAddonManifests gitOpsNamespace img =
     [buildCleanupClusterRoleManifest,
      buildCleanupClusterRoleBindingManifest agentAddonNamespace,
      buildCleanupJobManifest img agentAddonNamespace,
      buildServiceAccountManifest agentAddonNamespace,
      buildClusterRoleManifest,
      buildClusterRoleBindingManifest agentAddonNamespace,
      buildDeploymentManifest img agentAddonNamespace]"

section \<open>Reading a template back\<close>

text \<open>Decoding into the probe's fields; \<open>None\<close> is an error of \<open>json.Unmarshal\<close>, a missing field is its zero value.\<close>

definition object_field :: "string \<Rightarrow> jobj \<Rightarrow> jobj option" where
  "object_field nm m =
     (case json_field nm m of None \<Rightarrow> Some [] | Some JNull \<Rightarrow> Some [] | Some (JObj f) \<Rightarrow> Some f | Some _ \<Rightarrow> None)"

definition text_field :: "string \<Rightarrow> jobj \<Rightarrow> string option" where
  "text_field nm m =
     (case json_field nm m of None \<Rightarrow> Some [] | Some JNull \<Rightarrow> Some [] | Some (JStr s) \<Rightarrow> Some s | Some _ \<Rightarrow> None)"

fun container_image :: "json \<Rightarrow> string option" where
  "container_image (JObj m) = text_field ''image'' m"
| "container_image JNull = Some []"
| "container_image j = None"

definition container_images :: "jobj \<Rightarrow> string list option" where
  "container_images m =
     (case json_field ''containers'' m of
        None \<Rightarrow> Some [] | Some JNull \<Rightarrow> Some [] | Some (JArr xs) \<Rightarrow> those (map container_image xs) | Some _ \<Rightarrow> None)"

fun probe_deployment :: "manifest \<Rightarrow> (string \<times> string list) option" where
  "probe_deployment (RawManifest (JObj m)) =
     (case (text_field ''kind'' m, object_field ''spec'' m) of
        (Some k, Some s) \<Rightarrow>
          (case object_field ''template'' s of
             None \<Rightarrow> None
           | Some t \<Rightarrow>
               (case object_field ''spec'' t of
                  None \<Rightarrow> None
                | Some p \<Rightarrow> map_option (Pair k) (container_images p)))
      | _ \<Rightarrow> None)"
| "probe_deployment (RawManifest JNull) = Some ([], [])"
| "probe_deployment m = None"

fun extractDeploymentImage :: "manifest list \<Rightarrow> string option" where
  "extractDeploymentImage [] = None"
| "extractDeploymentImage (m # ms) =
     (case probe_deployment m of
        Some (k, img # images) \<Rightarrow> if k = ''Deployment'' then Some img else extractDeploymentImage ms
      | _ \<Rightarrow> extractDeploymentImage ms)"

definition addOnTemplateNeedsUpdate :: "addon_template \<Rightarrow> string \<Rightarrow> string \<Rightarrow> bool" where
  "addOnTemplateNeedsUpdate existing wantImage wantArgoNamespace \<longleftrightarrow>
     (case at_registration existing of
        Some s # rs \<Rightarrow> cs_ca_ns s \<noteq> wantArgoNamespace \<or> extractDeploymentImage (at_manifests existing) \<noteq> Some wantImage
      | _ \<Rightarrow> True)"

section \<open>Ensuring and deleting templates\<close>

definition LegacyStaticOLMAddOnTemplateName :: string where "LegacyStaticOLMAddOnTemplateName = ''gitops-addon-olm''"

definition getLegacyOLMAddOnTemplateName :: "gitops_cluster \<Rightarrow> string" where
  "getLegacyOLMAddOnTemplateName g = ''gitops-addon-olm-'' @ m_ns (gc_meta g) @ ''-'' @ m_name (gc_meta g)"

definition deleteAddOnTemplateByName :: "string \<Rightarrow> unit api" where
  "deleteAddOnTemplateByName nm = do {
     d \<leftarrow> delete_template ([], nm);
     State_Monad.return (case d of Inl e \<Rightarrow> if \<not> is_not_found e then Inl e else Inr () | Inr u \<Rightarrow> Inr ())
   }"

definition cleanupLegacyOLMAddOnTemplates :: "gitops_cluster \<Rightarrow> (world, unit) state" where
  "cleanupLegacyOLMAddOnTemplates g = do {
     a \<leftarrow> deleteAddOnTemplateByName LegacyStaticOLMAddOnTemplateName;
     b \<leftarrow> deleteAddOnTemplateByName (getLegacyOLMAddOnTemplateName g);
     State_Monad.return ()
   }"

definition CleanupDynamicAddOnTemplates :: "gitops_cluster \<Rightarrow> (world, unit) state" where
  "CleanupDynamicAddOnTemplates g = do {
     a \<leftarrow> deleteAddOnTemplateByName (getAddOnTemplateName g);
     cleanupLegacyOLMAddOnTemplates g
   }"

definition agent_template :: "gitops_cluster \<Rightarrow> string \<Rightarrow> addon_template" where
  "agent_template g img =
     \<lparr>at_meta = plain_meta (getAddOnTemplateName g) []
        [(''app.kubernetes.io/managed-by'', ''multicloud-integrations''), (''app.kubernetes.io/component'', ''addon-template''),
         (''gitopscluster.apps.open-cluster-management.io/name'', m_name (gc_meta g)),
         (''gitopscluster.apps.open-cluster-management.io/namespace'', m_ns (gc_meta g))] [],
      at_addon = ''gitops-addon'', at_manifests = buildAddonManifests (m_ns (gc_meta g)) img,
      at_registration = [Some \<lparr>cs_name = ''open-cluster-management.io/argocd-agent-addon'',
        cs_ca_name = ''argocd-agent-ca'', cs_ca_ns = GetEffectiveArgoNamespace g\<rparr>]\<rparr>"

text \<open>An existing template keeps its metadata but for the labels, which are replaced.\<close>

definition overwrite_template :: "addon_template \<Rightarrow> addon_template \<Rightarrow> addon_template" where
  "overwrite_template existing new =
     new\<lparr>at_meta := (at_meta existing)\<lparr>m_labels := m_labels (at_meta new)\<rparr>\<rparr>"

definition EnsureAddOnTemplate :: "environment \<Rightarrow> gitops_cluster \<Rightarrow> unit api" where
  "EnsureAddOnTemplate env g = do {
     u \<leftarrow> cleanupLegacyOLMAddOnTemplates g;
     i \<leftarrow> getControllerImage env;
     case i of
       Inl e \<Rightarrow> State_Monad.return (Inl (Wrapped ''cannot create addon template'' e))
     | Inr img \<Rightarrow> do {
         t \<leftarrow> get_template ([], getAddOnTemplateName g);
         case t of
           Inr existing \<Rightarrow>
             (if \<not> addOnTemplateNeedsUpdate existing img (GetEffectiveArgoNamespace g) then State_Monad.return (Inr ())
              else update_template ([], getAddOnTemplateName g) (overwrite_template existing (agent_template g img)))
         | Inl e \<Rightarrow>
             (if \<not> is_not_found e then State_Monad.return (Inl (Wrapped ''failed to get AddOnTemplate'' e))
              else create_template ([], getAddOnTemplateName g) (agent_template g img))
       }
   }"

section \<open>Facts\<close>

text \<open>The image the template is built with is the image read back from it.\<close>

lemma other_kind:
  assumes "text_field ''kind'' m = Some k" and "k \<noteq> ''Deployment''"
  shows "extractDeploymentImage (RawManifest (JObj m) # ms) = extractDeploymentImage ms"
  using assms by (auto split: option.splits list.splits)

lemmas probe_defs = newManifestWithoutStatus_def typed_object_def json_field_def text_field_def equal_fold_def ascii_lower_def

lemma other_manifests:
  "extractDeploymentImage (buildCleanupClusterRoleManifest # ms) = extractDeploymentImage ms"
  "extractDeploymentImage (buildCleanupClusterRoleBindingManifest ns # ms) = extractDeploymentImage ms"
  "extractDeploymentImage (buildCleanupJobManifest img ns # ms) = extractDeploymentImage ms"
  "extractDeploymentImage (buildServiceAccountManifest ns # ms) = extractDeploymentImage ms"
  "extractDeploymentImage (buildClusterRoleManifest # ms) = extractDeploymentImage ms"
  "extractDeploymentImage (buildClusterRoleBindingManifest ns # ms) = extractDeploymentImage ms"
  unfolding buildCleanupClusterRoleManifest_def buildCleanupClusterRoleBindingManifest_def buildCleanupJobManifest_def
    buildServiceAccountManifest_def buildClusterRoleManifest_def buildClusterRoleBindingManifest_def newManifestWithoutStatus_def
  by (rule other_kind, simp add: probe_defs binding_fields_def, simp)+

lemma deployment_image: "extractDeploymentImage [buildDeploymentManifest img ns] = Some img"
  by (simp add: buildDeploymentManifest_def probe_defs object_field_def container_images_def)

lemma template_image: "extractDeploymentImage (buildAddonManifests ns img) = Some img"
  by (simp only: buildAddonManifests_def other_manifests deployment_image)

lemma template_current: "\<not> addOnTemplateNeedsUpdate (agent_template g img) img (GetEffectiveArgoNamespace g)"
  "\<not> addOnTemplateNeedsUpdate (overwrite_template e (agent_template g img)) img (GetEffectiveArgoNamespace g)"
  by (simp_all add: addOnTemplateNeedsUpdate_def agent_template_def overwrite_template_def template_image)

lemma own_name:
  "getAddOnTemplateName g \<noteq> LegacyStaticOLMAddOnTemplateName" "getAddOnTemplateName g \<noteq> getLegacyOLMAddOnTemplateName g"
proof
  assume "getAddOnTemplateName g = LegacyStaticOLMAddOnTemplateName"
  then have "m_ns (gc_meta g) @ ''-'' @ m_name (gc_meta g) = ''olm''"
    by (simp add: getAddOnTemplateName_def LegacyStaticOLMAddOnTemplateName_def)
  then have "CHR ''-'' \<in> set ''olm''" by (metis in_set_conv_decomp append_Cons append_Nil)
  then show False by simp
next
  show "getAddOnTemplateName g \<noteq> getLegacyOLMAddOnTemplateName g"
  proof
    assume "getAddOnTemplateName g = getLegacyOLMAddOnTemplateName g"
    then have "length (getAddOnTemplateName g) = length (getLegacyOLMAddOnTemplateName g)" by simp
    then show False by (simp add: getAddOnTemplateName_def getLegacyOLMAddOnTemplateName_def)
  qed
qed

definition template_targets :: "gitops_cluster \<Rightarrow> nsname set" where
  "template_targets g = {([], getAddOnTemplateName g), ([], LegacyStaticOLMAddOnTemplateName), ([], getLegacyOLMAddOnTemplateName g)}"

lemma image_quiet: "state_io_rel quiet (getControllerImage env)"
  unfolding getControllerImage_def by (intro quiet.frame_rules get_quiet)

lemma ensure_template_touches: "state_io_rel (templates.touches (template_targets g)) (EnsureAddOnTemplate env g)"
  unfolding EnsureAddOnTemplate_def cleanupLegacyOLMAddOnTemplates_def deleteAddOnTemplateByName_def
  by (intro templates.touching.frame_rules templates.get_touches templates.create_touches templates.update_touches
      templates.delete_touches templates.reading_touches image_quiet) (simp_all add: template_targets_def)

lemma delete_template_run:
  assumes "calm w"
  shows "\<exists>t. run_state (deleteAddOnTemplateByName nm) w = (Inr (), t) \<and> calm t \<and> w_pods t = w_pods w
     \<and> map_of (w_templates t) = (map_of (w_templates w))(([], nm) := None)
     \<and> (map_of (w_templates w) ([], nm) = None \<longrightarrow> quiet w t)"
  using assms quiet_consume [of w]
  by (cases "map_of (w_templates w) ([], nm)") (auto simp: deleteAddOnTemplateByName_def run_simps has_key_def fun_upd_idem)

lemma legacy_run:
  assumes "calm w"
  shows "\<exists>t. run_state (cleanupLegacyOLMAddOnTemplates g) w = ((), t) \<and> calm t \<and> w_pods t = w_pods w
     \<and> map_of (w_templates t) = (map_of (w_templates w))(([], LegacyStaticOLMAddOnTemplateName) := None, ([], getLegacyOLMAddOnTemplateName g) := None)
     \<and> (map_of (w_templates w) ([], LegacyStaticOLMAddOnTemplateName) = None
         \<and> map_of (w_templates w) ([], getLegacyOLMAddOnTemplateName g) = None \<longrightarrow> quiet w t)"
proof -
  obtain u where u: "run_state (deleteAddOnTemplateByName LegacyStaticOLMAddOnTemplateName) w = (Inr (), u)" "calm u" "w_pods u = w_pods w"
    "map_of (w_templates u) = (map_of (w_templates w))(([], LegacyStaticOLMAddOnTemplateName) := None)"
    "map_of (w_templates w) ([], LegacyStaticOLMAddOnTemplateName) = None \<longrightarrow> quiet w u"
    using delete_template_run [OF assms] by blast
  obtain t where t: "run_state (deleteAddOnTemplateByName (getLegacyOLMAddOnTemplateName g)) u = (Inr (), t)" "calm t" "w_pods t = w_pods u"
    "map_of (w_templates t) = (map_of (w_templates u))(([], getLegacyOLMAddOnTemplateName g) := None)"
    "map_of (w_templates u) ([], getLegacyOLMAddOnTemplateName g) = None \<longrightarrow> quiet u t"
    using delete_template_run [OF u(2)] by blast
  have "map_of (w_templates w) ([], LegacyStaticOLMAddOnTemplateName) = None
         \<and> map_of (w_templates w) ([], getLegacyOLMAddOnTemplateName g) = None \<longrightarrow> quiet w t"
    using u(4,5) t(5) quiet.frame_trans by (metis fun_upd_apply)
  with u t show ?thesis by (auto simp: cleanupLegacyOLMAddOnTemplates_def)
qed

lemma image_run:
  assumes "calm w" and "w_pods v = w_pods w" and "calm v" and "run_state (getControllerImage env) w = (Inr img, u)"
  shows "\<exists>t. run_state (getControllerImage env) v = (Inr img, t) \<and> quiet v t"
  using assms quiet_consume by (auto simp: getControllerImage_def run_simps quiet.frame_refl split: if_splits option.splits)

text \<open>One pass over the template when nothing is rejected, after the legacy templates are gone.\<close>

definition template_ready :: "gitops_cluster \<Rightarrow> string \<Rightarrow> world \<Rightarrow> bool" where
  "template_ready g img w \<longleftrightarrow>
     (\<exists>tm. map_of (w_templates w) ([], getAddOnTemplateName g) = Some tm \<and> \<not> addOnTemplateNeedsUpdate tm img (GetEffectiveArgoNamespace g))
     \<and> map_of (w_templates w) ([], LegacyStaticOLMAddOnTemplateName) = None
     \<and> map_of (w_templates w) ([], getLegacyOLMAddOnTemplateName g) = None"

lemma ensure_template_run:
  assumes "calm w" and "run_state (getControllerImage env) w = (Inr img, u)"
  shows "\<exists>t. run_state (EnsureAddOnTemplate env g) w = (Inr (), t) \<and> calm t \<and> template_ready g img t \<and> w_pods t = w_pods w
     \<and> (template_ready g img w \<longrightarrow> quiet w t)"
proof -
  let ?k = "([], getAddOnTemplateName g)"
  obtain v where v: "run_state (cleanupLegacyOLMAddOnTemplates g) w = ((), v)" "calm v" "w_pods v = w_pods w"
    "map_of (w_templates v) = (map_of (w_templates w))(([], LegacyStaticOLMAddOnTemplateName) := None, ([], getLegacyOLMAddOnTemplateName g) := None)"
    "map_of (w_templates w) ([], LegacyStaticOLMAddOnTemplateName) = None
         \<and> map_of (w_templates w) ([], getLegacyOLMAddOnTemplateName g) = None \<longrightarrow> quiet w v"
    using legacy_run [OF assms(1)] by blast
  obtain z where z: "run_state (getControllerImage env) v = (Inr img, z)" "quiet v z"
    using image_run [OF assms(1) v(3,2) assms(2)] by blast
  have cz: "calm z" using quiet_sel(19) [OF z(2)] v(2) by blast
  have tz: "map_of (w_templates z) ?k = map_of (w_templates w) ?k" "map_of (w_templates z) ([], LegacyStaticOLMAddOnTemplateName) = None"
    "map_of (w_templates z) ([], getLegacyOLMAddOnTemplateName g) = None" "w_pods z = w_pods w"
    using v(3,4) own_name [of g] quiet_sel(23,26) [OF z(2)] by simp_all
  consider tm where "map_of (w_templates z) ?k = Some tm" "\<not> addOnTemplateNeedsUpdate tm img (GetEffectiveArgoNamespace g)"
    | tm where "map_of (w_templates z) ?k = Some tm" "addOnTemplateNeedsUpdate tm img (GetEffectiveArgoNamespace g)"
    | "map_of (w_templates z) ?k = None" by (cases "map_of (w_templates z) ?k") auto
  then show ?thesis
  proof cases
    case 1
    have "quiet w (consume z)" if "template_ready g img w"
      using that v(5) z(2) quiet_consume quiet.frame_trans unfolding template_ready_def by blast
    with 1 v(1) z(1) cz tz show ?thesis
      by (auto simp: EnsureAddOnTemplate_def run_simps template_ready_def)
  next
    case 2
    then have "\<not> template_ready g img w" using tz(1) by (simp add: template_ready_def)
    with 2 v(1) z(1) cz tz own_name [of g] template_current(2) [of tm g img] show ?thesis
      by (auto simp: EnsureAddOnTemplate_def run_simps has_key_def template_ready_def)
  next
    case 3
    then have "\<not> template_ready g img w" using tz(1) by (simp add: template_ready_def)
    with 3 v(1) z(1) cz tz own_name [of g] template_current(1) [of g img] show ?thesis
      by (auto simp: EnsureAddOnTemplate_def run_simps has_key_def template_ready_def)
  qed
qed


text \<open>C39: the names of templates are not unique: ensuring the template of a GitOpsCluster deletes the one of the GitOpsCluster of
  the same name in the namespace prefixed with \<open>olm-\<close>, and GitOpsClusters whose namespace and name are split at another dash share one.\<close>

theorem other_template_deleted:
  assumes "calm w" and "m_ns (gc_meta h) = ''olm-'' @ m_ns (gc_meta g)" and "m_name (gc_meta h) = m_name (gc_meta g)"
    and "run_state (getControllerImage env) w = (Inr img, u)"
  shows "map_of (w_templates (snd (run_state (EnsureAddOnTemplate env g) w))) ([], getAddOnTemplateName h) = None"
proof -
  have "getAddOnTemplateName h = getLegacyOLMAddOnTemplateName g"
    using assms(2,3) by (simp add: getAddOnTemplateName_def getLegacyOLMAddOnTemplateName_def)
  with ensure_template_run [OF assms(1,4), of g] show ?thesis by (auto simp: template_ready_def)
qed

theorem other_template_deleted_witness:
  "map_of (w_templates (snd (run_state (EnsureAddOnTemplate (\<lambda>k. if k = ''CONTROLLER_IMAGE'' then ''img'' else []) sample_gitops)
      (empty_world\<lparr>w_templates := [(([], ''gitops-addon-olm-team-gc''), agent_template sample_gitops ''img'')]\<rparr>))))
     ([], ''gitops-addon-olm-team-gc'') = None"
proof -
  let ?env = "\<lambda>k. if k = ''CONTROLLER_IMAGE'' then ''img'' else []"
  let ?w = "empty_world\<lparr>w_templates := [(([], ''gitops-addon-olm-team-gc''), agent_template sample_gitops ''img'')]\<rparr>"
  let ?h = "sample_gitops\<lparr>gc_meta := plain_meta ''gc'' ''olm-team'' [] []\<rparr>"
  have i: "run_state (getControllerImage ?env) ?w = (Inr ''img'', ?w)"
    by (simp add: getControllerImage_def ControllerImageEnvVar_def)
  have c: "calm ?w" by (simp add: empty_world_def)
  have "getAddOnTemplateName ?h = ''gitops-addon-olm-team-gc''" by (simp add: getAddOnTemplateName_def)
  with other_template_deleted [OF c _ _ i, of ?h sample_gitops] show ?thesis by (simp add: sample_gitops_def)
qed


end
