(* ===== verification/Policies.thy ===== *)
theory Policies
  imports AddonTemplates
begin

text \<open>
  \<open>pkg/controller/gitopscluster/policy_template.go\<close>, \<open>argocd_policy.go\<close> and the policy half of
  \<open>agent_version_heal.go\<close>: the manifests as the text the code prints, created through the dynamic client, and the
  reconciliation of the agent's settings inside the stored Argo CD policy. The YAML parser is the argument \<open>yaml\<close>; the dynamic client
  is a real one (the recovery from its absence serves the tests) and knows the three kinds the code prints.
\<close>

section \<open>Text\<close>

definition dq :: string where "dq = [CHR 0x22]"
definition sq :: string where "sq = [CHR 0x27]"

text \<open>The lines of a raw string literal that begins and ends with a line break.\<close>

definition raw_text :: "string list \<Rightarrow> string" where
  "raw_text ls = CHR 0x0A # concat (map (\<lambda>l. l @ [CHR 0x0A]) ls)"

definition indentYaml :: "string \<Rightarrow> nat \<Rightarrow> string" where
  "indentYaml y spaces =
     join_with [CHR 0x0A] (map (\<lambda>l. if l \<noteq> [] then replicate spaces CHR '' '' @ l else []) (split_char CHR 0x0A y))"

text \<open>Reached only with a placement reference.\<close>

definition placement_name :: "gitops_cluster \<Rightarrow> string" where
  "placement_name g = (case gs_placement (gc_spec g) of None \<Rightarrow> [] | Some ref \<Rightarrow> pr_name ref)"

definition generatePlacementYamlString :: "gitops_cluster \<Rightarrow> string" where
  "generatePlacementYamlString g = raw_text
     [''apiVersion: cluster.open-cluster-management.io/v1beta1'',
      ''kind: Placement'',
      ''metadata:'',
      ''  name: '' @ m_name (gc_meta g) @ ''-policy-local-placement'',
      ''  namespace: '' @ m_ns (gc_meta g),
      ''  ownerReferences:'',
      ''  - apiVersion: apps.open-cluster-management.io/v1beta1'',
      ''    kind: GitOpsCluster'',
      ''    name: '' @ m_name (gc_meta g),
      ''    uid: '' @ m_uid (gc_meta g),
      ''spec:'',
      ''  clusterSets:'',
      ''    - global'',
      ''  predicates:'',
      ''    - requiredClusterSelector:'',
      ''        labelSelector:'',
      ''          matchExpressions:'',
      ''            - key: local-cluster'',
      ''              operator: In'',
      ''              values:'',
      ''                - '' @ dq @ ''true'' @ dq]"

definition generatePlacementBindingYamlString :: "gitops_cluster \<Rightarrow> string" where
  "generatePlacementBindingYamlString g = raw_text
     [''apiVersion: policy.open-cluster-management.io/v1'',
      ''kind: PlacementBinding'',
      ''metadata:'',
      ''  name: '' @ m_name (gc_meta g) @ ''-policy-local-placement-binding'',
      ''  namespace: '' @ m_ns (gc_meta g),
      ''  ownerReferences:'',
      ''  - apiVersion: apps.open-cluster-management.io/v1beta1'',
      ''    kind: GitOpsCluster'',
      ''    name: '' @ m_name (gc_meta g),
      ''    uid: '' @ m_uid (gc_meta g),
      ''placementRef:'',
      ''  name: '' @ m_name (gc_meta g) @ ''-policy-local-placement'',
      ''  kind: Placement'',
      ''  apiGroup: cluster.open-cluster-management.io'',
      ''subjects:'',
      ''  - name: '' @ m_name (gc_meta g) @ ''-policy'',
      ''    kind: Policy'',
      ''    apiGroup: policy.open-cluster-management.io'']"

definition generatePolicyTemplateYamlString :: "gitops_cluster \<Rightarrow> string" where
  "generatePolicyTemplateYamlString g = raw_text
     [''apiVersion: policy.open-cluster-management.io/v1'',
      ''kind: Policy'',
      ''metadata:'',
      ''  name: '' @ m_name (gc_meta g) @ ''-policy'',
      ''  namespace: '' @ m_ns (gc_meta g),
      ''  annotations:'',
      ''    policy.open-cluster-management.io/standards: NIST-CSF'',
      ''    policy.open-cluster-management.io/categories: PR.PT Protective Technology'',
      ''    policy.open-cluster-management.io/controls: PR.PT-3 Least Functionality'',
      ''  ownerReferences:'',
      ''  - apiVersion: apps.open-cluster-management.io/v1beta1'',
      ''    kind: GitOpsCluster'',
      ''    name: '' @ m_name (gc_meta g),
      ''    uid: '' @ m_uid (gc_meta g),
      ''spec:'',
      ''  remediationAction: enforce'',
      ''  disabled: false'',
      ''  policy-templates:'',
      ''    - objectDefinition:'',
      ''        apiVersion: policy.open-cluster-management.io/v1'',
      ''        kind: ConfigurationPolicy'',
      ''        metadata:'',
      ''          name: '' @ m_name (gc_meta g) @ ''-config-policy'',
      ''        spec:'',
      ''          pruneObjectBehavior: DeleteIfCreated'',
      ''          remediationAction: enforce'',
      ''          severity: low'',
      ''          object-templates-raw: |'',
      ''            {{ range $placedec := (lookup '' @ dq @ ''cluster.open-cluster-management.io/v1beta1'' @ dq @ '' '' @ dq @ ''PlacementDecision'' @ dq @ '' '' @ dq @ m_ns (gc_meta g) @ dq @ '' '' @ dq @ dq @ '' '' @ dq @ ''cluster.open-cluster-management.io/placement='' @ placement_name g @ dq @ '').items }}'',
      ''            {{ range $clustdec := $placedec.status.decisions }}'',
      ''            - complianceType: musthave'',
      ''              objectDefinition:'',
      ''                apiVersion: authentication.open-cluster-management.io/v1alpha1'',
      ''                kind: ManagedServiceAccount'',
      ''                metadata:'',
      ''                  name: '' @ gs_msa_ref (gc_spec g),
      ''                  namespace: {{ $clustdec.clusterName }}'',
      ''                spec:'',
      ''                  rotation: {}'',
      ''            - complianceType: musthave'',
      ''              objectDefinition:'',
      ''                apiVersion: rbac.open-cluster-management.io/v1alpha1'',
      ''                kind: ClusterPermission'',
      ''                metadata:'',
      ''                  name: '' @ m_name (gc_meta g) @ ''-cluster-permission'',
      ''                  namespace: {{ $clustdec.clusterName }}'',
      ''                spec: {}'',
      ''            {{ end }}'',
      ''            {{ end }}'']"

definition generateArgoCDPolicyPlacementBindingYaml :: "gitops_cluster \<Rightarrow> string" where
  "generateArgoCDPolicyPlacementBindingYaml g = raw_text
     [''apiVersion: policy.open-cluster-management.io/v1'',
      ''kind: PlacementBinding'',
      ''metadata:'',
      ''  name: '' @ m_name (gc_meta g) @ ''-argocd-policy-binding'',
      ''  namespace: '' @ m_ns (gc_meta g),
      ''placementRef:'',
      ''  name: '' @ placement_name g,
      ''  kind: Placement'',
      ''  apiGroup: cluster.open-cluster-management.io'',
      ''subjects:'',
      ''  - name: '' @ m_name (gc_meta g) @ ''-argocd-policy'',
      ''    kind: Policy'',
      ''    apiGroup: policy.open-cluster-management.io'']"

text \<open>The agent's settings with their defaults: server address, port and mode.\<close>

definition agent_settings :: "agent_spec \<Rightarrow> string \<times> string \<times> string" where
  "agent_settings a =
     (ag_server_address a, if ag_server_port a = [] then ''443'' else ag_server_port a,
      if ag_mode a = [] then ''managed'' else ag_mode a)"

definition generateArgoCDSpec :: "gitops_cluster \<Rightarrow> string" where
  "generateArgoCDSpec g =
     ''server:'' @ [CHR 0x0A] @ ''  enabled: false'' @
     (case agent_of g of
        None \<Rightarrow> []
      | Some a \<Rightarrow>
          if ag_enabled a \<noteq> Some True then []
          else (case agent_settings a of (addr, port, mode) \<Rightarrow>
            concat (map (\<lambda>l. CHR 0x0A # l)
     [''argoCDAgent:'',
      ''  agent:'',
      ''    enabled: true'',
      ''    allowedNamespaces:'',
      ''      - '' @ dq @ ''*'' @ dq,
      ''    client:'',
      ''      principalServerAddress: '' @ dq @ addr @ dq,
      ''      principalServerPort: '' @ dq @ port @ dq,
      ''      mode: '' @ dq @ mode @ dq,
      ''    destinationBasedMapping:'',
      ''      enabled: '' @ format_bool (mode \<noteq> ''autonomous''),
      ''    tls:'',
      ''      secretName: argocd-agent-client-tls'',
      ''      rootCASecretName: argocd-agent-ca''])))"

definition spokeNamespace :: string where "spokeNamespace = sq @ GitOpsNamespace @ sq"

definition generateArgoCDPolicyYaml :: "gitops_cluster \<Rightarrow> string" where
  "generateArgoCDPolicyYaml g =
     raw_text
     [''apiVersion: policy.open-cluster-management.io/v1'',
      ''kind: Policy'',
      ''metadata:'',
      ''  name: '' @ m_name (gc_meta g) @ ''-argocd-policy'',
      ''  namespace: '' @ m_ns (gc_meta g),
      ''  annotations:'',
      ''    policy.open-cluster-management.io/standards: NIST-CSF'',
      ''    policy.open-cluster-management.io/categories: PR.PT Protective Technology'',
      ''    policy.open-cluster-management.io/controls: PR.PT-3 Least Functionality'',
      ''spec:'',
      ''  remediationAction: enforce'',
      ''  disabled: false'',
      ''  policy-templates:'',
      ''    - objectDefinition:'',
      ''        apiVersion: policy.open-cluster-management.io/v1'',
      ''        kind: ConfigurationPolicy'',
      ''        metadata:'',
      ''          name: '' @ m_name (gc_meta g) @ ''-argocd-config-policy'',
      ''        spec:'',
      ''          pruneObjectBehavior: None'',
      ''          remediationAction: enforce'',
      ''          severity: medium'',
      ''          object-templates:'',
      ''            - complianceType: musthave'',
      ''              objectDefinition:'',
      ''                apiVersion: argoproj.io/v1beta1'',
      ''                kind: ArgoCD'',
      ''                metadata:'',
      ''                  name: acm-openshift-gitops'',
      ''                  namespace: '' @ spokeNamespace,
      ''                  labels:'',
      ''                    apps.open-cluster-management.io/gitopsaddon: '' @ dq @ ''true'' @ dq,
      ''                spec:''] @
     indentYaml (generateArgoCDSpec g) 18 @
     (if \<not> agentEnabled g \<or> (case agent_of g of None \<Rightarrow> [] | Some a \<Rightarrow> ag_mode a) = ''autonomous'' then raw_text
     [''            - complianceType: musthave'',
      ''              objectDefinition:'',
      ''                apiVersion: argoproj.io/v1alpha1'',
      ''                kind: AppProject'',
      ''                metadata:'',
      ''                  name: default'',
      ''                  namespace: '' @ spokeNamespace,
      ''                spec:'',
      ''                  clusterResourceWhitelist:'',
      ''                    - group: '' @ sq @ ''*'' @ sq,
      ''                      kind: '' @ sq @ ''*'' @ sq,
      ''                  destinations:'',
      ''                    - namespace: '' @ sq @ ''*'' @ sq,
      ''                      server: '' @ sq @ ''*'' @ sq,
      ''                  sourceRepos:'',
      ''                    - '' @ sq @ ''*'' @ sq]
      else [CHR 0x0A])"

section \<open>Creating resources from text\<close>

datatype dynamic_kind = DynPlacement | DynBinding | DynPolicy

text \<open>The resource: the lower-case kind with an s, but for policies.\<close>

definition api_resource :: "unstructured \<Rightarrow> string" where
  "api_resource obj =
     (let r = map ascii_lower (case jget_str (u_fields obj) ''kind'' of None \<Rightarrow> [] | Some k \<Rightarrow> k) @ ''s'' in
      if r = ''policys'' then ''policies'' else r)"

definition dynamic_kind :: "unstructured \<Rightarrow> dynamic_kind option" where
  "dynamic_kind obj =
     map_of [(''placements'', DynPlacement), (''placementbindings'', DynBinding), (''policies'', DynPolicy)] (api_resource obj)"

definition ukey :: "unstructured \<Rightarrow> nsname" where
  "ukey obj = (m_ns (u_meta obj), m_name (u_meta obj))"

fun dynamic_get :: "dynamic_kind \<Rightarrow> nsname \<Rightarrow> unstructured api" where
  "dynamic_get DynPlacement k = get_placement k"
| "dynamic_get DynBinding k = get_placementbinding k"
| "dynamic_get DynPolicy k = get_policy k"

fun dynamic_create :: "dynamic_kind \<Rightarrow> unstructured \<Rightarrow> unit api" where
  "dynamic_create DynPlacement obj = create_placement (ukey obj) obj"
| "dynamic_create DynBinding obj = create_placementbinding (ukey obj) obj"
| "dynamic_create DynPolicy obj = create_policy (ukey obj) obj"

fun dynamic_update :: "dynamic_kind \<Rightarrow> unstructured \<Rightarrow> unit api" where
  "dynamic_update DynPlacement obj = update_placement (ukey obj) obj"
| "dynamic_update DynBinding obj = update_placementbinding (ukey obj) obj"
| "dynamic_update DynPolicy obj = update_policy (ukey obj) obj"

definition no_dynamic_client :: "goerr \<Rightarrow> bool" where
  "no_dynamic_client e \<longleftrightarrow> str_contains (err_text e) ''dynamic client not available''"

definition createOrUpdateNamespaceScopedResourceFromYAML :: "(string \<Rightarrow> goerr + unstructured) \<Rightarrow> string \<Rightarrow> bool \<Rightarrow> unit api" where
  "createOrUpdateNamespaceScopedResourceFromYAML yaml text updateIfExists =
     (case yaml text of
        Inl e \<Rightarrow> State_Monad.return (Inl e)
      | Inr obj \<Rightarrow>
          (case dynamic_kind obj of
             None \<Rightarrow> State_Monad.return (Inl (ErrText ''the server could not find the requested resource''))
           | Some kd \<Rightarrow> do {
               x \<leftarrow> dynamic_get kd (ukey obj);
               case x of
                 Inr existing \<Rightarrow> (if updateIfExists then dynamic_update kd obj else State_Monad.return (Inr ()))
               | Inl e \<Rightarrow>
                   (if no_dynamic_client e then State_Monad.return (Inr ())
                    else if is_not_found e then dynamic_create kd obj
                    else State_Monad.return (Inl e))
             }))"

definition createNamespaceScopedResourceFromYAML :: "(string \<Rightarrow> goerr + unstructured) \<Rightarrow> string \<Rightarrow> unit api" where
  "createNamespaceScopedResourceFromYAML yaml text = createOrUpdateNamespaceScopedResourceFromYAML yaml text True"

definition createOnlyNamespaceScopedResourceFromYAML :: "(string \<Rightarrow> goerr + unstructured) \<Rightarrow> string \<Rightarrow> unit api" where
  "createOnlyNamespaceScopedResourceFromYAML yaml text = createOrUpdateNamespaceScopedResourceFromYAML yaml text False"

definition seq_api :: "unit api \<Rightarrow> unit api \<Rightarrow> unit api" where
  "seq_api m n = do {
     r \<leftarrow> m;
     case r of Inl e \<Rightarrow> State_Monad.return (Inl e) | Inr u \<Rightarrow> n
   }"

definition CreatePolicyTemplate :: "(string \<Rightarrow> goerr + unstructured) \<Rightarrow> gitops_cluster \<Rightarrow> unit api" where
  "CreatePolicyTemplate yaml g =
     (if gs_policy_template (gc_spec g) = Some True
         \<and> (case gs_placement (gc_spec g) of None \<Rightarrow> False | Some ref \<Rightarrow> pr_kind ref = ''Placement'')
         \<and> gs_msa_ref (gc_spec g) \<noteq> []
      then seq_api (createNamespaceScopedResourceFromYAML yaml (generatePlacementYamlString g))
             (seq_api (createNamespaceScopedResourceFromYAML yaml (generatePlacementBindingYamlString g))
               (createNamespaceScopedResourceFromYAML yaml (generatePolicyTemplateYamlString g)))
      else State_Monad.return (Inr ()))"

section \<open>The agent's settings in the policy\<close>

text \<open>Values are set in a tree; the flag says whether anything was.\<close>

definition put_field :: "string \<Rightarrow> json \<Rightarrow> jobj \<times> bool \<Rightarrow> jobj \<times> bool" where
  "put_field k v p = (if map_of (fst p) k = Some v then p else (mset_key k v (fst p), True))"

definition ensureNestedMap :: "jobj \<Rightarrow> string \<Rightarrow> jobj" where
  "ensureNestedMap parent key = (case map_of parent key of Some (JObj m) \<Rightarrow> m | _ \<Rightarrow> [])"

definition in_nested :: "string \<Rightarrow> (jobj \<times> bool \<Rightarrow> jobj \<times> bool) \<Rightarrow> jobj \<times> bool \<Rightarrow> jobj \<times> bool" where
  "in_nested k f p =
     (let r = f (ensureNestedMap (fst p) k, snd p) in (mset_key k (JObj (fst r)) (fst p), snd r))"

definition put_namespaces :: "jobj \<times> bool \<Rightarrow> jobj \<times> bool" where
  "put_namespaces p =
     (case map_of (fst p) ''allowedNamespaces'' of
        Some (JArr (JStr s # xs)) \<Rightarrow>
          if s = ''*'' then p else (mset_key ''allowedNamespaces'' (JArr [JStr ''*'']) (fst p), True)
      | _ \<Rightarrow> (mset_key ''allowedNamespaces'' (JArr [JStr ''*'']) (fst p), True))"

definition heal_client :: "string \<times> string \<times> string \<Rightarrow> jobj \<times> bool \<Rightarrow> jobj \<times> bool" where
  "heal_client cfg p =
     (case cfg of (addr, port, mode) \<Rightarrow>
       put_field ''mode'' (JStr mode) (put_field ''principalServerPort'' (JStr port)
         (put_field ''principalServerAddress'' (JStr addr) p)))"

definition heal_tls :: "jobj \<times> bool \<Rightarrow> jobj \<times> bool" where
  "heal_tls p =
     put_field ''rootCASecretName'' (JStr ''argocd-agent-ca'') (put_field ''secretName'' (JStr ''argocd-agent-client-tls'') p)"

definition heal_agent :: "string \<times> string \<times> string \<Rightarrow> jobj \<times> bool \<Rightarrow> jobj \<times> bool" where
  "heal_agent cfg p =
     in_nested ''tls'' heal_tls
       (in_nested ''destinationBasedMapping'' (put_field ''enabled'' (JBool (snd (snd cfg) \<noteq> ''autonomous'')))
         (in_nested ''client'' (heal_client cfg)
           (put_namespaces (put_field ''enabled'' (JBool True) p))))"

definition heal_object :: "string \<times> string \<times> string \<Rightarrow> jobj \<times> bool \<Rightarrow> jobj \<times> bool" where
  "heal_object cfg = in_nested ''spec'' (in_nested ''argoCDAgent'' (in_nested ''agent'' (heal_agent cfg)))"

definition addonManagedArgoCDName :: string where "addonManagedArgoCDName = ''acm-openshift-gitops''"

text \<open>Only the Argo CD object of the addon's name is reconciled.\<close>

definition is_addon_argocd :: "jobj \<Rightarrow> bool" where
  "is_addon_argocd d \<longleftrightarrow>
     map_of d ''kind'' = Some (JStr ''ArgoCD'') \<and>
     (case jget_obj d ''metadata'' of None \<Rightarrow> [] | Some m \<Rightarrow> (case jget_str m ''name'' of None \<Rightarrow> [] | Some n \<Rightarrow> n)) = addonManagedArgoCDName"

fun heal_template :: "string \<times> string \<times> string \<Rightarrow> json \<times> bool \<Rightarrow> json \<times> bool" where
  "heal_template cfg (JObj m, b) =
     (case jget_obj m ''objectDefinition'' of
        None \<Rightarrow> (JObj m, b)
      | Some d \<Rightarrow>
          if is_addon_argocd d then
            (let r = heal_object cfg (d, b) in (JObj (mset_key ''objectDefinition'' (JObj (fst r)) m), snd r))
          else (JObj m, b))"
| "heal_template cfg p = p"

fun heal_list :: "(json \<times> bool \<Rightarrow> json \<times> bool) \<Rightarrow> json list \<times> bool \<Rightarrow> json list \<times> bool" where
  "heal_list f ([], b) = ([], b)"
| "heal_list f (x # xs, b) =
     (let r = f (x, b); s = heal_list f (xs, snd r) in (fst r # fst s, snd s))"

fun heal_policy_template :: "string \<times> string \<times> string \<Rightarrow> json \<times> bool \<Rightarrow> json \<times> bool" where
  "heal_policy_template cfg (JObj pt, b) =
     (case jget_obj pt ''objectDefinition'' of
        None \<Rightarrow> (JObj pt, b)
      | Some d \<Rightarrow>
          (case jget_obj d ''spec'' of
             None \<Rightarrow> (JObj pt, b)
           | Some s \<Rightarrow>
               (case map_of s ''object-templates'' of
                  Some (JArr ts) \<Rightarrow>
                    (let r = heal_list (heal_template cfg) (ts, b) in
                     (JObj (mset_key ''objectDefinition'' (JObj (mset_key ''spec''
                        (JObj (mset_key ''object-templates'' (JArr (fst r)) s)) d)) pt), snd r))
                | _ \<Rightarrow> (JObj pt, b))))"
| "heal_policy_template cfg p = p"

definition heal_policy :: "string \<times> string \<times> string \<Rightarrow> string \<Rightarrow> jobj \<Rightarrow> goerr + jobj \<times> bool" where
  "heal_policy cfg policyName obj =
     (case jget_obj obj ''spec'' of
        None \<Rightarrow> Inl (ErrText (''policy '' @ policyName @ '' has no spec''))
      | Some spec \<Rightarrow>
          (case map_of spec ''policy-templates'' of
             Some (JArr (pt # pts)) \<Rightarrow>
               (let r = heal_list (heal_policy_template cfg) (pt # pts, False) in
                Inr (mset_key ''spec'' (JObj (mset_key ''policy-templates'' (JArr (fst r)) spec)) obj, snd r))
           | _ \<Rightarrow> Inl (ErrText (''policy '' @ policyName @ '' has no policy-templates''))))"

definition policy_key :: "gitops_cluster \<Rightarrow> nsname" where
  "policy_key g = (m_ns (gc_meta g), m_name (gc_meta g) @ ''-argocd-policy'')"

definition key_text :: "nsname \<Rightarrow> string" where "key_text k = fst k @ ''/'' @ snd k"

definition agentSpecAttempt :: "string \<times> string \<times> string \<Rightarrow> nsname \<Rightarrow> unit api" where
  "agentSpecAttempt cfg key = do {
     x \<leftarrow> get_policy key;
     case x of
       Inl e \<Rightarrow> State_Monad.return
         (if no_dynamic_client e \<or> is_not_found e then Inr ()
          else Inl (Wrapped (''failed to get ArgoCD Policy '' @ key_text key) e))
     | Inr existing \<Rightarrow>
         (case heal_policy cfg (snd key) (u_fields existing) of
            Inl e \<Rightarrow> State_Monad.return (Inl e)
          | Inr (fs, needsUpdate) \<Rightarrow>
              (if \<not> needsUpdate then State_Monad.return (Inr ())
               else do {
                 u \<leftarrow> update_policy key (existing\<lparr>u_fields := fs\<rparr>);
                 State_Monad.return (case u of
                   Inl e \<Rightarrow> Inl (Wrapped (''failed to update Policy '' @ key_text key) e) | Inr v \<Rightarrow> Inr ())
               }))
   }"

text \<open>\<open>retry.DefaultRetry\<close>: five attempts.\<close>

definition reconcileArgoCDPolicyAgentSpec :: "gitops_cluster \<Rightarrow> agent_spec \<Rightarrow> unit api" where
  "reconcileArgoCDPolicyAgentSpec g a = retry_on_conflict 4 (agentSpecAttempt (agent_settings a) (policy_key g))"

section \<open>The Argo CD policy\<close>

definition skipArgoCDPolicyAnnotation :: string where
  "skipArgoCDPolicyAnnotation = ''apps.open-cluster-management.io/skip-argocd-policy''"

definition ErrPolicyFrameworkNotAvailable :: goerr where
  "ErrPolicyFrameworkNotAvailable = ErrText ''governance-policy-framework is not installed: Policy CRD not found''"

definition ErrArgoCDPolicySkipped :: goerr where
  "ErrArgoCDPolicySkipped = ErrText ''ArgoCD Policy creation skipped: skip-argocd-policy annotation is set''"

definition isPolicyCRDAvailable :: "(world, bool) state" where
  "isPolicyCRDAvailable = do {
     l \<leftarrow> list_policies (\<lambda>_. True);
     State_Monad.return (case l of Inl e \<Rightarrow> False | Inr items \<Rightarrow> True)
   }"

definition CreateArgoCDPolicy :: "(string \<Rightarrow> goerr + unstructured) \<Rightarrow> gitops_cluster \<Rightarrow> unit api" where
  "CreateArgoCDPolicy yaml g =
     (if \<not> addonEnabled g then State_Monad.return (Inr ())
      else if gs_placement (gc_spec g) = None then State_Monad.return (Inr ())
      else if mget (m_annos (gc_meta g)) skipArgoCDPolicyAnnotation = ''true'' then State_Monad.return (Inl ErrArgoCDPolicySkipped)
      else do {
        available \<leftarrow> isPolicyCRDAvailable;
        if \<not> available then State_Monad.return (Inl ErrPolicyFrameworkNotAvailable)
        else seq_api (createOnlyNamespaceScopedResourceFromYAML yaml (generateArgoCDPolicyPlacementBindingYaml g))
               (seq_api (createOnlyNamespaceScopedResourceFromYAML yaml (generateArgoCDPolicyYaml g))
                 (case agent_of g of
                    None \<Rightarrow> State_Monad.return (Inr ())
                  | Some a \<Rightarrow>
                      if ag_enabled a \<noteq> Some True then State_Monad.return (Inr ())
                      else do {
                        r \<leftarrow> reconcileArgoCDPolicyAgentSpec g a;
                        State_Monad.return (case r of
                          Inl e \<Rightarrow> Inl (Wrapped (''failed to reconcile agent spec in ArgoCD Policy for '' @
                            m_ns (gc_meta g) @ ''/'' @ m_name (gc_meta g)) e)
                        | Inr u \<Rightarrow> Inr ())
                      }))
      })"

section \<open>Facts\<close>

lemma mset_same: "map_of m k = Some v \<Longrightarrow> mset_key k v m = m"
  by (induction m) auto

lemma put_field_simps [simp]:
  "map_of (fst (put_field k v p)) j = (if j = k then Some v else map_of (fst p) j)"
  "snd (put_field k v p) \<longleftrightarrow> snd p \<or> map_of (fst p) k \<noteq> Some v"
  by (auto simp: put_field_def)

lemma put_field_same: "map_of (fst p) k = Some v \<Longrightarrow> put_field k v p = p"
  by (simp add: put_field_def)

lemma in_nested_simps [simp]:
  "map_of (fst (in_nested k f p)) j = (if j = k then Some (JObj (fst (f (ensureNestedMap (fst p) k, snd p)))) else map_of (fst p) j)"
  "snd (in_nested k f p) = snd (f (ensureNestedMap (fst p) k, snd p))"
  by (simp_all add: in_nested_def Let_def)

lemma ensureNestedMap_in_nested [simp]:
  "ensureNestedMap (fst (in_nested k f p)) j = (if j = k then fst (f (ensureNestedMap (fst p) k, snd p)) else ensureNestedMap (fst p) j)"
  by (simp add: ensureNestedMap_def)

lemma ensureNestedMap_put_field [simp]: "j \<noteq> k \<Longrightarrow> ensureNestedMap (fst (put_field k v p)) j = ensureNestedMap (fst p) j"
  by (simp add: ensureNestedMap_def)

lemma put_namespaces_simps [simp]:
  "j \<noteq> ''allowedNamespaces'' \<Longrightarrow> map_of (fst (put_namespaces p)) j = map_of (fst p) j"
  "\<exists>xs. map_of (fst (put_namespaces p)) ''allowedNamespaces'' = Some (JArr (JStr ''*'' # xs))"
  "snd (put_namespaces p) \<longleftrightarrow> snd p \<or> (\<nexists>xs. map_of (fst p) ''allowedNamespaces'' = Some (JArr (JStr ''*'' # xs)))"
  by (auto simp: put_namespaces_def split: option.splits json.splits list.splits)

lemma ensureNestedMap_put_namespaces [simp]:
  "j \<noteq> ''allowedNamespaces'' \<Longrightarrow> ensureNestedMap (fst (put_namespaces p)) j = ensureNestedMap (fst p) j"
  by (simp add: ensureNestedMap_def)

text \<open>The settings an agent must have, and the ones the code never touches.\<close>

definition wanted_agent :: "string \<times> string \<times> string \<Rightarrow> jobj \<Rightarrow> bool" where
  "wanted_agent cfg a \<longleftrightarrow>
     map_of a ''enabled'' = Some (JBool True)
     \<and> (\<exists>xs. map_of a ''allowedNamespaces'' = Some (JArr (JStr ''*'' # xs)))
     \<and> (\<exists>c. map_of a ''client'' = Some (JObj c) \<and> map_of c ''principalServerAddress'' = Some (JStr (fst cfg))
          \<and> map_of c ''principalServerPort'' = Some (JStr (fst (snd cfg))) \<and> map_of c ''mode'' = Some (JStr (snd (snd cfg))))
     \<and> (\<exists>d. map_of a ''destinationBasedMapping'' = Some (JObj d)
          \<and> map_of d ''enabled'' = Some (JBool (snd (snd cfg) \<noteq> ''autonomous'')))
     \<and> (\<exists>s. map_of a ''tls'' = Some (JObj s) \<and> map_of s ''secretName'' = Some (JStr ''argocd-agent-client-tls'')
          \<and> map_of s ''rootCASecretName'' = Some (JStr ''argocd-agent-ca''))"

definition agent_keys :: "string set" where
  "agent_keys = {''enabled'', ''allowedNamespaces'', ''client'', ''destinationBasedMapping'', ''tls''}"

lemma heal_agent_wanted: "wanted_agent cfg (fst (heal_agent cfg p))"
  by (cases cfg) (simp add: wanted_agent_def heal_agent_def heal_client_def heal_tls_def)

lemma heal_agent_frame: "k \<notin> agent_keys \<Longrightarrow> map_of (fst (heal_agent cfg p)) k = map_of (fst p) k"
  by (simp add: heal_agent_def agent_keys_def)

lemma in_nested_same: "map_of (fst p) k = Some (JObj m) \<Longrightarrow> f (m, snd p) = (m, snd p) \<Longrightarrow> in_nested k f p = p"
  by (cases p) (simp add: in_nested_def Let_def ensureNestedMap_def mset_same)

lemma put_namespaces_same: "map_of (fst p) ''allowedNamespaces'' = Some (JArr (JStr ''*'' # xs)) \<Longrightarrow> put_namespaces p = p"
  by (simp add: put_namespaces_def)

lemma heal_agent_same:
  assumes "wanted_agent cfg (fst p)" shows "heal_agent cfg p = p"
proof -
  from assms obtain xs c d s where a: "map_of (fst p) ''enabled'' = Some (JBool True)"
    "map_of (fst p) ''allowedNamespaces'' = Some (JArr (JStr ''*'' # xs))"
    and c: "map_of (fst p) ''client'' = Some (JObj c)" "map_of c ''principalServerAddress'' = Some (JStr (fst cfg))"
      "map_of c ''principalServerPort'' = Some (JStr (fst (snd cfg)))" "map_of c ''mode'' = Some (JStr (snd (snd cfg)))"
    and d: "map_of (fst p) ''destinationBasedMapping'' = Some (JObj d)" "map_of d ''enabled'' = Some (JBool (snd (snd cfg) \<noteq> ''autonomous''))"
    and s: "map_of (fst p) ''tls'' = Some (JObj s)" "map_of s ''secretName'' = Some (JStr ''argocd-agent-client-tls'')"
      "map_of s ''rootCASecretName'' = Some (JStr ''argocd-agent-ca'')"
    unfolding wanted_agent_def by blast
  have "heal_client cfg (c, snd p) = (c, snd p)" using c by (cases cfg) (simp add: heal_client_def put_field_same)
  moreover have "heal_tls (s, snd p) = (s, snd p)" using s by (simp add: heal_tls_def put_field_same)
  ultimately show ?thesis
    using a c(1) d s(1) by (simp add: heal_agent_def put_field_same put_namespaces_same in_nested_same)
qed

lemma heal_agent_flag: "snd (heal_agent cfg p) \<longleftrightarrow> snd p \<or> \<not> wanted_agent cfg (fst p)"
proof (cases "wanted_agent cfg (fst p)")
  case True
  then show ?thesis by (simp add: heal_agent_same)
next
  case False
  have "snd (heal_agent cfg p)"
  proof (rule ccontr)
    assume "\<not> snd (heal_agent cfg p)"
    then have "wanted_agent cfg (fst p)"
      by (cases cfg) (auto simp: heal_agent_def heal_client_def heal_tls_def wanted_agent_def ensureNestedMap_def
          split: option.splits json.splits)
    with False show False ..
  qed
  with False show ?thesis by simp
qed

text \<open>
  Healing at every level of the policy: a step repairs what is bad, says so in its flag, and leaves what is
  good as it is. A step on elements gives one on lists.
\<close>

locale healing =
  fixes f :: "'a \<times> bool \<Rightarrow> 'a \<times> bool" and bad :: "'a \<Rightarrow> bool" and R :: "'a \<Rightarrow> 'a \<Rightarrow> bool"
  assumes flag: "snd (f (x, b)) \<longleftrightarrow> b \<or> bad x"
    and same: "\<not> bad x \<Longrightarrow> f (x, b) = (x, b)"
    and repaired: "R x (fst (f (x, b)))"
    and good: "R x y \<Longrightarrow> \<not> bad y"
begin

lemma again: "f (fst (f (x, b)), c) = (fst (f (x, b)), c)"
  by (rule same) (rule good [OF repaired])

end

locale json_healing = healing f bad R for f :: "json \<times> bool \<Rightarrow> json \<times> bool" and bad R
begin

lemma list_flag: "snd (heal_list f (xs, b)) \<longleftrightarrow> b \<or> list_ex bad xs"
  by (induction xs arbitrary: b) (auto simp: Let_def flag)

lemma list_same: "\<not> list_ex bad xs \<Longrightarrow> heal_list f (xs, b) = (xs, b)"
  by (induction xs arbitrary: b) (simp_all add: Let_def same)

lemma list_repaired: "list_all2 R xs (fst (heal_list f (xs, b)))"
  by (induction xs arbitrary: b) (simp_all add: Let_def repaired)

lemma list_good: "list_all2 R xs ys \<Longrightarrow> \<not> list_ex bad ys"
  by (induction rule: list_all2_induct) (simp_all add: good)

lemma lists: "healing (heal_list f) (list_ex bad) (list_all2 R)"
  by unfold_locales (simp_all only: list_flag list_same list_repaired list_good, simp_all add: list_same list_good)

end

section \<open>Templates\<close>

definition path_agent :: "jobj \<Rightarrow> jobj" where
  "path_agent d = ensureNestedMap (ensureNestedMap (ensureNestedMap d ''spec'') ''argoCDAgent'') ''agent''"

text \<open>The agent settings of a template for the addon's Argo CD object.\<close>

fun template_agent :: "json \<Rightarrow> jobj option" where
  "template_agent (JObj m) =
     (case jget_obj m ''objectDefinition'' of
        None \<Rightarrow> None | Some d \<Rightarrow> if is_addon_argocd d then Some (path_agent d) else None)"
| "template_agent j = None"

definition unwanted_template :: "string \<times> string \<times> string \<Rightarrow> json \<Rightarrow> bool" where
  "unwanted_template cfg t \<longleftrightarrow> (\<exists>a. template_agent t = Some a \<and> \<not> wanted_agent cfg a)"

text \<open>Other templates stay as they are; of the agent's settings only the known keys change.\<close>

definition healed_template :: "string \<times> string \<times> string \<Rightarrow> json \<Rightarrow> json \<Rightarrow> bool" where
  "healed_template cfg t u \<longleftrightarrow>
     (case template_agent t of
        None \<Rightarrow> u = t
      | Some a \<Rightarrow> \<exists>a'. template_agent u = Some a' \<and> wanted_agent cfg a' \<and> (\<forall>k. k \<notin> agent_keys \<longrightarrow> map_of a' k = map_of a k))"

lemma path_agent_heal: "path_agent (fst (heal_object cfg p)) = fst (heal_agent cfg (path_agent (fst p), snd p))"
  by (simp add: heal_object_def path_agent_def)

lemma wanted_nonempty: "wanted_agent cfg a \<Longrightarrow> a \<noteq> []"
  by (auto simp: wanted_agent_def)

lemma ensureNestedMap_some: "ensureNestedMap a k \<noteq> [] \<Longrightarrow> map_of a k = Some (JObj (ensureNestedMap a k))"
  by (auto simp: ensureNestedMap_def split: option.splits json.splits)

lemma ensureNestedMap_nil [simp]: "ensureNestedMap [] k = []"
  by (simp add: ensureNestedMap_def)

lemma heal_object_same:
  assumes "wanted_agent cfg (path_agent (fst p))" shows "heal_object cfg p = p"
proof -
  let ?s = "ensureNestedMap (fst p) ''spec''" and ?a = "ensureNestedMap (ensureNestedMap (fst p) ''spec'') ''argoCDAgent''"
  have n: "path_agent (fst p) \<noteq> []" using wanted_nonempty [OF assms] .
  then have "?a \<noteq> []" by (auto simp: path_agent_def)
  then have "?s \<noteq> []" by auto
  note m = ensureNestedMap_some [OF this] ensureNestedMap_some [OF \<open>?a \<noteq> []\<close>] ensureNestedMap_some [OF n [unfolded path_agent_def]]
  have "heal_agent cfg (path_agent (fst p), snd p) = (path_agent (fst p), snd p)" using assms by (simp add: heal_agent_same)
  then have "in_nested ''agent'' (heal_agent cfg) (?a, snd p) = (?a, snd p)"
    using m(3) by - (rule in_nested_same [where m = "path_agent (fst p)"], simp_all add: path_agent_def)
  then have "in_nested ''argoCDAgent'' (in_nested ''agent'' (heal_agent cfg)) (?s, snd p) = (?s, snd p)"
    using m(2) by - (rule in_nested_same [where m = ?a], simp_all)
  then show ?thesis unfolding heal_object_def using m(1) by - (rule in_nested_same [where m = ?s], simp_all)
qed

lemma heal_object_flag: "snd (heal_object cfg p) \<longleftrightarrow> snd p \<or> \<not> wanted_agent cfg (path_agent (fst p))"
  by (simp add: heal_object_def path_agent_def heal_agent_flag)

lemma heal_object_addon: "is_addon_argocd (fst (heal_object cfg p)) = is_addon_argocd (fst p)"
  by (simp add: is_addon_argocd_def heal_object_def jget_obj_def)

lemma template_heals: "json_healing (heal_template cfg) (unwanted_template cfg) (healed_template cfg)"
proof unfold_locales
  fix t u :: json and b
  show "snd (heal_template cfg (t, b)) \<longleftrightarrow> b \<or> unwanted_template cfg t"
    by (cases t) (auto simp: unwanted_template_def heal_object_flag Let_def split: option.splits)
  show "heal_template cfg (t, b) = (t, b)" if "\<not> unwanted_template cfg t"
    using that by (cases t) (auto simp: unwanted_template_def heal_object_same Let_def jget_obj_def mset_same split: option.splits json.splits)
  show "healed_template cfg t (fst (heal_template cfg (t, b)))"
  proof (cases "template_agent t")
    case None
    then show ?thesis by (cases t) (auto simp: healed_template_def split: option.splits if_splits)
  next
    case (Some a)
    then obtain m d where t: "t = JObj m" "jget_obj m ''objectDefinition'' = Some d" "is_addon_argocd d" "a = path_agent d"
      by (cases t) (auto split: option.splits if_splits)
    have "jget_obj (mset_key ''objectDefinition'' (JObj x) m) ''objectDefinition'' = Some x" for x by (simp add: jget_obj_def)
    with t Some show ?thesis
      using heal_object_addon [of cfg "(d, b)"] path_agent_heal [of cfg "(d, b)"] heal_agent_wanted [of cfg "(path_agent d, b)"]
        heal_agent_frame [of _ cfg "(path_agent d, b)"]
      by (simp add: healed_template_def Let_def)
  qed
  show "\<not> unwanted_template cfg u" if "healed_template cfg t u"
    using that by (auto simp: unwanted_template_def healed_template_def split: option.splits)
qed

interpretation templates_heal: json_healing "heal_template cfg" "unwanted_template cfg" "healed_template cfg" for cfg
  by (rule template_heals)

interpretation template_lists: healing "heal_list (heal_template cfg)" "list_ex (unwanted_template cfg)" "list_all2 (healed_template cfg)" for cfg
  by (rule templates_heal.lists)

section \<open>The whole policy\<close>

fun object_templates :: "json \<Rightarrow> json list" where
  "object_templates (JObj pt) =
     (case jget_obj pt ''objectDefinition'' of
        None \<Rightarrow> []
      | Some d \<Rightarrow>
          (case jget_obj d ''spec'' of
             None \<Rightarrow> []
           | Some s \<Rightarrow> (case map_of s ''object-templates'' of Some (JArr ts) \<Rightarrow> ts | _ \<Rightarrow> [])))"
| "object_templates j = []"

definition healed_policy_template :: "string \<times> string \<times> string \<Rightarrow> json \<Rightarrow> json \<Rightarrow> bool" where
  "healed_policy_template cfg pt pu \<longleftrightarrow> list_all2 (healed_template cfg) (object_templates pt) (object_templates pu)"

lemma policy_template_heals:
  "json_healing (heal_policy_template cfg) (\<lambda>pt. list_ex (unwanted_template cfg) (object_templates pt)) (healed_policy_template cfg)"
proof unfold_locales
  fix pt pu :: json and b
  show "snd (heal_policy_template cfg (pt, b)) \<longleftrightarrow> b \<or> list_ex (unwanted_template cfg) (object_templates pt)"
    by (cases pt) (auto simp: Let_def template_lists.flag split: option.splits json.splits)
  show "heal_policy_template cfg (pt, b) = (pt, b)" if "\<not> list_ex (unwanted_template cfg) (object_templates pt)"
    using that by (cases pt) (auto simp: Let_def template_lists.same jget_obj_def mset_same split: option.splits json.splits)
  show "healed_policy_template cfg pt (fst (heal_policy_template cfg (pt, b)))"
    by (cases pt) (auto simp: healed_policy_template_def Let_def template_lists.repaired jget_obj_def split: option.splits json.splits)
  show "\<not> list_ex (unwanted_template cfg) (object_templates pu)" if "healed_policy_template cfg pt pu"
    using that template_lists.good unfolding healed_policy_template_def by blast
qed

interpretation policy_templates_heal: json_healing "heal_policy_template cfg"
    "\<lambda>pt. list_ex (unwanted_template cfg) (object_templates pt)" "healed_policy_template cfg" for cfg
  by (rule policy_template_heals)

definition policy_templates :: "jobj \<Rightarrow> json list" where
  "policy_templates obj =
     (case jget_obj obj ''spec'' of
        None \<Rightarrow> []
      | Some s \<Rightarrow> (case map_of s ''policy-templates'' of Some (JArr pts) \<Rightarrow> pts | _ \<Rightarrow> []))"

definition all_templates :: "jobj \<Rightarrow> json list" where
  "all_templates obj = concat (map object_templates (policy_templates obj))"

lemma list_ex_concat: "list_ex (\<lambda>x. list_ex P (f x)) xs \<longleftrightarrow> list_ex P (concat (map f xs))"
  by (induction xs) auto

lemma list_all2_concat: "list_all2 (\<lambda>x y. list_all2 R (f x) (f y)) xs ys \<Longrightarrow> list_all2 R (concat (map f xs)) (concat (map f ys))"
  by (induction rule: list_all2_induct) (auto intro: list_all2_appendI)

lemma heal_policy_ok: "(\<exists>r. heal_policy cfg nm obj = Inr r) \<longleftrightarrow> policy_templates obj \<noteq> []"
  by (auto simp: heal_policy_def policy_templates_def Let_def split: option.splits json.splits list.splits)

lemma heal_policy_result:
  assumes "heal_policy cfg nm obj = Inr (fs, b)"
  shows "b \<longleftrightarrow> list_ex (unwanted_template cfg) (all_templates obj)"
    "\<not> b \<Longrightarrow> fs = obj"
    "list_all2 (healed_template cfg) (all_templates obj) (all_templates fs)"
    "k \<noteq> ''spec'' \<Longrightarrow> map_of fs k = map_of obj k"
    "heal_policy cfg nm fs = Inr (fs, False)"
proof -
  from assms obtain spec pts where s: "jget_obj obj ''spec'' = Some spec" "map_of spec ''policy-templates'' = Some (JArr pts)" "pts \<noteq> []"
    by (auto simp: heal_policy_def split: option.splits json.splits list.splits)
  define r where "r = heal_list (heal_policy_template cfg) (pts, False)"
  have f: "fs = mset_key ''spec'' (JObj (mset_key ''policy-templates'' (JArr (fst r)) spec)) obj" "b = snd r"
    using assms s by (auto simp: heal_policy_def r_def Let_def neq_Nil_conv)
  have pt: "policy_templates obj = pts" "policy_templates fs = fst r"
    using s by (simp_all add: policy_templates_def f(1) jget_obj_def)
  show b: "b \<longleftrightarrow> list_ex (unwanted_template cfg) (all_templates obj)"
    unfolding f(2) r_def policy_templates_heal.list_flag all_templates_def pt by (simp add: list_ex_concat)
  show "fs = obj" if "\<not> b"
  proof -
    have "r = (pts, False)"
      using that policy_templates_heal.list_same [of cfg pts False] policy_templates_heal.list_flag [of cfg pts False] unfolding f(2) r_def by blast
    then show ?thesis using s by (simp add: f(1) mset_same jget_obj_def split: option.splits json.splits)
  qed
  have R: "list_all2 (healed_policy_template cfg) pts (fst r)" unfolding r_def by (rule policy_templates_heal.list_repaired)
  then show "list_all2 (healed_template cfg) (all_templates obj) (all_templates fs)"
    unfolding all_templates_def pt healed_policy_template_def by (rule list_all2_concat)
  show "map_of fs k = map_of obj k" if "k \<noteq> ''spec''" using that by (simp add: f(1))
  have "heal_list (heal_policy_template cfg) (fst r, False) = (fst r, False)"
    by (rule policy_templates_heal.list_same) (rule policy_templates_heal.list_good [OF R])
  moreover have "fst r \<noteq> []" using R s(3) by auto
  moreover have "jget_obj fs ''spec'' = Some (mset_key ''policy-templates'' (JArr (fst r)) spec)" by (simp add: f(1) jget_obj_def)
  moreover have "mset_key ''spec'' (JObj (mset_key ''policy-templates'' (JArr (fst r)) spec)) fs = fs"
    by (rule mset_same) (simp add: f(1))
  ultimately show "heal_policy cfg nm fs = Inr (fs, False)"
    by (auto simp: heal_policy_def Let_def neq_Nil_conv mset_same)
qed

text \<open>What an attempt may have done to the policy: nothing, or healed it.\<close>

definition agent_policy_step :: "string \<times> string \<times> string \<Rightarrow> string \<Rightarrow> unstructured option \<Rightarrow> unstructured option \<Rightarrow> bool" where
  "agent_policy_step cfg nm x y \<longleftrightarrow>
     y = x \<or> (\<exists>p fs. x = Some p \<and> heal_policy cfg nm (u_fields p) = Inr (fs, True) \<and> y = Some (p\<lparr>u_fields := fs\<rparr>))"

lemma attempt_step:
  assumes "agent_policy_step cfg (snd key) x (map_of (w_policies s) key)" and "run_state (agentSpecAttempt cfg key) s = (r, t)"
  shows "agent_policy_step cfg (snd key) x (map_of (w_policies t) key)"
proof -
  have n: "map_of (w_policies t) key = map_of (w_policies s) key \<or>
      (\<exists>p fs. map_of (w_policies s) key = Some p \<and> heal_policy cfg (snd key) (u_fields p) = Inr (fs, True)
        \<and> map_of (w_policies t) key = Some (p\<lparr>u_fields := fs\<rparr>))"
    using assms(2) by (auto simp: agentSpecAttempt_def run_simps split: option.splits sum.splits prod.splits if_splits)
  show ?thesis
  proof (cases "map_of (w_policies s) key = x")
    case True
    with n show ?thesis unfolding agent_policy_step_def by blast
  next
    case False
    with assms(1) obtain p fs where p: "x = Some p" "heal_policy cfg (snd key) (u_fields p) = Inr (fs, True)"
      "map_of (w_policies s) key = Some (p\<lparr>u_fields := fs\<rparr>)" unfolding agent_policy_step_def by blast
    then have "map_of (w_policies t) key = map_of (w_policies s) key"
      using n heal_policy_result(5) [OF p(2)] by auto
    with p show ?thesis unfolding agent_policy_step_def by auto
  qed
qed

lemma attempt_touches: "state_io_rel (policies.touches {key}) (agentSpecAttempt cfg key)"
  unfolding agentSpecAttempt_def by (intro policies.touching.frame_rules policies.get_touches policies.update_touches) simp_all

lemma retry_touches: "state_io_rel (policies.touches {key}) (retry_on_conflict n (agentSpecAttempt cfg key))"
  by (induction n) (auto intro!: policies.touching.frame_rules attempt_touches)

lemma agent_spec_run:
  assumes "calm w" and "map_of (w_policies w) (policy_key g) = Some p"
    and "heal_policy (agent_settings a) (snd (policy_key g)) (u_fields p) = Inr (fs, b)"
  shows "\<exists>t. run_state (reconcileArgoCDPolicyAgentSpec g a) w = (Inr (), t) \<and> calm t
    \<and> map_of (w_policies t) (policy_key g) = Some (p\<lparr>u_fields := fs\<rparr>) \<and> (\<not> b \<longrightarrow> quiet w t)"
proof (cases b)
  case True
  have "run_state (agentSpecAttempt (agent_settings a) (policy_key g)) w
      = (Inr (), w_policies_update (mset_key (policy_key g) (p\<lparr>u_fields := fs\<rparr>)) (consume (consume w)))"
    using assms True by (simp add: agentSpecAttempt_def run_simps has_key_def)
  from retry_ok [OF this] True assms(1) show ?thesis by (simp add: reconcileArgoCDPolicyAgentSpec_def)
next
  case False
  have "run_state (agentSpecAttempt (agent_settings a) (policy_key g)) w = (Inr (), consume w)"
    using assms False by (simp add: agentSpecAttempt_def run_simps)
  from retry_ok [OF this] False assms heal_policy_result(2) [OF assms(3)] show ?thesis
    by (simp add: reconcileArgoCDPolicyAgentSpec_def quiet_consume)
qed


section \<open>Ownership of the Argo CD policy\<close>

definition binding_key :: "gitops_cluster \<Rightarrow> nsname" where
  "binding_key g = (m_ns (gc_meta g), m_name (gc_meta g) @ ''-argocd-policy-binding'')"

text \<open>What the parser has to make of the two manifests: an object of the kind, name and namespace printed.\<close>

definition yaml_reads :: "(string \<Rightarrow> goerr + unstructured) \<Rightarrow> gitops_cluster \<Rightarrow> bool" where
  "yaml_reads yaml g \<longleftrightarrow>
     (\<exists>b. yaml (generateArgoCDPolicyPlacementBindingYaml g) = Inr b \<and> dynamic_kind b = Some DynBinding \<and> ukey b = binding_key g) \<and>
     (\<exists>p. yaml (generateArgoCDPolicyYaml g) = Inr p \<and> dynamic_kind p = Some DynPolicy \<and> ukey p = policy_key g)"

text \<open>A policy that exists is the user's: it is kept, or its agent's settings are reconciled if there is an agent.\<close>

definition owned :: "gitops_cluster \<Rightarrow> unstructured option \<Rightarrow> unstructured option \<Rightarrow> bool" where
  "owned g x y \<longleftrightarrow>
     x = None \<or> y = x \<or>
     (\<exists>a. agent_of g = Some a \<and> ag_enabled a = Some True \<and> agent_policy_step (agent_settings a) (snd (policy_key g)) x y)"

definition policy_inv :: "gitops_cluster \<Rightarrow> world \<Rightarrow> world \<Rightarrow> bool" where
  "policy_inv g w s \<longleftrightarrow>
     (\<forall>k. k \<noteq> binding_key g \<or> map_of (w_placementbindings w) k \<noteq> None \<longrightarrow> map_of (w_placementbindings s) k = map_of (w_placementbindings w) k) \<and>
     (\<forall>k. k \<noteq> policy_key g \<longrightarrow> map_of (w_policies s) k = map_of (w_policies w) k) \<and>
     owned g (map_of (w_policies w) (policy_key g)) (map_of (w_policies s) (policy_key g))"

abbreviation keeps_policy_inv where
  "keeps_policy_inv g w \<equiv> state_io_rel (\<lambda>s t. policy_inv g w s \<longrightarrow> policy_inv g w t)"

lemma policy_inv_quiet:
  assumes "quiet s t" and "policy_inv g w s" shows "policy_inv g w t"
  using assms(2) unfolding policy_inv_def quiet_sel(27) [OF assms(1)] quiet_sel(28) [OF assms(1)] .

lemma policy_inv_bindings:
  assumes "policy_inv g w s" and "map_of (w_placementbindings s) (binding_key g) = None"
  shows "policy_inv g w (w_placementbindings_update (mset_key (binding_key g) b) (consume s))"
proof -
  have "map_of (w_placementbindings w) (binding_key g) = None"
    using assms unfolding policy_inv_def by metis
  with assms(1) show ?thesis unfolding policy_inv_def by auto
qed

lemma policy_inv_created:
  assumes "policy_inv g w s" and "map_of (w_policies s) (policy_key g) = None"
  shows "policy_inv g w (w_policies_update (mset_key (policy_key g) p) (consume s))"
proof -
  have "map_of (w_policies w) (policy_key g) = None"
    using assms unfolding policy_inv_def owned_def agent_policy_step_def by auto
  then have "owned g (map_of (w_policies w) (policy_key g)) y" for y by (simp add: owned_def)
  with assms(1) show ?thesis unfolding policy_inv_def by simp
qed

lemma create_only_inv:
  assumes "yaml text = Inr obj"
    and "dynamic_kind obj = Some DynBinding \<and> ukey obj = binding_key g \<or> dynamic_kind obj = Some DynPolicy \<and> ukey obj = policy_key g"
  shows "keeps_policy_inv g w (createOnlyNamespaceScopedResourceFromYAML yaml text)"
proof (rule state_io_relI, rule impI)
  fix r s t
  assume run: "run_state (createOnlyNamespaceScopedResourceFromYAML yaml text) s = (r, t)" and I: "policy_inv g w s"
  have q: "policy_inv g w (consume s)" "policy_inv g w (consume (consume s))"
    using policy_inv_quiet [OF quiet_consume] I by blast+
  show "policy_inv g w t"
  proof (cases "dynamic_kind obj = Some DynBinding")
    case True
    with assms(2) have k: "ukey obj = binding_key g" by simp
    have "t \<in> {consume s, consume (consume s)} \<or> map_of (w_placementbindings s) (binding_key g) = None
        \<and> t = w_placementbindings_update (mset_key (binding_key g) obj) (consume (consume s))"
      using run True k
      by (auto simp: createOnlyNamespaceScopedResourceFromYAML_def createOrUpdateNamespaceScopedResourceFromYAML_def assms(1) run_simps
          has_key_def split: option.splits if_splits)
    then show ?thesis using q policy_inv_bindings [OF q(1), of obj] by auto
  next
    case False
    with assms(2) have k: "dynamic_kind obj = Some DynPolicy" "ukey obj = policy_key g" by simp_all
    have "t \<in> {consume s, consume (consume s)} \<or> map_of (w_policies s) (policy_key g) = None
        \<and> t = w_policies_update (mset_key (policy_key g) obj) (consume (consume s))"
      using run k
      by (auto simp: createOnlyNamespaceScopedResourceFromYAML_def createOrUpdateNamespaceScopedResourceFromYAML_def assms(1) run_simps
          has_key_def split: option.splits if_splits)
    then show ?thesis using q policy_inv_created [OF q(1), of obj] by auto
  qed
qed

lemma agent_spec_inv:
  assumes "agent_of g = Some a" and "ag_enabled a = Some True"
  shows "keeps_policy_inv g w (reconcileArgoCDPolicyAgentSpec g a)"
  unfolding reconcileArgoCDPolicyAgentSpec_def
proof (intro retry_inv state_io_relI impI)
  fix r s t
  assume run: "run_state (agentSpecAttempt (agent_settings a) (policy_key g)) s = (r, t)" and I: "policy_inv g w s"
  have t: "policies.touches {policy_key g} s t" by (rule state_io_relD [OF attempt_touches run])
  have b: "w_placementbindings t = w_placementbindings s" using t by (auto simp: policies.touches_def)
  have p: "map_of (w_policies t) k = map_of (w_policies s) k" if "k \<noteq> policy_key g" for k
    using changes_onlyD [OF policies.touches_only [OF t]] that by blast
  have "owned g (map_of (w_policies w) (policy_key g)) (map_of (w_policies t) (policy_key g))"
  proof (cases "map_of (w_policies w) (policy_key g) = None")
    case False
    then have "agent_policy_step (agent_settings a) (snd (policy_key g)) (map_of (w_policies w) (policy_key g)) (map_of (w_policies s) (policy_key g))"
      using I assms unfolding policy_inv_def owned_def agent_policy_step_def by auto
    from attempt_step [OF this run] assms show ?thesis unfolding owned_def by blast
  qed (simp add: owned_def)
  with I b p show "policy_inv g w t" unfolding policy_inv_def by simp
qed

lemma crd_quiet: "state_io_rel quiet isPolicyCRDAvailable"
  unfolding isPolicyCRDAvailable_def by (intro quiet.frame_rules list_quiet)

lemma quiet_policy_inv: "state_io_rel quiet m \<Longrightarrow> keeps_policy_inv g w m"
  unfolding state_io_rel_def using policy_inv_quiet by blast

lemma argocd_policy_inv:
  assumes "yaml_reads yaml g" shows "keeps_policy_inv g w (CreateArgoCDPolicy yaml g)"
proof -
  have "keeps_policy_inv g w (createOnlyNamespaceScopedResourceFromYAML yaml (generateArgoCDPolicyPlacementBindingYaml g))"
    "keeps_policy_inv g w (createOnlyNamespaceScopedResourceFromYAML yaml (generateArgoCDPolicyYaml g))"
    using assms create_only_inv unfolding yaml_reads_def by blast+
  then show ?thesis
    unfolding CreateArgoCDPolicy_def seq_api_def
    by (intro inv_frame.frame_rules quiet_policy_inv [OF crd_quiet] agent_spec_inv) auto
qed

text \<open>Creating when nothing is rejected.\<close>

definition plain_names :: "gitops_cluster \<Rightarrow> bool" where
  "plain_names g \<longleftrightarrow>
     \<not> no_dynamic_client (not_found ''placementbindings'' (binding_key g)) \<and> \<not> no_dynamic_client (not_found ''policies'' (policy_key g))"

lemma create_binding_run:
  assumes "calm s" and "yaml text = Inr obj" and "dynamic_kind obj = Some DynBinding" and "ukey obj = binding_key g" and "plain_names g"
  shows "\<exists>t. run_state (createOnlyNamespaceScopedResourceFromYAML yaml text) s = (Inr (), t) \<and> calm t
    \<and> map_of (w_placementbindings t) (binding_key g) =
        Some (case map_of (w_placementbindings s) (binding_key g) of None \<Rightarrow> obj | Some b \<Rightarrow> b)
    \<and> w_policies t = w_policies s"
  using assms unfolding plain_names_def
  by (cases "map_of (w_placementbindings s) (binding_key g)")
     (auto simp: createOnlyNamespaceScopedResourceFromYAML_def createOrUpdateNamespaceScopedResourceFromYAML_def run_simps has_key_def)

lemma create_policy_run:
  assumes "calm s" and "yaml text = Inr obj" and "dynamic_kind obj = Some DynPolicy" and "ukey obj = policy_key g" and "plain_names g"
  shows "\<exists>t. run_state (createOnlyNamespaceScopedResourceFromYAML yaml text) s = (Inr (), t) \<and> calm t
    \<and> map_of (w_policies t) (policy_key g) = Some (case map_of (w_policies s) (policy_key g) of None \<Rightarrow> obj | Some p \<Rightarrow> p)
    \<and> w_placementbindings t = w_placementbindings s"
  using assms unfolding plain_names_def
  by (cases "map_of (w_policies s) (policy_key g)")
     (auto simp: createOnlyNamespaceScopedResourceFromYAML_def createOrUpdateNamespaceScopedResourceFromYAML_def run_simps has_key_def)

lemma argocd_policy_run:
  assumes "yaml_reads yaml g" and "calm w" and "plain_names g" and "addonEnabled g" and "gs_placement (gc_spec g) = Some ref"
    and "mget (m_annos (gc_meta g)) skipArgoCDPolicyAnnotation \<noteq> ''true''" and "\<not> agentEnabled g"
  shows "\<exists>t. run_state (CreateArgoCDPolicy yaml g) w = (Inr (), t) \<and> map_of (w_placementbindings t) (binding_key g) \<noteq> None
    \<and> (\<exists>p. yaml (generateArgoCDPolicyYaml g) = Inr p \<and>
         map_of (w_policies t) (policy_key g) = Some (case map_of (w_policies w) (policy_key g) of None \<Rightarrow> p | Some q \<Rightarrow> q))"
proof -
  obtain b p where b: "yaml (generateArgoCDPolicyPlacementBindingYaml g) = Inr b" "dynamic_kind b = Some DynBinding" "ukey b = binding_key g"
    and p: "yaml (generateArgoCDPolicyYaml g) = Inr p" "dynamic_kind p = Some DynPolicy" "ukey p = policy_key g"
    using assms(1) unfolding yaml_reads_def by blast
  let ?s = "consume w"
  have av: "run_state isPolicyCRDAvailable w = (True, ?s)" "calm ?s"
    using assms(2) by (simp_all add: isPolicyCRDAvailable_def run_simps)
  obtain u where u: "run_state (createOnlyNamespaceScopedResourceFromYAML yaml (generateArgoCDPolicyPlacementBindingYaml g)) ?s = (Inr (), u)"
    "calm u" "map_of (w_placementbindings u) (binding_key g) \<noteq> None" "w_policies u = w_policies ?s"
    using create_binding_run [where yaml = yaml and g = g, OF av(2) b assms(3)] by auto
  obtain t where t: "run_state (createOnlyNamespaceScopedResourceFromYAML yaml (generateArgoCDPolicyYaml g)) u = (Inr (), t)"
    "map_of (w_policies t) (policy_key g) = Some (case map_of (w_policies u) (policy_key g) of None \<Rightarrow> p | Some q \<Rightarrow> q)"
    "w_placementbindings t = w_placementbindings u"
    using create_policy_run [where yaml = yaml and g = g, OF u(2) p assms(3)] by auto
  have "(case agent_of g of None \<Rightarrow> State_Monad.return (Inr ()) | Some a \<Rightarrow>
      if ag_enabled a \<noteq> Some True then State_Monad.return (Inr ()) else k a) = State_Monad.return (Inr ())" for k :: "agent_spec \<Rightarrow> unit api"
    using assms(7) unfolding agent_enabled_iff by (cases "agent_of g") auto
  then have "run_state (CreateArgoCDPolicy yaml g) w = (Inr (), t)"
    using assms(4-6) by (simp add: CreateArgoCDPolicy_def av u(1) t(1) seq_api_def run_simps)
  with u t p(1) show ?thesis by simp
qed

text \<open>under every failure, \<open>CreateArgoCDPolicy\<close> adds nothing but the binding and the policy of the GitOpsCluster, under their
  own names: bindings that exist and every other policy stay as they are, and the GitOpsCluster's own policy, once it
  exists, is the user's, changed in no more than the agent's settings and only when the agent is enabled. With the addon off,
  without a placement or with the skip annotation nothing is even read. When nothing is rejected and no agent is wanted, the
  binding and the policy exist afterwards, the policy as the user left it if there was one.\<close>

theorem argocd_policy_owned:
  assumes "yaml_reads yaml g" and "run_state (CreateArgoCDPolicy yaml g) w = (r, t)"
  shows "policy_inv g w t
    \<and> (\<not> addonEnabled g \<or> gs_placement (gc_spec g) = None \<or> mget (m_annos (gc_meta g)) skipArgoCDPolicyAnnotation = ''true'' \<longrightarrow> t = w)
    \<and> (calm w \<and> plain_names g \<and> addonEnabled g \<and> gs_placement (gc_spec g) \<noteq> None
        \<and> mget (m_annos (gc_meta g)) skipArgoCDPolicyAnnotation \<noteq> ''true'' \<and> \<not> agentEnabled g \<longrightarrow>
        r = Inr () \<and> map_of (w_placementbindings t) (binding_key g) \<noteq> None
        \<and> (\<exists>p. yaml (generateArgoCDPolicyYaml g) = Inr p \<and>
             map_of (w_policies t) (policy_key g) = Some (case map_of (w_policies w) (policy_key g) of None \<Rightarrow> p | Some q \<Rightarrow> q)))"
proof -
  have "policy_inv g w w" by (simp add: policy_inv_def owned_def)
  then have "policy_inv g w t" using state_io_relD [OF argocd_policy_inv [OF assms(1)] assms(2)] by blast
  moreover have "t = w"
    if "\<not> addonEnabled g \<or> gs_placement (gc_spec g) = None \<or> mget (m_annos (gc_meta g)) skipArgoCDPolicyAnnotation = ''true''"
    using that assms(2) by (auto simp: CreateArgoCDPolicy_def split: if_splits)
  moreover note argocd_policy_run [OF assms(1), of w] assms(2)
  ultimately show ?thesis by fastforce
qed

section \<open>Witnesses\<close>

definition sample_agent :: agent_spec where
  "sample_agent = \<lparr>ag_enabled = Some True, ag_propagate_ca = None, ag_server_address = ''hub.example'', ag_server_port = [], ag_mode = []\<rparr>"

definition sample_policy :: unstructured where
  "sample_policy = \<lparr>u_meta = plain_meta ''gc-argocd-policy'' ''team'' [] [],
     u_fields = [(''kind'', JStr ''Policy''), (''spec'', JObj [(''policy-templates'', JArr [JObj [(''objectDefinition'', JObj [(''spec'', JObj
       [(''object-templates'', JArr [JObj [(''objectDefinition'', JObj [(''kind'', JStr ''ArgoCD''),
          (''metadata'', JObj [(''name'', JStr ''acm-openshift-gitops'')])])]])])])]])])]\<rparr>"


theorem argocd_policy_owned_witness:
  "policy_inv sample_gitops empty_world (snd (run_state (CreateArgoCDPolicy
     (\<lambda>text. if text = generateArgoCDPolicyYaml sample_gitops then Inr sample_policy
             else Inr \<lparr>u_meta = plain_meta ''gc-argocd-policy-binding'' ''team'' [] [], u_fields = [(''kind'', JStr ''PlacementBinding'')]\<rparr>)
     sample_gitops) empty_world))"
proof -
  let ?b = "\<lparr>u_meta = plain_meta ''gc-argocd-policy-binding'' ''team'' [] [], u_fields = [(''kind'', JStr ''PlacementBinding'')]\<rparr>"
  let ?y = "\<lambda>text. if text = generateArgoCDPolicyYaml sample_gitops then Inr sample_policy else (Inr ?b :: goerr + unstructured)"
  have "generateArgoCDPolicyPlacementBindingYaml sample_gitops \<noteq> generateArgoCDPolicyYaml sample_gitops"
    by (simp add: generateArgoCDPolicyPlacementBindingYaml_def generateArgoCDPolicyYaml_def raw_text_def)
  moreover have "dynamic_kind ?b = Some DynBinding" "ukey ?b = binding_key sample_gitops"
    "dynamic_kind sample_policy = Some DynPolicy" "ukey sample_policy = policy_key sample_gitops"
    by (simp_all add: dynamic_kind_def api_resource_def ukey_def sample_policy_def binding_key_def policy_key_def sample_gitops_def
        jget_str_def ascii_lower_def Let_def char_of_def bit_0)
  ultimately have y: "yaml_reads ?y sample_gitops" by (simp add: yaml_reads_def)
  obtain r t where run: "run_state (CreateArgoCDPolicy ?y sample_gitops) empty_world = (r, t)" by (rule prod.exhaust)
  from argocd_policy_owned [OF y run] show ?thesis unfolding run by simp
qed

end
