(* ===== verification/Triples.thy ===== *)
theory Triples
  imports Prelude
begin

text \<open>
  Pre- and postconditions of handlers, with a separate postcondition for the results that end a handler
  early, and the rules that follow a handler's text. A run always returns, so these are statements of total correctness.
\<close>

definition holds :: "('s \<Rightarrow> bool) \<Rightarrow> ('s, 'a) state \<Rightarrow> ('a \<Rightarrow> 's \<Rightarrow> bool) \<Rightarrow> bool" where
  "holds P m Q \<longleftrightarrow> (\<forall>s. P s \<longrightarrow> (case run_state m s of (r, t) \<Rightarrow> Q r t))"

text \<open>The postcondition of a result that is an early end or a value.\<close>

abbreviation ends_or :: "('e \<Rightarrow> 's \<Rightarrow> bool) \<Rightarrow> ('a \<Rightarrow> 's \<Rightarrow> bool) \<Rightarrow> 'e + 'a \<Rightarrow> 's \<Rightarrow> bool" where
  "ends_or E Q \<equiv> (\<lambda>r t. case r of Inl e \<Rightarrow> E e t | Inr x \<Rightarrow> Q x t)"

text \<open>Sequencing of steps that may end early.\<close>

definition andThen :: "('s, 'e + 'a) state \<Rightarrow> ('a \<Rightarrow> ('s, 'e + 'b) state) \<Rightarrow> ('s, 'e + 'b) state" where
  "andThen m f = do {
     r \<leftarrow> m;
     case r of Inl e \<Rightarrow> State_Monad.return (Inl e) | Inr x \<Rightarrow> f x
   }"

named_theorems triple_rules \<open>rules for the parts of a handler\<close>

lemma holdsI: "(\<And>s r t. P s \<Longrightarrow> run_state m s = (r, t) \<Longrightarrow> Q r t) \<Longrightarrow> holds P m Q"
  unfolding holds_def by (auto split: prod.splits)

lemma holdsD: "holds P m Q \<Longrightarrow> run_state m s = (r, t) \<Longrightarrow> P s \<Longrightarrow> Q r t"
  unfolding holds_def by fastforce

lemma holds_snd: "holds P m (\<lambda>_. Q) \<Longrightarrow> P s \<Longrightarrow> Q (snd (run_state m s))"
  by (auto simp: holds_def split_beta)

lemma holds_weaken:
  "holds P m Q \<Longrightarrow> (\<And>s. P' s \<Longrightarrow> P s) \<Longrightarrow> (\<And>r t. Q r t \<Longrightarrow> Q' r t) \<Longrightarrow> holds P' m Q'"
  by (rule holdsI) (blast dest: holdsD)

lemma holds_post: "holds P m Q \<Longrightarrow> (\<And>r t. Q r t \<Longrightarrow> Q' r t) \<Longrightarrow> holds P m Q'"
  by (rule holds_weaken)

lemma holds_pre: "holds P m Q \<Longrightarrow> (\<And>s. P' s \<Longrightarrow> P s) \<Longrightarrow> holds P' m Q"
  by (rule holds_weaken)

lemma holds_return: "(\<And>s. P s \<Longrightarrow> Q x s) \<Longrightarrow> holds P (State_Monad.return x) Q"
  by (simp add: holds_def)

lemma holds_bind: "holds P m R \<Longrightarrow> (\<And>x. holds (R x) (f x) Q) \<Longrightarrow> holds P (State_Monad.bind m f) Q"
  unfolding holds_def by (fastforce split: prod.splits)

lemma holds_andThen:
  "holds P m (ends_or E R) \<Longrightarrow> (\<And>x. holds (R x) (f x) (ends_or E Q)) \<Longrightarrow> holds P (andThen m f) (ends_or E Q)"
  unfolding andThen_def
proof (erule holds_bind)
  fix r assume f: "\<And>x. holds (R x) (f x) (ends_or E Q)"
  show "holds (ends_or E R r) (case r of Inl e \<Rightarrow> State_Monad.return (Inl e) | Inr x \<Rightarrow> f x) (ends_or E Q)"
    using f by (cases r) (auto intro: holds_return)
qed

lemma holds_if: "(c \<Longrightarrow> holds P m Q) \<Longrightarrow> (\<not> c \<Longrightarrow> holds P n Q) \<Longrightarrow> holds P (if c then m else n) Q"
  by simp

lemma holds_sum:
  "(\<And>e. a = Inl e \<Longrightarrow> holds P (f e) Q) \<Longrightarrow> (\<And>x. a = Inr x \<Longrightarrow> holds P (g x) Q) \<Longrightarrow>
    holds P (case a of Inl e \<Rightarrow> f e | Inr x \<Rightarrow> g x) Q"
  by (cases a) auto

lemma holds_option:
  "(a = None \<Longrightarrow> holds P m Q) \<Longrightarrow> (\<And>x. a = Some x \<Longrightarrow> holds P (f x) Q) \<Longrightarrow>
    holds P (case a of None \<Rightarrow> m | Some x \<Rightarrow> f x) Q"
  by (cases a) auto

lemma holds_prod: "(\<And>x y. a = (x, y) \<Longrightarrow> holds P (f x y) Q) \<Longrightarrow> holds P (case a of (x, y) \<Rightarrow> f x y) Q"
  by (cases a) auto

lemma holds_let: "(\<And>x. x = a \<Longrightarrow> holds P (f x) Q) \<Longrightarrow> holds P (let x = a in f x) Q"
  by simp

lemma holds_impossible: "(\<And>s. \<not> P s) \<Longrightarrow> holds P m Q"
  by (simp add: holds_def)

text \<open>A frame of the handler preserves what it does not touch.\<close>

lemma holds_frame: "state_io_rel R m \<Longrightarrow> (\<And>s t. P s \<Longrightarrow> R s t \<Longrightarrow> Q t) \<Longrightarrow> holds P m (\<lambda>r t. Q t)"
  by (auto intro!: holdsI dest: state_io_relD)

lemma holds_loopM:
  assumes "\<And>b x. x \<in> set xs \<Longrightarrow> holds (I b) (f b x) I" shows "holds (I b) (loopM f b xs) I"
  using assms by (induction xs arbitrary: b) (auto intro!: holds_return holds_bind)

lemma holds_loopE:
  assumes "\<And>b x. x \<in> set xs \<Longrightarrow> holds (I b) (f b x) (ends_or E I)" shows "holds (I b) (loopE f b xs) (ends_or E I)"
  using assms
proof (induction xs arbitrary: b)
  case (Cons x xs)
  have "holds (ends_or E I r) (case r of Inl e \<Rightarrow> State_Monad.return (Inl e) | Inr b' \<Rightarrow> loopE f b' xs) (ends_or E I)" for r
    using Cons by (cases r) (auto intro: holds_return)
  with Cons.prems show ?case by (auto intro: holds_bind)
qed (auto intro: holds_return)

end
