(* ===== verification/ReconcileGitOps.thy ===== *)
theory ReconcileGitOps
  imports AgentCertificates AgentClusters Policies Triples
begin

text \<open>
  The reconcile of a GitOpsCluster (\<open>reconcileGitOpsCluster\<close> and \<open>Reconcile\<close> in
  \<open>gitopscluster_controller.go\<close>), composed of the operations of the other theories in the order of the code.
  A phase takes the object in memory and either goes on with it or ends the reconcile with an interval and an error.
  What the phases get from outside is the record \<open>surroundings\<close>: the time of each status update, the certificate libraries, the keys drawn,
  the YAML parser, the environment of the process and the network.
\<close>

record surroundings =
  su_now :: "nat \<Rightarrow> string"
  su_certs :: cert_lib
  su_agents :: agent_lib
  su_draws :: "nat \<Rightarrow> agent_draw"
  su_jwt :: "nat \<Rightarrow> goerr + string"
  su_yaml :: "string \<Rightarrow> goerr + unstructured"
  su_env :: environment
  su_visit :: "smap \<Rightarrow> (string \<times> string) list"
  su_net :: net

type_synonym outcome = "int \<times> goerr option"
type_synonym phase = "gitops_cluster \<Rightarrow> (world, outcome + gitops_cluster) state"

definition GitOpsClusterGitOpsAddonPrereqsReady :: string where
  "GitOpsClusterGitOpsAddonPrereqsReady = ''GitOpsAddonPrereqsReady''"

section \<open>Status updates\<close>

text \<open>An update of the status subresource stores the status only; the object in memory becomes what the server returns.\<close>

definition putStatus :: "gitops_cluster \<Rightarrow> gitops_cluster api" where
  "putStatus g =
     (if m_name (gc_meta g) = [] then State_Monad.return (Inl (ErrText ''resource name may not be empty''))
      else request (\<lambda>w.
        case map_of (w_gitops w) (gkey g) of
          None \<Rightarrow> (Inl (not_found ''gitopsclusters'' (gkey g)), w)
        | Some old \<Rightarrow> (let new = old\<lparr>gc_status := gc_status g\<rparr> in (Inr new, w_gitops_update (mset_key (gkey g) new) w))))"

definition cond_update :: "cond_status \<Rightarrow> string \<Rightarrow> string \<Rightarrow> condition_update" where
  "cond_update st reason message = \<lparr>cu_status = st, cu_reason = reason, cu_message = message\<rparr>"

text \<open>The three ways a status is reported: a failed update is logged; it is logged unless the object is gone; the reconcile ends.\<close>

definition noteStatus :: "gitops_cluster \<Rightarrow> (world, gitops_cluster) state" where
  "noteStatus g = do {
     r \<leftarrow> putStatus g;
     State_Monad.return (case r of Inl e \<Rightarrow> g | Inr new \<Rightarrow> new)
   }"

definition noteUnlessGone :: phase where
  "noteUnlessGone g = do {
     r \<leftarrow> putStatus g;
     State_Monad.return (case r of
       Inl e \<Rightarrow> if isObjectGoneError e then Inl (0, None) else Inr g
     | Inr new \<Rightarrow> Inr new)
   }"

definition failWith :: "int \<Rightarrow> goerr \<Rightarrow> gitops_cluster \<Rightarrow> (world, outcome + 'a) state" where
  "failWith n err g = do {
     r \<leftarrow> putStatus g;
     State_Monad.return (Inl (n, Some (case r of Inl e \<Rightarrow> e | Inr new \<Rightarrow> err)))
   }"

definition goOn :: "gitops_cluster \<Rightarrow> (world, outcome + gitops_cluster) state" where
  "goOn g = State_Monad.return (Inr g)"

text \<open>\<open>msg[:maxStatusMsgLen]\<close>.\<close>

definition status_text :: "string \<Rightarrow> string" where "status_text msg = take (128 * 1024) msg"

section \<open>The first phases\<close>

definition startReconcile :: "surroundings \<Rightarrow> phase" where
  "startReconcile su g = noteUnlessGone (initializeConditions (su_now su 0) g)"

definition validateSpec :: "surroundings \<Rightarrow> phase" where
  "validateSpec su g =
     (case ValidateGitOpsAddonSpec (gs_addon (gc_spec g)) of
        Inr u \<Rightarrow> goOn g
      | Inl e \<Rightarrow> (let msg = ''GitOpsAddon spec validation failed: '' @ err_text e in
          failWith 1 e (updateGitOpsClusterConditions (su_now su 1) ''failed'' msg
            [(GitOpsClusterArgoCDAgentPrereqsReady, cond_update CFalse ''InvalidConfiguration'' msg)] g)))"

text \<open>Failures of the early certificates are logged; the agent need not have the addon enabled.\<close>

definition earlyCertificates :: "surroundings \<Rightarrow> gitops_cluster \<Rightarrow> (world, unit) state" where
  "earlyCertificates su g =
     (if \<not> agentEnabled g then State_Monad.return ()
      else do {
        ca \<leftarrow> EnsureArgoCDAgentCASecret (su_certs su) g;
        _ \<leftarrow> (case ca of
               Inl e \<Rightarrow> State_Monad.return ()
             | Inr u \<Rightarrow> do {
                 _ \<leftarrow> EnsureArgoCDAgentPrincipalTLSCert (su_certs su) g;
                 _ \<leftarrow> EnsureArgoCDAgentResourceProxyTLSCert (su_certs su) g;
                 State_Monad.return ()
               });
        _ \<leftarrow> ensureArgoCDAgentJWTSecret (su_jwt su 0) (GetEffectiveArgoNamespace g);
        State_Monad.return ()
      })"

definition policyTemplate :: "surroundings \<Rightarrow> gitops_cluster \<Rightarrow> (world, gitops_cluster) state" where
  "policyTemplate su g = do {
     r \<leftarrow> CreatePolicyTemplate (su_yaml su) g;
     noteStatus (updateGitOpsClusterConditions (su_now su 2) [] []
       [(GitOpsClusterPolicyTemplateReady, case r of
           Inl e \<Rightarrow> cond_update CFalse ''PolicyTemplateCreationFailed'' (''Failed to create policy template: '' @ err_text e)
         | Inr u \<Rightarrow> cond_update CTrue ''Success'' ''Policy template created successfully'')] g)
   }"

definition authorizeNamespace :: "surroundings \<Rightarrow> string \<Rightarrow> phase" where
  "authorizeNamespace su ns g = do {
     r \<leftarrow> verifyArgoNamespaceAuthorized g ns;
     case r of
       Inr u \<Rightarrow> goOn g
     | Inl e \<Rightarrow> failWith 1 e (updateGitOpsClusterConditions (su_now su 3) ''failed'' (err_text e)
         [(GitOpsClusterArgoServerVerified, cond_update CFalse ''InvalidConfiguration'' (err_text e))] g)
   }"

definition verifyServer :: "surroundings \<Rightarrow> string \<Rightarrow> smap \<Rightarrow> phase" where
  "verifyServer su ns annotations g = do {
     found \<leftarrow> VerifyArgocdNamespace ns;
     if \<not> found \<and> mget annotations ''skipArgoNamespaceVerify'' \<noteq> ''true'' then
       failWith 1 (ErrText ''invalid gitops namespace because argo server pod was not found, will try again'')
         (updateGitOpsClusterConditions (su_now su 4) ''failed'' ''invalid gitops namespace because argo server pod was not found''
           [(GitOpsClusterArgoServerVerified,
             cond_update CFalse ''ArgoServerNotFound'' ''ArgoCD server pod was not found in the specified namespace'')] g)
     else do {
       h \<leftarrow> noteStatus (updateGitOpsClusterConditions (su_now su 5) [] []
              [(GitOpsClusterArgoServerVerified,
                cond_update CTrue ''Success'' ''ArgoCD server pod found in the specified namespace'')] g);
       goOn h
     }
   }"

definition appsetResources :: "surroundings \<Rightarrow> string \<Rightarrow> gitops_cluster \<Rightarrow> (world, gitops_cluster) state" where
  "appsetResources su ns g = do {
     c \<leftarrow> CreateApplicationSetConfigMaps ns;
     b \<leftarrow> CreateApplicationSetRbac ns;
     noteStatus (updateGitOpsClusterConditions (su_now su 6) [] []
       [(GitOpsClusterApplicationSetResourcesReady,
         case (c, b) of
           (Inr _, Inr _) \<Rightarrow> cond_update CTrue ''Success'' ''ApplicationSet ConfigMaps and RBAC resources created successfully''
         | (Inl e, Inl f) \<Rightarrow> cond_update CFalse ''ConfigMapCreationFailed''
             (''ConfigMap creation failed: '' @ err_text e @ ''; RBAC creation failed: '' @ err_text f)
         | (Inl e, Inr _) \<Rightarrow> cond_update CFalse ''ConfigMapCreationFailed'' (''ConfigMap creation failed: '' @ err_text e)
         | (Inr _, Inl f) \<Rightarrow> cond_update CFalse ''ConfigMapCreationFailed'' (''RBAC creation failed: '' @ err_text f))] g)
   }"

text \<open>The placement reference is dereferenced without a test.\<close>

definition resolvePlacement :: "surroundings \<Rightarrow> gitops_cluster \<Rightarrow> (world, outcome + managed_cluster list) state" where
  "resolvePlacement su g =
     (case gs_placement (gc_spec g) of
        None \<Rightarrow> State_Monad.return (Inl (0, Some (Panicked ''nil pointer dereference'')))
      | Some ref \<Rightarrow> do {
          l \<leftarrow> GetManagedClusters (m_ns (gc_meta g)) ref;
          case l of
            Inr cs \<Rightarrow> State_Monad.return (Inr cs)
          | Inl e \<Rightarrow> failWith 3 e (updateGitOpsClusterConditions (su_now su 7) ''failed'' (err_text e)
              [(GitOpsClusterPlacementResolved, cond_update CFalse ''PlacementNotFound'' (err_text e))] g)
        })"

section \<open>The agent's prerequisites\<close>

text \<open>An operation whose failure ends the reconcile with a condition.\<close>

definition required ::
  "string \<Rightarrow> int \<Rightarrow> string \<Rightarrow> string \<Rightarrow> (string \<Rightarrow> string) \<Rightarrow> unit api \<Rightarrow> gitops_cluster \<Rightarrow> (world, outcome + unit) state" where
  "required now n cond reason text m g = do {
     r \<leftarrow> m;
     case r of
       Inr u \<Rightarrow> State_Monad.return (Inr ())
     | Inl e \<Rightarrow> (let msg = status_text (text (err_text e)) in
         failWith n e (updateGitOpsClusterConditions now ''failed'' msg [(cond, cond_update CFalse reason msg)] g))
   }"

definition agentSecrets :: "bool \<Rightarrow> surroundings \<Rightarrow> string \<Rightarrow> phase" where
  "agentSecrets agent su ns g =
     (if \<not> agent then goOn g
      else andThen (required (su_now su 8) 3 GitOpsClusterArgoCDAgentPrereqsReady ''InvalidConfiguration'' id
                     (ensureArgoCDRedisSecret ns) g) (\<lambda>u.
           andThen (required (su_now su 9) 3 GitOpsClusterArgoCDAgentPrereqsReady ''InvalidConfiguration'' id
                     (ensureArgoCDAgentJWTSecret (su_jwt su 1) ns) g) (\<lambda>u. goOn g)))"

definition agentCertificates :: "bool \<Rightarrow> surroundings \<Rightarrow> phase" where
  "agentCertificates agent su g =
     (if \<not> agent then goOn g
      else andThen (required (su_now su 10) 3 GitOpsClusterCertificatesReady ''CertificateSigningFailed''
                     (\<lambda>t. ''Failed to generate CA certificate: '' @ t) (EnsureArgoCDAgentCASecret (su_certs su) g) g) (\<lambda>u.
           andThen (required (su_now su 11) 3 GitOpsClusterCertificatesReady ''CertificateSigningFailed''
                     (\<lambda>t. ''Failed to generate principal TLS certificate: '' @ t) (EnsureArgoCDAgentPrincipalTLSCert (su_certs su) g) g) (\<lambda>u.
           andThen (required (su_now su 12) 3 GitOpsClusterCertificatesReady ''CertificateSigningFailed''
                     (\<lambda>t. ''Failed to generate resource proxy TLS certificate: '' @ t)
                     (EnsureArgoCDAgentResourceProxyTLSCert (su_certs su) g) g) (\<lambda>u. goOn g))))"

definition serverAddressMissing :: string where
  "serverAddressMissing = ''ArgoCD agent requires serverAddress and serverPort fields to be populated. Server discovery failed to populate these fields. Please ensure the ArgoCD agent principal service is properly configured with a LoadBalancer''"

definition discoverServer :: "bool \<Rightarrow> surroundings \<Rightarrow> phase" where
  "discoverServer agent su g =
     (if \<not> agent then goOn g
      else do {
        (h, r) \<leftarrow> DiscoverServerAddressAndPort g;
        case r of
          Inl e \<Rightarrow> (let msg = status_text (''Failed to discover ArgoCD agent server address and port: '' @ err_text e) in
            failWith 3 e (updateGitOpsClusterConditions (su_now su 13) ''failed'' msg
              [(GitOpsClusterArgoCDAgentPrereqsReady, cond_update CFalse ''InvalidConfiguration'' msg)] h))
        | Inr u \<Rightarrow>
            (if \<not> server_configured h then
               failWith 3 (ErrText serverAddressMissing)
                 (updateGitOpsClusterConditions (su_now su 14) ''failed'' serverAddressMissing
                   [(GitOpsClusterArgoCDAgentPrereqsReady, cond_update CFalse ''InvalidConfiguration'' serverAddressMissing)] h)
             else goOn h)
      })"

section \<open>The addon\<close>

definition ensureTemplate :: "bool \<Rightarrow> surroundings \<Rightarrow> string \<Rightarrow> phase" where
  "ensureTemplate agent su ns g =
     (if \<not> agent then do {
        u \<leftarrow> cleanupLegacyOLMAddOnTemplates g;
        goOn g
      }
      else do {
        r \<leftarrow> ensureAddonManagerRBAC ns;
        case r of
          Inl e \<Rightarrow> failWith 3 e (updateGitOpsClusterConditions (su_now su 15) ''failed''
            (''Failed to configure required RBAC permissions: '' @ err_text e)
            [(GitOpsClusterGitOpsAddonPrereqsReady, cond_update CFalse ''RBACSetupFailed''
               (''Failed to create necessary Role and RoleBinding resources in ArgoCD namespace '' @ sq @ ns @ sq @
                ''. Please verify the controller has sufficient permissions: '' @ err_text e))] g)
        | Inr u \<Rightarrow> do {
            t \<leftarrow> EnsureAddOnTemplate (su_env su) g;
            case t of
              Inl e \<Rightarrow> failWith 3 e (updateGitOpsClusterConditions (su_now su 16) ''failed''
                (''Failed to create addon template: '' @ err_text e)
                [(GitOpsClusterAddOnTemplateReady, cond_update CFalse ''InvalidConfiguration''
                   (''Failed to create the addon template required for deploying GitOps components to managed clusters: '' @ err_text e))] g)
            | Inr v \<Rightarrow> noteUnlessGone (updateGitOpsClusterConditions (su_now su 17) [] []
                [(GitOpsClusterAddOnTemplateReady, cond_update CTrue ''Success'' ''AddOnTemplate created/updated successfully''),
                 (GitOpsClusterGitOpsAddonPrereqsReady, cond_update CTrue ''Success'' ''RBAC prerequisites configured successfully'')] g)
          }
      })"

definition localClusterSelected :: "gitops_cluster \<Rightarrow> string" where
  "localClusterSelected g =
     ''GitOpsCluster '' @ m_ns (gc_meta g) @ ''/'' @ m_name (gc_meta g) @ '' Placement selects local-cluster - this is not '' @
     ''supported and would cause a conflicting second ArgoCD CR in local-cluster'' @ sq @ ''s '' @
     ''openshift-gitops namespace. Exclude local-cluster from this GitOpsCluster'' @ sq @ ''s '' @
     ''placementRef; use a separate Placement for ApplicationSets that need to '' @ ''target local-cluster.''"

definition rejectLocalCluster :: "surroundings \<Rightarrow> managed_cluster list \<Rightarrow> phase" where
  "rejectLocalCluster su cs g =
     (if \<not> list_ex (\<lambda>c. IsLocalCluster (Some c)) cs then goOn g
      else do {
        r \<leftarrow> putStatus (updateGitOpsClusterConditions (su_now su 18) ''failed'' (localClusterSelected g)
               [(GitOpsClusterArgoCDPolicyReady, cond_update CFalse ''InvalidConfiguration'' (localClusterSelected g))] g);
        State_Monad.return (Inl (case r of
          Inl e \<Rightarrow> if isObjectGoneError e then (0, None) else (3, Some e)
        | Inr new \<Rightarrow> (3, Some (ErrText (localClusterSelected g)))))
      })"

definition argoCDPolicy :: "surroundings \<Rightarrow> phase" where
  "argoCDPolicy su g = do {
     r \<leftarrow> CreateArgoCDPolicy (su_yaml su) g;
     case r of
       Inr u \<Rightarrow> noteUnlessGone (updateGitOpsClusterConditions (su_now su 21) [] []
         [(GitOpsClusterArgoCDPolicyReady, cond_update CTrue ''Success'' ''ArgoCD Policy created/updated successfully'')] g)
     | Inl e \<Rightarrow>
         (if e = ErrArgoCDPolicySkipped then do {
            h \<leftarrow> noteStatus (updateGitOpsClusterConditions (su_now su 19) [] []
                   [(GitOpsClusterArgoCDPolicyReady,
                     cond_update CTrue ''Skipped'' ''ArgoCD Policy creation skipped (skip-argocd-policy annotation set)'')] g);
            goOn h
          }
          else failWith 3 e (updateGitOpsClusterConditions (su_now su 20) ''failed''
            (''Failed to create ArgoCD Policy: '' @ err_text e)
            [(GitOpsClusterArgoCDPolicyReady, cond_update CFalse ''ArgoCDPolicyCreationFailed''
               (''Failed to create the ArgoCD Policy for managing ArgoCD CR on managed clusters: '' @ err_text e))] g))
   }"

text \<open>What the loop over the clusters counts.\<close>

record addon_results =
  ar_configs :: "string list"
  ar_addons :: "string list"
  ar_count :: nat

definition ensureClusterAddon :: "surroundings \<Rightarrow> gitops_cluster \<Rightarrow> string \<Rightarrow> addon_results \<Rightarrow> managed_cluster \<Rightarrow> (world, addon_results) state" where
  "ensureClusterAddon su g img acc c =
     (if IsLocalCluster (Some c) then State_Monad.return acc
      else do {
        a \<leftarrow> CreateAddOnDeploymentConfig (su_visit su) (su_env su) g (Some c) img;
        b \<leftarrow> EnsureManagedClusterAddon (mc_name c) g;
        State_Monad.return
          \<lparr>ar_configs = ar_configs acc @ (case a of Inl e \<Rightarrow> [mc_name c] | Inr u \<Rightarrow> []),
           ar_addons = ar_addons acc @ (case b of Inl e \<Rightarrow> [mc_name c] | Inr u \<Rightarrow> []),
           ar_count = ar_count acc + (case (a, b) of (Inr u, Inr v) \<Rightarrow> 1 | _ \<Rightarrow> 0)\<rparr>
      })"

definition counted :: "nat \<Rightarrow> string" where "counted n = itoa (int n)"

text \<open>The three updates of the conditions after the loop.\<close>

definition addonConditions :: "surroundings \<Rightarrow> addon_results \<Rightarrow> gitops_cluster \<Rightarrow> gitops_cluster" where
  "addonConditions su acc g =
     (let g1 = updateGitOpsClusterConditions (su_now su 22) [] []
            [(GitOpsClusterAddOnDeploymentConfigsReady,
              if ar_configs acc \<noteq> [] then cond_update CFalse ''ConfigCreationFailed''
                (''Failed to create AddOnDeploymentConfig for clusters: '' @ join_with '', '' (ar_configs acc))
              else cond_update CTrue ''Success''
                (''Successfully created AddOnDeploymentConfigs for '' @ counted (ar_count acc) @ '' managed clusters''))] g;
          g2 = updateGitOpsClusterConditions (su_now su 23) [] []
            [(GitOpsClusterOLMSubscriptionReady,
              if \<not> IsOLMSubscriptionEnabled g1 then cond_update CTrue ''NotRequired'' ''OLM passthrough not required''
              else if ar_configs acc \<noteq> [] then cond_update CFalse ''ConfigCreationFailed''
                ''OLM subscription config could not be delivered to all managed clusters''
              else cond_update CTrue ''Success''
                ''OLM subscription configuration delivered to managed clusters via AddOnDeploymentConfig'')] g1
      in updateGitOpsClusterConditions (su_now su 24) [] []
            [(GitOpsClusterManagedClusterAddOnsReady,
              if ar_addons acc \<noteq> [] then cond_update CFalse ''AddonCreationFailed''
                (''Failed to create/update ManagedClusterAddon for clusters: '' @ join_with '', '' (ar_addons acc))
              else cond_update CTrue ''Success''
                (''Successfully created/updated ManagedClusterAddons for '' @ counted (ar_count acc) @ '' managed clusters''))] g2)"

text \<open>\<open>%v\<close> of a slice of strings.\<close>

definition format_list :: "string list \<Rightarrow> string" where
  "format_list xs = ''['' @ join_with '' '' xs @ '']''"

definition clusterAddons :: "bool \<Rightarrow> surroundings \<Rightarrow> managed_cluster list \<Rightarrow> phase" where
  "clusterAddons agent su cs g = do {
     img \<leftarrow> (if agent then do {
               h \<leftarrow> HealAgentVersionDrift g;
               State_Monad.return (case h of Inl e \<Rightarrow> [] | Inr i \<Rightarrow> i)
             } else State_Monad.return []);
     acc \<leftarrow> loopM (ensureClusterAddon su g img) \<lparr>ar_configs = [], ar_addons = [], ar_count = 0\<rparr> cs;
     andThen (noteUnlessGone (addonConditions su acc g)) (\<lambda>h.
       if ar_configs acc \<noteq> [] \<or> ar_addons acc \<noteq> [] then State_Monad.return (Inl (3, Some (ErrText
         (''failed to create addons for some clusters - configs: '' @ format_list (ar_configs acc) @ '', addons: '' @ format_list (ar_addons acc)))))
       else goOn h)
   }"

definition addonPhase :: "bool \<Rightarrow> bool \<Rightarrow> surroundings \<Rightarrow> string \<Rightarrow> managed_cluster list \<Rightarrow> phase" where
  "addonPhase addon agent su ns cs g =
     (if \<not> addon then goOn g
      else andThen (ensureTemplate agent su ns g) (\<lambda>g.
           andThen (rejectLocalCluster su cs g) (\<lambda>g.
           andThen (argoCDPolicy su g) (clusterAddons agent su cs))))"

section \<open>Registration\<close>

text \<open>The CA again, and the registration of the clusters; this is the only phase that takes secrets off the list of orphans.\<close>

definition ensureCAAgain :: "bool \<Rightarrow> surroundings \<Rightarrow> phase" where
  "ensureCAAgain agent su g =
     (if \<not> agent then goOn g
      else andThen (required (su_now su 25) 3 GitOpsClusterCertificatesReady ''CertificateSigningFailed''
                     (\<lambda>t. ''Failed to generate or rotate the CA certificate for ArgoCD agent communication: '' @ t)
                     (EnsureArgoCDAgentCASecret (su_certs su) g) g) (\<lambda>u. goOn g))"

definition registerAgents :: "surroundings \<Rightarrow> managed_cluster list \<Rightarrow> orphans \<Rightarrow> gitops_cluster \<Rightarrow> (world, orphans \<times> (outcome + gitops_cluster)) state" where
  "registerAgents su cs orph g = do {
     (orph', r) \<leftarrow> CreateArgoCDAgentClusters (su_agents su) (su_draws su) g cs orph;
     x \<leftarrow> (case r of
            Inl e \<Rightarrow> (let msg = status_text (''Failed to register managed clusters with ArgoCD agent. This is required for the agent to connect to managed clusters: '' @ err_text e) in
              failWith 3 e (updateGitOpsClusterConditions (su_now su 26) ''failed'' msg
                [(GitOpsClusterClustersRegistered, cond_update CFalse ''ClusterRegistrationFailed'' msg)] g))
          | Inr u \<Rightarrow> do {
              h \<leftarrow> noteStatus (updateGitOpsClusterConditions (su_now su 27) ''successful'' ''ArgoCD agent clusters registered successfully''
                     [(GitOpsClusterClustersRegistered, cond_update CTrue ''Success''
                        (''Successfully registered '' @ counted (length cs) @ '' managed clusters with ArgoCD agent configuration''))] g);
              goOn h
            });
     State_Monad.return (orph', x)
   }"

definition blankSecrets :: "bool \<Rightarrow> gitops_cluster \<Rightarrow> bool" where
  "blankSecrets addon g \<longleftrightarrow> addon \<or> gs_blank_secrets (gc_spec g) = Some True"

definition registerClusters :: "surroundings \<Rightarrow> bool \<Rightarrow> managed_cluster list \<Rightarrow> orphans \<Rightarrow> gitops_cluster \<Rightarrow> (world, orphans \<times> (outcome + gitops_cluster)) state" where
  "registerClusters su blank cs orph g = do {
     (orph', r) \<leftarrow> AddManagedClustersToArgo (su_net su) g cs orph blank;
     x \<leftarrow> (case r of
            Some e \<Rightarrow> (let msg = status_text (''Failed to register managed clusters with ArgoCD. Please verify the managed cluster credentials and network connectivity: '' @ err_text e) in
              failWith 3 e (updateGitOpsClusterConditions (su_now su 28) ''failed'' msg
                [(GitOpsClusterClustersRegistered, cond_update CFalse ''ClusterRegistrationFailed'' msg)] g))
          | None \<Rightarrow> goOn g);
     State_Monad.return (orph', x)
   }"

definition propagateCA :: "bool \<Rightarrow> surroundings \<Rightarrow> managed_cluster list \<Rightarrow> phase" where
  "propagateCA propagate su cs g =
     (if \<not> propagate then goOn g
      else andThen (required (su_now su 29) 3 GitOpsClusterManifestWorksApplied ''ManifestWorkFailed''
                     (\<lambda>t. ''Failed to distribute ArgoCD agent CA certificate to managed clusters. Please verify the argocd-agent-ca secret exists and managed clusters are accessible: '' @ t)
                     (PropagateHubCA g cs) g) (\<lambda>u. goOn g))"

section \<open>The end of the reconcile\<close>

definition not_required :: "string \<Rightarrow> condition_update" where
  "not_required message = cond_update CTrue ''NotRequired'' message"

text \<open>In the code the updates are a map, visited in any order; each type has one update, so every order gives it the same status.\<close>

definition finalUpdates :: "bool \<Rightarrow> bool \<Rightarrow> bool \<Rightarrow> nat \<Rightarrow> (string \<times> condition_update) list" where
  "finalUpdates addon agent propagate n =
     [(GitOpsClusterPlacementResolved, cond_update CTrue ''Success''
        (''Successfully resolved '' @ counted n @ '' managed clusters from placement'')),
      (GitOpsClusterClustersRegistered, cond_update CTrue ''Success''
        (''Successfully registered '' @ counted n @ '' managed clusters to ArgoCD''))] @
     (if addon then []
      else [(GitOpsClusterAddOnDeploymentConfigsReady, not_required ''AddOnDeploymentConfigs not required (GitOps addon disabled)''),
            (GitOpsClusterManagedClusterAddOnsReady, not_required ''ManagedClusterAddons not required (GitOps addon disabled)'')]) @
     (if agent then
        [(GitOpsClusterArgoCDAgentPrereqsReady, cond_update CTrue ''Success''
            ''ArgoCD agent prerequisites (RBAC, CA secret, Redis secret, and JWT secret) are ready''),
         (GitOpsClusterCertificatesReady, cond_update CTrue ''Success'' ''ArgoCD agent certificates are properly signed and ready''),
         (GitOpsClusterManifestWorksApplied,
            if propagate then cond_update CTrue ''Success'' ''CA propagation ManifestWorks successfully applied to managed clusters''
            else cond_update CTrue ''Skipped'' ''Hub CA propagation skipped (skip-hub-ca-propagation annotation set)'')]
      else
        [(GitOpsClusterAddOnTemplateReady, not_required ''AddOnTemplate not required (ArgoCD agent disabled)''),
         (GitOpsClusterGitOpsAddonPrereqsReady, not_required ''GitOps addon RBAC prerequisites not required (agent disabled)''),
         (GitOpsClusterArgoCDAgentPrereqsReady, not_required ''ArgoCD agent prerequisites not required (agent disabled)''),
         (GitOpsClusterCertificatesReady, not_required ''ArgoCD agent certificates not required (agent disabled)''),
         (GitOpsClusterManifestWorksApplied, not_required ''ManifestWorks not required (agent disabled)'')] @
        (if addon then []
         else [(GitOpsClusterArgoCDPolicyReady, not_required ''ArgoCD policy not required (addon disabled)''),
               (GitOpsClusterOLMSubscriptionReady, not_required ''OLM subscription not required (addon disabled)'')]))"

definition successMessage :: "string \<Rightarrow> managed_cluster list \<Rightarrow> string" where
  "successMessage ns cs =
     (let names = join_with '' '' (map mc_name cs);
          shown = (if length names > 4096 then take 4096 names @ ''...'' else names) in
      ''Added managed clusters ['' @ shown @ ''] to gitops namespace '' @ ns)"

definition finishReconcile :: "bool \<Rightarrow> bool \<Rightarrow> bool \<Rightarrow> surroundings \<Rightarrow> string \<Rightarrow> managed_cluster list \<Rightarrow> gitops_cluster \<Rightarrow> (world, outcome) state" where
  "finishReconcile addon agent propagate su ns cs g = do {
     r \<leftarrow> putStatus (updateGitOpsClusterConditions (su_now su 30) ''successful'' (successMessage ns cs)
            (finalUpdates addon agent propagate (length cs)) g);
     State_Monad.return (case r of Inl e \<Rightarrow> (3, Some e) | Inr new \<Rightarrow> (0, None))
   }"

section \<open>One GitOpsCluster\<close>

text \<open>Everything before the registration of clusters: the object in memory, the clusters and whether the hub's CA is propagated.\<close>

definition checksPhase :: "surroundings \<Rightarrow> string \<Rightarrow> phase" where
  "checksPhase su ns g =
     andThen (startReconcile su g) (\<lambda>g.
     andThen (validateSpec su g) (\<lambda>g.
       do {
         _ \<leftarrow> earlyCertificates su g;
         h \<leftarrow> policyTemplate su g;
         andThen (authorizeNamespace su ns h) (verifyServer su ns (m_annos (gc_meta g)))
       }))"

definition agentPhase :: "bool \<Rightarrow> surroundings \<Rightarrow> string \<Rightarrow> phase" where
  "agentPhase agent su ns g =
     andThen (agentSecrets agent su ns g) (\<lambda>g. andThen (agentCertificates agent su g) (discoverServer agent su))"

definition registerPhase ::
  "bool \<Rightarrow> surroundings \<Rightarrow> bool \<Rightarrow> managed_cluster list \<Rightarrow> orphans \<Rightarrow> gitops_cluster \<Rightarrow> (world, orphans \<times> (outcome + gitops_cluster)) state" where
  "registerPhase agent su blank cs orph g =
     (if agent then registerAgents su cs orph g else registerClusters su blank cs orph g)"

definition lastPhases ::
  "bool \<Rightarrow> bool \<Rightarrow> surroundings \<Rightarrow> string \<Rightarrow> managed_cluster list \<Rightarrow> orphans \<Rightarrow> gitops_cluster \<Rightarrow> (world, orphans \<times> outcome) state" where
  "lastPhases addon agent su ns cs orph g = do {
     let propagate = \<not> hasSkipHubCAPropagationAnnotation g;
     let blank = blankSecrets addon g;
     a \<leftarrow> andThen (addonPhase addon agent su ns cs g) (ensureCAAgain agent su);
     case a of
       Inl out \<Rightarrow> State_Monad.return (orph, out)
     | Inr g1 \<Rightarrow> do {
         (orph', r) \<leftarrow> registerPhase agent su blank cs orph g1;
         case r of
           Inl out \<Rightarrow> State_Monad.return (orph', out)
         | Inr g2 \<Rightarrow> do {
             p \<leftarrow> propagateCA (agent \<and> propagate) su cs g2;
             case p of
               Inl out \<Rightarrow> State_Monad.return (orph', out)
             | Inr g3 \<Rightarrow> do {
                 out \<leftarrow> finishReconcile addon agent propagate su ns cs g3;
                 State_Monad.return (orph', out)
               }
           }
       }
   }"

definition reconcileGitOpsCluster :: "surroundings \<Rightarrow> gitops_cluster \<Rightarrow> orphans \<Rightarrow> (world, orphans \<times> outcome) state" where
  "reconcileGitOpsCluster su g0 orph =
     (let ns = GetEffectiveArgoNamespace g0 in do {
        c \<leftarrow> checksPhase su ns g0;
        case c of
          Inl out \<Rightarrow> State_Monad.return (orph, out)
        | Inr g1 \<Rightarrow> do {
            g2 \<leftarrow> appsetResources su ns g1;
            l \<leftarrow> resolvePlacement su g2;
            case l of
              Inl out \<Rightarrow> State_Monad.return (orph, out)
            | Inr cs \<Rightarrow> do {
                let (addon, agent) = GetGitOpsAddonStatus g2;
                a \<leftarrow> agentPhase agent su ns g2;
                case a of
                  Inl out \<Rightarrow> State_Monad.return (orph, out)
                | Inr g3 \<Rightarrow> lastPhases addon agent su ns cs orph g3
              }
          }
      })"

section \<open>All of them\<close>

text \<open>The result of a reconcile: the minutes after which it runs again, and the error; with an error the runtime decides when.\<close>

type_synonym result = "int option \<times> goerr option"

definition zero_cluster :: gitops_cluster where \<comment> \<open>what a failed request leaves in memory\<close>
  "zero_cluster =
     \<lparr>gc_meta = plain_meta [] [] [] [],
      gc_spec = \<lparr>gs_argo_ns = [], gs_placement = None, gs_msa_ref = [], gs_addon = None, gs_blank_secrets = None, gs_policy_template = None\<rparr>,
      gc_status = \<lparr>st_updated = [], st_message = [], st_phase = [], st_conditions = []\<rparr>\<rparr>"

fun panicked :: "goerr option \<Rightarrow> bool" where
  "panicked (Some (Panicked s)) \<longleftrightarrow> True"
| "panicked e \<longleftrightarrow> False"

text \<open>An item of the loop; a panic leaves the whole reconcile. The last error is kept, with its interval.\<close>

definition reconcileOne :: "(nat \<Rightarrow> surroundings) \<Rightarrow> orphans \<times> outcome \<Rightarrow> nat \<times> gitops_cluster \<Rightarrow> (world, goerr + orphans \<times> outcome) state" where
  "reconcileOne sus acc entry = do {
     x \<leftarrow> get_gitops (gkey (snd entry));
     if (case x of Inl e \<Rightarrow> is_not_found e | Inr g \<Rightarrow> False) then State_Monad.return (Inr acc)
     else do {
       (orph, out) \<leftarrow> reconcileGitOpsCluster (sus (fst entry)) (case x of Inl e \<Rightarrow> zero_cluster | Inr g \<Rightarrow> g) (fst acc);
       State_Monad.return (case snd out of
         None \<Rightarrow> Inr (orph, snd acc)
       | Some e \<Rightarrow> if panicked (Some e) then Inl e else Inr (orph, out))
     }
   }"

definition ReconcileGitOpsClusters :: "(nat \<Rightarrow> surroundings) \<Rightarrow> (world, result) state" where
  "ReconcileGitOpsClusters sus = do {
     s \<leftarrow> GetAllManagedClusterSecretsInArgo;
     case s of
       Inl e \<Rightarrow> State_Monad.return (None, None)
     | Inr items \<Rightarrow> do {
         l \<leftarrow> GetAllGitOpsClusters;
         case l of
           Inl e \<Rightarrow> State_Monad.return (None, None)
         | Inr gs \<Rightarrow> do {
             r \<leftarrow> loopE (reconcileOne sus) (orphan_candidates items, (0, None)) (List.enumerate 0 gs);
             case r of
               Inl e \<Rightarrow> State_Monad.return (None, Some e)
             | Inr (orph, n, err) \<Rightarrow> do {
                 ok \<leftarrow> cleanupOrphanSecrets orph;
                 State_Monad.return (case err of
                   Some e \<Rightarrow> (Some n, Some e)
                 | None \<Rightarrow> if ok then (Some 5, None) else (Some 10, None))
               }
           }
       }
   }"

section \<open>What leaves GitOpsClusters alone\<close>

definition bystander :: "world \<Rightarrow> world \<Rightarrow> bool" where
  "bystander s t \<longleftrightarrow> w_gitops t = w_gitops s \<and> (calm s \<longrightarrow> calm t)"

interpretation bystander: frame bystander
  by unfold_locales (auto simp: bystander_def)

lemma quiet_bystander: "quiet s t \<Longrightarrow> bystander s t"
  using quiet_sel(14,19) by (simp add: bystander_def)

lemma state_io_rel_mono: "state_io_rel R m \<Longrightarrow> (\<And>s t. R s t \<Longrightarrow> S s t) \<Longrightarrow> state_io_rel S m"
  unfolding state_io_rel_def by blast

lemmas reading_bystander = state_io_rel_mono [OF _ quiet_bystander]
lemmas get_bystander = reading_bystander [OF get_quiet]
lemmas list_bystander = reading_bystander [OF list_quiet]

text \<open>The kinds other than GitOpsCluster: no verb on them touches one.\<close>

locale other_kind = kind +
  assumes gitops_upd: "w_gitops (upd f w) = w_gitops w"
begin

lemma touches_bystander: "touches K s t \<Longrightarrow> bystander s t"
  by (auto simp: bystander_def touches_calm) (auto simp: touches_def gitops_upd)

lemmas touching_bystander = state_io_rel_mono [OF _ touches_bystander]

lemma create_bystander: "state_io_rel bystander (api_create sel upd res k x)"
  by (rule touching_bystander [OF create_touches [OF singletonI]])

lemma update_bystander: "state_io_rel bystander (api_update sel upd res k x)"
  by (rule touching_bystander [OF update_touches [OF singletonI]])

lemma patch_bystander: "state_io_rel bystander (api_patch sel upd res k f)"
  by (rule touching_bystander [OF patch_touches [OF singletonI]])

lemma delete_bystander: "state_io_rel bystander (api_delete sel upd res k)"
  by (rule touching_bystander [OF delete_touches [OF singletonI]])

lemmas verb_bystander = create_bystander update_bystander patch_bystander delete_bystander

end

interpretation o_secrets: other_kind w_secrets w_secrets_update "''secrets''" by unfold_locales simp
interpretation o_configmaps: other_kind w_configmaps w_configmaps_update "''configmaps''" by unfold_locales simp
interpretation o_roles: other_kind w_roles w_roles_update "''roles''" by unfold_locales simp
interpretation o_rolebindings: other_kind w_rolebindings w_rolebindings_update "''rolebindings''" by unfold_locales simp
interpretation o_adcs: other_kind w_adcs w_adcs_update "''addondeploymentconfigs''" by unfold_locales simp
interpretation o_addons: other_kind w_addons w_addons_update "''managedclusteraddons''" by unfold_locales simp
interpretation o_works: other_kind w_works w_works_update "''manifestworks''" by unfold_locales simp
interpretation o_templates: other_kind w_templates w_templates_update "''addontemplates''" by unfold_locales simp
interpretation o_policies: other_kind w_policies w_policies_update "''policies''" by unfold_locales simp
interpretation o_placements: other_kind w_placements w_placements_update "''placements''" by unfold_locales simp
interpretation o_placementbindings: other_kind w_placementbindings w_placementbindings_update "''placementbindings''" by unfold_locales simp

lemma secret_bystander: "state_io_rel bystander (create_secret x)" "state_io_rel bystander (update_secret x)"
  unfolding create_secret_def update_secret_def by (rule o_secrets.verb_bystander)+

lemmas all_bystander = get_bystander list_bystander secret_bystander o_secrets.verb_bystander o_configmaps.verb_bystander
  o_roles.verb_bystander o_rolebindings.verb_bystander o_adcs.verb_bystander o_addons.verb_bystander o_works.verb_bystander
  o_templates.verb_bystander o_policies.verb_bystander o_placements.verb_bystander o_placementbindings.verb_bystander

text \<open>The operations of the reconcile.\<close>

lemma library_bystander:
  assumes "issues lib"
  shows "state_io_rel bystander (lib_sync lib ns)" "state_io_rel bystander (lib_signing lib ns)"
    "state_io_rel bystander (lib_bundle lib ns ca)" "state_io_rel bystander (lib_target lib ns nm hosts ca b)"
proof -
  from assms have l: "state_io_rel quiet (lib_sync lib ns)" "state_io_rel (secrets.touches {(ns, principalCAName)}) (lib_signing lib ns)"
    "state_io_rel (configmaps.touches {(ns, caBundleName)}) (lib_bundle lib ns ca)"
    "state_io_rel (secrets.touches {(ns, nm)}) (lib_target lib ns nm hosts ca b)"
    unfolding issues_def by simp_all
  show "state_io_rel bystander (lib_sync lib ns)" by (rule reading_bystander [OF l(1)])
  show "state_io_rel bystander (lib_signing lib ns)" by (rule o_secrets.touching_bystander [OF l(2)])
  show "state_io_rel bystander (lib_bundle lib ns ca)" by (rule o_configmaps.touching_bystander [OF l(3)])
  show "state_io_rel bystander (lib_target lib ns nm hosts ca b)" by (rule o_secrets.touching_bystander [OF l(4)])
qed

lemma tls_bystander:
  assumes "issues lib" and "state_io_rel quiet hostNames" shows "state_io_rel bystander (ensureTLSCert lib what nm ns hostNames)"
  unfolding ensureTLSCert_def wrap_error_def deleteSecretIfSANsDrifted_def verifyCACertificateExists_def loadCACertificate_def
  by (intro bystander.frame_rules library_bystander [OF assms(1)] all_bystander reading_bystander [OF assms(2)])

lemma certificate_bystander:
  assumes "issues lib"
  shows "state_io_rel bystander (EnsureArgoCDAgentCASecret lib g)" "state_io_rel bystander (EnsureArgoCDAgentPrincipalTLSCert lib g)"
    "state_io_rel bystander (EnsureArgoCDAgentResourceProxyTLSCert lib g)"
proof -
  show "state_io_rel bystander (EnsureArgoCDAgentCASecret lib g)"
    unfolding EnsureArgoCDAgentCASecret_def wrap_error_def
    by (intro bystander.frame_rules library_bystander [OF assms])
  show "state_io_rel bystander (EnsureArgoCDAgentPrincipalTLSCert lib g)"
    unfolding EnsureArgoCDAgentPrincipalTLSCert_def Let_def by (rule tls_bystander [OF assms principal_hosts_quiet])
  show "state_io_rel bystander (EnsureArgoCDAgentResourceProxyTLSCert lib g)"
    unfolding EnsureArgoCDAgentResourceProxyTLSCert_def Let_def by (rule tls_bystander [OF assms proxy_hosts_quiet])
qed

lemma secret_ensure_bystander:
  "state_io_rel bystander (ensureArgoCDRedisSecret ns)" "state_io_rel bystander (ensureArgoCDAgentJWTSecret key ns)"
proof -
  show "state_io_rel bystander (ensureArgoCDRedisSecret ns)"
    unfolding ensureArgoCDRedisSecret_def unless_exists_def tolerate_existing_def
    by (intro bystander.frame_rules all_bystander)
  show "state_io_rel bystander (ensureArgoCDAgentJWTSecret key ns)"
    unfolding ensureArgoCDAgentJWTSecret_def unless_exists_def tolerate_existing_def
    by (intro bystander.frame_rules all_bystander)
qed

lemma yaml_bystander: "state_io_rel bystander (createOrUpdateNamespaceScopedResourceFromYAML yaml text b)"
proof -
  have "state_io_rel bystander (dynamic_get kd k)" "state_io_rel bystander (dynamic_update kd obj)" "state_io_rel bystander (dynamic_create kd obj)"
    for kd k obj by (cases kd; simp add: all_bystander)+
  then show ?thesis
    unfolding createOrUpdateNamespaceScopedResourceFromYAML_def by (intro bystander.frame_rules)
qed

lemma template_bystander: "state_io_rel bystander (CreatePolicyTemplate yaml g)"
  unfolding CreatePolicyTemplate_def seq_api_def createNamespaceScopedResourceFromYAML_def
  by (intro bystander.frame_rules yaml_bystander)

lemma argocd_policy_bystander: "state_io_rel bystander (CreateArgoCDPolicy yaml g)"
proof -
  have "state_io_rel bystander (reconcileArgoCDPolicyAgentSpec g a)" for a
    unfolding reconcileArgoCDPolicyAgentSpec_def by (rule o_policies.touching_bystander [OF retry_touches])
  then show ?thesis
    unfolding CreateArgoCDPolicy_def seq_api_def createOnlyNamespaceScopedResourceFromYAML_def
    by (intro bystander.frame_rules yaml_bystander reading_bystander [OF crd_quiet])
qed

lemma appset_bystander:
  "state_io_rel bystander (CreateApplicationSetConfigMaps ns)" "state_io_rel bystander (CreateApplicationSetRbac ns)"
  "state_io_rel bystander (ensureAddonManagerRBAC ns)"
proof -
  show "state_io_rel bystander (CreateApplicationSetConfigMaps ns)"
    unfolding CreateApplicationSetConfigMaps_def ensureConfigMap_def by (intro bystander.frame_rules all_bystander)
  show "state_io_rel bystander (CreateApplicationSetRbac ns)"
    unfolding CreateApplicationSetRbac_def by (intro bystander.frame_rules all_bystander reading_bystander [OF role_binding_quiet])
  show "state_io_rel bystander (ensureAddonManagerRBAC ns)"
    unfolding ensureAddonManagerRBAC_def ensureAddonManagerRole_def ensureAddonManagerRoleBinding_def unless_exists_def tolerate_existing_def
    by (intro bystander.frame_rules all_bystander)
qed

lemma addon_bystander:
  "state_io_rel bystander (cleanupLegacyOLMAddOnTemplates g)" "state_io_rel bystander (EnsureAddOnTemplate env g)"
  "state_io_rel bystander (HealAgentVersionDrift g)"
  "state_io_rel bystander (CreateAddOnDeploymentConfig visit env g mc img)" "state_io_rel bystander (EnsureManagedClusterAddon ns g)"
proof -
  show "state_io_rel bystander (cleanupLegacyOLMAddOnTemplates g)"
    unfolding cleanupLegacyOLMAddOnTemplates_def deleteAddOnTemplateByName_def by (intro bystander.frame_rules all_bystander)
  show "state_io_rel bystander (EnsureAddOnTemplate env g)"
    by (rule o_templates.touching_bystander [OF ensure_template_touches])
  show "state_io_rel bystander (HealAgentVersionDrift g)"
    unfolding HealAgentVersionDrift_def findPrincipalDeploymentImage_def by (intro bystander.frame_rules all_bystander)
  show "state_io_rel bystander (CreateAddOnDeploymentConfig visit env g mc img)"
    unfolding CreateAddOnDeploymentConfig_def UpdateManagedClusterAddonConfig_def Let_def by (intro bystander.frame_rules all_bystander)
  show "state_io_rel bystander (EnsureManagedClusterAddon ns g)"
    unfolding EnsureManagedClusterAddon_def by (intro bystander.frame_rules all_bystander)
qed

lemma removal_bystander: "state_io_rel bystander (cleanupOldArgoClusterSecrets new c)" "state_io_rel bystander (cleanupOldClusterSecrets c)"
proof -
  show "state_io_rel bystander (cleanupOldArgoClusterSecrets new c)"
    unfolding cleanupOldArgoClusterSecrets_def cleanupOne_def removeOldSecret_def
    by (intro bystander.frame_rules all_bystander reading_bystander [OF referenced_quiet])
  show "state_io_rel bystander (cleanupOldClusterSecrets c)"
    unfolding cleanupOldClusterSecrets_def by (intro bystander.frame_rules all_bystander)
qed

lemma register_bystander:
  "state_io_rel bystander (AddManagedClustersToArgo net g cs orph blank)"
  "state_io_rel bystander (CreateArgoCDAgentClusters lib draws g cs orph)"
  "state_io_rel bystander (PropagateHubCA g cs)"
  "state_io_rel bystander (cleanupOrphanSecrets orph)"
proof -
  show "state_io_rel bystander (AddManagedClustersToArgo net g cs orph blank)"
    unfolding AddManagedClustersToArgo_def addCluster_def storeCluster_def writeClusterSecret_def finishCluster_def
    by (intro bystander.frame_rules all_bystander removal_bystander reading_bystander [OF non_acm_quiet]
        reading_bystander [OF proxy_info_quiet] reading_bystander [OF fallback_quiet])
  have "state_io_rel bystander (deleteBlankClusterSecretsForCluster c ns)" for c ns
    unfolding deleteBlankClusterSecretsForCluster_def deleteBlank_def by (intro bystander.frame_rules all_bystander)
  then show "state_io_rel bystander (CreateArgoCDAgentClusters lib draws g cs orph)"
    unfolding CreateArgoCDAgentClusters_def ensureLocalClusterSecret_def storeLocalSecret_def createAgentCluster_def registerAgentCluster_def
    by (intro bystander.frame_rules all_bystander reading_bystander [OF choose_source_quiet]
        reading_bystander [OF load_ca_quiet] reading_bystander [OF find_local_quiet])
  show "state_io_rel bystander (PropagateHubCA g cs)"
    unfolding PropagateHubCA_def getArgoCDAgentCACert_def propagateTo_def by (intro bystander.frame_rules all_bystander)
  show "state_io_rel bystander (cleanupOrphanSecrets orph)"
    unfolding cleanupOrphanSecrets_def cleanupOrphan_def by (intro bystander.frame_rules all_bystander)
qed

section \<open>What the status tells\<close>

definition cond_state :: "gitops_cluster \<Rightarrow> string \<Rightarrow> cond_status option" where
  "cond_state g t = map_option c_status (GetCondition g t)"

text \<open>Two objects in memory that ask for the same.\<close>

definition same_request :: "gitops_cluster \<Rightarrow> gitops_cluster \<Rightarrow> bool" where
  "same_request g h \<longleftrightarrow>
     gc_meta h = gc_meta g \<and> GetGitOpsAddonStatus h = GetGitOpsAddonStatus g \<and>
     IsOLMSubscriptionEnabled h = IsOLMSubscriptionEnabled g \<and> gs_placement (gc_spec h) = gs_placement (gc_spec g)"

text \<open>The conditions of the second object are those of the first with the given ones set; Ready is apart.\<close>

definition reports :: "(string \<times> cond_status) list \<Rightarrow> gitops_cluster \<Rightarrow> gitops_cluster \<Rightarrow> bool" where
  "reports us g h \<longleftrightarrow>
     same_request g h \<and> (distinct_conditions g \<longrightarrow> distinct_conditions h) \<and>
     (\<forall>t. t \<noteq> GitOpsClusterReady \<longrightarrow> cond_state h t = (case map_of us t of Some s \<Rightarrow> Some s | None \<Rightarrow> cond_state g t))"

definition statuses :: "(string \<times> condition_update) list \<Rightarrow> (string \<times> cond_status) list" where
  "statuses us = map (\<lambda>(t, u). (t, cu_status u)) us"

lemma statuses_simps [simp]:
  "statuses [] = []" "statuses ((t, u) # us) = (t, cu_status u) # statuses us"
  "statuses (us @ vs) = statuses us @ statuses vs" "statuses (if c then us else vs) = (if c then statuses us else statuses vs)"
  by (simp_all add: statuses_def)

lemma cond_update_status [simp]: "cu_status (cond_update st r m) = st"
  by (simp add: cond_update_def)

lemma reports_refl: "reports [] g g"
  by (simp add: reports_def same_request_def)

lemma reports_trans: "reports us g h \<Longrightarrow> reports vs h k \<Longrightarrow> reports (vs @ us) g k"
  by (auto simp: reports_def same_request_def map_add_def split: option.splits)

lemma update_frame [simp]:
  "gc_spec (updateGitOpsClusterConditions now p m us g) = gc_spec g"
  "gc_meta (updateGitOpsClusterConditions now p m us g) = gc_meta g"
  by (simp_all add: updateGitOpsClusterConditions_def)

lemma update_distinct: "distinct_conditions g \<Longrightarrow> distinct_conditions (updateGitOpsClusterConditions now p m us g)"
  by (simp add: updateGitOpsClusterConditions_def distinct_fold_updates)

lemma flags_cong:
  "gc_spec h = gc_spec g \<Longrightarrow> gc_meta h = gc_meta g \<Longrightarrow> same_request g h"
  by (simp add: same_request_def GetGitOpsAddonStatus_def IsOLMSubscriptionEnabled_def)

lemma update_reports:
  assumes "distinct (map fst us)" shows "reports (statuses us) g (updateGitOpsClusterConditions now p m us g)"
proof -
  let ?s = "stamped now p m g" and ?h = "fold (apply_update now) us (stamped now p m g)"
  have "cond_state (updateGitOpsClusterConditions now p m us g) t = (case map_of (statuses us) t of Some s \<Rightarrow> Some s | None \<Rightarrow> cond_state g t)"
    if "t \<noteq> GitOpsClusterReady" for t
  proof (cases "map_of us t")
    case None
    then have "t \<notin> fst ` set us" by (simp add: map_of_eq_None_iff)
    with slots.puts_other [of t us now ?s] None that show ?thesis
      by (simp add: cond_state_def updateGitOpsClusterConditions_def updateReady_other puts_fold statuses_def map_of_map)
  next
    case (Some u)
    from slots.puts_at [OF assms map_of_SomeD [OF Some], of now ?s] Some that show ?thesis
      by (simp add: cond_state_def updateGitOpsClusterConditions_def updateReady_other puts_fold statuses_def map_of_map)
  qed
  then show ?thesis by (simp add: reports_def flags_cong update_distinct)
qed

lemma ready_shows_failure:
  assumes "cond_state (updateGitOpsClusterConditions now p m us g) t = Some CFalse" and "t \<noteq> GitOpsClusterReady"
  shows "cond_state (updateGitOpsClusterConditions now p m us g) GitOpsClusterReady = Some CFalse"
proof -
  let ?h = "updateGitOpsClusterConditions now p m us g"
  from assms(1) obtain c where "GetCondition ?h t = Some c" "c_status c = CFalse" by (auto simp: cond_state_def)
  then have "c \<in> set (conditions ?h)" "c_type c = t" "c_status c = CFalse"
    by (auto simp: GetCondition_def dest: cond_of_mem cond_of_type)
  with assms(2) have "ready_spec ?h = CFalse" by (auto simp: ready_spec_def)
  then show ?thesis by (simp add: cond_state_def updateGitOpsClusterConditions_def updateReady_status)
qed

lemma ready_is_spec: "cond_state (updateGitOpsClusterConditions now p m us g) GitOpsClusterReady
    = Some (ready_spec (updateGitOpsClusterConditions now p m us g))"
  by (simp add: cond_state_def updateGitOpsClusterConditions_def updateReady_status)

section \<open>Status updates when nothing is rejected\<close>

text \<open>The object in memory is the stored one, and the other GitOpsClusters are as they were.\<close>

definition synced :: "world \<Rightarrow> gitops_cluster \<Rightarrow> world \<Rightarrow> bool" where
  "synced w0 g s \<longleftrightarrow>
     calm s \<and> m_name (gc_meta g) \<noteq> [] \<and> map_of (w_gitops s) (gkey g) = Some g \<and> changes_only {gkey g} w_gitops w0 s"

text \<open>A failed reconcile shows in the stored Ready condition.\<close>

definition shown :: "world \<Rightarrow> nsname \<Rightarrow> outcome \<Rightarrow> world \<Rightarrow> bool" where
  "shown w0 k out s \<longleftrightarrow>
     (\<exists>h n e. synced w0 h s \<and> gkey h = k \<and> out = (n, Some e) \<and> n \<in> {1, 3} \<and> cond_state h GitOpsClusterReady = Some CFalse)"

abbreviation phase_post where
  "phase_post w0 g us \<equiv> ends_or (shown w0 (gkey g)) (\<lambda>h t. synced w0 h t \<and> reports us g h)"

lemma synced_bystander: "bystander s t \<Longrightarrow> synced w0 g s \<Longrightarrow> synced w0 g t"
  by (auto simp: synced_def bystander_def changes_only_def)

lemma bystander_keeps: "state_io_rel bystander m \<Longrightarrow> holds (synced w0 g) m (\<lambda>r. synced w0 g)"
  by (rule holds_frame [where R = bystander]) (auto intro: synced_bystander)

lemma putStatus_run:
  assumes "synced w0 g s" and "gc_spec h = gc_spec g" and "gc_meta h = gc_meta g"
  shows "\<exists>t. run_state (putStatus h) s = (Inr h, t) \<and> synced w0 h t"
proof -
  have k: "gkey h = gkey g" using assms(3) by (simp add: gkey_def)
  have "g\<lparr>gc_status := gc_status h\<rparr> = h" using assms(2,3) by (cases g; cases h) simp
  with assms k show ?thesis by (auto simp: putStatus_def request_run synced_def Let_def changes_only_def)
qed

lemma note_synced:
  assumes "gc_spec h = gc_spec g" and "gc_meta h = gc_meta g"
  shows "holds (synced w0 g) (putStatus h) (\<lambda>r t. r = Inr h \<and> synced w0 h t)"
    "holds (synced w0 g) (noteStatus h) (\<lambda>r t. r = h \<and> synced w0 h t)"
    "holds (synced w0 g) (noteUnlessGone h) (\<lambda>r t. r = Inr h \<and> synced w0 h t)"
    "holds (synced w0 g) (failWith n e h) (\<lambda>r t. r = Inl (n, Some e) \<and> synced w0 h t)"
  using putStatus_run [OF _ assms]
  by (fastforce intro!: holdsI simp: noteStatus_def noteUnlessGone_def failWith_def)+

lemma fail_shown:
  assumes "n \<in> {1, 3}" and "t \<noteq> GitOpsClusterReady"
  shows "holds (synced w0 g) (failWith n e (updateGitOpsClusterConditions now p m [(t, cond_update CFalse r msg)] g)) (ends_or (shown w0 (gkey g)) Q)"
proof (rule holds_post [OF note_synced(4)])
  let ?h = "updateGitOpsClusterConditions now p m [(t, cond_update CFalse r msg)] g"
  have "cond_state ?h t = Some CFalse"
    using update_reports [of "[(t, cond_update CFalse r msg)]" g now p m] assms(2) by (simp add: reports_def)
  then have "cond_state ?h GitOpsClusterReady = Some CFalse" using assms(2) by (rule ready_shows_failure)
  then show "ends_or (shown w0 (gkey g)) Q x w" if "x = Inl (n, Some e) \<and> synced w0 ?h w" for x w
    using that assms(1) unfolding shown_def by (auto simp: gkey_def)
qed simp_all

lemma note_reports:
  assumes "distinct (map fst us)"
  shows "holds (synced w0 g) (noteStatus (updateGitOpsClusterConditions now p m us g)) (\<lambda>h t. synced w0 h t \<and> reports (statuses us) g h)"
    "holds (synced w0 g) (noteUnlessGone (updateGitOpsClusterConditions now p m us g)) (phase_post w0 g (statuses us))"
  by (rule holds_post [OF note_synced(2)] holds_post [OF note_synced(3)]; auto intro: update_reports [OF assms])+

lemma note_as:
  assumes "distinct (map fst us)" and "statuses us = vs"
  shows "holds (synced w0 g) (noteStatus (updateGitOpsClusterConditions now p m us g)) (\<lambda>h t. synced w0 h t \<and> reports vs g h)"
    "holds (synced w0 g) (noteUnlessGone (updateGitOpsClusterConditions now p m us g)) (phase_post w0 g vs)"
  using note_reports [OF assms(1)] unfolding assms(2) by blast+

section \<open>The phases when nothing is rejected\<close>

lemma reports_gkey: "reports us g h \<Longrightarrow> gkey h = gkey g"
  by (simp add: reports_def same_request_def gkey_def)

lemma phase_andThen:
  assumes "holds (synced w0 g) m (phase_post w0 g us)" and "\<And>h. reports us g h \<Longrightarrow> holds (synced w0 h) (f h) (phase_post w0 h vs)"
  shows "holds (synced w0 g) (andThen m f) (phase_post w0 g (vs @ us))"
proof (rule holds_andThen [OF assms(1)])
  fix h
  show "holds (\<lambda>t. synced w0 h t \<and> reports us g h) (f h) (phase_post w0 g (vs @ us))"
  proof (cases "reports us g h")
    case True
    show ?thesis
      by (rule holds_weaken [OF assms(2) [OF True]])
         (auto simp: reports_gkey [OF True] split: sum.splits intro: reports_trans [OF True])
  qed (auto intro: holds_impossible)
qed

lemma phase_plain:
  "holds (synced w0 g) m (phase_post w0 g []) \<Longrightarrow> (\<And>h. holds (synced w0 h) (f h) (phase_post w0 h [])) \<Longrightarrow>
    holds (synced w0 g) (andThen m f) (phase_post w0 g [])"
  by (rule phase_andThen [of w0 g m "[]" f "[]", unfolded append_Nil])

lemma phase_goOn: "holds (synced w0 g) (goOn g) (phase_post w0 g [])"
  unfolding goOn_def by (rule holds_return) (simp add: reports_refl)

lemma phase_step:
  assumes "holds (synced w0 g) m (ends_or (shown w0 (gkey g)) (\<lambda>u t. synced w0 g t))"
    and "\<And>u. holds (synced w0 g) (f u) (phase_post w0 g us)"
  shows "holds (synced w0 g) (andThen m f) (phase_post w0 g us)"
  by (rule holds_andThen [OF assms(1)]) (rule assms(2))

lemma required_step:
  assumes "state_io_rel bystander m" and "n \<in> {1, 3}" and "cond \<noteq> GitOpsClusterReady"
  shows "holds (synced w0 g) (required now n cond reason text m g) (ends_or (shown w0 (gkey g)) (\<lambda>u t. synced w0 g t))"
  unfolding required_def Let_def
  by (intro holds_bind [OF bystander_keeps [OF assms(1)]] holds_sum fail_shown assms(2,3)) (auto intro: holds_return)

lemma types_not_ready [simp]:
  "GitOpsClusterPlacementResolved \<noteq> GitOpsClusterReady" "GitOpsClusterArgoServerVerified \<noteq> GitOpsClusterReady"
  "GitOpsClusterApplicationSetResourcesReady \<noteq> GitOpsClusterReady" "GitOpsClusterPolicyTemplateReady \<noteq> GitOpsClusterReady"
  "GitOpsClusterClustersRegistered \<noteq> GitOpsClusterReady" "GitOpsClusterAddOnTemplateReady \<noteq> GitOpsClusterReady"
  "GitOpsClusterAddOnDeploymentConfigsReady \<noteq> GitOpsClusterReady" "GitOpsClusterManagedClusterAddOnsReady \<noteq> GitOpsClusterReady"
  "GitOpsClusterArgoCDAgentPrereqsReady \<noteq> GitOpsClusterReady" "GitOpsClusterCertificatesReady \<noteq> GitOpsClusterReady"
  "GitOpsClusterManifestWorksApplied \<noteq> GitOpsClusterReady" "GitOpsClusterOLMSubscriptionReady \<noteq> GitOpsClusterReady"
  "GitOpsClusterArgoCDPolicyReady \<noteq> GitOpsClusterReady" "GitOpsClusterGitOpsAddonPrereqsReady \<noteq> GitOpsClusterReady"
  by (simp_all add: condition_type_defs GitOpsClusterGitOpsAddonPrereqsReady_def)

lemma validate_phase: "holds (synced w0 g) (validateSpec su g) (phase_post w0 g [])"
  unfolding validateSpec_def Let_def by (intro holds_sum fail_shown phase_goOn) simp_all

lemma early_keeps:
  assumes "issues (su_certs su)" shows "state_io_rel bystander (earlyCertificates su g)"
  unfolding earlyCertificates_def
  by (intro bystander.frame_rules certificate_bystander [OF assms] secret_ensure_bystander)

lemma policyTemplate_step:
  "holds (synced w0 g) (policyTemplate su g) (\<lambda>h t. synced w0 h t \<and> (\<exists>s. reports [(GitOpsClusterPolicyTemplateReady, s)] g h))"
  unfolding policyTemplate_def
proof (rule holds_bind [OF bystander_keeps [OF template_bystander]], rule holds_post [OF note_reports(1)])
  show "synced w0 h t \<and> (\<exists>s. reports [(GitOpsClusterPolicyTemplateReady, s)] g h)"
    if "synced w0 h t \<and> reports (statuses [(GitOpsClusterPolicyTemplateReady, u)]) g h" for h t u
    using that by auto
qed simp

lemma authorize_phase: "holds (synced w0 g) (authorizeNamespace su ns g) (phase_post w0 g [])"
  unfolding authorizeNamespace_def
  by (intro holds_bind [OF bystander_keeps [OF reading_bystander [OF authorized_quiet]]] holds_sum fail_shown phase_goOn) simp_all

lemma goOn_reports: "holds (\<lambda>t. synced w0 h t \<and> reports us g h) (goOn h) (phase_post w0 g us)"
  unfolding goOn_def by (rule holds_return) simp

lemma verify_phase: "holds (synced w0 g) (verifyServer su ns annos g) (phase_post w0 g [(GitOpsClusterArgoServerVerified, CTrue)])"
proof -
  have q: "state_io_rel bystander (VerifyArgocdNamespace ns)"
    unfolding VerifyArgocdNamespace_def FindServiceWithLabelsAndNamespace_def by (intro bystander.frame_rules all_bystander)
  have n: "holds (synced w0 g) (noteStatus (updateGitOpsClusterConditions now p m [(GitOpsClusterArgoServerVerified, cond_update CTrue r x)] g))
      (\<lambda>h t. synced w0 h t \<and> reports [(GitOpsClusterArgoServerVerified, CTrue)] g h)" for now p m r x
    by (rule note_as) simp_all
  show ?thesis
    unfolding verifyServer_def
    by (intro holds_bind [OF bystander_keeps [OF q]] holds_if fail_shown holds_bind [OF n] goOn_reports) simp_all
qed

lemma appset_step:
  "holds (synced w0 g) (appsetResources su ns g) (\<lambda>h t. synced w0 h t \<and> (\<exists>s. reports [(GitOpsClusterApplicationSetResourcesReady, s)] g h))"
  unfolding appsetResources_def
proof (rule holds_bind [OF bystander_keeps [OF appset_bystander(1)]], rule holds_bind [OF bystander_keeps [OF appset_bystander(2)]],
    rule holds_post [OF note_reports(1)])
  show "synced w0 h t \<and> (\<exists>s. reports [(GitOpsClusterApplicationSetResourcesReady, s)] g h)"
    if "synced w0 h t \<and> reports (statuses [(GitOpsClusterApplicationSetResourcesReady, u)]) g h" for h t u
    using that by auto
qed simp

lemma resolve_step:
  assumes "gs_placement (gc_spec g) \<noteq> None"
  shows "holds (synced w0 g) (resolvePlacement su g) (ends_or (shown w0 (gkey g)) (\<lambda>cs t. synced w0 g t))"
  using assms unfolding resolvePlacement_def
  by (intro holds_option holds_bind [OF bystander_keeps [OF reading_bystander [OF managed_clusters_quiet]]] holds_sum fail_shown)
     (auto intro: holds_return)

lemma secrets_phase: "holds (synced w0 g) (agentSecrets agent su ns g) (phase_post w0 g [])"
  unfolding agentSecrets_def
  by (intro holds_if phase_goOn phase_step required_step secret_ensure_bystander) simp_all

lemma certificates_phase:
  assumes "issues (su_certs su)" shows "holds (synced w0 g) (agentCertificates agent su g) (phase_post w0 g [])"
  unfolding agentCertificates_def
  by (intro holds_if phase_goOn phase_step required_step certificate_bystander [OF assms]) simp_all

lemma with_server_reports: "reports [] g (with_server addr port g)"
proof -
  have "GetCondition (with_server addr port g) t = GetCondition g t" for t by (simp add: GetCondition_def conditions_def)
  moreover have "gs_placement (gc_spec (with_server addr port g)) = gs_placement (gc_spec g)" by (simp add: with_server_def Let_def)
  moreover have "GetGitOpsAddonStatus (with_server addr port g) = GetGitOpsAddonStatus g"
    "IsOLMSubscriptionEnabled (with_server addr port g) = IsOLMSubscriptionEnabled g"
    by (auto simp: with_server_def Let_def GetGitOpsAddonStatus_def IsOLMSubscriptionEnabled_def empty_addon_def empty_agent_def split: option.splits)
  ultimately show ?thesis
    by (simp add: reports_def same_request_def cond_state_def distinct_conditions_def conditions_def)
qed

lemma update_cluster_synced:
  assumes "gc_status h = gc_status g" and "gc_meta h = gc_meta g"
  shows "holds (synced w0 g) (update_cluster h) (\<lambda>r t. r = Inr h \<and> synced w0 h t)"
proof (rule holdsI)
  fix s r t
  assume s: "synced w0 g s" and run: "run_state (update_cluster h) s = (r, t)"
  have k: "gkey h = gkey g" using assms(2) by (simp add: gkey_def)
  have e: "h\<lparr>gc_status := gc_status g\<rparr> = h" using assms(1) by (cases h) simp
  from run s show "r = Inr h \<and> synced w0 h t"
    by (auto simp: update_cluster_run synced_def k e assms(2) changes_only_def)
qed

lemma discover_step:
  "holds (synced w0 g) (DiscoverServerAddressAndPort g) (\<lambda>p t. synced w0 (fst p) t \<and> reports [] g (fst p))"
  unfolding DiscoverServerAddressAndPort_def
proof (intro holds_if holds_return holds_bind [OF bystander_keeps [OF reading_bystander [OF endpoint_quiet]]] holds_sum holds_prod)
  show "holds (synced w0 g) (update_cluster (with_server a p g) \<bind> (\<lambda>u. State_Monad.return (case u of
      Inl e \<Rightarrow> (with_server a p g, Inl (Wrapped x e)) | Inr new \<Rightarrow> (new, Inr ())))) (\<lambda>p t. synced w0 (fst p) t \<and> reports [] g (fst p))" for a p x
    by (rule holds_bind [OF update_cluster_synced]) (auto intro!: holds_return simp: with_server_reports)
qed (auto simp: reports_refl)

lemma discover_phase: "holds (synced w0 g) (discoverServer agent su g) (phase_post w0 g [])"
proof (cases agent)
  case True
  have one: "holds (\<lambda>t. synced w0 h t \<and> reports [] g h) m (phase_post w0 g [])" if "holds (synced w0 h) m (phase_post w0 h [])" for h m
  proof (cases "reports [] g h")
    case True
    show ?thesis
      by (rule holds_weaken [OF that]) (auto simp: reports_gkey [OF True] split: sum.splits dest: reports_trans [OF True])
  qed (auto intro: holds_impossible)
  show ?thesis
    unfolding discoverServer_def Let_def using True
    by (intro holds_if holds_bind [OF discover_step] holds_prod holds_sum) (auto intro!: one fail_shown phase_goOn holds_if)
qed (simp add: discoverServer_def phase_goOn)

lemma agent_phase:
  assumes "issues (su_certs su)" shows "holds (synced w0 g) (agentPhase agent su ns g) (phase_post w0 g [])"
  unfolding agentPhase_def
  by (intro phase_plain secrets_phase certificates_phase assms discover_phase)

abbreviation template_set where
  "template_set agent \<equiv> if agent then [(GitOpsClusterAddOnTemplateReady, CTrue), (GitOpsClusterGitOpsAddonPrereqsReady, CTrue)] else []"

lemma distinct_prereqs [simp]: "GitOpsClusterAddOnTemplateReady \<noteq> GitOpsClusterGitOpsAddonPrereqsReady"
  by (simp add: condition_type_defs GitOpsClusterGitOpsAddonPrereqsReady_def)

lemma template_phase: "holds (synced w0 g) (ensureTemplate agent su ns g) (phase_post w0 g (template_set agent))"
proof -
  have n: "holds (synced w0 g) (noteUnlessGone (updateGitOpsClusterConditions now p m
      [(GitOpsClusterAddOnTemplateReady, cond_update CTrue r x), (GitOpsClusterGitOpsAddonPrereqsReady, cond_update CTrue r' y)] g))
      (phase_post w0 g [(GitOpsClusterAddOnTemplateReady, CTrue), (GitOpsClusterGitOpsAddonPrereqsReady, CTrue)])" for now p m r x r' y
    by (rule note_as) simp_all
  show ?thesis
  proof (cases agent)
    case True
    then show ?thesis
      unfolding ensureTemplate_def
      by simp (intro holds_bind [OF bystander_keeps [OF appset_bystander(3)]] holds_bind [OF bystander_keeps [OF addon_bystander(2)]]
          holds_sum fail_shown n; simp)
  next
    case False
    have "holds (synced w0 g) (cleanupLegacyOLMAddOnTemplates g \<bind> (\<lambda>u. goOn g)) (phase_post w0 g [])"
      by (rule holds_bind [OF bystander_keeps [OF addon_bystander(1)] phase_goOn])
    with False show ?thesis by (simp add: ensureTemplate_def)
  qed
qed

lemma local_phase: "holds (synced w0 g) (rejectLocalCluster su cs g) (phase_post w0 g [])"
proof -
  let ?u = "[(GitOpsClusterArgoCDPolicyReady, cond_update CFalse ''InvalidConfiguration'' (localClusterSelected g))]"
  let ?h = "updateGitOpsClusterConditions (su_now su 18) ''failed'' (localClusterSelected g) ?u g"
  have "cond_state ?h GitOpsClusterArgoCDPolicyReady = Some CFalse"
    using update_reports [of ?u g] by (simp add: reports_def)
  then have s: "shown w0 (gkey g) (3, Some e) t" if "synced w0 ?h t" for e t
    using that ready_shows_failure unfolding shown_def by (fastforce simp: gkey_def)
  show ?thesis
    unfolding rejectLocalCluster_def
    by (intro holds_if phase_goOn holds_bind [OF note_synced(1)] holds_return) (auto intro: s)
qed

lemma policy_phase: "holds (synced w0 g) (argoCDPolicy su g) (phase_post w0 g [(GitOpsClusterArgoCDPolicyReady, CTrue)])"
proof -
  have n: "holds (synced w0 g) (noteUnlessGone (updateGitOpsClusterConditions now p m [(GitOpsClusterArgoCDPolicyReady, cond_update CTrue r x)] g))
      (phase_post w0 g [(GitOpsClusterArgoCDPolicyReady, CTrue)])"
    "holds (synced w0 g) (noteStatus (updateGitOpsClusterConditions now p m [(GitOpsClusterArgoCDPolicyReady, cond_update CTrue r x)] g))
      (\<lambda>h t. synced w0 h t \<and> reports [(GitOpsClusterArgoCDPolicyReady, CTrue)] g h)" for now p m r x
    by (rule note_as; simp)+
  show ?thesis
    unfolding argoCDPolicy_def
    by (intro holds_bind [OF bystander_keeps [OF argocd_policy_bystander]] holds_sum holds_if n(1) holds_bind [OF n(2)] goOn_reports fail_shown) simp_all
qed

abbreviation addon_set where
  "addon_set \<equiv> [(GitOpsClusterManagedClusterAddOnsReady, CTrue), (GitOpsClusterOLMSubscriptionReady, CTrue),
     (GitOpsClusterAddOnDeploymentConfigsReady, CTrue)]"

lemma addon_types_distinct [simp]:
  "GitOpsClusterManagedClusterAddOnsReady \<noteq> GitOpsClusterOLMSubscriptionReady"
  "GitOpsClusterManagedClusterAddOnsReady \<noteq> GitOpsClusterAddOnDeploymentConfigsReady"
  "GitOpsClusterOLMSubscriptionReady \<noteq> GitOpsClusterAddOnDeploymentConfigsReady"
  by (simp_all add: condition_type_defs)

lemma one_update: "cu_status u = st \<Longrightarrow> reports [(t, st)] g (updateGitOpsClusterConditions now p m [(t, u)] g)"
  using update_reports [of "[(t, u)]" g] by simp

lemma addonConditions_reports:
  "\<exists>s. reports [(GitOpsClusterManagedClusterAddOnsReady, if ar_addons acc \<noteq> [] then CFalse else CTrue),
      (GitOpsClusterOLMSubscriptionReady, s), (GitOpsClusterAddOnDeploymentConfigsReady, if ar_configs acc \<noteq> [] then CFalse else CTrue)]
      g (addonConditions su acc g) \<and> (ar_configs acc = [] \<longrightarrow> s = CTrue)"
proof -
  define olm where "olm h = (if \<not> IsOLMSubscriptionEnabled h then cond_update CTrue ''NotRequired'' ''OLM passthrough not required''
      else if ar_configs acc \<noteq> [] then cond_update CFalse ''ConfigCreationFailed''
        ''OLM subscription config could not be delivered to all managed clusters''
      else cond_update CTrue ''Success'' ''OLM subscription configuration delivered to managed clusters via AddOnDeploymentConfig'')"
    for h
  define g1 where "g1 = updateGitOpsClusterConditions (su_now su 22) [] []
            [(GitOpsClusterAddOnDeploymentConfigsReady,
              if ar_configs acc \<noteq> [] then cond_update CFalse ''ConfigCreationFailed''
                (''Failed to create AddOnDeploymentConfig for clusters: '' @ join_with '', '' (ar_configs acc))
              else cond_update CTrue ''Success''
                (''Successfully created AddOnDeploymentConfigs for '' @ counted (ar_count acc) @ '' managed clusters''))] g"
  have o: "ar_configs acc = [] \<Longrightarrow> cu_status (olm g1) = CTrue" by (simp add: olm_def)
  have c: "reports [(GitOpsClusterAddOnDeploymentConfigsReady, if ar_configs acc \<noteq> [] then CFalse else CTrue)] g g1"
    unfolding g1_def by (rule one_update) simp
  have "reports ([(GitOpsClusterManagedClusterAddOnsReady, if ar_addons acc \<noteq> [] then CFalse else CTrue)] @
      ([(GitOpsClusterOLMSubscriptionReady, cu_status (olm g1))] @
       [(GitOpsClusterAddOnDeploymentConfigsReady, if ar_configs acc \<noteq> [] then CFalse else CTrue)])) g (addonConditions su acc g)"
    unfolding addonConditions_def Let_def olm_def [symmetric] g1_def [symmetric]
    by (rule reports_trans [OF reports_trans [OF c one_update [OF refl]] one_update]) simp
  with o show ?thesis unfolding append_Cons append_Nil by blast
qed

lemma addonConditions_failed:
  assumes "ar_configs acc \<noteq> [] \<or> ar_addons acc \<noteq> []"
  shows "cond_state (addonConditions su acc g) GitOpsClusterReady = Some CFalse"
proof -
  let ?h = "addonConditions su acc g"
  have r: "\<exists>p us h'. ?h = updateGitOpsClusterConditions (su_now su 24) [] [] us h'" by (auto simp: addonConditions_def Let_def)
  from addonConditions_reports [of acc g su] assms
  have "cond_state ?h GitOpsClusterAddOnDeploymentConfigsReady = Some CFalse \<or> cond_state ?h GitOpsClusterManagedClusterAddOnsReady = Some CFalse"
    by (auto simp: reports_def addon_types_distinct [symmetric])
  with r show ?thesis using ready_shows_failure types_not_ready(7,8) by metis
qed

lemma addonConditions_frame: "gc_spec (addonConditions su acc g) = gc_spec g" "gc_meta (addonConditions su acc g) = gc_meta g"
  by (simp_all add: addonConditions_def Let_def)

lemma clusterAddons_phase: "holds (synced w0 g) (clusterAddons agent su cs g) (phase_post w0 g addon_set)"
proof -
  have img: "state_io_rel bystander (if agent then do { h \<leftarrow> HealAgentVersionDrift g;
      State_Monad.return (case h of Inl e \<Rightarrow> [] | Inr i \<Rightarrow> i) } else State_Monad.return [])"
    by (intro bystander.frame_rules addon_bystander)
  have loop: "state_io_rel bystander (loopM (ensureClusterAddon su g i) acc cs)" for i acc
    unfolding ensureClusterAddon_def by (intro bystander.frame_rules addon_bystander)
  have fin: "holds (synced w0 g) (andThen (noteUnlessGone (addonConditions su acc g)) (\<lambda>h.
      if ar_configs acc \<noteq> [] \<or> ar_addons acc \<noteq> [] then State_Monad.return (Inl (3, Some (ErrText x))) else goOn h)) (phase_post w0 g addon_set)"
    for acc x
  proof (cases "ar_configs acc \<noteq> [] \<or> ar_addons acc \<noteq> []")
    case True
    have "holds (synced w0 g) (andThen (noteUnlessGone (addonConditions su acc g)) (\<lambda>h. State_Monad.return (Inl (3, Some (ErrText x))))) (phase_post w0 g addon_set)"
    proof (rule holds_andThen [where R = "\<lambda>h t. h = addonConditions su acc g \<and> synced w0 h t"])
      show "holds (synced w0 g) (noteUnlessGone (addonConditions su acc g))
          (ends_or (shown w0 (gkey g)) (\<lambda>h t. h = addonConditions su acc g \<and> synced w0 h t))"
        by (rule holds_post [OF note_synced(3)]) (auto simp: addonConditions_frame)
      show "holds (\<lambda>t. h = addonConditions su acc g \<and> synced w0 h t) (State_Monad.return (Inl (3, Some (ErrText x)))) (phase_post w0 g addon_set)" for h
        using addonConditions_failed [OF True] by (intro holds_return) (auto simp: shown_def gkey_def addonConditions_frame)
    qed
    with True show ?thesis by simp
  next
    case False
    have "holds (synced w0 g) (andThen (noteUnlessGone (addonConditions su acc g)) goOn) (phase_post w0 g addon_set)"
    proof (rule holds_andThen [where R = "\<lambda>h t. synced w0 h t \<and> reports addon_set g h"])
      from addonConditions_reports [of acc g su] False have "reports addon_set g (addonConditions su acc g)" by auto
      then show "holds (synced w0 g) (noteUnlessGone (addonConditions su acc g)) (phase_post w0 g addon_set)"
        by (intro holds_post [OF note_synced(3)]) (auto simp: addonConditions_frame)
    qed (rule goOn_reports)
    with False show ?thesis by simp
  qed
  show ?thesis
    unfolding clusterAddons_def
    by (intro holds_bind [OF bystander_keeps [OF img]] holds_bind [OF bystander_keeps [OF loop]] fin)
qed

abbreviation addon_reports where
  "addon_reports addon agent \<equiv> if addon then addon_set @ (GitOpsClusterArgoCDPolicyReady, CTrue) # template_set agent else []"

lemma addon_phase: "holds (synced w0 g) (addonPhase addon agent su ns cs g) (phase_post w0 g (addon_reports addon agent))"
proof (cases addon)
  case True
  have "holds (synced w0 g) (andThen (ensureTemplate agent su ns g) (\<lambda>g. andThen (rejectLocalCluster su cs g) (\<lambda>g.
      andThen (argoCDPolicy su g) (clusterAddons agent su cs))))
    (phase_post w0 g (((addon_set @ [(GitOpsClusterArgoCDPolicyReady, CTrue)]) @ []) @ template_set agent))"
    by (intro phase_andThen template_phase local_phase policy_phase clusterAddons_phase)
  moreover have "addon_reports addon agent = (((addon_set @ [(GitOpsClusterArgoCDPolicyReady, CTrue)]) @ []) @ template_set agent)"
    using True by simp
  moreover have "addonPhase addon agent su ns cs g = andThen (ensureTemplate agent su ns g) (\<lambda>g. andThen (rejectLocalCluster su cs g) (\<lambda>g.
      andThen (argoCDPolicy su g) (clusterAddons agent su cs)))"
    using True by (simp add: addonPhase_def)
  ultimately show ?thesis by (simp only:)
qed (simp add: addonPhase_def phase_goOn)

lemma ca_again_phase:
  assumes "issues (su_certs su)" shows "holds (synced w0 g) (ensureCAAgain agent su g) (phase_post w0 g [])"
  unfolding ensureCAAgain_def
  by (intro holds_if phase_goOn phase_step required_step certificate_bystander [OF assms]) simp_all

lemma propagate_phase: "holds (synced w0 g) (propagateCA p su cs g) (phase_post w0 g [])"
  unfolding propagateCA_def
  by (intro holds_if phase_goOn phase_step required_step register_bystander) simp_all

abbreviation register_reports where
  "register_reports agent \<equiv> if agent then [(GitOpsClusterClustersRegistered, CTrue)] else []"

lemma register_phase:
  "holds (synced w0 g) (registerPhase agent su blank cs orph g) (\<lambda>p. phase_post w0 g (register_reports agent) (snd p))"
proof -
  have n: "holds (synced w0 g) (noteStatus (updateGitOpsClusterConditions now p m [(GitOpsClusterClustersRegistered, cond_update CTrue r x)] g))
      (\<lambda>h t. synced w0 h t \<and> reports [(GitOpsClusterClustersRegistered, CTrue)] g h)" for now p m r x
    by (rule note_as) simp_all
  have a: "holds (synced w0 g) (registerAgents su cs orph g) (\<lambda>p. phase_post w0 g [(GitOpsClusterClustersRegistered, CTrue)] (snd p))"
    unfolding registerAgents_def Let_def
    by (intro holds_bind [OF bystander_keeps [OF register_bystander(2)]] holds_prod
        holds_bind [where R = "phase_post w0 g [(GitOpsClusterClustersRegistered, CTrue)]"] holds_sum holds_return
        holds_bind [OF n] goOn_reports fail_shown) simp_all
  have c: "holds (synced w0 g) (registerClusters su blank cs orph g) (\<lambda>p. phase_post w0 g [] (snd p))"
    unfolding registerClusters_def Let_def
    by (intro holds_bind [OF bystander_keeps [OF register_bystander(1)]] holds_prod
        holds_bind [where R = "phase_post w0 g []"] holds_option holds_return phase_goOn fail_shown) simp_all
  from a c show ?thesis by (cases agent) (simp_all add: registerPhase_def)
qed

section \<open>The whole reconcile when nothing is rejected\<close>

definition final_statuses :: "bool \<Rightarrow> bool \<Rightarrow> (string \<times> cond_status) list" where
  "final_statuses addon agent = statuses (finalUpdates addon agent False 0)"

lemma final_statuses: "statuses (finalUpdates addon agent propagate n) = final_statuses addon agent"
  by (simp add: final_statuses_def finalUpdates_def not_required_def)

lemma finalUpdates_distinct: "distinct (map fst (finalUpdates addon agent propagate n))"
  by (cases addon; cases agent) (simp_all add: finalUpdates_def condition_type_defs GitOpsClusterGitOpsAddonPrereqsReady_def)

text \<open>The same but for Ready and the two conditions that the reconcile may leave False without ending.\<close>

definition tells :: "(string \<times> cond_status) list \<Rightarrow> gitops_cluster \<Rightarrow> gitops_cluster \<Rightarrow> bool" where
  "tells us g h \<longleftrightarrow> same_request g h \<and>
     (\<forall>t. t \<notin> {GitOpsClusterReady, GitOpsClusterApplicationSetResourcesReady, GitOpsClusterPolicyTemplateReady} \<longrightarrow>
       cond_state h t = (case map_of us t of Some s \<Rightarrow> Some s | None \<Rightarrow> cond_state g t))"

lemma reports_tells: "reports us g h \<Longrightarrow> tells us g h"
  by (auto simp: reports_def tells_def)

lemma tells_other:
  "tells us g h \<Longrightarrow> t \<notin> {GitOpsClusterReady, GitOpsClusterApplicationSetResourcesReady, GitOpsClusterPolicyTemplateReady} \<Longrightarrow>
    map_of us t = None \<Longrightarrow> cond_state h t = cond_state g t"
  by (simp add: tells_def)

lemma tells_request: "tells us g h \<Longrightarrow> same_request g h"
  by (simp add: tells_def)

lemma tells_trans: "tells us g h \<Longrightarrow> tells vs h k \<Longrightarrow> tells (vs @ us) g k"
  by (auto simp: tells_def same_request_def map_add_def split: option.splits)

lemma tells_side: "\<exists>s. reports [(t, s)] g h \<Longrightarrow> t \<in> {GitOpsClusterApplicationSetResourcesReady, GitOpsClusterPolicyTemplateReady} \<Longrightarrow> tells [] g h"
  by (auto simp: reports_def tells_def)

lemma tells_gkey: "tells us g h \<Longrightarrow> gkey h = gkey g"
  by (simp add: tells_def same_request_def gkey_def)

abbreviation tell_post where
  "tell_post w0 g us \<equiv> ends_or (shown w0 (gkey g)) (\<lambda>h t. synced w0 h t \<and> tells us g h)"

lemma phase_tells: "holds P m (phase_post w0 g us) \<Longrightarrow> holds P m (tell_post w0 g us)"
  by (erule holds_post) (auto split: sum.splits intro: reports_tells)

lemma tells_weaken:
  assumes "tells us g h" and "holds (synced w0 h) m (tell_post w0 h vs)" shows "holds (synced w0 h) m (tell_post w0 g (vs @ us))"
  by (rule holds_post [OF assms(2)]) (auto simp: tells_gkey [OF assms(1)] split: sum.splits intro: tells_trans [OF assms(1)])

lemma assuming: "(A \<Longrightarrow> holds P m Q) \<Longrightarrow> holds (\<lambda>t. P t \<and> A) m Q"
  by (auto simp: holds_def)

lemma tell_bind:
  assumes "holds (synced w0 g) m (\<lambda>h t. synced w0 h t \<and> tells us g h)" and "\<And>h. tells us g h \<Longrightarrow> holds (synced w0 h) (f h) (tell_post w0 h vs)"
  shows "holds (synced w0 g) (m \<bind> f) (tell_post w0 g (vs @ us))"
  by (intro holds_bind [OF assms(1)] assuming tells_weaken assms(2))

lemma tell_andThen:
  assumes "holds (synced w0 g) m (tell_post w0 g us)" and "\<And>h. tells us g h \<Longrightarrow> holds (synced w0 h) (f h) (tell_post w0 h vs)"
  shows "holds (synced w0 g) (andThen m f) (tell_post w0 g (vs @ us))"
  by (intro holds_andThen [OF assms(1)] assuming tells_weaken assms(2))

text \<open>The conditions that the initialisation adds are Unknown.\<close>

definition initialised :: "gitops_cluster \<Rightarrow> gitops_cluster \<Rightarrow> bool" where
  "initialised g h \<longleftrightarrow> same_request g h \<and> (\<forall>t s. cond_state h t = Some s \<longrightarrow> s = CUnknown \<or> cond_state g t = Some s)"

lemma initializeConditions_frame:
  "gc_spec (initializeConditions now g) = gc_spec g" "gc_meta (initializeConditions now g) = gc_meta g"
proof -
  have "gc_spec (fold (initializeCondition now) ts h) = gc_spec h \<and> gc_meta (fold (initializeCondition now) ts h) = gc_meta h" for ts h
    by (induction ts arbitrary: h) (simp_all add: initializeCondition_def SetCondition_def)
  then show "gc_spec (initializeConditions now g) = gc_spec g" "gc_meta (initializeConditions now g) = gc_meta g"
    by (simp_all add: initializeConditions_def)
qed

lemma start_phase: "holds (synced w0 g) (startReconcile su g) (ends_or (shown w0 (gkey g)) (\<lambda>h t. synced w0 h t \<and> initialised g h))"
proof -
  let ?h = "initializeConditions (su_now su 0) g"
  have f: "gc_spec ?h = gc_spec g" "gc_meta ?h = gc_meta g" by (rule initializeConditions_frame)+
  have "initialised g ?h"
    by (auto simp: initialised_def flags_cong f cond_state_def initializeConditions_lookup split: if_splits option.splits)
  then show ?thesis unfolding startReconcile_def by (intro holds_post [OF note_synced(3)] f) auto
qed

lemma initialised_request: "initialised g h \<Longrightarrow> same_request g h"
  by (simp add: initialised_def)

text \<open>The end of a reconcile that succeeded.\<close>

definition finished :: "world \<Rightarrow> (string \<times> cond_status) list \<Rightarrow> gitops_cluster \<Rightarrow> outcome \<Rightarrow> world \<Rightarrow> bool" where
  "finished w0 us g out t \<longleftrightarrow> out = (0, None) \<and>
     (\<exists>h. synced w0 h t \<and> tells us g h \<and> st_phase (gc_status h) = ''successful'' \<and>
          cond_state h GitOpsClusterReady = Some (ready_spec h))"

lemma finished_weaken: "finished w0 vs h out t \<Longrightarrow> tells us g h \<Longrightarrow> finished w0 (vs @ us) g out t"
  unfolding finished_def using tells_trans by blast

lemma update_phase: "st_phase (gc_status (updateGitOpsClusterConditions now ''successful'' m us g)) = ''successful''"
proof -
  have "st_phase (gc_status (fold (apply_update now) us h)) = st_phase (gc_status h)" for h
    by (induction us arbitrary: h) (simp_all add: apply_update_def SetCondition_def with_conditions_def split: prod.splits)
  then show ?thesis
    by (simp add: updateGitOpsClusterConditions_def updateReadyCondition_def SetCondition_def with_conditions_def Let_def)
qed

lemma finish_run:
  "holds (synced w0 g) (finishReconcile addon agent propagate su ns cs g) (finished w0 (final_statuses addon agent) g)"
proof -
  let ?h = "updateGitOpsClusterConditions (su_now su 30) ''successful'' (successMessage ns cs) (finalUpdates addon agent propagate (length cs)) g"
  have "tells (final_statuses addon agent) g ?h"
    using reports_tells [OF update_reports [OF finalUpdates_distinct]] unfolding final_statuses .
  then show ?thesis
    unfolding finishReconcile_def
    by (intro holds_bind [OF note_synced(1)] holds_return) (auto simp: finished_def update_phase ready_is_spec)
qed

text \<open>The reconcile as a whole either shows its failure or finishes; a phase that ends early leaves the rest undone.\<close>

abbreviation settles where
  "settles w0 g us \<equiv> \<lambda>p t. shown w0 (gkey g) (snd p) t \<or> finished w0 us g (snd p) t"

lemma settle_case:
  assumes "\<And>h. r = Inr h \<Longrightarrow> tells us g h \<Longrightarrow> holds (synced w0 h) (f h) (settles w0 h vs)"
  shows "holds (tell_post w0 g us r) (case r of Inl out \<Rightarrow> State_Monad.return (orph, out) | Inr h \<Rightarrow> f h) (settles w0 g (vs @ us))"
proof (rule holds_sum)
  fix h assume r: "r = Inr h"
  have "holds (synced w0 h) (f h) (settles w0 g (vs @ us))" if "tells us g h"
    by (rule holds_post [OF assms [OF r that]]) (use tells_gkey [OF that] finished_weaken [OF _ that] in auto)
  then show "holds (tell_post w0 g us r) (f h) (settles w0 g (vs @ us))"
    unfolding r by (auto intro: assuming)
qed (auto intro: holds_return)

lemma settle_andThen:
  assumes "holds (synced w0 g) m (tell_post w0 g us)" and "\<And>h. tells us g h \<Longrightarrow> holds (synced w0 h) (f h) (settles w0 h vs)"
  shows "holds (synced w0 g) (m \<bind> (\<lambda>r. case r of Inl out \<Rightarrow> State_Monad.return (orph, out) | Inr h \<Rightarrow> f h)) (settles w0 g (vs @ us))"
  by (intro holds_bind [OF assms(1)] settle_case assms(2))

lemma settle_pair:
  assumes "holds (synced w0 g) m (\<lambda>p. tell_post w0 g us (snd p))"
    and "\<And>orph h. tells us g h \<Longrightarrow> holds (synced w0 h) (f orph h) (settles w0 h vs)"
  shows "holds (synced w0 g) (m \<bind> (\<lambda>(orph, r). case r of Inl out \<Rightarrow> State_Monad.return (orph, out) | Inr h \<Rightarrow> f orph h))
    (settles w0 g (vs @ us))"
proof (rule holds_bind [OF assms(1)], clarify)
  fix orph and r :: "outcome + gitops_cluster"
  show "holds (tell_post w0 g us (snd (orph, r))) (case r of Inl out \<Rightarrow> State_Monad.return (orph, out) | Inr h \<Rightarrow> f orph h) (settles w0 g (vs @ us))"
    unfolding snd_conv by (intro settle_case assms(2))
qed

lemma register_tells: "holds (synced w0 g) (registerPhase agent su blank cs orph g) (\<lambda>p. tell_post w0 g (register_reports agent) (snd p))"
  by (rule holds_post [OF register_phase]) (auto split: sum.splits intro: reports_tells)

lemma last_phases:
  assumes "issues (su_certs su)"
  shows "holds (synced w0 g) (lastPhases addon agent su ns cs orph g)
    (settles w0 g (((final_statuses addon agent @ []) @ register_reports agent) @ ([] @ addon_reports addon agent)))"
proof -
  have fin: "holds (synced w0 h) (finishReconcile addon agent p su ns cs h \<bind> (\<lambda>out. State_Monad.return (orph', out)))
      (settles w0 h (final_statuses addon agent))" for h p orph'
    by (rule holds_bind [OF finish_run]) (auto intro: holds_return)
  show ?thesis
    unfolding lastPhases_def Let_def
    by (intro settle_andThen tell_andThen phase_tells [OF addon_phase] phase_tells [OF ca_again_phase [OF assms]]
        settle_pair register_tells phase_tells [OF propagate_phase] fin)
qed

lemma checks_phase:
  assumes "issues (su_certs su)"
  shows "holds (synced w0 g) (checksPhase su ns g) (ends_or (shown w0 (gkey g))
    (\<lambda>h t. synced w0 h t \<and> (\<exists>g'. initialised g g' \<and> tells [(GitOpsClusterArgoServerVerified, CTrue)] g' h)))"
proof -
  have pol: "holds (synced w0 h) (policyTemplate su h) (\<lambda>k t. synced w0 k t \<and> tells [] h k)" for h
    by (rule holds_post [OF policyTemplate_step]) (auto intro: tells_side)
  have rest: "holds (synced w0 h) (andThen (validateSpec su h) (\<lambda>g. earlyCertificates su g \<bind> (\<lambda>u. policyTemplate su g \<bind>
      (\<lambda>h. andThen (authorizeNamespace su ns h) (verifyServer su ns (m_annos (gc_meta g)))))))
    (tell_post w0 h (((([(GitOpsClusterArgoServerVerified, CTrue)] @ []) @ [])) @ []))" for h
    by (intro tell_andThen phase_tells [OF validate_phase] holds_bind [OF bystander_keeps [OF early_keeps [OF assms]]]
        tell_bind [OF pol] phase_tells [OF authorize_phase] phase_tells [OF verify_phase])
  have k: "gkey h = gkey g" if "initialised g h" for h
    using initialised_request [OF that] by (simp add: same_request_def gkey_def)
  show ?thesis
    unfolding checksPhase_def
    by (rule holds_andThen [OF start_phase], rule assuming, rule holds_post [OF rest])
       (auto simp: k split: sum.splits)
qed

abbreviation work_reports where
  "work_reports addon agent \<equiv> ((final_statuses addon agent @ []) @ register_reports agent) @ ([] @ addon_reports addon agent)"

text \<open>From the ApplicationSet resources on.\<close>

lemma work_phases:
  assumes lib: "issues (su_certs su)" and ref: "gs_placement (gc_spec g) \<noteq> None" and flags: "GetGitOpsAddonStatus g = (addon, agent)"
  shows "holds (synced w0 g) (appsetResources su ns g \<bind> (\<lambda>g. resolvePlacement su g \<bind> (\<lambda>l.
      case l of Inl out \<Rightarrow> State_Monad.return (orph, out)
      | Inr cs \<Rightarrow> (case GetGitOpsAddonStatus g of (addon, agent) \<Rightarrow> agentPhase agent su ns g \<bind> (\<lambda>a.
          case a of Inl out \<Rightarrow> State_Monad.return (orph, out) | Inr g \<Rightarrow> lastPhases addon agent su ns cs orph g)))))
    (settles w0 g (work_reports addon agent))"
proof -
  have one: "holds (synced w0 h) (resolvePlacement su h \<bind> (\<lambda>l.
      case l of Inl out \<Rightarrow> State_Monad.return (orph, out)
      | Inr cs \<Rightarrow> (case GetGitOpsAddonStatus h of (addon, agent) \<Rightarrow> agentPhase agent su ns h \<bind> (\<lambda>a.
          case a of Inl out \<Rightarrow> State_Monad.return (orph, out) | Inr g \<Rightarrow> lastPhases addon agent su ns cs orph g))))
    (settles w0 h (work_reports addon agent @ []))" if t: "tells [] g h" for h
  proof (rule holds_bind [OF resolve_step], goal_cases)
    case 1
    then show ?case using ref tells_request [OF t] by (simp add: same_request_def)
  next
    case (2 l)
    have f: "GetGitOpsAddonStatus h = (addon, agent)" using flags tells_request [OF t] by (simp add: same_request_def)
    have "holds (synced w0 h) (agentPhase agent su ns h \<bind> (\<lambda>a.
          case a of Inl out \<Rightarrow> State_Monad.return (orph, out) | Inr g \<Rightarrow> lastPhases addon agent su ns cs orph g))
        (settles w0 h (work_reports addon agent @ []))" for cs
      by (intro settle_andThen phase_tells [OF agent_phase [OF lib]] last_phases [OF lib])
    then show ?case unfolding f by (cases l) (auto intro: holds_return)
  qed
  have "holds (synced w0 g) (appsetResources su ns g) (\<lambda>h t. synced w0 h t \<and> tells [] g h)"
    by (rule holds_post [OF appset_step]) (auto intro: tells_side)
  then show ?thesis
  proof (rule holds_bind, intro assuming)
    fix h assume t: "tells [] g h"
    from one [OF t] show "holds (synced w0 h) (resolvePlacement su h \<bind> (\<lambda>l.
      case l of Inl out \<Rightarrow> State_Monad.return (orph, out)
      | Inr cs \<Rightarrow> (case GetGitOpsAddonStatus h of (addon, agent) \<Rightarrow> agentPhase agent su ns h \<bind> (\<lambda>a.
          case a of Inl out \<Rightarrow> State_Monad.return (orph, out) | Inr g \<Rightarrow> lastPhases addon agent su ns cs orph g))))
      (settles w0 g (work_reports addon agent))"
      unfolding append_Nil2
      by (rule holds_post) (use tells_gkey [OF t] finished_weaken [OF _ t] in auto)
  qed
qed

lemma reconcile_settles:
  assumes "issues (su_certs su)" and "gs_placement (gc_spec g) \<noteq> None" and "GetGitOpsAddonStatus g = (addon, agent)"
  shows "holds (synced w0 g) (reconcileGitOpsCluster su g orph) (\<lambda>p t. shown w0 (gkey g) (snd p) t \<or>
    (\<exists>g'. initialised g g' \<and> finished w0 (work_reports addon agent @ [(GitOpsClusterArgoServerVerified, CTrue)]) g' (snd p) t))"
    (is "holds _ _ ?Q")
proof -
  let ?ns = "GetEffectiveArgoNamespace g"
  have go: "holds (synced w0 h) (appsetResources su ?ns h \<bind> (\<lambda>g. resolvePlacement su g \<bind> (\<lambda>l.
      case l of Inl out \<Rightarrow> State_Monad.return (orph, out)
      | Inr cs \<Rightarrow> (case GetGitOpsAddonStatus g of (addon, agent) \<Rightarrow> agentPhase agent su ?ns g \<bind> (\<lambda>a.
          case a of Inl out \<Rightarrow> State_Monad.return (orph, out) | Inr g \<Rightarrow> lastPhases addon agent su ?ns cs orph g))))) ?Q"
    if i: "initialised g g'" and t: "tells [(GitOpsClusterArgoServerVerified, CTrue)] g' h" for g' h
  proof (rule holds_post [OF work_phases [OF assms(1)]])
    have s: "same_request g h" using initialised_request [OF i] tells_request [OF t] by (simp add: same_request_def)
    then show "gs_placement (gc_spec h) \<noteq> None" "GetGitOpsAddonStatus h = (addon, agent)"
      using assms(2,3) by (simp_all add: same_request_def)
    fix p :: "orphans \<times> outcome" and w assume "shown w0 (gkey h) (snd p) w \<or> finished w0 (work_reports addon agent) h (snd p) w"
    moreover have "gkey h = gkey g" using s by (simp add: same_request_def gkey_def)
    ultimately show "?Q p w" using i finished_weaken [OF _ t] by (metis (no_types))
  qed
  show ?thesis
    unfolding reconcileGitOpsCluster_def Let_def
  proof (rule holds_bind [OF checks_phase [OF assms(1)]], rule holds_sum)
    fix c :: "outcome + gitops_cluster" and h assume c: "c = Inr h"
    show "holds (ends_or (shown w0 (gkey g)) (\<lambda>h t. synced w0 h t \<and> (\<exists>g'. initialised g g' \<and> tells [(GitOpsClusterArgoServerVerified, CTrue)] g' h)) c)
      (appsetResources su ?ns h \<bind> (\<lambda>g. resolvePlacement su g \<bind> (\<lambda>l.
      case l of Inl out \<Rightarrow> State_Monad.return (orph, out)
      | Inr cs \<Rightarrow> (case GetGitOpsAddonStatus g of (addon, agent) \<Rightarrow> agentPhase agent su ?ns g \<bind> (\<lambda>a.
          case a of Inl out \<Rightarrow> State_Monad.return (orph, out) | Inr g \<Rightarrow> lastPhases addon agent su ?ns cs orph g))))) ?Q"
      unfolding c sum.case by (rule assuming) (use go in blast)
  qed (auto intro: holds_return)
qed

section \<open>What a reconcile leaves in the status\<close>

text \<open>The conditions that a reconcile without an error leaves True.\<close>

definition settled_types :: "bool \<Rightarrow> bool \<Rightarrow> string list" where
  "settled_types addon agent =
     [GitOpsClusterPlacementResolved, GitOpsClusterArgoServerVerified, GitOpsClusterClustersRegistered,
      GitOpsClusterAddOnDeploymentConfigsReady, GitOpsClusterManagedClusterAddOnsReady,
      GitOpsClusterArgoCDAgentPrereqsReady, GitOpsClusterCertificatesReady, GitOpsClusterManifestWorksApplied] @
     (if agent \<and> \<not> addon then []
      else [GitOpsClusterArgoCDPolicyReady, GitOpsClusterOLMSubscriptionReady, GitOpsClusterAddOnTemplateReady,
            GitOpsClusterGitOpsAddonPrereqsReady])"

abbreviation all_reports where
  "all_reports addon agent \<equiv> work_reports addon agent @ [(GitOpsClusterArgoServerVerified, CTrue)]"

lemma settled_reports:
  "t \<in> set (settled_types addon agent) \<Longrightarrow> map_of (all_reports addon agent) t = Some CTrue"
  "agent \<Longrightarrow> \<not> addon \<Longrightarrow> map_of (all_reports addon agent) GitOpsClusterAddOnTemplateReady = None"
  "t \<in> set (settled_types addon agent) \<Longrightarrow>
     t \<notin> {GitOpsClusterReady, GitOpsClusterApplicationSetResourcesReady, GitOpsClusterPolicyTemplateReady}"
  by (cases addon; cases agent; auto simp: settled_types_def final_statuses_def finalUpdates_def not_required_def
      condition_type_defs GitOpsClusterGitOpsAddonPrereqsReady_def)+

lemma reconcile_run:
  assumes "calm w" "issues (su_certs su)" "map_of (w_gitops w) (gkey g) = Some g" "m_name (gc_meta g) \<noteq> []" "gs_placement (gc_spec g) \<noteq> None"
    and "run_state (reconcileGitOpsCluster su g orph) w = ((orph', n, err), t)"
  shows "shown w (gkey g) (n, err) t \<or>
    (\<exists>g'. initialised g g' \<and> finished w (all_reports (addonEnabled g) (agentEnabled g)) g' (n, err) t)"
proof -
  have "synced w g w" using assms(1,3,4) by (simp add: synced_def changes_only_def)
  moreover have "GetGitOpsAddonStatus g = (addonEnabled g, agentEnabled g)" by simp
  ultimately show ?thesis using holdsD [OF reconcile_settles [OF assms(2,5)] assms(6)] by (metis snd_conv)
qed

lemma condition_true_iff: "IsConditionTrue h t \<longleftrightarrow> cond_state h t = Some CTrue"
  by (auto simp: IsConditionTrue_def cond_state_def split: option.splits)


text \<open>
  an Argo CD agent without the addon never makes Ready true: the condition AddOnTemplateReady is required when the agent is enabled,
  initialised as Unknown, and set only by the phase of the addon.
\<close>
theorem agent_without_addon_not_ready:
  assumes "calm w" "issues (su_certs su)" "map_of (w_gitops w) (gkey g) = Some g" "m_name (gc_meta g) \<noteq> []" "gs_placement (gc_spec g) \<noteq> None"
    and "agentEnabled g" "\<not> addonEnabled g" "\<not> IsConditionTrue g GitOpsClusterAddOnTemplateReady"
  shows "\<exists>h. map_of (w_gitops (snd (run_state (reconcileGitOpsCluster su g orph) w))) (gkey g) = Some h \<and>
    \<not> IsConditionTrue h GitOpsClusterReady"
proof -
  obtain orph' n err t where run: "run_state (reconcileGitOpsCluster su g orph) w = ((orph', n, err), t)"
    by (metis surj_pair)
  from reconcile_run [OF assms(1-5) run]
  show ?thesis
  proof (elim disjE exE conjE)
    assume "shown w (gkey g) (n, err) t"
    then show ?thesis by (auto simp: shown_def synced_def run condition_true_iff)
  next
    fix g' assume i: "initialised g g'" and "finished w (all_reports (addonEnabled g) (agentEnabled g)) g' (n, err) t"
    then obtain h where h: "synced w h t" "tells (all_reports (addonEnabled g) (agentEnabled g)) g' h"
      "cond_state h GitOpsClusterReady = Some (ready_spec h)" by (auto simp: finished_def)
    have r: "same_request g h" using tells_request [OF h(2)] initialised_request [OF i] by (simp add: same_request_def)
    have "GitOpsClusterAddOnTemplateReady \<notin> {GitOpsClusterReady, GitOpsClusterApplicationSetResourcesReady, GitOpsClusterPolicyTemplateReady}"
      by (simp add: condition_type_defs)
    then have "cond_state h GitOpsClusterAddOnTemplateReady = cond_state g' GitOpsClusterAddOnTemplateReady"
      using tells_other [OF h(2) _ settled_reports(2) [OF assms(6,7)]] by blast
    then have "\<not> IsConditionTrue h GitOpsClusterAddOnTemplateReady"
      using i assms(8) unfolding initialised_def condition_true_iff by auto
    moreover have "GitOpsClusterAddOnTemplateReady \<in> set (criticalConditions h)"
      using r assms(6) by (simp add: criticalConditions_def same_request_def)
    ultimately have "ready_spec h \<noteq> CTrue" by (auto simp: ready_spec_def)
    with h(1,3) r show ?thesis by (auto simp: synced_def run condition_true_iff same_request_def gkey_def)
  qed
qed

section \<open>Witnesses\<close>

definition plain_surroundings :: surroundings where
  "plain_surroundings = \<lparr>su_now = (\<lambda>_. ''now''), su_certs = listing_lib, su_agents = plain_lib, su_draws = (\<lambda>_. fixed_draw),
     su_jwt = (\<lambda>_. Inr ''KEY''), su_yaml = (\<lambda>_. Inl (ErrText ''no parser'')), su_env = (\<lambda>_. []), su_visit = (\<lambda>m. m), su_net = sample_net\<rparr>"

text \<open>A GitOpsCluster with the agent and without the addon, alone in the cluster.\<close>

definition agent_only :: gitops_cluster where
  "agent_only = sample_gitops\<lparr>gc_spec := (gc_spec sample_gitops)\<lparr>gs_addon :=
     Some \<lparr>ad_enabled = None, ad_operator_image = [], ad_agent = Some sample_agent, ad_override = None, ad_olm = None\<rparr>\<rparr>\<rparr>"

definition requested_world :: world where
  "requested_world = empty_world\<lparr>w_gitops := [((''team'', ''gc''), agent_only)]\<rparr>"

lemma requested_facts:
  "calm requested_world" "issues (su_certs plain_surroundings)" "map_of (w_gitops requested_world) (gkey agent_only) = Some agent_only"
  "m_name (gc_meta agent_only) \<noteq> []" "gs_placement (gc_spec agent_only) \<noteq> None" "gkey agent_only = (''team'', ''gc'')"
  "agentEnabled agent_only" "\<not> addonEnabled agent_only" "\<not> IsConditionTrue agent_only t" "GetEffectiveArgoNamespace agent_only = ''argo''"
  by (simp_all add: requested_world_def empty_world_def plain_surroundings_def listing_lib_issues agent_only_def sample_gitops_def gkey_def
      GetGitOpsAddonStatus_def sample_agent_def IsConditionTrue_def GetCondition_def conditions_def GetEffectiveArgoNamespace_def)


theorem agent_without_addon_not_ready_witness:
  "\<exists>h. map_of (w_gitops (snd (run_state (reconcileGitOpsCluster plain_surroundings agent_only []) requested_world))) (''team'', ''gc'') = Some h \<and>
    \<not> IsConditionTrue h GitOpsClusterReady"
  using agent_without_addon_not_ready [OF requested_facts(1-5,7-9), of "[]"] unfolding requested_facts(6) .

end
