(* ===== verification/NamespaceRefusal.thy ===== *)
theory NamespaceRefusal
  imports ReconcileGitOps
begin

text \<open>
  What the gate of \<open>reconcileGitOpsCluster\<close> keeps away from a namespace that the hub's administrator has not opened to other
  namespaces, whatever requests fail: nothing is registered or sent to a cluster. The certificates that the reconcile
  issues early come before the gate.
\<close>

section \<open>What stays as it was\<close>

text \<open>
  The stores of what registers clusters or is sent to them; secrets may change at the keys given, and ConfigMaps if there are any.
  Every secret is filed under its own name.
\<close>

definition apart :: "nsname set \<Rightarrow> world \<Rightarrow> world \<Rightarrow> bool" where
  "apart K s t \<longleftrightarrow>
     w_works t = w_works s \<and> w_addons t = w_addons s \<and> w_adcs t = w_adcs s \<and> w_templates t = w_templates s \<and>
     w_clusters t = w_clusters s \<and> w_roles t = w_roles s \<and> w_rolebindings t = w_rolebindings s \<and>
     w_namespaces t = w_namespaces s \<and> (keyed s_meta (w_secrets s) \<longrightarrow> secret_writes K s t) \<and>
     (K = {} \<longrightarrow> w_configmaps t = w_configmaps s)"

interpretation apart: frame "apart K" for K
  by unfold_locales (auto simp: apart_def secret_writes_def changes_only_def)

lemma apart_quiet: "quiet s t \<Longrightarrow> apart K s t"
  using quiet_sel by (simp add: apart_def changes_only_def secret_writes_def)

lemmas reading_apart = state_io_rel_mono [OF _ apart_quiet]

text \<open>What a library that writes secrets does not do: file one under another name.\<close>

definition files_by_name :: "cert_lib \<Rightarrow> bool" where
  "files_by_name lib \<longleftrightarrow>
     (\<forall>ns. state_io_rel (\<lambda>s t. keyed s_meta (w_secrets s) \<longrightarrow> keyed s_meta (w_secrets t)) (lib_signing lib ns)) \<and>
     (\<forall>ns nm hosts ca b. state_io_rel (\<lambda>s t. keyed s_meta (w_secrets s) \<longrightarrow> keyed s_meta (w_secrets t)) (lib_target lib ns nm hosts ca b))"

lemma secrets_apart:
  assumes "secrets.touches L s t" "L \<subseteq> K" "keyed s_meta (w_secrets s) \<longrightarrow> keyed s_meta (w_secrets t)" shows "apart K s t"
  using secrets.touches_only [OF assms(1)] assms by (auto simp: apart_def secret_writes_def changes_only_def secrets.touches_def)

lemma secret_step:
  assumes "state_io_rel (secrets.touches L) m" "L \<subseteq> K" "state_io_rel (\<lambda>s t. keyed s_meta (w_secrets s) \<longrightarrow> keyed s_meta (w_secrets t)) m"
  shows "state_io_rel (apart K) m"
  using assms(1,3) secrets_apart [OF _ assms(2)] unfolding state_io_rel_def by blast

lemma configmaps_apart: "configmaps.touches L s t \<Longrightarrow> K \<noteq> {} \<Longrightarrow> apart K s t"
  by (auto simp: apart_def changes_only_def secret_writes_def configmaps.touches_def)

lemmas configmap_step = state_io_rel_mono [OF _ configmaps_apart]

lemma create_secret_apart: "skey x \<in> K \<Longrightarrow> state_io_rel (apart K) (create_secret x)"
  unfolding create_secret_def
proof (rule secret_step [OF secrets.create_touches [OF singletonI]])
  show "state_io_rel (\<lambda>s t. keyed s_meta (w_secrets s) \<longrightarrow> keyed s_meta (w_secrets t))
      (api_create w_secrets w_secrets_update ''secrets'' (skey x) (persist_secret x))"
    using keyed_mset_key [of s_meta _ "persist_secret x"]
    by (auto intro!: state_io_relI simp: secrets.create_run skey_def split: option.splits if_splits)
qed simp

lemma drifted_apart:
  assumes "(ns, nm) \<in> K" shows "state_io_rel (apart K) (deleteSecretIfSANsDrifted lib ns nm desired)"
proof (rule state_io_relI)
  fix s u t assume run: "run_state (deleteSecretIfSANsDrifted lib ns nm desired) s = (u, t)"
  have q: "apart K s (consume s)" by (rule apart_quiet [OF quiet_consume])
  have d: "apart K w v" if "run_state (api_delete w_secrets w_secrets_update ''secrets'' k) w = (r, v)" "keyed s_meta (w_secrets w) \<longrightarrow> k \<in> K" for k r w v
    using that by (auto simp: secrets.delete_run apart_def secret_writes_def changes_only_def keyed_mdel_key split: option.splits if_splits)
  show "apart K s t"
  proof (cases "verdict s = None \<and> (\<exists>x. map_of (w_secrets s) (ns, nm) = Some x \<and> sans_drifted lib desired x)")
    case True
    then obtain x where x: "map_of (w_secrets s) (ns, nm) = Some x" "sans_drifted lib desired x" "verdict s = None" by blast
    obtain r v where v: "run_state (api_delete w_secrets w_secrets_update ''secrets'' (skey x)) (consume s) = (r, v)"
      by (rule prod.exhaust)
    from run x v have "t = v" by (simp add: deleteSecretIfSANsDrifted_def secrets.get_run)
    moreover have "apart K (consume s) v"
      by (rule d [OF v]) (use keyedD [OF _ x(1), of s_meta] assms in \<open>auto simp: skey_def\<close>)
    ultimately show ?thesis using apart.frame_trans q by blast
  next
    case False
    with run q show ?thesis by (auto simp: deleteSecretIfSANsDrifted_def secrets.get_run split: option.splits)
  qed
qed

text \<open>The kinds of a policy template.\<close>

locale policy_kind = kind +
  assumes upd_apart: "apart {} w (upd f w)"
begin

lemma touches_apart: "touches L s t \<Longrightarrow> apart K s t"
  using upd_apart by (auto simp: touches_def apart_def secret_writes_def changes_only_def)

lemmas step_apart = state_io_rel_mono [OF _ touches_apart]

lemma verb_apart:
  "state_io_rel (apart K) (api_create sel upd res k x)" "state_io_rel (apart K) (api_update sel upd res k x)"
proof -
  show "state_io_rel (apart K) (api_create sel upd res k x)" by (rule step_apart [OF create_touches [OF singletonI]])
  show "state_io_rel (apart K) (api_update sel upd res k x)" by (rule step_apart [OF update_touches [OF singletonI]])
qed

end

interpretation a_placements: policy_kind w_placements w_placements_update "''placements''"
  by unfold_locales (simp add: apart_def secret_writes_def changes_only_def)
interpretation a_bindings: policy_kind w_placementbindings w_placementbindings_update "''placementbindings''"
  by unfold_locales (simp add: apart_def secret_writes_def changes_only_def)
interpretation a_policies: policy_kind w_policies w_policies_update "''policies''"
  by unfold_locales (simp add: apart_def secret_writes_def changes_only_def)

lemma template_apart: "state_io_rel (apart K) (CreatePolicyTemplate yaml g)"
proof -
  have "state_io_rel (apart K) (dynamic_get kd k)" "state_io_rel (apart K) (dynamic_update kd obj)" "state_io_rel (apart K) (dynamic_create kd obj)"
    for kd k obj
    by (cases kd; simp add: reading_apart [OF get_quiet] a_placements.verb_apart a_bindings.verb_apart a_policies.verb_apart)+
  then show ?thesis
    unfolding CreatePolicyTemplate_def seq_api_def createNamespaceScopedResourceFromYAML_def createOrUpdateNamespaceScopedResourceFromYAML_def
    by (intro apart.frame_rules)
qed

section \<open>The early certificates\<close>

definition early_secrets :: "string \<Rightarrow> nsname set" where
  "early_secrets ns = {(ns, principalCAName), (ns, ArgoCDAgentPrincipalTLSSecretName), (ns, ArgoCDAgentResourceProxyTLSSecretName),
     (or_gitops_namespace ns, ''argocd-agent-jwt'')}"

lemma early_apart:
  assumes "issues (su_certs su)" and "files_by_name (su_certs su)"
  shows "state_io_rel (apart (if agentEnabled g then early_secrets (GetEffectiveArgoNamespace g) else {})) (earlyCertificates su g)"
proof (cases "agentEnabled g")
  case True
  let ?ns = "GetEffectiveArgoNamespace g"
  let ?K = "early_secrets ?ns"
  let ?lib = "su_certs su"
  from assms(1) have l: "state_io_rel quiet (lib_sync ?lib ns)" "state_io_rel (secrets.touches {(ns, principalCAName)}) (lib_signing ?lib ns)"
    "state_io_rel (configmaps.touches {(ns, caBundleName)}) (lib_bundle ?lib ns ca)"
    "state_io_rel (secrets.touches {(ns, nm)}) (lib_target ?lib ns nm hosts ca b)" for ns nm hosts ca b
    unfolding issues_def by simp_all
  from assms(2) have f: "state_io_rel (\<lambda>s t. keyed s_meta (w_secrets s) \<longrightarrow> keyed s_meta (w_secrets t)) (lib_signing ?lib ns)"
    "state_io_rel (\<lambda>s t. keyed s_meta (w_secrets s) \<longrightarrow> keyed s_meta (w_secrets t)) (lib_target ?lib ns nm hosts ca b)" for ns nm hosts ca b
    unfolding files_by_name_def by simp_all
  have k: "(?ns, principalCAName) \<in> ?K" "(?ns, ArgoCDAgentPrincipalTLSSecretName) \<in> ?K"
    "(?ns, ArgoCDAgentResourceProxyTLSSecretName) \<in> ?K" "(or_gitops_namespace ?ns, ''argocd-agent-jwt'') \<in> ?K" "?K \<noteq> {}"
    by (simp_all add: early_secrets_def)
  have sign: "state_io_rel (apart ?K) (lib_signing ?lib ?ns)" by (rule secret_step [OF l(2) _ f(1)]) (simp add: k)
  have ca: "state_io_rel (apart ?K) (EnsureArgoCDAgentCASecret ?lib g)"
    unfolding EnsureArgoCDAgentCASecret_def wrap_error_def Let_def
    by (intro apart.frame_rules reading_apart [OF l(1)] sign configmap_step [OF l(3)]) (simp_all add: k)
  have tls: "state_io_rel (apart ?K) (ensureTLSCert ?lib what nm ?ns hostNames)"
    if "(?ns, nm) \<in> ?K" "state_io_rel quiet hostNames" for what nm hostNames
    unfolding ensureTLSCert_def wrap_error_def verifyCACertificateExists_def loadCACertificate_def
    by (intro apart.frame_rules reading_apart [OF l(1)] secret_step [OF l(4) _ f(2)] sign configmap_step [OF l(3)] reading_apart [OF get_quiet]
        drifted_apart [OF that(1)] reading_apart [OF that(2)]) (simp_all add: k that)
  have jwt: "state_io_rel (apart ?K) (ensureArgoCDAgentJWTSecret key ?ns)" for key
    unfolding ensureArgoCDAgentJWTSecret_def unless_exists_def tolerate_existing_def Let_def
    by (intro apart.frame_rules reading_apart [OF get_quiet] create_secret_apart)
       (simp_all add: k gitops_secret_def skey_def)
  have "state_io_rel (apart ?K) (earlyCertificates su g)"
    unfolding earlyCertificates_def EnsureArgoCDAgentPrincipalTLSCert_def EnsureArgoCDAgentResourceProxyTLSCert_def Let_def
    by (intro apart.frame_rules ca tls k principal_hosts_quiet proxy_hosts_quiet jwt)
  with True show ?thesis by simp
next
  case False
  then show ?thesis unfolding earlyCertificates_def by (simp add: apart.frame_rules)
qed

section \<open>The gate\<close>

definition alike :: "gitops_cluster \<Rightarrow> gitops_cluster \<Rightarrow> bool" where
  "alike g h \<longleftrightarrow> gc_spec h = gc_spec g \<and> gc_meta h = gc_meta g"

text \<open>The object in memory has the spec of the stored one.\<close>

definition awaiting :: "nsname set \<Rightarrow> world \<Rightarrow> gitops_cluster \<Rightarrow> world \<Rightarrow> bool" where
  "awaiting K w0 g s \<longleftrightarrow> apart K w0 s \<and> (\<exists>old. map_of (w_gitops s) (gkey g) = Some old \<and> alike g old)"

definition turned_away :: "nsname set \<Rightarrow> world \<Rightarrow> outcome \<Rightarrow> world \<Rightarrow> bool" where
  "turned_away K w0 out t \<longleftrightarrow> (out = (0, None) \<or> (\<exists>e. out = (1, Some e))) \<and> apart K w0 t"

lemma awaiting_alike: "awaiting K w0 g s \<Longrightarrow> alike g h \<Longrightarrow> awaiting K w0 h s"
  by (auto simp: awaiting_def alike_def gkey_def)

lemma awaiting_apart: "awaiting K w0 g s \<Longrightarrow> apart K w0 s"
  by (simp add: awaiting_def)

lemma putStatus_waits:
  assumes "alike g h"
  shows "holds (awaiting K w0 g) (putStatus h) (\<lambda>r t. case r of Inl e \<Rightarrow> awaiting K w0 h t | Inr k \<Rightarrow> alike g k \<and> awaiting K w0 k t)"
proof (rule holdsI)
  fix s r t
  assume "awaiting K w0 g s" and run: "run_state (putStatus h) s = (r, t)"
  then obtain old where a: "apart K w0 s" and o: "map_of (w_gitops s) (gkey h) = Some old" "alike h old"
    using awaiting_alike [OF _ assms] unfolding awaiting_def by blast
  have q: "apart K w0 (consume s)" by (rule apart.frame_trans [OF a apart_quiet [OF quiet_consume]])
  have u: "apart K w0 (w_gitops_update f (consume s))" for f
    using q by (simp add: apart_def secret_writes_def changes_only_def)
  have k: "gkey (old\<lparr>gc_status := st\<rparr>) = gkey h" for st using o(2) by (simp add: alike_def gkey_def)
  from run o a q u [unfolded gkey_def] assms show "case r of Inl e \<Rightarrow> awaiting K w0 h t | Inr k \<Rightarrow> alike g k \<and> awaiting K w0 k t"
    by (auto simp: putStatus_def request_run awaiting_def alike_def Let_def gkey_def split: if_splits option.splits)
qed

lemma updates_alike [simp]: "alike g (updateGitOpsClusterConditions now p m us g)" "alike g g"
  by (simp_all add: alike_def)

lemma alike_trans: "alike g h \<Longrightarrow> alike h k \<Longrightarrow> alike g k"
  by (simp add: alike_def)

lemma note_waits:
  assumes "alike g h"
  shows "holds (awaiting K w0 g) (noteStatus h) (\<lambda>k t. awaiting K w0 k t \<and> alike g k)"
    "holds (awaiting K w0 g) (noteUnlessGone h) (ends_or (turned_away K w0) (\<lambda>k t. awaiting K w0 k t \<and> alike g k))"
    "holds (awaiting K w0 g) (failWith 1 e h) (ends_or (turned_away K w0) Q)"
  unfolding noteStatus_def noteUnlessGone_def failWith_def
  by (rule holds_bind [OF putStatus_waits [OF assms]], rule holds_return,
      use assms in \<open>auto simp: turned_away_def split: sum.splits intro: awaiting_alike awaiting_apart\<close>)+

lemma waiting: "state_io_rel (apart K) m \<Longrightarrow> state_io_rel bystander m \<Longrightarrow> holds (awaiting K w0 g) m (\<lambda>r. awaiting K w0 g)"
  by (rule holdsI) (auto simp: awaiting_def bystander_def dest!: state_io_relD intro: apart.frame_trans)

lemma gate_closed:
  assumes "\<not> argo_permitted w0 g ns" and "alike g h"
  shows "holds (awaiting K w0 h) (authorizeNamespace su ns h) (ends_or (turned_away K w0) Q)"
proof -
  have "holds (awaiting K w0 h) (verifyArgoNamespaceAuthorized h ns) (\<lambda>r t. (\<exists>e. r = Inl e) \<and> awaiting K w0 h t)"
  proof (rule holdsI, rule conjI)
    fix s r t assume a: "awaiting K w0 h s" and run: "run_state (verifyArgoNamespaceAuthorized h ns) s = (r, t)"
    from a have "w_namespaces s = w_namespaces w0" by (simp add: awaiting_def apart_def)
    with assms run show "\<exists>e. r = Inl e"
      by (auto simp: argo_permitted_def alike_def verifyArgoNamespaceAuthorized_def run_simps mget_def split: option.splits if_splits)
    from holdsD [OF waiting [OF reading_apart [OF authorized_quiet] reading_bystander [OF authorized_quiet]] run a]
    show "awaiting K w0 h t" .
  qed
  then show ?thesis
    unfolding authorizeNamespace_def
  proof (rule holds_bind)
    show "holds (\<lambda>t. (\<exists>e. r = Inl e) \<and> awaiting K w0 h t) (case r of Inr u \<Rightarrow> goOn h
       | Inl e \<Rightarrow> failWith 1 e (updateGitOpsClusterConditions (su_now su 3) ''failed'' (err_text e)
         [(GitOpsClusterArgoServerVerified, cond_update CFalse ''InvalidConfiguration'' (err_text e))] h)) (ends_or (turned_away K w0) Q)" for r
      by (cases r) (simp_all add: holds_impossible note_waits(3))
  qed
qed

abbreviation early_keys where
  "early_keys g \<equiv> if agentEnabled g then early_secrets (GetEffectiveArgoNamespace g) else {}"

lemma validate_waits: "holds (awaiting K w0 g) (validateSpec su g) (ends_or (turned_away K w0) (\<lambda>h t. awaiting K w0 h t \<and> alike g h))"
  unfolding validateSpec_def Let_def goOn_def by (intro holds_sum note_waits(3)) (auto intro: holds_return)

text \<open>From the policy template on.\<close>

lemma gate_refuses:
  assumes "\<not> argo_permitted w0 g ns" "alike g h"
  shows "holds (awaiting K w0 h) (policyTemplate su h \<bind> (\<lambda>k. andThen (authorizeNamespace su ns k) f)) (ends_or (turned_away K w0) (\<lambda>_ _. False))"
proof (rule holds_bind)
  show "holds (awaiting K w0 h) (policyTemplate su h) (\<lambda>k t. awaiting K w0 k t \<and> alike h k)"
    unfolding policyTemplate_def
    by (rule holds_bind [OF waiting [OF template_apart template_bystander]], rule note_waits(1)) simp
  show "holds (\<lambda>t. awaiting K w0 k t \<and> alike h k) (andThen (authorizeNamespace su ns k) f) (ends_or (turned_away K w0) (\<lambda>_ _. False))" for k
    by (rule assuming, rule holds_andThen [OF gate_closed [OF assms(1) alike_trans [OF assms(2)], where Q = "\<lambda>_ _. False"]])
       (auto intro: holds_impossible)
qed

lemma checks_refuse:
  assumes "issues (su_certs su)" "files_by_name (su_certs su)" "\<not> argo_permitted w0 g ns" "K = early_keys g"
  shows "holds (awaiting K w0 g) (checksPhase su ns g) (ends_or (turned_away K w0) (\<lambda>_ _. False))"
proof -
  have init: "alike g (initializeConditions now g)" for now
    using initializeConditions_frame by (simp add: alike_def)
  have early: "holds (awaiting K w0 h) (earlyCertificates su h) (\<lambda>u. awaiting K w0 h)" if "alike g h" for h
  proof (rule waiting [OF _ early_keeps [OF assms(1)]])
    have "early_keys h = K" using that assms(4) by (simp add: alike_def GetGitOpsAddonStatus_def GetEffectiveArgoNamespace_def)
    then show "state_io_rel (apart K) (earlyCertificates su h)" using early_apart [OF assms(1,2), of h] by simp
  qed
  have rest: "holds (\<lambda>t. awaiting K w0 k t \<and> alike h k) (earlyCertificates su k \<bind> (\<lambda>u. policyTemplate su k \<bind>
      (\<lambda>h. andThen (authorizeNamespace su ns h) (f k)))) (ends_or (turned_away K w0) (\<lambda>_ _. False))" if "alike g h" for h k f
  proof (rule assuming)
    assume "alike h k"
    then have "alike g k" using alike_trans [OF that] by blast
    then show "holds (awaiting K w0 k) (earlyCertificates su k \<bind> (\<lambda>u. policyTemplate su k \<bind>
      (\<lambda>h. andThen (authorizeNamespace su ns h) (f k)))) (ends_or (turned_away K w0) (\<lambda>_ _. False))"
      by (intro holds_bind [OF early] gate_refuses [OF assms(3)])
  qed
  show ?thesis
    unfolding checksPhase_def startReconcile_def
    by (rule holds_andThen [OF note_waits(2) [OF init]], rule assuming, rule holds_andThen [OF validate_waits], rule rest)
qed

section \<open>Properties\<close>


lemma jwt_there:
  assumes "calm s" shows "map_of (w_secrets (snd (run_state (ensureArgoCDAgentJWTSecret (Inr key) ns) s))) (or_gitops_namespace ns, ''argocd-agent-jwt'') \<noteq> None"
  using assms by (auto simp: ensureArgoCDAgentJWTSecret_def Let_def unless_exists_def tolerate_existing_def run_simps create_secret_def
      gitops_secret_def skey_def has_key_def split: option.splits)

lemma early_jwt:
  assumes "issues (su_certs su)" "agentEnabled g" "su_jwt su 0 = Inr key"
  shows "holds calm (earlyCertificates su g)
    (\<lambda>u t. map_of (w_secrets t) (or_gitops_namespace (GetEffectiveArgoNamespace g), ''argocd-agent-jwt'') \<noteq> None)"
proof -
  have c: "holds calm m (\<lambda>r. calm)" if "state_io_rel bystander m" for m :: "(world, 'a) state"
    by (rule holds_frame [OF that]) (simp add: bystander_def)
  have tls: "holds calm (case ca of Inl e \<Rightarrow> State_Monad.return () | Inr u \<Rightarrow> EnsureArgoCDAgentPrincipalTLSCert (su_certs su) g \<bind>
      (\<lambda>_. EnsureArgoCDAgentResourceProxyTLSCert (su_certs su) g \<bind> (\<lambda>_. State_Monad.return ()))) (\<lambda>r. calm)" for ca :: "goerr + unit"
    by (rule c) (intro bystander.frame_rules certificate_bystander [OF assms(1)])
  have jwt: "holds calm (ensureArgoCDAgentJWTSecret (su_jwt su 0) ns) (\<lambda>r t. map_of (w_secrets t) (or_gitops_namespace ns, ''argocd-agent-jwt'') \<noteq> None)" for ns
    by (rule holdsI) (use jwt_there [of _ key ns] assms(3) in \<open>metis snd_conv\<close>)
  show ?thesis
    unfolding earlyCertificates_def using assms(2)
    by simp (intro holds_bind [OF c [OF certificate_bystander(1) [OF assms(1)]]] holds_bind [OF tls] holds_bind [OF jwt] holds_return; auto)
qed

text \<open>
  C27: the early certificates come before the gate. When no request is rejected and the agent is enabled, the reconcile has created the agent's
  JWT secret in the namespace named by the GitOpsCluster, whether or not it may use that namespace.
\<close>
theorem early_secret_despite_gate:
  assumes "calm w" "issues (su_certs su)" "files_by_name (su_certs su)" "map_of (w_gitops w) (gkey g) = Some g" "keyed s_meta (w_secrets w)"
    and "m_name (gc_meta g) \<noteq> []" "agentEnabled g" "ValidateGitOpsAddonSpec (gs_addon (gc_spec g)) = Inr ()" "su_jwt su 0 = Inr key"
    and "\<not> argo_permitted w g (GetEffectiveArgoNamespace g)"
  shows "map_of (w_secrets (snd (run_state (reconcileGitOpsCluster su g orph) w)))
    (or_gitops_namespace (GetEffectiveArgoNamespace g), ''argocd-agent-jwt'') \<noteq> None"
proof -
  let ?ns = "GetEffectiveArgoNamespace g"
  let ?h = "initializeConditions (su_now su 0) g"
  have al: "alike g ?h" by (simp add: alike_def initializeConditions_frame)
  have "synced w g w" using assms(1,4,6) by (simp add: synced_def changes_only_def)
  from putStatus_run [OF this initializeConditions_frame] obtain w1 where 1: "run_state (putStatus ?h) w = (Inr ?h, w1)" "synced w ?h w1" by blast
  obtain w2 where 2: "run_state (earlyCertificates su ?h) w1 = ((), w2)" by (metis old.unit.exhaust surj_pair)
  have w2: "synced w ?h w2" using holdsD [OF bystander_keeps [OF early_keeps [OF assms(2)]] 2 1(2)] by simp
  have wait: "awaiting {} w2 ?h w2" using w2 by (auto simp: awaiting_def apart.frame_refl synced_def)
  have "awaiting (early_keys g) w g w" using assms(4) by (simp add: awaiting_def apart.frame_refl)
  from holdsD [OF putStatus_waits [OF al] 1(1) this] have "apart (early_keys g) w w1" by (simp add: awaiting_def)
  moreover have "early_keys ?h = early_keys g" by (simp add: initializeConditions_frame GetGitOpsAddonStatus_def GetEffectiveArgoNamespace_def)
  ultimately have "apart (early_keys g) w w2"
    using state_io_relD [OF early_apart [OF assms(2,3), of ?h] 2] by (simp add: apart.frame_trans)
  then have n: "\<not> argo_permitted w2 g ?ns" and k: "keyed s_meta (w_secrets w2)"
    using assms(5,10) by (auto simp: argo_permitted_def apart_def secret_writes_def)
  obtain c t where 3: "run_state (policyTemplate su ?h \<bind> (\<lambda>k. andThen (authorizeNamespace su ?ns k) (verifyServer su ?ns (m_annos (gc_meta ?h))))) w2 = (c, t)"
    by (rule prod.exhaust)
  from holdsD [OF gate_refuses [OF n al] 3 wait] obtain out where c: "c = Inl out" "turned_away {} w2 out t" by (cases c) auto
  from c(2) k have "map_of (w_secrets t) = map_of (w_secrets w2)"
    by (auto simp: turned_away_def apart_def secret_writes_def changes_only_def)
  moreover have "GetEffectiveArgoNamespace ?h = ?ns" "agentEnabled ?h"
    using assms(7) by (simp_all add: initializeConditions_frame GetGitOpsAddonStatus_def GetEffectiveArgoNamespace_def)
  ultimately have "map_of (w_secrets t) (or_gitops_namespace ?ns, ''argocd-agent-jwt'') \<noteq> None"
    using holdsD [OF early_jwt [OF assms(2) _ assms(9), of ?h] 2] 1(2) by (simp add: synced_def)
  moreover have "run_state (checksPhase su ?ns g) w = (Inl out, t)"
    using 1(1) 2 3 c(1) assms(8)
    by (simp add: checksPhase_def andThen_def startReconcile_def noteUnlessGone_def validateSpec_def goOn_def initializeConditions_frame)
  ultimately show ?thesis by (simp add: reconcileGitOpsCluster_def Let_def)
qed

section \<open>Witnesses\<close>

lemma listing_lib_names: "files_by_name listing_lib"
proof -
  have c: "state_io_rel (\<lambda>s t. keyed s_meta (w_secrets s) \<longrightarrow> keyed s_meta (w_secrets t)) (create_secret x)" for x
    unfolding create_secret_def using keyed_mset_key [of s_meta _ "persist_secret x"]
    by (auto intro!: state_io_relI simp: secrets.create_run skey_def split: option.splits if_splits)
  have g: "state_io_rel (\<lambda>s t. keyed s_meta (w_secrets s) \<longrightarrow> keyed s_meta (w_secrets t)) (get_secret k)" for k
    by (rule state_io_rel_mono [OF get_quiet]) (simp add: quiet_sel)
  show ?thesis
    unfolding files_by_name_def listing_lib_def cert_lib.simps by (intro conjI allI inv_frame.frame_rules c g)
qed

lemma requested_refusal:
  "files_by_name (su_certs plain_surroundings)" "keyed s_meta (w_secrets requested_world)"
  "\<not> argo_permitted requested_world agent_only (GetEffectiveArgoNamespace agent_only)"
  "ValidateGitOpsAddonSpec (gs_addon (gc_spec agent_only)) = Inr ()" "su_jwt plain_surroundings 0 = Inr ''KEY''"
  by (simp_all add: plain_surroundings_def listing_lib_names requested_world_def empty_world_def argo_permitted_def agent_only_def
      sample_gitops_def GetEffectiveArgoNamespace_def ValidateGitOpsAddonSpec_def ValidateArgoCDAgentSpec_def sample_agent_def)


theorem early_secret_despite_gate_witness:
  "map_of (w_secrets (snd (run_state (reconcileGitOpsCluster plain_surroundings agent_only []) requested_world))) (''argo'', ''argocd-agent-jwt'') \<noteq> None"
  using early_secret_despite_gate [OF requested_facts(1,2) requested_refusal(1) requested_facts(3) requested_refusal(2) requested_facts(4,7)
      requested_refusal(4,5,3), of "[]"]
  by (simp add: requested_facts or_gitops_namespace_def)

end
