(* ===== verification/SearchSync.thy ===== *)
theory SearchSync
  imports StatusAggregation Triples
begin

text \<open>
  \<open>pkg/controller/gitopssyncresc\<close>: every tick pages through the Argo CD Applications that the search service knows, builds one
  report per ApplicationSet and writes it to a file of its own, which StatusAggregation reads. The search service, the lookup of its address,
  the file system, \<open>yaml.Marshal\<close>, \<open>json.Unmarshal\<close> and the order in which Go visits a map are the record \<open>search_env\<close>; what
  can differ from call to call takes the number of requests sent so far. A failed type assertion is \<open>Panicked\<close>. The pauses between requests have no effect here.
\<close>

section \<open>Requests\<close>

record search_input =
  si_filters :: "(string \<times> string list) list"
  si_limit :: int
  si_offset :: "int option"

record search_env =
  se_pod_ns :: string
  se_root_domain :: "string option"
  se_ports :: "nat \<Rightarrow> goerr + int list" \<comment> \<open>the target ports of the service\<close>
  se_request :: "string \<Rightarrow> goerr option"
  se_send :: "nat \<Rightarrow> string \<Rightarrow> search_input \<Rightarrow> goerr + jobj"
  se_visit :: "jobj \<Rightarrow> jobj"
  se_range :: "(string \<times> appset_report) list \<Rightarrow> (string \<times> appset_report) list"
  se_unmarshal :: "string \<Rightarrow> goerr + jobj list"
  se_marshal :: "appset_report \<Rightarrow> goerr + string"
  se_write :: "string \<Rightarrow> string \<Rightarrow> (goerr \<times> string option) option" \<comment> \<open>an error, and what it leaves if the file was touched\<close>
  se_dir :: string

text \<open>What a tick changes: the requests sent, the files.\<close>

record sync_state =
  sy_sent :: nat
  sy_files :: smap

definition SearchServiceName :: string where "SearchServiceName = ''search-search-api''"
definition SearchDefaultNs :: string where "SearchDefaultNs = ''open-cluster-management''"
definition ClusterRootDomainDefault :: string where "ClusterRootDomainDefault = ''cluster.local''"

definition ExcludeResourceList :: "string list" where
  "ExcludeResourceList = [''ApplicationSet'', ''Application'', ''EndpointSlice'', ''Pod'', ''ReplicaSet'', ''Cluster'']"

definition getEnv :: "string option \<Rightarrow> string \<Rightarrow> string" where
  "getEnv v dflt = (case v of None \<Rightarrow> dflt | Some s \<Rightarrow> if s = [] then dflt else s)"

definition getSearchURL :: "search_env \<Rightarrow> nat \<Rightarrow> goerr + string" where
  "getSearchURL env n =
     (let ns = (if se_pod_ns env = [] then SearchDefaultNs else se_pod_ns env) in
      and_then (se_ports env n) (\<lambda>ports.
        case ports of
          [] \<Rightarrow> Inl (ErrText (''no ports in service: '' @ ns @ ''/'' @ SearchServiceName))
        | p # _ \<Rightarrow> Inr (''https://'' @ SearchServiceName @ ''.'' @ ns @ ''.svc.'' @ getEnv (se_root_domain env) ClusterRootDomainDefault @ '':'' @
            itoa p @ ''/searchapi/graphql'')))"

definition baseAppSearchFilters :: "(string \<times> string list) list" where
  "baseAppSearchFilters =
     [(''kind'', [''Application'']), (''apigroup'', [''argoproj.io'']), (''label'', [''apps.open-cluster-management.io/application-set=true''])]"

definition assertion :: goerr where "assertion = Panicked ''interface conversion''"

fun is_panic :: "goerr \<Rightarrow> bool" where
  "is_panic (Panicked s) \<longleftrightarrow> True"
| "is_panic e \<longleftrightarrow> False"

fun as_string :: "json option \<Rightarrow> goerr + string" where
  "as_string (Some (JStr s)) = Inr s"
| "as_string v = Inl assertion"

text \<open>A member of a search result: absent or null is empty, anything but an array panics.\<close>

definition result_list :: "jobj \<Rightarrow> string \<Rightarrow> goerr + json list" where
  "result_list m k =
     (case map_of m k of
        None \<Rightarrow> Inr []
      | Some JNull \<Rightarrow> Inr []
      | Some (JArr xs) \<Rightarrow> Inr xs
      | Some v \<Rightarrow> Inl assertion)"

definition readResult :: "jobj \<Rightarrow> goerr + json list \<times> json list" where
  "readResult resp =
     (case map_of resp ''data'' of
        Some (JObj d) \<Rightarrow>
          (case map_of d ''searchResult'' of
             None \<Rightarrow> Inl (ErrText ''search-api response does not include searchResult'')
           | Some (JArr rs) \<Rightarrow>
               (case rs of
                  [] \<Rightarrow> Inr ([], [])
                | r # _ \<Rightarrow>
                    (case r of
                       JObj m \<Rightarrow> and_then (result_list m ''items'') (\<lambda>items.
                         and_then (result_list m ''related'') (\<lambda>related. Inr (items, related)))
                     | _ \<Rightarrow> Inl assertion))
           | Some v \<Rightarrow> Inl assertion)
      | _ \<Rightarrow> Inl assertion)"

definition doSearch :: "search_env \<Rightarrow> search_input \<Rightarrow> (sync_state, goerr + json list \<times> json list) state" where
  "doSearch env input = State (\<lambda>s.
     case getSearchURL env (sy_sent s) of
       Inl e \<Rightarrow> (Inl e, s)
     | Inr url \<Rightarrow>
         (case se_request env url of
            Some e \<Rightarrow> (Inl e, s)
          | None \<Rightarrow> (and_then (se_send env (sy_sent s) url input) readResult, s\<lparr>sy_sent := Suc (sy_sent s)\<rparr>)))"

definition page_input :: "int \<Rightarrow> int \<Rightarrow> search_input" where
  "page_input offset limit = \<lparr>si_filters = baseAppSearchFilters, si_limit = limit, si_offset = Some offset\<rparr>"

definition getArgoAppsFromSearch :: "search_env \<Rightarrow> int \<Rightarrow> int \<Rightarrow> (sync_state, goerr + json list) state" where
  "getArgoAppsFromSearch env offset limit = do {
     r \<leftarrow> doSearch env (page_input offset limit);
     State_Monad.return (and_then r (\<lambda>x. Inr (fst x)))
   }"

definition related_input :: "string \<Rightarrow> string \<Rightarrow> string \<Rightarrow> search_input" where
  "related_input ns nm cluster =
     \<lparr>si_filters = baseAppSearchFilters @ [(''namespace'', [ns]), (''name'', [nm]), (''cluster'', [cluster])],
      si_limit = - 1, si_offset = None\<rparr>"

definition getAppRelatedResources :: "search_env \<Rightarrow> string \<Rightarrow> string \<Rightarrow> string \<Rightarrow> (sync_state, goerr + json list) state" where
  "getAppRelatedResources env ns nm cluster = do {
     r \<leftarrow> doSearch env (related_input ns nm cluster);
     State_Monad.return (and_then r (\<lambda>x. Inr (snd x)))
   }"

section \<open>Conditions\<close>

text \<open>The regular expression \<open>_condition.*w\<close>, not anchored; a dot matches everything but a line break.\<close>

fun condition_key :: "string \<Rightarrow> string \<Rightarrow> bool" where
  "condition_key w [] \<longleftrightarrow> False"
| "condition_key w (c # k) \<longleftrightarrow>
     (has_prefix (c # k) ''_condition'' \<and> str_contains (takeWhile (\<lambda>x. x \<noteq> CHR 0x0A) (drop 10 (c # k))) w) \<or> condition_key w k"

text \<open>The conditions found and the last operation error, which is told apart by its type.\<close>

fun collect_conditions :: "jobj \<Rightarrow> (string \<times> string) list \<times> string option \<Rightarrow> goerr + (string \<times> string) list \<times> string option" where
  "collect_conditions [] acc = Inr acc"
| "collect_conditions ((k, v) # m) (conds, operr) =
     (if \<not> condition_key ''Error'' k \<and> \<not> condition_key ''Warning'' k then collect_conditions m (conds, operr)
      else and_then (as_string (Some v)) (\<lambda>msg.
        if drop 10 k = ''OperationError'' then collect_conditions m (conds, Some msg)
        else collect_conditions m (conds @ [(drop 10 k, msg)], operr)))"

text \<open>Whether a condition already tells the reason of the operation error.\<close>

definition tells_reason :: "string \<Rightarrow> string \<Rightarrow> bool" where
  "tells_reason operr msg \<longleftrightarrow>
     (case str_index msg ''reason:'' of
        None \<Rightarrow> False
      | Some i \<Rightarrow> (let why = drop i (take (length msg - 3) msg) in why \<noteq> [] \<and> str_contains operr why))"

definition report_conditions :: "search_env \<Rightarrow> jobj \<Rightarrow> goerr + (string \<times> string) list" where
  "report_conditions env item =
     and_then (collect_conditions (se_visit env item) ([], None)) (\<lambda>(conds, operr).
       Inr (case operr of
         None \<Rightarrow> conds
       | Some msg \<Rightarrow> if list_ex (\<lambda>(t, m). tells_reason msg m) conds then conds else conds @ [(''OperationError'', msg)]))"

definition createOrUpdateAppSetReportConditions :: "search_env \<Rightarrow> string \<Rightarrow> jobj \<Rightarrow> appset_report \<Rightarrow> goerr + appset_report" where
  "createOrUpdateAppSetReportConditions env cluster item report =
     and_then (report_conditions env item) (\<lambda>conds.
       Inr (report\<lparr>ar_status := (ar_status report)\<lparr>rs_conditions := rs_conditions (ar_status report) @
         [\<lparr>cl_cluster = cluster, cl_sync = [], cl_health = [], cl_started_at = [], cl_phase = [], cl_revision = [], cl_app = [],
           cl_conditions = conds\<rparr>]\<rparr>\<rparr>))"

section \<open>Resources\<close>

text \<open>A field that is absent or empty reads as empty; another value that is no string panics.\<close>

definition or_empty :: "json option \<Rightarrow> goerr + string" where
  "or_empty v = (case v of None \<Rightarrow> Inr [] | Some x \<Rightarrow> as_string (Some x))"

definition api_version :: "string \<Rightarrow> string \<Rightarrow> string" where
  "api_version grp version =
     (if version = [] then grp else if grp = [] then version else grp @ ''/'' @ version)"

definition getResourceRef :: "jobj \<Rightarrow> goerr + resource_ref" where
  "getResourceRef item =
     and_then (or_empty (map_of item ''apigroup'')) (\<lambda>grp.
     and_then (or_empty (map_of item ''apiversion'')) (\<lambda>version.
     and_then (or_empty (map_of item ''namespace'')) (\<lambda>ns.
     and_then (as_string (map_of item ''kind'')) (\<lambda>kind.
     and_then (as_string (map_of item ''name'')) (\<lambda>nm.
       Inr \<lparr>rr_api_version = api_version grp version, rr_kind = kind, rr_name = nm, rr_ns = ns\<rparr>)))))"

text \<open>A resource of the application: its first related UID is the application's, and it has no owner.\<close>

definition is_related :: "string \<Rightarrow> jobj \<Rightarrow> goerr + bool" where
  "is_related uid item =
     (case map_of item ''_relatedUids'' of
        None \<Rightarrow> Inr False
      | Some (JArr []) \<Rightarrow> Inr False
      | Some (JArr (x # _)) \<Rightarrow> and_then (as_string (Some x)) (\<lambda>u. Inr (u = uid \<and>
          (case map_of item ''_ownerUID'' of None \<Rightarrow> True | Some v \<Rightarrow> v = JStr [])))
      | Some v \<Rightarrow> Inl assertion)"

fun related_items :: "string \<Rightarrow> json list \<Rightarrow> goerr + resource_ref list" where
  "related_items uid [] = Inr []"
| "related_items uid (x # xs) =
     (case x of
        JObj item \<Rightarrow> and_then (is_related uid item) (\<lambda>yes.
          if \<not> yes then related_items uid xs
          else and_then (getResourceRef item) (\<lambda>ref. and_then (related_items uid xs) (\<lambda>refs. Inr (ref # refs))))
      | _ \<Rightarrow> Inl assertion)"

fun getResourceMapList :: "json list \<Rightarrow> string \<Rightarrow> goerr + resource_ref list" where
  "getResourceMapList [] uid = Inr []"
| "getResourceMapList (rel # rels) uid =
     (case rel of
        JObj m \<Rightarrow> and_then (as_string (map_of m ''kind'')) (\<lambda>kind.
          if kind \<in> set ExcludeResourceList then getResourceMapList rels uid
          else (case map_of m ''items'' of
            Some (JArr items) \<Rightarrow> and_then (related_items uid items) (\<lambda>refs. and_then (getResourceMapList rels uid) (\<lambda>rest. Inr (refs @ rest)))
          | _ \<Rightarrow> getResourceMapList rels uid))
      | _ \<Rightarrow> getResourceMapList rels uid)"

fun missing_items :: "jobj list \<Rightarrow> goerr + resource_ref list" where
  "missing_items [] = Inr []"
| "missing_items (item # items) =
     and_then (as_string (map_of item ''kind'')) (\<lambda>kind.
       if kind \<in> set ExcludeResourceList then missing_items items
       else and_then (getResourceRef item) (\<lambda>ref. and_then (missing_items items) (\<lambda>refs. Inr (ref # refs))))"

definition getMissingResourceMapList :: "search_env \<Rightarrow> jobj \<Rightarrow> goerr + resource_ref list" where
  "getMissingResourceMapList env item =
     (case map_of item ''_missingResources'' of
        None \<Rightarrow> Inr []
      | Some v \<Rightarrow>
          (if v = JStr [] then Inr []
           else and_then (as_string (Some v)) (\<lambda>text.
             case se_unmarshal env text of
               Inl e \<Rightarrow> if is_panic e then Inl e else Inr []
             | Inr items \<Rightarrow> missing_items items)))"

section \<open>One application\<close>

type_synonym reports = "(string \<times> appset_report) list"

definition sync_key :: "string \<Rightarrow> string \<Rightarrow> string" where
  "sync_key ns nm = ns @ ''_'' @ nm"

definition new_report :: "string \<Rightarrow> string \<Rightarrow> appset_report" where
  "new_report ns key =
     \<lparr>ar_meta = plain_meta key ns [] [],
      ar_status = \<lparr>rs_resources = [], rs_conditions = [],
        rs_summary = \<lparr>sm_synced = [], sm_not_synced = [], sm_healthy = [], sm_not_healthy = [], sm_in_progress = [], sm_clusters = []\<rparr>\<rparr>\<rparr>"

fun text_or_empty :: "json option \<Rightarrow> string" where
  "text_or_empty (Some (JStr s)) = s"
| "text_or_empty v = []"

definition with_resources :: "resource_ref list \<Rightarrow> appset_report \<Rightarrow> appset_report" where
  "with_resources refs report = report\<lparr>ar_status := (ar_status report)\<lparr>rs_resources := refs\<rparr>\<rparr>"

definition app_resources :: "search_env \<Rightarrow> string \<Rightarrow> jobj \<Rightarrow> json list \<Rightarrow> goerr + resource_ref list" where
  "app_resources env uid item related =
     and_then (getResourceMapList related uid) (\<lambda>refs. and_then (getMissingResourceMapList env item) (\<lambda>more. Inr (refs @ more)))"

text \<open>The resources are asked for only while the report has none.\<close>

definition fillReport :: "search_env \<Rightarrow> string \<Rightarrow> string \<Rightarrow> jobj \<Rightarrow> appset_report \<Rightarrow> (sync_state, goerr + appset_report) state" where
  "fillReport env cluster uid item report =
     (if rs_resources (ar_status report) \<noteq> [] then State_Monad.return (Inr report)
      else do {
        r \<leftarrow> getAppRelatedResources env (text_or_empty (map_of item ''namespace'')) (text_or_empty (map_of item ''name'')) cluster;
        State_Monad.return (case r of
          Inl e \<Rightarrow> if is_panic e then Inl e else Inr report
        | Inr related \<Rightarrow> and_then (app_resources env uid item related) (\<lambda>refs. Inr (with_resources refs report)))
      })"

text \<open>The ApplicationSet an application belongs to: its kind, namespace and name, separated by slashes.\<close>

definition hosting :: "jobj \<Rightarrow> goerr + nsname option" where
  "hosting item =
     (case map_of item ''_hostingResource'' of
        None \<Rightarrow> Inr None
      | Some JNull \<Rightarrow> Inr None
      | Some v \<Rightarrow> and_then (as_string (Some v)) (\<lambda>h.
          Inr (case split_char (CHR ''/'') h of [k, ns, nm] \<Rightarrow> Some (ns, nm) | _ \<Rightarrow> None)))"

definition processApp :: "search_env \<Rightarrow> reports \<Rightarrow> json \<Rightarrow> (sync_state, goerr + reports) state" where
  "processApp env m app =
     (case app of
        JObj item \<Rightarrow>
          (case and_then (as_string (map_of item ''cluster'')) (\<lambda>cluster. and_then (as_string (map_of item ''_uid'')) (\<lambda>uid.
             and_then (hosting item) (\<lambda>h. Inr (cluster, uid, h)))) of
             Inl e \<Rightarrow> State_Monad.return (Inl e)
           | Inr (cluster, uid, None) \<Rightarrow> State_Monad.return (Inr m)
           | Inr (cluster, uid, Some (ns, nm)) \<Rightarrow>
               (let key = sync_key ns nm;
                    old = (case map_of m key of Some r \<Rightarrow> r | None \<Rightarrow> new_report ns key)
                in case createOrUpdateAppSetReportConditions env cluster item old of
                     Inl e \<Rightarrow> State_Monad.return (Inl e)
                   | Inr report \<Rightarrow> do {
                       r \<leftarrow> fillReport env cluster uid item report;
                       State_Monad.return (and_then r (\<lambda>report. Inr (mset_key key report m)))
                     }))
      | _ \<Rightarrow> State_Monad.return (Inr m))"

section \<open>A tick\<close>

text \<open>The paging: a page that cannot be had ends it without an error.\<close>

fun syncPages :: "search_env \<Rightarrow> nat \<Rightarrow> int \<Rightarrow> int \<Rightarrow> reports \<Rightarrow> (sync_state, (goerr + reports) option) state" where
  "syncPages env 0 offset limit m = State_Monad.return None"
| "syncPages env (Suc fuel) offset limit m = do {
     l \<leftarrow> getArgoAppsFromSearch env offset limit;
     case l of
       Inl e \<Rightarrow> State_Monad.return (Some (if is_panic e then Inl e else Inr m))
     | Inr apps \<Rightarrow> do {
         r \<leftarrow> loopE (processApp env) m apps;
         case r of
           Inl e \<Rightarrow> State_Monad.return (Some (Inl e))
         | Inr m' \<Rightarrow>
             (if int (length apps) < limit then State_Monad.return (Some (Inr m'))
              else syncPages env fuel (offset + limit) limit m')
       }
   }"

text \<open>\<open>filepath.Join\<close> for a directory written without redundant parts, other than the root.\<close>

definition report_file :: "search_env \<Rightarrow> string \<Rightarrow> string" where
  "report_file env key = se_dir env @ ''/'' @ key @ ''.yaml''"

definition writeAppSetResourceFile :: "search_env \<Rightarrow> appset_report \<Rightarrow> (sync_state, goerr + unit) state" where
  "writeAppSetResourceFile env report = State (\<lambda>s.
     case se_marshal env report of
       Inl e \<Rightarrow> (Inl e, s)
     | Inr text \<Rightarrow>
         (let file = report_file env (m_name (ar_meta report)) in
          case se_write env file text of
            Some (e, None) \<Rightarrow> (Inl e, s)
          | Some (e, Some left) \<Rightarrow> (Inl e, s\<lparr>sy_files := mset_key file left (sy_files s)\<rparr>)
          | None \<Rightarrow> (Inr (), s\<lparr>sy_files := mset_key file text (sy_files s)\<rparr>)))"

definition syncResources :: "search_env \<Rightarrow> int \<Rightarrow> nat \<Rightarrow> (sync_state, (goerr + unit) option) state" where
  "syncResources env batch fuel = do {
     r \<leftarrow> syncPages env fuel 0 (if batch = 0 then 1 else batch) [];
     case r of
       None \<Rightarrow> State_Monad.return None
     | Some (Inl e) \<Rightarrow> State_Monad.return (Some (Inl e))
     | Some (Inr m) \<Rightarrow> do {
         w \<leftarrow> loopE (\<lambda>u entry. writeAppSetResourceFile env (snd entry)) () (se_range env m);
         State_Monad.return (Some w)
       }
   }"

text \<open>The state of the API server is beside that of the files. A panic ends the process.\<close>

definition searchTick :: "config_env \<Rightarrow> search_env \<Rightarrow> int \<Rightarrow> nat \<Rightarrow> world \<times> sync_state \<Rightarrow> (goerr + unit) option \<times> world \<times> sync_state" where
  "searchTick cenv env batch fuel ws =
     (case run_state (LoadOrCreate cenv) (fst ws) of
        (cfg, w) \<Rightarrow>
          if disabled cfg then (Some (Inr ()), w, snd ws)
          else (case run_state (syncResources env batch fuel) (snd ws) of
                  (r, s) \<Rightarrow> (case r of Some (Inl e) \<Rightarrow> if is_panic e then Some (Inl e) else Some (Inr ()) | _ \<Rightarrow> r, w, s)))"

section \<open>A service that answers\<close>

text \<open>
  The service holds the applications \<open>items\<close>, answers the first \<open>k\<close> pages of \<open>L\<close> and fails after; \<open>rel\<close> is what it
  says of the resources related to an application.
\<close>

definition answers :: "search_env \<Rightarrow> (string \<Rightarrow> string \<Rightarrow> string \<Rightarrow> goerr + json list) \<Rightarrow> json list \<Rightarrow> nat \<Rightarrow> nat \<Rightarrow> bool" where
  "answers env rel items L k \<longleftrightarrow>
     (\<forall>n. \<exists>url. getSearchURL env n = Inr url \<and> se_request env url = None) \<and>
     (\<forall>n url j. j < k \<longrightarrow> and_then (se_send env n url (page_input (int (j * L)) (int L))) readResult = Inr (take L (drop (j * L) items), [])) \<and>
     (\<forall>n url j. k \<le> j \<longrightarrow> (\<exists>e. and_then (se_send env n url (page_input (int (j * L)) (int L))) readResult = Inl e \<and> \<not> is_panic e)) \<and>
     (\<forall>n url ns nm c. and_then (se_send env n url (related_input ns nm c)) readResult = and_then (rel ns nm c) (\<lambda>r. Inr ([], r)))"

text \<open>The same without a state.\<close>

definition filled :: "search_env \<Rightarrow> (string \<Rightarrow> string \<Rightarrow> string \<Rightarrow> goerr + json list) \<Rightarrow> string \<Rightarrow> string \<Rightarrow> jobj \<Rightarrow> appset_report \<Rightarrow> goerr + appset_report" where
  "filled env rel cluster uid item report =
     (if rs_resources (ar_status report) \<noteq> [] then Inr report
      else (case rel (text_or_empty (map_of item ''namespace'')) (text_or_empty (map_of item ''name'')) cluster of
          Inl e \<Rightarrow> if is_panic e then Inl e else Inr report
        | Inr related \<Rightarrow> and_then (app_resources env uid item related) (\<lambda>refs. Inr (with_resources refs report))))"

definition report_app :: "search_env \<Rightarrow> (string \<Rightarrow> string \<Rightarrow> string \<Rightarrow> goerr + json list) \<Rightarrow> reports \<Rightarrow> json \<Rightarrow> goerr + reports" where
  "report_app env rel m app =
     (case app of
        JObj item \<Rightarrow>
          (case and_then (as_string (map_of item ''cluster'')) (\<lambda>cluster. and_then (as_string (map_of item ''_uid'')) (\<lambda>uid.
             and_then (hosting item) (\<lambda>h. Inr (cluster, uid, h)))) of
             Inl e \<Rightarrow> Inl e
           | Inr (cluster, uid, None) \<Rightarrow> Inr m
           | Inr (cluster, uid, Some (ns, nm)) \<Rightarrow>
               (let key = sync_key ns nm;
                    old = (case map_of m key of Some r \<Rightarrow> r | None \<Rightarrow> new_report ns key)
                in and_then (createOrUpdateAppSetReportConditions env cluster item old) (\<lambda>report.
                   and_then (filled env rel cluster uid item report) (\<lambda>report. Inr (mset_key key report m)))))
      | _ \<Rightarrow> Inr m)"

fun report_all :: "search_env \<Rightarrow> (string \<Rightarrow> string \<Rightarrow> string \<Rightarrow> goerr + json list) \<Rightarrow> reports \<Rightarrow> json list \<Rightarrow> goerr + reports" where
  "report_all env rel m [] = Inr m"
| "report_all env rel m (app # apps) = and_then (report_app env rel m app) (\<lambda>m. report_all env rel m apps)"

lemma report_all_append: "report_all env rel m (xs @ ys) = and_then (report_all env rel m xs) (\<lambda>m. report_all env rel m ys)"
  by (induction xs arbitrary: m) (auto simp: and_then_def split: sum.splits)

text \<open>A request changes no file.\<close>

definition yields :: "(sync_state, 'a) state \<Rightarrow> 'a \<Rightarrow> bool" where
  "yields m x \<longleftrightarrow> (\<forall>s. \<exists>t. run_state m s = (x, t) \<and> sy_files t = sy_files s)"

lemma yieldsI: "(\<And>s. \<exists>t. run_state m s = (x, t) \<and> sy_files t = sy_files s) \<Longrightarrow> yields m x"
  by (simp add: yields_def)

lemma yieldsE: "yields m x \<Longrightarrow> (\<And>t. run_state m s = (x, t) \<Longrightarrow> sy_files t = sy_files s \<Longrightarrow> P) \<Longrightarrow> P"
  unfolding yields_def by blast

lemma yields_bind:
  assumes "yields m x" "yields (f x) y" shows "yields (m \<bind> f) y"
proof (rule yieldsI)
  fix s
  from assms(1) obtain t where 1: "run_state m s = (x, t)" "sy_files t = sy_files s" by (rule yieldsE)
  from assms(2) obtain u where 2: "run_state (f x) t = (y, u)" "sy_files u = sy_files t" by (rule yieldsE)
  from 1 2 show "\<exists>t. run_state (m \<bind> f) s = (y, t) \<and> sy_files t = sy_files s" by simp
qed

lemma yields_return: "x = y \<Longrightarrow> yields (State_Monad.return x) y"
  by (simp add: yields_def)

lemma search_yields:
  assumes "\<forall>n. \<exists>url. getSearchURL env n = Inr url \<and> se_request env url = None" and "\<forall>n url. and_then (se_send env n url input) readResult = r"
  shows "yields (doSearch env input) r"
proof (rule yieldsI)
  fix s :: sync_state
  from assms(1) obtain url where "getSearchURL env (sy_sent s) = Inr url" "se_request env url = None" by blast
  with assms(2) show "\<exists>t. run_state (doSearch env input) s = (r, t) \<and> sy_files t = sy_files s"
    by (simp add: doSearch_def)
qed

lemma related_yields:
  assumes "answers env rel items L k" shows "yields (getAppRelatedResources env ns nm c) (rel ns nm c)"
  unfolding getAppRelatedResources_def
proof (rule yields_bind)
  show "yields (doSearch env (related_input ns nm c)) (and_then (rel ns nm c) (\<lambda>r. Inr ([], r)))"
    using assms by (intro search_yields) (simp_all add: answers_def)
  show "yields (State_Monad.return (and_then (and_then (rel ns nm c) (\<lambda>r. Inr ([], r))) (\<lambda>x. Inr (snd x)))) (rel ns nm c)"
    by (rule yields_return) (cases "rel ns nm c"; simp)
qed

lemma page_yields:
  assumes "answers env rel items L k" and "j < k"
  shows "yields (getArgoAppsFromSearch env (int (j * L)) (int L)) (Inr (take L (drop (j * L) items)))"
  unfolding getArgoAppsFromSearch_def
proof (rule yields_bind)
  show "yields (doSearch env (page_input (int (j * L)) (int L))) (Inr (take L (drop (j * L) items), []))"
    using assms by (intro search_yields) (simp_all add: answers_def)
qed (simp add: yields_return)

lemma page_fails:
  assumes "answers env rel items L k" and "k \<le> j"
  shows "\<exists>e t. run_state (getArgoAppsFromSearch env (int (j * L)) (int L)) s = (Inl e, t) \<and> \<not> is_panic e \<and> sy_files t = sy_files s"
proof -
  from assms(1) obtain url where u: "getSearchURL env (sy_sent s) = Inr url" "se_request env url = None" unfolding answers_def by blast
  from assms obtain e where "and_then (se_send env (sy_sent s) url (page_input (int (j * L)) (int L))) readResult = Inl e" "\<not> is_panic e"
    unfolding answers_def by blast
  with u show ?thesis by (simp add: getArgoAppsFromSearch_def doSearch_def)
qed

lemma fill_yields:
  assumes "answers env rel items L k" shows "yields (fillReport env cluster uid item report) (filled env rel cluster uid item report)"
proof (cases "rs_resources (ar_status report) = []")
  case True
  have "yields (getAppRelatedResources env (text_or_empty (map_of item ''namespace'')) (text_or_empty (map_of item ''name'')) cluster \<bind>
    (\<lambda>r. State_Monad.return (case r of
          Inl e \<Rightarrow> if is_panic e then Inl e else Inr report
        | Inr related \<Rightarrow> and_then (app_resources env uid item related) (\<lambda>refs. Inr (with_resources refs report))))) (filled env rel cluster uid item report)"
    by (rule yields_bind [OF related_yields [OF assms]], rule yields_return) (use True in \<open>simp add: filled_def\<close>)
  with True show ?thesis by (simp add: fillReport_def)
qed (simp add: fillReport_def filled_def yields_return)

lemma app_yields:
  assumes "answers env rel items L k" shows "yields (processApp env m app) (report_app env rel m app)"
proof (cases app)
  case (JObj item)
  let ?r = "and_then (as_string (map_of item ''cluster'')) (\<lambda>cluster. and_then (as_string (map_of item ''_uid'')) (\<lambda>uid.
             and_then (hosting item) (\<lambda>h. Inr (cluster, uid, h))))"
  show ?thesis
  proof (cases ?r)
    case (Inr x)
    obtain cluster uid h where x: "x = (cluster, uid, h)" by (cases x)
    show ?thesis
    proof (cases h)
      case (Some key)
      obtain ns nm where key: "key = (ns, nm)" by (cases key)
      let ?old = "case map_of m (sync_key ns nm) of Some r \<Rightarrow> r | None \<Rightarrow> new_report ns (sync_key ns nm)"
      have "yields (fillReport env cluster uid item report \<bind> (\<lambda>r. State_Monad.return (and_then r (\<lambda>report. Inr (mset_key (sync_key ns nm) report m)))))
          (and_then (filled env rel cluster uid item report) (\<lambda>report. Inr (mset_key (sync_key ns nm) report m)))" for report
        by (intro yields_bind [OF fill_yields [OF assms]] yields_return refl)
      then show ?thesis
        using JObj Inr x Some key
        by (cases "createOrUpdateAppSetReportConditions env cluster item ?old") (simp_all add: processApp_def report_app_def Let_def yields_return)
    qed (use JObj Inr x in \<open>simp add: processApp_def report_app_def yields_return\<close>)
  qed (use JObj in \<open>simp add: processApp_def report_app_def yields_return\<close>)
qed (simp_all add: processApp_def report_app_def yields_return)

lemma apps_yield:
  assumes "answers env rel items L k" shows "yields (loopE (processApp env) m apps) (report_all env rel m apps)"
proof (induction apps arbitrary: m)
  case (Cons app apps)
  show ?case
    unfolding loopE.simps report_all.simps
    by (rule yields_bind [OF app_yields [OF assms]]) (cases "report_app env rel m app"; simp add: Cons yields_return)
qed (simp add: yields_return)

section \<open>Paging\<close>

text \<open>From page \<open>j\<close> on.\<close>

lemma pages_run:
  assumes a: "answers env rel items L k" and "0 < L" and "length items < (j + fuel) * L" and "0 < fuel"
  shows "\<exists>t. run_state (syncPages env fuel (int (j * L)) (int L) m) s = (Some (report_all env rel m (drop (j * L) (take (k * L) items))), t) \<and>
    sy_files t = sy_files s"
  using assms(3,4)
proof (induction fuel arbitrary: j m s)
  case (Suc fuel)
  show ?case
  proof (cases "j < k")
    case False
    from page_fails [OF a, of j s] False obtain e t where
      "run_state (getArgoAppsFromSearch env (int (j * L)) (int L)) s = (Inl e, t)" "\<not> is_panic e" "sy_files t = sy_files s" by auto
    moreover have "k * L \<le> j * L" using False by simp
    then have "drop (j * L) (take (k * L) items) = []"
      unfolding drop_eq_Nil length_take by (rule min.coboundedI2)
    ultimately show ?thesis by simp
  next
    case True
    let ?page = "take L (drop (j * L) items)"
    obtain t where t: "run_state (getArgoAppsFromSearch env (int (j * L)) (int L)) s = (Inr ?page, t)" "sy_files t = sy_files s"
      using page_yields [OF a True] by (rule yieldsE)
    obtain u where u: "run_state (loopE (processApp env) m ?page) t = (report_all env rel m ?page, u)" "sy_files u = sy_files t"
      using apps_yield [OF a] by (rule yieldsE)
    have "Suc j * L \<le> k * L" using True by (intro mult_le_mono1) simp
    then have "L \<le> k * L - j * L" by simp
    then have "take L (drop (j * L) (take (k * L) items)) = ?page" by (simp add: drop_take min_absorb1)
    moreover have "drop L (drop (j * L) (take (k * L) items)) = drop (Suc j * L) (take (k * L) items)" by simp
    ultimately have split: "drop (j * L) (take (k * L) items) = ?page @ drop (Suc j * L) (take (k * L) items)"
      by (metis append_take_drop_id)
    show ?thesis
    proof (cases "report_all env rel m ?page")
      case (Inl e)
      then show ?thesis using t u by (simp add: split report_all_append)
    next
      case (Inr m')
      show ?thesis
      proof (cases "length ?page < L")
        case True
        then have "drop (Suc j * L) (take (k * L) items) = []" by auto
        moreover have "length items - j * L < L" using True by (simp add: min_def split: if_splits)
        ultimately show ?thesis using t u Inr True by (simp add: split report_all_append)
      next
        case False
        then have "Suc j * L \<le> length items" using assms(2) by auto
        then have fuel: "0 < fuel" using Suc.prems(1) assms(2) by (cases fuel) auto
        have "length items < (Suc j + fuel) * L" using Suc.prems(1) by simp
        from Suc.IH [OF this fuel] obtain v where
          "run_state (syncPages env fuel (int (Suc j * L)) (int L) m') u = (Some (report_all env rel m' (drop (Suc j * L) (take (k * L) items))), v)"
          "sy_files v = sy_files u" by blast
        moreover have "int (Suc j * L) = int j * int L + int L" by simp
        ultimately have "run_state (syncPages env fuel (int j * int L + int L) (int L) m') u =
            (Some (report_all env rel m' (drop (Suc j * L) (take (k * L) items))), v)" "sy_files v = sy_files u" by (simp_all add: add.commute)
        then show ?thesis using t u Inr False by (simp add: split report_all_append)
      qed
    qed
  qed
qed simp

section \<open>What the reports say\<close>

text \<open>The applications of an ApplicationSet, and the clusters they are on.\<close>

definition app_key :: "json \<Rightarrow> string option" where
  "app_key app = (case app of JObj item \<Rightarrow> (case hosting item of Inr (Some (ns, nm)) \<Rightarrow> Some (sync_key ns nm) | _ \<Rightarrow> None) | _ \<Rightarrow> None)"

definition app_cluster :: "json \<Rightarrow> string" where
  "app_cluster app = (case app of JObj item \<Rightarrow> text_or_empty (map_of item ''cluster'') | _ \<Rightarrow> [])"

definition reported_clusters :: "reports \<Rightarrow> string \<Rightarrow> string list" where
  "reported_clusters m key = (case map_of m key of None \<Rightarrow> [] | Some r \<Rightarrow> map cl_cluster (rs_conditions (ar_status r)))"

text \<open>Every report is filed under its name.\<close>

definition named :: "reports \<Rightarrow> bool" where
  "named m \<longleftrightarrow> distinct (map fst m) \<and> (\<forall>key r. map_of m key = Some r \<longrightarrow> m_name (ar_meta r) = key)"

lemma filled_keeps: "filled env rel cluster uid item r = Inr r' \<Longrightarrow> ar_meta r' = ar_meta r \<and> rs_conditions (ar_status r') = rs_conditions (ar_status r)"
  by (auto simp: filled_def and_then_Inr with_resources_def split: if_splits sum.splits)

lemma as_string_text: "as_string v = Inr s \<Longrightarrow> text_or_empty v = s"
  by (cases v rule: as_string.cases) auto

lemma report_app_step:
  assumes "report_app env rel m app = Inr m'" and "named m"
  shows "named m' \<and> (\<forall>key. reported_clusters m' key = reported_clusters m key @ (if app_key app = Some key then [app_cluster app] else [])) \<and>
    fst ` set m' = fst ` set m \<union> set_option (app_key app)"
proof (cases app)
  case (JObj item)
  obtain cluster where c: "as_string (map_of item ''cluster'') = Inr cluster"
    using assms(1) JObj by (cases "as_string (map_of item ''cluster'')") (auto simp: report_app_def)
  obtain uid where u: "as_string (map_of item ''_uid'') = Inr uid"
    using assms(1) JObj c by (cases "as_string (map_of item ''_uid'')") (auto simp: report_app_def)
  obtain h where h: "hosting item = Inr h" using assms(1) JObj c u by (cases "hosting item") (auto simp: report_app_def)
  have r: "case h of None \<Rightarrow> m' = m | Some (ns, nm) \<Rightarrow>
      (let key = sync_key ns nm; old = (case map_of m key of Some r \<Rightarrow> r | None \<Rightarrow> new_report ns key)
       in \<exists>rep rep'. createOrUpdateAppSetReportConditions env cluster item old = Inr rep \<and> filled env rel cluster uid item rep = Inr rep' \<and>
            m' = mset_key key rep' m)"
    using assms(1) unfolding JObj report_app_def json.case c u h by (cases h) (auto simp: Let_def and_then_Inr)
  show ?thesis
  proof (cases h)
    case None
    with r h JObj assms(2) show ?thesis by (simp add: app_key_def)
  next
    case (Some key')
    obtain ns nm where k: "key' = (ns, nm)" by (cases key')
    define key where "key = sync_key ns nm"
    define old where "old = (case map_of m key of Some r \<Rightarrow> r | None \<Rightarrow> new_report ns key)"
    from r obtain rep rep' where rep: "createOrUpdateAppSetReportConditions env cluster item old = Inr rep"
      "filled env rel cluster uid item rep = Inr rep'" "m' = mset_key key rep' m"
      unfolding Some k option.case prod.case Let_def key_def [symmetric] old_def [symmetric] by blast
    from rep(1) have "ar_meta rep = ar_meta old" "map cl_cluster (rs_conditions (ar_status rep)) = map cl_cluster (rs_conditions (ar_status old)) @ [cluster]"
      by (auto simp: createOrUpdateAppSetReportConditions_def and_then_Inr)
    with filled_keeps [OF rep(2)] have new: "ar_meta rep' = ar_meta old"
      "map cl_cluster (rs_conditions (ar_status rep')) = map cl_cluster (rs_conditions (ar_status old)) @ [cluster]" by simp_all
    have old: "m_name (ar_meta old) = key" "map cl_cluster (rs_conditions (ar_status old)) = reported_clusters m key"
      using assms(2) by (auto simp: old_def named_def reported_clusters_def new_report_def split: option.splits)
    have a: "app_key app = Some key" "app_cluster app = cluster"
      using JObj h Some k as_string_text [OF c] by (simp_all add: app_key_def app_cluster_def key_def)
    have "reported_clusters m' k = (if k = key then reported_clusters m key @ [cluster] else reported_clusters m k)" for k
      using new(2) old(2) unfolding rep(3) by (simp add: reported_clusters_def)
    moreover have "named m'" using assms(2) new(1) old(1) unfolding rep(3) named_def by (simp add: distinct_update)
    moreover have "fst ` set m' = insert key (fst ` set m)" unfolding rep(3) by (simp add: dom_update)
    ultimately show ?thesis using a by auto
  qed
qed (use assms in \<open>simp_all add: report_app_def app_key_def\<close>)

lemma report_all_says:
  assumes "report_all env rel m apps = Inr m'" and "named m"
  shows "named m' \<and> (\<forall>key. reported_clusters m' key = reported_clusters m key @ map app_cluster (filter (\<lambda>a. app_key a = Some key) apps)) \<and>
    fst ` set m' = fst ` set m \<union> (\<Union>a \<in> set apps. set_option (app_key a))"
  using assms
proof (induction apps arbitrary: m)
  case (Cons app apps)
  from Cons.prems(1) obtain m1 where 1: "report_app env rel m app = Inr m1" and 2: "report_all env rel m1 apps = Inr m'"
    by (auto simp: and_then_Inr)
  note s = report_app_step [OF 1 Cons.prems(2)]
  from Cons.IH [OF 2 s [THEN conjunct1]] s show ?case by auto
qed simp

section \<open>The files\<close>

text \<open>Reports can be converted and files written; Go visits each entry of a map once.\<close>

definition writable :: "search_env \<Rightarrow> bool" where
  "writable env \<longleftrightarrow> (\<forall>r. \<exists>text. se_marshal env r = Inr text) \<and> (\<forall>file text. se_write env file text = None) \<and>
     (\<forall>m. distinct (map fst m) \<longrightarrow> set (se_range env m) = set m \<and> distinct (map fst (se_range env m)))"

lemma report_file_inj: "report_file env k = report_file env k' \<longleftrightarrow> k = k'"
  by (simp add: report_file_def)

lemma writes_run:
  assumes "writable env" and "distinct (map fst m)" and "\<forall>(key, r) \<in> set m. m_name (ar_meta r) = key"
  shows "\<exists>t. run_state (loopE (\<lambda>u entry. writeAppSetResourceFile env (snd entry)) () m) s = (Inr (), t) \<and>
    (\<forall>key. (case map_of m key of
       Some r \<Rightarrow> \<exists>text. se_marshal env r = Inr text \<and> map_of (sy_files t) (report_file env key) = Some text
     | None \<Rightarrow> map_of (sy_files t) (report_file env key) = map_of (sy_files s) (report_file env key)))"
  using assms(2,3)
proof (induction m arbitrary: s)
  case (Cons e m)
  obtain key r where e: "e = (key, r)" by (cases e)
  from assms(1) obtain body where body: "se_marshal env r = Inr body" unfolding writable_def by blast
  let ?s = "s\<lparr>sy_files := mset_key (report_file env key) body (sy_files s)\<rparr>"
  have w: "run_state (writeAppSetResourceFile env r) s = (Inr (), ?s)"
    using assms(1) body Cons.prems(2) e by (simp add: writeAppSetResourceFile_def writable_def)
  from Cons.prems have "distinct (map fst m)" "\<forall>(key, r) \<in> set m. m_name (ar_meta r) = key" by auto
  from Cons.IH [OF this, of ?s] obtain t where t: "run_state (loopE (\<lambda>u entry. writeAppSetResourceFile env (snd entry)) () m) ?s = (Inr (), t)"
    "\<forall>key. (case map_of m key of
       Some r \<Rightarrow> \<exists>text. se_marshal env r = Inr text \<and> map_of (sy_files t) (report_file env key) = Some text
     | None \<Rightarrow> map_of (sy_files t) (report_file env key) = map_of (sy_files ?s) (report_file env key))" by blast
  have "case map_of (e # m) k of
       Some r \<Rightarrow> \<exists>text. se_marshal env r = Inr text \<and> map_of (sy_files t) (report_file env k) = Some text
     | None \<Rightarrow> map_of (sy_files t) (report_file env k) = map_of (sy_files s) (report_file env k)" for k
  proof (cases "k = key")
    case True
    then have "map_of m k = None" using Cons.prems(1) e by (simp add: map_of_eq_None_iff)
    with t(2) [THEN spec, of k] True body e show ?thesis by simp
  next
    case False
    with t(2) [THEN spec, of k] e show ?thesis by (simp add: report_file_inj split: option.splits)
  qed
  with w t(1) e show ?case by auto
qed simp

lemma sync_run:
  assumes "answers env rel items L k" "0 < L" "length items < fuel * L"
  shows "\<exists>t. run_state (syncPages env fuel 0 (int L) []) s = (Some (report_all env rel [] (take (k * L) items)), t) \<and> sy_files t = sy_files s"
proof -
  have "0 < fuel" using assms(3) by (cases fuel) auto
  with pages_run [OF assms(1,2), of 0 fuel "[]" s] assms(3) show ?thesis by simp
qed

section \<open>Properties\<close>


text \<open>
  C6: the file of a report and the clean-up of the aggregation. The file is the one the aggregation looks for, different ApplicationSets have
  different files, and the clean-up recovers the ApplicationSet from the name of the file exactly when its name does not end
  in a dot or one of the letters of yaml.
\<close>
theorem report_file_attributed:
  assumes "CHR ''_'' \<notin> set ns" "CHR ''_'' \<notin> set nm" "nm \<noteq> []" "CHR ''_'' \<notin> set ns'"
  shows "report_file env (sync_key ns nm) = se_dir env @ ''/'' @ file_of_appset (ns, nm) \<and>
    (report_file env (sync_key ns nm) = report_file env (sync_key ns' nm') \<longleftrightarrow> (ns, nm) = (ns', nm')) \<and>
    (appset_of_file (file_of_appset (ns, nm)) = Some (ns, nm) \<longleftrightarrow> last nm \<notin> set ''.yaml'')"
proof (intro conjI)
  show "report_file env (sync_key ns nm) = se_dir env @ ''/'' @ file_of_appset (ns, nm)"
    by (simp add: report_file_def sync_key_def file_of_appset_def)
  have "(ns, nm) = (ns', nm')" if "ns @ CHR ''_'' # nm = ns' @ CHR ''_'' # nm'"
  proof -
    from arg_cong [OF that, of "split_char (CHR ''_'')"] have "ns = ns'" by (simp add: split_char_Cons assms(1,4))
    with that show ?thesis by simp
  qed
  then show "report_file env (sync_key ns nm) = report_file env (sync_key ns' nm') \<longleftrightarrow> (ns, nm) = (ns', nm')"
    by (auto simp: report_file_inj sync_key_def)
  let ?p = "\<lambda>c. c \<in> set ''.yaml''"
  define t where "t = trim_right_func ?p nm"
  obtain rest where rest: "nm = t @ rest" "\<forall>c \<in> set rest. ?p c"
    using trim_right_func_prefix [of nm ?p] unfolding t_def by blast
  have final: "t = [] \<or> \<not> ?p (last t)" using last_trim_right_func [of ?p nm] unfolding t_def by blast
  have "trim_right (file_of_appset (ns, nm)) ''.yaml'' = trim_right_func ?p ((ns @ CHR ''_'' # t) @ (rest @ ''.yaml''))"
    by (simp add: trim_right_def file_of_appset_def rest(1))
  also have "\<dots> = trim_right_func ?p (ns @ CHR ''_'' # t)" by (rule trim_right_func_append) (use rest(2) in auto)
  also have "\<dots> = ns @ CHR ''_'' # t" by (rule trim_right_func_id) (use final in auto)
  finally have "trim_right (file_of_appset (ns, nm)) ''.yaml'' = ns @ CHR ''_'' # t" .
  then have "appset_of_file (file_of_appset (ns, nm)) = Some (ns, t)"
    using assms(2) rest(1) by (simp add: appset_of_file_def split_char_Cons [OF assms(1)] split_char_no_sep)
  moreover have "t = nm \<longleftrightarrow> last nm \<notin> set ''.yaml''"
    using final trim_right_func_id [of nm ?p] assms(3) unfolding t_def by auto
  ultimately show "appset_of_file (file_of_appset (ns, nm)) = Some (ns, nm) \<longleftrightarrow> last nm \<notin> set ''.yaml''" by auto
qed

text \<open>
  a tick returns. For a service that answers its first \<open>k\<close> pages and fails after, any fuel above the number of full pages lets the
  tick return, whatever types its answers have and whatever files can be written.
\<close>
theorem search_returns:
  assumes "answers env rel items L k" "0 < L" "length items < fuel * L"
  shows "\<exists>r t. run_state (syncResources env (int L) fuel) s = (Some r, t)"
proof -
  obtain u where u: "run_state (syncPages env fuel 0 (int L) []) s = (Some (report_all env rel [] (take (k * L) items)), u)"
    using sync_run [OF assms] by blast
  show ?thesis
  proof (cases "report_all env rel [] (take (k * L) items)")
    case (Inr m)
    obtain w v where "run_state (loopE (\<lambda>u entry. writeAppSetResourceFile env (snd entry)) () (se_range env m)) u = (w, v)" by (rule prod.exhaust)
    with u Inr assms(2) show ?thesis by (simp add: syncResources_def)
  qed (use u assms(2) in \<open>simp add: syncResources_def\<close>)
qed

text \<open>With a negative batch size no page is short, and the loop does not end.\<close>
theorem negative_batch_never_returns:
  assumes "batch < 0" and "\<forall>n. \<exists>url. getSearchURL env n = Inr url \<and> se_request env url = None"
    and "\<forall>n url offset. and_then (se_send env n url (page_input offset batch)) readResult = Inr ([], [])"
  shows "fst (run_state (syncResources env batch fuel) s) = None"
proof -
  have page: "yields (getArgoAppsFromSearch env offset batch) (Inr [])" for offset
    unfolding getArgoAppsFromSearch_def
    by (rule yields_bind [OF search_yields [OF assms(2)]]) (use assms(3) in \<open>auto intro: yields_return\<close>)
  have "fst (run_state (syncPages env fuel offset batch m) s) = None" for offset m s
  proof (induction fuel arbitrary: offset s)
    case (Suc fuel)
    obtain t where "run_state (getArgoAppsFromSearch env offset batch) s = (Inr [], t)" using page by (rule yieldsE)
    with Suc assms(1) show ?case by simp
  qed simp
  then obtain t where "run_state (syncPages env fuel 0 batch []) s = (None, t)" by (metis prod.collapse)
  then show ?thesis using assms(1) by (simp add: syncResources_def)
qed

text \<open>
  where the resources of a report come from. Every resource taken from the answer is an item of a kind that is not excluded,
  whose first related UID is the application's and which has no owner.
\<close>
theorem related_resources_owned:
  assumes "getResourceMapList related uid = Inr refs" "ref \<in> set refs"
  shows "\<exists>m kind items item. JObj m \<in> set related \<and> map_of m ''kind'' = Some (JStr kind) \<and> kind \<notin> set ExcludeResourceList \<and>
    map_of m ''items'' = Some (JArr items) \<and> JObj item \<in> set items \<and>
    (\<exists>more. map_of item ''_relatedUids'' = Some (JArr (JStr uid # more))) \<and> map_of item ''_ownerUID'' \<in> {None, Some (JStr [])} \<and>
    getResourceRef item = Inr ref"
proof -
  have items: "\<exists>item. JObj item \<in> set xs \<and> is_related uid item = Inr True \<and> getResourceRef item = Inr ref"
    if "related_items uid xs = Inr rs" "ref \<in> set rs" for xs rs
    using that
  proof (induction xs arbitrary: rs)
    case (Cons x xs)
    then show ?case by (cases x) (fastforce simp: and_then_Inr split: if_splits)+
  qed simp
  have str: "as_string v = Inr s \<longleftrightarrow> v = Some (JStr s)" for v s by (cases v rule: as_string.cases) auto
  have rel: "(\<exists>more. map_of item ''_relatedUids'' = Some (JArr (JStr uid # more))) \<and> map_of item ''_ownerUID'' \<in> {None, Some (JStr [])}"
    if "is_related uid item = Inr True" for item
  proof -
    from that obtain v where v: "map_of item ''_relatedUids'' = Some v" by (cases "map_of item ''_relatedUids''") (auto simp: is_related_def)
    with that obtain x more where "v = JArr (x # more)" by (cases v) (auto simp: is_related_def split: list.splits)
    with that v have "and_then (as_string (Some x)) (\<lambda>u. Inr (u = uid \<and>
          (case map_of item ''_ownerUID'' of None \<Rightarrow> True | Some v \<Rightarrow> v = JStr []))) = (Inr True :: goerr + bool)" by (simp add: is_related_def)
    then have "x = JStr uid" "map_of item ''_ownerUID'' \<in> {None, Some (JStr [])}" unfolding and_then_Inr str by (auto split: option.splits)
    with v \<open>v = JArr (x # more)\<close> show ?thesis by simp
  qed
  from assms have "\<exists>m kind items rs. JObj m \<in> set related \<and> map_of m ''kind'' = Some (JStr kind) \<and> kind \<notin> set ExcludeResourceList \<and>
    map_of m ''items'' = Some (JArr items) \<and> related_items uid items = Inr rs \<and> ref \<in> set rs"
  proof (induction related arbitrary: refs)
    case (Cons x related)
    show ?case
    proof (cases x)
      case (JObj m)
      with Cons.prems obtain kind where k: "map_of m ''kind'' = Some (JStr kind)" by (auto simp: and_then_Inr str)
      show ?thesis
      proof (cases "kind \<notin> set ExcludeResourceList \<and> (\<exists>items. map_of m ''items'' = Some (JArr items))")
        case True
        then obtain items where i: "map_of m ''items'' = Some (JArr items)" by blast
        with Cons.prems JObj k True obtain rs rest where "related_items uid items = Inr rs" "getResourceMapList related uid = Inr rest" "refs = rs @ rest"
          by (auto simp: and_then_Inr)
        with Cons.IH [of rest] Cons.prems(2) JObj k i True show ?thesis by (auto 0 4)
      next
        case False
        with Cons.prems(1) JObj k have "getResourceMapList related uid = Inr refs" by (auto split: option.splits json.splits)
        from Cons.IH [OF this Cons.prems(2)] show ?thesis by auto
      qed
    qed (use Cons in auto)
  qed simp
  with items rel show ?thesis by blast
qed

section \<open>Witnesses\<close>

text \<open>Two applications of one ApplicationSet, on two clusters, in pages of one; the second page fails.\<close>

definition found_app :: "string \<Rightarrow> json" where
  "found_app cluster = JObj [(''cluster'', JStr cluster), (''_uid'', JStr ''u''), (''_hostingResource'', JStr ''ApplicationSet/team/set''),
     (''namespace'', JStr ''argo''), (''name'', JStr ''app'')]"

definition found_response :: "json list \<Rightarrow> json list \<Rightarrow> jobj" where
  "found_response items related =
     [(''data'', JObj [(''searchResult'', JArr [JObj [(''items'', JArr items), (''related'', JArr related)]])])]"

definition one_page_env :: search_env where
  "one_page_env = \<lparr>se_pod_ns = [], se_root_domain = None, se_ports = (\<lambda>n. Inr [4010]), se_request = (\<lambda>u. None),
     se_send = (\<lambda>n url i. if si_limit i = - 1 then Inr (found_response [] [])
        else if si_offset i = Some 0 then Inr (found_response [found_app ''c1''] []) else Inl (ErrText ''timeout'')),
     se_visit = (\<lambda>m. m), se_range = (\<lambda>m. m), se_unmarshal = (\<lambda>s. Inl (ErrText ''no json'')), se_marshal = (\<lambda>r. Inr (m_name (ar_meta r))),
     se_write = (\<lambda>f t. None), se_dir = ''reports''\<rparr>"

lemma found_result: "readResult (found_response items related) = Inr (items, related)"
  by (simp add: readResult_def found_response_def result_list_def)

lemma one_page_answers: "answers one_page_env (\<lambda>ns nm c. Inr []) [found_app ''c1'', found_app ''c2''] 1 1"
  unfolding answers_def
  by (auto simp: one_page_env_def page_input_def related_input_def found_result getSearchURL_def Let_def SearchDefaultNs_def)

lemma one_page_reports: "\<exists>m. report_all one_page_env (\<lambda>ns nm c. Inr []) [] (take (1 * 1) [found_app ''c1'', found_app ''c2'']) = Inr m"
  by (simp add: report_app_def found_app_def hosting_def createOrUpdateAppSetReportConditions_def report_conditions_def one_page_env_def
      has_prefix_def filled_def new_report_def app_resources_def getMissingResourceMapList_def Let_def)

lemma one_page_writable: "writable one_page_env"
  by (simp add: writable_def one_page_env_def)


theorem report_file_attributed_witness:
  "appset_of_file (file_of_appset (''team'', ''set'')) = Some (''team'', ''set'') \<and> appset_of_file (file_of_appset (''team'', ''delay'')) \<noteq> Some (''team'', ''delay'')"
  using report_file_attributed [of "''team''" "''set''" "''x''" one_page_env "''y''"] report_file_attributed [of "''team''" "''delay''" "''x''" one_page_env "''y''"]
  by simp

theorem search_returns_witness: "\<exists>r t. run_state (syncResources one_page_env 1 3) \<lparr>sy_sent = 0, sy_files = []\<rparr> = (Some r, t)"
  using search_returns [OF one_page_answers, of 3 "\<lparr>sy_sent = 0, sy_files = []\<rparr>"] by simp

theorem related_resources_owned_witness:
  "\<exists>item. JObj item \<in> set [JObj [(''kind'', JStr ''Service''), (''name'', JStr ''svc''), (''_relatedUids'', JArr [JStr ''u''])]] \<and>
    getResourceRef item = Inr \<lparr>rr_api_version = [], rr_kind = ''Service'', rr_name = ''svc'', rr_ns = []\<rparr>"
proof -
  let ?item = "[(''kind'', JStr ''Service''), (''name'', JStr ''svc''), (''_relatedUids'', JArr [JStr ''u''])]"
  have "getResourceMapList [JObj [(''kind'', JStr ''Service''), (''items'', JArr [JObj ?item])]] ''u'' =
      Inr [\<lparr>rr_api_version = [], rr_kind = ''Service'', rr_name = ''svc'', rr_ns = []\<rparr>]"
    by (simp add: ExcludeResourceList_def is_related_def getResourceRef_def or_empty_def api_version_def)
  from related_resources_owned [OF this] show ?thesis by auto
qed

end
