(* ===== verification/Maestro.thy ===== *)
theory Maestro
  imports Propagation Triples
begin

text \<open>
  The Maestro variant of the pull model (\<open>src/maestroapplication\<close>): the propagation controller puts the
  ManifestWork of an Application into a Maestro server instead of the hub's API server, and a periodic
  pass reads the works' feedback and writes it into the hub's Applications. The names, the two label and annotation
  tests, the payload's labels and annotations, the work's labels and annotations and the owner's
  name are written in the Go code a second time with the same text as in
  \<open>propagation-controller/application\<close>; here they are the definitions of Propagation.

  The Maestro server's works are the store \<open>w_maestro\<close>. Parameters: \<open>grpcsource.ToWorkPatch\<close>, as a
  function from the old and the new work to the effect of the patch; the feedback that the spoke has
  reported for a work; the decoding of a status text (the pointer to a map stays \<open>null\<close> for \<open>null\<close>).
\<close>

section \<open>The ManifestWork\<close>

definition generateAppNamespaceM :: "string \<Rightarrow> smap \<Rightarrow> string" where
  "generateAppNamespaceM ns annos =
     (let appNamespace = mget annos AnnotationKeyOCMManagedClusterAppNamespace in
      if length appNamespace > 0 then appNamespace
      else if length ns > 0 then ns
      else GitOpsNamespace)"

definition generateMaestroManifestWorkName :: "string \<Rightarrow> string \<Rightarrow> string" where
  "generateMaestroManifestWorkName appNs appName = appNs @ ''-'' @ appName"

text \<open>As in Propagation, the destination map is shared with the source Application.\<close>

definition prepared_specM :: "jobj \<Rightarrow> jobj" where
  "prepared_specM newSpec =
     (case jget_obj newSpec ''destination'' of
        Some d \<Rightarrow> mset_key ''destination''
          (JObj (mset_key ''server'' (JStr KubernetesInternalAPIServerAddr) (mset_key ''name'' (JStr []) d))) newSpec
      | None \<Rightarrow> newSpec)"

definition prepareApplicationForWorkPayloadM :: "unstructured \<Rightarrow> unstructured \<times> unstructured" where
  "prepareApplicationForWorkPayloadM app =
     (let f0 = argo_object ''Application'';
          f1 = (case jget_obj (u_fields app) ''operation'' of
                  Some operation \<Rightarrow> mset_key ''operation'' (JObj operation) f0 | None \<Rightarrow> f0);
          (f2, source) =
            (case jget_obj (u_fields app) ''spec'' of
               Some newSpec \<Rightarrow> (mset_key ''spec'' (JObj (prepared_specM newSpec)) f1,
                               mset_key ''spec'' (JObj (prepared_specM newSpec)) (u_fields app))
             | None \<Rightarrow> (f1, u_fields app));
          newApp = \<lparr>u_meta = (plain_meta (u_name app) (generateAppNamespaceM (u_ns app) (u_annos app))
                                (payload_labels app) (payload_annotations app))
                                \<lparr>m_finalizers := m_finalizers (u_meta app)\<rparr>,
                    u_fields = f2\<rparr>
      in (newApp, app\<lparr>u_fields := source\<rparr>))"

definition maestro_config :: "unstructured \<Rightarrow> manifest_config" where
  "maestro_config application =
     \<lparr>mf_id = \<lparr>ri_group = ''argoproj.io'', ri_resource = ''applications'',
               ri_ns = u_ns application, ri_name = u_name application\<rparr>,
      mf_feedback = [(''status'', ''.status'')],
      mf_strategy = Some \<lparr>us_type = StrategyServerSideApply,
        us_ssa = Some \<lparr>ssa_force = False,
          ssa_ignore = [(''OnSpokeChange'',
            [''.operation'',
             ''.metadata.annotations['' @ [CHR 0x22] @ ''argocd.argoproj.io/refresh'' @ [CHR 0x22] @ '']''])]\<rparr>\<rparr>\<rparr>"

text \<open>Returns the ManifestWork and the source Application, whose destination has changed.\<close>

definition generateManifestWorkM :: "string \<Rightarrow> string \<Rightarrow> unstructured \<Rightarrow> manifest_work \<times> unstructured" where
  "generateManifestWorkM nm ns app =
     (case prepareApplicationForWorkPayloadM app of
        (application, app') \<Rightarrow>
          (\<lparr>mw_meta = plain_meta nm ns (work_labels app) (work_annotations app),
            mw_spec = \<lparr>ws_manifests = [ObjManifest application], ws_configs = [maestro_config application],
                       ws_orphaning = None\<rparr>,
            mw_feedback = []\<rparr>, app'))"

section \<open>The propagation controller\<close>

type_synonym work_patch = "manifest_work \<Rightarrow> manifest_work \<Rightarrow> goerr + (manifest_work \<Rightarrow> manifest_work)"

definition isLocalClusterM :: "string \<Rightarrow> (world, bool) state" where
  "isLocalClusterM cluster = do {
     g \<leftarrow> get_cluster ([], cluster);
     State_Monad.return (case g of
       Inl e \<Rightarrow> False
     | Inr mc \<Rightarrow> equal_fold (mget (m_labels (mc_meta mc)) ''local-cluster'') ''true'')
   }"

definition deleteManifestworkFromMaestro :: "nsname \<Rightarrow> unit api" where
  "deleteManifestworkFromMaestro k = do {
     g \<leftarrow> get_maestro k;
     case g of
       Inl e \<Rightarrow> State_Monad.return (if is_not_found e then Inr () else Inl e)
     | Inr work \<Rightarrow> delete_maestro k
   }"

text \<open>Create the work or patch the one that is there.\<close>

definition storeWork :: "work_patch \<Rightarrow> nsname \<Rightarrow> manifest_work \<Rightarrow> unit api" where
  "storeWork toWorkPatch k newWork = do {
     g \<leftarrow> get_maestro k;
     case g of
       Inl e \<Rightarrow> (if is_not_found e then create_maestro k newWork else State_Monad.return (Inl e))
     | Inr work \<Rightarrow>
         (case toWorkPatch work newWork of
            Inl e \<Rightarrow> State_Monad.return (Inl e)
          | Inr patchData \<Rightarrow> patch_maestro k patchData)
   }"

definition reconcileLiveM :: "work_patch \<Rightarrow> nsname \<Rightarrow> unstructured \<Rightarrow> unit api" where
  "reconcileLiveM toWorkPatch k app = do {
     mc \<leftarrow> get_cluster ([], fst k);
     case mc of
       Inl e \<Rightarrow> State_Monad.return (Inl e)
     | Inr _ \<Rightarrow>
         (case generateManifestWorkM (snd k) (fst k) app of (newWork, app1) \<Rightarrow> do {
            r \<leftarrow> storeWork toWorkPatch k newWork;
            case r of
              Inl e \<Rightarrow> State_Monad.return (Inl e)
            | Inr _ \<Rightarrow>
                (case strip_triggers app1 of (app2, needsUpdate) \<Rightarrow>
                   if needsUpdate then update_app (u_ns app2, u_name app2) app2
                   else State_Monad.return (Inr ()))
          })
   }"

definition reconcileDeletedM :: "nsname \<Rightarrow> unstructured \<Rightarrow> unit api" where
  "reconcileDeletedM k app =
     (let app' = drop_finalizer app in do {
        d \<leftarrow> deleteManifestworkFromMaestro k;
        case d of
          Inl e \<Rightarrow> State_Monad.return (Inl e)
        | Inr _ \<Rightarrow> update_app (u_ns app', u_name app') app'
      })"

text \<open>The key of an Application's work in the Maestro server.\<close>

definition maestro_key :: "unstructured \<Rightarrow> nsname" where
  "maestro_key app =
     (mget (u_annos app) AnnotationKeyOCMManagedCluster, generateMaestroManifestWorkName (u_ns app) (u_name app))"

definition ReconcileM :: "work_patch \<Rightarrow> nsname \<Rightarrow> unit api" where
  "ReconcileM toWorkPatch req = do {
     g \<leftarrow> get_app req;
     case g of
       Inl e \<Rightarrow> State_Monad.return (Inl e)
     | Inr app \<Rightarrow> do {
         loc \<leftarrow> isLocalClusterM (fst (maestro_key app));
         if loc then State_Monad.return (Inr ())
         else if m_deleting (u_meta app) then reconcileDeletedM (maestro_key app) app
         else reconcileLiveM toWorkPatch (maestro_key app) app
       }
   }"

section \<open>The aggregation\<close>

record manifest_status =
  ms_ns :: string
  ms_name :: string
  ms_values :: "string option list" \<comment> \<open>the raw JSON of each feedback value\<close>

definition old_statusM :: "unstructured \<Rightarrow> json" where
  "old_statusM app = JObj (case jget_obj (u_fields app) ''status'' of Some st \<Rightarrow> st | None \<Rightarrow> [])"

definition UpdateArgoCDAppStatus ::
  "(string \<Rightarrow> goerr + json) \<Rightarrow> string option \<Rightarrow> string \<Rightarrow> string \<Rightarrow> unit api" where
  "UpdateArgoCDAppStatus decode jsonData appName appNamespace =
     (case jsonData of
        None \<Rightarrow> State_Monad.return (Inl (ErrText ''jsonData is nil''))
      | Some t \<Rightarrow>
          if t = [] then State_Monad.return (Inl (ErrText ''jsonData is empty''))
          else if appName = [] then State_Monad.return (Inl (ErrText ''appName is empty''))
          else if appNamespace = [] then State_Monad.return (Inl (ErrText ''appNamespace is empty''))
          else do {
            g \<leftarrow> get_app (appNamespace, appName);
            case g of
              Inl e \<Rightarrow> State_Monad.return (Inl e)
            | Inr app \<Rightarrow>
                (case decode t of
                   Inl e \<Rightarrow> State_Monad.return (Inl e)
                 | Inr newStatus \<Rightarrow>
                     if \<not> json_same (old_statusM app) newStatus
                     then update_app (u_ns app, u_name app)
                            (app\<lparr>u_fields := mset_key ''status'' newStatus (u_fields app)\<rparr>)
                     else State_Monad.return (Inr ()))
          })"

definition getAllManagedClusterNames :: "string list api" where
  "getAllManagedClusterNames = do {
     l \<leftarrow> list_clusters (\<lambda>_. True);
     State_Monad.return (case l of
       Inl e \<Rightarrow> Inl e
     | Inr cs \<Rightarrow> Inr (map (\<lambda>c. m_name (mc_meta c))
         (filter (\<lambda>c. map_of (m_labels (mc_meta c)) ''local-cluster'' \<noteq> Some ''true'') cs)))
   }"

text \<open>One work of the list; an error is only logged.\<close>

definition aggregateWork ::
  "(string \<Rightarrow> goerr + json) \<Rightarrow> (manifest_work \<Rightarrow> manifest_status list) \<Rightarrow> manifest_work \<Rightarrow> (world, unit) state" where
  "aggregateWork decode reported work =
     (case reported work of
        [] \<Rightarrow> State_Monad.return ()
      | m # _ \<Rightarrow>
          (case ms_values m of
             [] \<Rightarrow> State_Monad.return ()
           | v # _ \<Rightarrow> do {
               r \<leftarrow> UpdateArgoCDAppStatus decode v (ms_name m) (ms_ns m);
               State_Monad.return ()
             }))"

definition updateAllApplicationStatusPerCluster ::
  "(string \<Rightarrow> goerr + json) \<Rightarrow> (manifest_work \<Rightarrow> manifest_status list) \<Rightarrow> string \<Rightarrow> (world, unit) state" where
  "updateAllApplicationStatusPerCluster decode reported cluster = do {
     l \<leftarrow> list_maestro (\<lambda>mw. m_ns (mw_meta mw) = cluster);
     case l of
       Inl e \<Rightarrow> State_Monad.return ()
     | Inr works \<Rightarrow> loopM (\<lambda>_. aggregateWork decode reported) () works
   }"

definition houseKeepingM ::
  "(string \<Rightarrow> goerr + json) \<Rightarrow> (manifest_work \<Rightarrow> manifest_status list) \<Rightarrow> (world, unit) state" where
  "houseKeepingM decode reported = do {
     l \<leftarrow> getAllManagedClusterNames;
     case l of
       Inl e \<Rightarrow> State_Monad.return ()
     | Inr clusters \<Rightarrow> loopM (\<lambda>_. updateAllApplicationStatusPerCluster decode reported) () clusters
   }"

section \<open>Propagation and deletion\<close>

text \<open>
  What the code relies on from the patch that Maestro's client computes: applied to the work as read
  it gives the new content under the same key.
\<close>

definition same_content :: "manifest_work \<Rightarrow> manifest_work \<Rightarrow> bool" where
  "same_content a b \<longleftrightarrow> mw_spec a = mw_spec b \<and> m_labels (mw_meta a) = m_labels (mw_meta b) \<and>
     m_annos (mw_meta a) = m_annos (mw_meta b)"

definition patches_content :: "work_patch \<Rightarrow> bool" where
  "patches_content toWorkPatch \<longleftrightarrow> (\<forall>old new. \<exists>f. toWorkPatch old new = Inr f \<and> same_content (f old) new)"

lemma prepareM_source: "prepareApplicationForWorkPayloadM app = (a, app') \<Longrightarrow> u_meta app' = u_meta app"
  by (auto simp: prepareApplicationForWorkPayloadM_def Let_def split: option.splits)

lemma generateM_source: "u_meta (snd (generateManifestWorkM nm ns app)) = u_meta app"
  by (simp add: generateManifestWorkM_def prepareM_source split: prod.splits)

lemma strip_triggers_key:
  "u_ns (fst (strip_triggers a)) = u_ns a" "u_name (fst (strip_triggers a)) = u_name a"
  by (simp_all add: strip_triggers_def Let_def)

lemma storeWork_calm:
  assumes "calm w" and "patches_content p"
  shows "\<exists>work w1. run_state (storeWork p k new) w = (Inr (), w1) \<and> calm w1 \<and> w_apps w1 = w_apps w
    \<and> map_of (w_maestro w1) = (map_of (w_maestro w))(k \<mapsto> work) \<and> same_content work new"
proof (cases "map_of (w_maestro w) k")
  case None
  with assms(1) show ?thesis
    by (auto simp: storeWork_def run_simps has_key_def same_content_def)
next
  case (Some old)
  obtain f where "p old new = Inr f" "same_content (f old) new"
    using assms(2) unfolding patches_content_def by blast
  with Some assms(1) show ?thesis
    by (auto simp: storeWork_def run_simps)
qed


text \<open>
  C31: two Applications can share one work. When no request is rejected, deleting the Application \<open>c\<close> of
  namespace \<open>a-b\<close> removes the work under which the Application \<open>b-c\<close> of namespace \<open>a\<close>, of the same
  cluster, is known in the Maestro server, and no other work; the Application itself is released.
\<close>
theorem maestro_deletion_shared:
  fixes p :: work_patch
  assumes "calm w" and "keyed u_meta (w_apps w)" and "map_of (w_apps w) (a @ ''-'' @ b, c) = Some app"
    and "m_deleting (u_meta app)"
    and "\<And>mc. map_of (w_clusters w) ([], fst (maestro_key app)) = Some mc \<Longrightarrow>
      \<not> equal_fold (mget (m_labels (mc_meta mc)) ''local-cluster'') ''true''"
    and "u_ns other = a" and "u_name other = b @ ''-'' @ c"
    and "mget (u_annos other) AnnotationKeyOCMManagedCluster = mget (u_annos app) AnnotationKeyOCMManagedCluster"
  defines "w' \<equiv> snd (run_state (ReconcileM p (a @ ''-'' @ b, c)) w)"
  shows "fst (run_state (ReconcileM p (a @ ''-'' @ b, c)) w) = Inr ()
    \<and> map_of (w_maestro w') = (map_of (w_maestro w))(maestro_key other := None)
    \<and> map_of (w_apps w') = (map_of (w_apps w))((a @ ''-'' @ b, c) \<mapsto> drop_finalizer app)"
proof -
  have key: "(u_ns app, u_name app) = (a @ ''-'' @ b, c)" using keyedD [OF assms(2,3)] .
  then have same: "maestro_key other = maestro_key app"
    using assms(6-8) by (simp add: maestro_key_def generateMaestroManifestWorkName_def)
  have "(u_ns (drop_finalizer app), u_name (drop_finalizer app)) = (a @ ''-'' @ b, c)"
    using key by (simp add: drop_finalizer_eq)
  moreover have "has_key (w_apps w) (a @ ''-'' @ b, c)" using assms(3) by (simp add: has_key_def)
  moreover have "run_state (ReconcileM p (a @ ''-'' @ b, c)) w = run_state (reconcileDeletedM (maestro_key app) app) (consume (consume w))"
    using assms(1,3-5)
    by (cases "map_of (w_clusters w) ([], fst (maestro_key app))") (auto simp: ReconcileM_def isLocalClusterM_def run_simps)
  ultimately show ?thesis
    using assms(1) unfolding w'_def same
    by (cases "map_of (w_maestro w) (maestro_key app)")
       (auto simp: reconcileDeletedM_def deleteManifestworkFromMaestro_def run_simps has_key_def Let_def fun_upd_idem)
qed

section \<open>What a pass of the aggregation writes\<close>

text \<open>The Application a work's feedback is written to, and the first raw value.\<close>

definition report_on :: "(manifest_work \<Rightarrow> manifest_status list) \<Rightarrow> manifest_work \<Rightarrow> (nsname \<times> string option) option" where
  "report_on reported work =
     (case reported work of
        [] \<Rightarrow> None
      | m # _ \<Rightarrow> (case ms_values m of [] \<Rightarrow> None | v # _ \<Rightarrow> Some ((ms_ns m, ms_name m), v)))"

lemma aggregateWork_report:
  "aggregateWork decode reported work =
     (case report_on reported work of
        None \<Rightarrow> State_Monad.return ()
      | Some (k, v) \<Rightarrow> do { r \<leftarrow> UpdateArgoCDAppStatus decode v (snd k) (fst k); State_Monad.return () })"
  by (simp add: aggregateWork_def report_on_def split: list.splits)

lemma loop_once:
  assumes "x \<in> set xs" and "\<And>y. y \<in> set xs \<Longrightarrow> holds P (f () y) (\<lambda>_. P)"
    and "\<And>y. y \<in> set xs \<Longrightarrow> holds Q (f () y) (\<lambda>_. Q)" and "holds P (f () x) (\<lambda>_. Q)"
  shows "holds P (loopM f () xs) (\<lambda>_. Q)"
  using assms
proof (induction xs)
  case (Cons y ys)
  show ?case
  proof (cases "x = y")
    case True
    have "holds Q (loopM f () ys) (\<lambda>_. Q)"
      by (rule holds_loopM [where I = "\<lambda>_. Q"]) (use Cons.prems(3) in auto)
    with Cons.prems(4) True show ?thesis by (auto intro: holds_bind)
  next
    case False
    with Cons have "holds P (loopM f () ys) (\<lambda>_. Q)" by auto
    with Cons.prems(2) [of y] show ?thesis by (auto intro: holds_bind)
  qed
qed simp

text \<open>The states of a pass: the works and clusters stay, the Application under one key has a property.\<close>

definition pass :: "world \<Rightarrow> nsname \<Rightarrow> (unstructured option \<Rightarrow> bool) \<Rightarrow> world \<Rightarrow> bool" where
  "pass w k A s \<longleftrightarrow> keyed u_meta (w_apps s) \<and> w_maestro s = w_maestro w \<and> w_clusters s = w_clusters w \<and>
     (calm w \<longrightarrow> calm s) \<and> A (map_of (w_apps s) k)"

lemma pass_consume: "pass w k A s \<Longrightarrow> pass w k A (consume s)"
  by (simp add: pass_def)

lemma pass_update:
  assumes "pass w k A s" and "(u_ns a, u_name a) \<noteq> k"
  shows "pass w k A (w_apps_update (mset_key (u_ns a, u_name a) a) (consume (consume s)))"
  using assms by (simp add: pass_def keyed_mset_key)

lemma update_other:
  assumes "k' \<noteq> k"
  shows "holds (pass w k A) (UpdateArgoCDAppStatus decode v (snd k') (fst k')) (\<lambda>_. pass w k A)"
proof (rule holdsI)
  fix s r t assume s: "pass w k A s" and run: "run_state (UpdateArgoCDAppStatus decode v (snd k') (fst k')) s = (r, t)"
  show "pass w k A t"
  proof (cases "map_of (w_apps s) k'")
    case None
    with run have "t = s \<or> t = consume s"
      by (auto simp: UpdateArgoCDAppStatus_def run_simps split: option.splits if_splits)
    with s show ?thesis by (auto intro: pass_consume)
  next
    case (Some a)
    with s have key: "(u_ns a, u_name a) = k'" by (auto simp: pass_def dest: keyedD)
    have "pass w k A (w_apps_update (mset_key k' (a\<lparr>u_fields := f\<rparr>)) (consume (consume s)))" for f
      using pass_update [OF s, of "a\<lparr>u_fields := f\<rparr>"] assms key by simp
    moreover have "t = s \<or> t = consume s \<or> t = consume (consume s) \<or>
        (\<exists>f. t = w_apps_update (mset_key k' (a\<lparr>u_fields := f\<rparr>)) (consume (consume s)))"
      using run Some key
      by (auto simp: UpdateArgoCDAppStatus_def run_simps split: option.splits if_splits sum.splits)
    ultimately show ?thesis using s by (auto intro: pass_consume)
  qed
qed

text \<open>An Application with a status, otherwise as it was; the effect of a report.\<close>

definition like_app :: "unstructured \<Rightarrow> unstructured \<Rightarrow> bool" where
  "like_app a b \<longleftrightarrow> u_meta a = u_meta b \<and> (\<forall>f. f \<noteq> ''status'' \<longrightarrow> map_of (u_fields a) f = map_of (u_fields b) f)"

definition shows_status :: "json \<Rightarrow> unstructured \<Rightarrow> bool" where
  "shows_status j a \<longleftrightarrow> map_of (u_fields a) ''status'' = Some j \<or> json_same (old_statusM a) j"

abbreviation an_app :: "unstructured \<Rightarrow> unstructured option \<Rightarrow> bool" where
  "an_app app x \<equiv> \<exists>a. x = Some a \<and> like_app a app"

abbreviation shown :: "unstructured \<Rightarrow> json \<Rightarrow> unstructured option \<Rightarrow> bool" where
  "shown app j x \<equiv> \<exists>a. x = Some a \<and> like_app a app \<and> shows_status j a"

lemma update_this:
  assumes "calm w" and "t \<noteq> []" and "fst k \<noteq> []" and "snd k \<noteq> []" and "decode t = Inr j" and "(u_ns app, u_name app) = k"
  shows "holds (pass w k (an_app app)) (UpdateArgoCDAppStatus decode (Some t) (snd k) (fst k)) (\<lambda>_. pass w k (shown app j))"
proof (rule holdsI)
  fix s r u assume s: "pass w k (an_app app) s"
    and run: "run_state (UpdateArgoCDAppStatus decode (Some t) (snd k) (fst k)) s = (r, u)"
  obtain a where a: "map_of (w_apps s) k = Some a" "like_app a app" using s by (auto simp: pass_def)
  let ?b = "a\<lparr>u_fields := mset_key ''status'' j (u_fields a)\<rparr>"
  have m: "u_meta a = u_meta app" and cs: "calm s" and ks: "keyed u_meta (w_apps s)"
    using a(2) s assms(1) by (auto simp: like_app_def pass_def)
  have key: "(u_ns a, u_name a) = k" using m assms(6) by simp
  have "u = consume s \<and> json_same (old_statusM a) j \<or> u = w_apps_update (mset_key k ?b) (consume (consume s))"
    using run a assms cs m by (auto simp: UpdateArgoCDAppStatus_def run_simps has_key_def split: if_splits)
  moreover have "keyed u_meta (mset_key k ?b (w_apps s))" using keyed_mset_key [OF ks, of ?b] key by simp
  moreover have "like_app ?b app" using a(2) by (auto simp: like_app_def)
  ultimately show "pass w k (shown app j) u"
    using a s by (auto simp: pass_def shows_status_def)
qed

lemma aggregate_other:
  assumes "\<And>x. report_on reported v \<noteq> Some (k, x)"
  shows "holds (pass w k A) (aggregateWork decode reported v) (\<lambda>_. pass w k A)"
proof (cases "report_on reported v")
  case None
  then show ?thesis by (simp add: aggregateWork_report holds_return)
next
  case (Some kx)
  with assms have "fst kx \<noteq> k" by (cases kx) auto
  with Some show ?thesis
    by (cases kx) (auto simp: aggregateWork_report intro!: holds_bind [OF update_other] holds_return)
qed

lemma aggregate_this:
  assumes "report_on reported v = Some (k, Some t)" and "calm w" and "t \<noteq> []" and "fst k \<noteq> []" and "snd k \<noteq> []"
    and "decode t = Inr j" and "(u_ns app, u_name app) = k"
  shows "holds (pass w k (an_app app)) (aggregateWork decode reported v) (\<lambda>_. pass w k (shown app j))"
  using assms by (auto simp: aggregateWork_report intro!: holds_bind [OF update_this] holds_return)

text \<open>A pass with the invariant of its works.\<close>

lemma list_works_pass:
  "holds (pass w k A) (list_maestro (\<lambda>mw. m_ns (mw_meta mw) = cluster))
     (\<lambda>r s. pass w k A s \<and> (\<forall>ws. r = Inr ws \<longrightarrow> set ws \<subseteq> {v \<in> set (map snd (w_maestro w)). m_ns (mw_meta v) = cluster})
        \<and> (calm w \<longrightarrow> r = Inr (filter (\<lambda>mw. m_ns (mw_meta mw) = cluster) (map snd (w_maestro w)))))"
  by (rule holdsI) (auto simp: run_simps pass_def split: option.splits)

lemma clusters_pass:
  "holds (pass w k A) getAllManagedClusterNames
     (\<lambda>r s. pass w k A s \<and> (calm w \<longrightarrow> r = Inr (map (\<lambda>c. m_name (mc_meta c))
        (filter (\<lambda>c. map_of (m_labels (mc_meta c)) ''local-cluster'' \<noteq> Some ''true'') (map snd (w_clusters w))))))"
  by (rule holdsI) (auto simp: getAllManagedClusterNames_def run_simps pass_def split: option.splits)

lemma cluster_keeps:
  assumes "\<And>v. v \<in> set (map snd (w_maestro w)) \<Longrightarrow> holds (pass w k A) (aggregateWork decode reported v) (\<lambda>_. pass w k A)"
  shows "holds (pass w k A) (updateAllApplicationStatusPerCluster decode reported cluster) (\<lambda>_. pass w k A)"
  unfolding updateAllApplicationStatusPerCluster_def
proof (rule holds_bind [OF list_works_pass], rule holds_sum)
  fix r :: "goerr + manifest_work list" and ws
  assume r: "r = Inr ws"
  show "holds (\<lambda>s. pass w k A s \<and> (\<forall>ws. r = Inr ws \<longrightarrow> set ws \<subseteq> {v \<in> set (map snd (w_maestro w)). m_ns (mw_meta v) = cluster})
        \<and> (calm w \<longrightarrow> r = Inr (filter (\<lambda>mw. m_ns (mw_meta mw) = cluster) (map snd (w_maestro w)))))
      (loopM (\<lambda>_. aggregateWork decode reported) () ws) (\<lambda>_. pass w k A)"
  proof (cases "set ws \<subseteq> set (map snd (w_maestro w))")
    case True
    have "holds (pass w k A) (loopM (\<lambda>_. aggregateWork decode reported) () ws) (\<lambda>_. pass w k A)"
      by (rule holds_loopM [where I = "\<lambda>_. pass w k A"]) (use True assms in auto)
    then show ?thesis by (rule holds_pre) simp
  next
    case False
    show ?thesis by (rule holds_impossible) (use False r in auto)
  qed
qed (auto intro: holds_return)

lemma houseKeeping_keeps:
  assumes "\<And>v. v \<in> set (map snd (w_maestro w)) \<Longrightarrow> holds (pass w k A) (aggregateWork decode reported v) (\<lambda>_. pass w k A)"
  shows "holds (pass w k A) (houseKeepingM decode reported) (\<lambda>_. pass w k A)"
proof -
  have c: "holds (pass w k A) getAllManagedClusterNames (\<lambda>_. pass w k A)"
    by (rule holds_post [OF clusters_pass]) simp
  show ?thesis
    unfolding houseKeepingM_def
    by (intro holds_bind [OF c] holds_sum holds_return holds_loopM [where I = "\<lambda>_. pass w k A"] cluster_keeps assms) auto
qed


lemma cluster_shows:
  assumes "calm w" and "v \<in> set (map snd (w_maestro w))" and "m_ns (mw_meta v) = cluster"
    and "\<And>v A. v \<in> set (map snd (w_maestro w)) \<Longrightarrow> A = an_app app \<or> A = shown app j \<Longrightarrow>
      holds (pass w k A) (aggregateWork decode reported v) (\<lambda>_. pass w k A)"
    and "holds (pass w k (an_app app)) (aggregateWork decode reported v) (\<lambda>_. pass w k (shown app j))"
  shows "holds (pass w k (an_app app)) (updateAllApplicationStatusPerCluster decode reported cluster)
    (\<lambda>_. pass w k (shown app j))"
  unfolding updateAllApplicationStatusPerCluster_def
proof (rule holds_bind [OF list_works_pass])
  fix r :: "goerr + manifest_work list"
  let ?ws = "filter (\<lambda>mw. m_ns (mw_meta mw) = cluster) (map snd (w_maestro w))"
  let ?m = "\<lambda>r. case r of Inl e \<Rightarrow> State_Monad.return () | Inr ws \<Rightarrow> loopM (\<lambda>_. aggregateWork decode reported) () ws"
  show "holds (\<lambda>s. pass w k (an_app app) s \<and>
        (\<forall>ws. r = Inr ws \<longrightarrow> set ws \<subseteq> {v \<in> set (map snd (w_maestro w)). m_ns (mw_meta v) = cluster}) \<and>
        (calm w \<longrightarrow> r = Inr ?ws)) (?m r) (\<lambda>_. pass w k (shown app j))"
  proof (cases "r = Inr ?ws")
    case True
    have "holds (pass w k (an_app app)) (loopM (\<lambda>_. aggregateWork decode reported) () ?ws) (\<lambda>_. pass w k (shown app j))"
      by (rule loop_once [where x = v]) (use assms(2-5) in auto)
    then show ?thesis unfolding True sum.case by (rule holds_pre) simp
  next
    case False
    show ?thesis by (rule holds_impossible) (use assms(1) False in auto)
  qed
qed

text \<open>
  feedback arrives. When no request is rejected, a pass that finds a work of a cluster other than
  the local one which is reported on under an Application's namespace and name ends with that Application showing
  the decoded status (if every work reported on under that name reports the same one), its other fields as before.
\<close>
theorem maestro_status_lands:
  assumes "calm w" and "keyed u_meta (w_apps w)" and "map_of (w_apps w) k = Some app" and "fst k \<noteq> []" and "snd k \<noteq> []"
    and "mc \<in> set (map snd (w_clusters w))" and "map_of (m_labels (mc_meta mc)) ''local-cluster'' \<noteq> Some ''true''"
    and "work \<in> set (map snd (w_maestro w))" and "m_ns (mw_meta work) = m_name (mc_meta mc)"
    and "report_on reported work = Some (k, Some st)"
    and "\<And>v x. v \<in> set (map snd (w_maestro w)) \<Longrightarrow> report_on reported v = Some (k, x) \<Longrightarrow>
      \<exists>t. x = Some t \<and> t \<noteq> [] \<and> decode t = Inr j"
  shows "\<exists>a. map_of (w_apps (snd (run_state (houseKeepingM decode reported) w))) k = Some a
    \<and> like_app a app \<and> shows_status j a"
proof -
  have key: "(u_ns app, u_name app) = k" using keyedD [OF assms(2,3)] .
  have mine: "holds (pass w k (an_app app)) (aggregateWork decode reported v) (\<lambda>_. pass w k (shown app j))"
    if "v \<in> set (map snd (w_maestro w))" "report_on reported v = Some (k, x)" for v x
    using assms(11) [OF that] aggregate_this [of reported v k _ w decode j app] that(2) assms(1,4,5) key by auto
  have sub: "pass w k (shown app j) s \<Longrightarrow> pass w k (an_app app) s" for s by (auto simp: pass_def)
  have keep: "holds (pass w k A) (aggregateWork decode reported v) (\<lambda>_. pass w k A)"
    if v: "v \<in> set (map snd (w_maestro w))" and A: "A = an_app app \<or> A = shown app j" for v A
  proof (cases "\<exists>x. report_on reported v = Some (k, x)")
    case True
    then obtain x where "report_on reported v = Some (k, x)" ..
    from mine [OF v this] A show ?thesis by (auto elim!: holds_weaken intro: sub)
  next
    case False
    then show ?thesis by (intro aggregate_other) blast
  qed
  have one: "holds (pass w k (an_app app)) (updateAllApplicationStatusPerCluster decode reported (m_name (mc_meta mc)))
      (\<lambda>_. pass w k (shown app j))"
    by (rule cluster_shows [OF assms(1,8,9) keep mine [OF assms(8,10)]])
  let ?cs = "map (\<lambda>c. m_name (mc_meta c)) (filter (\<lambda>c. map_of (m_labels (mc_meta c)) ''local-cluster'' \<noteq> Some ''true'')
      (map snd (w_clusters w)))"
  have loop: "holds (pass w k (an_app app)) (loopM (\<lambda>_. updateAllApplicationStatusPerCluster decode reported) () ?cs)
      (\<lambda>_. pass w k (shown app j))"
  proof (rule loop_once)
    show "m_name (mc_meta mc) \<in> set ?cs" using assms(6,7) by auto
    show "holds (pass w k (an_app app)) (updateAllApplicationStatusPerCluster decode reported (m_name (mc_meta mc)))
      (\<lambda>_. pass w k (shown app j))" by (rule one)
  qed (intro cluster_keeps keep; simp)+
  have "holds (pass w k (an_app app)) (houseKeepingM decode reported) (\<lambda>_. pass w k (shown app j))"
    unfolding houseKeepingM_def
  proof (rule holds_bind [OF clusters_pass])
    fix r :: "goerr + string list"
    let ?m = "\<lambda>r. case r of Inl e \<Rightarrow> State_Monad.return ()
      | Inr cs \<Rightarrow> loopM (\<lambda>_. updateAllApplicationStatusPerCluster decode reported) () cs"
    show "holds (\<lambda>s. pass w k (an_app app) s \<and> (calm w \<longrightarrow> r = Inr ?cs)) (?m r) (\<lambda>_. pass w k (shown app j))"
    proof (cases "r = Inr ?cs")
      case True
      show ?thesis unfolding True sum.case by (rule holds_pre [OF loop]) simp
    next
      case False
      show ?thesis by (rule holds_impossible) (use assms(1) False in auto)
    qed
  qed
  moreover have "pass w k (an_app app) w" using assms(1-3) by (simp add: pass_def like_app_def)
  ultimately have "pass w k (shown app j) (snd (run_state (houseKeepingM decode reported) w))"
    by (rule holds_snd)
  then show ?thesis by (simp add: pass_def)
qed

section \<open>Witnesses\<close>

definition overwrite_patch :: work_patch where
  "overwrite_patch old new = Inr (overwrite_work new)"

lemma overwrite_patches: "patches_content overwrite_patch"
  by (simp add: patches_content_def overwrite_patch_def overwrite_work_def same_content_def)

lemma sample_keyM: "maestro_key sample_app = (''c1'', ''team-shop'')"
  by (simp add: maestro_key_def sample_app_facts generateMaestroManifestWorkName_def)

lemma sample_keyed: "keyed u_meta (w_apps (sample_world sample_app))"
  by (simp add: keyed_def sample_app_facts)


definition leaving_app :: unstructured where
  "leaving_app = \<lparr>u_meta = (plain_meta ''web'' ''team-shop'' [] [(AnnotationKeyOCMManagedCluster, ''c1'')])\<lparr>m_deleting := True\<rparr>,
     u_fields = []\<rparr>"

definition neighbour_app :: unstructured where
  "neighbour_app = \<lparr>u_meta = plain_meta ''shop-web'' ''team'' [] [(AnnotationKeyOCMManagedCluster, ''c1'')], u_fields = []\<rparr>"

definition shared_world :: world where
  "shared_world = empty_world\<lparr>w_apps := [((''team-shop'', ''web''), leaving_app), ((''team'', ''shop-web''), neighbour_app)],
     w_maestro := [(maestro_key neighbour_app, fst (generateManifestWorkM ''team-shop-web'' ''c1'' neighbour_app))]\<rparr>"

theorem maestro_deletion_shared_witness:
  "map_of (w_maestro shared_world) (maestro_key neighbour_app) \<noteq> None \<and>
   map_of (w_maestro (snd (run_state (ReconcileM overwrite_patch (''team-shop'', ''web'')) shared_world))) (maestro_key neighbour_app) = None"
proof -
  have k: "keyed u_meta (w_apps shared_world)"
    by (auto simp: keyed_def shared_world_def leaving_app_def neighbour_app_def split: if_splits)
  have "calm shared_world" "map_of (w_apps shared_world) (''team'' @ ''-'' @ ''shop'', ''web'') = Some leaving_app"
    "w_clusters shared_world = []"
    by (simp_all add: shared_world_def empty_world_def)
  from maestro_deletion_shared [OF this(1) k this(2), of neighbour_app overwrite_patch] this(3)
  show ?thesis by (simp add: shared_world_def leaving_app_def neighbour_app_def mget_def)
qed

text \<open>An Application that its annotation sends to the namespace of another one with the same name.\<close>

definition strayed_app :: unstructured where
  "strayed_app = \<lparr>u_meta = plain_meta ''shop'' ''team'' []
     [(AnnotationKeyOCMManagedCluster, ''c1''), (AnnotationKeyOCMManagedClusterAppNamespace, ''other'')], u_fields = []\<rparr>"

definition victim_app :: unstructured where
  "victim_app = \<lparr>u_meta = plain_meta ''shop'' ''other'' [] [], u_fields = []\<rparr>"

definition strayed_world :: world where
  "strayed_world = empty_world\<lparr>w_apps := [((''team'', ''shop''), strayed_app), ((''other'', ''shop''), victim_app)],
     w_clusters := [(([], ''c1''), sample_cluster)],
     w_maestro := [(maestro_key strayed_app, fst (generateManifestWorkM ''team-shop'' ''c1'' strayed_app))]\<rparr>"

definition sample_reported :: "manifest_work \<Rightarrow> manifest_status list" where
  "sample_reported mw = [\<lparr>ms_ns = ''other'', ms_name = ''shop'', ms_values = [Some ''{}'']\<rparr>]"

definition sample_decode :: "string \<Rightarrow> goerr + json" where
  "sample_decode t = Inr (JObj [(''health'', JStr t)])"

lemma strayed_world_facts:
  "calm strayed_world" "keyed u_meta (w_apps strayed_world)"
  "map_of (w_apps strayed_world) (''other'', ''shop'') = Some victim_app"
  "set (map snd (w_apps strayed_world)) = {strayed_app, victim_app}"
  "set (map snd (w_clusters strayed_world)) = {sample_cluster}"
  "set (map snd (w_maestro strayed_world)) = {fst (generateManifestWorkM ''team-shop'' ''c1'' strayed_app)}"
  by (auto simp: strayed_world_def empty_world_def keyed_def strayed_app_def victim_app_def split: if_splits)

lemma strayed_report: "report_on sample_reported v = Some ((''other'', ''shop''), Some ''{}'')"
  by (simp add: report_on_def sample_reported_def)

lemma strayed_ns: "m_ns (mw_meta (fst (generateManifestWorkM nm ns app))) = ns"
  by (simp add: generateManifestWorkM_def split: prod.splits)

theorem maestro_status_lands_witness:
  "\<exists>a. map_of (w_apps (snd (run_state (houseKeepingM sample_decode sample_reported) strayed_world))) (''other'', ''shop'') = Some a
     \<and> like_app a victim_app \<and> shows_status (JObj [(''health'', JStr ''{}'')]) a"
  by (rule maestro_status_lands [where mc = sample_cluster and work = "fst (generateManifestWorkM ''team-shop'' ''c1'' strayed_app)"
        and st = "''{}''"])
     (use strayed_world_facts strayed_report in
       \<open>simp_all add: strayed_ns sample_decode_def sample_cluster_def [THEN arg_cong [where f = mc_meta]]\<close>)


end
