(* ===== verification/SpokeAgent.thy ===== *)
theory SpokeAgent
  imports AddonEnvironment Propagation Triples
begin

text \<open>
  The ground of the addon agent on a spoke (\<open>src/gitopsaddon\<close>): the marks of what the agent owns, the
  pause marker (\<open>gitopsaddon_cleanup.go\<close>), the deletion of objects, the waiting. The world is now the API server of the
  managed cluster. Secrets, Namespaces and the pause marker are in the typed stores, every other
  object is in \<open>w_dynamic\<close> under the text ``apiVersion kind''; a typed read of one of those (a Deployment's
  conditions, a ServiceAccount's pull secrets) is a read of its JSON fields.

  While the agent sleeps the rest of the cluster goes on. \<open>sp_tick\<close> says what happens in each sleep, by the place of
  the code that waits and the number of the sleep there; \<open>sp_checks\<close> how many checks fit into the deadline
  of that place, \<open>sp_clock\<close> the time in seconds at each check.
\<close>

section \<open>Surroundings\<close>

datatype wait_point =
    PauseSettled | ArgoCDGone | ResourcesGone nat nat | Restored
  | PullSecret nat | OperatorReady | SubscriptionGone

type_synonym wait_step = "world \<Rightarrow> world"

record spoke_env =
  sp_env :: environment \<comment> \<open>\<open>os.Getenv\<close>\<close>
  sp_namespace_file :: "goerr + string"
  sp_cluster_scoped :: "string \<Rightarrow> bool"
  sp_tick :: "wait_point \<Rightarrow> nat \<Rightarrow> wait_step"
  sp_checks :: "wait_point \<Rightarrow> nat"
  sp_clock :: "nat \<Rightarrow> int"
  sp_cancelled :: "wait_point \<Rightarrow> nat \<Rightarrow> bool"
  sp_now :: string

definition sleep :: "wait_step \<Rightarrow> (world, unit) state" where
  "sleep f = State (\<lambda>w. ((), f w))"

lemma sleep_run [simp]: "run_state (sleep f) w = ((), f w)"
  by (simp add: sleep_def)

definition GetComponentNamespace :: "spoke_env \<Rightarrow> string \<Rightarrow> string" where
  "GetComponentNamespace sp defaultNs =
     (case sp_namespace_file sp of Inl e \<Rightarrow> defaultNs | Inr nsBytes \<Rightarrow> if length nsBytes = 0 then defaultNs else nsBytes)"

definition getArgoCDNamespace :: "spoke_env \<Rightarrow> string" where
  "getArgoCDNamespace sp =
     (let ns = trim_space (sp_env sp ''ARGOCD_NAMESPACE'') in if ns \<noteq> [] then ns else GitOpsNamespace)"

definition getOLMEnvOrDefault :: "spoke_env \<Rightarrow> string \<Rightarrow> string \<Rightarrow> string" where
  "getOLMEnvOrDefault sp envKey defaultValue = (if sp_env sp envKey \<noteq> [] then sp_env sp envKey else defaultValue)"

section \<open>Objects\<close>

definition GitOpsAddonLabelKey :: string where
  "GitOpsAddonLabelKey = ''apps.open-cluster-management.io/gitopsaddon''"
definition GitOpsAddonLabelValue :: string where
  "GitOpsAddonLabelValue = ''true''"
definition PauseMarkerName :: string where
  "PauseMarkerName = ''gitops-addon-pause''"
definition AddonDeploymentName :: string where
  "AddonDeploymentName = ''gitops-addon''"
definition SkipAnnotation :: string where
  "SkipAnnotation = ''gitops-addon.open-cluster-management.io/skip''"

definition addon_owned :: "unstructured \<Rightarrow> bool" where
  "addon_owned x \<longleftrightarrow> mget (u_labels x) GitOpsAddonLabelKey = GitOpsAddonLabelValue"

definition matches_label :: "unstructured \<Rightarrow> bool" where \<comment> \<open>\<open>client.MatchingLabels\<close>\<close>
  "matches_label x \<longleftrightarrow> map_of (u_labels x) GitOpsAddonLabelKey = Some GitOpsAddonLabelValue"

lemma matches_owned: "matches_label x \<longleftrightarrow> addon_owned x"
  by (auto simp: matches_label_def addon_owned_def mget_def GitOpsAddonLabelValue_def split: option.splits)

definition skipped :: "unstructured \<Rightarrow> bool" where
  "skipped x \<longleftrightarrow> mget (u_annos x) SkipAnnotation = ''true''"

definition stamp :: "unstructured \<Rightarrow> unstructured" where
  "stamp x = x\<lparr>u_meta := (u_meta x)\<lparr>m_labels := mset_key GitOpsAddonLabelKey GitOpsAddonLabelValue (u_labels x)\<rparr>\<rparr>"

lemma stamp_facts [simp]: "addon_owned (stamp x)" "u_ns (stamp x) = u_ns x" "u_name (stamp x) = u_name x" "u_fields (stamp x) = u_fields x"
  by (simp_all add: stamp_def addon_owned_def)

abbreviation obj_key :: "unstructured \<Rightarrow> nsname" where "obj_key x \<equiv> (u_ns x, u_name x)"

text \<open>Readings of JSON fields whose error and found flag the code drops.\<close>

definition str_at :: "jobj \<Rightarrow> string list \<Rightarrow> string" where
  "str_at m ks = (case nested_string m ks of Inr (Some s) \<Rightarrow> s | _ \<Rightarrow> [])"

definition slice_at :: "jobj \<Rightarrow> string list \<Rightarrow> json list" where
  "slice_at m ks = (case nested_field m ks of Inr (Some (JArr xs)) \<Rightarrow> xs | _ \<Rightarrow> [])"

definition map_at :: "jobj \<Rightarrow> string list \<Rightarrow> jobj option" where
  "map_at m ks = (case nested_field m ks of Inr (Some (JObj o')) \<Rightarrow> Some o' | _ \<Rightarrow> None)"

text \<open>A condition of the given type that is true.\<close>

definition cond_true :: "string \<Rightarrow> json \<Rightarrow> bool" where
  "cond_true t c = (case c of JObj m \<Rightarrow> map_of m ''type'' = Some (JStr t) \<and> map_of m ''status'' = Some (JStr ''True'') | _ \<Rightarrow> False)"

abbreviation K_Subscription where "K_Subscription \<equiv> ''operators.coreos.com/v1alpha1 Subscription''"
abbreviation K_InstallPlan where "K_InstallPlan \<equiv> ''operators.coreos.com/v1alpha1 InstallPlan''"
abbreviation K_CSV where "K_CSV \<equiv> ''operators.coreos.com/v1alpha1 ClusterServiceVersion''"
abbreviation K_OperatorGroup where "K_OperatorGroup \<equiv> ''operators.coreos.com/v1 OperatorGroup''"
abbreviation K_CRD where "K_CRD \<equiv> ''apiextensions.k8s.io/v1 CustomResourceDefinition''"
abbreviation K_ClusterClaim where "K_ClusterClaim \<equiv> ''cluster.open-cluster-management.io/v1alpha1 ClusterClaim''"
abbreviation K_ArgoCD where "K_ArgoCD \<equiv> ''argoproj.io/v1beta1 ArgoCD''"
abbreviation K_GitopsService where "K_GitopsService \<equiv> ''pipelines.openshift.io/v1alpha1 GitopsService''"
abbreviation K_Deployment where "K_Deployment \<equiv> ''apps/v1 Deployment''"
abbreviation K_ServiceAccount where "K_ServiceAccount \<equiv> ''v1 ServiceAccount''"
abbreviation K_Pod where "K_Pod \<equiv> ''v1 Pod''"
abbreviation K_ClusterRole where "K_ClusterRole \<equiv> ''rbac.authorization.k8s.io/v1 ClusterRole''"
abbreviation K_ClusterRoleBinding where "K_ClusterRoleBinding \<equiv> ''rbac.authorization.k8s.io/v1 ClusterRoleBinding''"

section \<open>Requests\<close>

text \<open>
  Deletion: an object with finalizers is only marked, for those who hold them to finish.
\<close>

definition deleted_at :: "nsname \<Rightarrow> unstructured store \<Rightarrow> unstructured store" where
  "deleted_at k st =
     (case map_of st k of
        None \<Rightarrow> st
      | Some x \<Rightarrow> if m_finalizers (u_meta x) = [] then mdel_key k st
                 else mset_key k (x\<lparr>u_meta := (u_meta x)\<lparr>m_deleting := True\<rparr>\<rparr>) st)"

definition delete_dynamic :: "string \<Rightarrow> nsname \<Rightarrow> unit api" where
  "delete_dynamic knd k = request (\<lambda>w.
     if has_key (dynamic_of knd w) k then (Inr (), upd_dynamic knd (deleted_at k) w)
     else (Inl (not_found knd k), w))"

lemma delete_dynamic_run [run_simps]:
  "run_state (delete_dynamic knd k) w =
     (case verdict w of
        Some e \<Rightarrow> (Inl e, consume w)
      | None \<Rightarrow> (if has_key (dynamic_of knd w) k then (Inr (), upd_dynamic knd (deleted_at k) (consume w))
                 else (Inl (not_found knd k), consume w)))"
  by (auto simp: delete_dynamic_def request_run dynamic.sel_consume split: option.splits)

lemma deleted_at_other: "k' \<noteq> k \<Longrightarrow> map_of (deleted_at k st) k' = map_of st k'"
  by (auto simp: deleted_at_def split: option.splits)

text \<open>
  The server stores an object under its name, and under its namespace unless the kind is cluster-scoped.
  An update replaces what the server does not keep to itself: the status has a resource of its own.
\<close>

definition placed :: "nsname \<Rightarrow> unstructured \<Rightarrow> unstructured" where
  "placed k x = x\<lparr>u_meta := (u_meta x)\<lparr>m_ns := fst k, m_name := snd k\<rparr>\<rparr>"

definition keep_status :: "unstructured \<Rightarrow> jobj \<Rightarrow> jobj" where
  "keep_status old fs = (case map_of (u_fields old) ''status'' of None \<Rightarrow> mdel_key ''status'' fs | Some s \<Rightarrow> mset_key ''status'' s fs)"

lemma keep_status_lookup: "map_of (keep_status old fs) k = (if k = ''status'' then map_of (u_fields old) k else map_of fs k)"
  by (simp add: keep_status_def split: option.splits)

lemma keep_status_same:
  assumes "map_of fs ''status'' = map_of (u_fields old) ''status''" shows "keep_status old fs = fs"
proof (cases "map_of (u_fields old) ''status''")
  case None
  with assms have "''status'' \<notin> fst ` set fs" by (simp add: map_of_eq_None_iff)
  then show ?thesis by (simp add: keep_status_def None delete_idem)
next
  case (Some s)
  with assms show ?thesis by (simp add: keep_status_def update_triv)
qed

definition replaced :: "nsname \<Rightarrow> unstructured \<Rightarrow> unstructured \<Rightarrow> unstructured" where
  "replaced k x old =
     placed k (x\<lparr>u_meta := (u_meta x)\<lparr>m_uid := m_uid (u_meta old), m_deleting := m_deleting (u_meta old)\<rparr>,
       u_fields := keep_status old (u_fields x)\<rparr>)"

definition create_object :: "string \<Rightarrow> nsname \<Rightarrow> unstructured \<Rightarrow> unit api" where
  "create_object knd k x = create_dynamic knd k (placed k x)"

definition replace_object :: "string \<Rightarrow> nsname \<Rightarrow> unstructured \<Rightarrow> unit api" where
  "replace_object knd k x = patch_dynamic knd k (replaced k x)"

lemmas [run_simps] = create_object_def replace_object_def

lemma placed_key [simp]: "obj_key (placed k x) = k" "obj_key (replaced k x old) = k"
  by (simp_all add: placed_def replaced_def)

text \<open>The key of an object: those of cluster-scoped kinds have no namespace.\<close>

definition gvk_of :: "unstructured \<Rightarrow> string" where
  "gvk_of x = str_at (u_fields x) [''apiVersion''] @ '' '' @ str_at (u_fields x) [''kind'']"

definition key_of :: "spoke_env \<Rightarrow> unstructured \<Rightarrow> nsname" where
  "key_of sp x = (if sp_cluster_scoped sp (gvk_of x) then [] else u_ns x, u_name x)"

section \<open>The pause marker\<close>

abbreviation marker_key :: nsname where "marker_key \<equiv> (AddonAgentNamespace, PauseMarkerName)"

text \<open>Fails closed: an error other than not-found counts as paused.\<close>

definition IsPaused :: "(world, bool) state" where
  "IsPaused = do {
     g \<leftarrow> get_configmap marker_key;
     State_Monad.return (case g of
       Inl e \<Rightarrow> \<not> is_not_found e
     | Inr cm \<Rightarrow> mget (cm_data cm) ''paused'' = ''true'')
   }"

definition pause_marker :: "string \<Rightarrow> owner_ref list \<Rightarrow> configmap" where
  "pause_marker now owners =
     \<lparr>cm_meta = (plain_meta PauseMarkerName AddonAgentNamespace [(''app'', ''gitops-addon'')] [])\<lparr>m_owners := owners\<rparr>,
      cm_data = [(''paused'', ''true''), (''reason'', ''cleanup''), (''timestamp'', now)]\<rparr>"

definition placeMarker :: "spoke_env \<Rightarrow> owner_ref list \<Rightarrow> unit api" where
  "placeMarker sp owners = do {
     r \<leftarrow> create_configmap marker_key (pause_marker (sp_now sp) owners);
     State_Monad.return (case r of
       Inl e \<Rightarrow> if is_already_exists e then Inr () else Inl (Wrapped ''failed to create pause marker'' e)
     | Inr _ \<Rightarrow> Inr ())
   }"

definition createPauseMarker :: "spoke_env \<Rightarrow> unit api" where
  "createPauseMarker sp = do {
     g \<leftarrow> get_dynamic K_Deployment (AddonAgentNamespace, AddonDeploymentName);
     case g of
       Inl e \<Rightarrow>
         (if is_not_found e then placeMarker sp []
          else State_Monad.return (Inl (Wrapped ''failed to get deployment for owner reference'' e)))
     | Inr d \<Rightarrow>
         placeMarker sp
           (if m_uid (u_meta d) \<noteq> []
            then [\<lparr>or_apiVersion = ''apps/v1'', or_kind = ''Deployment'', or_name = u_name d\<rparr>] else [])
   }"

definition deletePauseMarker :: "unit api" where
  "deletePauseMarker = do {
     r \<leftarrow> delete_configmap marker_key;
     State_Monad.return (case r of Inl e \<Rightarrow> if is_not_found e then Inr () else Inl e | Inr _ \<Rightarrow> Inr ())
   }"

text \<open>Only a marker without an owner is deleted: the others go with their owner.\<close>

definition deleteOrphanedPauseMarker :: "unit api" where
  "deleteOrphanedPauseMarker = do {
     g \<leftarrow> get_configmap marker_key;
     case g of
       Inl e \<Rightarrow> State_Monad.return (if is_not_found e then Inr () else Inl (Wrapped ''failed to get pause marker'' e))
     | Inr cm \<Rightarrow>
         (if length (m_owners (cm_meta cm)) > 0 then State_Monad.return (Inr ())
          else do {
            d \<leftarrow> delete_configmap marker_key;
            State_Monad.return (case d of
              Inl e \<Rightarrow> if is_not_found e then Inr () else Inl (Wrapped ''failed to delete orphaned pause marker'' e)
            | Inr _ \<Rightarrow> Inr ())
          })
   }"

text \<open>At start-up; every failure is only logged.\<close>

definition ClearStalePauseMarker :: "(world, unit) state" where
  "ClearStalePauseMarker = do {
     g \<leftarrow> get_configmap marker_key;
     case g of
       Inl e \<Rightarrow> State_Monad.return ()
     | Inr cm \<Rightarrow> do { d \<leftarrow> delete_configmap marker_key; State_Monad.return () }
   }"

definition replicas_of :: "unstructured \<Rightarrow> int option" where
  "replicas_of d = (case nested_field (u_fields d) [''spec'', ''replicas''] of Inr (Some (JNum n)) \<Rightarrow> Some n | _ \<Rightarrow> None)"

text \<open>A nested field of a typed object, whose parents are structs.\<close>

definition put_at :: "string list \<Rightarrow> json \<Rightarrow> unstructured \<Rightarrow> unstructured" where
  "put_at ks v x = (case set_nested (u_fields x) v ks of Inr fs \<Rightarrow> x\<lparr>u_fields := fs\<rparr> | Inl e \<Rightarrow> x)"

lemma put_at_meta [simp]: "u_meta (put_at ks v x) = u_meta x"
  by (simp add: put_at_def split: sum.splits)

definition scaleDownAddonAgent :: "(world, unit) state" where
  "scaleDownAddonAgent = do {
     g \<leftarrow> get_dynamic K_Deployment (AddonAgentNamespace, AddonDeploymentName);
     case g of
       Inl e \<Rightarrow> State_Monad.return ()
     | Inr d \<Rightarrow>
         (if replicas_of d = Some 0 then State_Monad.return ()
          else do {
            u \<leftarrow> replace_object K_Deployment (obj_key d) (put_at [''spec'', ''replicas''] (JNum 0) d);
            State_Monad.return ()
          })
   }"

section \<open>Comparing the data of Secrets\<close>

text \<open>Two maps have the same number of keys, and each of the first is in the second with the same value.\<close>

definition secretDataEqual :: "smap \<Rightarrow> smap \<Rightarrow> bool" where
  "secretDataEqual a b \<longleftrightarrow> length a = length b \<and> list_all (\<lambda>(k, av). map_of b k = Some av) a"

text \<open>On maps without double keys, as Go's are, the comparison is that of the maps.\<close>

lemma secretDataEqual_iff:
  assumes "distinct (map fst a)" and "distinct (map fst b)"
  shows "secretDataEqual a b \<longleftrightarrow> map_of a = map_of b"
proof
  have d: "distinct a" "distinct b" using assms by (auto simp: distinct_map)
  assume eq: "secretDataEqual a b"
  have sub: "set a \<subseteq> set b" using eq by (auto simp: secretDataEqual_def list_all_iff dest!: map_of_SomeD)
  moreover have "card (set a) = card (set b)"
    using eq d by (simp add: secretDataEqual_def distinct_card)
  ultimately have "set a = set b" by (simp add: card_subset_eq)
  with assms show "map_of a = map_of b" by (simp add: map_of_inject_set)
next
  have d: "distinct a" "distinct b" using assms by (auto simp: distinct_map)
  assume "map_of a = map_of b"
  with assms have "set a = set b" by (simp add: map_of_inject_set)
  then have "length a = length b" using d distinct_card by metis
  with assms \<open>map_of a = map_of b\<close> show "secretDataEqual a b"
    by (auto simp: secretDataEqual_def list_all_iff map_of_eq_Some_iff [OF assms(1), symmetric])
qed

lemma secretDataEqual_refl: "distinct (map fst a) \<Longrightarrow> secretDataEqual a a"
  by (simp add: secretDataEqual_iff)

section \<open>An object that stays\<close>

text \<open>
  One object of a keyed store, followed through a handler: the frame in which the agent's restraint is
  stated. The rest of the cluster is assumed to keep it while the agent sleeps (\<open>stable\<close>).
\<close>

definition kept :: "string \<Rightarrow> nsname \<Rightarrow> unstructured \<Rightarrow> world \<Rightarrow> bool" where
  "kept knd k x w \<longleftrightarrow> keyed u_meta (dynamic_of knd w) \<and> map_of (dynamic_of knd w) k = Some x"

abbreviation keeps :: "string \<Rightarrow> nsname \<Rightarrow> unstructured \<Rightarrow> world \<Rightarrow> world \<Rightarrow> bool" where
  "keeps knd k x \<equiv> (\<lambda>s t. kept knd k x s \<longrightarrow> kept knd k x t)"

definition stable :: "string \<Rightarrow> nsname \<Rightarrow> unstructured \<Rightarrow> spoke_env \<Rightarrow> bool" where
  "stable knd k x sp \<longleftrightarrow> (\<forall>p n w. kept knd k x w \<longrightarrow> kept knd k x (sp_tick sp p n w))"

lemma dynamic_of_update [simp]:
  "dynamic_of knd' (upd_dynamic knd f w) = (if knd' = knd then f (dynamic_of knd w) else dynamic_of knd' w)"
  by (simp add: dynamic_of_def upd_dynamic_def)

lemma dynamic_of_sel [simp]:
  "dynamic_of knd (w_configmaps_update f w) = dynamic_of knd w" "dynamic_of knd (w_secrets_update g w) = dynamic_of knd w"
  "dynamic_of knd (w_namespaces_update h w) = dynamic_of knd w" "dynamic_of knd (consume w) = dynamic_of knd w"
  by (simp_all add: dynamic_of_def)

lemma kept_consume [simp]: "kept knd k x (consume w) = kept knd k x w"
  by (simp add: kept_def)

lemma kept_other_stores [simp]:
  "kept knd k x (w_configmaps_update f w) = kept knd k x w" "kept knd k x (w_secrets_update g w) = kept knd k x w"
  "kept knd k x (w_namespaces_update h w) = kept knd k x w"
  by (simp_all add: kept_def)

lemma kept_quiet: "state_io_rel quiet m \<Longrightarrow> state_io_rel (keeps knd k x) m"
  by (auto intro!: state_io_relI dest!: state_io_relD simp: kept_def dynamic_of_def quiet_sel)

lemma keyed_put: "keyed u_meta st \<Longrightarrow> obj_key x = k \<Longrightarrow> keyed u_meta (mset_key k x st)"
  using keyed_mset_key [of u_meta st x] by simp

lemma keyed_deleted_at: "keyed u_meta st \<Longrightarrow> keyed u_meta (deleted_at k st)"
  by (auto simp: deleted_at_def keyed_mdel_key split: option.splits intro!: keyed_put dest: keyedD)

lemma kept_delete:
  assumes "(knd', k') \<noteq> (knd, k)" shows "state_io_rel (keeps knd k x) (delete_dynamic knd' k')"
  using assms
  by (auto intro!: state_io_relI simp: run_simps kept_def keyed_deleted_at deleted_at_other split: option.splits if_splits)

lemma kept_replace:
  assumes "(knd', k') \<noteq> (knd, k)" shows "state_io_rel (keeps knd k x) (replace_object knd' k' y)"
  using assms
  by (auto intro!: state_io_relI keyed_put simp: run_simps kept_def split: option.splits if_splits)

lemma kept_create: "state_io_rel (keeps knd k x) (create_object knd' k' y)"
  by (auto intro!: state_io_relI keyed_put simp: run_simps kept_def has_key_def split: option.splits if_splits)

lemma kept_typed:
  "state_io_rel (keeps knd k x) (create_configmap k' c)" "state_io_rel (keeps knd k x) (delete_configmap k')"
  "state_io_rel (keeps knd k x) (create_namespace k' n)" "state_io_rel (keeps knd k x) (update_namespace k' n)"
  "state_io_rel (keeps knd k x) (create_secret s)" "state_io_rel (keeps knd k x) (update_secret s)"
  "state_io_rel (keeps knd k x) (delete_secret k')"
  by (auto intro!: state_io_relI simp: run_simps split: option.splits if_splits)

lemma kept_sleep: "stable knd k x sp \<Longrightarrow> state_io_rel (keeps knd k x) (sleep (sp_tick sp p n))"
  by (auto intro!: state_io_relI simp: stable_def)

lemmas keep_rules = inv_frame.frame_rules kept_create kept_typed kept_quiet [OF get_quiet] kept_quiet [OF list_quiet] kept_sleep

text \<open>A listed object that the list's condition tells from the kept one has another key.\<close>

lemma listed_other:
  assumes "kept knd k x w" and "run_state (list_dynamic knd P) w = (Inr xs, t)" and "y \<in> set xs" and "\<not> P x"
  shows "obj_key y \<noteq> k"
proof
  assume k: "obj_key y = k"
  have "P y" "y \<in> set (map snd (dynamic_of knd w))" using dynamic.list_result [OF assms(2)] assms(3) by auto
  then have "map_of (dynamic_of knd w) k = Some y"
    using keyed_listed [of u_meta "dynamic_of knd w" y] assms(1) k by (auto simp: kept_def)
  with assms(1) \<open>P y\<close> assms(4) show False by (simp add: kept_def)
qed

lemma got_other:
  assumes "kept knd k x w" and "run_state (get_dynamic knd k') w = (Inr y, t)"
  shows "obj_key y = k' \<and> (k' = k \<longrightarrow> y = x)"
  using assms keyedD [of u_meta "dynamic_of knd w" k' y]
  by (auto simp: run_simps kept_def split: option.splits)

lemma keep_get:
  assumes "\<And>r. (\<And>y. r = Inr y \<Longrightarrow> knd' = knd \<Longrightarrow> obj_key y = k' \<and> (k' = k \<longrightarrow> y = x)) \<Longrightarrow> state_io_rel (keeps knd k x) (f r)"
  shows "state_io_rel (keeps knd k x) (State_Monad.bind (get_dynamic knd' k') f)"
proof (rule inv_bind [OF kept_quiet [OF get_quiet]])
  fix r s t assume "kept knd k x s" "run_state (get_dynamic knd' k') s = (r, t)"
  then show "state_io_rel (keeps knd k x) (f r)" using got_other by (intro assms) blast
qed

lemma keep_list:
  assumes "\<And>r. (\<And>xs y. r = Inr xs \<Longrightarrow> y \<in> set xs \<Longrightarrow> P y \<and> (knd' = knd \<and> \<not> P x \<longrightarrow> obj_key y \<noteq> k) \<and>
      (knd' = knd \<and> obj_key y = k \<longrightarrow> y = x)) \<Longrightarrow> state_io_rel (keeps knd k x) (f r)"
  shows "state_io_rel (keeps knd k x) (State_Monad.bind (list_dynamic knd' P) f)"
proof (rule inv_bind [OF kept_quiet [OF list_quiet]])
  fix r s t assume k: "kept knd k x s" and l: "run_state (list_dynamic knd' P) s = (r, t)"
  show "state_io_rel (keeps knd k x) (f r)"
  proof (rule assms)
    fix xs y assume r: "r = Inr xs" and y: "y \<in> set xs"
    have p: "P y" "y \<in> set (map snd (dynamic_of knd' s))"
      using dynamic.list_result [OF l [unfolded r]] y by auto
    have "y = x" if "knd' = knd" "obj_key y = k"
      using keyed_listed [of u_meta "dynamic_of knd' s" y] p(2) k that by (auto simp: kept_def)
    with p(1) show "P y \<and> (knd' = knd \<and> \<not> P x \<longrightarrow> obj_key y \<noteq> k) \<and> (knd' = knd \<and> obj_key y = k \<longrightarrow> y = x)" by blast
  qed
qed

text \<open>The usual reading, whose failure ends the handler or leads it elsewhere.\<close>

lemma keep_got:
  assumes "\<And>e. state_io_rel (keeps knd k x) (f e)"
    and "\<And>y. knd' = knd \<longrightarrow> obj_key y = k' \<and> (k' = k \<longrightarrow> y = x) \<Longrightarrow> state_io_rel (keeps knd k x) (g y)"
  shows "state_io_rel (keeps knd k x)
    (State_Monad.bind (get_dynamic knd' k') (\<lambda>r. case r of Inl e \<Rightarrow> f e | Inr y \<Rightarrow> g y))"
  by (rule keep_get) (auto intro!: assms inv_frame.sum_frame)

lemma keep_listed:
  assumes "\<And>e. state_io_rel (keeps knd k x) (f e)"
    and "\<And>xs. \<forall>y \<in> set xs. P y \<and> (knd' = knd \<and> obj_key y = k \<longrightarrow> y = x) \<Longrightarrow> state_io_rel (keeps knd k x) (g xs)"
  shows "state_io_rel (keeps knd k x)
    (State_Monad.bind (list_dynamic knd' P) (\<lambda>r. case r of Inl e \<Rightarrow> f e | Inr xs \<Rightarrow> g xs))"
  by (rule keep_list) (auto intro!: assms inv_frame.sum_frame)

text \<open>An agent without settings in a cluster where nothing else happens, for the examples.\<close>

definition plain_spoke :: spoke_env where
  "plain_spoke = \<lparr>sp_env = (\<lambda>_. []), sp_namespace_file = Inl (ErrText ''no file''), sp_cluster_scoped = (\<lambda>_. False),
     sp_tick = (\<lambda>_ _ w. w), sp_checks = (\<lambda>_. 3), sp_clock = (\<lambda>n. 5 * int n), sp_cancelled = (\<lambda>_ _. False), sp_now = ''now''\<rparr>"

lemma plain_spoke_stable: "stable knd k x plain_spoke"
  by (simp add: stable_def plain_spoke_def)

end
