(* ===== verification/SpokeSecrets.thy ===== *)
theory SpokeSecrets
  imports SpokeAgent
begin

text \<open>
  \<open>gitopsaddon/secret_controller.go\<close>: the client certificate that Open Cluster Management renews in the
  addon's namespace is copied to the namespace of Argo CD, and the agent's Deployments are restarted. A
  result is an error or the interval in seconds after which the request comes back.
\<close>

section \<open>Names and events\<close>

definition TargetSecretName :: string where
  "TargetSecretName = ''argocd-agent-client-tls''"
definition DefaultSourceNamespace :: string where
  "DefaultSourceNamespace = ''open-cluster-management-agent-addon''"
definition SecretResyncInterval :: int where
  "SecretResyncInterval = 5 * 60"

definition getTargetNamespace :: "spoke_env \<Rightarrow> string" where
  "getTargetNamespace sp =
     (let ns = trim_space (sp_env sp ''ARGOCD_NAMESPACE'') in if ns \<noteq> [] then ns else GitOpsNamespace)"

definition getSourceNamespace :: "spoke_env \<Rightarrow> string" where
  "getSourceNamespace sp =
     (let ns = trim_space (sp_env sp ''GITOPS_ADDON_NAMESPACE'') in
      if ns \<noteq> [] then ns
      else (let ns' = trim_space (sp_env sp ''POD_NAMESPACE'') in
            if ns' \<noteq> [] then ns' else DefaultSourceNamespace))"

definition getSourceSecretName :: "spoke_env \<Rightarrow> string" where
  "getSourceSecretName sp =
     (let nm = trim_space (sp_env sp ''GITOPS_ADDON_ARGOCD_AGENT_SECRET_NAME'') in
      if nm \<noteq> [] then nm else ''gitops-addon-open-cluster-management.io-argocd-agent-addon-client-cert'')"

abbreviation source_key :: "spoke_env \<Rightarrow> nsname" where
  "source_key sp \<equiv> (getSourceNamespace sp, getSourceSecretName sp)"

abbreviation target_key :: "spoke_env \<Rightarrow> nsname" where
  "target_key sp \<equiv> (getTargetNamespace sp, TargetSecretName)"

definition isTargetSecret :: "spoke_env \<Rightarrow> secret \<Rightarrow> bool" where
  "isTargetSecret sp s \<longleftrightarrow> m_name (s_meta s) = getSourceSecretName sp \<and> m_ns (s_meta s) = getSourceNamespace sp"

definition isTargetSecretInTargetNamespace :: "spoke_env \<Rightarrow> secret \<Rightarrow> bool" where
  "isTargetSecretInTargetNamespace sp s \<longleftrightarrow> m_name (s_meta s) = TargetSecretName \<and> m_ns (s_meta s) = getTargetNamespace sp"

fun argoCDAgentSecretPredicateFunc :: "spoke_env \<Rightarrow> secret event \<Rightarrow> bool" where
  "argoCDAgentSecretPredicateFunc sp (Created s) = isTargetSecret sp s"
| "argoCDAgentSecretPredicateFunc sp (Updated old new) = isTargetSecret sp new"
| "argoCDAgentSecretPredicateFunc sp (Deleted s) = isTargetSecret sp s"

fun targetSecretPredicateFunc :: "spoke_env \<Rightarrow> secret event \<Rightarrow> bool" where
  "targetSecretPredicateFunc sp (Created s) = False"
| "targetSecretPredicateFunc sp (Updated old new) = False"
| "targetSecretPredicateFunc sp (Deleted s) = isTargetSecretInTargetNamespace sp s"

definition targetSecretToSourceMapper :: "spoke_env \<Rightarrow> secret \<Rightarrow> nsname list" where
  "targetSecretToSourceMapper sp s = (if isTargetSecretInTargetNamespace sp s then [source_key sp] else [])"

fun targetNamespacePredicateFunc :: "spoke_env \<Rightarrow> meta event \<Rightarrow> bool" where
  "targetNamespacePredicateFunc sp (Created n) \<longleftrightarrow> m_name n = getTargetNamespace sp"
| "targetNamespacePredicateFunc sp (Deleted n) \<longleftrightarrow> m_name n = getTargetNamespace sp"
| "targetNamespacePredicateFunc sp (Updated old new) \<longleftrightarrow> True"

definition namespaceToSecretMapper :: "spoke_env \<Rightarrow> meta \<Rightarrow> nsname list" where
  "namespaceToSecretMapper sp n = (if m_name n = getTargetNamespace sp then [source_key sp] else [])"

section \<open>The copy\<close>

definition copy_of :: "spoke_env \<Rightarrow> secret \<Rightarrow> secret" where
  "copy_of sp src =
     \<lparr>s_meta = plain_meta TargetSecretName (getTargetNamespace sp) [] [],
      s_type = (if has_key (s_data src) ''tls.crt'' \<and> has_key (s_data src) ''tls.key'' then ''kubernetes.io/tls'' else s_type src),
      s_data = s_data src, s_string_data = []\<rparr>"

definition createOrUpdateSecretCopy :: "spoke_env \<Rightarrow> secret \<Rightarrow> unit api" where
  "createOrUpdateSecretCopy sp src =
     (let targetSecret = copy_of sp src in do {
        c \<leftarrow> create_secret targetSecret;
        case c of
          Inr _ \<Rightarrow> State_Monad.return (Inr ())
        | Inl e \<Rightarrow>
            (if is_already_exists e then do {
               g \<leftarrow> get_secret (target_key sp);
               case g of
                 Inl e' \<Rightarrow> State_Monad.return (Inl e')
               | Inr existing \<Rightarrow> update_secret (existing\<lparr>s_data := s_data targetSecret, s_type := s_type targetSecret\<rparr>)
             }
             else State_Monad.return (Inl e))
      })"

section \<open>The restart\<close>

definition is_agent :: "string \<Rightarrow> unstructured \<Rightarrow> bool" where
  "is_agent ns d \<longleftrightarrow> u_ns d = ns \<and> map_of (u_labels d) ''app.kubernetes.io/part-of'' = Some ''argocd-agent''"

definition restarted :: "int \<Rightarrow> unstructured \<Rightarrow> unstructured" where
  "restarted now d = put_at [''spec'', ''template'', ''metadata'', ''annotations'', ''apps.open-cluster-management.io/cert-rotated-at'']
     (JStr (itoa now)) d"

definition restartDeployment :: "int \<Rightarrow> unstructured \<Rightarrow> unit api" where
  "restartDeployment now deploy = do {
     u \<leftarrow> replace_object K_Deployment (obj_key deploy) (restarted now deploy);
     State_Monad.return (case u of
       Inl e \<Rightarrow> Inl (Wrapped (''failed to restart agent deployment '' @ u_ns deploy @ ''/'' @ u_name deploy) e)
     | Inr _ \<Rightarrow> Inr ())
   }"

definition restartAgentDeployments :: "int \<Rightarrow> string \<Rightarrow> unit api" where
  "restartAgentDeployments now ns = do {
     l \<leftarrow> list_dynamic K_Deployment (is_agent ns);
     case l of
       Inl e \<Rightarrow> State_Monad.return (Inl (Wrapped (''failed to list agent deployments in '' @ ns) e))
     | Inr items \<Rightarrow>
         (if length items = 0 then State_Monad.return (Inr ())
          else loopE (\<lambda>_. restartDeployment now) () items)
   }"

section \<open>Reconcile\<close>

definition handleSourceSecretDeletion :: "spoke_env \<Rightarrow> int option api" where
  "handleSourceSecretDeletion sp = do {
     g \<leftarrow> get_secret (target_key sp);
     case g of
       Inl e \<Rightarrow> State_Monad.return (if is_not_found e then Inr None else Inl e)
     | Inr targetSecret \<Rightarrow> do {
         d \<leftarrow> delete_secret (skey targetSecret);
         State_Monad.return (case d of Inl e \<Rightarrow> if is_not_found e then Inr None else Inl e | Inr _ \<Rightarrow> Inr None)
       }
   }"

definition copyAndRestart :: "spoke_env \<Rightarrow> int \<Rightarrow> secret \<Rightarrow> int option api" where
  "copyAndRestart sp now src = do {
     c \<leftarrow> createOrUpdateSecretCopy sp src;
     case c of
       Inl e \<Rightarrow> State_Monad.return (Inl e)
     | Inr _ \<Rightarrow> do {
         r \<leftarrow> restartAgentDeployments now (getTargetNamespace sp);
         State_Monad.return (case r of Inl e \<Rightarrow> Inl e | Inr _ \<Rightarrow> Inr (Some SecretResyncInterval))
       }
   }"

definition syncSecret :: "spoke_env \<Rightarrow> int \<Rightarrow> secret \<Rightarrow> int option api" where
  "syncSecret sp now src = do {
     t \<leftarrow> get_secret (target_key sp);
     case t of
       Inl e \<Rightarrow> (if is_not_found e then copyAndRestart sp now src else State_Monad.return (Inl e))
     | Inr existingTarget \<Rightarrow>
         (if secretDataEqual (s_data src) (s_data existingTarget)
          then State_Monad.return (Inr (Some SecretResyncInterval))
          else copyAndRestart sp now src)
   }"

definition SecretReconcile :: "spoke_env \<Rightarrow> int \<Rightarrow> nsname \<Rightarrow> int option api" where
  "SecretReconcile sp now req =
     (if req \<noteq> source_key sp then State_Monad.return (Inr None)
      else do {
        n \<leftarrow> get_namespace ([], getTargetNamespace sp);
        case n of
          Inl e \<Rightarrow> State_Monad.return (if is_not_found e then Inr (Some SecretResyncInterval) else Inl e)
        | Inr _ \<Rightarrow> do {
            s \<leftarrow> get_secret req;
            case s of
              Inl e \<Rightarrow> (if is_not_found e then handleSourceSecretDeletion sp else State_Monad.return (Inl e))
            | Inr src \<Rightarrow> syncSecret sp now src
          }
      })"

section \<open>Facts about the pieces\<close>

lemma copy_key [simp]: "skey (copy_of sp src) = target_key sp" "s_string_data (copy_of sp src) = []"
  "s_data (copy_of sp src) = s_data src"
  by (simp_all add: copy_of_def skey_def)

lemma persist_copy [simp]: "s_string_data s = [] \<Longrightarrow> persist_secret s = s"
  by (simp add: persist_secret_def)

text \<open>Stored Secrets are under their keys, and their \<open>stringData\<close>, which is write-only, reads back empty.\<close>

definition stored_secrets :: "world \<Rightarrow> bool" where
  "stored_secrets w \<longleftrightarrow> keyed s_meta (w_secrets w) \<and>
     (\<forall>k s. map_of (w_secrets w) k = Some s \<longrightarrow> s_string_data s = [] \<and> distinct (map fst (s_data s)))"

lemma createOrUpdate_effect:
  assumes "stored_secrets w" and "run_state (createOrUpdateSecretCopy sp src) w = (r, w')"
  shows "w_dynamic w' = w_dynamic w" "w_namespaces w' = w_namespaces w" "calm w \<Longrightarrow> calm w' \<and> r = Inr ()"
    "k \<noteq> target_key sp \<Longrightarrow> map_of (w_secrets w') k = map_of (w_secrets w) k"
    "r = Inr () \<Longrightarrow> \<exists>t. map_of (w_secrets w') (target_key sp) = Some t \<and> s_data t = s_data src"
    "r \<noteq> Inr () \<Longrightarrow> w_secrets w' = w_secrets w"
proof -
  have key: "skey t = target_key sp \<and> s_string_data t = []" if "map_of (w_secrets w) (target_key sp) = Some t" for t
    using keyedD [of s_meta "w_secrets w", OF _ that] assms(1) that by (simp add: skey_def stored_secrets_def)
  have upd: "skey (t\<lparr>s_data := a, s_type := b\<rparr>) = skey t" for t a b by (simp add: skey_def)
  show "w_dynamic w' = w_dynamic w" "w_namespaces w' = w_namespaces w" "calm w \<Longrightarrow> calm w' \<and> r = Inr ()"
    "k \<noteq> target_key sp \<Longrightarrow> map_of (w_secrets w') k = map_of (w_secrets w) k"
    "r = Inr () \<Longrightarrow> \<exists>t. map_of (w_secrets w') (target_key sp) = Some t \<and> s_data t = s_data src"
    "r \<noteq> Inr () \<Longrightarrow> w_secrets w' = w_secrets w"
    using assms(2)
    by (auto simp: createOrUpdateSecretCopy_def Let_def run_simps has_key_def upd key persist_secret_def
        split: option.splits if_splits)
qed

text \<open>The restart of the listed Deployments.\<close>

lemma keyed_keys:
  assumes "keyed u_meta st" shows "map obj_key (map snd st) = map fst st"
proof -
  have "obj_key (snd e) = fst e" if "e \<in> set st" for e
  proof (cases e)
    case (Pair k x)
    with that assms have "map_of st k = Some x" by (simp add: keyed_def)
    from keyedD [OF assms this] Pair show ?thesis by simp
  qed
  then show ?thesis by (simp add: comp_def)
qed

lemma restarted_meta [simp]: "u_meta (restarted now d) = u_meta d"
  by (simp add: restarted_def)

lemma restarted_status: "map_of (u_fields (restarted now d)) ''status'' = map_of (u_fields d) ''status''"
  by (auto simp: restarted_def put_at_def simp del: set_nested.simps intro: set_nested_other split: sum.splits)

lemma replaced_restarted: "replaced (obj_key y) (restarted now y) y = restarted now y"
  by (simp add: replaced_def placed_def keep_status_same [OF restarted_status])

lemma restart_loop:
  assumes "calm w" and "\<And>x. x \<in> set xs \<Longrightarrow> map_of (dynamic_of K_Deployment w) (obj_key x) = Some x" and "distinct (map obj_key xs)"
  shows "\<exists>w'. run_state (loopE (\<lambda>_. restartDeployment now) () xs) w = (Inr (), w') \<and> calm w' \<and> w_secrets w' = w_secrets w \<and>
    (\<forall>k. map_of (dynamic_of K_Deployment w') k =
       (if k \<in> obj_key ` set xs then map_option (restarted now) (map_of (dynamic_of K_Deployment w) k)
        else map_of (dynamic_of K_Deployment w) k))"
  using assms
proof (induction xs arbitrary: w)
  case (Cons x xs)
  define w1 where "w1 = upd_dynamic K_Deployment (mset_key (obj_key x) (restarted now x)) (consume w)"
  have x: "map_of (dynamic_of K_Deployment w) (obj_key x) = Some x" using Cons.prems(2) by simp
  have step: "run_state (restartDeployment now x) w = (Inr (), w1)"
    using Cons.prems(1) x by (simp add: restartDeployment_def run_simps w1_def replaced_restarted)
  have s1: "calm w1" "w_secrets w1 = w_secrets w"
    using Cons.prems(1) by (simp add: w1_def, simp add: w1_def upd_dynamic_def)
  have d1: "map_of (dynamic_of K_Deployment w1) = (map_of (dynamic_of K_Deployment w))(obj_key x \<mapsto> restarted now x)"
    by (simp add: w1_def)
  have "map_of (dynamic_of K_Deployment w1) (obj_key y) = Some y" if "y \<in> set xs" for y
  proof -
    from that have "obj_key y \<in> obj_key ` set xs" by blast
    with Cons.prems(3) have "obj_key y \<noteq> obj_key x" by auto
    with that Cons.prems(2) show ?thesis by (auto simp: d1)
  qed
  from Cons.IH [OF s1(1) this] Cons.prems(3) obtain w' where
    w': "run_state (loopE (\<lambda>_. restartDeployment now) () xs) w1 = (Inr (), w')" "calm w'" "w_secrets w' = w_secrets w1"
      "\<forall>k. map_of (dynamic_of K_Deployment w') k =
       (if k \<in> obj_key ` set xs then map_option (restarted now) (map_of (dynamic_of K_Deployment w1) k)
        else map_of (dynamic_of K_Deployment w1) k)" by auto
  moreover have "obj_key x \<notin> obj_key ` set xs" using Cons.prems(3) by auto
  ultimately show ?case using step s1 x by (auto simp: d1)
qed simp

lemma restart_calm:
  assumes "calm w" and "keyed u_meta (dynamic_of K_Deployment w)"
  shows "\<exists>w'. run_state (restartAgentDeployments now ns) w = (Inr (), w') \<and> calm w' \<and> w_secrets w' = w_secrets w \<and>
    (\<forall>k. map_of (dynamic_of K_Deployment w') k =
       map_option (\<lambda>d. if is_agent ns d then restarted now d else d) (map_of (dynamic_of K_Deployment w) k))"
proof -
  let ?D = "dynamic_of K_Deployment w"
  let ?xs = "filter (is_agent ns) (map snd ?D)"
  have stored: "map_of ?D (obj_key x) = Some x" if "x \<in> set ?xs" for x
    using keyed_listed [OF assms(2), of x] that by simp
  have "distinct (map obj_key (map snd ?D))" using assms(2) by (simp only: keyed_keys [OF assms(2)]) (simp add: keyed_def)
  then have dist: "distinct (map obj_key ?xs)" by (rule distinct_map_filter)
  have c: "calm (consume w)" "\<And>x. x \<in> set ?xs \<Longrightarrow> map_of (dynamic_of K_Deployment (consume w)) (obj_key x) = Some x"
    using assms(1) stored by simp_all
  obtain w' where w': "run_state (loopE (\<lambda>_. restartDeployment now) () ?xs) (consume w) = (Inr (), w')" "calm w'" "w_secrets w' = w_secrets w"
    "\<And>k. map_of (dynamic_of K_Deployment w') k = (if k \<in> obj_key ` set ?xs then map_option (restarted now) (map_of ?D k) else map_of ?D k)"
    using restart_loop [OF c dist, of now] by auto
  have "k \<in> obj_key ` set ?xs \<longleftrightarrow> (\<exists>d. map_of ?D k = Some d \<and> is_agent ns d)" for k
  proof
    assume "k \<in> obj_key ` set ?xs"
    then obtain x where "x \<in> set ?xs" "k = obj_key x" by blast
    with stored [of x] show "\<exists>d. map_of ?D k = Some d \<and> is_agent ns d" by auto
  next
    assume "\<exists>d. map_of ?D k = Some d \<and> is_agent ns d"
    then obtain d where "map_of ?D k = Some d" "is_agent ns d" by blast
    moreover have "obj_key d = k" using keyedD [OF assms(2) calculation(1)] .
    moreover have "d \<in> set (map snd ?D)" using map_of_SomeD [OF calculation(1)] by force
    ultimately show "k \<in> obj_key ` set ?xs" by (intro image_eqI [of _ _ d]) auto
  qed
  then have eff: "map_of (dynamic_of K_Deployment w') k =
      map_option (\<lambda>d. if is_agent ns d then restarted now d else d) (map_of ?D k)" for k
    using w'(4) [of k] by (cases "map_of ?D k") auto
  have "run_state (restartAgentDeployments now ns) w = (Inr (), w')"
    using w'(1) assms(1) by (cases "?xs") (simp_all add: restartAgentDeployments_def run_simps del: filter_map)
  with w'(2,3) eff show ?thesis by blast
qed

section \<open>Properties\<close>

lemma quiet_dynamic: "quiet s t \<Longrightarrow> dynamic_of knd t = dynamic_of knd s"
  by (simp add: dynamic_of_def quiet_sel)

lemma effect_dynamic: "w_dynamic t = w_dynamic s \<Longrightarrow> dynamic_of knd t = dynamic_of knd s"
  by (simp add: dynamic_of_def)

lemma up_to_date_quiet:
  assumes "calm w" and "map_of (w_namespaces w) ([], getTargetNamespace sp) \<noteq> None"
    and "map_of (w_secrets w) (source_key sp) = Some src" and "map_of (w_secrets w) (target_key sp) = Some t"
    and "secretDataEqual (s_data src) (s_data t)"
  shows "run_state (SecretReconcile sp now (source_key sp)) w = (Inr (Some SecretResyncInterval), consume (consume (consume w)))"
  using assms by (auto simp: SecretReconcile_def syncSecret_def run_simps)

text \<open>
  C15: the certificate arrives. When no request is rejected and both the source Secret and the target
  namespace exist, a reconcile succeeds, comes back in five minutes, and leaves the target Secret with the
  source's data; no other Secret changes. The agent's Deployments of that namespace get the restart
  annotation exactly when the data was not already equal, and no other Deployment changes.
\<close>
theorem secret_copied:
  fixes now :: int
  assumes "calm w" and "stored_secrets w" and "keyed u_meta (dynamic_of K_Deployment w)"
    and "map_of (w_namespaces w) ([], getTargetNamespace sp) \<noteq> None"
    and "map_of (w_secrets w) (source_key sp) = Some src"
  defines "w' \<equiv> snd (run_state (SecretReconcile sp now (source_key sp)) w)"
    and "stale \<equiv> \<forall>t. map_of (w_secrets w) (target_key sp) = Some t \<longrightarrow> map_of (s_data t) \<noteq> map_of (s_data src)"
  shows "fst (run_state (SecretReconcile sp now (source_key sp)) w) = Inr (Some 300)
    \<and> (\<exists>t. map_of (w_secrets w') (target_key sp) = Some t \<and> map_of (s_data t) = map_of (s_data src))
    \<and> (\<forall>k. k \<noteq> target_key sp \<longrightarrow> map_of (w_secrets w') k = map_of (w_secrets w) k)
    \<and> (\<forall>k. map_of (dynamic_of K_Deployment w') k =
        map_option (\<lambda>d. if stale \<and> is_agent (getTargetNamespace sp) d then restarted now d else d)
          (map_of (dynamic_of K_Deployment w) k))"
proof -
  have eq: "secretDataEqual (s_data src) (s_data t) \<longleftrightarrow> map_of (s_data t) = map_of (s_data src)"
    if "map_of (w_secrets w) (target_key sp) = Some t" for t
    using assms(2,5) that secretDataEqual_iff [of "s_data src" "s_data t"] by (auto simp: stored_secrets_def)
  show ?thesis
  proof (cases stale)
    case False
    then obtain t where t: "map_of (w_secrets w) (target_key sp) = Some t" "map_of (s_data t) = map_of (s_data src)"
      by (auto simp: stale_def)
    from up_to_date_quiet [OF assms(1,4,5) t(1), of now] eq [OF t(1)] t False show ?thesis
      by (simp add: w'_def SecretResyncInterval_def dynamic_of_def option.map_ident)
  next
    case True
    let ?s = "consume (consume (consume w))"
    obtain r v where c: "run_state (createOrUpdateSecretCopy sp src) ?s = (r, v)" by fastforce
    have st: "stored_secrets ?s" using assms(2) by (simp add: stored_secrets_def)
    note e = createOrUpdate_effect [OF st c]
    have calm: "calm v" "r = Inr ()" using e(3) assms(1) by simp_all
    have keyed: "keyed u_meta (dynamic_of K_Deployment v)"
      using assms(3) effect_dynamic [OF e(1)] by (simp add: dynamic_of_def)
    obtain u where u: "run_state (restartAgentDeployments now (getTargetNamespace sp)) v = (Inr (), u)" "w_secrets u = w_secrets v"
      "\<And>k. map_of (dynamic_of K_Deployment u) k =
        map_option (\<lambda>d. if is_agent (getTargetNamespace sp) d then restarted now d else d) (map_of (dynamic_of K_Deployment v) k)"
      using restart_calm [OF calm(1) keyed] by blast
    have "run_state (SecretReconcile sp now (source_key sp)) w = run_state (copyAndRestart sp now src) ?s"
      using assms(1,4,5) True eq
      by (cases "map_of (w_secrets w) (target_key sp)") (auto simp: SecretReconcile_def syncSecret_def run_simps stale_def)
    then have run: "run_state (SecretReconcile sp now (source_key sp)) w = (Inr (Some 300), u)"
      using c u(1) calm(2) by (simp add: copyAndRestart_def SecretResyncInterval_def)
    show ?thesis
      using run True u(2,3) e(4,5) calm(2) effect_dynamic [OF e(1)] by (auto simp: w'_def)
  qed
qed

text \<open>
  C16: a failed restart is never made up for. If a reconcile has changed the target Secret and then fails, because the
  agent's Deployments could not be listed or one of them not updated, the next one, with nothing
  rejected, finds equal data: it reports success and only reads. The agents that were not restarted
  keep the old certificate.
\<close>
theorem restart_never_retried:
  assumes "stored_secrets w" and "run_state (SecretReconcile sp now req) w = (Inl e, w1)"
    and "map_of (w_secrets w1) (target_key sp) \<noteq> map_of (w_secrets w) (target_key sp)" and "source_key sp \<noteq> target_key sp"
    and "calm w1" and "map_of (w_namespaces w1) ([], getTargetNamespace sp) \<noteq> None"
  shows "fst (run_state (SecretReconcile sp now' req) w1) = Inr (Some 300)
    \<and> quiet w1 (snd (run_state (SecretReconcile sp now' req) w1))"
proof -
  have req: "req = source_key sp" using assms(2) by (auto simp: SecretReconcile_def split: if_splits)
  let ?s = "consume (consume (consume w))"
  have del: "w_secrets t = w_secrets w" if "run_state (handleSourceSecretDeletion sp) (consume (consume w)) = (Inl e, t)" for t
    using that by (auto simp: handleSourceSecretDeletion_def run_simps split: option.splits if_splits)
  from assms(2,3) del obtain src where src: "map_of (w_secrets w) (source_key sp) = Some src"
    and run: "run_state (copyAndRestart sp now src) ?s = (Inl e, w1)"
    unfolding req by (auto simp: SecretReconcile_def syncSecret_def run_simps split: option.splits if_splits)
  obtain r v where c: "run_state (createOrUpdateSecretCopy sp src) ?s = (r, v)" by fastforce
  have st: "stored_secrets ?s" using assms(1) by (simp add: stored_secrets_def)
  note ef = createOrUpdate_effect [OF st c]
  have ok: "r = Inr ()"
  proof (rule ccontr)
    assume n: "r \<noteq> Inr ()"
    then obtain e' where "r = Inl e'" by (cases r) auto
    with run c have "w1 = v" by (simp add: copyAndRestart_def)
    with ef(6) [OF n] assms(3) show False by simp
  qed
  obtain r2 where r2: "run_state (restartAgentDeployments now (getTargetNamespace sp)) v = (r2, w1)"
    using run c ok by (auto simp: copyAndRestart_def split: prod.splits sum.splits)
  have "state_io_rel (\<lambda>s t. w_secrets t = w_secrets s) (replace_object K_Deployment k x)" for k x
    by (auto intro!: state_io_relI simp: run_simps upd_dynamic_def split: option.splits)
  moreover have "state_io_rel (\<lambda>s t. w_secrets t = w_secrets s) (list_dynamic K_Deployment P)" for P
    by (auto intro!: state_io_relI simp: run_simps split: option.splits)
  ultimately have "state_io_rel (\<lambda>s t. w_secrets t = w_secrets s) (restartAgentDeployments now (getTargetNamespace sp))"
    unfolding restartAgentDeployments_def restartDeployment_def by (intro same_frame.frame_rules)
  from state_io_relD [OF this r2] have same: "w_secrets w1 = w_secrets v" .
  obtain t where t: "map_of (w_secrets w1) (target_key sp) = Some t" "s_data t = s_data src"
    using ef(5) [OF ok] same by auto
  have "map_of (w_secrets w1) (source_key sp) = Some src" using ef(4) [OF assms(4)] same src by simp
  moreover have "secretDataEqual (s_data src) (s_data t)"
    using t(2) src assms(1) secretDataEqual_refl by (auto simp: stored_secrets_def)
  moreover have "quiet w1 (consume (consume (consume w1)))"
    by (rule quiet.frame_trans [OF quiet.frame_trans [OF quiet_consume quiet_consume] quiet_consume])
  ultimately show ?thesis
    using up_to_date_quiet [OF assms(5,6) _ t(1)] unfolding req SecretResyncInterval_def by auto
qed

text \<open>What a reconcile leaves alone.\<close>

lemma restart_keeps:
  assumes "\<not> (knd = K_Deployment \<and> is_agent ns x)"
  shows "state_io_rel (keeps knd k x) (restartAgentDeployments now ns)"
  unfolding restartAgentDeployments_def
proof (rule inv_bind [OF kept_quiet [OF list_quiet]])
  fix l s t
  assume k: "kept knd k x s" and l: "run_state (list_dynamic K_Deployment (is_agent ns)) s = (l, t)"
  show "state_io_rel (keeps knd k x) (case l of
       Inl e \<Rightarrow> State_Monad.return (Inl (Wrapped (''failed to list agent deployments in '' @ ns) e))
     | Inr items \<Rightarrow> if length items = 0 then State_Monad.return (Inr ()) else loopE (\<lambda>_. restartDeployment now) () items)"
  proof (intro inv_frame.frame_rules)
    fix items y assume "l = Inr items" "y \<in> set items"
    then have "(K_Deployment, obj_key y) \<noteq> (knd, k)"
      using listed_other [of K_Deployment k x s] k l assms by blast
    then show "state_io_rel (keeps knd k x) (restartDeployment now y)"
      unfolding restartDeployment_def by (intro inv_frame.frame_rules kept_replace)
  qed
qed

lemma secret_keeps:
  assumes "\<not> (knd = K_Deployment \<and> is_agent (getTargetNamespace sp) x)"
  shows "state_io_rel (keeps knd k x) (SecretReconcile sp now req)"
  unfolding SecretReconcile_def syncSecret_def copyAndRestart_def handleSourceSecretDeletion_def
    createOrUpdateSecretCopy_def Let_def
  by (intro keep_rules restart_keeps assms)

lemma secret_changes:
  "state_io_rel (\<lambda>s t. stored_secrets s \<longrightarrow> changes_only {target_key sp} w_secrets s t) (SecretReconcile sp now req)"
proof (rule state_io_relI, rule impI)
  fix s r t assume run: "run_state (SecretReconcile sp now req) s = (r, t)" and st: "stored_secrets s"
  have restart: "w_secrets v = w_secrets u" if "run_state (restartAgentDeployments n ns) u = (x, v)" for n ns u x v
  proof -
    have "state_io_rel (\<lambda>s t. w_secrets t = w_secrets s) (replace_object K_Deployment k x)" for k x
      by (auto intro!: state_io_relI simp: run_simps upd_dynamic_def split: option.splits)
    moreover have "state_io_rel (\<lambda>s t. w_secrets t = w_secrets s) (list_dynamic K_Deployment P)" for P
      by (auto intro!: state_io_relI simp: run_simps split: option.splits)
    ultimately have "state_io_rel (\<lambda>s t. w_secrets t = w_secrets s) (restartAgentDeployments n ns)"
      unfolding restartAgentDeployments_def restartDeployment_def by (intro same_frame.frame_rules)
    from state_io_relD [OF this that] show ?thesis .
  qed
  have key: "skey x = target_key sp" if "map_of (w_secrets s) (target_key sp) = Some x" for x
    using keyedD [of s_meta "w_secrets s", OF _ that] st by (simp add: skey_def stored_secrets_def)
  have copy: "changes_only {target_key sp} w_secrets s v"
    if "run_state (createOrUpdateSecretCopy sp src) (consume (consume (consume s))) = (x, v)" for src x v
    using createOrUpdate_effect(4) [OF _ that] st by (simp add: changes_only_def stored_secrets_def)
  show "changes_only {target_key sp} w_secrets s t"
    using run restart copy key
    by (auto simp: SecretReconcile_def syncSecret_def copyAndRestart_def handleSourceSecretDeletion_def run_simps
        changes_only_def split: option.splits if_splits prod.splits sum.splits)
qed

text \<open>
  confinement. Whatever the API server rejects, a reconcile changes no Secret but the target, and no
  object of another kind, except Deployments of the target namespace that are labelled as part of the agent.
\<close>
theorem secret_sync_confined:
  fixes now :: int and req :: nsname
  assumes "stored_secrets w" and "keyed u_meta (dynamic_of knd w)" and "map_of (dynamic_of knd w) k = Some x"
    and "knd = K_Deployment \<Longrightarrow> \<not> is_agent (getTargetNamespace sp) x"
  defines "w' \<equiv> snd (run_state (SecretReconcile sp now req) w)"
  shows "map_of (dynamic_of knd w') k = Some x
    \<and> (\<forall>k'. k' \<noteq> target_key sp \<longrightarrow> map_of (w_secrets w') k' = map_of (w_secrets w) k')"
proof -
  obtain r t where run: "run_state (SecretReconcile sp now req) w = (r, t)" by fastforce
  have "state_io_rel (keeps knd k x) (SecretReconcile sp now req)"
    by (rule secret_keeps) (use assms(4) in blast)
  from state_io_relD [OF this run] assms(2,3) have "kept knd k x t" by (simp add: kept_def)
  moreover have "changes_only {target_key sp} w_secrets w t"
    using state_io_relD [OF secret_changes run] assms(1) by blast
  ultimately show ?thesis using run by (simp add: w'_def kept_def changes_only_def)
qed

section \<open>Witnesses\<close>

definition agent_deployment :: unstructured where
  "agent_deployment = \<lparr>u_meta = plain_meta ''agent'' GitOpsNamespace [(''app.kubernetes.io/part-of'', ''argocd-agent'')] [], u_fields = []\<rparr>"

definition other_deployment :: unstructured where
  "other_deployment = \<lparr>u_meta = plain_meta ''server'' GitOpsNamespace [] [], u_fields = []\<rparr>"

definition source_secret :: secret where
  "source_secret = \<lparr>s_meta = plain_meta (getSourceSecretName plain_spoke) (getSourceNamespace plain_spoke) [] [], s_type = ''Opaque'',
     s_data = [(''tls.crt'', ''new''), (''tls.key'', ''k'')], s_string_data = []\<rparr>"

definition secret_world :: "goerr option list \<Rightarrow> world" where
  "secret_world vs = empty_world\<lparr>w_verdicts := vs, w_namespaces := [(([], GitOpsNamespace), plain_meta GitOpsNamespace [] [] [])],
     w_secrets := [(source_key plain_spoke, source_secret)],
     w_dynamic := (\<lambda>_. [])(K_Deployment := [((GitOpsNamespace, ''agent''), agent_deployment), ((GitOpsNamespace, ''server''), other_deployment)])\<rparr>"

lemma plain_spoke_names [simp]:
  "getTargetNamespace plain_spoke = GitOpsNamespace" "getSourceNamespace plain_spoke = DefaultSourceNamespace"
  "getSourceSecretName plain_spoke = ''gitops-addon-open-cluster-management.io-argocd-agent-addon-client-cert''"
  by (simp_all add: getTargetNamespace_def getSourceNamespace_def getSourceSecretName_def plain_spoke_def trim_space_def trim_right_func_def)

lemma secret_world_sel [simp]:
  "w_verdicts (secret_world vs) = vs" "w_namespaces (secret_world vs) = [(([], GitOpsNamespace), plain_meta GitOpsNamespace [] [] [])]"
  "w_secrets (secret_world vs) = [(source_key plain_spoke, source_secret)]"
  "dynamic_of K_Deployment (secret_world vs) =
     [((GitOpsNamespace, ''agent''), agent_deployment), ((GitOpsNamespace, ''server''), other_deployment)]"
  by (simp_all add: secret_world_def dynamic_of_def)

lemma distinct_names: "TargetSecretName \<noteq> ''gitops-addon-open-cluster-management.io-argocd-agent-addon-client-cert''"
  by (simp add: TargetSecretName_def)

lemma secret_world_stored: "stored_secrets (secret_world vs)" "keyed u_meta (dynamic_of K_Deployment (secret_world vs))"
proof -
  show "stored_secrets (secret_world vs)"
    by (simp add: stored_secrets_def keyed_def source_secret_def)
  show "keyed u_meta (dynamic_of K_Deployment (secret_world vs))"
    by (simp add: keyed_def agent_deployment_def other_deployment_def)
qed

theorem secret_copied_witness:
  "map_of (dynamic_of K_Deployment (snd (run_state (SecretReconcile plain_spoke 7 (source_key plain_spoke)) (secret_world []))))
     (GitOpsNamespace, ''agent'') = Some (restarted 7 agent_deployment)"
proof -
  have n: "map_of (w_secrets (secret_world [])) (target_key plain_spoke) = None"
    using distinct_names by simp
  have "is_agent GitOpsNamespace agent_deployment" by (simp add: is_agent_def agent_deployment_def)
  with n secret_copied [OF _ secret_world_stored, of "[]" plain_spoke source_secret 7] show ?thesis by simp
qed

text \<open>The list of the Deployments is rejected: the seventh request, after the copy was created.\<close>

theorem restart_never_retried_witness:
  "\<exists>e w1. run_state (SecretReconcile plain_spoke 7 (source_key plain_spoke))
      (secret_world [None, None, None, None, Some (ErrText ''down'')]) = (Inl e, w1)
    \<and> map_of (dynamic_of K_Deployment (snd (run_state (SecretReconcile plain_spoke 8 (source_key plain_spoke)) w1)))
        (GitOpsNamespace, ''agent'') = Some agent_deployment"
proof -
  let ?w = "secret_world [None, None, None, None, Some (ErrText ''down'')]"
  let ?w1 = "(secret_world [])\<lparr>w_secrets := [(source_key plain_spoke, source_secret), (target_key plain_spoke, copy_of plain_spoke source_secret)]\<rparr>"
  have s: "skey (copy_of plain_spoke source_secret) = target_key plain_spoke" by simp
  have run: "run_state (SecretReconcile plain_spoke 7 (source_key plain_spoke)) ?w
      = (Inl (Wrapped (''failed to list agent deployments in '' @ GitOpsNamespace) (ErrText ''down'')), ?w1)"
    using distinct_names
    by (simp add: SecretReconcile_def syncSecret_def copyAndRestart_def createOrUpdateSecretCopy_def restartAgentDeployments_def
        run_simps verdict_def consume_def has_key_def secret_world_def Let_def)
  have d: "dynamic_of K_Deployment ?w1 = dynamic_of K_Deployment (secret_world [])" by (simp add: dynamic_of_def)
  have "quiet ?w1 (snd (run_state (SecretReconcile plain_spoke 8 (source_key plain_spoke)) ?w1))"
    using restart_never_retried [OF secret_world_stored(1) run, of 8] distinct_names by simp
  from quiet_dynamic [OF this] d
  have "dynamic_of K_Deployment (snd (run_state (SecretReconcile plain_spoke 8 (source_key plain_spoke)) ?w1))
      = dynamic_of K_Deployment (secret_world [])" by simp
  then show ?thesis using run by auto
qed

theorem secret_sync_confined_witness:
  "map_of (dynamic_of K_Deployment (snd (run_state (SecretReconcile plain_spoke 7 (source_key plain_spoke)) (secret_world []))))
     (GitOpsNamespace, ''server'') = Some other_deployment"
  using secret_sync_confined [OF secret_world_stored, of "[]" "(GitOpsNamespace, ''server'')" other_deployment plain_spoke 7 "source_key plain_spoke"]
  by (simp add: is_agent_def other_deployment_def)

end
