(* ===== verification/SpokeOLM.thy ===== *)
theory SpokeOLM
  imports SpokeAgent
begin

text \<open>
  The addon agent and the Operator Lifecycle Manager: the functions of \<open>gitopsaddon_install.go\<close> and
  \<open>gitopsaddon_cleanup.go\<close> that create, repair, move and delete the operator's Subscription and what
  hangs on it (InstallPlan, ClusterServiceVersion, OperatorGroup, the conversion of the ArgoCD CRD).
\<close>

section \<open>The configured Subscription\<close>

definition sub_name :: "spoke_env \<Rightarrow> string" where
  "sub_name sp = getOLMEnvOrDefault sp ''OLM_SUBSCRIPTION_NAME'' ''openshift-gitops-operator''"
definition sub_ns :: "spoke_env \<Rightarrow> string" where
  "sub_ns sp = getOLMEnvOrDefault sp ''OLM_SUBSCRIPTION_NAMESPACE'' GitOpsOperatorNamespace"

abbreviation sub_key :: "spoke_env \<Rightarrow> nsname" where "sub_key sp \<equiv> (sub_ns sp, sub_name sp)"

text \<open>The four fields of the specification that are compared: channel, source, source namespace, approval.\<close>

definition sub_fields :: "spoke_env \<Rightarrow> (string \<times> string) list" where
  "sub_fields sp =
     [(''channel'', getOLMEnvOrDefault sp ''OLM_SUBSCRIPTION_CHANNEL'' ''latest''),
      (''source'', getOLMEnvOrDefault sp ''OLM_SUBSCRIPTION_SOURCE'' ''redhat-operators''),
      (''sourceNamespace'', getOLMEnvOrDefault sp ''OLM_SUBSCRIPTION_SOURCE_NAMESPACE'' ''openshift-marketplace''),
      (''installPlanApproval'', getOLMEnvOrDefault sp ''OLM_SUBSCRIPTION_INSTALL_PLAN_APPROVAL'' ''Automatic'')]"

definition subscription :: "spoke_env \<Rightarrow> unstructured" where
  "subscription sp =
     \<lparr>u_meta = plain_meta (sub_name sp) (sub_ns sp) [(GitOpsAddonLabelKey, GitOpsAddonLabelValue)] [],
      u_fields =
        [(''apiVersion'', JStr ''operators.coreos.com/v1alpha1''), (''kind'', JStr ''Subscription''),
         (''spec'', JObj
            (map (\<lambda>(k, v). (k, JStr v)) (sub_fields sp) @
             [(''name'', JStr (sub_name sp)),
              (''config'', JObj
                 [(''env'', JArr [JObj [(''name'', JStr ''DISABLE_DEFAULT_ARGOCD_INSTANCE''), (''value'', JStr ''true'')]])])]))]\<rparr>"

definition olmSubscriptionSpecChanged :: "unstructured \<Rightarrow> (string \<times> string) list \<Rightarrow> bool" where
  "olmSubscriptionSpecChanged existing fs \<longleftrightarrow> (\<exists>(k, v) \<in> set fs. str_at (u_fields existing) [''spec'', k] \<noteq> v)"

definition install_plan_missing :: "unstructured \<Rightarrow> bool" where
  "install_plan_missing existing \<longleftrightarrow>
     (\<exists>c \<in> set (slice_at (u_fields existing) [''status'', ''conditions'']). cond_true ''InstallPlanMissing'' c)"

text \<open>\<open>status.installPlanRef.name\<close>, empty when there is no such text.\<close>

definition install_plan_of :: "unstructured \<Rightarrow> string" where
  "install_plan_of existing =
     (case map_at (u_fields existing) [''status'', ''installPlanRef''] of
        None \<Rightarrow> []
      | Some ipRef \<Rightarrow> (case jget_str ipRef ''name'' of None \<Rightarrow> [] | Some s \<Rightarrow> s))"

section \<open>Creating and updating\<close>

definition olmSubscriptionNeedsUpdate :: "spoke_env \<Rightarrow> (world, bool) state" where
  "olmSubscriptionNeedsUpdate sp = do {
     g \<leftarrow> get_dynamic K_Subscription (sub_key sp);
     State_Monad.return (case g of
       Inl e \<Rightarrow> True
     | Inr existing \<Rightarrow>
         if \<not> addon_owned existing then False
         else if install_plan_missing existing then True
         else olmSubscriptionSpecChanged existing (sub_fields sp))
   }"

definition ensureSubscriptionNamespace :: "string \<Rightarrow> unit api" where
  "ensureSubscriptionNamespace ns = do {
     g \<leftarrow> get_namespace ([], ns);
     case g of
       Inr _ \<Rightarrow> State_Monad.return (Inr ())
     | Inl e \<Rightarrow>
         (if is_not_found e then do {
            c \<leftarrow> create_namespace ([], ns) (plain_meta ns [] [] []);
            State_Monad.return (case c of
              Inl e' \<Rightarrow> if is_already_exists e' then Inr ()
                        else Inl (Wrapped (''failed to create namespace '' @ ns @ '' for OLM subscription'') e')
            | Inr _ \<Rightarrow> Inr ())
          }
          else State_Monad.return (Inl (Wrapped (''failed to check namespace '' @ ns) e)))
   }"

text \<open>Polling until the deleted Subscription is gone; any other answer than not-found is waited out.\<close>

fun waitSubscriptionGone :: "spoke_env \<Rightarrow> nsname \<Rightarrow> nat \<Rightarrow> unit api" where
  "waitSubscriptionGone sp k 0 =
     State_Monad.return (Inl (ErrText (''timed out waiting for stale OLM subscription '' @ snd k @ '' to be deleted'')))"
| "waitSubscriptionGone sp k (Suc n) = do {
     g \<leftarrow> get_dynamic K_Subscription k;
     case g of
       Inl e \<Rightarrow>
         (if is_not_found e then State_Monad.return (Inr ())
          else do { sleep (sp_tick sp SubscriptionGone n); waitSubscriptionGone sp k n })
     | Inr _ \<Rightarrow> do { sleep (sp_tick sp SubscriptionGone n); waitSubscriptionGone sp k n }
   }"

definition recreateSubscription :: "spoke_env \<Rightarrow> unstructured \<Rightarrow> unit api" where
  "recreateSubscription sp existing = do {
     d \<leftarrow> delete_dynamic K_Subscription (obj_key existing);
     case (case d of Inl e \<Rightarrow> if is_not_found e then None else Some e | Inr _ \<Rightarrow> None) of
       Some e \<Rightarrow> State_Monad.return (Inl (Wrapped ''failed to delete stale OLM subscription'' e))
     | None \<Rightarrow> do {
         r \<leftarrow> waitSubscriptionGone sp (sub_key sp) (sp_checks sp SubscriptionGone);
         case r of
           Inl e \<Rightarrow> State_Monad.return (Inl e)
         | Inr _ \<Rightarrow> create_object K_Subscription (sub_key sp) (subscription sp)
       }
   }"

definition createOrUpdateOLMSubscription :: "spoke_env \<Rightarrow> unit api" where
  "createOrUpdateOLMSubscription sp = do {
     n \<leftarrow> ensureSubscriptionNamespace (sub_ns sp);
     case n of
       Inl e \<Rightarrow> State_Monad.return (Inl e)
     | Inr _ \<Rightarrow> do {
         g \<leftarrow> get_dynamic K_Subscription (sub_key sp);
         case g of
           Inl e \<Rightarrow>
             (if is_not_found e then create_object K_Subscription (sub_key sp) (subscription sp)
              else State_Monad.return (Inl (Wrapped ''failed to check for existing OLM subscription'' e)))
         | Inr existing \<Rightarrow>
             (if addon_owned existing then
                (if install_plan_missing existing then recreateSubscription sp existing
                 else if \<not> olmSubscriptionSpecChanged existing (sub_fields sp) then State_Monad.return (Inr ())
                 else replace_object K_Subscription (sub_key sp) (subscription sp))
              else State_Monad.return (Inr ()))
       }
   }"

definition operator_group :: "string \<Rightarrow> unstructured" where
  "operator_group ns =
     \<lparr>u_meta = plain_meta ''gitops-addon-operator-group'' ns [(GitOpsAddonLabelKey, GitOpsAddonLabelValue)] [],
      u_fields = [(''apiVersion'', JStr ''operators.coreos.com/v1''), (''kind'', JStr ''OperatorGroup''), (''spec'', JObj [])]\<rparr>"

definition createOrUpdateOperatorGroup :: "string \<Rightarrow> unit api" where
  "createOrUpdateOperatorGroup ns = do {
     l \<leftarrow> list_dynamic K_OperatorGroup (\<lambda>x. u_ns x = ns);
     case l of
       Inl e \<Rightarrow> State_Monad.return (if is_no_match e then Inr () else Inl (Wrapped (''failed to list OperatorGroups in '' @ ns) e))
     | Inr items \<Rightarrow>
         (if length items > 0 then State_Monad.return (Inr ())
          else do {
            c \<leftarrow> create_object K_OperatorGroup (ns, ''gitops-addon-operator-group'') (operator_group ns);
            State_Monad.return (case c of
              Inl e \<Rightarrow> if is_already_exists e then Inr () else Inl (Wrapped (''failed to create OperatorGroup in '' @ ns) e)
            | Inr _ \<Rightarrow> Inr ())
          })
   }"

section \<open>Stray versions\<close>

abbreviation gone_or_unknown :: "goerr \<Rightarrow> bool" where
  "gone_or_unknown e \<equiv> is_not_found e \<or> is_no_match e"

definition claims_csv :: "string \<Rightarrow> unstructured \<Rightarrow> bool" where
  "claims_csv csvName sub \<longleftrightarrow> \<not> m_deleting (u_meta sub) \<and>
     (str_at (u_fields sub) [''status'', ''installedCSV''] = csvName \<or> str_at (u_fields sub) [''status'', ''currentCSV''] = csvName)"

definition isCsvReferencedByAnySubscription :: "string \<Rightarrow> string \<Rightarrow> bool api" where
  "isCsvReferencedByAnySubscription csvNamespace csvName = do {
     l \<leftarrow> list_dynamic K_Subscription (\<lambda>x. u_ns x = csvNamespace);
     State_Monad.return (case l of
       Inl e \<Rightarrow> if gone_or_unknown e then Inr False else Inl e
     | Inr subs \<Rightarrow> Inr (\<exists>sub \<in> set subs. claims_csv csvName sub))
   }"

definition sweepCSV :: "string \<Rightarrow> string \<Rightarrow> unstructured \<Rightarrow> (world, unit) state" where
  "sweepCSV ns subName csv =
     (if length (u_name csv) = 0 \<or> \<not> has_prefix (u_name csv) (subName @ ''.'') then State_Monad.return ()
      else do {
        r \<leftarrow> isCsvReferencedByAnySubscription ns (u_name csv);
        case r of
          Inl e \<Rightarrow> State_Monad.return ()
        | Inr True \<Rightarrow> State_Monad.return ()
        | Inr False \<Rightarrow> do { d \<leftarrow> delete_dynamic K_CSV (obj_key csv); State_Monad.return () }
      })"

definition deleteRemainingGitOpsCSVs :: "string \<Rightarrow> string \<Rightarrow> unit api" where
  "deleteRemainingGitOpsCSVs ns subName = do {
     l \<leftarrow> list_dynamic K_CSV (\<lambda>x. u_ns x = ns);
     case l of
       Inl e \<Rightarrow> State_Monad.return (if gone_or_unknown e then Inr () else Inl e)
     | Inr csvs \<Rightarrow> do { loopM (\<lambda>_. sweepCSV ns subName) () csvs; State_Monad.return (Inr ()) }
   }"

text \<open>The Subscription that an older release left in another namespace, with its version.\<close>

definition migrateSubscriptionFromNamespace :: "spoke_env \<Rightarrow> string \<Rightarrow> unit api" where
  "migrateSubscriptionFromNamespace sp fromNamespace =
     (let sweep = do { r \<leftarrow> deleteRemainingGitOpsCSVs fromNamespace (sub_name sp); State_Monad.return (Inr ()) } in do {
        g \<leftarrow> get_dynamic K_Subscription (fromNamespace, sub_name sp);
        case g of
          Inl e \<Rightarrow>
            (if gone_or_unknown e then sweep
             else State_Monad.return (Inl (Wrapped (''failed to check for old subscription in '' @ fromNamespace) e)))
        | Inr existing \<Rightarrow>
            (if \<not> addon_owned existing then State_Monad.return (Inr ())
             else (let csvName = str_at (u_fields existing) [''status'', ''installedCSV''] in do {
               d \<leftarrow> delete_dynamic K_Subscription (obj_key existing);
               case (case d of Inl e \<Rightarrow> if is_not_found e then None else Some e | Inr _ \<Rightarrow> None) of
                 Some e \<Rightarrow> State_Monad.return (Inl (Wrapped (''failed to delete old subscription '' @ fromNamespace @ ''/'' @ sub_name sp) e))
               | None \<Rightarrow>
                   (if csvName \<noteq> [] then do { c \<leftarrow> delete_dynamic K_CSV (fromNamespace, csvName); sweep } else sweep)
             }))
      })"

section \<open>Repairs\<close>

definition webhook_failure :: "json \<Rightarrow> bool" where
  "webhook_failure c \<longleftrightarrow> cond_true ''InstallPlanFailed'' c \<and>
     (case c of JObj m \<Rightarrow> str_contains (case jget_str m ''message'' of None \<Rightarrow> [] | Some s \<Rightarrow> s) ''conversion webhook'' | _ \<Rightarrow> False)"

definition recoverFromFailedWebhookInstallPlan :: "spoke_env \<Rightarrow> unit api" where
  "recoverFromFailedWebhookInstallPlan sp = do {
     g \<leftarrow> get_dynamic K_Subscription (sub_key sp);
     case g of
       Inl e \<Rightarrow> State_Monad.return (Inr ())
     | Inr existing \<Rightarrow>
         (if \<not> addon_owned existing then State_Monad.return (Inr ())
          else if \<not> list_ex webhook_failure (slice_at (u_fields existing) [''status'', ''conditions'']) then State_Monad.return (Inr ())
          else (let ipName = install_plan_of existing in
            if ipName = [] then State_Monad.return (Inr ())
            else do {
              d \<leftarrow> delete_dynamic K_InstallPlan (sub_ns sp, ipName);
              State_Monad.return (case d of
                Inl e \<Rightarrow> if is_not_found e then Inr ()
                         else Inl (Wrapped (''failed to delete failed InstallPlan '' @ sub_ns sp @ ''/'' @ ipName) e)
              | Inr _ \<Rightarrow> Inr ())
            }))
   }"

text \<open>
  The InstallPlan that the Subscription names, if it can be read; a plan that cannot be read has no name in memory, so
  that the deletion that follows is refused by the client without a request.
\<close>

definition readInstallPlan :: "spoke_env \<Rightarrow> string \<Rightarrow> (world, unstructured option) state" where
  "readInstallPlan sp ipName =
     (if ipName = [] then State_Monad.return None
      else do {
        g \<leftarrow> get_dynamic K_InstallPlan (sub_ns sp, ipName);
        State_Monad.return (case g of Inl e \<Rightarrow> None | Inr ip \<Rightarrow> Some ip)
      })"

definition plan_complete :: "unstructured option \<Rightarrow> bool" where
  "plan_complete ip = (case ip of None \<Rightarrow> False | Some p \<Rightarrow> str_at (u_fields p) [''status'', ''phase''] = ''Complete'')"

definition deleteGhost :: "spoke_env \<Rightarrow> unstructured \<Rightarrow> unit api" where
  "deleteGhost sp existing = do {
     ip \<leftarrow> readInstallPlan sp (install_plan_of existing);
     if str_at (u_fields existing) [''status'', ''installedCSV''] = [] \<and> \<not> plan_complete ip then State_Monad.return (Inr ())
     else do {
       (case ip of None \<Rightarrow> State_Monad.return () | Some p \<Rightarrow> do { d \<leftarrow> delete_dynamic K_InstallPlan (obj_key p); State_Monad.return () });
       d \<leftarrow> delete_dynamic K_Subscription (obj_key existing);
       State_Monad.return (case d of
         Inl e \<Rightarrow> if is_not_found e then Inr ()
                  else Inl (Wrapped (''failed to delete subscription '' @ sub_ns sp @ ''/'' @ sub_name sp @ '' to recover from ghost install'') e)
       | Inr _ \<Rightarrow> Inr ())
     }
   }"

definition recoverFromGhostCompleteInstallPlan :: "spoke_env \<Rightarrow> unit api" where
  "recoverFromGhostCompleteInstallPlan sp = do {
     g \<leftarrow> get_dynamic K_Subscription (sub_key sp);
     case g of
       Inl e \<Rightarrow> State_Monad.return (Inr ())
     | Inr existing \<Rightarrow>
         (if \<not> addon_owned existing then State_Monad.return (Inr ())
          else (let current = str_at (u_fields existing) [''status'', ''currentCSV''];
                    csvName = (if current = [] then str_at (u_fields existing) [''status'', ''installedCSV''] else current) in
            if csvName = [] then State_Monad.return (Inr ())
            else do {
              c \<leftarrow> get_dynamic K_CSV (sub_ns sp, csvName);
              case c of
                Inr _ \<Rightarrow> State_Monad.return (Inr ())
              | Inl e \<Rightarrow>
                  (if \<not> gone_or_unknown e
                   then State_Monad.return (Inl (Wrapped (''failed to check for CSV '' @ sub_ns sp @ ''/'' @ csvName) e))
                   else deleteGhost sp existing)
            }))
   }"

section \<open>The conversion webhook of the ArgoCD CRD\<close>

abbreviation argocd_crd :: nsname where "argocd_crd \<equiv> ([], ''argocds.argoproj.io'')"

definition patchCRDConversionToNone :: "nsname \<Rightarrow> unit api" where
  "patchCRDConversionToNone k = do {
     p \<leftarrow> patch_dynamic K_CRD k (put_at [''spec'', ''conversion''] (JObj [(''strategy'', JStr ''None'')]));
     State_Monad.return (case p of Inl e \<Rightarrow> Inl (Wrapped ''failed to patch ArgoCD CRD conversion'' e) | Inr _ \<Rightarrow> Inr ())
   }"

text \<open>The conversion section when its strategy is \<open>Webhook\<close>.\<close>

definition webhook_conversion :: "unstructured \<Rightarrow> jobj option" where
  "webhook_conversion crd =
     (case map_at (u_fields crd) [''spec'', ''conversion''] of
        None \<Rightarrow> None
      | Some conversion \<Rightarrow> if str_at conversion [''strategy''] \<noteq> ''Webhook'' then None else Some conversion)"

definition patchArgoCDCRDConversionWebhookWhen :: "(jobj \<Rightarrow> bool) \<Rightarrow> unit api" where
  "patchArgoCDCRDConversionWebhookWhen p = do {
     g \<leftarrow> get_dynamic K_CRD argocd_crd;
     case g of
       Inl e \<Rightarrow> State_Monad.return (if gone_or_unknown e then Inr () else Inl (Wrapped ''failed to get ArgoCD CRD'' e))
     | Inr crd \<Rightarrow>
         (case webhook_conversion crd of
            None \<Rightarrow> State_Monad.return (Inr ())
          | Some conversion \<Rightarrow> if p conversion then patchCRDConversionToNone argocd_crd else State_Monad.return (Inr ()))
   }"

definition patchArgoCDCRDConversionWebhook :: "unit api" where
  "patchArgoCDCRDConversionWebhook = patchArgoCDCRDConversionWebhookWhen (\<lambda>_. True)"

text \<open>Before a Subscription is written: only a webhook that is a service.\<close>

definition patchArgoCDCRDConversionWebhookIfNotReady :: "unit api" where
  "patchArgoCDCRDConversionWebhookIfNotReady = patchArgoCDCRDConversionWebhookWhen
     (\<lambda>conversion. str_at conversion [''webhook'', ''clientConfig'', ''service'', ''name''] \<noteq> [] \<and>
        str_at conversion [''webhook'', ''clientConfig'', ''service'', ''namespace''] \<noteq> [])"

section \<open>What these functions leave alone\<close>

text \<open>A Subscription without the owner's label, and whatever is not found by reference or by name.\<close>

definition olm_spared :: "string \<Rightarrow> nsname \<Rightarrow> unstructured \<Rightarrow> bool" where
  "olm_spared knd k x \<longleftrightarrow> (knd = K_Subscription \<longrightarrow> \<not> addon_owned x) \<and> knd \<noteq> K_InstallPlan \<and> knd \<noteq> K_CSV \<and> (knd, k) \<noteq> (K_CRD, argocd_crd)"

named_theorems spoke_keeps \<open>the functions of the agent that keep a spared object\<close>

lemma waitSubscriptionGone_keeps:
  assumes "stable knd k x sp" shows "state_io_rel (keeps knd k x) (waitSubscriptionGone sp k' n)"
  by (induction n) (auto intro!: keep_rules assms)

lemma ensureSubscriptionNamespace_keeps: "state_io_rel (keeps knd k x) (ensureSubscriptionNamespace ns)"
  unfolding ensureSubscriptionNamespace_def by (intro keep_rules)

lemma recreateSubscription_keeps:
  assumes "stable knd k x sp" and "(K_Subscription, obj_key existing) \<noteq> (knd, k)"
  shows "state_io_rel (keeps knd k x) (recreateSubscription sp existing)"
  unfolding recreateSubscription_def
  by (intro keep_rules kept_delete waitSubscriptionGone_keeps assms)

lemma createOrUpdateOLMSubscription_keeps [spoke_keeps]:
  assumes "olm_spared knd k x" and "stable knd k x sp"
  shows "state_io_rel (keeps knd k x) (createOrUpdateOLMSubscription sp)"
proof -
  have "(K_Subscription, obj_key y) \<noteq> (knd, k) \<and> (K_Subscription, sub_key sp) \<noteq> (knd, k)"
    if "K_Subscription = knd \<longrightarrow> obj_key y = sub_key sp \<and> (sub_key sp = k \<longrightarrow> y = x)" "addon_owned y" for y
    using that assms(1) by (auto simp: olm_spared_def)
  then show ?thesis
    unfolding createOrUpdateOLMSubscription_def
    by (intro inv_frame.bind_frame [OF ensureSubscriptionNamespace_keeps] inv_frame.sum_frame inv_frame.return_frame keep_got
          inv_frame.if_frame kept_create recreateSubscription_keeps kept_replace assms(2)) blast+
qed

lemma operatorGroup_keeps [spoke_keeps]: "state_io_rel (keeps knd k x) (createOrUpdateOperatorGroup ns)"
  unfolding createOrUpdateOperatorGroup_def by (intro keep_rules)

lemma keep_bool: "(a \<Longrightarrow> state_io_rel R m) \<Longrightarrow> (\<not> a \<Longrightarrow> state_io_rel R n) \<Longrightarrow>
    state_io_rel R (case a of True \<Rightarrow> m | False \<Rightarrow> n)"
  by (cases a) auto

lemma sweep_keeps [spoke_keeps]:
  assumes "knd \<noteq> K_CSV" shows "state_io_rel (keeps knd k x) (deleteRemainingGitOpsCSVs ns nm)"
  unfolding deleteRemainingGitOpsCSVs_def sweepCSV_def isCsvReferencedByAnySubscription_def
  by (intro keep_rules keep_bool kept_delete) (use assms in simp)

lemma migrate_keeps [spoke_keeps]:
  assumes "olm_spared knd k x" shows "state_io_rel (keeps knd k x) (migrateSubscriptionFromNamespace sp ns)"
proof -
  have other: "(K_Subscription, obj_key y) \<noteq> (knd, k)"
    if "K_Subscription = knd \<longrightarrow> obj_key y = k' \<and> (k' = k \<longrightarrow> y = x)" "\<not> \<not> addon_owned y" for y k'
    using that assms by (auto simp: olm_spared_def)
  have csv: "knd \<noteq> K_CSV" "(K_CSV, k') \<noteq> (knd, k)" for k' using assms by (auto simp: olm_spared_def)
  show ?thesis
    unfolding migrateSubscriptionFromNamespace_def Let_def
    by (intro keep_got inv_frame.if_frame inv_frame.return_frame inv_frame.bind_frame [OF kept_delete]
          inv_frame.bind_frame [OF sweep_keeps] inv_frame.option_frame csv) (erule other, assumption)+
qed

lemma recoverWebhook_keeps [spoke_keeps]:
  assumes "olm_spared knd k x" shows "state_io_rel (keeps knd k x) (recoverFromFailedWebhookInstallPlan sp)"
proof -
  have ip: "(K_InstallPlan, k') \<noteq> (knd, k)" for k' using assms by (auto simp: olm_spared_def)
  show ?thesis unfolding recoverFromFailedWebhookInstallPlan_def Let_def by (intro keep_rules kept_delete ip)
qed

lemma deleteGhost_keeps:
  assumes "olm_spared knd k x" and "(K_Subscription, obj_key existing) \<noteq> (knd, k)"
  shows "state_io_rel (keeps knd k x) (deleteGhost sp existing)"
proof -
  have ip: "(K_InstallPlan, k') \<noteq> (knd, k)" for k' using assms by (auto simp: olm_spared_def)
  show ?thesis unfolding deleteGhost_def readInstallPlan_def by (intro keep_rules kept_delete ip assms(2))
qed

lemma recoverGhost_keeps [spoke_keeps]:
  assumes "olm_spared knd k x" shows "state_io_rel (keeps knd k x) (recoverFromGhostCompleteInstallPlan sp)"
proof -
  have other: "(K_Subscription, obj_key y) \<noteq> (knd, k)"
    if "K_Subscription = knd \<longrightarrow> obj_key y = k' \<and> (k' = k \<longrightarrow> y = x)" "\<not> \<not> addon_owned y" for y k'
    using that assms by (auto simp: olm_spared_def)
  show ?thesis
    unfolding recoverFromGhostCompleteInstallPlan_def Let_def
    by (rule keep_got, intro keep_rules, intro keep_rules deleteGhost_keeps assms) (erule other, assumption)+
qed

lemma needsUpdate_keeps [spoke_keeps]: "state_io_rel (keeps knd k x) (olmSubscriptionNeedsUpdate sp)"
  unfolding olmSubscriptionNeedsUpdate_def by (intro keep_rules)

lemma kept_patch:
  assumes "(knd', k') \<noteq> (knd, k)" and "\<And>y. u_meta (f y) = u_meta y"
  shows "state_io_rel (keeps knd k x) (patch_dynamic knd' k' f)"
  using assms
  by (auto intro!: state_io_relI keyed_put simp: run_simps kept_def keyedD split: option.splits)

lemma patchWebhook_keeps [spoke_keeps]:
  assumes "(knd, k) \<noteq> (K_CRD, argocd_crd)"
  shows "state_io_rel (keeps knd k x) (patchArgoCDCRDConversionWebhookWhen p)"
  unfolding patchArgoCDCRDConversionWebhookWhen_def patchCRDConversionToNone_def
  by (intro keep_rules kept_patch) (use assms in auto)

section \<open>The Subscription settles\<close>

lemma fields_cong:
  "map_of m k = map_of m' k \<Longrightarrow> str_at m (k # ks) = str_at m' (k # ks)"
  "map_of m k = map_of m' k \<Longrightarrow> slice_at m (k # ks) = slice_at m' (k # ks)"
  unfolding str_at_def slice_at_def nested_string_def using nested_field_cong [of m k m' ks] by simp_all

lemma subscription_wanted:
  "addon_owned (subscription sp)" "\<not> olmSubscriptionSpecChanged (subscription sp) (sub_fields sp)"
  "\<not> install_plan_missing (subscription sp)"
  by (simp_all add: addon_owned_def mget_def subscription_def olmSubscriptionSpecChanged_def sub_fields_def str_at_def nested_string_def
      install_plan_missing_def slice_at_def)

lemma replaced_wanted:
  assumes "\<not> install_plan_missing old"
  shows "addon_owned (replaced k (subscription sp) old)"
    and "\<not> olmSubscriptionSpecChanged (replaced k (subscription sp) old) (sub_fields sp)"
    and "\<not> install_plan_missing (replaced k (subscription sp) old)"
proof -
  let ?y = "replaced k (subscription sp) old"
  have f: "map_of (u_fields ?y) ''spec'' = map_of (u_fields (subscription sp)) ''spec''"
    "map_of (u_fields ?y) ''status'' = map_of (u_fields old) ''status''"
    by (simp_all add: replaced_def placed_def keep_status_lookup)
  show "addon_owned ?y" using subscription_wanted(1) [of sp] by (simp add: addon_owned_def replaced_def placed_def)
  show "\<not> olmSubscriptionSpecChanged ?y (sub_fields sp)"
    using subscription_wanted(2) [of sp] fields_cong(1) [OF f(1)] by (simp add: olmSubscriptionSpecChanged_def)
  show "\<not> install_plan_missing ?y" using assms fields_cong(2) [OF f(2)] by (simp add: install_plan_missing_def)
qed

text \<open>A Subscription that is as wanted is only read.\<close>

lemma namespaces_upd_dynamic [simp]: "w_namespaces (upd_dynamic knd f w) = w_namespaces w"
  by (simp add: upd_dynamic_def)

lemma wanted_is_read:
  assumes "calm w" and "has_key (w_namespaces w) ([], sub_ns sp)"
    and "map_of (dynamic_of K_Subscription w) (sub_key sp) = Some y"
    and "addon_owned y" "\<not> install_plan_missing y" "\<not> olmSubscriptionSpecChanged y (sub_fields sp)"
  shows "run_state (createOrUpdateOLMSubscription sp) w = (Inr (), consume (consume w))"
  using assms
  by (auto simp: createOrUpdateOLMSubscription_def ensureSubscriptionNamespace_def run_simps has_key_def split: option.splits)

text \<open>
  C14: When no request is rejected and the agent's Subscription has no missing install plan, one call brings its four fields to
  the values of the environment, under the owner's label and in an existing namespace, and the next call only reads: no
  write that would start OLM again.
\<close>

theorem subscription_settles:
  assumes "calm w"
    and "\<forall>x. map_of (dynamic_of K_Subscription w) (sub_key sp) = Some x \<longrightarrow> addon_owned x \<and> \<not> install_plan_missing x"
  shows "\<exists>t y. run_state (createOrUpdateOLMSubscription sp) w = (Inr (), t) \<and>
    map_of (dynamic_of K_Subscription t) (sub_key sp) = Some y \<and> addon_owned y \<and>
    (\<forall>(k, v) \<in> set (sub_fields sp). str_at (u_fields y) [''spec'', k] = v) \<and>
    run_state (createOrUpdateOLMSubscription sp) t = (Inr (), consume (consume t))"
proof -
  obtain v where v: "run_state (ensureSubscriptionNamespace (sub_ns sp)) w = (Inr (), v)" "calm v"
    "has_key (w_namespaces v) ([], sub_ns sp)" "dynamic_of K_Subscription v = dynamic_of K_Subscription w"
    using assms(1)
    by (cases "map_of (w_namespaces w) ([], sub_ns sp)")
       (auto simp: ensureSubscriptionNamespace_def run_simps has_key_def dynamic_of_def)
  have *: ?thesis if "run_state (createOrUpdateOLMSubscription sp) w = (Inr (), t)" "calm t"
      "has_key (w_namespaces t) ([], sub_ns sp)" "map_of (dynamic_of K_Subscription t) (sub_key sp) = Some y"
      "addon_owned y" "\<not> install_plan_missing y" "\<not> olmSubscriptionSpecChanged y (sub_fields sp)" for t y
    using that wanted_is_read [OF that(2-)] by (auto simp: olmSubscriptionSpecChanged_def)
  note run = createOrUpdateOLMSubscription_def run_simps
  show ?thesis
  proof (cases "map_of (dynamic_of K_Subscription w) (sub_key sp)")
    case None
    let ?y = "placed (sub_key sp) (subscription sp)"
    have "?y = subscription sp" by (simp add: placed_def subscription_def plain_meta_def)
    with None v show ?thesis
      using subscription_wanted [of sp]
      by (intro * [of "upd_dynamic K_Subscription (mset_key (sub_key sp) ?y) (consume (consume v))" ?y])
         (simp_all add: run has_key_def)
  next
    case (Some x)
    with assms(2) have x: "addon_owned x" "\<not> install_plan_missing x" by auto
    show ?thesis
    proof (cases "olmSubscriptionSpecChanged x (sub_fields sp)")
      case False
      with Some v x show ?thesis by (intro * [of "consume v" x]) (simp_all add: run)
    next
      case True
      let ?y = "replaced (sub_key sp) (subscription sp) x"
      from Some v x True show ?thesis
        using replaced_wanted [OF x(2), of "sub_key sp" sp]
        by (intro * [of "upd_dynamic K_Subscription (mset_key (sub_key sp) ?y) (consume (consume v))" ?y])
           (simp_all add: run has_key_def)
    qed
  qed
qed

section \<open>From the hub to the Subscription\<close>

lemma olm_env:
  assumes "renders render" and "k \<in> set olm_names"
  shows "container_env render vars ns buildAddonEnvVars k = (case map_of vars k of Some v \<Rightarrow> v | None \<Rightarrow> placeholder k)"
proof -
  have "k \<in> set addon_vars" "k \<noteq> ''POD_NAMESPACE''" using assms(2) unfolding addon_vars_def olm_names_def by auto
  then have "map_of buildAddonEnvVars k = Some (EnvText (placeholder k))"
    by (simp add: buildAddonEnvVars_eq map_of_placeholders)
  then show ?thesis using assms(1) by (simp add: container_env_def renders_def)
qed

lemma olm_managed:
  assumes "gs_addon (gc_spec g) = Some addon"
    and "GetOLMSubscriptionValues (if IsOLMSubscriptionEnabled g then ad_olm addon else None) = (nm, sns, ch, src, srcNs, appr)"
  shows "map_of (managed_variables env g img) ''OLM_SUBSCRIPTION_ENABLED'' = Some (format_bool (IsOLMSubscriptionEnabled g))"
    and "map_of (managed_variables env g img) ''OLM_SUBSCRIPTION_NAME'' = Some nm"
    and "map_of (managed_variables env g img) ''OLM_SUBSCRIPTION_NAMESPACE'' = Some sns"
    and "map_of (managed_variables env g img) ''OLM_SUBSCRIPTION_CHANNEL'' = Some ch"
    and "map_of (managed_variables env g img) ''OLM_SUBSCRIPTION_SOURCE'' = Some src"
    and "map_of (managed_variables env g img) ''OLM_SUBSCRIPTION_SOURCE_NAMESPACE'' = Some srcNs"
    and "map_of (managed_variables env g img) ''OLM_SUBSCRIPTION_INSTALL_PLAN_APPROVAL'' = Some appr"
  using assms
  by (simp_all add: managed_variables_def ExtractVariablesFromGitOpsCluster_def Let_def olm_variables_def format_bool_def
      del: fold_simps split: if_splits)

lemma olm_values_given:
  "GetOLMSubscriptionValues os = (nm, sns, ch, src, srcNs, appr) \<Longrightarrow>
    nm \<noteq> [] \<and> sns \<noteq> [] \<and> ch \<noteq> [] \<and> src \<noteq> [] \<and> srcNs \<noteq> [] \<and> appr \<noteq> []"
  by (auto simp: GetOLMSubscriptionValues_def olm_default_def split: option.splits if_splits)

text \<open>
  C13: The GitOpsCluster on the hub decides on the Subscription of the spoke: its name and namespace and its four fields
  are the values that the hub resolves, the defaults where the GitOpsCluster is silent or OLM is not enabled, and
  the agent is told to use OLM exactly when the GitOpsCluster enables it.
\<close>

theorem hub_decides_subscription:
  assumes "renders render" and "gs_addon (gc_spec g) = Some addon"
    and "sp_env sp = container_env render (managed_variables env g img) ns buildAddonEnvVars"
    and "GetOLMSubscriptionValues (if IsOLMSubscriptionEnabled g then ad_olm addon else None) = (nm, sns, ch, src, srcNs, appr)"
  shows "sub_name sp = nm \<and> sub_ns sp = sns \<and>
    sub_fields sp = [(''channel'', ch), (''source'', src), (''sourceNamespace'', srcNs), (''installPlanApproval'', appr)] \<and>
    (equal_fold (sp_env sp ''OLM_SUBSCRIPTION_ENABLED'') ''true'' \<longleftrightarrow> IsOLMSubscriptionEnabled g)"
proof -
  have e: "sp_env sp k = (case map_of (managed_variables env g img) k of Some v \<Rightarrow> v | None \<Rightarrow> placeholder k)"
    if "k \<in> set olm_names" for k using olm_env [OF assms(1) that] assms(3) by simp
  note m = olm_managed [OF assms(2,4), of env img]
  have "sp_env sp ''OLM_SUBSCRIPTION_ENABLED'' = format_bool (IsOLMSubscriptionEnabled g)"
    using e [of "''OLM_SUBSCRIPTION_ENABLED''"] m(1) by (simp add: olm_names_def)
  moreover have "equal_fold (format_bool b) ''true'' \<longleftrightarrow> b" for b
    by (simp add: format_bool_def equal_fold_def ascii_lower_def)
  moreover have "sp_env sp ''OLM_SUBSCRIPTION_NAME'' = nm" "sp_env sp ''OLM_SUBSCRIPTION_NAMESPACE'' = sns"
    "sp_env sp ''OLM_SUBSCRIPTION_CHANNEL'' = ch" "sp_env sp ''OLM_SUBSCRIPTION_SOURCE'' = src"
    "sp_env sp ''OLM_SUBSCRIPTION_SOURCE_NAMESPACE'' = srcNs" "sp_env sp ''OLM_SUBSCRIPTION_INSTALL_PLAN_APPROVAL'' = appr"
    using m by (simp_all add: e olm_names_def)
  ultimately show ?thesis
    using olm_values_given [OF assms(4)] by (simp add: sub_name_def sub_ns_def sub_fields_def getOLMEnvOrDefault_def)
qed

section \<open>Witnesses\<close>

theorem subscription_settles_witness:
  "\<exists>t y. run_state (createOrUpdateOLMSubscription plain_spoke) empty_world = (Inr (), t) \<and>
    map_of (dynamic_of K_Subscription t) (sub_key plain_spoke) = Some y \<and> str_at (u_fields y) [''spec'', ''channel''] = ''latest''"
proof -
  have "(''channel'', ''latest'') \<in> set (sub_fields plain_spoke)"
    by (simp add: sub_fields_def getOLMEnvOrDefault_def plain_spoke_def)
  moreover have "dynamic_of K_Subscription empty_world = []" by (simp add: dynamic_of_def empty_world_def)
  ultimately show ?thesis using subscription_settles [OF calm_empty, of plain_spoke] by fastforce
qed

text \<open>A GitOpsCluster that sets the channel and leaves the rest to the defaults.\<close>

definition olm_gitops :: gitops_cluster where
  "olm_gitops = sample_gitops\<lparr>gc_spec := (gc_spec sample_gitops)\<lparr>gs_addon := Some
     \<lparr>ad_enabled = Some True, ad_operator_image = [], ad_agent = None, ad_override = None,
       ad_olm = Some \<lparr>olm_enabled = Some True, olm_name = [], olm_ns = [], olm_channel = ''gitops-1.18'', olm_source = [],
         olm_source_ns = [], olm_approval = []\<rparr>\<rparr>\<rparr>\<rparr>"

definition olm_spoke :: spoke_env where
  "olm_spoke = plain_spoke\<lparr>sp_env := container_env simple_render (managed_variables (\<lambda>_. []) olm_gitops []) ''ns'' buildAddonEnvVars\<rparr>"

theorem hub_decides_subscription_witness:
  "sub_fields olm_spoke = [(''channel'', ''gitops-1.18''), (''source'', ''redhat-operators''),
     (''sourceNamespace'', ''openshift-marketplace''), (''installPlanApproval'', ''Automatic'')] \<and>
   equal_fold (sp_env olm_spoke ''OLM_SUBSCRIPTION_ENABLED'') ''true''"
proof -
  have g: "gs_addon (gc_spec olm_gitops) = Some (the (gs_addon (gc_spec olm_gitops)))" "IsOLMSubscriptionEnabled olm_gitops"
    by (simp_all add: olm_gitops_def IsOLMSubscriptionEnabled_def)
  have v: "GetOLMSubscriptionValues (if IsOLMSubscriptionEnabled olm_gitops then ad_olm (the (gs_addon (gc_spec olm_gitops))) else None) =
      (''openshift-gitops-operator'', ''openshift-gitops-operator'', ''gitops-1.18'', ''redhat-operators'', ''openshift-marketplace'', ''Automatic'')"
    using g(2) by (simp add: olm_gitops_def GetOLMSubscriptionValues_def olm_default_def)
  have "sp_env olm_spoke = container_env simple_render (managed_variables (\<lambda>_. []) olm_gitops []) ''ns'' buildAddonEnvVars"
    by (simp add: olm_spoke_def)
  from hub_decides_subscription [OF simple_renders g(1) this v] g(2) show ?thesis by simp
qed

end
