(* ===== verification/SpokeInstall.thy ===== *)
theory SpokeInstall
  imports SpokeOLM
begin

text \<open>
  The addon agent's periodic reconcile (\<open>gitopsaddon_controller.go\<close>) with the installation of the operator
  (\<open>gitopsaddon_install.go\<close>) and the application of the embedded chart (\<open>gitopsaddon_utils.go\<close>). Helm and the
  YAML decoder are libraries: the rendered files, in the order in which Go visits the map, and the decoded
  documents are the record \<open>chart_lib\<close>. The configuration of the agent is what it reads from its environment.
\<close>

section \<open>Namespaces and the pull secret\<close>

abbreviation pull_secret :: string where "pull_secret \<equiv> ''open-cluster-management-image-pull-credentials''"

definition NamespaceLabel :: string where
  "NamespaceLabel = ''addon.open-cluster-management.io/namespace''"

definition copied_secret :: "string \<Rightarrow> secret \<Rightarrow> secret" where
  "copied_secret ns s =
     s\<lparr>s_meta := plain_meta pull_secret ns (m_labels (s_meta s)) (m_annos (s_meta s))\<rparr>"

definition copyImagePullSecret :: "spoke_env \<Rightarrow> string \<Rightarrow> unit api" where
  "copyImagePullSecret sp ns = do {
     g \<leftarrow> get_secret (GetComponentNamespace sp AddonAgentNamespace, pull_secret);
     case g of
       Inl e \<Rightarrow> State_Monad.return (Inl e)
     | Inr s \<Rightarrow> (let newSecret = copied_secret ns s in do {
         x \<leftarrow> get_secret (ns, pull_secret);
         case x of
           Inl e \<Rightarrow>
             (if is_not_found e then do {
                c \<leftarrow> create_secret newSecret;
                State_Monad.return (case c of Inl e' \<Rightarrow> if is_already_exists e' then Inr () else Inl e' | Inr _ \<Rightarrow> Inr ())
              }
              else State_Monad.return (Inl e))
         | Inr existing \<Rightarrow>
             (if s_type existing = s_type newSecret \<and> secretDataEqual (s_data existing) (s_data newSecret)
              then State_Monad.return (Inr ())
              else update_secret (existing\<lparr>s_data := s_data newSecret, s_type := s_type newSecret\<rparr>))
       })
   }"

fun waitPullSecret :: "spoke_env \<Rightarrow> wait_point \<Rightarrow> string \<Rightarrow> nat \<Rightarrow> unit api" where
  "waitPullSecret sp p ns 0 =
     State_Monad.return (Inl (ErrText (''timeout waiting for secret '' @ pull_secret @ '' in namespace '' @ ns)))"
| "waitPullSecret sp p ns (Suc n) = do {
     g \<leftarrow> get_secret (ns, pull_secret);
     case g of
       Inr _ \<Rightarrow> State_Monad.return (Inr ())
     | Inl e \<Rightarrow>
         (if \<not> is_not_found e then State_Monad.return (Inl e)
          else do { sleep (sp_tick sp p n); waitPullSecret sp p ns n })
   }"

definition ensureNamespace :: "string \<Rightarrow> meta api" where
  "ensureNamespace nm = do {
     g \<leftarrow> get_namespace ([], nm);
     case g of
       Inr ns \<Rightarrow> State_Monad.return (Inr ns)
     | Inl e \<Rightarrow>
         (if is_not_found e then
            (let ns = plain_meta nm [] [(NamespaceLabel, ''true''), (GitOpsAddonLabelKey, GitOpsAddonLabelValue)] [] in do {
               c \<leftarrow> create_namespace ([], nm) ns;
               State_Monad.return (case c of Inl e' \<Rightarrow> Inl e' | Inr _ \<Rightarrow> Inr ns)
             })
          else State_Monad.return (Inl e))
   }"

definition labelNamespace :: "meta \<Rightarrow> unit api" where
  "labelNamespace ns =
     (if mget (m_labels ns) NamespaceLabel \<noteq> ''true'' \<or> mget (m_labels ns) GitOpsAddonLabelKey \<noteq> GitOpsAddonLabelValue
      then update_namespace ([], m_name ns)
             (ns\<lparr>m_labels := mset_key GitOpsAddonLabelKey GitOpsAddonLabelValue (mset_key NamespaceLabel ''true'' (m_labels ns))\<rparr>)
      else State_Monad.return (Inr ()))"

text \<open>The number tells the calls of one pass apart. A failure to copy the pull secret is not an error.\<close>

definition CreateUpdateNamespace :: "spoke_env \<Rightarrow> nat \<Rightarrow> string \<Rightarrow> unit api" where
  "CreateUpdateNamespace sp i nm =
     andThen (ensureNamespace nm) (\<lambda>ns.
       if mget (m_annos ns) SkipAnnotation = ''true'' then State_Monad.return (Inr ())
       else andThen (labelNamespace ns) (\<lambda>_. do {
         c \<leftarrow> copyImagePullSecret sp nm;
         case c of
           Inl e \<Rightarrow> State_Monad.return (Inr ())
         | Inr _ \<Rightarrow> waitPullSecret sp (PullSecret i) nm (sp_checks sp (PullSecret i))
       }))"

definition WaitForImagePullSecret :: "spoke_env \<Rightarrow> string \<Rightarrow> unit api" where
  "WaitForImagePullSecret sp ns = waitPullSecret sp (PullSecret 2) ns (sp_checks sp (PullSecret 2))"

section \<open>The chart\<close>

record chart_lib =
  ch_render :: "string \<Rightarrow> jobj \<Rightarrow> string \<Rightarrow> string \<Rightarrow> goerr + (string \<times> string) list"
  ch_yaml :: "string \<Rightarrow> goerr + unstructured"

definition chart_values :: "string \<Rightarrow> addon_settings \<Rightarrow> jobj" where
  "chart_values chartPath cfg =
     (if chartPath = ''charts/openshift-gitops-operator'' then
        (let operatorImage = mget (as_images cfg) ''GITOPS_OPERATOR_IMAGE'';
             images0 = [(''GITOPS_OPERATOR_IMAGE'', JStr operatorImage)];
             operatorImages =
               (if \<not> str_contains operatorImage ''argoprojlabs''
                then fold (\<lambda>(k, v). mset_key k (JStr v)) (as_images cfg) images0 else images0)
         in [(''global'', JObj
               [(''operatorImages'', JObj operatorImages),
                (''proxyConfig'', JObj
                  [(''HTTP_PROXY'', JStr (as_http_proxy cfg)), (''HTTPS_PROXY'', JStr (as_https_proxy cfg)),
                   (''NO_PROXY'', JStr (as_no_proxy cfg))])])])
      else [])"

text \<open>\<open>strings.Split\<close> at a separator that is not empty.\<close>

function split_on :: "string \<Rightarrow> string \<Rightarrow> string list" where
  "split_on sep s =
     (case str_index s sep of
        None \<Rightarrow> [s]
      | Some i \<Rightarrow> if sep = [] \<or> s = [] then [s] else take i s # split_on sep (drop (i + length sep) s))"
  by pat_completeness auto

termination
  by (relation "measure (\<lambda>(sep, s). length s)") auto

declare split_on.simps [simp del]

definition yaml_separator :: string where
  "yaml_separator = [CHR 0x0A, CHR ''-'', CHR ''-'', CHR ''-'', CHR 0x0A]"

text \<open>Every object gets the namespace of the release if it has none, whatever its scope, and the owner's label.\<close>

definition prepare_object :: "string \<Rightarrow> unstructured \<Rightarrow> unstructured" where
  "prepare_object ns obj =
     stamp (if u_ns obj = [] then obj\<lparr>u_meta := (u_meta obj)\<lparr>m_ns := ns\<rparr>\<rparr> else obj)"

definition applyManifest :: "spoke_env \<Rightarrow> unstructured \<Rightarrow> unit api" where
  "applyManifest sp obj = do {
     p \<leftarrow> IsPaused;
     if p then State_Monad.return (Inr ())
     else do {
       g \<leftarrow> get_dynamic (gvk_of obj) (key_of sp obj);
       case g of
         Inl e \<Rightarrow>
           (if is_not_found e then create_object (gvk_of obj) (key_of sp obj) (stamp obj)
            else State_Monad.return (Inl e))
       | Inr existing \<Rightarrow>
           (if skipped existing then State_Monad.return (Inr ())
            else if \<not> addon_owned existing then State_Monad.return (Inr ())
            else replace_object (gvk_of obj) (key_of sp obj) (stamp obj))
     }
   }"

definition applyManifestSelectively :: "spoke_env \<Rightarrow> unstructured \<Rightarrow> unit api" where
  "applyManifestSelectively sp obj = do {
     p \<leftarrow> IsPaused;
     if p then State_Monad.return (Inr ())
     else do {
       g \<leftarrow> get_dynamic (gvk_of obj) (key_of sp obj);
       case g of
         Inl e \<Rightarrow> applyManifest sp (stamp obj)
       | Inr existing \<Rightarrow> if skipped existing then State_Monad.return (Inr ()) else applyManifest sp (stamp obj)
     }
   }"

definition applyDocument :: "chart_lib \<Rightarrow> spoke_env \<Rightarrow> string \<Rightarrow> string \<Rightarrow> (world, unit) state" where
  "applyDocument lib sp ns doc =
     (if length (trim_space doc) = 0 then State_Monad.return ()
      else (case ch_yaml lib (trim_space doc) of
              Inl e \<Rightarrow> State_Monad.return ()
            | Inr obj \<Rightarrow>
                (if str_at (u_fields obj) [''kind''] = [] \<or> u_name obj = [] then State_Monad.return ()
                 else do { r \<leftarrow> applyManifest sp (prepare_object ns obj); State_Monad.return () })))"

definition templateAndApplyChart :: "chart_lib \<Rightarrow> spoke_env \<Rightarrow> string \<Rightarrow> string \<Rightarrow> string \<Rightarrow> unit api" where
  "templateAndApplyChart lib sp chartPath ns releaseName =
     (case ch_render lib chartPath (chart_values chartPath (NewGitOpsAddonConfig (sp_env sp))) releaseName ns of
        Inl e \<Rightarrow> State_Monad.return (Inl e)
      | Inr files \<Rightarrow> do {
          loopM (\<lambda>_ (nm, content).
            if length (trim_space content) = 0 \<or> has_suffix nm ''NOTES.txt'' then State_Monad.return ()
            else loopM (\<lambda>_. applyDocument lib sp ns) () (split_on yaml_separator content)) () files;
          State_Monad.return (Inr ())
        })"

section \<open>Image references\<close>

text \<open>The repository, and the digest or the tag. A colon before a slash belongs to a port.\<close>

definition ParseImageReference :: "string \<Rightarrow> goerr + string \<times> string" where
  "ParseImageReference imageRef =
     (let err = Inl (ErrText (''image reference '' @ imageRef @ '' has no tag or digest specified''));
          tagged = (if CHR '':'' \<in> set imageRef then
             (let tag = rev (takeWhile (\<lambda>c. c \<noteq> CHR '':'') (rev imageRef));
                  repository = take (length imageRef - length tag - 1) imageRef
              in if CHR ''/'' \<notin> set tag then Inr (repository, tag) else err) else err)
      in if CHR ''@'' \<in> set imageRef then
           (case split_char (CHR ''@'') imageRef of [r, d] \<Rightarrow> Inr (r, d) | _ \<Rightarrow> tagged)
         else tagged)"

definition parseImageComponents :: "string \<Rightarrow> string \<times> string" where
  "parseImageComponents imageRef = (case ParseImageReference imageRef of Inl e \<Rightarrow> ([], []) | Inr rt \<Rightarrow> rt)"

text \<open>Writing a reference and reading it gives its parts back, whatever port the registry has.\<close>

lemma image_reference_tag:
  assumes "CHR ''@'' \<notin> set (r @ t)" and "CHR '':'' \<notin> set t" and "CHR ''/'' \<notin> set t"
  shows "ParseImageReference (r @ '':'' @ t) = Inr (r, t)"
proof -
  have "takeWhile (\<lambda>c. c \<noteq> CHR '':'') (rev (r @ '':'' @ t)) = rev t"
    using assms(2) by (simp add: takeWhile_append2) (auto simp: takeWhile_append)
  then show ?thesis using assms by (simp add: ParseImageReference_def)
qed

lemma image_reference_digest:
  assumes "CHR ''@'' \<notin> set (r @ d)" shows "ParseImageReference (r @ ''@'' @ d) = Inr (r, d)"
  using assms by (simp add: ParseImageReference_def split_char_Cons split_char_no_sep)

section \<open>Image pull problems\<close>

definition has_pull_secret :: "unstructured \<Rightarrow> bool" where
  "has_pull_secret sa \<longleftrightarrow>
     (\<exists>r \<in> set (slice_at (u_fields sa) [''imagePullSecrets'']). case r of JObj m \<Rightarrow> jget_str m ''name'' = Some pull_secret | _ \<Rightarrow> False)"

definition with_pull_secret :: "unstructured \<Rightarrow> unstructured" where
  "with_pull_secret sa = put_at [''imagePullSecrets'']
     (JArr (slice_at (u_fields sa) [''imagePullSecrets''] @ [JObj [(''name'', JStr pull_secret)]])) sa"

definition patchServiceAccount :: "unstructured \<Rightarrow> (world, unit) state" where
  "patchServiceAccount sa =
     (if has_pull_secret sa then State_Monad.return ()
      else do { u \<leftarrow> replace_object K_ServiceAccount (obj_key sa) (with_pull_secret sa); State_Monad.return () })"

definition patchServiceAccountsWithImagePullSecrets :: "string \<Rightarrow> unit api" where
  "patchServiceAccountsWithImagePullSecrets ns = do {
     g \<leftarrow> get_secret (ns, pull_secret);
     case g of
       Inl e \<Rightarrow>
         State_Monad.return (if is_not_found e then Inr ()
           else Inl (ErrText (''failed to check for image pull secret: '' @ err_text e)))
     | Inr _ \<Rightarrow> do {
         l \<leftarrow> list_dynamic K_ServiceAccount (\<lambda>x. u_ns x = ns);
         case l of
           Inl e \<Rightarrow> State_Monad.return (Inl (ErrText (''failed to list ServiceAccounts: '' @ err_text e)))
         | Inr items \<Rightarrow> do { loopM (\<lambda>_. patchServiceAccount) () items; State_Monad.return (Inr ()) }
       }
   }"

definition patchArgoCDServiceAccountsWithImagePullSecrets :: "spoke_env \<Rightarrow> unit api" where
  "patchArgoCDServiceAccountsWithImagePullSecrets sp =
     andThen (patchServiceAccountsWithImagePullSecrets (getArgoCDNamespace sp))
       (\<lambda>_. patchServiceAccountsWithImagePullSecrets GitOpsOperatorNamespace)"

definition waiting_for_image :: "json \<Rightarrow> bool" where
  "waiting_for_image c =
     (case c of JObj m \<Rightarrow> str_at m [''state'', ''waiting'', ''reason''] \<in> {''ImagePullBackOff'', ''ErrImagePull''} | _ \<Rightarrow> False)"

definition has_pull_issue :: "unstructured \<Rightarrow> bool" where
  "has_pull_issue pod \<longleftrightarrow>
     list_ex waiting_for_image (slice_at (u_fields pod) [''status'', ''containerStatuses'']) \<or>
     list_ex waiting_for_image (slice_at (u_fields pod) [''status'', ''initContainerStatuses''])"

definition deletePodsWithImagePullIssuesInNamespace :: "string \<Rightarrow> unit api" where
  "deletePodsWithImagePullIssuesInNamespace ns = do {
     l \<leftarrow> list_dynamic K_Pod (\<lambda>x. u_ns x = ns);
     case l of
       Inl e \<Rightarrow> State_Monad.return (Inl (ErrText (''failed to list pods: '' @ err_text e)))
     | Inr pods \<Rightarrow> do {
         loopM (\<lambda>_ pod. if has_pull_issue pod then do { d \<leftarrow> delete_dynamic K_Pod (obj_key pod); State_Monad.return () }
                        else State_Monad.return ()) () pods;
         State_Monad.return (Inr ())
       }
   }"

section \<open>Readiness\<close>

definition deployment_available :: "unstructured \<Rightarrow> bool" where
  "deployment_available d \<longleftrightarrow> list_ex (cond_true ''Available'') (slice_at (u_fields d) [''status'', ''conditions''])"

text \<open>One check: the first namespace that has an available Deployment of that name ends it.\<close>

primrec operatorAvailable :: "string list \<Rightarrow> (world, bool) state" where
  "operatorAvailable [] = State_Monad.return False"
| "operatorAvailable (ns # nss) = do {
     g \<leftarrow> get_dynamic K_Deployment (ns, ''openshift-gitops-operator-controller-manager'');
     case g of
       Inl e \<Rightarrow> operatorAvailable nss
     | Inr d \<Rightarrow> if deployment_available d then State_Monad.return True else operatorAvailable nss
   }"

primrec pollOperator :: "spoke_env \<Rightarrow> string list \<Rightarrow> nat \<Rightarrow> unit api" where
  "pollOperator sp nss 0 = State_Monad.return (Inl (ErrText ''context deadline exceeded''))"
| "pollOperator sp nss (Suc n) = do {
     ready \<leftarrow> operatorAvailable nss;
     if ready then State_Monad.return (Inr ())
     else do { sleep (sp_tick sp OperatorReady n); pollOperator sp nss n }
   }"

definition waitForOperatorReady :: "spoke_env \<Rightarrow> string list \<Rightarrow> unit api" where
  "waitForOperatorReady sp extraNamespaces =
     pollOperator sp (GitOpsOperatorNamespace # filter (\<lambda>ns. ns \<noteq> [] \<and> ns \<noteq> GitOpsOperatorNamespace) extraNamespaces)
       (sp_checks sp OperatorReady)"

section \<open>Installation\<close>

text \<open>A failure that is only logged.\<close>

definition logged :: "'a api \<Rightarrow> (world, unit) state" where
  "logged m = do { r \<leftarrow> m; State_Monad.return () }"

text \<open>An error that is passed on with a text of its own.\<close>

definition naming :: "string \<Rightarrow> 'a api \<Rightarrow> 'a api" where
  "naming what m = do { r \<leftarrow> m; State_Monad.return (case r of Inl e \<Rightarrow> Inl (Wrapped what e) | Inr x \<Rightarrow> Inr x) }"

definition installViaOLMSubscription :: "spoke_env \<Rightarrow> unit api" where
  "installViaOLMSubscription sp =
     andThen (naming (''failed to ensure OLM subscription namespace '' @ sub_ns sp) (CreateUpdateNamespace sp 0 (sub_ns sp))) (\<lambda>_.
     andThen (naming (''failed to ensure OperatorGroup in '' @ sub_ns sp) (createOrUpdateOperatorGroup (sub_ns sp))) (\<lambda>_. do {
       loopM (\<lambda>_ oldNS. if sub_ns sp = oldNS then State_Monad.return () else logged (migrateSubscriptionFromNamespace sp oldNS)) ()
         [''openshift-operators'', AddonAgentNamespace];
       logged (recoverFromFailedWebhookInstallPlan sp);
       logged (recoverFromGhostCompleteInstallPlan sp);
       needs \<leftarrow> olmSubscriptionNeedsUpdate sp;
       (if needs then logged patchArgoCDCRDConversionWebhookIfNotReady else State_Monad.return ());
       andThen (naming ''failed to create OLM subscription'' (createOrUpdateOLMSubscription sp)) (\<lambda>_.
       andThen (waitForOperatorReady sp [sub_ns sp]) (\<lambda>_.
       naming (''failed to create/update '' @ GitOpsNamespace @ '' namespace'') (CreateUpdateNamespace sp 1 GitOpsNamespace)))
     }))"

definition installViaEmbeddedManifests :: "chart_lib \<Rightarrow> spoke_env \<Rightarrow> unit api" where
  "installViaEmbeddedManifests lib sp =
     andThen (naming (''failed to create/update '' @ GitOpsOperatorNamespace @ '' namespace'')
       (CreateUpdateNamespace sp 0 GitOpsOperatorNamespace)) (\<lambda>_.
     andThen (templateAndApplyChart lib sp ''charts/openshift-gitops-operator'' GitOpsOperatorNamespace ''openshift-gitops-operator'') (\<lambda>_. do {
       logged (patchServiceAccountsWithImagePullSecrets GitOpsOperatorNamespace);
       logged (deletePodsWithImagePullIssuesInNamespace GitOpsOperatorNamespace);
       andThen (waitForOperatorReady sp []) (\<lambda>_.
         naming (''failed to create/update '' @ GitOpsNamespace @ '' namespace'') (CreateUpdateNamespace sp 1 GitOpsNamespace))
     }))"

text \<open>Whether an object can be read; an error other than its absence ends the detection.\<close>

definition signal :: "string \<Rightarrow> string \<Rightarrow> (unstructured \<Rightarrow> bool) \<Rightarrow> string \<Rightarrow> bool api \<Rightarrow> bool api" where
  "signal knd nm p what rest = do {
     g \<leftarrow> get_dynamic knd ([], nm);
     case g of
       Inr x \<Rightarrow> if p x then State_Monad.return (Inr True) else rest
     | Inl e \<Rightarrow> if gone_or_unknown e then rest else State_Monad.return (Inl (Wrapped what e))
   }"

definition isOCPCluster :: "bool api" where
  "isOCPCluster =
     signal K_CRD ''clusterversions.config.openshift.io'' (\<lambda>_. True) ''failed to check clusterversions CRD''
     (signal K_CRD ''infrastructures.config.openshift.io'' (\<lambda>_. True) ''failed to check infrastructures CRD''
     (signal K_ClusterClaim ''version.openshift.io'' (\<lambda>_. True) ''failed to check version.openshift.io ClusterClaim''
     (signal K_ClusterClaim ''product.open-cluster-management.io'' (\<lambda>x. str_at (u_fields x) [''spec'', ''value''] = ''OpenShift'')
        ''failed to check product ClusterClaim''
     (State_Monad.return (Inr False)))))"

definition deleteDefaultGitopsServiceIfStale :: "spoke_env \<Rightarrow> unit api" where
  "deleteDefaultGitopsServiceIfStale sp = do {
     a \<leftarrow> get_dynamic K_ArgoCD (getArgoCDNamespace sp, ''acm-openshift-gitops'');
     case a of
       Inl e \<Rightarrow> State_Monad.return (if gone_or_unknown e then Inr () else Inl (Wrapped ''failed to check for addon-created ArgoCD CR'' e))
     | Inr _ \<Rightarrow> do {
         g \<leftarrow> get_dynamic K_GitopsService ([], ''cluster'');
         case g of
           Inl e \<Rightarrow> State_Monad.return (if gone_or_unknown e then Inr () else Inl (Wrapped ''failed to check for default GitopsService CR'' e))
         | Inr _ \<Rightarrow> do {
             d \<leftarrow> delete_dynamic K_GitopsService ([], ''cluster'');
             State_Monad.return (case d of
               Inl e \<Rightarrow> if is_not_found e then Inr () else Inl (Wrapped ''failed to delete default GitopsService CR'' e)
             | Inr _ \<Rightarrow> Inr ())
           }
       }
   }"

definition installOrUpdateOpenshiftGitops :: "chart_lib \<Rightarrow> spoke_env \<Rightarrow> unit api" where
  "installOrUpdateOpenshiftGitops lib sp = do {
     logged (deleteDefaultGitopsServiceIfStale sp);
     if equal_fold (sp_env sp ''OLM_SUBSCRIPTION_ENABLED'') ''true'' then installViaOLMSubscription sp
     else do {
       ocp \<leftarrow> isOCPCluster;
       case ocp of
         Inl e \<Rightarrow> State_Monad.return (Inl (Wrapped ''failed to detect OCP cluster'' e))
       | Inr isOCP \<Rightarrow> if isOCP then installViaOLMSubscription sp else installViaEmbeddedManifests lib sp
     }
   }"

section \<open>The periodic reconcile\<close>

definition spokeReconcile :: "chart_lib \<Rightarrow> spoke_env \<Rightarrow> (world, unit) state" where
  "spokeReconcile lib sp = do {
     paused \<leftarrow> IsPaused;
     if paused then State_Monad.return ()
     else do {
       logged (installOrUpdateOpenshiftGitops lib sp);
       logged (patchArgoCDServiceAccountsWithImagePullSecrets sp);
       logged (deletePodsWithImagePullIssuesInNamespace (getArgoCDNamespace sp))
     }
   }"

section \<open>What the installation leaves alone\<close>

text \<open>
  Objects that somebody else owns or that carry the skip annotation, but for the kinds that the agent treats without
  regard to ownership: InstallPlans, ClusterServiceVersions, ServiceAccounts, Pods, the ArgoCD CRD, the default
  GitopsService.
\<close>

definition install_spared :: "string \<Rightarrow> nsname \<Rightarrow> unstructured \<Rightarrow> bool" where
  "install_spared knd k x \<longleftrightarrow>
     (\<not> addon_owned x \<or> skipped x \<and> knd \<noteq> K_Subscription) \<and>
     knd \<notin> {K_InstallPlan, K_CSV, K_ServiceAccount, K_Pod} \<and>
     (knd, k) \<noteq> (K_CRD, argocd_crd) \<and> (knd, k) \<noteq> (K_GitopsService, ([], ''cluster''))"

lemma install_olm_spared: "install_spared knd k x \<Longrightarrow> olm_spared knd k x"
  by (auto simp: install_spared_def olm_spared_def)

lemma kept_logged: "state_io_rel R m \<Longrightarrow> state_io_rel R (logged m)"
  unfolding logged_def by (simp add: state_io_rel_def split_beta)

lemma kept_naming: "state_io_rel R m \<Longrightarrow> state_io_rel R (naming what m)"
  unfolding naming_def by (simp add: state_io_rel_def split_beta)

lemma kept_andThen:
  "state_io_rel (keeps knd k x) m \<Longrightarrow> (\<And>a. state_io_rel (keeps knd k x) (f a)) \<Longrightarrow> state_io_rel (keeps knd k x) (andThen m f)"
  unfolding andThen_def by (intro inv_frame.bind_frame inv_frame.sum_frame inv_frame.return_frame)

lemma waitPullSecret_keeps:
  assumes "stable knd k x sp" shows "state_io_rel (keeps knd k x) (waitPullSecret sp p ns n)"
  by (induction n) (auto intro!: keep_rules assms)

lemma namespace_keeps:
  assumes "stable knd k x sp" shows "state_io_rel (keeps knd k x) (CreateUpdateNamespace sp i nm)"
  unfolding CreateUpdateNamespace_def ensureNamespace_def labelNamespace_def copyImagePullSecret_def Let_def
  by (intro keep_rules kept_andThen waitPullSecret_keeps assms)

lemma IsPaused_quiet: "state_io_rel quiet IsPaused"
  unfolding IsPaused_def by (intro quiet.frame_rules get_quiet)

lemma applyManifest_keeps:
  assumes "\<not> addon_owned x \<or> skipped x" shows "state_io_rel (keeps knd k x) (applyManifest sp obj)"
proof -
  have other: "(gvk_of obj, key_of sp obj) \<noteq> (knd, k)"
    if "gvk_of obj = knd \<longrightarrow> obj_key y = key_of sp obj \<and> (key_of sp obj = k \<longrightarrow> y = x)" "\<not> skipped y" "\<not> \<not> addon_owned y" for y
    using that assms by auto
  show ?thesis unfolding applyManifest_def
    by (intro inv_frame.bind_frame [OF kept_quiet [OF IsPaused_quiet]] inv_frame.if_frame inv_frame.return_frame keep_got
          kept_create kept_replace) (erule other, assumption+)
qed

lemma chart_keeps:
  assumes "\<not> addon_owned x \<or> skipped x" shows "state_io_rel (keeps knd k x) (templateAndApplyChart lib sp path ns nm)"
  unfolding templateAndApplyChart_def applyDocument_def
  by (intro keep_rules applyManifest_keeps assms)

lemma pull_keeps:
  assumes "knd \<notin> {K_ServiceAccount, K_Pod}"
  shows "state_io_rel (keeps knd k x) (patchServiceAccountsWithImagePullSecrets ns)"
    and "state_io_rel (keeps knd k x) (deletePodsWithImagePullIssuesInNamespace ns)"
  unfolding patchServiceAccountsWithImagePullSecrets_def patchServiceAccount_def deletePodsWithImagePullIssuesInNamespace_def
  using assms by (auto intro!: keep_rules kept_replace kept_delete)

lemma operatorAvailable_quiet: "state_io_rel quiet (operatorAvailable nss)"
  by (induction nss) (auto intro!: quiet.frame_rules get_quiet)

lemma ready_keeps:
  assumes "stable knd k x sp" shows "state_io_rel (keeps knd k x) (waitForOperatorReady sp nss)"
proof -
  have "state_io_rel (keeps knd k x) (pollOperator sp nss' n)" for nss' n
    by (induction n) (auto intro!: keep_rules kept_quiet [OF operatorAvailable_quiet] assms)
  then show ?thesis by (simp add: waitForOperatorReady_def)
qed

lemma olm_install_keeps:
  assumes "install_spared knd k x" and "stable knd k x sp"
  shows "state_io_rel (keeps knd k x) (installViaOLMSubscription sp)"
  unfolding installViaOLMSubscription_def patchArgoCDCRDConversionWebhookIfNotReady_def
  by (intro kept_andThen kept_naming inv_frame.frame_rules kept_logged namespace_keeps ready_keeps spoke_keeps install_olm_spared assms)
     (use assms(1) in \<open>simp add: install_spared_def\<close>)

lemma embedded_keeps:
  assumes "install_spared knd k x" and "stable knd k x sp"
  shows "state_io_rel (keeps knd k x) (installViaEmbeddedManifests lib sp)"
  unfolding installViaEmbeddedManifests_def
  by (intro kept_andThen kept_naming inv_frame.frame_rules kept_logged namespace_keeps ready_keeps chart_keeps pull_keeps assms)
     (use assms(1) in \<open>auto simp: install_spared_def\<close>)

lemma isOCPCluster_quiet: "state_io_rel quiet isOCPCluster"
  unfolding isOCPCluster_def signal_def by (intro quiet.frame_rules get_quiet)

lemma stale_service_keeps:
  assumes "(knd, k) \<noteq> (K_GitopsService, ([], ''cluster''))"
  shows "state_io_rel (keeps knd k x) (deleteDefaultGitopsServiceIfStale sp)"
  unfolding deleteDefaultGitopsServiceIfStale_def
  by (intro keep_rules kept_delete) (use assms in auto)


text \<open>
  A paused agent does nothing: while the marker says so, and also while it cannot be read for another reason than
  its absence, a pass makes no change at all.
\<close>

theorem paused_agent_idle:
  assumes "(\<exists>e. verdict w = Some e \<and> \<not> is_not_found e) \<or>
    verdict w = None \<and> (\<exists>cm. map_of (w_configmaps w) marker_key = Some cm \<and> mget (cm_data cm) ''paused'' = ''true'')"
  shows "snd (run_state (spokeReconcile lib sp) w) = consume w"
  using assms by (auto simp: spokeReconcile_def IsPaused_def run_simps)

section \<open>Witnesses\<close>

theorem paused_agent_idle_witness:
  "snd (run_state (spokeReconcile lib plain_spoke) (empty_world\<lparr>w_verdicts := [Some (ErrText ''down'')]\<rparr>)) = empty_world"
proof -
  have "verdict (empty_world\<lparr>w_verdicts := [Some (ErrText ''down'')]\<rparr>) = Some (ErrText ''down'')"
    "consume (empty_world\<lparr>w_verdicts := [Some (ErrText ''down'')]\<rparr>) = empty_world"
    by (simp_all add: verdict_def consume_def empty_world_def)
  then show ?thesis using paused_agent_idle by simp
qed

definition users_subscription :: unstructured where
  "users_subscription = \<lparr>u_meta = plain_meta ''openshift-gitops-operator'' ''openshift-gitops-operator'' [] [], u_fields = []\<rparr>"

definition no_chart :: chart_lib where
  "no_chart = \<lparr>ch_render = (\<lambda>_ _ _ _. Inr []), ch_yaml = (\<lambda>_. Inl (ErrText ''no document''))\<rparr>"


end
