(* ===== verification/SpokeCleanup.thy ===== *)
theory SpokeCleanup
  imports SpokeOLM GoNet "HOL-Library.Word"
begin

text \<open>
  The clean-up job of the addon (\<open>gitopsaddon_cleanup.go\<close>): the agent is paused and scaled down, its
  ArgoCD resources are deleted and their finalizers waited for without a deadline, then the operator is removed, by OLM
  or object by object, and at last the rights of the job itself. The wait has no bound in the code, so its model has a
  number of rounds after which it is observed; every statement about it holds for all numbers, or for all
  that are large enough.
\<close>

section \<open>Durations\<close>

text \<open>\<open>strconv.Atoi\<close>: an optional sign and decimal digits, in the range of \<open>int64\<close>.\<close>

definition in_int64 :: "int \<Rightarrow> bool" where
  "in_int64 v \<longleftrightarrow> - (2 ^ 63) \<le> v \<and> v < 2 ^ 63"

definition atoi :: "string \<Rightarrow> int option" where
  "atoi s =
     (let neg = has_prefix s ''-''; ds = (if neg \<or> has_prefix s ''+'' then drop 1 s else s);
          v = (if neg then - int (decimal ds) else int (decimal ds))
      in if ds \<noteq> [] \<and> list_all is_digit ds \<and> in_int64 v then Some v else None)"

text \<open>\<open>time.Duration\<close> is a signed number of nanoseconds in 64 bits; the product with \<open>time.Second\<close> wraps.\<close>

type_synonym duration = "64 word"

definition seconds :: "int \<Rightarrow> duration" where
  "seconds v = word_of_int v * 1000000000"

definition env_seconds :: "spoke_env \<Rightarrow> string \<Rightarrow> int \<Rightarrow> duration" where
  "env_seconds sp k d =
     (if sp_env sp k \<noteq> [] then (case atoi (sp_env sp k) of Some v \<Rightarrow> seconds v | None \<Rightarrow> seconds d) else seconds d)"

definition getPauseSettleDuration :: "spoke_env \<Rightarrow> duration" where
  "getPauseSettleDuration sp = env_seconds sp ''PAUSE_SETTLE_SECONDS'' 10"

definition getCleanupVerificationWaitDuration :: "spoke_env \<Rightarrow> duration" where
  "getCleanupVerificationWaitDuration sp = env_seconds sp ''CLEANUP_VERIFICATION_WAIT_SECONDS'' 20"

text \<open>\<open>time.Sleep\<close> returns at once when the duration is not positive.\<close>

definition sleep_for :: "duration \<Rightarrow> wait_step \<Rightarrow> (world, unit) state" where
  "sleep_for d f = (if 0 < sint d then sleep f else State_Monad.return ())"

section \<open>The operator under OLM\<close>

definition deleteGitOpsServiceCR :: "unit api" where
  "deleteGitOpsServiceCR = do {
     d \<leftarrow> delete_dynamic K_GitopsService ([], ''cluster'');
     State_Monad.return (case d of
       Inl e \<Rightarrow> if is_not_found e then Inr () else Inl (Wrapped ''failed to delete GitOpsService CR'' e)
     | Inr _ \<Rightarrow> Inr ())
   }"

definition in_ns_labelled :: "string \<Rightarrow> unstructured \<Rightarrow> bool" where
  "in_ns_labelled ns x \<longleftrightarrow> u_ns x = ns \<and> matches_label x"

definition getInstalledCSVsFromLabeledSubscriptions :: "string \<Rightarrow> nsname list api" where
  "getInstalledCSVsFromLabeledSubscriptions ns = do {
     l \<leftarrow> list_dynamic K_Subscription (in_ns_labelled ns);
     State_Monad.return (case l of
       Inl e \<Rightarrow> if gone_or_unknown e then Inr [] else Inl e
     | Inr subs \<Rightarrow>
         Inr (map (Pair ns) (filter (\<lambda>n. n \<noteq> []) (map (\<lambda>sub. str_at (u_fields sub) [''status'', ''installedCSV'']) subs))))
   }"

definition deleteSubscriptionsInNamespaceAndReport :: "string \<Rightarrow> bool api" where
  "deleteSubscriptionsInNamespaceAndReport ns = do {
     l \<leftarrow> list_dynamic K_Subscription (in_ns_labelled ns);
     case l of
       Inl e \<Rightarrow> State_Monad.return (if gone_or_unknown e then Inr False else Inl e)
     | Inr subs \<Rightarrow> do {
         loopM (\<lambda>_ sub. do { d \<leftarrow> delete_dynamic K_Subscription (obj_key sub); State_Monad.return () }) () subs;
         State_Monad.return (Inr (length subs > 0))
       }
   }"

definition subscription_namespaces :: "spoke_env \<Rightarrow> string list" where
  "subscription_namespaces sp =
     (let nss = [''openshift-operators'', ''operators'', GitOpsOperatorNamespace, AddonAgentNamespace];
          envNs = sp_env sp ''OLM_SUBSCRIPTION_NAMESPACE''
      in if envNs \<noteq> [] \<and> envNs \<notin> set nss then nss @ [envNs] else nss)"

text \<open>What the steps report: whether anything of OLM was found, and the errors so far.\<close>

type_synonym report = "bool \<times> goerr list"

definition collectRefs :: "report \<times> nsname list \<Rightarrow> string \<Rightarrow> (world, report \<times> nsname list) state" where
  "collectRefs = (\<lambda>((found, errs), refs) ns. do {
     r \<leftarrow> getInstalledCSVsFromLabeledSubscriptions ns;
     State_Monad.return (case r of
       Inl e \<Rightarrow> ((found, errs @ [Wrapped (''failed to collect CSVs in '' @ ns) e]), refs)
     | Inr new \<Rightarrow> ((found \<or> length new > 0, errs), refs @ new))
   })"

definition deleteSubs :: "report \<Rightarrow> string \<Rightarrow> (world, report) state" where
  "deleteSubs = (\<lambda>(found, errs) ns. do {
     r \<leftarrow> deleteSubscriptionsInNamespaceAndReport ns;
     State_Monad.return (case r of
       Inl e \<Rightarrow> (found, errs @ [Wrapped (''failed to delete subscriptions in '' @ ns) e])
     | Inr deleted \<Rightarrow> (found \<or> deleted, errs))
   })"

definition deleteRef :: "report \<Rightarrow> nsname \<Rightarrow> (world, report) state" where
  "deleteRef = (\<lambda>(found, errs) ref. do {
     d \<leftarrow> delete_dynamic K_CSV ref;
     State_Monad.return (case d of
       Inl e \<Rightarrow> if gone_or_unknown e then (found, errs)
                else (found, errs @ [Wrapped (''failed to delete CSV '' @ fst ref @ ''/'' @ snd ref) e])
     | Inr _ \<Rightarrow> (found, errs))
   })"

definition sweepNs :: "string \<Rightarrow> report \<Rightarrow> string \<Rightarrow> (world, report) state" where
  "sweepNs subName = (\<lambda>(found, errs) ns. do {
     r \<leftarrow> deleteRemainingGitOpsCSVs ns subName;
     State_Monad.return (case r of
       Inl e \<Rightarrow> (found, errs @ [Wrapped (''failed to clean remaining CSVs in '' @ ns) e])
     | Inr _ \<Rightarrow> (found, errs))
   })"

definition deleteOLMResourcesInternal :: "spoke_env \<Rightarrow> (world, bool \<times> goerr option) state" where
  "deleteOLMResourcesInternal sp = (let nss = subscription_namespaces sp in do {
     c \<leftarrow> loopM collectRefs ((False, []), []) nss;
     r2 \<leftarrow> loopM deleteSubs (fst c) nss;
     r3 \<leftarrow> loopM deleteRef r2 (snd c);
     r4 \<leftarrow> loopM (sweepNs (getOLMEnvOrDefault sp ''OLM_SUBSCRIPTION_NAME'' ''openshift-gitops-operator'')) r3 nss;
     p \<leftarrow> patchArgoCDCRDConversionWebhook;
     let errs = (case p of Inl e \<Rightarrow> snd r4 @ [Wrapped ''failed to patch ArgoCD CRD conversion webhook'' e] | Inr _ \<Rightarrow> snd r4);
     State_Monad.return (fst r4,
       case errs of [] \<Rightarrow> None
       | e # es \<Rightarrow> Some (Wrapped (''OLM resource cleanup had '' @ itoa (int (length errs)) @ '' error(s)'') e))
   })"

section \<open>The ArgoCD resources\<close>

definition deleteListedArgoCDs :: "unstructured list \<Rightarrow> (world, unit) state" where
  "deleteListedArgoCDs = loopM (\<lambda>_ argoCD. do { d \<leftarrow> delete_dynamic K_ArgoCD (obj_key argoCD); State_Monad.return () }) ()"

text \<open>
  One round of the loop in \<open>deleteArgoCDCR\<close>: it ends the loop (\<open>None\<close>), or gives the time since when no
  resource was seen. The times are the clock at this round.
\<close>

definition argoCDRound :: "int \<Rightarrow> int option \<Rightarrow> (world, int option option) state" where
  "argoCDRound now zeroSince = do {
     l \<leftarrow> list_dynamic K_ArgoCD matches_label;
     case l of
       Inl e \<Rightarrow> State_Monad.return (if is_no_match e then None else Some None)
     | Inr items \<Rightarrow>
         (if length items = 0 then
            (let since = (case zeroSince of None \<Rightarrow> now | Some z \<Rightarrow> z) in
             State_Monad.return (if now - since \<ge> 15 then None else Some (Some since)))
          else do { deleteListedArgoCDs items; State_Monad.return (Some None) })
   }"

text \<open>The loop, watched for a number of rounds: whether it has ended within them. The third argument counts rounds.\<close>

primrec deleteArgoCDCR :: "spoke_env \<Rightarrow> nat \<Rightarrow> nat \<Rightarrow> int option \<Rightarrow> (world, bool) state" where
  "deleteArgoCDCR sp 0 n zeroSince = State_Monad.return False"
| "deleteArgoCDCR sp (Suc fuel) n zeroSince = do {
     r \<leftarrow> argoCDRound (sp_clock sp n) zeroSince;
     case r of
       None \<Rightarrow> State_Monad.return True
     | Some z \<Rightarrow> do { sleep (sp_tick sp ArgoCDGone n); deleteArgoCDCR sp fuel (Suc n) z }
   }"

section \<open>The operator from the chart\<close>

record resourceType =
  rt_kind :: string
  rt_apiVersion :: string

definition rt_gvk :: "resourceType \<Rightarrow> string" where
  "rt_gvk rt = rt_apiVersion rt @ '' '' @ rt_kind rt"

definition own_rbac :: "resourceType \<Rightarrow> unstructured \<Rightarrow> bool" where
  "own_rbac rt item \<longleftrightarrow> rt_kind rt \<in> {''ClusterRoleBinding'', ''ClusterRole''} \<and>
     u_name item \<in> {AddonDeploymentName, AddonDeploymentName @ ''-cleanup''}"

definition selected :: "string \<Rightarrow> bool \<Rightarrow> unstructured \<Rightarrow> bool" where
  "selected ns requireLabel x \<longleftrightarrow> (requireLabel \<longrightarrow> matches_label x) \<and> (ns \<noteq> [] \<longrightarrow> u_ns x = ns)"

definition deleteItem :: "resourceType \<Rightarrow> bool \<Rightarrow> unstructured \<Rightarrow> (world, bool) state" where
  "deleteItem rt allDeleted item =
     (if m_deleting (u_meta item) then State_Monad.return False
      else if own_rbac rt item then State_Monad.return allDeleted
      else do { d \<leftarrow> delete_dynamic (rt_gvk rt) (obj_key item); State_Monad.return False })"

definition deleteType :: "string \<Rightarrow> bool \<Rightarrow> bool \<Rightarrow> resourceType \<Rightarrow> (world, bool) state" where
  "deleteType ns requireLabel allDeleted rt = do {
     l \<leftarrow> list_dynamic (rt_gvk rt) (selected ns requireLabel);
     case l of
       Inl e \<Rightarrow> State_Monad.return False
     | Inr items \<Rightarrow> loopM (deleteItem rt) allDeleted items
   }"

definition deleteResourcesByType :: "resourceType list \<Rightarrow> string \<Rightarrow> bool \<Rightarrow> (world, bool) state" where
  "deleteResourcesByType rts ns requireLabel = loopM (deleteType ns requireLabel) True rts"

definition remainingOf :: "(unstructured \<Rightarrow> bool) \<Rightarrow> string list \<Rightarrow> resourceType \<Rightarrow> (world, string list) state" where
  "remainingOf p remaining rt = do {
     l \<leftarrow> list_dynamic (rt_gvk rt) p;
     State_Monad.return (case l of
       Inl e \<Rightarrow> remaining
     | Inr items \<Rightarrow> remaining @ map (\<lambda>item. rt_kind rt @ ''/'' @ u_name item) items)
   }"

text \<open>\<open>client.InNamespace\<close> with an empty namespace selects everything.\<close>

definition collectRemainingResources ::
    "resourceType list \<Rightarrow> resourceType list \<Rightarrow> string \<Rightarrow> bool \<Rightarrow> (world, string list) state" where
  "collectRemainingResources namespacedTypes clusterTypes ns requireLabel = do {
     r \<leftarrow> loopM (remainingOf (selected ns requireLabel)) [] namespacedTypes;
     loopM (remainingOf (selected [] requireLabel)) r clusterTypes
   }"

text \<open>The attempts: one every five seconds while the time lasts, unless the context is cancelled.\<close>

function retryDelete ::
    "spoke_env \<Rightarrow> wait_point \<Rightarrow> resourceType list \<Rightarrow> resourceType list \<Rightarrow> string \<Rightarrow> bool \<Rightarrow> int \<Rightarrow> int \<Rightarrow> (world, bool) state" where
  "retryDelete sp p nts cts ns requireLabel maxWait elapsed =
     (if \<not> elapsed < maxWait \<or> sp_cancelled sp p (nat (elapsed div 5)) then State_Monad.return False
      else do {
        a \<leftarrow> deleteResourcesByType nts ns requireLabel;
        b \<leftarrow> deleteResourcesByType cts [] requireLabel;
        if a \<and> b then State_Monad.return True
        else do {
          sleep (sp_tick sp p (nat (elapsed div 5)));
          retryDelete sp p nts cts ns requireLabel maxWait (elapsed + 5)
        }
      })"
  by pat_completeness auto

termination
  by (relation "measure (\<lambda>(_, _, _, _, _, _, maxWait, elapsed). nat (maxWait - elapsed))") auto

declare retryDelete.simps [simp del]

definition deleteResourcesWithRetry ::
    "spoke_env \<Rightarrow> wait_point \<Rightarrow> resourceType list \<Rightarrow> resourceType list \<Rightarrow> string \<Rightarrow> int \<Rightarrow> bool \<Rightarrow> unit api" where
  "deleteResourcesWithRetry sp p nts cts ns maxWait requireLabel = do {
     done \<leftarrow> retryDelete sp p nts cts ns requireLabel maxWait 0;
     if done then State_Monad.return (Inr ())
     else do {
       remaining \<leftarrow> collectRemainingResources nts cts ns requireLabel;
       State_Monad.return (if length remaining > 0
         then Inl (ErrText (''timeout: failed to delete resources after '' @ itoa (maxWait div 60) @ ''m'' @ itoa (maxWait mod 60) @
           ''s, remaining: ['' @ join_with '' '' remaining @ '']''))
         else Inr ())
     }
   }"

definition namespacedResourceTypes :: "resourceType list" where
  "namespacedResourceTypes =
     [\<lparr>rt_kind = ''Deployment'', rt_apiVersion = ''apps/v1''\<rparr>, \<lparr>rt_kind = ''Service'', rt_apiVersion = ''v1''\<rparr>,
      \<lparr>rt_kind = ''ConfigMap'', rt_apiVersion = ''v1''\<rparr>, \<lparr>rt_kind = ''ServiceAccount'', rt_apiVersion = ''v1''\<rparr>,
      \<lparr>rt_kind = ''Role'', rt_apiVersion = ''rbac.authorization.k8s.io/v1''\<rparr>,
      \<lparr>rt_kind = ''RoleBinding'', rt_apiVersion = ''rbac.authorization.k8s.io/v1''\<rparr>]"

definition clusterResourceTypes :: "resourceType list" where
  "clusterResourceTypes =
     [\<lparr>rt_kind = ''ClusterRole'', rt_apiVersion = ''rbac.authorization.k8s.io/v1''\<rparr>,
      \<lparr>rt_kind = ''ClusterRoleBinding'', rt_apiVersion = ''rbac.authorization.k8s.io/v1''\<rparr>]"

text \<open>\<open>errors.Join\<close>: the messages on lines of their own.\<close>

definition joined :: "goerr list \<Rightarrow> goerr" where
  "joined es = ErrText (join_with [CHR 0x0A] (map err_text es))"

text \<open>The errors of the two passes; the number tells the calls of one clean-up apart.\<close>

definition deleteOperatorResources :: "spoke_env \<Rightarrow> nat \<Rightarrow> string \<Rightarrow> (world, goerr list) state" where
  "deleteOperatorResources sp i ns = do {
     a \<leftarrow> deleteResourcesWithRetry sp (ResourcesGone i 0) namespacedResourceTypes [] ns 240 True;
     b \<leftarrow> deleteResourcesWithRetry sp (ResourcesGone i 1) [] clusterResourceTypes [] 120 True;
     State_Monad.return ((case a of Inl e \<Rightarrow> [e] | Inr _ \<Rightarrow> []) @ (case b of Inl e \<Rightarrow> [e] | Inr _ \<Rightarrow> []))
   }"

section \<open>The clean-up\<close>

definition deleteOwnRBAC :: "(world, unit) state" where
  "deleteOwnRBAC = loopM (\<lambda>_ nm. do {
     a \<leftarrow> delete_dynamic K_ClusterRoleBinding ([], nm);
     b \<leftarrow> delete_dynamic K_ClusterRole ([], nm);
     State_Monad.return ()
   }) () [AddonDeploymentName, AddonDeploymentName @ ''-cleanup'']"

text \<open>Up to the wait for the ArgoCD resources.\<close>

definition beginUninstall :: "spoke_env \<Rightarrow> (world, goerr list) state" where
  "beginUninstall sp = do {
     m \<leftarrow> createPauseMarker sp;
     scaleDownAddonAgent;
     sleep_for (getPauseSettleDuration sp) (sp_tick sp PauseSettled 0);
     g \<leftarrow> deleteGitOpsServiceCR;
     State_Monad.return (case m of Inl e \<Rightarrow> [Wrapped ''failed to create pause marker'' e] | Inr _ \<Rightarrow> [])
   }"

definition removeOperator :: "spoke_env \<Rightarrow> string \<Rightarrow> (world, goerr list) state" where
  "removeOperator sp ns = do {
     r \<leftarrow> deleteOLMResourcesInternal sp;
     let errs = (case snd r of None \<Rightarrow> [] | Some e \<Rightarrow> [Wrapped ''failed to delete OLM resources'' e]);
     if fst r then State_Monad.return errs
     else do {
       es \<leftarrow> deleteOperatorResources sp 0 ns;
       scaleDownAddonAgent;
       sleep (sp_tick sp Restored 0);
       es' \<leftarrow> deleteOperatorResources sp 1 ns;
       State_Monad.return (errs @ (if es = [] then [] else [Wrapped ''failed to delete openshift-gitops-operator resources'' (joined es)]))
     }
   }"

text \<open>The whole job: \<open>None\<close> while the wait goes on, and then the errors it reports, none for success.\<close>

definition uninstallOnManagedCluster :: "spoke_env \<Rightarrow> nat \<Rightarrow> string \<Rightarrow> (world, goerr list option) state" where
  "uninstallOnManagedCluster sp fuel ns = do {
     errs \<leftarrow> beginUninstall sp;
     gone \<leftarrow> deleteArgoCDCR sp fuel 0 None;
     if \<not> gone then State_Monad.return None
     else do {
       es \<leftarrow> removeOperator sp ns;
       r \<leftarrow> deleteOrphanedPauseMarker;
       deleteOwnRBAC;
       State_Monad.return (Some (errs @ es))
     }
   }"

text \<open>The sweep after the clean-up, which no code calls.\<close>

definition verifyNamespaceCleanup :: "string \<Rightarrow> bool api" where
  "verifyNamespaceCleanup ns = do {
     l \<leftarrow> list_dynamic K_Deployment (in_ns_labelled ns);
     State_Monad.return (case l of
       Inl e \<Rightarrow> if is_not_found e then Inr False else Inl e
     | Inr items \<Rightarrow> Inr (length items > 0))
   }"

function waitAndVerifyCleanup :: "spoke_env \<Rightarrow> nat \<Rightarrow> string \<Rightarrow> int \<Rightarrow> int \<Rightarrow> (world, unit) state" where
  "waitAndVerifyCleanup sp i ns waitDuration elapsed =
     (if \<not> elapsed < waitDuration then State_Monad.return ()
      else do {
        sleep (sp_tick sp Restored (Suc i));
        v \<leftarrow> verifyNamespaceCleanup ns;
        (if v = Inr True then do { es \<leftarrow> deleteOperatorResources sp (2 + i) ns; State_Monad.return () } else State_Monad.return ());
        waitAndVerifyCleanup sp (Suc i) ns waitDuration (elapsed + 5)
      })"
  by pat_completeness auto

termination
  by (relation "measure (\<lambda>(_, _, _, waitDuration, elapsed). nat (waitDuration - elapsed))") auto

declare waitAndVerifyCleanup.simps [simp del]

section \<open>What the clean-up leaves alone\<close>

text \<open>
  Objects without the owner's label, but for ClusterServiceVersions, which are found by reference, and the few that are
  named in the code.
\<close>

definition cleanup_spared :: "string \<Rightarrow> nsname \<Rightarrow> unstructured \<Rightarrow> bool" where
  "cleanup_spared knd k x \<longleftrightarrow> \<not> addon_owned x \<and> knd \<noteq> K_CSV \<and>
     (knd, k) \<notin> {(K_CRD, argocd_crd), (K_GitopsService, ([], ''cluster'')),
       (K_Deployment, (AddonAgentNamespace, AddonDeploymentName))} \<and>
     (knd \<in> {K_ClusterRole, K_ClusterRoleBinding} \<longrightarrow> k \<notin> {([], AddonDeploymentName), ([], AddonDeploymentName @ ''-cleanup'')})"

lemma listed_spared:
  assumes "cleanup_spared knd k x" and "\<forall>y \<in> set ys. P y \<and> (knd' = knd \<and> obj_key y = k \<longrightarrow> y = x)"
    and "\<And>y. P y \<Longrightarrow> matches_label y" and "y \<in> set ys"
  shows "(knd', obj_key y) \<noteq> (knd, k)"
  using assms by (auto simp: cleanup_spared_def matches_owned)

lemma sleep_for_keeps: "stable knd k x sp \<Longrightarrow> state_io_rel (keeps knd k x) (sleep_for d (sp_tick sp p n))"
  unfolding sleep_for_def by (intro keep_rules)

lemma scaleDown_keeps:
  assumes "(knd, k) \<noteq> (K_Deployment, (AddonAgentNamespace, AddonDeploymentName))"
  shows "state_io_rel (keeps knd k x) scaleDownAddonAgent"
proof -
  have "(K_Deployment, obj_key y) \<noteq> (knd, k)"
    if "K_Deployment = knd \<longrightarrow> obj_key y = (AddonAgentNamespace, AddonDeploymentName) \<and> c" for y c
    using that assms by auto
  then show ?thesis unfolding scaleDownAddonAgent_def
    by (intro keep_got inv_frame.frame_rules kept_replace) blast+
qed

lemma argoCDs_keeps:
  assumes "cleanup_spared knd k x" and "stable knd k x sp"
  shows "state_io_rel (keeps knd k x) (deleteArgoCDCR sp fuel n z)"
proof -
  have r: "state_io_rel (keeps knd k x) (argoCDRound now z)" for now z
    unfolding argoCDRound_def deleteListedArgoCDs_def Let_def
    by (intro keep_listed inv_frame.frame_rules kept_delete) (erule listed_spared [OF assms(1)], assumption+)
  show ?thesis by (induction fuel arbitrary: n z) (auto intro!: keep_rules r assms(2))
qed

lemma subscriptions_keeps:
  assumes "cleanup_spared knd k x"
  shows "state_io_rel (keeps knd k x) (deleteSubscriptionsInNamespaceAndReport ns)"
  unfolding deleteSubscriptionsInNamespaceAndReport_def
  by (intro keep_listed inv_frame.frame_rules kept_delete)
     (erule listed_spared [OF assms], simp add: in_ns_labelled_def, assumption)

lemma olm_cleanup_keeps:
  assumes "cleanup_spared knd k x" shows "state_io_rel (keeps knd k x) (deleteOLMResourcesInternal sp)"
proof -
  have csv: "knd \<noteq> K_CSV" "\<And>k'. (K_CSV, k') \<noteq> (knd, k)" "(knd, k) \<noteq> (K_CRD, argocd_crd)"
    using assms by (auto simp: cleanup_spared_def)
  show ?thesis
    unfolding deleteOLMResourcesInternal_def collectRefs_def deleteSubs_def deleteRef_def sweepNs_def Let_def
      getInstalledCSVsFromLabeledSubscriptions_def patchArgoCDCRDConversionWebhook_def split_beta
    by (intro keep_rules subscriptions_keeps assms kept_delete csv sweep_keeps patchWebhook_keeps)
qed

lemma byType_keeps:
  assumes "cleanup_spared knd k x"
  shows "state_io_rel (keeps knd k x) (deleteResourcesByType rts ns True)"
proof -
  have item: "state_io_rel (keeps knd k x) (deleteItem rt b y)" if "(rt_gvk rt, obj_key y) \<noteq> (knd, k)" for rt b y
    unfolding deleteItem_def by (intro keep_rules kept_delete that)
  show ?thesis unfolding deleteResourcesByType_def deleteType_def
    by (intro inv_frame.loopM_frame keep_listed inv_frame.return_frame item)
       (erule listed_spared [OF assms], simp add: selected_def, assumption)
qed

lemma retry_keeps:
  assumes "cleanup_spared knd k x" and "stable knd k x sp"
  shows "state_io_rel (keeps knd k x) (retryDelete sp p nts cts ns True maxWait elapsed)"
proof (induction "nat (maxWait - elapsed)" arbitrary: elapsed rule: less_induct)
  case less
  then show ?case
    by (subst retryDelete.simps) (intro keep_rules byType_keeps assms, auto)
qed

lemma operator_keeps:
  assumes "cleanup_spared knd k x" and "stable knd k x sp"
  shows "state_io_rel (keeps knd k x) (deleteOperatorResources sp i ns)"
  unfolding deleteOperatorResources_def deleteResourcesWithRetry_def collectRemainingResources_def remainingOf_def
  by (intro keep_rules retry_keeps assms)

lemma begin_keeps:
  assumes "cleanup_spared knd k x" and "stable knd k x sp"
  shows "state_io_rel (keeps knd k x) (beginUninstall sp)"
  unfolding beginUninstall_def createPauseMarker_def placeMarker_def deleteGitOpsServiceCR_def
  by (intro keep_rules scaleDown_keeps sleep_for_keeps kept_delete assms) (use assms in \<open>auto simp: cleanup_spared_def\<close>)

lemma remove_keeps:
  assumes "cleanup_spared knd k x" and "stable knd k x sp"
  shows "state_io_rel (keeps knd k x) (removeOperator sp ns)"
  unfolding removeOperator_def
  by (intro keep_rules olm_cleanup_keeps operator_keeps scaleDown_keeps assms) (use assms in \<open>auto simp: cleanup_spared_def\<close>)

text \<open>
  C11: Whatever fails and however long the job waits, it deletes and changes nothing without the owner's label, but for
  the kinds and names of \<open>cleanup_spared\<close>: Argo CD instances of the users, their Subscriptions, the resources of
  their operator in the same namespace survive the removal of the addon.
\<close>

theorem cleanup_spares_foreign:
  assumes "cleanup_spared knd k x" and "stable knd k x sp"
    and "keyed u_meta (dynamic_of knd w)" and "map_of (dynamic_of knd w) k = Some x"
  shows "map_of (dynamic_of knd (snd (run_state (uninstallOnManagedCluster sp fuel ns) w))) k = Some x"
proof -
  have "(K_ClusterRoleBinding, ([], nm)) \<noteq> (knd, k) \<and> (K_ClusterRole, ([], nm)) \<noteq> (knd, k)"
    if "nm \<in> set [AddonDeploymentName, AddonDeploymentName @ ''-cleanup'']" for nm
    using that assms(1) by (auto simp: cleanup_spared_def)
  then have rbac: "state_io_rel (keeps knd k x) deleteOwnRBAC"
    unfolding deleteOwnRBAC_def by (intro inv_frame.frame_rules kept_delete) blast+
  have "state_io_rel (keeps knd k x) (uninstallOnManagedCluster sp fuel ns)"
    unfolding uninstallOnManagedCluster_def deleteOrphanedPauseMarker_def
    by (intro keep_rules begin_keeps argoCDs_keeps remove_keeps rbac assms)
  from inv_frame.frame_snd [OF this, of w] show ?thesis using assms(3,4) by (simp add: kept_def)
qed

section \<open>Waiting for the finalizers\<close>

text \<open>The keys of the agent's ArgoCD resources, and of those among them that are being deleted.\<close>

definition labelled_argocds :: "world \<Rightarrow> nsname set" where
  "labelled_argocds w = {k. \<exists>x. map_of (dynamic_of K_ArgoCD w) k = Some x \<and> matches_label x}"

definition dying_argocds :: "world \<Rightarrow> nsname set" where
  "dying_argocds w = {k. \<exists>x. map_of (dynamic_of K_ArgoCD w) k = Some x \<and> matches_label x \<and> m_deleting (u_meta x)}"

text \<open>
  The operator does its work: in every pause of the clean-up it finishes at least one of the resources that are being
  deleted, if there is one, and nobody makes new ones.
\<close>

definition well :: "world \<Rightarrow> bool" where
  "well w \<longleftrightarrow> calm w \<and> keyed u_meta (dynamic_of K_ArgoCD w)"

definition operator_works :: "spoke_env \<Rightarrow> bool" where
  "operator_works sp \<longleftrightarrow> (\<forall>p n w. well w \<longrightarrow> well (sp_tick sp p n w) \<and>
     labelled_argocds (sp_tick sp p n w) \<subseteq> labelled_argocds w \<and>
     (dying_argocds w \<noteq> {} \<longrightarrow> labelled_argocds (sp_tick sp p n w) \<subset> labelled_argocds w))"

definition clock_runs :: "spoke_env \<Rightarrow> bool" where
  "clock_runs sp \<longleftrightarrow> (\<forall>n. sp_clock sp n + 5 \<le> sp_clock sp (Suc n))"

lemma labelled_finite [simp]: "finite (labelled_argocds w)"
  by (rule finite_subset [OF _ finite_dom_map_of [of "dynamic_of K_ArgoCD w"]]) (auto simp: labelled_argocds_def)

lemma argocds_consume [simp]:
  "labelled_argocds (consume w) = labelled_argocds w" "dying_argocds (consume w) = dying_argocds w" "well w \<Longrightarrow> well (consume w)"
  by (simp_all add: labelled_argocds_def dying_argocds_def well_def)

text \<open>Once a resource of the round's list was deleted, fewer are left than there were, or one is being deleted.\<close>

definition progress :: "nsname set \<Rightarrow> world \<Rightarrow> bool" where
  "progress S w \<longleftrightarrow> well w \<and> (labelled_argocds w \<subset> S \<or> labelled_argocds w \<subseteq> S \<and> dying_argocds w \<noteq> {})"

lemma map_of_deleted_at:
  "map_of (deleted_at k st) k' =
     (if k' = k then (case map_of st k of None \<Rightarrow> None
        | Some x \<Rightarrow> if m_finalizers (u_meta x) = [] then None else Some (x\<lparr>u_meta := (u_meta x)\<lparr>m_deleting := True\<rparr>\<rparr>))
      else map_of st k')"
  by (auto simp: deleted_at_def split: option.splits)

lemma deleting_label: "matches_label (x\<lparr>u_meta := (u_meta x)\<lparr>m_deleting := True\<rparr>\<rparr>) = matches_label x"
  by (simp add: matches_label_def)

lemma delete_argocd:
  assumes "well w"
  shows "well (upd_dynamic K_ArgoCD (deleted_at k) w)"
    and "labelled_argocds (upd_dynamic K_ArgoCD (deleted_at k) w) \<subseteq> labelled_argocds w"
    and "dying_argocds w - {k} \<subseteq> dying_argocds (upd_dynamic K_ArgoCD (deleted_at k) w)"
    and "k \<in> labelled_argocds w \<Longrightarrow> k \<notin> labelled_argocds (upd_dynamic K_ArgoCD (deleted_at k) w) \<or>
      k \<in> dying_argocds (upd_dynamic K_ArgoCD (deleted_at k) w)"
  using assms
  by (auto simp: well_def labelled_argocds_def dying_argocds_def map_of_deleted_at keyed_deleted_at deleting_label
      split: option.splits if_splits)

lemma dying_labelled: "dying_argocds w \<subseteq> labelled_argocds w"
  by (auto simp: labelled_argocds_def dying_argocds_def)

lemma progress_delete:
  assumes "progress S w \<or> well w \<and> labelled_argocds w \<subseteq> S \<and> k \<in> S"
  shows "progress S (upd_dynamic K_ArgoCD (deleted_at k) w)"
proof -
  let ?v = "upd_dynamic K_ArgoCD (deleted_at k) w"
  have w: "well w" using assms by (auto simp: progress_def)
  have "labelled_argocds w \<subseteq> S" using assms unfolding progress_def by blast
  then have sub: "labelled_argocds ?v \<subseteq> S" using delete_argocd(2) [OF w] by blast
  have "k \<notin> labelled_argocds w \<or> labelled_argocds ?v \<subset> labelled_argocds w \<or> dying_argocds ?v \<noteq> {}"
    using delete_argocd(2,4) [OF w, of k] by blast
  moreover have "dying_argocds ?v \<noteq> {}" if "k \<notin> labelled_argocds w" "dying_argocds w \<noteq> {}"
    using that delete_argocd(3) [OF w, of k] dying_labelled [of w] by blast
  ultimately have "labelled_argocds ?v \<subset> S \<or> dying_argocds ?v \<noteq> {}"
    using assms sub delete_argocd(2) [OF w, of k] unfolding progress_def by blast
  then show ?thesis using sub delete_argocd(1) [OF w] by (auto simp: progress_def)
qed

lemma delete_listed:
  assumes "well w" and "labelled_argocds w \<subseteq> S" and "\<forall>y \<in> set ys. obj_key y \<in> S" and "ys \<noteq> [] \<or> progress S w"
  shows "progress S (snd (run_state (deleteListedArgoCDs ys) w))"
  using assms
proof (induction ys arbitrary: w)
  case (Cons y ys)
  let ?t = "snd (run_state (delete_dynamic K_ArgoCD (obj_key y)) w)"
  have "progress S ?t"
  proof (cases "has_key (dynamic_of K_ArgoCD w) (obj_key y)")
    case True
    then have "?t = upd_dynamic K_ArgoCD (deleted_at (obj_key y)) (consume w)"
      using Cons.prems(1) by (simp add: run_simps well_def)
    then show ?thesis using progress_delete [of S "consume w" "obj_key y"] Cons.prems by auto
  next
    case False
    then have "?t = consume w" using Cons.prems(1) by (simp add: run_simps well_def)
    moreover have "obj_key y \<notin> labelled_argocds w" using False by (auto simp: labelled_argocds_def has_key_def)
    ultimately show ?thesis using Cons.prems by (auto simp: progress_def)
  qed
  moreover from this have "well ?t" "labelled_argocds ?t \<subseteq> S" by (auto simp: progress_def)
  ultimately show ?case using Cons.IH [of ?t] Cons.prems by (simp add: deleteListedArgoCDs_def split_beta)
qed (simp add: deleteListedArgoCDs_def)

lemma listed_empty: "well w \<Longrightarrow> filter matches_label (map snd (dynamic_of K_ArgoCD w)) = [] \<longleftrightarrow> labelled_argocds w = {}"
  by (force simp: filter_empty_conv labelled_argocds_def well_def keyed_def dest: map_of_SomeD)

lemma round_empty:
  assumes "well w" and "labelled_argocds w = {}"
  shows "run_state (argoCDRound now z) w =
    (let since = (case z of None \<Rightarrow> now | Some z' \<Rightarrow> z') in if now - since \<ge> 15 then None else Some (Some since), consume w)"
  using assms listed_empty [OF assms(1)] by (simp add: argoCDRound_def run_simps well_def Let_def)

lemma round_full:
  assumes "well w" and "labelled_argocds w \<noteq> {}"
  shows "\<exists>t. run_state (argoCDRound now z) w = (Some None, t) \<and> progress (labelled_argocds w) t"
proof -
  let ?ys = "filter matches_label (map snd (dynamic_of K_ArgoCD w))"
  have k: "obj_key y \<in> labelled_argocds w" if "y \<in> set ?ys" for y
    using that keyed_listed [of u_meta "dynamic_of K_ArgoCD w" y] assms(1) by (auto simp: well_def labelled_argocds_def)
  have ne: "?ys \<noteq> []" using assms listed_empty by blast
  then have "run_state (argoCDRound now z) w = (Some None, snd (run_state (deleteListedArgoCDs ?ys) (consume w)))"
    using assms(1) by (simp add: argoCDRound_def run_simps well_def split_beta del: length_filter_map)
  moreover have "progress (labelled_argocds w) (snd (run_state (deleteListedArgoCDs ?ys) (consume w)))"
    using k ne assms(1) by (intro delete_listed) auto
  ultimately show ?thesis by blast
qed

text \<open>Three more rounds, at least five seconds apart, after the first one that sees nothing.\<close>

definition settles :: "int option \<Rightarrow> int \<Rightarrow> nat \<Rightarrow> bool" where
  "settles z now m \<longleftrightarrow> (case z of None \<Rightarrow> 3 \<le> m | Some s \<Rightarrow> s + 15 \<le> now + 5 * int m)"

lemma wait_empty:
  assumes "operator_works sp" and "clock_runs sp" and "well w" and "labelled_argocds w = {}"
    and "settles z (sp_clock sp n) m" and "m < fuel"
  shows "\<exists>t. run_state (deleteArgoCDCR sp fuel n z) w = (True, t) \<and> well t \<and> labelled_argocds t = {}"
  using assms(3-6)
proof (induction m arbitrary: w n z fuel)
  case 0
  then obtain f where "fuel = Suc f" by (cases fuel) auto
  then show ?case using 0 by (auto simp: round_empty settles_def split: option.splits)
next
  case (Suc m)
  then obtain f where f: "fuel = Suc f" by (cases fuel) auto
  let ?t = "sp_tick sp ArgoCDGone n (consume w)"
  let ?since = "case z of None \<Rightarrow> sp_clock sp n | Some z' \<Rightarrow> z'"
  have "well ?t" "labelled_argocds ?t = {}"
    using assms(1) Suc.prems(1,2) argocds_consume unfolding operator_works_def by blast+
  moreover have "settles (Some ?since) (sp_clock sp (Suc n)) m"
    using Suc.prems(3) assms(2) [unfolded clock_runs_def, rule_format, of n]
    by (auto simp: settles_def split: option.splits)
  ultimately show ?case using Suc.IH [of ?t "Some ?since" "Suc n" f] Suc.prems f
    by (auto simp: round_empty Let_def)
qed

lemma wait_gone:
  assumes "operator_works sp" and "clock_runs sp" and "well w" and "card (labelled_argocds w) \<le> c" and "c + 3 < fuel"
    and "z = None \<or> labelled_argocds w \<noteq> {}"
  shows "\<exists>t. run_state (deleteArgoCDCR sp fuel n z) w = (True, t) \<and> well t \<and> labelled_argocds t = {}"
  using assms(3-6)
proof (induction c arbitrary: w n z fuel)
  case 0
  then show ?case using wait_empty [OF assms(1,2), of w z n 3 fuel] by (simp add: settles_def)
next
  case (Suc c)
  then obtain f where f: "fuel = Suc f" by (cases fuel) auto
  show ?case
  proof (cases "labelled_argocds w = {}")
    case True
    then show ?thesis using wait_empty [OF assms(1,2), of w z n 3 fuel] Suc.prems by (simp add: settles_def)
  next
    case False
    then obtain t where t: "run_state (argoCDRound (sp_clock sp n) z) w = (Some None, t)" "progress (labelled_argocds w) t"
      using round_full [OF Suc.prems(1)] by blast
    let ?u = "sp_tick sp ArgoCDGone n t"
    have "well ?u" and sub: "labelled_argocds ?u \<subset> labelled_argocds w"
      using t(2) assms(1) unfolding operator_works_def progress_def by blast+
    moreover have "card (labelled_argocds ?u) \<le> c"
      using psubset_card_mono [OF labelled_finite sub] Suc.prems(2) by linarith
    ultimately show ?thesis using Suc.IH [of ?u f None "Suc n"] Suc.prems f t(1) by auto
  qed
qed

text \<open>What comes before the wait leaves the ArgoCD resources to it.\<close>

definition well_within :: "nsname set \<Rightarrow> world \<Rightarrow> bool" where
  "well_within S w \<longleftrightarrow> well w \<and> labelled_argocds w \<subseteq> S"

lemma within_sel [simp]:
  "well_within S (w_configmaps_update f w) = well_within S w"
  "knd \<noteq> K_ArgoCD \<Longrightarrow> well_within S (upd_dynamic knd g w) = well_within S w"
  by (simp_all add: well_within_def well_def labelled_argocds_def calm_def upd_dynamic_def dynamic_of_def)

lemma within_consume [simp]: "well_within S w \<Longrightarrow> well_within S (consume w)"
  by (simp add: well_within_def)

lemma begin_within:
  assumes "operator_works sp"
  shows "state_io_rel (\<lambda>s t. well_within S s \<longrightarrow> well_within S t) (beginUninstall sp)"
proof -
  have calm: "well_within S w \<Longrightarrow> verdict w = None" for w by (simp add: well_within_def well_def)
  have p: "state_io_rel (\<lambda>s t. well_within S s \<longrightarrow> well_within S t) (create_configmap k c)"
    "state_io_rel (\<lambda>s t. well_within S s \<longrightarrow> well_within S t) (api_get sel res k')"
    "state_io_rel (\<lambda>s t. well_within S s \<longrightarrow> well_within S t) (replace_object K_Deployment k' y)"
    "state_io_rel (\<lambda>s t. well_within S s \<longrightarrow> well_within S t) (delete_dynamic K_GitopsService k')" for k c res k' y and sel :: "world \<Rightarrow> 'b store"
    by (auto intro!: state_io_relI simp: run_simps api_get_def request_run split: option.splits if_splits)
  have s: "state_io_rel (\<lambda>s t. well_within S s \<longrightarrow> well_within S t) (sleep_for d (sp_tick sp p n))" for d p n
    using assms by (auto intro!: state_io_relI simp: sleep_for_def well_within_def operator_works_def split: if_splits) blast
  show ?thesis
    unfolding beginUninstall_def createPauseMarker_def placeMarker_def scaleDownAddonAgent_def deleteGitOpsServiceCR_def
    by (intro inv_frame.frame_rules p s)
qed

text \<open>
  C10: The clean-up ends when the operator works: its wait for the ArgoCD resources, which has no deadline, takes at most
  as many rounds as there are resources, and four to be sure; then no resource of the agent is left when the
  operator is removed.
\<close>

theorem cleanup_ends:
  assumes "operator_works sp" and "clock_runs sp" and "calm w" and "keyed u_meta (dynamic_of K_ArgoCD w)"
    and "card (labelled_argocds w) + 4 \<le> fuel"
  shows "(\<exists>errs. fst (run_state (uninstallOnManagedCluster sp fuel ns) w) = Some errs) \<and>
    labelled_argocds (snd (run_state (deleteArgoCDCR sp fuel 0 None) (snd (run_state (beginUninstall sp) w)))) = {}"
proof -
  obtain es b where b: "run_state (beginUninstall sp) w = (es, b)" by fastforce
  have "well_within (labelled_argocds w) b"
    using state_io_relD [OF begin_within [OF assms(1), of "labelled_argocds w"] b] assms(3,4) by (simp add: well_within_def well_def)
  then have "well b" and sub: "labelled_argocds b \<subseteq> labelled_argocds w" by (simp_all add: well_within_def)
  moreover have "card (labelled_argocds b) \<le> card (labelled_argocds w)" by (rule card_mono [OF labelled_finite sub])
  ultimately obtain t where "run_state (deleteArgoCDCR sp fuel 0 None) b = (True, t)" "labelled_argocds t = {}"
    using wait_gone [OF assms(1,2), of b "card (labelled_argocds w)" fuel None 0] assms(5) by auto
  then show ?thesis using b by (auto simp: uninstallOnManagedCluster_def split_beta)
qed

section \<open>Never before the operator is done\<close>

text \<open>An ArgoCD resource of the agent whose finalizer nobody processes.\<close>

definition held :: "nsname \<Rightarrow> world \<Rightarrow> bool" where
  "held k w \<longleftrightarrow> installed w \<and> keyed u_meta (dynamic_of K_ArgoCD w) \<and>
     (\<exists>x. map_of (dynamic_of K_ArgoCD w) k = Some x \<and> matches_label x \<and> m_finalizers (u_meta x) \<noteq> [])"

lemma held_sel [simp]:
  "held k (w_configmaps_update f w) = held k w" "knd \<noteq> K_ArgoCD \<Longrightarrow> held k (upd_dynamic knd g w) = held k w"
  by (simp_all add: held_def installed_def dynamic_of_def upd_dynamic_def)

lemma held_consume [simp]: "held k w \<Longrightarrow> held k (consume w)"
  by (simp add: held_def installed_consume)

lemma held_delete:
  "held k w \<Longrightarrow> held k (upd_dynamic K_ArgoCD (deleted_at k') w)"
  by (auto simp: held_def installed_def upd_dynamic_def dynamic_of_def map_of_deleted_at keyed_deleted_at deleting_label
      split: option.splits)

lemma held_steps:
  "state_io_rel (\<lambda>s t. held k s \<longrightarrow> held k t) (create_configmap k' c)"
  "state_io_rel (\<lambda>s t. held k s \<longrightarrow> held k t) (api_get sel res k')"
  "state_io_rel (\<lambda>s t. held k s \<longrightarrow> held k t) (replace_object K_Deployment k' y)"
  "state_io_rel (\<lambda>s t. held k s \<longrightarrow> held k t) (delete_dynamic K_GitopsService k')"
  "state_io_rel (\<lambda>s t. held k s \<longrightarrow> held k t) (delete_dynamic K_ArgoCD k')"
  by (auto intro!: state_io_relI held_delete simp: run_simps api_get_def request_run split: option.splits if_splits)

definition never_finalized :: "nsname \<Rightarrow> spoke_env \<Rightarrow> bool" where
  "never_finalized k sp \<longleftrightarrow> (\<forall>p n w. held k w \<longrightarrow> held k (sp_tick sp p n w))"

lemma begin_held:
  assumes "never_finalized k sp" shows "state_io_rel (\<lambda>s t. held k s \<longrightarrow> held k t) (beginUninstall sp)"
proof -
  have "state_io_rel (\<lambda>s t. held k s \<longrightarrow> held k t) (sleep_for d (sp_tick sp p n))" for d p n
    using assms by (auto intro!: state_io_relI simp: sleep_for_def never_finalized_def)
  then show ?thesis
    unfolding beginUninstall_def createPauseMarker_def placeMarker_def scaleDownAddonAgent_def deleteGitOpsServiceCR_def
    by (intro inv_frame.frame_rules held_steps)
qed

lemma held_round:
  assumes "held k w" and "run_state (argoCDRound now z) w = (r, t)" shows "held k t \<and> r \<noteq> None"
proof -
  obtain x where x: "map_of (dynamic_of K_ArgoCD w) k = Some x" "matches_label x"
    using assms(1) by (auto simp: held_def)
  have "x \<in> set (filter matches_label (map snd (dynamic_of K_ArgoCD w)))"
    using map_of_SomeD [OF x(1)] x(2) by force
  then have ne: "length (filter matches_label (map snd (dynamic_of K_ArgoCD w))) \<noteq> 0"
    by (rule length_pos_if_in_set [THEN gr_implies_not0])
  have d: "held k (snd (run_state (deleteListedArgoCDs ys) (consume w)))" for ys
    using inv_frame.frame_snd [of "held k" "deleteListedArgoCDs ys" "consume w"] assms(1)
    unfolding deleteListedArgoCDs_def by (auto intro: inv_frame.frame_rules held_steps)
  have "\<not> is_no_match e" if "verdict w = Some e" for e
    using installed_verdict that assms(1) by (auto simp: held_def)
  with assms ne d show ?thesis
    by (auto simp: argoCDRound_def run_simps split_beta simp del: length_filter_map split: option.splits)
qed

lemma held_waits:
  assumes "never_finalized k sp" and "held k w"
  shows "fst (run_state (deleteArgoCDCR sp fuel n z) w) = False"
  using assms(2)
proof (induction fuel arbitrary: n z w)
  case (Suc fuel)
  obtain r t where r: "run_state (argoCDRound (sp_clock sp n) z) w = (r, t)" by fastforce
  from held_round [OF Suc.prems r] obtain z' where "held k t" "r = Some z'" by blast
  with Suc.IH [of "sp_tick sp ArgoCDGone n t"] r assms(1) show ?case by (simp add: never_finalized_def)
qed simp

lemma begin_keeps_kind:
  assumes "knd \<notin> {K_Deployment, K_GitopsService}" and "stable knd k x sp"
  shows "state_io_rel (keeps knd k x) (beginUninstall sp)"
  unfolding beginUninstall_def createPauseMarker_def placeMarker_def deleteGitOpsServiceCR_def
  by (intro keep_rules scaleDown_keeps sleep_for_keeps kept_delete assms(2)) (use assms(1) in auto)

text \<open>
  C9: The operator is not removed before it is done. While an ArgoCD resource of the agent is held by a finalizer that
  nobody processes, the clean-up never returns, however long it runs, and the Subscription and every other
  object of a kind other than ArgoCD, Deployment and GitopsService is still in place, even those of the agent.
\<close>

theorem cleanup_waits_for_operator:
  assumes "never_finalized k sp" and "held k w" and "knd \<notin> {K_Deployment, K_GitopsService, K_ArgoCD}"
    and "stable knd ks sub sp" and "keyed u_meta (dynamic_of knd w)" and "map_of (dynamic_of knd w) ks = Some sub"
  shows "fst (run_state (uninstallOnManagedCluster sp fuel ns) w) = None \<and>
    map_of (dynamic_of knd (snd (run_state (uninstallOnManagedCluster sp fuel ns) w))) ks = Some sub"
proof -
  obtain es b where b: "run_state (beginUninstall sp) w = (es, b)" by fastforce
  have "held k b" using state_io_relD [OF begin_held [OF assms(1)] b] assms(2) by simp
  from held_waits [OF assms(1) this, of fuel 0 None] obtain t
    where t: "run_state (deleteArgoCDCR sp fuel 0 None) b = (False, t)" by (metis prod.collapse)
  have "(K_ArgoCD, k') \<noteq> (knd, ks)" for k' using assms(3) by auto
  then have r: "state_io_rel (keeps knd ks sub) (argoCDRound now z)" for now z
    unfolding argoCDRound_def deleteListedArgoCDs_def Let_def by (intro keep_rules kept_delete) blast
  have "state_io_rel (keeps knd ks sub) (deleteArgoCDCR sp fuel n z)" for n z
    by (induction fuel arbitrary: n z) (auto intro!: keep_rules r assms(4))
  with state_io_relD [OF this t] state_io_relD [OF begin_keeps_kind [OF _ assms(4)] b] assms(3,5,6)
  have "kept knd ks sub t" by (simp add: kept_def)
  with b t show ?thesis by (simp add: uninstallOnManagedCluster_def kept_def)
qed

section \<open>A success that nobody has seen\<close>

text \<open>The next \<open>m\<close> requests are rejected, and an object is there.\<close>

definition rejecting :: "string \<Rightarrow> nsname \<Rightarrow> unstructured \<Rightarrow> nat \<Rightarrow> world \<Rightarrow> bool" where
  "rejecting knd k x m w \<longleftrightarrow> m \<le> length (w_verdicts w) \<and> None \<notin> set (take m (w_verdicts w)) \<and> kept knd k x w"

lemma rejecting_less: "rejecting knd k x m w \<Longrightarrow> m' \<le> m \<Longrightarrow> rejecting knd k x m' w"
  by (auto simp: rejecting_def dest: in_mono [OF set_take_subset_set_take, rotated])

lemma rejected_list:
  assumes "rejecting knd k x (Suc m) s"
  shows "\<exists>e t. run_state (list_dynamic knd' P) s = (Inl e, t) \<and> rejecting knd k x m t"
proof -
  obtain v vs where v: "w_verdicts s = v # vs" using assms by (cases "w_verdicts s") (auto simp: rejecting_def)
  with assms obtain e where "v = Some e" by (cases v) (auto simp: rejecting_def)
  with v have "verdict s = Some e" "w_verdicts (consume s) = vs" by (simp_all add: verdict_def consume_def)
  with assms v show ?thesis by (auto simp: run_simps rejecting_def)
qed

text \<open>A pass over lists that are all rejected.\<close>

lemma rejected_loop:
  assumes "\<And>b y m s. rejecting knd k x (Suc m) s \<Longrightarrow> \<exists>t. run_state (f b y) s = (g b, t) \<and> rejecting knd k x m t"
    and "rejecting knd k x (length ys + m) s"
  shows "\<exists>t. run_state (loopM f b ys) s = ((g ^^ length ys) b, t) \<and> rejecting knd k x m t"
  using assms(2)
proof (induction ys arbitrary: b s)
  case (Cons y ys)
  then obtain t where "run_state (f b y) s = (g b, t)" "rejecting knd k x (length ys + m) t" using assms(1) by fastforce
  with Cons.IH [of t "g b"] show ?case by (simp add: funpow_swap1)
qed simp

lemma rejected_types:
  assumes "rejecting knd k x (length rts + m) s"
  shows "\<exists>t. run_state (deleteResourcesByType rts ns l) s = (rts = [], t) \<and> rejecting knd k x m t"
proof -
  have "\<exists>t. run_state (deleteType ns l b rt) s = (False, t) \<and> rejecting knd k x m' t"
    if "rejecting knd k x (Suc m') s" for b rt m' s
    using rejected_list [OF that, of "rt_gvk rt" "selected ns l"] by (auto simp: deleteType_def)
  from rejected_loop [where f = "deleteType ns l" and g = "\<lambda>_. False", OF this assms, of True]
  show ?thesis by (cases rts) (simp_all add: deleteResourcesByType_def)
qed

lemma rejected_collect:
  assumes "rejecting knd k x (length nts + (length cts + m)) s"
  shows "\<exists>t. run_state (collectRemainingResources nts cts ns l) s = ([], t) \<and> rejecting knd k x m t"
proof -
  have r: "\<exists>t. run_state (remainingOf P b rt) s = (b, t) \<and> rejecting knd k x m' t"
    if "rejecting knd k x (Suc m') s" for P b rt m' s
    using rejected_list [OF that, of "rt_gvk rt" P] by (auto simp: remainingOf_def)
  have l: "\<exists>t. run_state (loopM (remainingOf P) b rts) s = (b, t) \<and> rejecting knd k x m' t"
    if "rejecting knd k x (length rts + m') s" for P b rts m' s
    using rejected_loop [where f = "remainingOf P" and g = "\<lambda>b. b", OF r that] by (simp add: id_def [symmetric])
  from l [OF assms, of "selected ns l" "[]"] obtain t
    where "run_state (loopM (remainingOf (selected ns l)) [] nts) s = ([], t)" "rejecting knd k x (length cts + m) t" by blast
  with l [OF this(2), of "selected [] l" "[]"] show ?thesis by (auto simp: collectRemainingResources_def)
qed

text \<open>The attempts that fit into the time, one every five seconds.\<close>

definition attempts :: "int \<Rightarrow> int \<Rightarrow> nat" where
  "attempts maxWait elapsed = nat ((maxWait - elapsed + 4) div 5)"

definition unheard :: "spoke_env \<Rightarrow> bool" where \<comment> \<open>the pauses do not change which requests are rejected\<close>
  "unheard sp \<longleftrightarrow> (\<forall>p n w. w_verdicts (sp_tick sp p n w) = w_verdicts w)"

lemma rejected_retry:
  assumes "unheard sp" and "stable knd k x sp" and "nts \<noteq> [] \<or> cts \<noteq> []"
    and "rejecting knd k x (attempts maxWait elapsed * (length nts + length cts) + m) s"
  shows "\<exists>t. run_state (retryDelete sp p nts cts ns l maxWait elapsed) s = (False, t) \<and> rejecting knd k x m t"
  using assms(4)
proof (induction "nat (maxWait - elapsed)" arbitrary: elapsed s rule: less_induct)
  case less
  let ?n = "length nts + length cts"
  show ?case
  proof (cases "\<not> elapsed < maxWait \<or> sp_cancelled sp p (nat (elapsed div 5))")
    case True
    then show ?thesis using rejecting_less [OF less.prems, of m] by (subst retryDelete.simps) auto
  next
    case False
    then have "elapsed < maxWait" by simp
    then have "(maxWait - elapsed + 4) div 5 = (maxWait - (elapsed + 5) + 4) div 5 + 1"
      "0 \<le> (maxWait - (elapsed + 5) + 4) div 5" by presburger+
    then have a: "attempts maxWait elapsed = Suc (attempts maxWait (elapsed + 5))" unfolding attempts_def by linarith
    with less.prems have "rejecting knd k x (length nts + (length cts + (attempts maxWait (elapsed + 5) * ?n + m))) s"
      by (simp add: algebra_simps)
    from rejected_types [OF this, of ns l] obtain u where u: "run_state (deleteResourcesByType nts ns l) s = (nts = [], u)"
      "rejecting knd k x (length cts + (attempts maxWait (elapsed + 5) * ?n + m)) u" by blast
    from rejected_types [OF u(2), of "[]" l] obtain v where v: "run_state (deleteResourcesByType cts [] l) u = (cts = [], v)"
      "rejecting knd k x (attempts maxWait (elapsed + 5) * ?n + m) v" by blast
    let ?t = "sp_tick sp p (nat (elapsed div 5)) v"
    have "rejecting knd k x (attempts maxWait (elapsed + 5) * ?n + m) ?t"
      using v(2) assms(1,2) by (simp add: rejecting_def unheard_def stable_def)
    from less.hyps [OF _ this] False u(1) v(1) assms(3) show ?thesis by (subst retryDelete.simps) auto
  qed
qed

text \<open>
  C29: The timeout takes a list that fails for a list that is empty. If the API server answers no request of a whole pass
  (344 requests: six lists in each of 48 attempts, two in each of 24, and the lists of what remains), the
  operator's resources are all there and the pass reports no error.
\<close>

theorem unseen_success:
  assumes "rejecting knd k x 344 w" and "unheard sp" and "stable knd k x sp"
  shows "fst (run_state (deleteOperatorResources sp i ns) w) = [] \<and>
    map_of (dynamic_of knd (snd (run_state (deleteOperatorResources sp i ns) w))) k = Some x"
proof -
  have len: "length namespacedResourceTypes = 6" "length clusterResourceTypes = 2" "attempts 240 0 = 48" "attempts 120 0 = 24"
    by (simp_all add: namespacedResourceTypes_def clusterResourceTypes_def attempts_def)
  have pass: "\<exists>t. run_state (deleteResourcesWithRetry sp p nts cts ns' maxWait l) s = (Inr (), t) \<and> rejecting knd k x m t"
    if "nts \<noteq> [] \<or> cts \<noteq> []"
      and "rejecting knd k x (attempts maxWait 0 * (length nts + length cts) + (length nts + (length cts + m))) s"
    for p nts cts ns' maxWait l m s
  proof -
    from rejected_retry [OF assms(2,3) that, of p ns' l] obtain u
      where u: "run_state (retryDelete sp p nts cts ns' l maxWait 0) s = (False, u)"
        "rejecting knd k x (length nts + (length cts + m)) u" by blast
    from rejected_collect [OF this(2), of ns' l] u(1) show ?thesis by (auto simp: deleteResourcesWithRetry_def)
  qed
  have ne: "namespacedResourceTypes \<noteq> []" "clusterResourceTypes \<noteq> []" using len by auto
  obtain u where u: "run_state (deleteResourcesWithRetry sp (ResourcesGone i 0) namespacedResourceTypes [] ns 240 True) w = (Inr (), u)"
    "rejecting knd k x 50 u"
    using pass [of namespacedResourceTypes "[]" 240 50 w "ResourcesGone i 0" ns True] ne assms(1) by (auto simp: len)
  obtain v where v: "run_state (deleteResourcesWithRetry sp (ResourcesGone i 1) [] clusterResourceTypes [] 120 True) u = (Inr (), v)"
    "rejecting knd k x 0 v"
    using pass [of "[]" clusterResourceTypes 120 0 u "ResourcesGone i 1" "[]" True] ne u(2) by (auto simp: len)
  from u(1) v show ?thesis by (simp add: deleteOperatorResources_def rejecting_def kept_def)
qed

section \<open>Bounds of the pauses\<close>


section \<open>An agent that comes back\<close>

text \<open>
  The pause marker does not hold an agent that starts anew. When the work agent restores the Deployment during the
  clean-up, the new process first deletes the marker, whatever its owner, and its passes are not paused any more.
\<close>

theorem restart_unpauses:
  assumes "calm w"
  shows "fst (run_state IsPaused (snd (run_state ClearStalePauseMarker w))) = False"
  using assms by (simp add: ClearStalePauseMarker_def IsPaused_def run_simps has_key_def split: option.splits)

lemma pause_wraps: "sint (seconds 9223372037) < 0"
  by (simp add: seconds_def sint_sbintrunc' signed_take_bit_int_greater_eq)

section \<open>Witnesses\<close>

definition agent_argocd :: unstructured where
  "agent_argocd = \<lparr>u_meta = (plain_meta ''acm-openshift-gitops'' ''openshift-gitops'' [(GitOpsAddonLabelKey, ''true'')] [])
     \<lparr>m_finalizers := [''argoproj.io/finalizer'']\<rparr>, u_fields = []\<rparr>"

definition users_argocd :: unstructured where
  "users_argocd = \<lparr>u_meta = plain_meta ''mine'' ''team'' [] [], u_fields = []\<rparr>"

definition agent_subscription :: unstructured where
  "agent_subscription = \<lparr>u_meta = plain_meta ''openshift-gitops-operator'' ''openshift-operators'' [(GitOpsAddonLabelKey, ''true'')] [],
     u_fields = []\<rparr>"

definition cleanup_world :: "goerr option list \<Rightarrow> world" where
  "cleanup_world vs = empty_world\<lparr>w_verdicts := vs,
     w_dynamic := (\<lambda>_. [])(K_ArgoCD := [((''openshift-gitops'', ''acm-openshift-gitops''), agent_argocd), ((''team'', ''mine''), users_argocd)],
       K_Subscription := [((''openshift-operators'', ''openshift-gitops-operator''), agent_subscription)])\<rparr>"

lemma cleanup_world_sel [simp]:
  "w_verdicts (cleanup_world vs) = vs"
  "dynamic_of K_ArgoCD (cleanup_world vs) =
     [((''openshift-gitops'', ''acm-openshift-gitops''), agent_argocd), ((''team'', ''mine''), users_argocd)]"
  "dynamic_of K_Subscription (cleanup_world vs) = [((''openshift-operators'', ''openshift-gitops-operator''), agent_subscription)]"
  by (simp_all add: cleanup_world_def dynamic_of_def)

lemma cleanup_world_labels [simp]: "matches_label agent_argocd" "\<not> matches_label users_argocd" "matches_label agent_subscription"
  by (simp_all add: matches_label_def agent_argocd_def users_argocd_def agent_subscription_def GitOpsAddonLabelValue_def)

lemma cleanup_lists_keyed [simp]:
  "keyed u_meta [((''openshift-gitops'', ''acm-openshift-gitops''), agent_argocd), ((''team'', ''mine''), users_argocd)]"
  "keyed u_meta [((''openshift-operators'', ''openshift-gitops-operator''), agent_subscription)]"
  by (simp_all add: keyed_def agent_argocd_def users_argocd_def agent_subscription_def)

lemma cleanup_world_keyed:
  "keyed u_meta (dynamic_of K_ArgoCD (cleanup_world vs))" "keyed u_meta (dynamic_of K_Subscription (cleanup_world vs))"
  by simp_all

theorem cleanup_spares_foreign_witness:
  "map_of (dynamic_of K_ArgoCD (snd (run_state (uninstallOnManagedCluster plain_spoke 9 ''ns'')
     (cleanup_world [None, Some (ErrText ''down'')])))) (''team'', ''mine'') = Some users_argocd"
proof -
  have "cleanup_spared K_ArgoCD (''team'', ''mine'') users_argocd"
    using cleanup_world_labels(2) by (simp add: cleanup_spared_def matches_owned)
  from cleanup_spares_foreign [OF this plain_spoke_stable cleanup_world_keyed(1)] show ?thesis by simp
qed

text \<open>An operator that finishes what is being deleted.\<close>

definition finish :: wait_step where
  "finish = upd_dynamic K_ArgoCD (filter (\<lambda>(k, x). \<not> (matches_label x \<and> m_deleting (u_meta x))))"

definition working_spoke :: spoke_env where
  "working_spoke = plain_spoke\<lparr>sp_tick := (\<lambda>_ _. finish)\<rparr>"

lemma map_of_filter_distinct:
  "distinct (map fst st) \<Longrightarrow>
    map_of (filter (\<lambda>(k, x). P x) st) k = (case map_of st k of None \<Rightarrow> None | Some x \<Rightarrow> if P x then Some x else None)"
  by (induction st) (auto split: option.splits dest: map_of_SomeD intro: rev_image_eqI)

lemma finish_works: "operator_works working_spoke"
proof -
  have f: "well (finish w) \<and> labelled_argocds (finish w) = labelled_argocds w - dying_argocds w" if "well w" for w
  proof
    have st: "dynamic_of K_ArgoCD (finish w) = filter (\<lambda>(k, x). \<not> (matches_label x \<and> m_deleting (u_meta x))) (dynamic_of K_ArgoCD w)"
      by (simp add: finish_def)
    have k: "keyed u_meta (dynamic_of K_ArgoCD w)" "calm w" using that by (simp_all add: well_def)
    then have m: "map_of (dynamic_of K_ArgoCD (finish w)) k =
        (case map_of (dynamic_of K_ArgoCD w) k of None \<Rightarrow> None
         | Some x \<Rightarrow> if \<not> (matches_label x \<and> m_deleting (u_meta x)) then Some x else None)" for k
      unfolding st by (intro map_of_filter_distinct) (simp add: keyed_def)
    show "labelled_argocds (finish w) = labelled_argocds w - dying_argocds w"
      by (auto simp: labelled_argocds_def dying_argocds_def m split: option.splits if_splits)
    have "keyed u_meta (dynamic_of K_ArgoCD (finish w))"
      using k(1) m unfolding keyed_def st by (auto simp: distinct_map_filter split: option.splits if_splits)
    with k(2) show "well (finish w)" by (simp add: well_def finish_def upd_dynamic_def calm_def)
  qed
  then show ?thesis unfolding operator_works_def working_spoke_def using dying_labelled by simp blast
qed

theorem cleanup_ends_witness:
  "\<exists>errs. fst (run_state (uninstallOnManagedCluster working_spoke 5 ''ns'') (cleanup_world [])) = Some errs"
proof -
  have "labelled_argocds (cleanup_world []) \<subseteq> {(''openshift-gitops'', ''acm-openshift-gitops'')}"
    by (auto simp: labelled_argocds_def split: if_splits)
  from card_mono [OF _ this] have "card (labelled_argocds (cleanup_world [])) + 4 \<le> 5" by simp
  moreover have "clock_runs working_spoke" by (simp add: clock_runs_def working_spoke_def plain_spoke_def)
  ultimately show ?thesis using cleanup_ends [OF finish_works, of "cleanup_world []" 5 "''ns''"] by simp
qed

theorem cleanup_waits_for_operator_witness:
  "fst (run_state (uninstallOnManagedCluster plain_spoke 1000 ''ns'') (cleanup_world [])) = None \<and>
   map_of (dynamic_of K_Subscription (snd (run_state (uninstallOnManagedCluster plain_spoke 1000 ''ns'') (cleanup_world []))))
     (''openshift-operators'', ''openshift-gitops-operator'') = Some agent_subscription"
proof -
  have "never_finalized k plain_spoke" for k by (simp add: never_finalized_def plain_spoke_def)
  moreover have "held (''openshift-gitops'', ''acm-openshift-gitops'') (cleanup_world [])"
  proof -
    have "m_finalizers (u_meta agent_argocd) \<noteq> []" by (simp add: agent_argocd_def)
    then show ?thesis by (simp add: held_def installed_def)
  qed
  ultimately show ?thesis
    by (rule cleanup_waits_for_operator) (simp_all add: plain_spoke_stable)
qed

theorem unseen_success_witness:
  "fst (run_state (deleteOperatorResources plain_spoke 0 ''ns'') (cleanup_world (replicate 344 (Some (ErrText ''down''))))) = []"
proof -
  have "rejecting K_Subscription (''openshift-operators'', ''openshift-gitops-operator'') agent_subscription 344
      (cleanup_world (replicate 344 (Some (ErrText ''down''))))"
    by (simp add: rejecting_def kept_def)
  moreover have "unheard plain_spoke" by (simp add: unheard_def plain_spoke_def)
  ultimately show ?thesis using unseen_success [OF _ _ plain_spoke_stable] by blast
qed

definition slow_spoke :: spoke_env where
  "slow_spoke = plain_spoke\<lparr>sp_env := (\<lambda>_. [])(''PAUSE_SETTLE_SECONDS'' := ''30'')\<rparr>"


theorem restart_unpauses_witness:
  "fst (run_state IsPaused (snd (run_state ClearStalePauseMarker
     (empty_world\<lparr>w_configmaps := [(marker_key, pause_marker ''t'' [])]\<rparr>)))) = False"
  by (rule restart_unpauses) (simp add: calm_def empty_world_def)

end
