(* ===== verification/Spec2Isabelle.thy ===== *)
theory Spec2Isabelle
  imports PullModelSweep PropagationStatus StatusAggregation AddonEnvironment AgentCertificates AgentClusters AddonTemplates Policies NamespaceRefusal SearchSync Maestro SpokeSecrets SpokeInstall SpokeCleanup
begin

text \<open>
  A model of the controllers of multicloud-integrations, and the theorems that make them correct.

  \<^bold>\<open>The program.\<close> The repository connects Argo CD to Open Cluster Management. On the hub run:

  \<^item> the GitOpsCluster controller (\<open>src/pkg/controller/gitopscluster\<close>): for each GitOpsCluster it
    resolves a placement to managed clusters, writes one Argo CD cluster secret per cluster
    (\<open>import_clusters.go\<close>), removes the secrets of clusters that are gone, ensures the gitops-addon and
    its configuration on every cluster (\<open>addon_management.go\<close>, \<open>addon_template_management.go\<close>),
    issues the certificates of the Argo CD agent and its secrets (\<open>argocd_agent_*.go\<close>) and keeps
    the status conditions of \<open>src/pkg/apis/apps/v1beta1/gitopscluster_types.go\<close>;
  \<^item> the image registry controller (\<open>imageregistry_controller.go\<close>): rewrites the images in the same
    AddOnDeploymentConfigs for disconnected clusters, and restores them;
  \<^item> the propagation controller (\<open>src/propagation-controller/application\<close>): wraps Applications of the
    pull model into ManifestWorks, one per managed cluster, and writes the statuses that come back;
  \<^item> the status aggregation (\<open>src/pkg/controller/multiclusterstatusaggregation\<close>): merges the feedback of
    the ManifestWorks into MulticlusterApplicationSetReports;
  \<^item> the resource sync (\<open>src/pkg/controller/gitopssyncresc\<close>): asks the search service which Applications
    run where and writes the answers to report files;
  \<^item> the switch between the pull models (\<open>src/pkg/pullmodelconfig\<close>), shared by the last three
    through one ConfigMap, and the sweep that freezes the works when it is turned off.

  Instead of the hub's API server the works can go through a Maestro server: a second propagation
  controller and a second aggregation do that (\<open>src/maestroapplication\<close>). On every managed cluster runs the
  addon agent (\<open>src/gitopsaddon\<close>): it installs the Argo CD operator, through OLM or from an embedded chart,
  copies the agent's client certificate to Argo CD, and as a job removes everything again before the addon goes.

  They interact only through the API server: one writes an object that another reads.

  \<^bold>\<open>How the code is modelled.\<close> A handler is a function in the state monad over a \<open>world\<close> (Kube.thy):
  one store per kind of resource and a schedule of verdicts, which decides request by request whether
  the API server lets a request through or rejects it and with which error. A theorem that
  quantifies over the world therefore covers every failure of every request at every point of a
  handler; a theorem about runs without failures says \<open>calm w\<close> (no rejection left in the schedule).
  Errors are values of \<open>goerr\<close>, every early return of the Go code is a branch, a nil map or a missing
  key is a constructor of its own where the code tells it from an empty one. Go maps are association lists;
  where the result could depend on the iteration order of a Go map the order is an argument. Objects that
  the code shares by reference and changes in place are passed and returned explicitly.

  \<^bold>\<open>Theories and source files.\<close>

  \<^item> Prelude: errors, Go maps, loops over slices, the locale \<open>frame\<close> (a reflexive, transitive
    relation between worlds that every step of a handler respects), from which what a handler leaves
    alone follows by going through its steps. GoStd, GoNet, Sha1, Base64, JsonText, JsonMap: what the code
    uses of \<open>strings\<close>, \<open>strconv\<close>, \<open>net\<close>, \<open>net/url\<close>, \<open>crypto/sha1\<close>, \<open>encoding/hex\<close>, \<open>encoding/base64\<close>,
    \<open>encoding/json\<close>. Triples: what a handler returns and leaves behind, as rules that follow its steps.
  \<^item> ApiTypes: the resources, the ones of \<open>src/pkg/apis\<close> field by field, those of Kubernetes, OCM and
    Argo CD with the fields the code reads or writes.
  \<^item> Kube: the API server: get, list, page, create, update, patch, delete with their documented
    errors, once for all kinds in the locale \<open>kind\<close>, which is interpreted for each store of the world.
  \<^item> Conditions: \<open>SetCondition\<close> and its readers, \<open>initializeConditions\<close>, \<open>updateReadyCondition\<close>,
    \<open>updateGitOpsClusterConditions\<close>, \<open>olm_subscription.go\<close>. The conditions stay a map keyed by type
    and \<open>Ready\<close> is what the others say.
  \<^item> PullModelConfig: \<open>src/pkg/pullmodelconfig/config.go\<close>; the race of any number of processes to plant
    the ConfigMap is a step relation, of which agreement is an invariant.
  \<^item> ClusterEvents: the event filters and names of \<open>src/pkg/utils/cluster.go\<close>.
  \<^item> Propagation: \<open>helper.go\<close> and \<open>application_controller.go\<close>: the gate by PlacementDecisions, the
    contents of the works, delivery and release. PropagationStatus: \<open>application_status_controller.go\<close>.
    PullModelSweep: \<open>pull_model_disable.go\<close>, and that it recognises exactly what Propagation generates.
  \<^item> StatusAggregation: \<open>multiclusterStatusAggregation_controller.go\<close> and the report type: paging is
    complete, one pass reports what was collected and the next one writes nothing, clean-up is safe.
  \<^item> ImportClusters: \<open>import_clusters.go\<close>: identity and security of cluster secrets, what an import
    registers, which secrets it replaces. GitOpsClusters: of \<open>gitopscluster_controller.go\<close> the
    namespace gate, the mapping of events to requests, validation and the removal of orphans.
  \<^item> ImageRegistry: the whole of \<open>imageregistry_controller.go\<close>; ImageMirroring and ImageRevert hold what
    is proved of it: mirroring settles, is reversible, and neither direction touches a foreign config.
  \<^item> AddonManagement: \<open>addon_management.go\<close>, the defaults of \<open>src/pkg/utils/config.go\<close> and the
    image detection of \<open>agent_version_heal.go\<close>: the variables after a pass, that passes settle, that the
    two controllers writing the same object do not undo each other. AddonEnvironment:
    the environment of the agent, from the hub's choice to what the agent reads.

  \<^item> Maestro: \<open>maestro_helper.go\<close>, \<open>propagation_controller.go\<close> and \<open>aggregation_controller.go\<close> of
    \<open>src/maestroapplication\<close>: delivery, the works that two Applications share, where the feedback goes.
  \<^item> SpokeAgent: the ground of the agent on a managed cluster: the mark of what it owns, the pause
    marker, deletions with finalizers, sleeping; the frame \<open>keeps\<close>, which follows one object through a handler.
    SpokeSecrets: \<open>secret_controller.go\<close>: the certificate arrives, and a failed restart is never made up for.
    SpokeOLM: the Subscription and its repairs; it settles, and its fields are the hub's choice.
    SpokeInstall: \<open>gitopsaddon_install.go\<close>, \<open>gitopsaddon_utils.go\<close> and the periodic reconcile:
    what the agent does not own it leaves alone, under every failure. SpokeCleanup:
    \<open>gitopsaddon_cleanup.go\<close>: the same of the clean-up, and when its wait for finalizers ends and when it does not.

  \<^item> AgentPrereqs: \<open>argocd_agent_setup.go\<close> (JWT and Redis secrets, RBAC). ServerDiscovery:
    \<open>argocd_agent_discovery.go\<close>. HubCA: the propagation of the hub's CA through ManifestWorks.
    AgentCertificates: \<open>argocd_agent_certs.go\<close>. AgentClusters: \<open>argocd_agent_clusters.go\<close>.
    AddonTemplates: \<open>addon_template_management.go\<close>. Policies: \<open>argocd_policy.go\<close>.
  \<^item> ReconcileGitOps: \<open>reconcileGitOpsCluster\<close> with its phases, over all of the above; what the status shows
    after any outcome. NamespaceRefusal: what a GitOpsCluster outside the Argo CD namespace can and
    cannot bring about.
  \<^item> SearchSync: \<open>gitopssyncresc_controller.go\<close>: the queries, the paging, the report files.

  \<^bold>\<open>Bounds and fuel.\<close> Two loops are not over a list in memory, both of paging. In the status
  aggregation \<open>collectPages\<close> takes fuel, and \<open>collection_complete\<close> proves that any fuel above the
  number of full pages of 500 (the limit of the code) is enough to return. In the resource sync
  \<open>syncPages\<close> takes fuel; \<open>search_returns\<close> proves that any fuel above the number of full pages is
  enough, and \<open>negative_batch_never_returns\<close> that with a negative batch size, which the code accepts, none
  is. The wait of the clean-up job for the ArgoCD resources has no deadline in the code: \<open>deleteArgoCDCR\<close> is
  observed for a number of rounds; \<open>cleanup_ends\<close> proves that the number of resources plus four is enough when the operator
  works, \<open>cleanup_waits_for_operator\<close> that no number is when it does not. The agent's waits with a
  deadline take the number of checks that fit into it from \<open>sp_checks\<close>; the deletion by kinds counts its
  seconds as the code does. A retry on conflict makes four attempts, client-go's default. Everything else is structural recursion.

  \<^bold>\<open>Parameters.\<close> The verdicts of the API server; the clock; the environment of the process; the YAML and legacy
  JSON decoders and the reachability of a cluster URL; the report files; the order in which Go visits a map;
  the addon framework's substitution of placeholders; the X.509, JWT and key functions of the Go library and
  of the agent's packages with the random numbers they draw; the search service's answers. These are
  arguments of the definitions (\<open>surroundings\<close>, \<open>search_env\<close> and records like them); what a theorem needs
  of them is a named hypothesis. For the agent on a managed cluster they are
  the record \<open>spoke_env\<close>: its environment, what the rest of the cluster does during each sleep, the clock; Helm's
  rendering and the decoding of its documents are \<open>chart_lib\<close>. For Maestro: the patch its client computes from two
  works, the feedback reported for a work, the decoding of a status.

  \<^bold>\<open>Not modelled.\<close> The processes' start-up (\<open>src/cmd\<close>), which parses flags and wires controllers to a
  manager; the registration of types and controllers with watches; generated deep copies (values are
  copied by construction here). Of the agent: the copying of the embedded chart to a directory for Helm. Of
  Maestro: the dialling of its client and the look-up of its address at start-up. In the agent's world
  Secrets, Namespaces and ConfigMaps that the code reads as typed objects are in the typed stores; every other
  object, and what the chart brings, is in one store of objects as JSON, keyed by kind. The helpers of \<open>src/pkg/utils\<close> that
  probe whether an API is installed and then end the process, or install a CRD from a file at
  start-up: they only call libraries.
\<close>

end
